(* ===== verification/Prelude.thy ===== *)
theory Prelude
  imports Main "HOL-Library.Sublist"
begin

section \<open>Prelude: byte strings, options and lists\<close>

text \<open>
  What the components share. A Rust \<open>str\<close> is a HOL \<open>string\<close> whose characters are the
  bytes of its UTF-8 encoding (a HOL \<open>char\<close> is a byte), so \<open>len\<close>, \<open>starts_with\<close>, \<open>contains\<close>,
  \<open>find\<close> and \<open>split\<close> on the patterns the code uses mean exactly what they mean in Rust.
  \<open>trim\<close> strips the UTF-8 encodings of the Unicode white-space characters. A \<open>HashSet\<close> is the
  list of its elements in iteration order; nothing proved here depends on that order unless it
  says so.
\<close>

named_theorems str_simps
named_theorems decision_simps
named_theorems ts_simps
named_theorems gate_simps

type_synonym str = string

abbreviation backslash :: char where "backslash \<equiv> CHR 0x5C"
abbreviation dquote :: char where "dquote \<equiv> CHR 0x22"
abbreviation squote :: char where "squote \<equiv> CHR 0x27"
abbreviation newline :: char where "newline \<equiv> CHR 0x0A"

subsection \<open>Prefixes, suffixes and substrings\<close>

fun starts_with :: "str \<Rightarrow> str \<Rightarrow> bool" where
  "starts_with s [] = True"
| "starts_with [] (p # ps) = False"
| "starts_with (c # cs) (p # ps) = (c = p \<and> starts_with cs ps)"

definition ends_with :: "str \<Rightarrow> str \<Rightarrow> bool" where
  "ends_with s p = starts_with (rev s) (rev p)"

fun contains :: "str \<Rightarrow> str \<Rightarrow> bool" where
  "contains [] p = (p = [])"
| "contains (c # cs) p = (starts_with (c # cs) p \<or> contains cs p)"

definition strip_prefix :: "str \<Rightarrow> str \<Rightarrow> str option" where
  "strip_prefix s p = (if starts_with s p then Some (drop (length p) s) else None)"

definition strip_suffix :: "str \<Rightarrow> str \<Rightarrow> str option" where
  "strip_suffix s p = (if ends_with s p then Some (take (length s - length p) s) else None)"

fun split_once :: "str \<Rightarrow> str \<Rightarrow> (str \<times> str) option" where
  "split_once d [] = (if d = [] then Some ([], []) else None)"
| "split_once d (c # cs) =
     (if starts_with (c # cs) d then Some ([], drop (length d) (c # cs))
      else map_option (\<lambda>(a, b). (c # a, b)) (split_once d cs))"

fun split_on :: "char \<Rightarrow> str \<Rightarrow> str list" where
  "split_on d [] = [[]]"
| "split_on d (c # cs) =
     (if c = d then [] # split_on d cs
      else (case split_on d cs of [] \<Rightarrow> [[c]] | w # ws \<Rightarrow> (c # w) # ws))"

fun join :: "str \<Rightarrow> str list \<Rightarrow> str" where
  "join sep [] = []"
| "join sep [x] = x"
| "join sep (x # y # r) = x @ sep @ join sep (y # r)"

text \<open>\<open>str::lines\<close>: a final newline ends the last line, a carriage return before a newline is dropped.\<close>

definition strip_cr :: "str \<Rightarrow> str" where
  "strip_cr s = (case strip_suffix s [CHR 0x0D] of Some r \<Rightarrow> r | None \<Rightarrow> s)"

definition str_lines :: "str \<Rightarrow> str list" where
  "str_lines s =
     (let parts = split_on newline s
      in map strip_cr (butlast parts) @ (if last parts = [] then [] else [last parts]))"

text \<open>\<open>s.replace(ab, t)\<close> for a two-byte pattern: left to right, not overlapping.\<close>

fun replace2 :: "char \<Rightarrow> char \<Rightarrow> str \<Rightarrow> str \<Rightarrow> str" where
  "replace2 a b t [] = []"
| "replace2 a b t [x] = [x]"
| "replace2 a b t (x # y # r) =
     (if x = a \<and> y = b then t @ replace2 a b t r else x # replace2 a b t (y # r))"

text \<open>\<open>w.rsplit(['/', '\']).next()\<close>: the part after the last separator.\<close>

definition last_path_seg :: "str \<Rightarrow> str" where
  "last_path_seg s = rev (takeWhile (\<lambda>c. c \<noteq> CHR ''/'' \<and> c \<noteq> backslash) (rev s))"

subsection \<open>White space and case\<close>

definition ws_seqs :: "str list" where
  "ws_seqs =
     [[CHR 0x09], [CHR 0x0A], [CHR 0x0B], [CHR 0x0C], [CHR 0x0D], [CHR 0x20],
      [CHR 0xC2, CHR 0x85], [CHR 0xC2, CHR 0xA0], [CHR 0xE1, CHR 0x9A, CHR 0x80],
      [CHR 0xE2, CHR 0x80, CHR 0x80], [CHR 0xE2, CHR 0x80, CHR 0x81],
      [CHR 0xE2, CHR 0x80, CHR 0x82], [CHR 0xE2, CHR 0x80, CHR 0x83],
      [CHR 0xE2, CHR 0x80, CHR 0x84], [CHR 0xE2, CHR 0x80, CHR 0x85],
      [CHR 0xE2, CHR 0x80, CHR 0x86], [CHR 0xE2, CHR 0x80, CHR 0x87],
      [CHR 0xE2, CHR 0x80, CHR 0x88], [CHR 0xE2, CHR 0x80, CHR 0x89],
      [CHR 0xE2, CHR 0x80, CHR 0x8A], [CHR 0xE2, CHR 0x80, CHR 0xA8],
      [CHR 0xE2, CHR 0x80, CHR 0xA9], [CHR 0xE2, CHR 0x80, CHR 0xAF],
      [CHR 0xE2, CHR 0x81, CHR 0x9F], [CHR 0xE3, CHR 0x80, CHR 0x80]]"

function strip_seqs :: "str list \<Rightarrow> str \<Rightarrow> str" where
  "strip_seqs ws s =
     (case find (\<lambda>w. w \<noteq> [] \<and> starts_with s w) ws of
        None \<Rightarrow> s
      | Some w \<Rightarrow> strip_seqs ws (drop (length w) s))"
  by pat_completeness auto
termination
proof (relation "measure (\<lambda>(ws, s). length s)")
  fix ws s w
  assume "find (\<lambda>w. w \<noteq> [] \<and> starts_with s w) ws = Some w"
  then have "w \<noteq> []" "starts_with s w" by (auto simp: find_Some_iff)
  then show "((ws, drop (length w) s), ws, s) \<in> measure (\<lambda>(ws, s). length s)"
    by (cases s; cases w) auto
qed simp

declare strip_seqs.simps [simp del]

definition trim_start :: "str \<Rightarrow> str" where
  "trim_start s = strip_seqs ws_seqs s"

definition trim_end :: "str \<Rightarrow> str" where
  "trim_end s = rev (strip_seqs (map rev ws_seqs) (rev s))"

definition trim :: "str \<Rightarrow> str" where
  "trim s = trim_end (trim_start s)"

definition ascii_lower :: "char \<Rightarrow> char" where
  "ascii_lower c =
     (let n = (of_char c :: nat) in if 65 \<le> n \<and> n \<le> 90 then char_of (n + 32) else c)"

definition to_ascii_lowercase :: "str \<Rightarrow> str" where
  "to_ascii_lowercase s = map ascii_lower s"

definition eq_ignore_ascii_case :: "str \<Rightarrow> str \<Rightarrow> bool" where
  "eq_ignore_ascii_case a b = (to_ascii_lowercase a = to_ascii_lowercase b)"

definition is_ascii_digit :: "char \<Rightarrow> bool" where
  "is_ascii_digit c = (let n = (of_char c :: nat) in 48 \<le> n \<and> n \<le> 57)"

definition is_ascii_alphabetic :: "char \<Rightarrow> bool" where
  "is_ascii_alphabetic c =
     (let n = (of_char c :: nat) in (65 \<le> n \<and> n \<le> 90) \<or> (97 \<le> n \<and> n \<le> 122))"

definition is_ascii_alphanumeric :: "char \<Rightarrow> bool" where
  "is_ascii_alphanumeric c = (is_ascii_alphabetic c \<or> is_ascii_digit c)"

text \<open>\<open>slice s a b\<close> is \<open>&s[a..b]\<close>; \<open>nth_opt xs i\<close> is \<open>xs.get(i)\<close>; \<open>get_from xs i\<close> is \<open>xs.get(i..)\<close>.\<close>

definition slice :: "'a list \<Rightarrow> nat \<Rightarrow> nat \<Rightarrow> 'a list" where
  "slice s a b = take (b - a) (drop a s)"

definition nth_opt :: "'a list \<Rightarrow> nat \<Rightarrow> 'a option" where
  "nth_opt xs i = (if i < length xs then Some (xs ! i) else None)"

definition get_from :: "'a list \<Rightarrow> nat \<Rightarrow> 'a list option" where
  "get_from xs i = (if i \<le> length xs then Some (drop i xs) else None)"

text \<open>\<open>s.is_char_boundary(i)\<close>: the byte at \<open>i\<close> does not continue a UTF-8 sequence.\<close>

definition is_char_boundary :: "str \<Rightarrow> nat \<Rightarrow> bool" where
  "is_char_boundary s i =
     (i = 0 \<or> i = length s
      \<or> (i < length s \<and> (let n = (of_char (s ! i) :: nat) in n < 128 \<or> 192 \<le> n)))"

text \<open>The bytes that start a character, in a UTF-8 string.\<close>

definition starts_char :: "char \<Rightarrow> bool" where
  "starts_char c = (let n = (of_char c :: nat) in n < 128 \<or> 192 \<le> n)"

text \<open>
  The characters of a UTF-8 string: how many there are (\<open>s.chars().count()\<close>), the first \<open>n\<close> of them and the rest
  (\<open>chars().take(n)\<close>, \<open>chars().skip(n)\<close>).
\<close>

definition char_count :: "str \<Rightarrow> nat" where
  "char_count s = length (filter starts_char s)"

fun take_chars :: "nat \<Rightarrow> str \<Rightarrow> str" where
  "take_chars n [] = []"
| "take_chars n (c # cs) =
     (if starts_char c then (case n of 0 \<Rightarrow> [] | Suc m \<Rightarrow> c # take_chars m cs)
      else c # take_chars n cs)"

definition skip_chars :: "nat \<Rightarrow> str \<Rightarrow> str" where
  "skip_chars n s = drop (length (take_chars n s)) s"

text \<open>\<open>s.find(p)\<close> and \<open>s.rfind(p)\<close>.\<close>

fun find_sub :: "str \<Rightarrow> str \<Rightarrow> nat option" where
  "find_sub [] p = (if p = [] then Some 0 else None)"
| "find_sub (c # r) p = (if starts_with (c # r) p then Some 0 else map_option Suc (find_sub r p))"

fun rfind_sub :: "str \<Rightarrow> str \<Rightarrow> nat option" where
  "rfind_sub [] p = (if p = [] then Some 0 else None)"
| "rfind_sub (c # r) p =
     (case rfind_sub r p of
        Some i \<Rightarrow> Some (Suc i)
      | None \<Rightarrow> if starts_with (c # r) p then Some 0 else None)"

text \<open>\<open>s.replace(p, t)\<close>; an empty pattern matches before every character and at the end.\<close>

function replace_all :: "str \<Rightarrow> str \<Rightarrow> str \<Rightarrow> str" where
  "replace_all p t s =
     (if p = [] then concat (map (\<lambda>b. if starts_char b then t @ [b] else [b]) s) @ t
      else (case s of
              [] \<Rightarrow> []
            | c # r \<Rightarrow> if starts_with s p then t @ replace_all p t (drop (length p) s)
                       else c # replace_all p t r))"
  by pat_completeness auto
termination
  by (relation "measure (\<lambda>(p, t, s). length s)") auto

declare replace_all.simps [simp del]

text \<open>The character a white-space test sees: the sequence of \<open>ws_seqs\<close> the text starts with.\<close>

definition ws_prefix :: "str \<Rightarrow> str option" where
  "ws_prefix s = find (\<lambda>w. starts_with s w) ws_seqs"

subsection \<open>Lemmas\<close>

lemma starts_with_iff_prefix: "starts_with s p \<longleftrightarrow> prefix p s"
  by (induction s p rule: starts_with.induct) auto

lemma starts_with_append [simp]: "starts_with (p @ s) p"
  by (simp add: starts_with_iff_prefix)

lemma starts_with_refl [simp]: "starts_with s s"
  by (simp add: starts_with_iff_prefix)

lemma starts_with_Nil_left [simp]: "starts_with [] p \<longleftrightarrow> p = []"
  by (simp add: starts_with_iff_prefix)

lemma starts_withE:
  assumes "starts_with s p"
  obtains r where "s = p @ r"
  using assms by (auto simp: starts_with_iff_prefix prefix_def)

lemma ends_with_iff_suffix: "ends_with s p \<longleftrightarrow> suffix p s"
  by (simp add: ends_with_def starts_with_iff_prefix suffix_to_prefix)

lemma contains_iff: "contains s p \<longleftrightarrow> (\<exists>a b. s = a @ p @ b)"
proof (induction s)
  case Nil
  then show ?case by simp
next
  case (Cons c cs)
  show ?case
  proof
    assume "contains (c # cs) p"
    then consider "starts_with (c # cs) p" | "contains cs p" by auto
    then show "\<exists>a b. c # cs = a @ p @ b"
    proof cases
      case 1
      then obtain r where "c # cs = p @ r" by (rule starts_withE)
      then have "c # cs = [] @ p @ r" by simp
      then show ?thesis by blast
    next
      case 2
      then obtain a b where "cs = a @ p @ b" using Cons.IH by blast
      then have "c # cs = (c # a) @ p @ b" by simp
      then show ?thesis by blast
    qed
  next
    assume "\<exists>a b. c # cs = a @ p @ b"
    then obtain a b where *: "c # cs = a @ p @ b" by blast
    show "contains (c # cs) p"
    proof (cases a)
      case Nil
      with * have "c # cs = p @ b" by simp
      then have "starts_with (c # cs) p" by (metis starts_with_append)
      then show ?thesis by simp
    next
      case (Cons x xs)
      with * have "cs = xs @ p @ b" by simp
      then show ?thesis using Cons.IH by auto
    qed
  qed
qed

lemma strip_prefix_SomeD: "strip_prefix s p = Some r \<Longrightarrow> s = p @ r"
  by (auto simp: strip_prefix_def starts_with_iff_prefix prefix_def split: if_splits)

lemma strip_prefix_append [simp]: "strip_prefix (p @ r) p = Some r"
  by (simp add: strip_prefix_def)

lemma strip_prefix_Nil: "strip_prefix [] (c # p) = None"
  by (simp add: strip_prefix_def)

lemma strip_prefix_mismatch: "c \<noteq> d \<Longrightarrow> strip_prefix (c # s) (d # p) = None"
  by (simp add: strip_prefix_def)

lemma split_once_SomeD: "split_once d s = Some (a, b) \<Longrightarrow> s = a @ d @ b"
proof (induction d s arbitrary: a b rule: split_once.induct)
  case (1 d)
  then show ?case by (auto split: if_splits)
next
  case (2 d c cs)
  show ?case
  proof (cases "starts_with (c # cs) d")
    case True
    with 2 show ?thesis
      by (auto simp: starts_with_iff_prefix prefix_def)
  next
    case False
    with 2 show ?thesis by auto
  qed
qed

lemma split_on_nonempty [simp]: "split_on d s \<noteq> []"
  by (induction s) (auto split: list.splits)

lemma split_on_no_delim: "w \<in> set (split_on d s) \<Longrightarrow> d \<notin> set w"
proof (induction s arbitrary: w)
  case Nil
  then show ?case by simp
next
  case (Cons c cs)
  then show ?case by (cases "split_on d cs") (auto split: if_splits)
qed

lemma split_on_absent: "d \<notin> set s \<Longrightarrow> split_on d s = [s]"
  by (induction s) auto

lemma split_on_append_delim: "d \<notin> set a \<Longrightarrow> split_on d (a @ d # b) = a # split_on d b"
  by (induction a) auto

lemma split_on_join:
  "ws \<noteq> [] \<Longrightarrow> \<forall>w \<in> set ws. d \<notin> set w \<Longrightarrow> split_on d (join [d] ws) = ws"
proof (induction ws)
  case Nil
  then show ?case by simp
next
  case (Cons w ws)
  then show ?case
    by (cases ws) (auto simp: split_on_absent split_on_append_delim)
qed

lemma nth_opt_Some_iff: "nth_opt xs i = Some x \<longleftrightarrow> i < length xs \<and> xs ! i = x"
  by (auto simp: nth_opt_def)

lemma get_from_SomeD: "get_from xs i = Some ys \<Longrightarrow> ys = drop i xs \<and> i \<le> length xs"
  by (auto simp: get_from_def split: if_splits)

lemma ws_prefix_SomeD: "ws_prefix s = Some w \<Longrightarrow> w \<noteq> [] \<and> starts_with s w"
proof -
  assume "ws_prefix s = Some w"
  then have "w \<in> set ws_seqs" "starts_with s w"
    by (auto simp: ws_prefix_def find_Some_iff)
  moreover have "[] \<notin> set ws_seqs" by (simp add: ws_seqs_def)
  ultimately show ?thesis by metis
qed

lemma strip_seqs_suffix: "suffix (strip_seqs ws s) s"
proof (induction ws s rule: strip_seqs.induct)
  case (1 ws s)
  show ?case
  proof (cases "find (\<lambda>w. w \<noteq> [] \<and> starts_with s w) ws")
    case None
    have "strip_seqs ws s = s" by (subst strip_seqs.simps) (simp only: None option.case)
    then show ?thesis by simp
  next
    case (Some w)
    have "strip_seqs ws s = strip_seqs ws (drop (length w) s)"
      by (subst strip_seqs.simps) (simp only: Some option.case)
    moreover have "suffix (drop (length w) s) s" by (rule suffix_drop)
    ultimately show ?thesis using 1[OF Some] by (auto dest: suffix_order.order_trans)
  qed
qed

lemma strip_seqs_removed:
  "s = u @ strip_seqs ws s \<Longrightarrow> set u \<subseteq> (\<Union>w \<in> set ws. set w)"
proof (induction ws s arbitrary: u rule: strip_seqs.induct)
  case (1 ws s)
  show ?case
  proof (cases "find (\<lambda>w. w \<noteq> [] \<and> starts_with s w) ws")
    case None
    have "strip_seqs ws s = s" by (subst strip_seqs.simps) (simp only: None option.case)
    with 1(2) show ?thesis by simp
  next
    case (Some w)
    then have w: "starts_with s w" "w \<in> set ws" by (auto simp: find_Some_iff)
    then obtain r where r: "s = w @ r" by (auto elim: starts_withE)
    have "strip_seqs ws s = strip_seqs ws (drop (length w) s)"
      by (subst strip_seqs.simps) (simp only: Some option.case)
    then have e: "strip_seqs ws s = strip_seqs ws r" by (simp add: r)
    obtain v where v: "r = v @ strip_seqs ws r"
      using strip_seqs_suffix[of ws r] by (auto simp: suffix_def)
    have "set v \<subseteq> (\<Union>w \<in> set ws. set w)" using 1(1)[OF Some] v r by simp
    moreover have "u = w @ v"
    proof -
      have "u @ strip_seqs ws r = (w @ v) @ strip_seqs ws r" using 1(2) e r v by simp
      then show ?thesis by simp
    qed
    ultimately show ?thesis using w(2) by auto
  qed
qed

lemma strip_seqs_length: "length (strip_seqs ws s) \<le> length s"
  by (rule suffix_length_le) (rule strip_seqs_suffix)

lemma strip_seqs_id_iff:
  assumes "[] \<notin> set ws"
  shows "strip_seqs ws s = s \<longleftrightarrow> (\<forall>w \<in> set ws. \<not> starts_with s w)"
proof (cases "find (\<lambda>w. w \<noteq> [] \<and> starts_with s w) ws")
  case None
  then have "\<not> (\<exists>w. w \<in> set ws \<and> w \<noteq> [] \<and> starts_with s w)" by (rule find_None_iff[THEN iffD1])
  with assms have none: "\<forall>w \<in> set ws. \<not> starts_with s w" by metis
  have "strip_seqs ws s = s" by (subst strip_seqs.simps) (simp only: None option.case)
  with none show ?thesis by blast
next
  case (Some w)
  then have w: "w \<noteq> []" "starts_with s w" "w \<in> set ws" by (auto simp: find_Some_iff)
  have "strip_seqs ws s = strip_seqs ws (drop (length w) s)"
    by (subst strip_seqs.simps) (simp only: Some option.case)
  moreover have "length (drop (length w) s) < length s" using w(1,2) by (cases s; cases w) auto
  ultimately have "length (strip_seqs ws s) < length s"
    by (metis strip_seqs_length order_le_less_trans)
  then have "strip_seqs ws s \<noteq> s" by auto
  with w show ?thesis by blast
qed

lemma ws_seqs_no_Nil: "[] \<notin> set ws_seqs" "[] \<notin> set (map rev ws_seqs)"
  by (simp_all add: ws_seqs_def)

lemma trim_start_id_iff: "trim_start s = s \<longleftrightarrow> (\<forall>w \<in> set ws_seqs. \<not> starts_with s w)"
  by (simp add: trim_start_def strip_seqs_id_iff ws_seqs_no_Nil)

lemma trim_end_id_iff: "trim_end s = s \<longleftrightarrow> (\<forall>w \<in> set ws_seqs. \<not> ends_with s w)"
proof -
  have "trim_end s = s \<longleftrightarrow> strip_seqs (map rev ws_seqs) (rev s) = rev s"
    unfolding trim_end_def by (metis rev_rev_ident)
  then show ?thesis by (simp add: strip_seqs_id_iff[OF ws_seqs_no_Nil(2)] ends_with_def)
qed

lemma trim_id_iff:
  "trim s = s \<longleftrightarrow> (\<forall>w \<in> set ws_seqs. \<not> starts_with s w \<and> \<not> ends_with s w)"
proof -
  have "length (trim_end t) \<le> length t" for t
    unfolding trim_end_def by (metis length_rev strip_seqs_length)
  moreover have "length (trim_start s) \<le> length s" by (simp add: trim_start_def strip_seqs_length)
  moreover have "length (trim_start s) < length s" if "trim_start s \<noteq> s"
    using that strip_seqs_suffix[of ws_seqs s] unfolding trim_start_def
    by (metis suffix_length_less strict_suffix_def)
  ultimately have "trim s = s \<longleftrightarrow> trim_start s = s \<and> trim_end s = s"
    unfolding trim_def by (metis leD order_trans)
  then show ?thesis by (auto simp: trim_start_id_iff trim_end_id_iff)
qed

lemma ws_not_alphabetic: "w \<in> set ws_seqs \<Longrightarrow> \<forall>x \<in> set w. \<not> is_ascii_alphabetic x"
  by (auto simp: ws_seqs_def is_ascii_alphabetic_def Let_def)

text \<open>Trimming keeps the first byte of a string when no white-space character contains it.\<close>

lemma trim_hd:
  assumes "s \<noteq> []" "\<forall>w \<in> set ws_seqs. hd s \<notin> set w"
  shows "trim s \<noteq> [] \<and> hd (trim s) = hd s"
proof -
  obtain c cs where s: "s = c # cs" "\<forall>w \<in> set ws_seqs. c \<notin> set w" using assms by (cases s) auto
  have "\<not> starts_with s w" if "w \<in> set ws_seqs" for w
  proof
    assume "starts_with s w"
    moreover have "w \<noteq> []" using that ws_seqs_no_Nil by metis
    ultimately have "c \<in> set w" using s(1) by (cases w) auto
    with s(2) that show False by blast
  qed
  then have ts: "trim_start s = s" by (simp add: trim_start_id_iff)
  obtain u where u: "rev s = u @ strip_seqs (map rev ws_seqs) (rev s)"
    using strip_seqs_suffix[of "map rev ws_seqs" "rev s"] by (auto simp: suffix_def)
  have te: "s = trim_end s @ rev u"
    unfolding trim_end_def using arg_cong[OF u, of rev] by simp
  have "trim_end s \<noteq> []"
  proof
    assume "trim_end s = []"
    with te s(1) have "c \<in> set u" by (metis append_Nil list.set_intros(1) set_rev)
    moreover have "set u \<subseteq> (\<Union>w \<in> set (map rev ws_seqs). set w)"
      using strip_seqs_removed[OF u] .
    ultimately obtain w where "w \<in> set ws_seqs" "c \<in> set w" by auto
    with s(2) show False by blast
  qed
  with te ts show ?thesis unfolding trim_def by (metis hd_append2)
qed

lemma trim_id_ends:
  assumes "s \<noteq> []" "\<forall>w \<in> set ws_seqs. hd s \<notin> set w \<and> last s \<notin> set w"
  shows "trim s = s"
proof -
  have "\<not> starts_with s w \<and> \<not> ends_with s w" if "w \<in> set ws_seqs" for w
  proof -
    have "w \<noteq> []" using that ws_seqs_no_Nil by metis
    then have "prefix w s \<Longrightarrow> hd s \<in> set w" "suffix w s \<Longrightarrow> last s \<in> set w"
      by (auto simp: prefix_def suffix_def)
    then show ?thesis
      using assms(2) that by (auto simp: starts_with_iff_prefix ends_with_iff_suffix)
  qed
  then show ?thesis by (simp add: trim_id_iff)
qed

lemma trim_alpha_hd:
  assumes "s \<noteq> []" "is_ascii_alphabetic (hd s)"
  shows "trim s \<noteq> [] \<and> hd (trim s) = hd s"
  using assms ws_not_alphabetic by (intro trim_hd) blast+

lemma join_split_on: "join [d] (split_on d s) = s"
proof (induction s)
  case Nil
  then show ?case by simp
next
  case (Cons c cs)
  then show ?case by (cases "split_on d cs"; cases "tl (split_on d cs)") auto
qed

lemma concat_lines: "xs \<noteq> [] \<Longrightarrow> concat (map (\<lambda>l. l @ [d]) (butlast xs)) @ last xs = join [d] xs"
proof (induction xs)
  case (Cons x xs)
  then show ?case by (cases xs) auto
qed simp

lemma take_chars_split:
  assumes "n < char_count s"
  shows "\<exists>rest. s = take_chars n s @ rest \<and> char_count (take_chars n s) = n \<and> rest \<noteq> [] \<and> starts_char (hd rest)"
  using assms
proof (induction n s rule: take_chars.induct)
  case (1 n)
  then show ?case by (simp add: char_count_def)
next
  case (2 n c cs)
  show ?case
  proof (cases "starts_char c")
    case False
    with 2 have "n < char_count cs" by (simp add: char_count_def)
    then obtain rest where "cs = take_chars n cs @ rest" "char_count (take_chars n cs) = n" "rest \<noteq> []"
      "starts_char (hd rest)" using 2(2)[OF False] by blast
    with False show ?thesis by (intro exI[of _ rest]) (simp add: char_count_def)
  next
    case True
    show ?thesis
    proof (cases n)
      case 0
      with True show ?thesis by (simp add: char_count_def)
    next
      case (Suc m)
      with True 2 have "m < char_count cs" by (simp add: char_count_def)
      then obtain rest where "cs = take_chars m cs @ rest" "char_count (take_chars m cs) = m" "rest \<noteq> []"
        "starts_char (hd rest)" using 2(1)[OF True Suc] by blast
      with True Suc show ?thesis by (intro exI[of _ rest]) (simp add: char_count_def)
    qed
  qed
qed

lemma find_sub_SomeD: "find_sub s p = Some i \<Longrightarrow> s = take i s @ p @ drop (i + length p) s"
proof (induction s p arbitrary: i rule: find_sub.induct)
  case (1 p)
  then show ?case by (simp split: if_splits)
next
  case (2 c r p)
  show ?case
  proof (cases "starts_with (c # r) p")
    case True
    then obtain t where "c # r = p @ t" using starts_withE by blast
    with 2 True show ?thesis by (metis append_Nil append_eq_conv_conj find_sub.simps(2) option.inject take0 add_0)
  next
    case False
    with 2 show ?thesis by auto
  qed
qed

lemma find_sub_None_iff: "find_sub s p = None \<longleftrightarrow> \<not> contains s p"
  by (induction s p rule: find_sub.induct) auto

lemma rfind_sub_SomeD: "rfind_sub s p = Some i \<Longrightarrow> s = take i s @ p @ drop (i + length p) s"
proof (induction s p arbitrary: i rule: rfind_sub.induct)
  case (1 p)
  then show ?case by (simp split: if_splits)
next
  case (2 c r p)
  show ?case
  proof (cases "rfind_sub r p")
    case None
    with 2 have "starts_with (c # r) p" "i = 0" by (auto split: if_splits)
    then show ?thesis using starts_withE by (metis append_Nil append_eq_conv_conj take0 add_0)
  next
    case (Some k)
    with 2 show ?thesis by auto
  qed
qed

lemma rfind_sub_None_iff: "rfind_sub s p = None \<longleftrightarrow> \<not> contains s p"
  by (induction s p rule: rfind_sub.induct) (auto split: option.split)

lemma find_sub_less: "find_sub s p = Some i \<Longrightarrow> i + length p \<le> length s"
  by (induction s p arbitrary: i rule: find_sub.induct)
    (auto simp: starts_with_iff_prefix split: if_splits dest: prefix_length_le)

lemma in_set_map_filter: "y \<in> set (List.map_filter f xs) \<longleftrightarrow> (\<exists>x \<in> set xs. f x = Some y)"
proof (induction xs)
  case Nil
  then show ?case by (simp add: map_filter_simps)
next
  case (Cons x xs)
  then show ?case by (cases "f x") (auto simp: map_filter_simps)
qed

lemma find_None_all: "find P xs = None \<longleftrightarrow> (\<forall>x \<in> set xs. \<not> P x)"
  by (auto simp: find_None_iff)

lemma list_ex_find: "(\<exists>x \<in> set xs. P x) \<longleftrightarrow> (\<exists>y. find P xs = Some y)"
  by (metis find_None_all not_Some_eq)

subsection \<open>Bounded peeling\<close>

text \<open>
  Several loops of the code peel a prefix off a word list a bounded number of times. \<open>peel_n\<close> is
  that loop; \<open>peeler\<close> is the contract a peeling function keeps, under which the loop returns a
  non-empty suffix of what it was given.
\<close>

fun peel_n :: "nat \<Rightarrow> ('a list \<Rightarrow> 'a list option) \<Rightarrow> 'a list \<Rightarrow> 'a list" where
  "peel_n 0 peel xs = xs"
| "peel_n (Suc n) peel xs = (case peel xs of Some ys \<Rightarrow> peel_n n peel ys | None \<Rightarrow> xs)"

locale peeler =
  fixes peel :: "'a list \<Rightarrow> 'a list option"
  assumes peel_strict_suffix: "peel xs = Some ys \<Longrightarrow> strict_suffix ys xs"
    and peel_nonempty: "peel xs = Some ys \<Longrightarrow> ys \<noteq> []"
begin

lemma peel_n_suffix: "suffix (peel_n n peel xs) xs"
proof (induction n arbitrary: xs)
  case 0
  then show ?case by simp
next
  case (Suc n)
  show ?case
  proof (cases "peel xs")
    case None
    then show ?thesis by simp
  next
    case (Some ys)
    then have "suffix ys xs" using peel_strict_suffix by (auto simp: strict_suffix_def)
    moreover have "suffix (peel_n n peel ys) ys" by (rule Suc.IH)
    ultimately show ?thesis using Some by (auto dest: suffix_order.order_trans)
  qed
qed

lemma peel_n_nonempty: "xs \<noteq> [] \<Longrightarrow> peel_n n peel xs \<noteq> []"
proof (induction n arbitrary: xs)
  case 0
  then show ?case by simp
next
  case (Suc n)
  then show ?case by (cases "peel xs") (auto dest: peel_nonempty)
qed

lemma peel_n_complete:
  assumes "length xs \<le> n"
  shows "peel (peel_n n peel xs) = None \<or> peel_n n peel xs = []"
  using assms
proof (induction n arbitrary: xs)
  case 0
  then show ?case by simp
next
  case (Suc n)
  show ?case
  proof (cases "peel xs")
    case None
    then show ?thesis by simp
  next
    case (Some ys)
    then have "length ys < length xs"
      using peel_strict_suffix suffix_length_less by blast
    then have "length ys \<le> n" using Suc.prems by simp
    then show ?thesis using Some Suc.IH by simp
  qed
qed

end

lemmas str_list_simps [str_simps] =
  starts_with_iff_prefix ends_with_iff_suffix strip_prefix_def strip_suffix_def

end
