(* ===== verification/Externals.thy ===== *)
theory Externals
  imports Prelude
begin

section \<open>Code outside the repository\<close>

text \<open>
  The permission system calls five pieces of code that are not in the repository: the \<open>glob\<close>
  crate, the \<open>url\<close> crate, \<open>serde_json\<close>, the tree-sitter bash parser and the operating system's
  file system; \<open>to_lowercase\<close> needs the Unicode tables of the standard library. They are the
  fields of the record \<open>externals\<close>, which every definition that calls them takes as an argument.
  Nothing is assumed about them here; a lemma that needs a documented behaviour names it as a
  hypothesis.
\<close>

subsection \<open>JSON values (\<open>serde_json::Value\<close>)\<close>

text \<open>A number carries what \<open>as_i64\<close> returns for it and its printed form.\<close>

datatype json =
    JNull
  | JBool bool
  | JNum "int option" str
  | JStr str
  | JArr "json list"
  | JObj "(str \<times> json) list"

fun json_get :: "json \<Rightarrow> str \<Rightarrow> json option" where
  "json_get (JObj kvs) k = map_of kvs k"
| "json_get _ k = None"

fun json_as_str :: "json \<Rightarrow> str option" where
  "json_as_str (JStr s) = Some s"
| "json_as_str _ = None"

fun json_as_bool :: "json \<Rightarrow> bool option" where
  "json_as_bool (JBool b) = Some b"
| "json_as_bool _ = None"

subsection \<open>Concrete syntax trees (tree-sitter)\<close>

text \<open>
  A node has a kind, whether it is named, the field of its parent it fills, its byte span and its
  children in source order (\<open>child(i)\<close>); \<open>ts_has_error\<close> is \<open>root_node().has_error()\<close>.
\<close>

datatype ts_node =
  TsNode (ts_kind: str) (ts_named: bool) (ts_field: "str option")
    (ts_start: nat) (ts_end: nat) (ts_children: "ts_node list")

record ts_tree =
  ts_root :: ts_node
  ts_has_error :: bool

definition utf8_text :: "str \<Rightarrow> ts_node \<Rightarrow> str" where
  "utf8_text src n = slice src (ts_start n) (ts_end n)"

definition named_children :: "ts_node \<Rightarrow> ts_node list" where
  "named_children n = filter ts_named (ts_children n)"

definition child_by_field_name :: "ts_node \<Rightarrow> str \<Rightarrow> ts_node option" where
  "child_by_field_name n f = find (\<lambda>c. ts_field c = Some f) (ts_children n)"

text \<open>
  The walks of the code keep a stack, push a node's children in order and pop the last: they visit
  a node, then its children's subtrees from the last child to the first. \<open>ts_walk\<close> is that loop and
  \<open>ts_dfs\<close> the recursive reading of it; \<open>ts_walk_dfs\<close> shows they visit the same nodes in the same
  order, so a definition may be written over \<open>ts_dfs\<close>.
\<close>

fun ts_dfs :: "ts_node \<Rightarrow> ts_node list" where
  "ts_dfs (TsNode k nm f s e cs) = TsNode k nm f s e cs # concat (rev (map ts_dfs cs))"

fun ts_size :: "ts_node \<Rightarrow> nat" where
  "ts_size (TsNode k nm f s e cs) = Suc (sum_list (map ts_size cs))"

text \<open>The stack's top is the head of the list: pushing in order reverses the children.\<close>

function ts_walk :: "ts_node list \<Rightarrow> ts_node list" where
  "ts_walk [] = []"
| "ts_walk (n # stack) = n # ts_walk (rev (ts_children n) @ stack)"
  by pat_completeness auto
termination
proof (relation "measure (\<lambda>st. sum_list (map ts_size st))")
  fix n :: ts_node and stack
  show "(rev (ts_children n) @ stack, n # stack) \<in> measure (\<lambda>st. sum_list (map ts_size st))"
    by (cases n) (simp add: rev_map[symmetric])
qed simp

lemma ts_walk_dfs_list: "ts_walk stack = concat (map ts_dfs stack)"
proof (induction stack rule: ts_walk.induct)
  case 1
  then show ?case by simp
next
  case (2 n stack)
  then show ?case by (cases n) (simp add: rev_map)
qed

lemma ts_walk_dfs: "ts_walk [n] = ts_dfs n"
  by (simp add: ts_walk_dfs_list)

lemma ts_dfs_self [simp]: "n \<in> set (ts_dfs n)"
  by (cases n) simp

lemma ts_dfs_child:
  assumes "c \<in> set (ts_children n)" "m \<in> set (ts_dfs c)"
  shows "m \<in> set (ts_dfs n)"
  using assms by (cases n) auto

subsection \<open>The record of external functions\<close>

text \<open>
  A compiled glob is represented by what it matches: \<open>glob_new p\<close> is \<open>glob::Pattern::new(p).ok()\<close>
  and the function takes \<open>require_literal_separator\<close> and the text. A parsed URL has a host and a
  path. The file-system calls take and return paths as strings.
\<close>

type_synonym glob_pattern = "bool \<Rightarrow> str \<Rightarrow> bool"

record url =
  host_str :: "str option"
  url_path :: str

record externals =
  glob_new :: "str \<Rightarrow> glob_pattern option"
  url_parse :: "str \<Rightarrow> url option"
  to_lowercase :: "str \<Rightarrow> str"
  parse_shell :: "str \<Rightarrow> ts_tree option"
  json_from_str :: "str \<Rightarrow> json option"
  json_to_string :: "json \<Rightarrow> str"
  fs_is_absolute :: "str \<Rightarrow> bool"
  fs_join :: "str \<Rightarrow> str \<Rightarrow> str"
  fs_parent :: "str \<Rightarrow> str option"
  fs_file_name :: "str \<Rightarrow> str option"
  fs_prefixes :: "str \<Rightarrow> str list"
  fs_canonicalize :: "str \<Rightarrow> str option"
  fs_is_symlink :: "str \<Rightarrow> bool option"
  fs_read_link :: "str \<Rightarrow> str option"

text \<open>
  An instance on which concrete examples evaluate: no globs, no URLs, no JSON, no files, and a
  parser that knows the given scripts.
\<close>

definition example_externals :: "(str \<Rightarrow> ts_tree option) \<Rightarrow> externals" where
  "example_externals parser =
     \<lparr>glob_new = (\<lambda>_. None), url_parse = (\<lambda>_. None), to_lowercase = to_ascii_lowercase,
      parse_shell = parser, json_from_str = (\<lambda>_. None), json_to_string = (\<lambda>_. []),
      fs_is_absolute = (\<lambda>p. starts_with p ''/''), fs_join = (\<lambda>a b. a @ ''/'' @ b),
      fs_parent = (\<lambda>_. None), fs_file_name = (\<lambda>_. None), fs_prefixes = (\<lambda>_. []),
      fs_canonicalize = (\<lambda>_. None), fs_is_symlink = (\<lambda>_. None), fs_read_link = (\<lambda>_. None)\<rparr>"

end
