(* ===== verification/Permission_Types.thy ===== *)
theory Permission_Types
  imports Externals
begin

section \<open>Permission types (\<open>permission/types.rs\<close>)\<close>

text \<open>
  The vocabulary of the permission system: the kinds of access a tool call asks for, the decision
  it gets, the rules of a policy, and the conversion of a tool's input into an access kind.
  Constructors that several enums share are written with their type's name, as Rust's paths are
  (\<open>decision.Ask\<close>, \<open>rule_action.Ask\<close>, \<open>prompt_policy.Ask\<close>).
\<close>

datatype client_type =
    Generic | GrokTUI | GrokWeb | Nebula | Extension | GrokPager | Desktop

fun user_agent_label :: "client_type \<Rightarrow> str" where
  "user_agent_label Generic = ''grok-shell''"
| "user_agent_label GrokTUI = ''grok-tui''"
| "user_agent_label GrokWeb = ''grok-web''"
| "user_agent_label Nebula = ''nebula''"
| "user_agent_label Extension = ''grok-code-extension''"
| "user_agent_label GrokPager = ''grok-pager''"
| "user_agent_label Desktop = ''grok-desktop''"

definition from_client_identifier :: "str option \<Rightarrow> client_type" where
  "from_client_identifier i =
     (if i = Some ''grok-web'' then GrokWeb
      else if i = Some ''nebula'' then Nebula
      else if i = Some ''grok-code-extension'' then Extension
      else if i = Some ''grok-desktop'' then Desktop
      else if i = Some ''grok-pager'' then GrokPager
      else Generic)"

fun feedback_label :: "client_type \<Rightarrow> str" where
  "feedback_label GrokTUI = ''tui''"
| "feedback_label GrokPager = ''tui''"
| "feedback_label GrokWeb = ''web''"
| "feedback_label Nebula = ''nebula''"
| "feedback_label Extension = ''extension''"
| "feedback_label Generic = ''agent''"
| "feedback_label Desktop = ''desktop''"

datatype access_kind =
    Read "str option"
  | Grep (grep_path: "str option") (grep_glob: "str option")
  | Edit str
  | Bash str
  | MCPTool (mcp_name: str) (mcp_input: json)
  | WebFetch str
  | WebSearch str
  | BrowserAct str

datatype decision =
    Allow
  | Ask
  | FollowupMessage str
  | Reject str
  | PolicyDeny str
  | Cancelled

datatype edit_policy = Ask | Allow | Reject

definition edit_policy_serialize :: "edit_policy \<Rightarrow> str" where
  "edit_policy_serialize p =
     (case p of edit_policy.Ask \<Rightarrow> ''ask'' | edit_policy.Allow \<Rightarrow> ''allow''
      | edit_policy.Reject \<Rightarrow> ''reject'')"

definition edit_policy_deserialize :: "str \<Rightarrow> edit_policy option" where
  "edit_policy_deserialize v =
     (if v = ''ask'' then Some edit_policy.Ask
      else if v = ''allow'' then Some edit_policy.Allow
      else if v = ''reject'' then Some edit_policy.Reject
      else None)"

datatype prompt_policy = Ask | Deny | Auto

datatype pattern_mode = Glob | Domain

datatype rule_action = Allow | Deny | Ask

datatype tool_filter = Any | Bash | Edit | Read | Grep | Mcp | WebFetch | WebSearch

record permission_rule =
  pr_action :: rule_action
  pr_tool :: tool_filter
  pr_pattern :: "str option"
  pr_pattern_mode :: pattern_mode

record permission_config =
  pc_rules :: "permission_rule list"
  pc_prompt_policy :: prompt_policy

definition permission_config_new :: "permission_rule list \<Rightarrow> permission_config" where
  "permission_config_new rules =
     \<lparr>pc_rules = rules, pc_prompt_policy = prompt_policy.Ask\<rparr>"

definition permission_config_default :: permission_config where
  "permission_config_default = \<lparr>pc_rules = [], pc_prompt_policy = prompt_policy.Ask\<rparr>"

text \<open>
  The tool inputs, with the fields the conversion reads; the inputs whose fields it does not read
  carry nothing.
\<close>

datatype tool_input =
    TI_ReadFile str
  | TI_SearchReplace str
  | TI_Bash str
  | TI_Grep "str option" "str option"
  | TI_ListDir str
  | TI_TodoWrite
  | TI_Skill
  | TI_DeploySkill str
  | TI_MCPTool str json
  | TI_TaskOutput
  | TI_WaitTasks
  | TI_KillTask
  | TI_Task
  | TI_WebSearch str
  | TI_ImageGen
  | TI_ImageEdit
  | TI_ImageToVideo
  | TI_ReferenceToVideo
  | TI_WebFetch str
  | TI_Write str
  | TI_ApplyPatch
  | TI_HashlineEdit str
  | TI_CodexListDir
  | TI_CodexGrepFiles
  | TI_CodexReadFile str
  | TI_MemorySearch
  | TI_MemoryGet
  | TI_Think
  | TI_SearchTool
  | TI_BrowserNavigate str
  | TI_BrowserSnapshot
  | TI_BrowserClick str
  | TI_BrowserType str
  | TI_BrowserRead
  | TI_UseTool str json
  | TI_EnterPlanMode
  | TI_ExitPlanMode
  | TI_AskUserQuestion
  | TI_Lsp
  | TI_Monitor str
  | TI_SchedulerCreate
  | TI_SchedulerDelete
  | TI_SchedulerList
  | TI_UpdateGoal
  | TI_Dynamic json

fun access_kind_from :: "tool_input \<Rightarrow> access_kind" where
  "access_kind_from (TI_ReadFile p) = access_kind.Read (Some p)"
| "access_kind_from (TI_ListDir d) = access_kind.Read (Some d)"
| "access_kind_from (TI_Grep p g) = access_kind.Grep p g"
| "access_kind_from TI_TodoWrite = access_kind.Read None"
| "access_kind_from TI_TaskOutput = access_kind.Read None"
| "access_kind_from TI_WaitTasks = access_kind.Read None"
| "access_kind_from TI_KillTask = access_kind.Read None"
| "access_kind_from TI_Skill = access_kind.Read None"
| "access_kind_from (TI_WebSearch q) = access_kind.WebSearch q"
| "access_kind_from (TI_SearchReplace p) = access_kind.Edit p"
| "access_kind_from TI_ApplyPatch = access_kind.Edit ''apply_patch''"
| "access_kind_from (TI_HashlineEdit p) = access_kind.Edit p"
| "access_kind_from (TI_Write p) = access_kind.Edit p"
| "access_kind_from (TI_Bash c) = access_kind.Bash c"
| "access_kind_from (TI_Monitor c) = access_kind.Bash c"
| "access_kind_from (TI_MCPTool n i) = access_kind.MCPTool n i"
| "access_kind_from (TI_UseTool n i) = access_kind.MCPTool n i"
| "access_kind_from (TI_WebFetch u) = access_kind.WebFetch u"
| "access_kind_from (TI_BrowserNavigate u) = access_kind.WebFetch u"
| "access_kind_from (TI_BrowserClick s) = access_kind.BrowserAct (''click `'' @ s @ ''`'')"
| "access_kind_from (TI_BrowserType s) = access_kind.BrowserAct (''type into `'' @ s @ ''`'')"
| "access_kind_from (TI_DeploySkill n) = access_kind.Edit (''~/.qidi/skills/user-'' @ n)"
| "access_kind_from (TI_Dynamic v) = access_kind.Read None"
| "access_kind_from _ = access_kind.Read None"

lemma edit_policy_serde_roundtrip:
  "edit_policy_deserialize (edit_policy_serialize p) = Some p"
  by (cases p) (simp_all add: edit_policy_serialize_def edit_policy_deserialize_def)

lemma edit_policy_deserialize_SomeD:
  "edit_policy_deserialize s = Some p \<Longrightarrow> edit_policy_serialize p = s"
  by (auto simp: edit_policy_serialize_def edit_policy_deserialize_def split: if_splits)

end
