(* ===== verification/Permission_Rules.thy ===== *)
theory Permission_Rules
  imports Permission_Types
begin

section \<open>The rule language (\<open>permission/rules.rs\<close>)\<close>

text \<open>
  Parsing of rule strings such as \<open>Bash(npm run *)\<close> and the permission modes. \<open>print_rule\<close> is not
  in the program: it is the specification of the syntax, and \<open>parse_print_rule\<close> shows that the
  parser reads back every rule written in it.
\<close>

subsection \<open>Permission modes\<close>

datatype default_permission_mode =
    Default | AcceptEdits | Plan | Auto | DontAsk | BypassPermissions

record default_mode_effects =
  dme_prompt_policy :: prompt_policy
  accept_edits :: bool
  bypass_permissions :: bool

definition default_permission_mode_from_str :: "str \<Rightarrow> str + default_permission_mode" where
  "default_permission_mode_from_str s =
     (if s = ''default'' then Inr Default
      else if s = ''acceptEdits'' then Inr AcceptEdits
      else if s = ''plan'' then Inr Plan
      else if s = ''auto'' then Inr default_permission_mode.Auto
      else if s = ''dontAsk'' then Inr DontAsk
      else if s = ''bypassPermissions'' then Inr BypassPermissions
      else Inl s)"

definition default_mode_effects_default :: default_mode_effects where
  "default_mode_effects_default =
     \<lparr>dme_prompt_policy = prompt_policy.Ask, accept_edits = False, bypass_permissions = False\<rparr>"

fun effects :: "default_permission_mode \<Rightarrow> default_mode_effects" where
  "effects AcceptEdits = default_mode_effects_default\<lparr>accept_edits := True\<rparr>"
| "effects BypassPermissions = default_mode_effects_default\<lparr>bypass_permissions := True\<rparr>"
| "effects Default = default_mode_effects_default"
| "effects Plan = default_mode_effects_default"
| "effects DontAsk = default_mode_effects_default\<lparr>dme_prompt_policy := prompt_policy.Deny\<rparr>"
| "effects default_permission_mode.Auto =
     default_mode_effects_default\<lparr>dme_prompt_policy := prompt_policy.Auto\<rparr>"

subsection \<open>The parser\<close>

datatype rule_parse_error =
    UnsupportedToolPrefix str
  | UnknownToolPrefix str
  | MalformedRule str

fun rule_parse_error_display :: "rule_parse_error \<Rightarrow> str" where
  "rule_parse_error_display (UnsupportedToolPrefix p) = ''unsupported tool prefix: '' @ p"
| "rule_parse_error_display (UnknownToolPrefix p) = ''unknown tool prefix: '' @ p"
| "rule_parse_error_display (MalformedRule d) = ''malformed rule: '' @ d"

definition tool_name_to_filter :: "str \<Rightarrow> tool_filter option" where
  "tool_name_to_filter name =
     (if name = ''Bash'' then Some tool_filter.Bash
      else if name = ''Read'' \<or> name = ''NotebookRead'' then Some tool_filter.Read
      else if name = ''Edit'' \<or> name = ''Write'' \<or> name = ''NotebookEdit'' then Some tool_filter.Edit
      else if name = ''MCPTool'' then Some Mcp
      else if name = ''Grep'' \<or> name = ''Glob'' then Some tool_filter.Grep
      else if name = ''WebFetch'' then Some tool_filter.WebFetch
      else if name = ''WebSearch'' then Some tool_filter.WebSearch
      else None)"

text \<open>The loop of \<open>is_unescaped\<close>: how many backslashes end just before \<open>j\<close>.\<close>

fun backslashes_before :: "str \<Rightarrow> nat \<Rightarrow> nat" where
  "backslashes_before bytes 0 = 0"
| "backslashes_before bytes (Suc j) =
     (if bytes ! j = backslash then Suc (backslashes_before bytes j) else 0)"

definition is_unescaped :: "str \<Rightarrow> nat \<Rightarrow> bool" where
  "is_unescaped bytes pos = (backslashes_before bytes pos mod 2 = 0)"

definition find_first_unescaped :: "str \<Rightarrow> char \<Rightarrow> nat option" where
  "find_first_unescaped s target =
     find (\<lambda>i. s ! i = target \<and> is_unescaped s i) [0..<length s]"

definition find_last_unescaped :: "str \<Rightarrow> char \<Rightarrow> nat option" where
  "find_last_unescaped s target =
     find (\<lambda>i. s ! i = target \<and> is_unescaped s i) (rev [0..<length s])"

definition unescape_rule_content :: "str \<Rightarrow> str" where
  "unescape_rule_content s =
     (if backslash \<notin> set s then s
      else replace2 backslash backslash [backslash]
             (replace2 backslash CHR '')'' '')''
               (replace2 backslash CHR ''('' ''('' s)))"

definition strip_domain_prefix :: "str \<Rightarrow> str \<times> pattern_mode" where
  "strip_domain_prefix pattern =
     (case strip_prefix pattern ''domain:'' of
        Some domain \<Rightarrow> (domain, Domain)
      | None \<Rightarrow> (pattern, Glob))"

definition strip_bash_colon_wildcard :: "str \<Rightarrow> str" where
  "strip_bash_colon_wildcard pattern =
     (case strip_suffix pattern '':*'' of Some p \<Rightarrow> p | None \<Rightarrow> pattern)"

definition parse_permission_rule ::
    "str \<Rightarrow> rule_action \<Rightarrow> rule_parse_error + permission_rule" where
  "parse_permission_rule rule0 action =
     (let rule = trim rule0 in
      case find_first_unescaped rule CHR ''('' of
        Some open_paren \<Rightarrow>
          (let prefix_trimmed = trim (take open_paren rule);
               content_and_close = drop (open_paren + 1) rule
           in case find_last_unescaped content_and_close CHR '')'' of
                None \<Rightarrow> Inl (MalformedRule ''missing closing parenthesis'')
              | Some close_paren \<Rightarrow>
                  (let raw_content = trim (take close_paren content_and_close);
                       pattern = (if raw_content = [] \<or> raw_content = ''*'' then []
                                  else unescape_rule_content raw_content)
                   in case tool_name_to_filter prefix_trimmed of
                        None \<Rightarrow>
                          if prefix_trimmed = ''EnterWorktree''
                          then Inl (UnsupportedToolPrefix prefix_trimmed)
                          else Inl (UnknownToolPrefix prefix_trimmed)
                      | Some tool \<Rightarrow>
                          (let pattern = (if tool = tool_filter.Bash
                                          then strip_bash_colon_wildcard pattern else pattern);
                               (pattern, mode) = strip_domain_prefix pattern
                           in Inr \<lparr>pr_action = action, pr_tool = tool,
                                   pr_pattern = (if pattern = [] then None else Some pattern),
                                   pr_pattern_mode = mode\<rparr>)))
      | None \<Rightarrow>
          (case tool_name_to_filter rule of
             Some tool \<Rightarrow>
               Inr \<lparr>pr_action = action, pr_tool = tool, pr_pattern = None, pr_pattern_mode = Glob\<rparr>
           | None \<Rightarrow>
               Inr \<lparr>pr_action = action, pr_tool = Any,
                    pr_pattern = (if rule = [] then None else Some rule),
                    pr_pattern_mode = Glob\<rparr>))"

subsection \<open>The syntax as a printer\<close>

definition escape_char :: "char \<Rightarrow> str" where
  "escape_char c = (if c = backslash \<or> c = CHR ''('' \<or> c = CHR '')'' then [backslash, c] else [c])"

definition escape_rule_content :: "str \<Rightarrow> str" where
  "escape_rule_content s = concat (map escape_char s)"

fun tool_filter_name :: "tool_filter \<Rightarrow> str" where
  "tool_filter_name tool_filter.Bash = ''Bash''"
| "tool_filter_name tool_filter.Read = ''Read''"
| "tool_filter_name tool_filter.Edit = ''Edit''"
| "tool_filter_name Mcp = ''MCPTool''"
| "tool_filter_name tool_filter.Grep = ''Grep''"
| "tool_filter_name tool_filter.WebFetch = ''WebFetch''"
| "tool_filter_name tool_filter.WebSearch = ''WebSearch''"
| "tool_filter_name Any = []"

fun rule_content :: "pattern_mode \<Rightarrow> str \<Rightarrow> str" where
  "rule_content Domain p = ''domain:'' @ p"
| "rule_content Glob p = p"

definition print_rule :: "permission_rule \<Rightarrow> str" where
  "print_rule r = tool_filter_name (pr_tool r) @
     (case pr_pattern r of
        None \<Rightarrow> []
      | Some p \<Rightarrow> ''('' @ escape_rule_content (rule_content (pr_pattern_mode r) p) @ '')'')"

text \<open>
  The rules the syntax can express: a tool, and a pattern that does not read as one of the idioms
  of the parser (white space at its ends, the lone \<open>*\<close>, a \<open>domain:\<close> prefix, the Bash \<open>:*\<close>).
\<close>

definition canonical_rule :: "permission_rule \<Rightarrow> bool" where
  "canonical_rule r =
     (pr_tool r \<noteq> Any
      \<and> (case pr_pattern r of
           None \<Rightarrow> pr_pattern_mode r = Glob
         | Some p \<Rightarrow>
             (let content = rule_content (pr_pattern_mode r) p
              in p \<noteq> [] \<and> content \<noteq> ''*'' \<and> trim content = content
                 \<and> \<not> (pr_pattern_mode r = Glob \<and> starts_with p ''domain:'')
                 \<and> \<not> (pr_tool r = tool_filter.Bash \<and> ends_with content '':*''))))"

subsection \<open>Lemmas: escaping\<close>

lemma replace2_keep:
  "x \<noteq> a \<or> r = [] \<or> hd r \<noteq> b \<Longrightarrow> replace2 a b t (x # r) = x # replace2 a b t r"
  by (cases r) auto

lemma replace2_absent: "a \<notin> set s \<Longrightarrow> replace2 a b t s = s"
  by (induction a b t s rule: replace2.induct) auto

lemma escape_Cons [simp]:
  "escape_rule_content [] = []"
  "escape_rule_content (c # cs) = escape_char c @ escape_rule_content cs"
  "escape_rule_content (xs @ ys) = escape_rule_content xs @ escape_rule_content ys"
  by (simp_all add: escape_rule_content_def)

definition esc_a :: "char \<Rightarrow> str" where
  "esc_a c = (if c = backslash \<or> c = CHR '')'' then [backslash, c] else [c])"

definition esc_b :: "char \<Rightarrow> str" where
  "esc_b c = (if c = backslash then [backslash, c] else [c])"

lemma escape_hd: "escape_rule_content cs = [] \<or>
    (hd (escape_rule_content cs) \<noteq> CHR ''('' \<and> hd (escape_rule_content cs) \<noteq> CHR '')'')"
  by (cases cs) (auto simp: escape_char_def)

lemma esc_a_hd: "concat (map esc_a cs) = [] \<or> hd (concat (map esc_a cs)) \<noteq> CHR '')''"
  by (cases cs) (auto simp: esc_a_def)

declare replace2.simps(3) [simp del]

lemma replace2_hit: "replace2 a b t (a # b # r) = t @ replace2 a b t r"
  by (simp add: replace2.simps(3))

lemma unescape_step_a:
  "replace2 backslash CHR ''('' ''('' (escape_rule_content cs) = concat (map esc_a cs)"
proof (induction cs)
  case Nil
  then show ?case by simp
next
  case (Cons c cs)
  have h: "escape_rule_content cs = [] \<or> hd (escape_rule_content cs) \<noteq> CHR ''(''"
    using escape_hd by blast
  consider "c = backslash" | "c = CHR ''(''" | "c = CHR '')''"
    | "c \<noteq> backslash" "c \<noteq> CHR ''(''" "c \<noteq> CHR '')''" by blast
  then show ?case
    by cases (simp_all add: escape_char_def esc_a_def replace2_keep replace2_hit h Cons.IH)
qed

lemma unescape_step_b:
  "replace2 backslash CHR '')'' '')'' (concat (map esc_a cs)) = concat (map esc_b cs)"
proof (induction cs)
  case Nil
  then show ?case by simp
next
  case (Cons c cs)
  have e: "esc_a backslash = [backslash, backslash]" "esc_b backslash = [backslash, backslash]"
    "esc_a CHR '')'' = [backslash, CHR '')'']" "esc_b CHR '')'' = [CHR '')'']"
    "c \<noteq> backslash \<Longrightarrow> c \<noteq> CHR '')'' \<Longrightarrow> esc_a c = [c]" "c \<noteq> backslash \<Longrightarrow> esc_b c = [c]"
    by (auto simp: esc_a_def esc_b_def)
  have k: "replace2 backslash CHR '')'' '')'' (backslash # concat (map esc_a cs))
      = backslash # replace2 backslash CHR '')'' '')'' (concat (map esc_a cs))"
    by (rule replace2_keep) (use esc_a_hd in blast)
  consider "c = backslash" | "c = CHR '')''" | "c \<noteq> backslash" "c \<noteq> CHR '')''" by blast
  then show ?case
    by cases (simp_all add: e k replace2_keep replace2_hit Cons.IH)
qed

lemma unescape_step_c:
  "replace2 backslash backslash [backslash] (concat (map esc_b cs)) = cs"
proof (induction cs)
  case Nil
  then show ?case by simp
next
  case (Cons c cs)
  then show ?case
    by (cases "c = backslash") (simp_all add: esc_b_def replace2_keep replace2_hit)
qed

lemma escape_no_backslash: "backslash \<notin> set (escape_rule_content cs) \<Longrightarrow> escape_rule_content cs = cs"
  by (induction cs) (auto simp: escape_char_def split: if_splits)

lemma unescape_escape: "unescape_rule_content (escape_rule_content cs) = cs"
  using escape_no_backslash[of cs]
  by (auto simp: unescape_rule_content_def unescape_step_a unescape_step_b unescape_step_c)

lemma backslashes_before_append:
  "j \<le> length s \<Longrightarrow> backslashes_before (s @ r) j = backslashes_before s j"
  by (induction j) (auto simp: nth_append)

lemma escape_even: "is_unescaped (escape_rule_content cs @ r) (length (escape_rule_content cs))"
proof (induction cs arbitrary: r rule: rev_induct)
  case Nil
  then show ?case by (simp add: is_unescaped_def)
next
  case (snoc c cs)
  then show ?case
    by (auto simp: is_unescaped_def escape_char_def nth_append backslashes_before_append)
qed

lemma backslashes_before_none: "backslash \<notin> set (take j s) \<Longrightarrow> j \<le> length s \<Longrightarrow> backslashes_before s j = 0"
proof (cases j)
  case (Suc k)
  assume "backslash \<notin> set (take j s)" "j \<le> length s"
  with Suc have "s ! k \<noteq> backslash" by (auto simp: take_Suc_conv_app_nth)
  with Suc show ?thesis by simp
qed simp

lemma find_first_unescaped_at:
  assumes "t \<notin> set a" "backslash \<notin> set a"
  shows "find_first_unescaped (a @ t # b) t = Some (length a)"
proof -
  have "is_unescaped (a @ t # b) (length a)"
    using assms(2) by (simp add: is_unescaped_def backslashes_before_append backslashes_before_none)
  moreover have "(a @ t # b) ! i \<noteq> t" if "i < length a" for i
    using assms(1) that by (metis nth_append nth_mem)
  ultimately show ?thesis
    unfolding find_first_unescaped_def find_Some_iff
    by (intro exI[of _ "length a"]) (auto simp: nth_append)
qed

lemma find_first_unescaped_none: "t \<notin> set a \<Longrightarrow> find_first_unescaped a t = None"
  by (auto simp: find_first_unescaped_def find_None_iff)

lemma find_last_unescaped_end:
  assumes "is_unescaped (a @ [t]) (length a)"
  shows "find_last_unescaped (a @ [t]) t = Some (length a)"
  using assms by (simp add: find_last_unescaped_def)


subsection \<open>Lemmas: trimming\<close>

lemma trim_fix_no_ws:
  assumes "trim s = s" "w \<in> set ws_seqs"
  shows "\<not> starts_with s w" "\<not> ends_with s w"
  using trim_id_iff assms by blast+

lemma escape_char_cases:
  obtains "escape_char c = [c]" | "escape_char c = [backslash, c]"
  by (cases "escape_char c = [c]") (auto simp: escape_char_def split: if_splits)

lemma escape_char_backslash: "escape_char backslash \<noteq> [backslash]"
  by (simp add: escape_char_def)

lemma prefix_escape:
  assumes "prefix w (escape_rule_content c)" "\<forall>x \<in> set w. escape_char x = [x]"
  shows "prefix w c"
  using assms
proof (induction w arbitrary: c)
  case Nil
  then show ?case by simp
next
  case (Cons x w)
  then obtain y ys where c: "c = y # ys" by (cases c) auto
  show ?case
  proof (cases y rule: escape_char_cases)
    case 1
    with Cons c show ?thesis by simp
  next
    case 2
    with Cons c have "x = backslash" by simp
    with Cons.prems escape_char_backslash show ?thesis by simp
  qed
qed

lemma suffix_escape:
  assumes "suffix w (escape_rule_content c)" "\<forall>x \<in> set w. escape_char x = [x]"
  shows "suffix w c"
  using assms
proof (induction w arbitrary: c rule: rev_induct)
  case Nil
  then show ?case by simp
next
  case (snoc x w)
  then obtain y ys where c: "c = ys @ [y]" by (cases c rule: rev_cases) auto
  have "x = y"
    using snoc.prems(1) c by (cases y rule: escape_char_cases) (auto simp: suffix_def)
  with snoc.prems have "escape_char y = [y]" by simp
  with snoc c \<open>x = y\<close> show ?case by (simp add: suffix_snoc)
qed

lemma ws_plain: "w \<in> set ws_seqs \<Longrightarrow> \<forall>x \<in> set w. escape_char x = [x]"
  by (auto simp: ws_seqs_def escape_char_def)

lemma trim_escape: "trim c = c \<Longrightarrow> trim (escape_rule_content c) = escape_rule_content c"
  by (simp add: trim_id_iff starts_with_iff_prefix ends_with_iff_suffix)
    (metis prefix_escape suffix_escape ws_plain)

lemma trim_bracketed:
  assumes "escape_char a \<noteq> [a] \<or> is_ascii_alphabetic a" "escape_char z \<noteq> [z] \<or> is_ascii_alphabetic z"
  shows "trim (a # x @ [z]) = a # x @ [z]"
proof -
  have "hd w \<noteq> a \<and> last w \<noteq> z \<and> w \<noteq> []" if "w \<in> set ws_seqs" for w
  proof -
    have "escape_char y = [y] \<and> \<not> is_ascii_alphabetic y" if "y \<in> set w" for y
      using that ws_plain[OF \<open>w \<in> set ws_seqs\<close>] ws_not_alphabetic[OF \<open>w \<in> set ws_seqs\<close>] by blast
    moreover have "w \<noteq> []" using that ws_seqs_no_Nil by metis
    ultimately show ?thesis using assms by (metis hd_in_set last_in_set)
  qed
  then show ?thesis
    unfolding trim_id_iff starts_with_iff_prefix ends_with_iff_suffix
    by (metis append_Cons hd_append2 last_snoc list.sel(1) prefix_def suffix_def last_append)
qed


subsection \<open>Properties\<close>

lemma trim_alpha_ends:
  assumes "is_ascii_alphabetic a" "is_ascii_alphabetic z"
  shows "trim (a # x @ [z]) = a # x @ [z]"
  using assms by (simp add: trim_bracketed)

lemma filter_name_facts:
  assumes "t \<noteq> Any"
  shows "tool_name_to_filter (tool_filter_name t) = Some t"
    and "CHR ''('' \<notin> set (tool_filter_name t)" "backslash \<notin> set (tool_filter_name t)"
    and "\<exists>a x z. tool_filter_name t = a # x @ [z] \<and> is_ascii_alphabetic a \<and> is_ascii_alphabetic z"
proof -
  show "tool_name_to_filter (tool_filter_name t) = Some t"
    using assms by (cases t) (simp_all add: tool_name_to_filter_def)
  show "CHR ''('' \<notin> set (tool_filter_name t)" "backslash \<notin> set (tool_filter_name t)"
    by (cases t; simp)+
  have "\<exists>a x z. s = a # x @ [z] \<and> is_ascii_alphabetic a \<and> is_ascii_alphabetic z"
    if "2 \<le> length s" "is_ascii_alphabetic (hd s)" "is_ascii_alphabetic (last s)" for s
    using that by (cases s; cases "tl s" rule: rev_cases) auto
  then show "\<exists>a x z. tool_filter_name t = a # x @ [z] \<and> is_ascii_alphabetic a \<and> is_ascii_alphabetic z"
    using assms by (cases t) (simp_all add: is_ascii_alphabetic_def)
qed

lemma parse_bracketed:
  assumes "t \<noteq> Any" "trim c = c" "c \<noteq> []" "c \<noteq> ''*''"
  shows "parse_permission_rule (tool_filter_name t @ ''('' @ escape_rule_content c @ '')'') act
    = (let p = (if t = tool_filter.Bash then strip_bash_colon_wildcard c else c);
           (p, mode) = strip_domain_prefix p
       in Inr \<lparr>pr_action = act, pr_tool = t, pr_pattern = (if p = [] then None else Some p),
               pr_pattern_mode = mode\<rparr>)"
proof -
  let ?n = "tool_filter_name t" and ?e = "escape_rule_content c"
  obtain a x z where n: "?n = a # x @ [z]" "is_ascii_alphabetic a" "is_ascii_alphabetic z"
    using filter_name_facts(4)[OF assms(1)] by blast
  have t0: "trim (?n @ ''('' @ ?e @ '')'') = ?n @ ''('' @ ?e @ '')''"
    using trim_bracketed[of a "CHR '')''" "x @ [z] @ ''('' @ ?e"] n
    by (simp add: escape_char_def)
  have f: "find_first_unescaped (?n @ ''('' @ ?e @ '')'') CHR ''('' = Some (length ?n)"
    using find_first_unescaped_at[OF filter_name_facts(2,3)[OF assms(1)]] by simp
  have l: "find_last_unescaped (?e @ '')'') CHR '')'' = Some (length ?e)"
    using escape_even by (simp add: find_last_unescaped_end)
  have e: "?e \<noteq> []" "?e \<noteq> ''*''"
    using assms(3,4) unescape_escape[of c]
    by (auto simp: unescape_rule_content_def)
  have p: "trim (take (length ?n) (?n @ ''('' @ ?e @ '')'')) = ?n"
    using n by (simp add: trim_alpha_ends)
  have d: "drop (length ?n + 1) (?n @ ''('' @ ?e @ '')'') = ?e @ '')''" by simp
  have r: "trim (take (length ?e) (?e @ '')'')) = ?e" by (simp add: trim_escape[OF assms(2)])
  show ?thesis
    unfolding parse_permission_rule_def Let_def t0 f option.case p d l r
      filter_name_facts(1)[OF assms(1)] unescape_escape
    by (simp only: e simp_thms if_False)
qed

lemma parse_bare:
  assumes "t \<noteq> Any"
  shows "parse_permission_rule (tool_filter_name t) act
    = Inr \<lparr>pr_action = act, pr_tool = t, pr_pattern = None, pr_pattern_mode = Glob\<rparr>"
proof -
  obtain a x z where n: "tool_filter_name t = a # x @ [z]" "is_ascii_alphabetic a" "is_ascii_alphabetic z"
    using filter_name_facts(4)[OF assms] by blast
  have "trim (tool_filter_name t) = tool_filter_name t" by (simp add: n trim_alpha_ends)
  then show ?thesis
    using find_first_unescaped_none[OF filter_name_facts(2)[OF assms]] filter_name_facts(1)[OF assms]
    by (simp add: parse_permission_rule_def)
qed

text \<open>C17: The parser reads back what the rule syntax writes: for every canonical rule, parsing its printed
  form gives the rule (with parentheses and backslashes of the pattern escaped and unescaped).\<close>

theorem parse_print_rule:
  assumes "canonical_rule r"
  shows "parse_permission_rule (print_rule r) (pr_action r) = Inr r"
proof (cases "pr_pattern r")
  case None
  with assms show ?thesis
    by (simp add: canonical_rule_def print_rule_def parse_bare)
next
  case (Some p)
  let ?c = "rule_content (pr_pattern_mode r) p"
  note u = assms[unfolded canonical_rule_def Some option.case Let_def]
  have "?c \<noteq> []" if "p \<noteq> []" using that by (cases "pr_pattern_mode r") simp_all
  then have c: "pr_tool r \<noteq> Any" "trim ?c = ?c" "?c \<noteq> []" "?c \<noteq> ''*''" "p \<noteq> []"
    using u by blast+
  have b: "(if pr_tool r = tool_filter.Bash then strip_bash_colon_wildcard ?c else ?c) = ?c"
    using u unfolding strip_bash_colon_wildcard_def strip_suffix_def by (simp split: if_split)
  have d: "strip_domain_prefix ?c = (p, pr_pattern_mode r)"
  proof (cases "pr_pattern_mode r")
    case Glob
    with u have "\<not> starts_with p ''domain:''" by blast
    with Glob show ?thesis by (simp add: strip_domain_prefix_def strip_prefix_def)
  next
    case Domain
    have "strip_prefix (''domain:'' @ p) ''domain:'' = Some p" by (rule strip_prefix_append)
    with Domain show ?thesis by (simp add: strip_domain_prefix_def)
  qed
  show ?thesis
    using parse_bracketed[OF c(1-4)] c(5) by (simp add: print_rule_def Some b d)
qed

theorem parse_print_rule_witness:
  "parse_permission_rule
     (print_rule \<lparr>pr_action = rule_action.Deny, pr_tool = tool_filter.Bash,
        pr_pattern = Some ''echo (x)'', pr_pattern_mode = Glob\<rparr>) rule_action.Deny
   = Inr \<lparr>pr_action = rule_action.Deny, pr_tool = tool_filter.Bash,
        pr_pattern = Some ''echo (x)'', pr_pattern_mode = Glob\<rparr>"
proof -
  have "trim (CHR ''e'' # ''cho (x'' @ '')'') = CHR ''e'' # ''cho (x'' @ '')''"
    by (rule trim_bracketed) (simp_all add: escape_char_def is_ascii_alphabetic_def)
  then have "trim ''echo (x)'' = ''echo (x)''" by (simp only: append.simps)
  then have "canonical_rule \<lparr>pr_action = rule_action.Deny, pr_tool = tool_filter.Bash,
      pr_pattern = Some ''echo (x)'', pr_pattern_mode = Glob\<rparr>"
    by (simp add: canonical_rule_def ends_with_def)
  from parse_print_rule[OF this] show ?thesis by (simp only: permission_rule.simps)
qed

lemma tool_name_to_filter_not_Any: "tool_name_to_filter n \<noteq> Some Any"
  by (simp add: tool_name_to_filter_def)

text \<open>Whatever the text, a rule the parser accepts carries the action it was given and never an empty
  pattern, and it applies to any tool only when the text has no parenthesis; an unknown tool prefix and a
  missing closing parenthesis are errors.\<close>

theorem parse_permission_rule_sound:
  "case parse_permission_rule s act of
     Inr r \<Rightarrow> pr_action r = act \<and> pr_pattern r \<noteq> Some []
            \<and> (if pr_tool r = Any then find_first_unescaped (trim s) CHR ''('' = None else True)
   | Inl e \<Rightarrow> (\<exists>i. find_first_unescaped (trim s) CHR ''('' = Some i
                \<and> (e = MalformedRule ''missing closing parenthesis''
                   \<or> tool_name_to_filter (trim (take i (trim s))) = None))"
proof (cases "find_first_unescaped (trim s) CHR ''(''")
  case None
  then show ?thesis
    unfolding parse_permission_rule_def Let_def
    by (cases "trim s = []"; cases "tool_name_to_filter (trim s)") simp_all
next
  case (Some i)
  show ?thesis
  proof (cases "find_last_unescaped (drop (i + 1) (trim s)) CHR '')''")
    case None
    with Some show ?thesis by (simp add: parse_permission_rule_def)
  next
    case (Some j)
    show ?thesis
    proof (cases "tool_name_to_filter (trim (take i (trim s)))")
      case None
      with Some \<open>find_first_unescaped (trim s) CHR ''('' = Some i\<close> show ?thesis
        by (cases "trim (take i (trim s)) = ''EnterWorktree''")
          (simp_all add: parse_permission_rule_def Let_def)
    next
      case (Some t)
      then have "t \<noteq> Any" using tool_name_to_filter_not_Any by auto
      with Some \<open>find_last_unescaped _ _ = _\<close> \<open>find_first_unescaped (trim s) CHR ''('' = Some i\<close>
      show ?thesis
        unfolding parse_permission_rule_def Let_def by (simp split: prod.split)
    qed
  qed
qed

end
