(* ===== verification/Decisions.thy ===== *)
theory Decisions
  imports Permission_Types
begin

section \<open>Combining decisions (\<open>permission/shell_access.rs\<close>, end)\<close>

text \<open>
  \<open>combine_decisions\<close> keeps the more restrictive of two optional decisions. \<open>ranked_choice\<close> is
  the contract its callers rely on when they fold it over segments, files or rule sets: a unit,
  associativity, the result is one of the arguments, and nothing outranks it.
\<close>

fun decision_rank :: "decision \<Rightarrow> nat" where
  "decision_rank (decision.Reject _) = 3"
| "decision_rank (PolicyDeny _) = 3"
| "decision_rank decision.Ask = 2"
| "decision_rank decision.Allow = 1"
| "decision_rank _ = 0"

fun combine_decisions :: "decision option \<Rightarrow> decision option \<Rightarrow> decision option" where
  "combine_decisions None other = other"
| "combine_decisions other None = other"
| "combine_decisions (Some a) (Some b) =
     Some (if decision_rank b \<le> decision_rank a then a else b)"

locale ranked_choice =
  fixes rank :: "'d \<Rightarrow> nat" and combine :: "'d option \<Rightarrow> 'd option \<Rightarrow> 'd option"
  assumes unit_left: "combine None x = x"
    and unit_right: "combine x None = x"
    and select: "combine (Some a) (Some b) \<in> {Some a, Some b}"
    and outranks: "combine (Some a) (Some b) = Some c \<Longrightarrow> rank a \<le> rank c \<and> rank b \<le> rank c"
    and assoc: "combine (combine x y) z = combine x (combine y z)"
begin

definition opt_rank :: "'d option \<Rightarrow> nat" where
  "opt_rank x = (case x of None \<Rightarrow> 0 | Some d \<Rightarrow> Suc (rank d))"

lemma combine_None_iff: "combine x y = None \<longleftrightarrow> x = None \<and> y = None"
  by (cases x; cases y) (use select in \<open>auto simp: unit_left unit_right\<close>)

lemma combine_member: "combine x y = Some d \<Longrightarrow> x = Some d \<or> y = Some d"
  using select[of "the x" "the y"] by (cases x; cases y) (auto simp: unit_left unit_right)

lemma opt_rank_combine_ge: "opt_rank x \<le> opt_rank (combine x y)" "opt_rank y \<le> opt_rank (combine x y)"
proof -
  have "opt_rank x \<le> opt_rank (combine x y) \<and> opt_rank y \<le> opt_rank (combine x y)"
  proof (cases x; cases y)
    fix a b assume ab: "x = Some a" "y = Some b"
    obtain c where c: "combine (Some a) (Some b) = Some c" using select[of a b] by auto
    with outranks[OF c] ab show ?thesis by (simp add: opt_rank_def)
  qed (simp_all add: unit_left unit_right, simp_all add: opt_rank_def)
  then show "opt_rank x \<le> opt_rank (combine x y)" "opt_rank y \<le> opt_rank (combine x y)" by blast+
qed

lemma fold_start: "foldl (\<lambda>d x. combine d (f x)) d0 xs = combine d0 (foldl (\<lambda>d x. combine d (f x)) None xs)"
proof (induction xs arbitrary: d0)
  case Nil
  then show ?case by (simp add: unit_right)
next
  case (Cons x xs)
  show ?case
    using Cons[of "combine d0 (f x)"] Cons[of "combine None (f x)"] by (simp add: unit_left assoc)
qed

lemma fold_member:
  assumes "foldl (\<lambda>d x. combine d (f x)) None xs = Some c"
  shows "\<exists>x \<in> set xs. f x = Some c"
  using assms
proof (induction xs)
  case Nil
  then show ?case by simp
next
  case (Cons x xs)
  then have "combine (f x) (foldl (\<lambda>d x. combine d (f x)) None xs) = Some c"
    by (simp add: unit_left fold_start[of f "f x"])
  then show ?case using Cons.IH by (auto dest: combine_member)
qed

lemma fold_outranks:
  "x \<in> set xs \<Longrightarrow> opt_rank (f x) \<le> opt_rank (foldl (\<lambda>d x. combine d (f x)) None xs)"
proof (induction xs)
  case Nil
  then show ?case by simp
next
  case (Cons y ys)
  have *: "foldl (\<lambda>d x. combine d (f x)) None (y # ys)
      = combine (f y) (foldl (\<lambda>d x. combine d (f x)) None ys)"
    by (simp add: unit_left fold_start[of f "f y"])
  show ?case
  proof (cases "x = y")
    case True
    with * show ?thesis by (metis opt_rank_combine_ge(1))
  next
    case False
    with Cons have "opt_rank (f x) \<le> opt_rank (foldl (\<lambda>d x. combine d (f x)) None ys)" by simp
    also have "\<dots> \<le> opt_rank (foldl (\<lambda>d x. combine d (f x)) None (y # ys))"
      unfolding * by (rule opt_rank_combine_ge(2))
    finally show ?thesis .
  qed
qed

end

interpretation decisions: ranked_choice decision_rank combine_decisions
proof
  fix x y z :: "decision option" and a b c :: decision
  show "combine_decisions x None = x" by (cases x) simp_all
  show "combine_decisions (Some a) (Some b) = Some c \<Longrightarrow>
      decision_rank a \<le> decision_rank c \<and> decision_rank b \<le> decision_rank c"
    by (auto split: if_splits)
  show "combine_decisions (combine_decisions x y) z = combine_decisions x (combine_decisions y z)"
    by (cases x; cases y; cases z) auto
qed simp_all

lemma decision_rank_3_iff: "decision_rank d = 3 \<longleftrightarrow> (\<exists>r. d = decision.Reject r) \<or> (\<exists>r. d = PolicyDeny r)"
  by (cases d) simp_all

lemma decision_rank_le: "decision_rank d \<le> 3"
  by (cases d) simp_all

lemma combine_Reject_left [decision_simps]:
  "combine_decisions (Some (decision.Reject r)) y = Some (decision.Reject r)"
  by (cases y) (simp_all add: decision_rank_le)

text \<open>An escalation is no decision, \<open>Ask\<close> or \<open>Reject\<close>: what a gate may add, never an approval.\<close>

definition escalation :: "decision option \<Rightarrow> bool" where
  "escalation d = (d = None \<or> d = Some decision.Ask \<or> (\<exists>r. d = Some (decision.Reject r)))"

lemma escalation_simps [gate_simps]:
  "escalation None" "escalation (Some decision.Ask)" "escalation (Some (decision.Reject r))"
  "\<not> escalation (Some decision.Allow)"
  by (auto simp: escalation_def)

lemma escalation_combine [intro]:
  "escalation x \<Longrightarrow> escalation y \<Longrightarrow> escalation (combine_decisions x y)"
  by (auto simp: escalation_def)

lemma escalation_fold:
  "(\<And>x. x \<in> set xs \<Longrightarrow> escalation (f x)) \<Longrightarrow> escalation d0 \<Longrightarrow>
   escalation (foldl (\<lambda>d x. combine_decisions d (f x)) d0 xs)"
  by (induction xs arbitrary: d0) (auto simp: escalation_combine)

end
