(* ===== verification/Bash_Splitting.thy ===== *)
theory Bash_Splitting
  imports Externals
begin

section \<open>Splitting bash scripts (\<open>permission/bash_command_splitting.rs\<close>)\<close>

text \<open>
  From a parsed script to the list of its plain commands: the node-kind allowlist, the extraction
  of the words of one command, the wrapper commands (\<open>timeout\<close>, \<open>env\<close>, ...) that are peeled to
  find the inner command, and the display soft-breaks. The parser itself is \<open>parse_shell\<close>.
\<close>

record plain_command =
  pc_words :: "str list"
  span_start :: nat
  span_end :: nat

record bash_command_highlights =
  bch_prefix :: "str list"
  highlighted_words :: "str list"
  bch_suffix :: "str list"

subsection \<open>One command node\<close>

definition push_span :: "ts_node \<Rightarrow> str \<Rightarrow> str list \<times> nat option \<times> nat option
    \<Rightarrow> str list \<times> nat option \<times> nat option" where
  "push_span n text acc =
     (let (ws, s, e) = acc
      in (ws @ [text], (if s = None then Some (ts_start n) else s), Some (ts_end n)))"

text \<open>The body of the loop over \<open>named_children\<close>; \<open>None\<close> is its \<open>return None\<close>.\<close>

definition plain_command_child :: "str \<Rightarrow> ts_node \<Rightarrow> str list \<times> nat option \<times> nat option
    \<Rightarrow> (str list \<times> nat option \<times> nat option) option" where
  "plain_command_child src child acc =
     (if ts_kind child = ''variable_assignment'' then Some acc
      else if ts_kind child = ''command_name'' then
        (case named_children child of
           [] \<Rightarrow> None
         | w # _ \<Rightarrow> if ts_kind w \<noteq> ''word'' then None
                  else Some (push_span w (utf8_text src w) acc))
      else if ts_kind child = ''word'' \<or> ts_kind child = ''number'' then
        Some (push_span child (utf8_text src child) acc)
      else if ts_kind child = ''string'' then
        (case ts_children child of
           [q1, c, q2] \<Rightarrow>
             if ts_kind q1 = [dquote] \<and> ts_kind c = ''string_content'' \<and> ts_kind q2 = [dquote]
             then Some (push_span child (utf8_text src c) acc) else None
         | _ \<Rightarrow> None)
      else if ts_kind child = ''raw_string'' then
        (case Option.bind (strip_prefix (utf8_text src child) [squote])
                (\<lambda>s. strip_suffix s [squote]) of
           Some s \<Rightarrow> Some (push_span child s acc)
         | None \<Rightarrow> None)
      else if ts_kind child = ''concatenation'' then
        Some (push_span child (utf8_text src child) acc)
      else None)"

fun plain_command_children :: "str \<Rightarrow> ts_node list \<Rightarrow> str list \<times> nat option \<times> nat option
    \<Rightarrow> (str list \<times> nat option \<times> nat option) option" where
  "plain_command_children src [] acc = Some acc"
| "plain_command_children src (c # cs) acc =
     (case plain_command_child src c acc of
        None \<Rightarrow> None
      | Some acc' \<Rightarrow> plain_command_children src cs acc')"

definition parse_plain_command_from_node :: "ts_node \<Rightarrow> str \<Rightarrow> plain_command option" where
  "parse_plain_command_from_node cmd src =
     (if ts_kind cmd \<noteq> ''command'' then None
      else (case plain_command_children src (named_children cmd) ([], None, None) of
              None \<Rightarrow> None
            | Some (ws, s, e) \<Rightarrow>
                Some \<lparr>pc_words = ws,
                      span_start = (case s of Some i \<Rightarrow> i | None \<Rightarrow> ts_start cmd),
                      span_end = (case e of Some i \<Rightarrow> i | None \<Rightarrow> ts_end cmd)\<rparr>))"

subsection \<open>A sequence of commands\<close>

definition ALLOWED_KINDS :: "str list" where
  "ALLOWED_KINDS =
     [''program'', ''list'', ''pipeline'', ''command'', ''command_name'', ''word'', ''string'',
      ''string_content'', ''raw_string'', ''number'', ''concatenation'', ''variable_assignment'',
      ''variable_name'', ''redirected_statement'', ''file_redirect'', ''file_descriptor'',
      ''comment'', ''heredoc_redirect'', ''heredoc_start'', ''heredoc_body'',
      ''heredoc_content'', ''heredoc_end'']"

definition ALLOWED_PUNCT_TOKENS :: "str list" where
  "ALLOWED_PUNCT_TOKENS =
     [''&&'', ''||'', '';'', ''|'', [dquote], [squote], ''='', ''>'', ''>>'', ''<'', ''<<'',
      ''>&'', ''&>'', ''&>>'']"

text \<open>What the loop accepts: a node it does not \<open>return None\<close> on.\<close>

definition node_allowed :: "ts_node \<Rightarrow> bool" where
  "node_allowed n =
     (let kind = ts_kind n
      in if ts_named n then kind \<in> set ALLOWED_KINDS
         else if list_ex (\<lambda>c. c \<in> set ''&;|'') kind \<and> kind \<notin> set ALLOWED_PUNCT_TOKENS then False
         else kind \<in> set ALLOWED_PUNCT_TOKENS \<or> trim kind = [])"

fun parse_all :: "('a \<Rightarrow> 'b option) \<Rightarrow> 'a list \<Rightarrow> 'b list option" where
  "parse_all f [] = Some []"
| "parse_all f (x # xs) =
     (case f x of
        None \<Rightarrow> None
      | Some y \<Rightarrow> map_option (\<lambda>ys. y # ys) (parse_all f xs))"

definition try_parse_word_only_commands_sequence ::
    "ts_tree \<Rightarrow> str \<Rightarrow> plain_command list option" where
  "try_parse_word_only_commands_sequence tree src =
     (if ts_has_error tree then None
      else let visited = ts_walk [ts_root tree]
           in if \<not> list_all node_allowed visited then None
              else let command_nodes =
                         filter (\<lambda>n. ts_named n \<and> ts_kind n = ''command'') visited
                   in parse_all (\<lambda>n. parse_plain_command_from_node n src)
                        (sort_key ts_start command_nodes))"

definition all_commands_from_script :: "externals \<Rightarrow> str \<Rightarrow> plain_command list option" where
  "all_commands_from_script E script =
     (case parse_shell E script of
        None \<Rightarrow> None
      | Some tree \<Rightarrow> try_parse_word_only_commands_sequence tree script)"

definition is_setup_command :: "str list \<Rightarrow> bool" where
  "is_setup_command cmd =
     (case cmd of
        [] \<Rightarrow> True
      | w # _ \<Rightarrow> w \<in> {''cd'', ''pushd'', ''popd'', ''export'', ''unset'', ''set'', ''source'',
                      ''.'', ''sleep'', ''timeout''})"

subsection \<open>Wrapper commands\<close>

definition is_env_assignment :: "str \<Rightarrow> bool" where
  "is_env_assignment tok =
     (case split_once ''='' tok of
        None \<Rightarrow> False
      | Some (name, _) \<Rightarrow>
          name \<noteq> [] \<and> (is_ascii_alphabetic (hd name) \<or> hd name = CHR ''_'')
          \<and> list_all (\<lambda>b. is_ascii_alphanumeric b \<or> b = CHR ''_'') name)"

text \<open>The loop of \<open>env_scan\<close>, from index \<open>i\<close> with the last \<open>chdir\<close> seen.\<close>

function env_scan_from :: "str list \<Rightarrow> str option \<Rightarrow> nat \<Rightarrow> str option \<times> nat" where
  "env_scan_from cmd chdir i =
     (if i < length cmd then
        let tok = cmd ! i in
        if tok = ''--'' then (chdir, i + 1)
        else if tok \<noteq> ''-'' \<and> starts_with tok ''-'' then
          (if tok = ''-C'' \<or> tok = ''--chdir'' then
             env_scan_from cmd (nth_opt cmd (i + 1)) (i + 2)
           else (case strip_prefix tok ''--chdir='' of
                   Some dir \<Rightarrow> env_scan_from cmd (Some dir) (i + 1)
                 | None \<Rightarrow>
                    (case Option.bind (strip_prefix tok ''-C'')
                            (\<lambda>d. if d \<noteq> [] then Some d else None) of
                       Some dir \<Rightarrow> env_scan_from cmd (Some dir) (i + 1)
                     | None \<Rightarrow>
                        if tok \<in> {''-u'', ''--unset'', ''-S'', ''--split-string''}
                        then env_scan_from cmd chdir (i + 2)
                        else env_scan_from cmd chdir (i + 1))))
        else if is_env_assignment tok then env_scan_from cmd chdir (i + 1)
        else (chdir, i)
      else (chdir, i))"
  by pat_completeness auto
termination
  by (relation "measure (\<lambda>(cmd, _, i). length cmd - i)") auto

declare env_scan_from.simps [simp del]

definition env_scan :: "str list \<Rightarrow> str option \<times> nat" where
  "env_scan cmd = env_scan_from cmd None 1"

text \<open>The option loop the other wrappers share: \<open>two\<close> are the options that take a value.\<close>

function skip_opts :: "str list \<Rightarrow> str list \<Rightarrow> nat \<Rightarrow> nat" where
  "skip_opts two cmd i =
     (if i < length cmd \<and> starts_with (cmd ! i) ''-'' then
        skip_opts two cmd (if cmd ! i \<in> set two then i + 2 else i + 1)
      else i)"
  by pat_completeness auto
termination
  by (relation "measure (\<lambda>(two, cmd, i). length cmd - i)") auto

declare skip_opts.simps [simp del]

text \<open>The \<open>match head\<close>: the index the inner command starts at, \<open>None\<close> for its \<open>return None\<close>.\<close>

definition wrapper_index :: "str \<Rightarrow> str list \<Rightarrow> nat option" where
  "wrapper_index head cmd =
     (if head = ''timeout'' then
        (let i = skip_opts [''-k'', ''-s'', ''--kill-after'', ''--signal''] cmd 1
         in if length cmd \<le> i then None else Some (i + 1))
      else if head = ''nice'' then Some (skip_opts [''-n'', ''--adjustment''] cmd 1)
      else if head = ''ionice'' then
        Some (skip_opts [''-c'', ''-n'', ''-p'', ''-P'', ''-u'', ''--class'', ''--classdata'',
                ''--pid'', ''--pgid'', ''--uid''] cmd 1)
      else if head = ''chrt'' then
        (let i = skip_opts [] cmd 1
         in if length cmd \<le> i then None else Some (i + 1))
      else if head = ''stdbuf'' then Some (skip_opts [''-i'', ''-o'', ''-e''] cmd 1)
      else if head = ''env'' then Some (snd (env_scan cmd))
      else None)"

definition strip_wrapper_command :: "str list \<Rightarrow> str list option" where
  "strip_wrapper_command cmd =
     (case cmd of
        [] \<Rightarrow> None
      | w # _ \<Rightarrow>
          (case wrapper_index (last_path_seg w) cmd of
             None \<Rightarrow> None
           | Some i \<Rightarrow>
               (case get_from cmd i of
                  None \<Rightarrow> None
                | Some inner \<Rightarrow> if inner = [] then None else Some inner)))"

definition is_wrapper_command :: "str list \<Rightarrow> bool" where
  "is_wrapper_command words =
     (case words of
        [] \<Rightarrow> False
      | w # _ \<Rightarrow> last_path_seg w \<in> {''timeout'', ''nice'', ''ionice'', ''chrt'', ''stdbuf'', ''env''})"

definition unwrap_wrappers :: "str list \<Rightarrow> str list" where
  "unwrap_wrappers words = peel_n 8 strip_wrapper_command words"

fun wrapper_has_chdir_n :: "nat \<Rightarrow> str list \<Rightarrow> bool" where
  "wrapper_has_chdir_n 0 current = False"
| "wrapper_has_chdir_n (Suc n) current =
     (if map_option last_path_seg (nth_opt current 0) = Some ''env''
         \<and> fst (env_scan current) \<noteq> None
      then True
      else (case strip_wrapper_command current of
              Some inner \<Rightarrow> wrapper_has_chdir_n n inner
            | None \<Rightarrow> False))"

definition wrapper_has_chdir :: "str list \<Rightarrow> bool" where
  "wrapper_has_chdir words = wrapper_has_chdir_n 8 words"

subsection \<open>The primary command\<close>

text \<open>
  \<open>sh_split_simple\<close> reads characters; on bytes a white-space character is a \<open>ws_prefix\<close> and any
  other multi-byte character is pushed byte by byte, to the same effect.
\<close>

function sh_split :: "str \<Rightarrow> bool \<Rightarrow> bool \<Rightarrow> str \<Rightarrow> str list" where
  "sh_split s in_single in_double current =
     (case s of
        [] \<Rightarrow> if current \<noteq> [] then [current] else []
      | c # cs \<Rightarrow>
          if c = squote \<and> \<not> in_double then sh_split cs (\<not> in_single) in_double current
          else if c = dquote \<and> \<not> in_single then sh_split cs in_single (\<not> in_double) current
          else if c = backslash then
            (case cs of
               [] \<Rightarrow> sh_split [] in_single in_double current
             | next # cs' \<Rightarrow> sh_split cs' in_single in_double (current @ [next]))
          else (case ws_prefix s of
                  Some w \<Rightarrow>
                    if \<not> in_single \<and> \<not> in_double then
                      (if current \<noteq> [] then current # sh_split (drop (length w) s) in_single in_double []
                       else sh_split (drop (length w) s) in_single in_double current)
                    else sh_split (drop (length w) s) in_single in_double (current @ w)
                | None \<Rightarrow> sh_split cs in_single in_double (current @ [c])))"
  by pat_completeness auto
termination
  by (relation "measure (\<lambda>(s, _). length s)") (auto dest!: ws_prefix_SomeD)

declare sh_split.simps [simp del]

definition sh_split_simple :: "str \<Rightarrow> str list" where
  "sh_split_simple s = sh_split s False False []"

definition primary_command_from_script :: "externals \<Rightarrow> str \<Rightarrow> bash_command_highlights option" where
  "primary_command_from_script E script =
     (case all_commands_from_script E script of
        None \<Rightarrow> None
      | Some commands \<Rightarrow>
          (case find (\<lambda>c. \<not> is_setup_command (pc_words c)) commands of
             None \<Rightarrow> None
           | Some primary \<Rightarrow>
               Some \<lparr>bch_prefix = sh_split_simple (take (span_start primary) script),
                     highlighted_words = pc_words primary,
                     bch_suffix = sh_split_simple (drop (span_end primary) script)\<rparr>))"

subsection \<open>Display soft-breaks and heredoc ranges\<close>

definition PAYLOAD_NODE_KINDS :: "str list" where
  "PAYLOAD_NODE_KINDS =
     [''heredoc_body'', ''simple_heredoc_body'', ''heredoc_content'', ''heredoc_end'',
      ''string'', ''raw_string'', ''string_content'', ''ansi_c_string'',
      ''translated_string'', ''comment'']"

definition is_soft_break_operator_kind :: "str \<Rightarrow> bool" where
  "is_soft_break_operator_kind k = (k \<in> {''&&'', ''||'', ''|'', '';''})"

definition is_payload_node_kind :: "str \<Rightarrow> bool" where
  "is_payload_node_kind k = (k \<in> set PAYLOAD_NODE_KINDS)"

text \<open>The two loops skip the subtree of a payload node; they push children reversed (source order).\<close>

fun break_offsets :: "str \<Rightarrow> ts_node \<Rightarrow> nat list" where
  "break_offsets script (TsNode k nm f s e cs) =
     (if is_payload_node_kind k then []
      else (if is_soft_break_operator_kind k \<and> 0 < e \<and> e \<le> length script
               \<and> is_char_boundary script e then [e] else [])
           @ concat (map (break_offsets script) cs))"

definition soft_break_offsets_after_operators :: "externals \<Rightarrow> str \<Rightarrow> nat list" where
  "soft_break_offsets_after_operators E script =
     (case parse_shell E script of
        None \<Rightarrow> []
      | Some tree \<Rightarrow>
          if ts_has_error tree then []
          else remdups_adj (sort (break_offsets script (ts_root tree))))"

fun payload_ranges :: "str \<Rightarrow> ts_node \<Rightarrow> (nat \<times> nat) list" where
  "payload_ranges script (TsNode k nm f s e cs) =
     (if k \<in> {''heredoc_body'', ''simple_heredoc_body'', ''heredoc_content''}
      then (if s < e \<and> e \<le> length script then [(s, e)] else [])
      else concat (map (payload_ranges script) cs))"

definition heredoc_payload_byte_ranges :: "externals \<Rightarrow> str \<Rightarrow> (nat \<times> nat) list" where
  "heredoc_payload_byte_ranges E script =
     (case parse_shell E script of
        None \<Rightarrow> []
      | Some tree \<Rightarrow>
          if ts_has_error tree then []
          else remdups_adj (sort_key fst (sort_key snd (payload_ranges script (ts_root tree)))))"

definition range_fully_inside :: "nat \<Rightarrow> nat \<Rightarrow> (nat \<times> nat) list \<Rightarrow> bool" where
  "range_fully_inside start fin ranges =
     (if fin < start then False
      else list_ex (\<lambda>(rs, re). rs \<le> start \<and> fin \<le> re) ranges)"

text \<open>The loop that cuts a text at increasing offsets, from \<open>start\<close>.\<close>

fun cut_at :: "str \<Rightarrow> nat list \<Rightarrow> nat \<Rightarrow> str list" where
  "cut_at line [] start = (if start < length line then [drop start line] else [])"
| "cut_at line (b # bs) start =
     (if start < b \<and> b \<le> length line then slice line start b # cut_at line bs b
      else cut_at line bs start)"

definition split_physical_line_at_soft_breaks :: "str \<Rightarrow> nat \<Rightarrow> nat list \<Rightarrow> str list" where
  "split_physical_line_at_soft_breaks line line_start breaks =
     (let line_end = line_start + length line;
          rel = remdups_adj (filter (is_char_boundary line)
                  (map (\<lambda>b. b - line_start)
                     (filter (\<lambda>b. line_start < b \<and> b < line_end) breaks)))
      in if rel = [] then [line]
         else (let chunks = cut_at line rel 0 in if chunks = [] then [line] else chunks))"

definition soft_break_chunks :: "externals \<Rightarrow> str \<Rightarrow> str list" where
  "soft_break_chunks E script =
     (let breaks = soft_break_offsets_after_operators E script
      in if breaks = [] then [script] else cut_at script breaks 0)"

subsection \<open>Lemmas: what a parsed sequence guarantees\<close>

lemma parse_all_Some_iff: "parse_all f xs = Some ys \<longleftrightarrow> map f xs = map Some ys"
proof (induction xs arbitrary: ys)
  case Nil
  then show ?case by auto
next
  case (Cons x xs)
  then show ?case by (cases ys) (auto split: option.splits)
qed

lemma try_parse_SomeD:
  assumes "try_parse_word_only_commands_sequence tree src = Some cmds"
  shows "\<not> ts_has_error tree"
    and "\<forall>n \<in> set (ts_dfs (ts_root tree)). node_allowed n"
    and "map Some cmds = map (\<lambda>n. parse_plain_command_from_node n src)
           (sort_key ts_start
              (filter (\<lambda>n. ts_named n \<and> ts_kind n = ''command'') (ts_dfs (ts_root tree))))"
  using assms
  by (auto simp: try_parse_word_only_commands_sequence_def ts_walk_dfs Let_def parse_all_Some_iff
        list_all_iff simp del: ts_walk.simps split: if_splits)

lemma try_parse_command_covered:
  assumes "try_parse_word_only_commands_sequence tree src = Some cmds"
    and "n \<in> set (ts_dfs (ts_root tree))" "ts_named n" "ts_kind n = ''command''"
  shows "\<exists>c \<in> set cmds. parse_plain_command_from_node n src = Some c"
proof -
  have "Some ` set cmds = (\<lambda>n. parse_plain_command_from_node n src) `
      {n \<in> set (ts_dfs (ts_root tree)). ts_named n \<and> ts_kind n = ''command''}"
    using arg_cong[OF try_parse_SomeD(3)[OF assms(1)], of set] by simp
  with assms(2-4) show ?thesis by blast
qed

subsection \<open>Lemmas: wrappers\<close>

lemma skip_opts_ge: "i \<le> skip_opts two cmd i"
proof (induction two cmd i rule: skip_opts.induct)
  case (1 two cmd i)
  then show ?case by (subst skip_opts.simps) (auto split: if_splits)
qed

lemma env_scan_from_ge: "i \<le> snd (env_scan_from cmd chdir i)"
proof (induction "length cmd - i" arbitrary: i chdir rule: less_induct)
  case less
  have later: "i \<le> snd (env_scan_from cmd c j)" if "i < length cmd" "i < j" for c j
    using less[of j c] that by (simp add: diff_less_mono2)
  show ?case
    by (subst env_scan_from.simps) (auto simp: Let_def later split: option.splits)
qed

lemma wrapper_index_pos: "wrapper_index head cmd = Some i \<Longrightarrow> 1 \<le> i"
  using skip_opts_ge[of 1] env_scan_from_ge[of 1]
  by (auto simp: wrapper_index_def Let_def env_scan_def split: if_splits)

lemma strip_wrapper_drop:
  assumes "strip_wrapper_command cmd = Some inner"
  obtains i where "1 \<le> i" "inner = drop i cmd" "inner \<noteq> []"
  using assms
  by (auto simp: strip_wrapper_command_def split: list.splits option.splits if_splits
      dest!: wrapper_index_pos get_from_SomeD)

lemma strip_wrapper_only_wrappers:
  "strip_wrapper_command cmd = Some inner \<Longrightarrow> is_wrapper_command cmd"
  by (auto simp: strip_wrapper_command_def is_wrapper_command_def wrapper_index_def
      split: list.splits if_splits option.splits)

interpretation wrapper: peeler strip_wrapper_command
proof
  fix xs ys :: "str list"
  assume "strip_wrapper_command xs = Some ys"
  then obtain i where i: "1 \<le> i" "ys = drop i xs" "ys \<noteq> []" by (rule strip_wrapper_drop)
  show "ys \<noteq> []" by (rule i(3))
  have "ys \<noteq> xs"
  proof
    assume "ys = xs"
    with i have "length xs - i = length xs" "xs \<noteq> []" by (metis length_drop, simp)
    with i(1) show False by (cases xs; cases i) auto
  qed
  with i show "strict_suffix ys xs" by (simp add: strict_suffix_def suffix_drop)
qed

subsection \<open>Properties\<close>

lemma cut_at_concat: "start \<le> length line \<Longrightarrow> concat (cut_at line bs start) = drop start line"
proof (induction line bs start rule: cut_at.induct)
  case (1 line start)
  then show ?case by simp
next
  case (2 line b bs start)
  show ?case
  proof (cases "start < b \<and> b \<le> length line")
    case True
    then have "concat (cut_at line (b # bs) start) = slice line start b @ drop b line"
      using 2(1) by simp
    also have "\<dots> = drop start line"
      using True by (simp add: slice_def) (metis append_take_drop_id drop_drop le_add_diff_inverse2 less_imp_le)
    finally show ?thesis .
  next
    case False
    then have "cut_at line (b # bs) start = cut_at line bs start" by auto
    then show ?thesis using 2(2)[OF False 2(3)] by simp
  qed
qed

lemma cut_at_no_empty: "[] \<notin> set (cut_at line bs start)"
  by (induction line bs start rule: cut_at.induct) (auto simp: slice_def)

lemma unwrap_suffix: "suffix (unwrap_wrappers ws) ws"
  by (simp add: unwrap_wrappers_def wrapper.peel_n_suffix)

lemma unwrap_nonempty: "ws \<noteq> [] \<Longrightarrow> unwrap_wrappers ws \<noteq> []"
  by (simp add: unwrap_wrappers_def wrapper.peel_n_nonempty)

lemma unwrap_no_wrapper: "\<not> is_wrapper_command ws \<Longrightarrow> unwrap_wrappers ws = ws"
proof -
  assume "\<not> is_wrapper_command ws"
  then have "strip_wrapper_command ws = None"
    by (meson not_Some_eq strip_wrapper_only_wrappers)
  then show ?thesis by (simp add: unwrap_wrappers_def numeral_eq_Suc)
qed

text \<open>Peeling wrapper commands (at most eight times) returns a suffix of the words it was given,
  and never loses the command itself: the result is empty only for an empty command.\<close>

theorem unwrap_wrappers_suffix:
  "suffix (unwrap_wrappers ws) ws \<and> (unwrap_wrappers ws = [] \<longleftrightarrow> ws = [])"
  using unwrap_suffix[of ws] unwrap_nonempty[of ws] by auto

text \<open>A script that parses as a word-only sequence hides no command: the tree has no error and no
  node outside the allowlist, and the commands returned are exactly the parses of all its command
  nodes, in source order. So every command node of the tree is one of the commands returned.\<close>

theorem word_only_sequence_complete:
  assumes "try_parse_word_only_commands_sequence tree src = Some cmds"
  shows "\<not> ts_has_error tree \<and> list_all node_allowed (ts_dfs (ts_root tree))
    \<and> map Some cmds = map (\<lambda>n. parse_plain_command_from_node n src)
        (sort_key ts_start
          (filter (\<lambda>n. ts_named n \<and> ts_kind n = ''command'') (ts_dfs (ts_root tree))))"
  using try_parse_SomeD[OF assms] by (simp add: list_all_iff)

text \<open>The tree of the script \<open>ls a\<close>.\<close>

definition ls_tree :: ts_tree where
  "ls_tree =
     \<lparr>ts_root = TsNode ''program'' True None 0 4
        [TsNode ''command'' True None 0 4
           [TsNode ''command_name'' True (Some ''name'') 0 2
              [TsNode ''word'' True None 0 2 []],
            TsNode ''word'' True (Some ''argument'') 3 4 []]],
      ts_has_error = False\<rparr>"

lemma ls_tree_parses:
  "try_parse_word_only_commands_sequence ls_tree ''ls a''
     = Some [\<lparr>pc_words = [''ls'', ''a''], span_start = 0, span_end = 4\<rparr>]"
  by (simp add: ls_tree_def try_parse_word_only_commands_sequence_def node_allowed_def
      ALLOWED_KINDS_def parse_plain_command_from_node_def named_children_def push_span_def
      plain_command_child_def utf8_text_def slice_def)

definition ls_externals :: externals where
  "ls_externals = example_externals (\<lambda>s. if s = ''ls a'' then Some ls_tree else None)"

lemma ls_commands:
  "all_commands_from_script ls_externals ''ls a''
     = Some [\<lparr>pc_words = [''ls'', ''a''], span_start = 0, span_end = 4\<rparr>]"
  by (simp add: all_commands_from_script_def ls_externals_def example_externals_def ls_tree_parses)

theorem word_only_sequence_complete_witness:
  "list_all node_allowed (ts_dfs (ts_root ls_tree))
   \<and> try_parse_word_only_commands_sequence ls_tree ''ls a''
       = Some [\<lparr>pc_words = [''ls'', ''a''], span_start = 0, span_end = 4\<rparr>]"
  using word_only_sequence_complete[OF ls_tree_parses] ls_tree_parses by simp

text \<open>The display chunks lose and invent nothing: a physical line split at soft breaks, and a whole
  script, are the concatenations of their chunks, whatever offsets the breaks are.\<close>

theorem soft_break_chunks_lossless:
  "concat (split_physical_line_at_soft_breaks line line_start breaks) = line
   \<and> concat (soft_break_chunks E script) = script"
  using cut_at_concat[of 0]
  by (simp add: split_physical_line_at_soft_breaks_def soft_break_chunks_def Let_def)

lemma break_offsets_bounds:
  "b \<in> set (break_offsets script n) \<Longrightarrow> 0 < b \<and> b \<le> length script \<and> is_char_boundary script b"
  by (induction script n rule: break_offsets.induct) (auto split: if_splits)

lemma sorted_remdups_adj_strict:
  fixes xs :: "nat list"
  shows "sorted xs \<Longrightarrow> sorted_wrt (<) (remdups_adj xs)"
  by (induction xs rule: remdups_adj.induct) (auto simp: order_le_less)

text \<open>The soft-break offsets of a script are strictly increasing, lie inside the script and fall on
  character boundaries, and no chunk of a line or of a script with breaks is empty.\<close>

theorem soft_break_offsets_sound:
  "sorted_wrt (<) (soft_break_offsets_after_operators E script)
   \<and> list_all (\<lambda>b. 0 < b \<and> b \<le> length script \<and> is_char_boundary script b)
       (soft_break_offsets_after_operators E script)
   \<and> [] \<notin> set (cut_at script (soft_break_offsets_after_operators E script) 0)"
proof -
  have "sorted_wrt (<) (soft_break_offsets_after_operators E script)"
    by (auto simp: soft_break_offsets_after_operators_def split: option.splits
        intro!: sorted_remdups_adj_strict)
  moreover have "list_all (\<lambda>b. 0 < b \<and> b \<le> length script \<and> is_char_boundary script b)
       (soft_break_offsets_after_operators E script)"
    by (auto simp: soft_break_offsets_after_operators_def list_all_iff dest: break_offsets_bounds
        split: option.splits)
  ultimately show ?thesis by (simp add: cut_at_no_empty)
qed

end
