(* ===== verification/Domain_Matcher.thy ===== *)
theory Domain_Matcher
  imports Externals
begin

section \<open>Domain allowlist (\<open>qidi_build/web_fetch/domain.rs\<close>)\<close>

text \<open>
  Domain normalisation, which the policy's \<open>domain:\<close> rules share, and the precomputed host to
  path-prefix table of the fetch tool. The \<open>HashMap\<close> is a HOL map. \<open>check_iff\<close> shows that the table
  answers as the entry list does.
\<close>

definition trim_end_matches :: "char \<Rightarrow> str \<Rightarrow> str" where
  "trim_end_matches c s = rev (dropWhile (\<lambda>x. x = c) (rev s))"

definition normalize_domain :: "externals \<Rightarrow> str \<Rightarrow> str" where
  "normalize_domain E raw =
     (let s = trim_end_matches CHR ''.'' (trim_end_matches CHR ''/'' (trim raw));
          s = (case strip_prefix s ''www.'' of Some r \<Rightarrow> r | None \<Rightarrow> s)
      in to_lowercase E s)"

datatype host_entry = AnyPath | PathPrefixes "str list"

type_synonym domain_matcher = "str \<Rightarrow> host_entry option"

text \<open>The body of the loop of \<open>DomainMatcher::new\<close>; its \<open>continue\<close>s return the table unchanged.\<close>

definition host_part :: "str \<Rightarrow> str" where
  "host_part n = takeWhile (\<lambda>c. c \<noteq> CHR ''/'') n"

definition path_part :: "str \<Rightarrow> str" where
  "path_part n = dropWhile (\<lambda>c. c \<noteq> CHR ''/'') n"

definition add_entry :: "externals \<Rightarrow> domain_matcher \<Rightarrow> str \<Rightarrow> domain_matcher" where
  "add_entry E entries raw =
     (let normalized = normalize_domain E raw in
      if normalized = [] then entries
      else
        (let host = host_part normalized;
             path = (if path_part normalized = [] then None else Some (path_part normalized))
         in case path of
              None \<Rightarrow> entries(host \<mapsto> AnyPath)
            | Some raw_path \<Rightarrow>
                if entries host = Some AnyPath then entries
                else
                  (let pre = trim_end_matches CHR ''/'' raw_path in
                   if pre = [] \<or> pre = ''/'' then entries(host \<mapsto> AnyPath)
                   else
                     (let pre = (if starts_with pre ''/'' then pre else ''/'' @ pre)
                      in case entries host of
                           Some (PathPrefixes v) \<Rightarrow>
                             if pre \<in> set v then entries
                             else entries(host \<mapsto> PathPrefixes (v @ [pre]))
                         | Some AnyPath \<Rightarrow> entries
                         | None \<Rightarrow> entries(host \<mapsto> PathPrefixes [pre])))))"

definition domain_matcher_new :: "externals \<Rightarrow> str list \<Rightarrow> domain_matcher" where
  "domain_matcher_new E raw_entries = foldl (add_entry E) Map.empty raw_entries"

text \<open>\<open>Some h\<close> is \<open>Some(WebFetchOutput::DomainNotAllowed(h))\<close>, \<open>None\<close> means the fetch is permitted.\<close>

definition path_under :: "str \<Rightarrow> str \<Rightarrow> bool" where
  "path_under p pre =
     (p = pre \<or> (starts_with p pre \<and> nth_opt p (length pre) = Some CHR ''/''))"

definition check :: "externals \<Rightarrow> domain_matcher \<Rightarrow> url \<Rightarrow> str option" where
  "check E m u =
     (case host_str u of
        None \<Rightarrow> Some []
      | Some raw_host \<Rightarrow>
          (let host = normalize_domain E raw_host
           in case m host of
                Some AnyPath \<Rightarrow> None
              | Some (PathPrefixes ps) \<Rightarrow>
                  if list_ex (path_under (to_lowercase E (url_path u))) ps then None
                  else Some host
              | None \<Rightarrow> Some host))"

definition domain_from_url :: "externals \<Rightarrow> str \<Rightarrow> str option" where
  "domain_from_url E raw_url =
     (case url_parse E raw_url of
        None \<Rightarrow> None
      | Some u \<Rightarrow> map_option (normalize_domain E) (host_str u))"

subsection \<open>The reference: one entry at a time\<close>

text \<open>What an entry stands for: a host, with a path prefix or without one.\<close>

definition entry_meaning :: "externals \<Rightarrow> str \<Rightarrow> (str \<times> str option) option" where
  "entry_meaning E raw =
     (let n = normalize_domain E raw;
          host = host_part n;
          pre = trim_end_matches CHR ''/'' (path_part n)
      in if n = [] then None
         else Some (host, if pre = [] then None else Some pre))"

definition entry_permits :: "externals \<Rightarrow> str \<Rightarrow> str \<Rightarrow> str \<Rightarrow> bool" where
  "entry_permits E raw host path =
     (case entry_meaning E raw of
        None \<Rightarrow> False
      | Some (h, None) \<Rightarrow> h = host
      | Some (h, Some pre) \<Rightarrow> h = host \<and> path_under path pre)"

text \<open>The invariant of the loop: the table of a host holds exactly the meanings of its entries.\<close>

definition table_of :: "(str \<times> str option) set \<Rightarrow> domain_matcher \<Rightarrow> bool" where
  "table_of M m =
     (\<forall>h. case m h of
            None \<Rightarrow> (\<forall>p. (h, p) \<notin> M)
          | Some AnyPath \<Rightarrow> (h, None) \<in> M
          | Some (PathPrefixes v) \<Rightarrow> (h, None) \<notin> M \<and> (\<forall>p. (h, Some p) \<in> M \<longleftrightarrow> p \<in> set v))"

lemma trim_end_last: "trim_end_matches c s \<noteq> [] \<Longrightarrow> last (trim_end_matches c s) \<noteq> c"
  unfolding trim_end_matches_def last_rev by (metis (full_types) hd_dropWhile rev_is_Nil_conv)

lemma trim_end_slash: "trim_end_matches CHR ''/'' s \<noteq> ''/''"
  using trim_end_last[of "CHR ''/''" s] by (metis last.simps list.distinct(1))

lemma trim_end_hd: "trim_end_matches c s \<noteq> [] \<Longrightarrow> hd (trim_end_matches c s) = hd s"
proof -
  assume a: "trim_end_matches c s \<noteq> []"
  have "s = trim_end_matches c s @ rev (takeWhile (\<lambda>x. x = c) (rev s))"
    unfolding trim_end_matches_def rev_append[symmetric] takeWhile_dropWhile_id by simp
  with a show ?thesis by (metis hd_append2)
qed

lemma trim_end_Nil [simp]: "trim_end_matches c [] = []"
  by (simp add: trim_end_matches_def)

lemma path_part_slash: "path_part n \<noteq> [] \<Longrightarrow> hd (path_part n) = CHR ''/''"
  unfolding path_part_def using hd_dropWhile[of "\<lambda>c. c \<noteq> CHR ''/''" n] by blast

lemma path_prefix_slash:
  assumes "trim_end_matches CHR ''/'' (path_part n) \<noteq> []"
  shows "starts_with (trim_end_matches CHR ''/'' (path_part n)) ''/''"
proof -
  have "path_part n \<noteq> []" using assms by (metis trim_end_Nil)
  then have "hd (trim_end_matches CHR ''/'' (path_part n)) = CHR ''/''"
    using trim_end_hd[OF assms] path_part_slash by simp
  with assms show ?thesis by (cases "trim_end_matches CHR ''/'' (path_part n)") simp_all
qed

lemma add_entry_meaning:
  "add_entry E m raw =
     (case entry_meaning E raw of
        None \<Rightarrow> m
      | Some (h, None) \<Rightarrow> m(h \<mapsto> AnyPath)
      | Some (h, Some p) \<Rightarrow>
          (case m h of
             Some AnyPath \<Rightarrow> m
           | Some (PathPrefixes v) \<Rightarrow> if p \<in> set v then m else m(h \<mapsto> PathPrefixes (v @ [p]))
           | None \<Rightarrow> m(h \<mapsto> PathPrefixes [p])))"
proof (cases "normalize_domain E raw = []")
  case True
  then show ?thesis by (simp add: add_entry_def entry_meaning_def)
next
  case False
  define n where "n = normalize_domain E raw"
  have any: "m h = Some AnyPath \<Longrightarrow> m(h \<mapsto> AnyPath) = m" for h by auto
  show ?thesis
  proof (cases "trim_end_matches CHR ''/'' (path_part n) = []")
    case True
    with False n_def any[of "host_part n"] show ?thesis
      by (cases "path_part n = []"; cases "m (host_part n) = Some AnyPath")
        (simp_all add: add_entry_def entry_meaning_def Let_def)
  next
    case f: False
    then have r: "path_part n \<noteq> []" by (metis trim_end_Nil)
    define t where "t = trim_end_matches CHR ''/'' (path_part n)"
    have t: "t \<noteq> []" "t \<noteq> ''/''" "starts_with t ''/''"
      using f trim_end_slash path_prefix_slash[OF f] by (simp_all add: t_def)
    have e: "entry_meaning E raw = Some (host_part n, Some t)"
      using False f n_def by (simp add: entry_meaning_def t_def Let_def)
    have "n \<noteq> []" using False n_def by simp
    then show ?thesis
      unfolding add_entry_def Let_def e n_def[symmetric] t_def[symmetric]
      using r t
      by (cases "m (host_part n)"; cases "the (m (host_part n))") (simp_all add: t_def[symmetric])
  qed
qed

lemma table_of_upd:
  assumes "table_of M m"
    and "case e of AnyPath \<Rightarrow> (h, None) \<in> M'
          | PathPrefixes v \<Rightarrow> (h, None) \<notin> M' \<and> (\<forall>p. (h, Some p) \<in> M' \<longleftrightarrow> p \<in> set v)"
    and "\<And>h' p. h' \<noteq> h \<Longrightarrow> (h', p) \<in> M' \<longleftrightarrow> (h', p) \<in> M"
  shows "table_of M' (m(h \<mapsto> e))"
  unfolding table_of_def
proof
  fix h'
  show "case (m(h \<mapsto> e)) h' of None \<Rightarrow> \<forall>p. (h', p) \<notin> M' | Some AnyPath \<Rightarrow> (h', None) \<in> M'
      | Some (PathPrefixes v) \<Rightarrow> (h', None) \<notin> M' \<and> (\<forall>p. (h', Some p) \<in> M' \<longleftrightarrow> p \<in> set v)"
  proof (cases "h' = h")
    case True
    with assms(2) show ?thesis by (simp split: host_entry.splits)
  next
    case False
    then have "(m(h \<mapsto> e)) h' = m h'" by simp
    moreover note assms(1)[unfolded table_of_def, rule_format, of h']
    ultimately show ?thesis using assms(3)[OF False] by (simp only: simp_thms)
  qed
qed

lemma table_of_same:
  assumes "table_of M m" "\<And>h' p. h' \<noteq> h \<Longrightarrow> (h', p) \<in> M' \<longleftrightarrow> (h', p) \<in> M" "m h = Some e"
    and "case e of AnyPath \<Rightarrow> (h, None) \<in> M'
          | PathPrefixes v \<Rightarrow> (h, None) \<notin> M' \<and> (\<forall>p. (h, Some p) \<in> M' \<longleftrightarrow> p \<in> set v)"
  shows "table_of M' m"
proof -
  have "m = m(h \<mapsto> e)" using assms(3) by auto
  with table_of_upd[OF assms(1,4,2)] show ?thesis by metis
qed

lemma table_of_add_entry:
  assumes T: "table_of M m"
  shows "table_of (M \<union> set_option (entry_meaning E raw)) (add_entry E m raw)"
proof (cases "entry_meaning E raw")
  case None
  with T show ?thesis by (simp add: add_entry_meaning)
next
  case (Some hp)
  obtain h p where hp: "hp = (h, p)" by (cases hp)
  let ?M = "M \<union> {(h, p)}"
  have other: "\<And>h' q. h' \<noteq> h \<Longrightarrow> (h', q) \<in> ?M \<longleftrightarrow> (h', q) \<in> M" by blast
  note at = T[unfolded table_of_def, rule_format, of h]
  have "table_of ?M (add_entry E m raw)"
  proof (cases p)
    case None
    have "table_of ?M (m(h \<mapsto> AnyPath))"
      by (rule table_of_upd[OF T _ other]) (simp_all add: None)
    with None Some hp show ?thesis by (simp add: add_entry_meaning)
  next
    case p: (Some q)
    show ?thesis
    proof (cases "m h")
      case None
      with at have "(h, r) \<notin> M" for r by simp
      then have "table_of ?M (m(h \<mapsto> PathPrefixes [q]))"
        by (intro table_of_upd[OF T _ other]) (simp_all add: p)
      with p None Some hp show ?thesis by (simp add: add_entry_meaning)
    next
      case mh: (Some e)
      show ?thesis
      proof (cases e)
        case AnyPath
        with at mh have "(h, None) \<in> M" by simp
        then have "table_of ?M m"
          by (intro table_of_same[OF T other mh]) (simp_all add: AnyPath)
        with p mh AnyPath Some hp show ?thesis by (simp add: add_entry_meaning)
      next
        case e: (PathPrefixes v)
        with at mh have M: "(h, None) \<notin> M" "\<And>r. (h, Some r) \<in> M \<longleftrightarrow> r \<in> set v" by simp_all
        show ?thesis
        proof (cases "q \<in> set v")
          case True
          then have "table_of ?M m"
            by (intro table_of_same[OF T other mh]) (use M True in \<open>auto simp: e p\<close>)
          with True p mh e Some hp show ?thesis by (simp add: add_entry_meaning)
        next
          case False
          have "table_of ?M (m(h \<mapsto> PathPrefixes (v @ [q])))"
            by (intro table_of_upd[OF T _ other]) (use M in \<open>auto simp: p\<close>)
          with False p mh e Some hp show ?thesis by (simp add: add_entry_meaning)
        qed
      qed
    qed
  qed
  then show ?thesis by (simp add: Some hp)
qed

lemma table_of_new: "table_of (\<Union>raw \<in> set raws. set_option (entry_meaning E raw)) (domain_matcher_new E raws)"
proof (induction raws rule: rev_induct)
  case Nil
  then show ?case by (simp add: domain_matcher_new_def table_of_def)
next
  case (snoc raw raws)
  have "domain_matcher_new E (raws @ [raw]) = add_entry E (domain_matcher_new E raws) raw"
    by (simp add: domain_matcher_new_def)
  with table_of_add_entry[OF snoc] show ?case by (simp add: Un_commute)
qed

subsection \<open>Properties\<close>

text \<open>The precomputed host table permits a URL exactly when some entry of the allowlist permits it on
  its own: a host-only entry for the URL's normalised host, or a path entry of that host whose prefix is
  the URL's lower-cased path or a whole-segment prefix of it. A URL without a host is never permitted.\<close>

theorem domain_check_iff:
  "check E (domain_matcher_new E raws) u = None \<longleftrightarrow>
     (\<exists>h. host_str u = Some h
        \<and> list_ex (\<lambda>raw. entry_permits E raw (normalize_domain E h) (to_lowercase E (url_path u))) raws)"
proof (cases "host_str u")
  case None
  then show ?thesis by (simp add: check_def)
next
  case (Some h)
  define M where "M = (\<Union>raw \<in> set raws. set_option (entry_meaning E raw))"
  define h' p where "h' = normalize_domain E h" and "p = to_lowercase E (url_path u)"
  have one: "entry_permits E raw h' p \<longleftrightarrow>
      (\<exists>q. entry_meaning E raw = Some (h', q) \<and> (case q of None \<Rightarrow> True | Some q \<Rightarrow> path_under p q))" for raw
    by (auto simp: entry_permits_def split: option.splits)
  have ex: "list_ex (\<lambda>raw. entry_permits E raw h' p) raws
      \<longleftrightarrow> (\<exists>q. (h', q) \<in> M \<and> (case q of None \<Rightarrow> True | Some q \<Rightarrow> path_under p q))"
    unfolding list_ex_iff one M_def UN_iff elem_set by blast
  note at = table_of_new[of E raws, folded M_def, unfolded table_of_def, rule_format, of h']
  have "check E (domain_matcher_new E raws) u = None
      \<longleftrightarrow> (\<exists>q. (h', q) \<in> M \<and> (case q of None \<Rightarrow> True | Some q \<Rightarrow> path_under p q))"
  proof (cases "domain_matcher_new E raws h'")
    case None
    with at have "\<And>q. (h', q) \<notin> M" by simp
    with None Some show ?thesis by (simp add: check_def h'_def)
  next
    case m: (Some e)
    show ?thesis
    proof (cases e)
      case AnyPath
      with at m have "(h', None) \<in> M" by simp
      then have "\<exists>q. (h', q) \<in> M \<and> (case q of None \<Rightarrow> True | Some q \<Rightarrow> path_under p q)"
        by (intro exI[of _ None]) simp
      with m AnyPath Some show ?thesis by (simp add: check_def h'_def)
    next
      case e: (PathPrefixes v)
      with at m have M: "(h', None) \<notin> M" "\<And>r. (h', Some r) \<in> M \<longleftrightarrow> r \<in> set v" by simp_all
      have "(\<exists>q. (h', q) \<in> M \<and> (case q of None \<Rightarrow> True | Some q \<Rightarrow> path_under p q))
          \<longleftrightarrow> list_ex (path_under p) v"
        unfolding list_ex_iff using M by (metis option.exhaust option.simps(5))
      with m e Some show ?thesis by (simp add: check_def h'_def p_def)
    qed
  qed
  with Some ex show ?thesis by (simp add: h'_def p_def)
qed

end
