(* ===== verification/Shell_Access.thy ===== *)
theory Shell_Access
  imports Policy
begin

section \<open>Files a shell command touches (\<open>permission/shell_access.rs\<close>)\<close>

text \<open>
  The gate that keeps file rules from being bypassed through the shell: the redirects and operands
  of a parsed command line, their paths in normal form, the symbolic links they go through, and
  the decision of the file rules on each. The file system is the \<open>fs_\<close> fields of \<open>externals\<close>.
\<close>

datatype shell_file_mode = Read | Write

subsection \<open>Paths as text\<close>

definition is_quote_char :: "char \<Rightarrow> bool" where
  "is_quote_char c = (c = dquote \<or> c = squote)"

definition trim_quotes :: "str \<Rightarrow> str" where
  "trim_quotes s = rev (dropWhile is_quote_char (rev (dropWhile is_quote_char s)))"

definition normalize_shell_path_raw :: "str \<Rightarrow> str" where
  "normalize_shell_path_raw path =
     (let p = map (\<lambda>c. if c = backslash then CHR ''/'' else c) (trim_quotes path)
      in case strip_prefix p ''/c/'' of Some rest \<Rightarrow> ''C:/'' @ rest | None \<Rightarrow> p)"

text \<open>One turn of the loop over the segments; \<open>out\<close> is the stack, its last element the top.\<close>

definition push_segment :: "bool \<Rightarrow> str list \<Rightarrow> str \<Rightarrow> str list" where
  "push_segment absolute out segment =
     (if segment = [] \<or> segment = ''.'' then out
      else if segment = ''..'' then
        (if out \<noteq> [] \<and> last out \<noteq> ''..'' then butlast out
         else if \<not> absolute then out @ [''..''] else out)
      else out @ [segment])"

definition normal_segments :: "bool \<Rightarrow> str list \<Rightarrow> str list" where
  "normal_segments absolute segments = foldl (push_segment absolute) [] segments"

definition has_drive :: "str \<Rightarrow> bool" where
  "has_drive path = (nth_opt path 1 = Some CHR '':'')"

definition lexical_normalize :: "str \<Rightarrow> str" where
  "lexical_normalize path =
     (let prefix_len = (if has_drive path then 2 else 0);
          pre = take prefix_len path; rest = drop prefix_len path;
          absolute = starts_with rest ''/'';
          body = join ''/'' (normal_segments absolute (split_on CHR ''/'' rest))
      in if pre \<noteq> [] \<and> absolute \<and> body \<noteq> [] then pre @ ''/'' @ body
         else if pre \<noteq> [] \<and> absolute then pre @ ''/''
         else if pre \<noteq> [] then pre @ body
         else if absolute \<and> body \<noteq> [] then ''/'' @ body
         else if absolute then ''/''
         else body)"

definition normalize_shell_path :: "str \<Rightarrow> str" where
  "normalize_shell_path path = lexical_normalize (normalize_shell_path_raw path)"

definition is_absolute_shell_path :: "str \<Rightarrow> bool" where
  "is_absolute_shell_path path =
     (starts_with path ''/'' \<or> starts_with path ''~/'' \<or> nth_opt path 1 = Some CHR '':'')"

definition is_directory_operand :: "str \<Rightarrow> bool" where
  "is_directory_operand token = (token = ''.'' \<or> token = ''..'' \<or> ends_with token ''/'')"

definition shell_arg_is_ambiguous :: "str \<Rightarrow> bool" where
  "shell_arg_is_ambiguous token =
     (CHR ''*'' \<in> set token \<or> CHR ''?'' \<in> set token \<or> CHR ''['' \<in> set token)"

subsection \<open>Symbolic links\<close>

definition path_has_symlink :: "externals \<Rightarrow> str \<Rightarrow> bool" where
  "path_has_symlink E absolute =
     (if \<not> fs_is_absolute E absolute then False
      else list_ex (\<lambda>p. fs_is_symlink E p = Some True) (fs_prefixes E absolute))"

text \<open>\<open>resolve_links left\<close> is \<open>resolve_following_symlinks\<close> at \<open>depth = 41 - left\<close>.\<close>

fun resolve_links :: "externals \<Rightarrow> nat \<Rightarrow> str \<Rightarrow> str option" where
  "resolve_links E 0 path = None"
| "resolve_links E (Suc left) path =
     (case fs_canonicalize E path of
        Some canonical \<Rightarrow> Some canonical
      | None \<Rightarrow>
          (case fs_parent E path of
             None \<Rightarrow> None
           | Some parent \<Rightarrow>
               (case fs_file_name E path of
                  None \<Rightarrow> None
                | Some file_name \<Rightarrow>
                    (case resolve_links E left parent of
                       None \<Rightarrow> None
                     | Some resolved_parent \<Rightarrow>
                         (let candidate = fs_join E resolved_parent file_name in
                          if fs_is_symlink E candidate = Some True then
                            (case fs_read_link E candidate of
                               None \<Rightarrow> None
                             | Some target \<Rightarrow>
                                 resolve_links E left
                                   (if fs_is_absolute E target then target
                                    else fs_join E resolved_parent target))
                          else Some candidate)))))"

definition resolve_following_symlinks :: "externals \<Rightarrow> str \<Rightarrow> nat \<Rightarrow> str option" where
  "resolve_following_symlinks E path depth = resolve_links E (41 - depth) path"

definition resolve_symlink_target :: "externals \<Rightarrow> str \<Rightarrow> str option" where
  "resolve_symlink_target E absolute =
     (if \<not> fs_is_absolute E absolute then None
      else map_option normalize_shell_path (resolve_following_symlinks E absolute 0))"

subsection \<open>Words of one command\<close>

definition shell_program_name :: "str \<Rightarrow> str" where
  "shell_program_name word = last_path_seg word"

definition shell_file_mode_of :: "str \<Rightarrow> shell_file_mode option" where
  "shell_file_mode_of program =
     (if program \<in> set [''cat'', ''tac'', ''nl'', ''head'', ''tail'', ''grep'', ''egrep'', ''fgrep'',
           ''rg'', ''sed'', ''awk'', ''less'', ''more'', ''bat'', ''strings'', ''xxd'', ''od'',
           ''hexdump'', ''base64'', ''base32'', ''cut'', ''sort'', ''uniq'', ''wc'', ''type'',
           ''get-content'', ''gc'', ''diff'', ''comm'', ''rev'', ''jq'', ''yq'', ''select-string'',
           ''sls'', ''ag'', ''ack'', ''zcat'', ''zless'', ''zmore'', ''zgrep'', ''zegrep'',
           ''zfgrep'', ''bzcat'', ''bzgrep'', ''xzcat'', ''xzgrep'', ''zstdcat'', ''lz4cat'']
      then Some Read
      else if program \<in> set [''tee'', ''set-content'', ''out-file'', ''add-content'',
           ''tee-object'', ''truncate'']
      then Some Write
      else None)"

definition shell_sed_in_place :: "str list \<Rightarrow> bool" where
  "shell_sed_in_place words =
     list_ex (\<lambda>word. word = ''--in-place'' \<or> starts_with word ''--in-place=''
        \<or> (starts_with word ''-'' \<and> \<not> starts_with word ''--'' \<and> CHR ''i'' \<in> set word))
       (drop 1 words)"

definition non_empty :: "str option \<Rightarrow> str option" where
  "non_empty x = (case x of Some v \<Rightarrow> if v = [] then None else Some v | None \<Rightarrow> None)"

text \<open>\<open>a.or_else(|| b)\<close>.\<close>

definition or_else :: "'a option \<Rightarrow> 'a option \<Rightarrow> 'a option" where
  "or_else a b = (case a of Some x \<Rightarrow> Some x | None \<Rightarrow> b)"

definition shell_output_flag_values :: "str list \<Rightarrow> str list" where
  "shell_output_flag_values words =
     List.map_filter (\<lambda>(i, token).
        or_else (strip_prefix token ''--output='')
          (or_else (non_empty (strip_prefix token ''-o''))
             (if token = ''--output'' \<or> token = ''-o'' then nth_opt words (i + 1) else None)))
       (enumerate 0 words)"

definition value_flag_values :: "str list \<Rightarrow> str \<Rightarrow> str list" where
  "value_flag_values words flag =
     List.map_filter (\<lambda>(i, token).
        (case strip_prefix token (flag @ ''='') of
           Some v \<Rightarrow> Some v
         | None \<Rightarrow>
             if token = flag then nth_opt words (i + 1)
             else if \<not> starts_with flag ''--'' then non_empty (strip_prefix token flag)
             else None))
       (enumerate 0 words)"

fun file_candidates :: "bool \<Rightarrow> str list \<Rightarrow> str list" where
  "file_candidates end_of_options [] = []"
| "file_candidates end_of_options (token # rest) =
     (if \<not> end_of_options \<and> token = ''--'' then file_candidates True rest
      else if end_of_options \<or> (token \<noteq> ''-'' \<and> \<not> starts_with token ''-'')
      then token # file_candidates end_of_options rest
      else file_candidates end_of_options rest)"

definition shell_file_candidates :: "str list \<Rightarrow> str list" where
  "shell_file_candidates words = file_candidates False (drop 1 words)"

definition dd_operand :: "str \<Rightarrow> (str \<times> shell_file_mode) option" where
  "dd_operand token =
     (case strip_prefix token ''if='' of
        Some p \<Rightarrow> Some (p, Read)
      | None \<Rightarrow> map_option (\<lambda>p. (p, Write)) (strip_prefix token ''of=''))"

definition special_file_operands :: "str \<Rightarrow> str list \<Rightarrow> (str \<times> shell_file_mode) list" where
  "special_file_operands program words =
     (if program = ''dd'' then List.map_filter dd_operand (drop 1 words)
      else if program \<in> {''sort'', ''go'', ''git''} then
        map (\<lambda>p. (p, Write)) (shell_output_flag_values words)
      else if program = ''rustc'' then
        map (\<lambda>p. (p, Write)) (shell_output_flag_values words @ value_flag_values words ''--out-dir'')
      else if program = ''rustfmt'' then
        map (\<lambda>p. (p, Write)) (shell_file_candidates words)
      else [])"

definition shell_path_command_operands :: "str \<Rightarrow> str list \<Rightarrow> (str \<times> shell_file_mode) list option" where
  "shell_path_command_operands program words =
     (if program \<in> {''cp'', ''mv'', ''ln'', ''install''} then
        (let operands = shell_file_candidates words
         in if operands = [] then None
            else Some (map (\<lambda>s. (s, Read)) (butlast operands) @ [(last operands, Write)]))
      else if program \<in> {''rm'', ''rmdir'', ''mkdir'', ''touch''} then
        Some (map (\<lambda>c. (c, Write)) (shell_file_candidates words))
      else if program = ''uniq'' then
        (case shell_file_candidates words of
           input # out # _ \<Rightarrow> Some [(input, Read), (out, Write)]
         | _ \<Rightarrow> None)
      else None)"

definition shell_reader_can_recurse :: "str \<Rightarrow> str list \<Rightarrow> str list \<Rightarrow> bool" where
  "shell_reader_can_recurse program words candidates =
     ((program \<in> {''grep'', ''egrep'', ''fgrep''}
        \<and> list_ex (\<lambda>word. word = ''--recursive'' \<or> word = ''--dereference-recursive''
            \<or> (starts_with word ''-'' \<and> \<not> starts_with word ''--''
               \<and> (CHR ''r'' \<in> set word \<or> CHR ''R'' \<in> set word))) words)
      \<or> (program \<in> {''rg'', ''ag'', ''ack''}
        \<and> (length candidates \<le> 1 \<or> list_ex is_directory_operand (drop 1 candidates))))"

definition shell_access :: "shell_file_mode \<Rightarrow> str \<Rightarrow> access_kind" where
  "shell_access mode path =
     (case mode of Read \<Rightarrow> access_kind.Read (Some path) | Write \<Rightarrow> access_kind.Edit path)"

definition written :: "(str \<times> shell_file_mode) list \<Rightarrow> str list" where
  "written ops = map fst (filter (\<lambda>op. snd op = Write) ops)"

definition command_words_write_paths :: "str list \<Rightarrow> str list" where
  "command_words_write_paths words =
     (let inner = unwrap_wrappers words in
      case inner of
        [] \<Rightarrow> []
      | w # _ \<Rightarrow>
          (let program = to_ascii_lowercase (shell_program_name w);
               out = written (special_file_operands program inner)
           in case shell_path_command_operands program inner of
                Some operands \<Rightarrow> out @ written operands
              | None \<Rightarrow>
                  if shell_file_mode_of program = Some Write
                     \<or> (program = ''sed'' \<and> shell_sed_in_place inner)
                  then out @ shell_file_candidates inner
                  else out))"

subsection \<open>Positions in the tree\<close>

text \<open>
  \<open>parent()\<close> and \<open>next_sibling()\<close>: a located node is the chain of nodes from it up to the root,
  each with its next sibling. \<open>locate\<close> visits the nodes in the order of the walk.
\<close>

type_synonym location = "(ts_node \<times> ts_node option) list"

fun locate :: "location \<Rightarrow> ts_node \<Rightarrow> ts_node option \<Rightarrow> location list"
  and locate_children :: "location \<Rightarrow> ts_node list \<Rightarrow> location list" where
  "locate up (TsNode k nm f s e cs) sib =
     (let here = (TsNode k nm f s e cs, sib) # up in here # locate_children here cs)"
| "locate_children up [] = []"
| "locate_children up (c # cs) =
     locate_children up cs @ locate up c (case cs of [] \<Rightarrow> None | n # _ \<Rightarrow> Some n)"

fun runs_in_current_shell :: "location \<Rightarrow> bool" where
  "runs_in_current_shell [] = True"
| "runs_in_current_shell ((node, sib) # up) =
     (if (case sib of Some s \<Rightarrow> ts_kind s = ''&'' | None \<Rightarrow> False) then False
      else (case up of
              [] \<Rightarrow> True
            | (parent, _) # _ \<Rightarrow>
                if ts_kind parent \<in> {''subshell'', ''pipeline'', ''command_substitution'',
                     ''process_substitution''} then False
                else runs_in_current_shell up))"

definition cwd_poison_positions :: "ts_node \<Rightarrow> str \<Rightarrow> nat list" where
  "cwd_poison_positions root src =
     map (\<lambda>l. ts_start (fst (hd l)))
       (filter (\<lambda>l. let node = fst (hd l) in
            ts_kind node = ''command''
            \<and> (case child_by_field_name node ''name'' of
                 None \<Rightarrow> False
               | Some n \<Rightarrow> shell_program_name (utf8_text src n) \<in> {''cd'', ''pushd'', ''popd''})
            \<and> runs_in_current_shell l)
         (locate [] root None))"

definition cwd_unpinned_before :: "nat list \<Rightarrow> nat \<Rightarrow> bool" where
  "cwd_unpinned_before positions at = list_ex (\<lambda>p. p < at) positions"

subsection \<open>Operands and redirects\<close>

datatype arg_text = Literal str | Ambiguous

definition node_has_expansion :: "ts_node \<Rightarrow> bool" where
  "node_has_expansion node =
     list_ex (\<lambda>n. list_ex (\<lambda>c. ts_kind c \<in> {''expansion'', ''simple_expansion'',
         ''command_substitution'', ''arithmetic_expansion'', ''process_substitution''}) (ts_children n))
       (ts_walk [node])"

definition unwrap_quotes :: "char \<Rightarrow> str \<Rightarrow> str" where
  "unwrap_quotes q raw =
     (case Option.bind (strip_prefix raw [q]) (\<lambda>s. strip_suffix s [q]) of
        Some s \<Rightarrow> s | None \<Rightarrow> raw)"

definition shell_node_arg :: "ts_node \<Rightarrow> str \<Rightarrow> arg_text option" where
  "shell_node_arg node src =
     (let kind = ts_kind node; text = utf8_text src node in
      if kind = ''variable_assignment'' then None
      else if kind = ''word'' \<or> kind = ''number'' then Some (Literal text)
      else if kind = ''raw_string'' then Some (Literal (unwrap_quotes squote text))
      else if kind = ''string'' then
        (if node_has_expansion node then Some Ambiguous
         else Some (Literal (unwrap_quotes dquote text)))
      else if kind = ''concatenation'' then
        (if node_has_expansion node then Some Ambiguous else Some (Literal text))
      else Some Ambiguous)"

text \<open>The words of a command node and whether one of them is ambiguous.\<close>

definition add_operand :: "str \<Rightarrow> str list \<times> bool \<Rightarrow> ts_node \<Rightarrow> str list \<times> bool" where
  "add_operand src acc child =
     (let operand =
            (if ts_kind child = ''command_name'' then
               (case named_children child of [] \<Rightarrow> None | inner # _ \<Rightarrow> shell_node_arg inner src)
             else shell_node_arg child src)
      in case operand of
           Some (Literal w) \<Rightarrow> (fst acc @ [w], snd acc)
         | Some Ambiguous \<Rightarrow> (fst acc, True)
         | None \<Rightarrow> acc)"

definition shell_command_invocations :: "ts_node \<Rightarrow> str \<Rightarrow> (nat \<times> str list \<times> bool) list" where
  "shell_command_invocations root src =
     sort_key fst
       (map (\<lambda>node. (ts_start node, foldl (add_operand src) ([], False) (named_children node)))
         (filter (\<lambda>node. ts_kind node = ''command'') (ts_walk [root])))"

text \<open>The loop over the children's kinds; \<open>Inl ()\<close> is its \<open>return None\<close>.\<close>

fun redirect_mode :: "ts_node list \<Rightarrow> unit + shell_file_mode option" where
  "redirect_mode [] = Inr None"
| "redirect_mode (c # cs) =
     (if contains (ts_kind c) ''<<'' then Inl ()
      else if CHR ''>'' \<in> set (ts_kind c) then Inr (Some Write)
      else if CHR ''<'' \<in> set (ts_kind c) then Inr (Some Read)
      else redirect_mode cs)"

definition shell_redirect_one :: "ts_node \<Rightarrow> str \<Rightarrow> (str option \<times> shell_file_mode \<times> bool) option" where
  "shell_redirect_one node src =
     (case redirect_mode (ts_children node) of
        Inr (Some mode) \<Rightarrow>
          (case child_by_field_name node ''destination'' of
             None \<Rightarrow> None
           | Some dest \<Rightarrow>
               (case shell_node_arg dest src of
                  None \<Rightarrow> None
                | Some (Literal s) \<Rightarrow>
                    if s = [] \<or> starts_with s ''&'' \<or> list_all is_ascii_digit s then None
                    else Some (Some s, mode, shell_arg_is_ambiguous s)
                | Some Ambiguous \<Rightarrow> Some (None, mode, True)))
      | _ \<Rightarrow> None)"

definition shell_redirect_targets ::
    "ts_node \<Rightarrow> str \<Rightarrow> (nat \<times> str option \<times> shell_file_mode \<times> bool) list" where
  "shell_redirect_targets root src =
     List.map_filter (\<lambda>node.
        if ts_kind node = ''file_redirect''
        then map_option (\<lambda>t. (ts_start node, t)) (shell_redirect_one node src) else None)
       (ts_walk [root])"

definition command_write_paths_in_tree :: "ts_node \<Rightarrow> str \<Rightarrow> str list" where
  "command_write_paths_in_tree root src =
     List.map_filter (\<lambda>(_, path, mode, _). if mode = Write then path else None)
       (shell_redirect_targets root src)
     @ concat (map (\<lambda>(_, raw_words, _). command_words_write_paths raw_words)
         (shell_command_invocations root src))"

subsection \<open>The gate\<close>

definition escalate_access :: "externals \<Rightarrow> compiled_policy \<Rightarrow> access_kind \<Rightarrow> decision option" where
  "escalate_access E cp access =
     (case evaluate E cp access of
        Some decision.Allow \<Rightarrow> None
      | None \<Rightarrow> None
      | other \<Rightarrow> other)"

definition absolutize :: "externals \<Rightarrow> str \<Rightarrow> str \<Rightarrow> str" where
  "absolutize E cwd path =
     (if is_absolute_shell_path path then path
      else normalize_shell_path (fs_join E cwd path))"

definition raw_absolutize :: "externals \<Rightarrow> str \<Rightarrow> str \<Rightarrow> str" where
  "raw_absolutize E cwd raw =
     (if is_absolute_shell_path raw then raw
      else normalize_shell_path_raw (fs_join E cwd raw))"

definition evaluate_shell_path ::
    "externals \<Rightarrow> compiled_policy \<Rightarrow> str \<Rightarrow> str \<Rightarrow> shell_file_mode \<Rightarrow> decision option" where
  "evaluate_shell_path E cp token cwd mode =
     (let path = normalize_shell_path token;
          absolute = absolutize E cwd path;
          raw_absolute = raw_absolutize E cwd (normalize_shell_path_raw token);
          resolved_decision =
            (case resolve_symlink_target E raw_absolute of
               Some resolved \<Rightarrow>
                 if resolved \<noteq> absolute then escalate_access E cp (shell_access mode resolved)
                 else None
             | None \<Rightarrow> if path_has_symlink E raw_absolute then Some decision.Ask else None)
      in combine_decisions
           (combine_decisions (escalate_access E cp (shell_access mode path))
              (escalate_access E cp (shell_access mode absolute)))
           resolved_decision)"

text \<open>The gate's state: \<open>forced_ask\<close> and the decision so far.\<close>

type_synonym gate_state = "bool \<times> decision option"

definition gate_redirect :: "externals \<Rightarrow> compiled_policy \<Rightarrow> str \<Rightarrow> nat list
    \<Rightarrow> gate_state \<Rightarrow> nat \<times> str option \<times> shell_file_mode \<times> bool \<Rightarrow> gate_state" where
  "gate_redirect E cp cwd cwd_changes st target =
     (let (start_byte, path, mode, ambiguous) = target;
          (forced_ask, d) = st;
          forced_ask = (forced_ask \<or> ambiguous)
      in case path of
           None \<Rightarrow> (forced_ask, d)
         | Some p \<Rightarrow>
             (forced_ask \<or> (cwd_unpinned_before cwd_changes start_byte
                             \<and> \<not> is_absolute_shell_path (normalize_shell_path p)),
              combine_decisions d (evaluate_shell_path E cp p cwd mode)))"

text \<open>One operand: \<open>modes\<close> are the ways it is touched.\<close>

definition gate_operand :: "externals \<Rightarrow> compiled_policy \<Rightarrow> str
    \<Rightarrow> gate_state \<Rightarrow> str \<times> shell_file_mode list \<Rightarrow> gate_state" where
  "gate_operand E cp cwd st operand =
     (fst st \<or> shell_arg_is_ambiguous (fst operand),
      foldl (\<lambda>d mode. combine_decisions d (evaluate_shell_path E cp (fst operand) cwd mode))
        (snd st) (snd operand))"

definition single_mode :: "str \<times> shell_file_mode \<Rightarrow> str \<times> shell_file_mode list" where
  "single_mode op = (fst op, [snd op])"

text \<open>The \<open>match\<close> that gives the modes of a reader or writer; \<open>None\<close> is its \<open>continue\<close>.\<close>

definition operand_modes :: "str \<Rightarrow> str list \<Rightarrow> shell_file_mode list option" where
  "operand_modes program words =
     (case shell_file_mode_of program of
        None \<Rightarrow> None
      | Some mode \<Rightarrow>
          if program = ''sed'' \<and> shell_sed_in_place words then Some [Read, Write]
          else Some [mode])"

definition gate_invocation :: "externals \<Rightarrow> compiled_policy \<Rightarrow> str \<Rightarrow> nat list \<Rightarrow> bool
    \<Rightarrow> gate_state \<Rightarrow> nat \<times> str list \<times> bool \<Rightarrow> gate_state" where
  "gate_invocation E cp cwd cwd_changes parse_failed st invocation =
     (let (start_byte, raw_words, arg_ambiguous) = invocation;
          words = unwrap_wrappers raw_words
      in case words of
           [] \<Rightarrow> st
         | w # _ \<Rightarrow>
             (let program = to_ascii_lowercase (shell_program_name w) in
              if program = ''cd'' then st
              else
                (let cwd_unpinned = (cwd_unpinned_before cwd_changes start_byte
                                      \<or> wrapper_has_chdir raw_words);
                     candidates = shell_file_candidates words;
                     path_operands = shell_path_command_operands program words;
                     is_known = (program = ''dd'' \<or> shell_file_mode_of program \<noteq> None
                                  \<or> path_operands \<noteq> None);
                     st = (fst st \<or> (is_known \<and> (cwd_unpinned \<or> arg_ambiguous \<or> parse_failed)), snd st);
                     st = foldl (gate_operand E cp cwd) st
                            (map single_mode (special_file_operands program words))
                 in if program = ''dd'' then st
                    else (case path_operands of
                            Some operands \<Rightarrow>
                              foldl (gate_operand E cp cwd) st (map single_mode operands)
                          | None \<Rightarrow>
                              (case operand_modes program words of
                                 None \<Rightarrow> st
                               | Some modes \<Rightarrow>
                                   (let st = foldl (gate_operand E cp cwd) st
                                               (map (\<lambda>token. (token, modes)) candidates)
                                    in (fst st \<or> shell_reader_can_recurse program words candidates,
                                        snd st)))))))"

definition evaluate_shell_file_access ::
    "externals \<Rightarrow> compiled_policy \<Rightarrow> str \<Rightarrow> str \<Rightarrow> decision option" where
  "evaluate_shell_file_access E cp cmd cwd =
     (if \<not> has_file_restrictions cp then None
      else (case parse_shell E cmd of
              None \<Rightarrow> None
            | Some tree \<Rightarrow>
                (let root = ts_root tree;
                     cwd_changes = cwd_poison_positions root cmd;
                     st = foldl (gate_redirect E cp cwd cwd_changes) (False, None)
                            (shell_redirect_targets root cmd);
                     st = foldl (gate_invocation E cp cwd cwd_changes (ts_has_error tree)) st
                            (shell_command_invocations root cmd)
                 in combine_decisions (snd st) (if fst st then Some decision.Ask else None))))"

subsection \<open>Lemmas: paths in normal form\<close>

definition plain_segment :: "str \<Rightarrow> bool" where
  "plain_segment s = (s \<noteq> [] \<and> s \<noteq> ''.'' \<and> s \<noteq> ''..'' \<and> CHR ''/'' \<notin> set s)"

text \<open>A stack in normal form: leading \<open>..\<close> only in a relative path, then plain segments.\<close>

definition clean :: "bool \<Rightarrow> str list \<Rightarrow> bool" where
  "clean absolute out =
     (\<exists>k ws. out = replicate k ''..'' @ ws \<and> list_all plain_segment ws \<and> (absolute \<longrightarrow> k = 0))"

lemma push_segment_clean:
  assumes "clean absolute out" "CHR ''/'' \<notin> set seg"
  shows "clean absolute (push_segment absolute out seg)"
proof -
  obtain k ws where out: "out = replicate k ''..'' @ ws" "list_all plain_segment ws" "absolute \<longrightarrow> k = 0"
    using assms(1) by (auto simp: clean_def)
  consider "seg = [] \<or> seg = ''.''" | "seg = ''..''" "ws = []" | "seg = ''..''" "ws \<noteq> []"
    | "plain_segment seg"
    using assms(2) by (auto simp: plain_segment_def)
  then show ?thesis
  proof cases
    case 1
    then show ?thesis using assms(1) by (simp add: push_segment_def)
  next
    case 2
    then have "push_segment absolute out seg = (if absolute then out else out @ [''..''])"
      using out by (cases k) (auto simp: push_segment_def)
    moreover have "replicate k ''..'' @ [''..''] = replicate (Suc k) ''..''"
      by (simp add: replicate_append_same)
    moreover have "clean False (replicate (Suc k) ''..'')"
      unfolding clean_def by (intro exI[of _ "Suc k"] exI[of _ "[]"]) simp
    ultimately show ?thesis using assms(1) out(1) 2(2) by (cases absolute) (simp_all del: replicate_Suc)
  next
    case 3
    have "plain_segment (last ws)" using out(2) 3(2) by (simp add: list_all_iff)
    then have "push_segment absolute out seg = replicate k ''..'' @ butlast ws"
      using out(1) 3 by (simp add: push_segment_def plain_segment_def butlast_append)
    moreover have "list_all plain_segment (butlast ws)"
      using out(2) by (auto simp: list_all_iff dest: in_set_butlastD)
    ultimately show ?thesis unfolding clean_def using out(3) by blast
  next
    case 4
    then have "push_segment absolute out seg = replicate k ''..'' @ (ws @ [seg])"
      using out(1) by (simp add: push_segment_def plain_segment_def)
    moreover have "list_all plain_segment (ws @ [seg])" using out(2) 4 by simp
    ultimately show ?thesis unfolding clean_def using out(3) by blast
  qed
qed

lemma normal_segments_clean:
  assumes "\<forall>s \<in> set segs. CHR ''/'' \<notin> set s"
  shows "clean absolute (normal_segments absolute segs)"
proof -
  have "clean absolute out \<Longrightarrow> clean absolute (foldl (push_segment absolute) out segs)" for out
    using assms by (induction segs arbitrary: out) (auto intro: push_segment_clean)
  moreover have "clean absolute []" by (simp add: clean_def)
  ultimately show ?thesis by (simp add: normal_segments_def)
qed

lemma push_plain: "plain_segment s \<Longrightarrow> push_segment absolute out s = out @ [s]"
  by (simp add: push_segment_def plain_segment_def)

lemma foldl_push_plain:
  "list_all plain_segment ws \<Longrightarrow> foldl (push_segment absolute) out ws = out @ ws"
  by (induction ws arbitrary: out) (simp_all add: push_plain)

lemma foldl_push_dotdots:
  "foldl (push_segment False) (replicate j ''..'') (replicate k ''..'') = replicate (j + k) ''..''"
proof (induction k arbitrary: j)
  case 0
  then show ?case by simp
next
  case (Suc k)
  have "push_segment False (replicate j ''..'') ''..'' = replicate (Suc j) ''..''"
    by (cases j) (simp_all add: push_segment_def replicate_append_same)
  then show ?case using Suc[of "Suc j"] by simp
qed

lemma normal_segments_fixpoint:
  assumes "clean absolute out"
  shows "normal_segments absolute out = out"
proof -
  obtain k ws where out: "out = replicate k ''..'' @ ws" "list_all plain_segment ws" "absolute \<longrightarrow> k = 0"
    using assms by (auto simp: clean_def)
  have "foldl (push_segment absolute) [] (replicate k ''..'') = replicate k ''..''"
    using out(3) foldl_push_dotdots[of 0 k] by (cases absolute) simp_all
  with out show ?thesis by (simp add: normal_segments_def foldl_push_plain)
qed

lemma normal_segments_skip: "normal_segments absolute ([] # segs) = normal_segments absolute segs"
  by (simp add: normal_segments_def push_segment_def)

lemma clean_no_slash: "clean absolute out \<Longrightarrow> s \<in> set out \<Longrightarrow> s \<noteq> [] \<and> CHR ''/'' \<notin> set s"
proof -
  assume "clean absolute out" and s: "s \<in> set out"
  then obtain k ws where out: "out = replicate k ''..'' @ ws" "list_all plain_segment ws"
    by (auto simp: clean_def)
  show ?thesis
  proof (cases "s \<in> set ws")
    case True
    with out(2) have "plain_segment s" by (simp add: list_all_iff)
    then show ?thesis by (simp add: plain_segment_def)
  next
    case False
    with s out(1) have "s = ''..''" by simp
    then show ?thesis by simp
  qed
qed

lemma split_body:
  assumes "clean absolute out"
  shows "normal_segments absolute (split_on CHR ''/'' (join ''/'' out)) = out"
proof (cases "out = []")
  case True
  then show ?thesis by (simp add: normal_segments_def push_segment_def)
next
  case False
  then have "split_on CHR ''/'' (join ''/'' out) = out"
    by (rule split_on_join) (use clean_no_slash[OF assms] in blast)
  then show ?thesis by (simp add: normal_segments_fixpoint[OF assms])
qed

lemma join_hd: "out \<noteq> [] \<Longrightarrow> hd out \<noteq> [] \<Longrightarrow> join sep out \<noteq> [] \<and> hd (join sep out) = hd (hd out)"
proof -
  assume o: "out \<noteq> []" "hd out \<noteq> []"
  then obtain a rest where out: "out = a # rest" "a \<noteq> []" by (cases out) auto
  show ?thesis
  proof (cases rest)
    case Nil
    with out show ?thesis by simp
  next
    case (Cons b bs)
    with out show ?thesis by (simp add: hd_append)
  qed
qed

lemma body_relative:
  assumes "clean absolute out"
  shows "\<not> starts_with (join ''/'' out) ''/''"
proof (cases "out = []")
  case False
  then have h: "hd out \<noteq> []" "CHR ''/'' \<notin> set (hd out)" using clean_no_slash[OF assms] by auto
  from h have "hd (hd out) \<noteq> CHR ''/''" by (metis hd_in_set)
  with join_hd[OF False h(1), of "''/''"] show ?thesis by (cases "join ''/'' out") auto
qed simp

definition drive_len :: "str \<Rightarrow> nat" where
  "drive_len path = (if has_drive path then 2 else 0)"

definition rooted :: "str \<Rightarrow> bool" where
  "rooted path = starts_with (drop (drive_len path) path) ''/''"

definition path_segments :: "str \<Rightarrow> str list" where
  "path_segments path = split_on CHR ''/'' (drop (drive_len path) path)"

lemma lexical_normalize_eq:
  "lexical_normalize path =
     take (drive_len path) path @ (if rooted path then ''/'' else [])
       @ join ''/'' (normal_segments (rooted path) (path_segments path))"
  by (simp add: lexical_normalize_def Let_def drive_len_def rooted_def path_segments_def)

lemma path_segments_clean: "clean absolute (normal_segments absolute (path_segments path))"
  by (rule normal_segments_clean) (simp add: path_segments_def split_on_no_delim)

text \<open>Lexical normalisation reaches its normal form in one step. Unless it uncovers a drive letter
  that was not at the start, normalising again changes nothing; the normal form is rooted exactly when the
  path was; its segments are plain names, after leading \<open>..\<close> that only a relative path keeps, so no
  \<open>..\<close> climbs out of a rooted path.\<close>

theorem lexical_normalize_normal_form:
  assumes "has_drive path \<or> \<not> has_drive (lexical_normalize path)"
  shows "lexical_normalize (lexical_normalize path) = lexical_normalize path
    \<and> rooted (lexical_normalize path) = rooted path
    \<and> clean (rooted path) (normal_segments (rooted path) (path_segments (lexical_normalize path)))"
proof -
  define out where "out = normal_segments (rooted path) (path_segments path)"
  define pre where "pre = take (drive_len path) path"
  have c: "clean (rooted path) out" unfolding out_def by (rule path_segments_clean)
  have R: "lexical_normalize path = pre @ (if rooted path then ''/'' else []) @ join ''/'' out"
    by (simp add: lexical_normalize_eq out_def pre_def)
  have d: "drive_len (lexical_normalize path) = drive_len path \<and> length pre = drive_len path"
  proof (cases "has_drive path")
    case True
    then have "length pre = 2" "pre ! 1 = CHR '':''"
      by (auto simp: pre_def drive_len_def has_drive_def nth_opt_Some_iff)
    then have "has_drive (lexical_normalize path)"
      by (simp add: R has_drive_def nth_opt_Some_iff nth_append)
    with True \<open>length pre = 2\<close> show ?thesis by (simp add: drive_len_def)
  next
    case False
    with assms show ?thesis by (simp add: drive_len_def pre_def)
  qed
  then have rest: "drop (drive_len path) (lexical_normalize path)
      = (if rooted path then ''/'' else []) @ join ''/'' out"
    and tk: "take (drive_len path) (lexical_normalize path) = pre"
    by (simp_all add: R)
  have r: "rooted (lexical_normalize path) = rooted path"
    using d body_relative[OF c] unfolding rooted_def by (simp add: rest rooted_def[symmetric])
  have n: "normal_segments (rooted path) (path_segments (lexical_normalize path)) = out"
    using split_body[OF c] d unfolding path_segments_def
    by (cases "rooted path") (simp_all add: rest normal_segments_skip)
  have "lexical_normalize (lexical_normalize path) = lexical_normalize path"
    unfolding lexical_normalize_eq[of "lexical_normalize path"] r n using d tk R by simp
  with r n c show ?thesis by simp
qed

theorem lexical_normalize_normal_form_witness:
  "lexical_normalize ''/a/./b/../c'' = ''/a/c''
   \<and> lexical_normalize (lexical_normalize ''/a/./b/../c'') = lexical_normalize ''/a/./b/../c''"
proof -
  have n: "lexical_normalize ''/a/./b/../c'' = ''/a/c''"
    by (simp add: lexical_normalize_def has_drive_def nth_opt_def normal_segments_def push_segment_def Let_def)
  then have "has_drive ''/a/./b/../c'' \<or> \<not> has_drive (lexical_normalize ''/a/./b/../c'')"
    by (simp add: has_drive_def nth_opt_def)
  from lexical_normalize_normal_form[OF this] n show ?thesis by simp
qed

subsection \<open>Lemmas: what the gate evaluates\<close>

text \<open>The paths a command's words touch, each with its mode, in the order the gate evaluates them.\<close>

definition command_touches :: "str list \<Rightarrow> (str \<times> shell_file_mode) list" where
  "command_touches raw_words =
     (let words = unwrap_wrappers raw_words in
      case words of
        [] \<Rightarrow> []
      | w # _ \<Rightarrow>
          (let program = to_ascii_lowercase (shell_program_name w) in
           if program = ''cd'' then []
           else special_file_operands program words
             @ (if program = ''dd'' then []
                else (case shell_path_command_operands program words of
                        Some operands \<Rightarrow> operands
                      | None \<Rightarrow>
                          (case operand_modes program words of
                             None \<Rightarrow> []
                           | Some modes \<Rightarrow>
                               concat (map (\<lambda>token. map (Pair token) modes)
                                 (shell_file_candidates words)))))))"

definition redirect_touches :: "ts_node \<Rightarrow> str \<Rightarrow> (str \<times> shell_file_mode) list" where
  "redirect_touches root src =
     List.map_filter (\<lambda>(_, path, mode, _). map_option (\<lambda>p. (p, mode)) path)
       (shell_redirect_targets root src)"

definition tree_touches :: "ts_node \<Rightarrow> str \<Rightarrow> (str \<times> shell_file_mode) list" where
  "tree_touches root src =
     redirect_touches root src
     @ concat (map (\<lambda>(_, words, _). command_touches words) (shell_command_invocations root src))"

definition touch_decision ::
    "externals \<Rightarrow> compiled_policy \<Rightarrow> str \<Rightarrow> str \<times> shell_file_mode \<Rightarrow> decision option" where
  "touch_decision E cp cwd t = evaluate_shell_path E cp (fst t) cwd (snd t)"

abbreviation fold_touches ::
    "externals \<Rightarrow> compiled_policy \<Rightarrow> str \<Rightarrow> decision option \<Rightarrow> (str \<times> shell_file_mode) list
       \<Rightarrow> decision option" where
  "fold_touches E cp cwd d ts \<equiv> foldl (\<lambda>d t. combine_decisions d (touch_decision E cp cwd t)) d ts"

lemma gate_operands_snd:
  "snd (foldl (gate_operand E cp cwd) st ops)
     = fold_touches E cp cwd (snd st) (concat (map (\<lambda>(p, ms). map (Pair p) ms) ops))"
proof (induction ops arbitrary: st)
  case Nil
  then show ?case by simp
next
  case (Cons op ops)
  have "foldl (\<lambda>d m. combine_decisions d (evaluate_shell_path E cp p cwd m)) d ms
      = fold_touches E cp cwd d (map (Pair p) ms)" for p ms d
    by (induction ms arbitrary: d) (simp_all add: touch_decision_def)
  with Cons show ?case by (cases op) (simp add: gate_operand_def)
qed

lemma single_mode_touches: "concat (map (\<lambda>(p, ms). map (Pair p) ms) (map single_mode ops)) = ops"
  by (induction ops) (simp_all add: single_mode_def)

lemma gate_invocation_snd:
  "snd (gate_invocation E cp cwd ch pf st (start, words, amb))
     = fold_touches E cp cwd (snd st) (command_touches words)"
proof (cases "unwrap_wrappers words")
  case Nil
  then show ?thesis by (simp add: gate_invocation_def command_touches_def)
next
  case (Cons w ws)
  define program where "program = to_ascii_lowercase (shell_program_name w)"
  have m: "concat (map (\<lambda>(p, ms). map (Pair p) ms) (map (\<lambda>token. (token, modes)) toks))
      = concat (map (\<lambda>token. map (Pair token) modes) toks)" for modes toks
    by (simp add: comp_def)
  show ?thesis
    unfolding gate_invocation_def command_touches_def Cons Let_def prod.case list.case
      program_def[symmetric]
    by (simp add: gate_operands_snd single_mode_touches m split: option.split
        del: map_map)
qed

lemma gate_redirects_snd:
  "snd (foldl (gate_redirect E cp cwd ch) st ts)
     = fold_touches E cp cwd (snd st)
         (List.map_filter (\<lambda>(_, path, mode, _). map_option (\<lambda>p. (p, mode)) path) ts)"
proof (induction ts arbitrary: st)
  case Nil
  then show ?case by (simp add: map_filter_simps)
next
  case (Cons t ts)
  obtain start path mode amb where t: "t = (start, path, mode, amb)" by (cases t)
  with Cons show ?case
    by (cases path; cases st)
      (simp_all add: gate_redirect_def map_filter_simps touch_decision_def)
qed

lemma gate_invocations_snd:
  "snd (foldl (gate_invocation E cp cwd ch pf) st invs)
     = fold_touches E cp cwd (snd st) (concat (map (\<lambda>(_, words, _). command_touches words) invs))"
  by (induction invs arbitrary: st) (auto simp: gate_invocation_snd)

text \<open>The gate is the fold of the file rules over the paths the tree touches, and a forced ask.\<close>

lemma shell_file_access_fold:
  assumes "has_file_restrictions cp" "parse_shell E cmd = Some tree"
  obtains ask where "evaluate_shell_file_access E cp cmd cwd
    = combine_decisions (fold_touches E cp cwd None (tree_touches (ts_root tree) cmd))
        (if ask then Some decision.Ask else None)"
  using assms that
  by (simp add: evaluate_shell_file_access_def Let_def gate_invocations_snd gate_redirects_snd
      tree_touches_def redirect_touches_def)

lemma escalate_access_escalation [gate_simps]: "escalation (escalate_access E cp access)"
  using evaluate_cases[of E cp access] by (auto simp: escalate_access_def escalation_def)

lemma evaluate_shell_path_escalation: "escalation (evaluate_shell_path E cp token cwd mode)"
  by (auto simp: evaluate_shell_path_def Let_def gate_simps intro!: escalation_combine split: option.split)

lemma fold_touches_escalation: "escalation (fold_touches E cp cwd None ts)"
  by (rule escalation_fold) (simp_all add: touch_decision_def evaluate_shell_path_escalation gate_simps)

lemma shell_file_access_escalation: "escalation (evaluate_shell_file_access E cp cmd cwd)"
proof (cases "has_file_restrictions cp \<and> parse_shell E cmd \<noteq> None")
  case False
  then show ?thesis by (auto simp: evaluate_shell_file_access_def gate_simps)
next
  case True
  then obtain tree where "has_file_restrictions cp" "parse_shell E cmd = Some tree" by auto
  then obtain ask where "evaluate_shell_file_access E cp cmd cwd
    = combine_decisions (fold_touches E cp cwd None (tree_touches (ts_root tree) cmd))
        (if ask then Some decision.Ask else None)" by (rule shell_file_access_fold)
  then show ?thesis by (simp add: escalation_combine fold_touches_escalation gate_simps)
qed

lemma touch_below:
  assumes "has_file_restrictions cp" "parse_shell E cmd = Some tree"
    "t \<in> set (tree_touches (ts_root tree) cmd)"
  shows "decisions.opt_rank (touch_decision E cp cwd t)
    \<le> decisions.opt_rank (evaluate_shell_file_access E cp cmd cwd)"
proof -
  obtain ask where r: "evaluate_shell_file_access E cp cmd cwd
    = combine_decisions (fold_touches E cp cwd None (tree_touches (ts_root tree) cmd))
        (if ask then Some decision.Ask else None)"
    using assms(1,2) by (rule shell_file_access_fold)
  have "decisions.opt_rank (touch_decision E cp cwd t)
      \<le> decisions.opt_rank (fold_touches E cp cwd None (tree_touches (ts_root tree) cmd))"
    using assms(3) by (rule decisions.fold_outranks)
  also have "\<dots> \<le> decisions.opt_rank (evaluate_shell_file_access E cp cmd cwd)"
    unfolding r by (rule decisions.opt_rank_combine_ge(1))
  finally show ?thesis .
qed

subsection \<open>Properties of the gate\<close>

text \<open>The shell file gate only escalates: it answers nothing, ask or reject, never allow.\<close>

theorem shell_file_gate_never_allows:
  "escalation (evaluate_shell_file_access E cp cmd cwd)"
  by (rule shell_file_access_escalation)

text \<open>C14: A denied file cannot be reached through the shell: when file rules exist and a path the parsed
  command line touches (a redirect, or an operand of a known reader or writer) is rejected by the policy as
  written, made absolute, or as the target of the symbolic links it goes through, the gate rejects the
  command line.\<close>

theorem shell_file_gate_denies_touched_paths:
  assumes "has_file_restrictions cp" "parse_shell E cmd = Some tree"
    and "(token, mode) \<in> set (tree_touches (ts_root tree) cmd)"
    and "path = normalize_shell_path token \<or> path = absolutize E cwd (normalize_shell_path token)
      \<or> resolve_symlink_target E (raw_absolutize E cwd (normalize_shell_path_raw token)) = Some path"
    and "evaluate E cp (shell_access mode path) = Some (decision.Reject m)"
  shows "\<exists>m'. evaluate_shell_file_access E cp cmd cwd = Some (decision.Reject m')"
proof -
  have e: "escalate_access E cp (shell_access mode path) = Some (decision.Reject m)"
    by (simp add: escalate_access_def assms(5))
  have "decisions.opt_rank (Some (decision.Reject m))
      \<le> decisions.opt_rank (evaluate_shell_path E cp token cwd mode)"
  proof -
    define a b where "a = escalate_access E cp (shell_access mode (normalize_shell_path token))"
      and "b = escalate_access E cp (shell_access mode (absolutize E cwd (normalize_shell_path token)))"
    obtain c where v: "evaluate_shell_path E cp token cwd mode = combine_decisions (combine_decisions a b) c"
      and c: "resolve_symlink_target E (raw_absolutize E cwd (normalize_shell_path_raw token)) = Some path
        \<Longrightarrow> path \<noteq> absolutize E cwd (normalize_shell_path token)
        \<Longrightarrow> c = escalate_access E cp (shell_access mode path)"
      by (simp add: evaluate_shell_path_def Let_def a_def b_def)
    have "Some (decision.Reject m) \<in> {a, b, c}"
      using assms(4) e c unfolding a_def b_def
      by (cases "path = absolutize E cwd (normalize_shell_path token)") auto
    then show ?thesis
      unfolding v using decisions.opt_rank_combine_ge
      by (metis empty_iff insert_iff order_trans)
  qed
  also have "\<dots> = decisions.opt_rank (touch_decision E cp cwd (token, mode))"
    by (simp add: touch_decision_def)
  also note touch_below[OF assms(1-3)]
  finally show ?thesis by (rule escalation_rank(2)[OF shell_file_access_escalation])
qed

text \<open>Unresolvable links fail closed: when file rules exist and a path the command line touches goes
  through a symbolic link whose target cannot be resolved (a cycle, more than forty links, or a file-system
  error), the gate asks or rejects.\<close>

theorem shell_file_gate_links_fail_closed:
  assumes "has_file_restrictions cp" "parse_shell E cmd = Some tree"
    and "(token, mode) \<in> set (tree_touches (ts_root tree) cmd)"
    and "resolve_symlink_target E (raw_absolutize E cwd (normalize_shell_path_raw token)) = None"
    and "path_has_symlink E (raw_absolutize E cwd (normalize_shell_path_raw token))"
  shows "evaluate_shell_file_access E cp cmd cwd = Some decision.Ask
    \<or> (\<exists>m. evaluate_shell_file_access E cp cmd cwd = Some (decision.Reject m))"
proof -
  have "decisions.opt_rank (Some decision.Ask)
      \<le> decisions.opt_rank (evaluate_shell_path E cp token cwd mode)"
    using assms(4,5) decisions.opt_rank_combine_ge(2) by (simp add: evaluate_shell_path_def Let_def)
  also have "\<dots> = decisions.opt_rank (touch_decision E cp cwd (token, mode))"
    by (simp add: touch_decision_def)
  also note touch_below[OF assms(1-3)]
  finally show ?thesis by (rule escalation_rank(1)[OF shell_file_access_escalation])
qed

lemma writes_of_command: "set (command_words_write_paths words) = {p. (p, Write) \<in> set (command_touches words)}"
proof (cases "unwrap_wrappers words")
  case Nil
  then show ?thesis by (simp add: command_words_write_paths_def command_touches_def)
next
  case (Cons w ws)
  define program where "program = to_ascii_lowercase (shell_program_name w)"
  define inner where "inner = unwrap_wrappers words"
  have cd: "program = ''cd'' \<Longrightarrow> special_file_operands program inner = []
      \<and> shell_path_command_operands program inner = None \<and> shell_file_mode_of program = None"
    by (simp add: special_file_operands_def shell_path_command_operands_def shell_file_mode_of_def)
  have dd: "program = ''dd'' \<Longrightarrow> shell_path_command_operands program inner = None
      \<and> shell_file_mode_of program = None"
    by (simp add: shell_path_command_operands_def shell_file_mode_of_def)
  have sed: "program = ''sed'' \<Longrightarrow> shell_file_mode_of program = Some Read"
    by (simp add: shell_file_mode_of_def)
  have ws: "set (written ops) = {p. (p, Write) \<in> set ops}" for ops
    by (force simp: written_def)
  have cw: "set (command_words_write_paths words) =
      {p. (p, Write) \<in> set (special_file_operands program inner)} \<union>
      (case shell_path_command_operands program inner of
         Some ops \<Rightarrow> {p. (p, Write) \<in> set ops}
       | None \<Rightarrow> if shell_file_mode_of program = Some Write \<or> (program = ''sed'' \<and> shell_sed_in_place inner)
                 then set (shell_file_candidates inner) else {})"
  proof -
    have "command_words_write_paths words =
      (let out = written (special_file_operands program inner)
       in case shell_path_command_operands program inner of
            Some ops \<Rightarrow> out @ written ops
          | None \<Rightarrow> if shell_file_mode_of program = Some Write \<or> (program = ''sed'' \<and> shell_sed_in_place inner)
                    then out @ shell_file_candidates inner else out)"
      unfolding command_words_write_paths_def Let_def inner_def Cons list.case program_def
      by (rule refl)
    then show ?thesis by (auto simp: Let_def ws split: option.split)
  qed
  have ct: "command_touches words = (if program = ''cd'' then [] else special_file_operands program inner
      @ (if program = ''dd'' then [] else (case shell_path_command_operands program inner of
           Some operands \<Rightarrow> operands
         | None \<Rightarrow> (case operand_modes program inner of None \<Rightarrow> []
             | Some modes \<Rightarrow> concat (map (\<lambda>token. map (Pair token) modes) (shell_file_candidates inner))))))"
    unfolding command_touches_def Let_def inner_def Cons list.case program_def by (rule refl)
  show ?thesis
  proof (cases "program = ''cd''")
    case True
    with cd show ?thesis unfolding cw ct by simp
  next
    case ncd: False
    show ?thesis
    proof (cases "program = ''dd''")
      case True
      with dd show ?thesis unfolding cw ct by simp
    next
      case False
      show ?thesis
        using ncd False sed unfolding cw ct operand_modes_def
        by (cases "shell_path_command_operands program inner"; cases "shell_file_mode_of program")
          auto
    qed
  qed
qed

lemma written_paths_are_touches:
  "set (command_write_paths_in_tree root src) = {p. (p, Write) \<in> set (tree_touches root src)}"
proof -
  have "p \<in> set (List.map_filter (\<lambda>(_, path, mode, _). if mode = Write then path else None) ts)
      \<longleftrightarrow> (p, Write) \<in> set (List.map_filter (\<lambda>(_, path, mode, _). map_option (\<lambda>p. (p, mode)) path) ts)"
    for p and ts :: "(nat \<times> str option \<times> shell_file_mode \<times> bool) list"
    unfolding in_set_map_filter by (intro bex_cong refl) (auto split: if_splits)
  then show ?thesis
    unfolding command_write_paths_in_tree_def tree_touches_def redirect_touches_def
    by (force simp: writes_of_command)
qed

text \<open>The write model the auto mode uses and the file gate agree: the paths collected as written from a
  tree are exactly those the gate evaluates in write mode, redirects and operands alike.\<close>

theorem write_paths_are_write_touches:
  "set (command_write_paths_in_tree root src) = {p. (p, Write) \<in> set (tree_touches root src)}"
  by (rule written_paths_are_touches)

subsection \<open>Examples\<close>

text \<open>The tree of \<open>cat a\<close> and of \<open>cat < a\<close> as the parser gives them.\<close>

definition cat_tree :: ts_tree where
  "cat_tree =
     \<lparr>ts_root = TsNode ''program'' True None 0 5
        [TsNode ''command'' True None 0 5
           [TsNode ''command_name'' True (Some ''name'') 0 3
              [TsNode ''word'' True None 0 3 []],
            TsNode ''word'' True (Some ''argument'') 4 5 []]],
      ts_has_error = False\<rparr>"

lemma cat_touches: "tree_touches (ts_root cat_tree) ''cat a'' = [(''a'', Read)]"
proof -
  have inv: "shell_command_invocations (ts_root cat_tree) ''cat a'' = [(0, [''cat'', ''a''], False)]"
    by (simp add: cat_tree_def shell_command_invocations_def named_children_def add_operand_def
        shell_node_arg_def utf8_text_def slice_def)
  have red: "redirect_touches (ts_root cat_tree) ''cat a'' = []"
    by (simp add: redirect_touches_def shell_redirect_targets_def cat_tree_def map_filter_simps)
  have "unwrap_wrappers [''cat'', ''a''] = [''cat'', ''a'']"
    by (rule unwrap_no_wrapper) (simp add: is_wrapper_command_def last_path_seg_def)
  then have "command_touches [''cat'', ''a''] = [(''a'', Read)]"
    by (simp add: command_touches_def shell_program_name_def last_path_seg_def to_ascii_lowercase_def
        ascii_lower_def special_file_operands_def shell_path_command_operands_def operand_modes_def
        shell_file_mode_of_def shell_file_candidates_def)
  with inv red show ?thesis by (simp add: tree_touches_def)
qed

definition deny_read :: permission_config where
  "deny_read = permission_config_new
     [\<lparr>pr_action = rule_action.Deny, pr_tool = tool_filter.Read, pr_pattern = None,
       pr_pattern_mode = Glob\<rparr>]"

text \<open>A file system in which \<open>/w/a\<close> is a symbolic link that cannot be read.\<close>

definition cat_externals :: externals where
  "cat_externals = (example_externals (\<lambda>s. if s = ''cat a'' then Some cat_tree else None))
     \<lparr>fs_prefixes := (\<lambda>p. [p]), fs_is_symlink := (\<lambda>p. Some (p = ''/w/a''))\<rparr>"

lemma deny_read_rejects:
  "evaluate E (compiled_policy_new E deny_read) (access_kind.Read p)
     = Some (decision.Reject ''Denied by permission policy: deny rule on read'')"
  by (simp add: evaluate_def evaluate_rules_def compiled_policy_new_def with_synthetic_rules_def
      deny_read_def permission_config_new_def compile_matchers_def pattern_matches_def deny_reason_def)

lemma deny_read_restricts: "has_file_restrictions (compiled_policy_new E deny_read)"
  by (simp add: compiled_policy_new_def with_synthetic_rules_def deny_read_def permission_config_new_def
      restricts_files_def)

lemma cat_parses: "parse_shell cat_externals ''cat a'' = Some cat_tree"
  by (simp add: cat_externals_def example_externals_def)

theorem shell_file_gate_denies_touched_paths_witness:
  "\<exists>m. evaluate_shell_file_access cat_externals (compiled_policy_new cat_externals deny_read)
         ''cat a'' ''/w'' = Some (decision.Reject m)"
  by (rule shell_file_gate_denies_touched_paths[OF deny_read_restricts cat_parses,
        of "''a''" Read "normalize_shell_path ''a''"])
    (simp_all add: cat_touches shell_access_def deny_read_rejects)

theorem shell_file_gate_links_fail_closed_witness:
  "evaluate_shell_file_access cat_externals (compiled_policy_new cat_externals deny_read) ''cat a'' ''/w''
     \<in> {Some decision.Ask} \<union> range (\<lambda>m. Some (decision.Reject m))"
proof -
  have raw: "raw_absolutize cat_externals ''/w'' (normalize_shell_path_raw ''a'') = ''/w/a''"
    by (simp add: raw_absolutize_def normalize_shell_path_raw_def trim_quotes_def is_quote_char_def
        strip_prefix_def is_absolute_shell_path_def nth_opt_def cat_externals_def example_externals_def)
  have "resolve_symlink_target cat_externals ''/w/a'' = None"
    by (simp add: resolve_symlink_target_def resolve_following_symlinks_def numeral_eq_Suc
        cat_externals_def example_externals_def)
  moreover have "path_has_symlink cat_externals ''/w/a''"
    by (simp add: path_has_symlink_def cat_externals_def example_externals_def)
  ultimately show ?thesis
    using shell_file_gate_links_fail_closed[OF deny_read_restricts cat_parses, of "''a''" Read "''/w''"
        cat_externals]
    unfolding raw cat_touches by auto
qed

end
