(* ===== verification/Auto_Mode.thy ===== *)
theory Auto_Mode
  imports Shell_Access
begin

section \<open>Auto mode (\<open>permission/auto_mode.rs\<close>)\<close>

text \<open>
  The classifier that decides in auto mode whether an action runs without a prompt: the
  deterministic heuristic with its allowlists, the fast path before it, the messages for the model
  and the reading of its answer. A side query is a function from messages to the answer's text,
  \<open>None\<close> when the call fails.
\<close>

datatype classifier_verdict = Allow | Block | Unavailable

datatype classifier_role = System | User

datatype classifier_prompt_type = Full | NoUserToolPrefix | BareInstructions | JustCommand

record classifier_message =
  cm_role :: classifier_role
  cm_text :: str

datatype classifier_turn =
    UserText str
  | AssistantToolUse (turn_tool: str) (turn_args: str)

fun render :: "classifier_turn \<Rightarrow> str" where
  "render (UserText text) = ''User: '' @ text"
| "render (AssistantToolUse tool args) = tool @ '' '' @ args"

record classifier_context =
  cc_turns :: "classifier_turn list"
  project_instructions :: "str option"

definition transcript_text :: "classifier_context \<Rightarrow> str" where
  "transcript_text ctx = join [newline] (map render (cc_turns ctx))"

subsection \<open>Allowlists\<close>

definition ROUTINE_PREFIXES :: "str list" where
  "ROUTINE_PREFIXES =
     [''cargo '', ''git status'', ''git diff'', ''git log'', ''git branch'', ''git add'',
      ''git commit'', ''git checkout'', ''git switch'', ''git stash'', ''git pull'', ''git fetch'',
      ''git show'', ''git blame'', ''git grep'', ''git ls-files'', ''git rev-parse'',
      ''git describe'', ''git merge-base'', ''git worktree list'', ''pytest'', ''python '',
      ''python3 '', ''node '', ''rustc '', ''rustfmt'', ''clippy'', ''make '', ''cmake '', ''cd'',
      ''pushd'', ''popd'', ''ls'', ''pwd'', ''echo '', ''printf '', ''cat '', ''head '', ''tail '',
      ''wc '', ''rg '', ''grep '', ''which '', ''type '', ''true'', ''false'', ''test '', ''sort '',
      ''uniq '', ''tr '', ''cut '', ''diff '', ''jq '', ''date'', ''whoami'', ''hostname'',
      ''uname'', ''nproc'', ''printenv'', ''stat '', ''file '', ''tree'', ''basename '',
      ''dirname '', ''realpath '', ''readlink '', ''strings '', ''sleep '', ''df '', ''du '',
      ''ps '', ''top'', ''htop'', ''bazel '', ''just '', ''go '', ''kubectl get'', ''kubectl logs'',
      ''kubectl describe'', ''set'']"

definition SAFE_ENV_KEYS :: "str list" where
  "SAFE_ENV_KEYS =
     [''CARGO_TERM_COLOR'', ''CARGO_TERM_PROGRESS_WHEN'', ''RUST_LOG'', ''RUST_LOG_STYLE'',
      ''RUST_BACKTRACE'', ''RUST_TEST_THREADS'', ''RUST_MIN_STACK'', ''NO_COLOR'', ''CLICOLOR'',
      ''CLICOLOR_FORCE'', ''FORCE_COLOR'', ''COLORTERM'']"

definition NPM_SAFE_SUBCOMMANDS :: "str list" where
  "NPM_SAFE_SUBCOMMANDS =
     [''install'', ''i'', ''ci'', ''add'', ''remove'', ''rm'', ''uninstall'', ''update'', ''up'',
      ''upgrade'', ''test'', ''t'', ''run'', ''run-script'', ''start'', ''build'', ''audit'',
      ''list'', ''ls'', ''ll'', ''outdated'', ''why'', ''view'', ''info'', ''dedupe'', ''prune'',
      ''version'', ''pack'', ''config'', ''link'', ''unlink'', ''rebuild'', ''store'', ''fetch'',
      ''import'']"

definition UV_SAFE_SUBCOMMANDS :: "str list" where
  "UV_SAFE_SUBCOMMANDS =
     [''sync'', ''pip'', ''lock'', ''venv'', ''add'', ''remove'', ''tree'', ''export'', ''build'',
      ''version'', ''python'', ''cache'', ''init'', ''self'', ''help'']"

definition RUSTUP_SAFE_SUBCOMMANDS :: "str list" where
  "RUSTUP_SAFE_SUBCOMMANDS =
     [''show'', ''toolchain'', ''component'', ''target'', ''default'', ''update'', ''which'',
      ''doc'', ''self'', ''completions'', ''set'', ''override'']"

definition is_safe_env_key :: "str \<Rightarrow> bool" where
  "is_safe_env_key key = (key \<in> set SAFE_ENV_KEYS)"

definition is_lone_wrapper :: "str list \<Rightarrow> bool" where
  "is_lone_wrapper words = (length words = 1 \<and> is_wrapper_command words)"

text \<open>The model is of a Unix build: \<open>cfg!(windows)\<close> is false.\<close>

definition is_safe_write_sink :: "str \<Rightarrow> bool" where
  "is_safe_write_sink path = (path \<in> {''/dev/null'', ''/dev/stdout'', ''/dev/stderr''})"

definition find_is_read_only :: "str list \<Rightarrow> bool" where
  "find_is_read_only words =
     (\<not> list_ex (\<lambda>w. w \<in> {''-delete'', ''-exec'', ''-execdir'', ''-ok'', ''-okdir'', ''-fprint'',
          ''-fprint0'', ''-fprintf'', ''-fls''}) words)"

definition nonflag_tokens :: "str list \<Rightarrow> nat \<Rightarrow> str list" where
  "nonflag_tokens inner n = take n (filter (\<lambda>w. \<not> starts_with w ''-'') (drop 1 inner))"

definition gh_subcommand_is_read_only :: "str list \<Rightarrow> bool" where
  "gh_subcommand_is_read_only inner =
     (case nonflag_tokens inner 2 of
        [grp, sub] \<Rightarrow>
          (grp \<in> {''pr'', ''issue'', ''release'', ''run'', ''workflow'', ''repo'', ''gist''}
             \<and> sub \<in> {''view'', ''list'', ''status'', ''checks'', ''diff''})
          \<or> (grp = ''auth'' \<and> sub = ''status'')
      | [one] \<Rightarrow> one = ''status''
      | _ \<Rightarrow> False)"

subsection \<open>Environment assignments\<close>

text \<open>The inner loop of \<open>command_env_is_unsafe\<close>, over the arguments of one \<open>env\<close>.\<close>

fun env_args_unsafe :: "str list \<Rightarrow> bool" where
  "env_args_unsafe [] = False"
| "env_args_unsafe (arg # rest) =
     (if arg = ''--'' then False
      else if starts_with arg ''-'' then True
      else (case split_once ''='' arg of
              Some (key, _) \<Rightarrow> if \<not> is_safe_env_key key then True else env_args_unsafe rest
            | None \<Rightarrow> False))"

fun command_env_unsafe_n :: "nat \<Rightarrow> str list \<Rightarrow> bool" where
  "command_env_unsafe_n 0 current = False"
| "command_env_unsafe_n (Suc n) current =
     (if map_option last_path_seg (nth_opt current 0) = Some ''env''
         \<and> env_args_unsafe (drop 1 current)
      then True
      else (case strip_wrapper_command current of
              Some inner \<Rightarrow> command_env_unsafe_n n inner
            | None \<Rightarrow> False))"

definition command_env_is_unsafe :: "str list \<Rightarrow> bool" where
  "command_env_is_unsafe words = command_env_unsafe_n 8 words"

definition assignment_key :: "ts_node \<Rightarrow> str \<Rightarrow> str" where
  "assignment_key node src =
     (case find (\<lambda>c. ts_kind c = ''variable_name'') (ts_children node) of
        Some c \<Rightarrow> utf8_text src c
      | None \<Rightarrow> hd (split_on CHR ''='' (utf8_text src node)))"

definition sets_unsafe_env :: "ts_node \<Rightarrow> str \<Rightarrow> plain_command list \<Rightarrow> bool" where
  "sets_unsafe_env root src cmds =
     (list_ex (\<lambda>node. ts_kind node = ''variable_assignment''
          \<and> \<not> is_safe_env_key (assignment_key node src)) (ts_walk [root])
      \<or> list_ex (\<lambda>c. command_env_is_unsafe (pc_words c)) cmds)"

subsection \<open>Package managers\<close>

definition launcher_subcommand :: "str \<Rightarrow> str list \<Rightarrow> str option" where
  "launcher_subcommand head inner =
     (case nth_opt inner 1 of
        None \<Rightarrow> None
      | Some sub \<Rightarrow>
          Some (if head \<in> {''npm'', ''pnpm'', ''yarn''} \<and> sub = ''x'' then ''exec''
                else if head \<in> {''npm'', ''pnpm'', ''yarn''} \<and> sub = ''innit'' then ''init''
                else sub))"

definition is_remote_launcher :: "str \<Rightarrow> str list \<Rightarrow> bool" where
  "is_remote_launcher head inner =
     (if head = ''npx'' \<or> head = ''uvx'' then True
      else if head = ''uv'' \<and> nth_opt inner 1 = Some ''tool'' \<and> nth_opt inner 2 = Some ''run'' then True
      else (case launcher_subcommand head inner of
              None \<Rightarrow> False
            | Some sub \<Rightarrow>
                head \<in> {''npm'', ''pnpm'', ''yarn''}
                \<and> (sub \<in> {''dlx'', ''create'', ''explore''}
                   \<or> (sub = ''init''
                      \<and> (case nth_opt inner 2 of Some a \<Rightarrow> \<not> starts_with a ''-'' | None \<Rightarrow> False)))))"

datatype launch_target = NotLauncher | Inner "str list" | Unresolved

definition launch_at :: "str list \<Rightarrow> nat \<Rightarrow> launch_target" where
  "launch_at inner start =
     (case nth_opt inner start of
        Some tok \<Rightarrow> if \<not> starts_with tok ''-'' then Inner (drop start inner) else Unresolved
      | None \<Rightarrow> Unresolved)"

definition explicit_launch_target :: "str \<Rightarrow> str list \<Rightarrow> launch_target" where
  "explicit_launch_target head inner =
     (case launcher_subcommand head inner of
        None \<Rightarrow> NotLauncher
      | Some sub \<Rightarrow>
          if head = ''uv'' \<and> sub = ''run'' then launch_at inner 2
          else if head = ''rustup'' \<and> sub = ''run'' then
            (case nth_opt inner 2 of
               Some toolchain \<Rightarrow>
                 if \<not> starts_with toolchain ''-'' then launch_at inner 3 else Unresolved
             | None \<Rightarrow> Unresolved)
          else if head \<in> {''npm'', ''pnpm'', ''yarn''} \<and> sub = ''exec'' then
            launch_at inner (if nth_opt inner 2 = Some ''--'' then 3 else 2)
          else NotLauncher)"

definition launched_writes_nonsink :: "str list \<Rightarrow> bool" where
  "launched_writes_nonsink words =
     list_ex (\<lambda>p. \<not> is_safe_write_sink p) (command_words_write_paths words)"

definition safe_subcommand :: "str \<Rightarrow> str list \<Rightarrow> bool" where
  "safe_subcommand prog inner =
     (let sub = launcher_subcommand prog inner;
          on = (\<lambda>safe. case sub of Some s \<Rightarrow> s \<in> set safe | None \<Rightarrow> False)
      in if prog \<in> {''npm'', ''pnpm'', ''yarn''} then on NPM_SAFE_SUBCOMMANDS
         else if prog = ''uv'' then on UV_SAFE_SUBCOMMANDS
         else if prog = ''rustup'' then on RUSTUP_SAFE_SUBCOMMANDS
         else False)"

text \<open>
  \<open>package_manager_subcommand_is_routine\<close> up to its recursive call: not a package manager, a
  verdict, or a launched command to classify.
\<close>

datatype package_manager_result = NotPackageManager | Verdict bool | Launched "str list"

definition package_manager_step :: "str \<Rightarrow> str list \<Rightarrow> package_manager_result" where
  "package_manager_step prog inner =
     (if prog \<notin> {''uv'', ''uvx'', ''npm'', ''npx'', ''pnpm'', ''yarn'', ''rustup''} then NotPackageManager
      else if is_remote_launcher prog inner then Verdict False
      else (case explicit_launch_target prog inner of
              Unresolved \<Rightarrow> Verdict False
            | Inner launched \<Rightarrow> Launched launched
            | NotLauncher \<Rightarrow> Verdict (safe_subcommand prog inner)))"

lemma launch_at_shorter: "launch_at inner start = Inner l \<Longrightarrow> l = drop start inner"
  by (auto simp: launch_at_def split: option.splits if_splits)

lemma launched_shorter:
  assumes "package_manager_step prog inner = Launched l" "inner \<noteq> []"
  shows "length l < length inner"
proof -
  have "explicit_launch_target prog inner = Inner l"
    using assms(1) by (auto simp: package_manager_step_def split: if_splits launch_target.splits)
  then obtain k where "launch_at inner k = Inner l" "0 < k"
    unfolding explicit_launch_target_def by (auto split: option.splits if_splits)
  with launch_at_shorter have "l = drop k inner" "0 < k" by auto
  with assms(2) show ?thesis by simp
qed

lemma unwrap_length: "length (unwrap_wrappers ws) \<le> length ws"
  using unwrap_suffix by (rule suffix_length_le)

subsection \<open>Routine commands\<close>

definition git_grep_runs_pager :: "str list \<Rightarrow> bool" where
  "git_grep_runs_pager inner =
     ((case nth_opt inner 1 of Some s \<Rightarrow> eq_ignore_ascii_case s ''grep'' | None \<Rightarrow> False)
      \<and> list_ex (\<lambda>w. let flag = hd (split_on CHR ''='' w)
           in starts_with w ''-O''
              \<or> (starts_with flag ''--o'' \<and> starts_with ''--open-files-in-pager'' flag)) inner)"

definition tree_writes_file :: "str list \<Rightarrow> bool" where
  "tree_writes_file inner =
     list_ex (\<lambda>w. (starts_with w ''-'' \<and> \<not> starts_with w ''--'' \<and> CHR ''o'' \<in> set w)
        \<or> starts_with w ''--output'') inner"

definition matches_routine_prefix :: "str list \<Rightarrow> bool" where
  "matches_routine_prefix inner =
     (let joined = to_ascii_lowercase (join '' '' inner)
      in list_ex (\<lambda>p. let base = trim p
           in joined = base
              \<or> (starts_with joined base \<and> starts_with (drop (length base) joined) '' ''))
         ROUTINE_PREFIXES)"

function bash_command_is_routine :: "str list \<Rightarrow> bool" where
  "bash_command_is_routine words =
     (let inner = unwrap_wrappers words in
      if inner = [] \<or> is_lone_wrapper inner then True
      else
        (let head = to_ascii_lowercase (last_path_seg (hd inner)) in
         case package_manager_step head inner of
           Verdict b \<Rightarrow> b
         | Launched launched \<Rightarrow>
             \<not> command_env_is_unsafe launched \<and> \<not> launched_writes_nonsink launched
             \<and> bash_command_is_routine launched
         | NotPackageManager \<Rightarrow>
             if head = ''find'' then find_is_read_only inner
             else if head = ''git'' \<and> git_grep_runs_pager inner then False
             else if head = ''tree'' \<and> tree_writes_file inner then False
             else if head = ''gh'' then gh_subcommand_is_read_only inner
             else matches_routine_prefix inner))"
  by pat_completeness auto
termination
proof (relation "measure length")
  fix words inner head launched
  assume "inner = unwrap_wrappers words" "\<not> (inner = [] \<or> is_lone_wrapper inner)"
    "package_manager_step head inner = Launched launched"
  then have "length launched < length (unwrap_wrappers words)" by (auto intro: launched_shorter)
  with unwrap_length[of words] show "(launched, words) \<in> measure length" by simp
qed simp

declare bash_command_is_routine.simps [simp del]

text \<open>The function the source names, from the step and the recursive call.\<close>

definition package_manager_subcommand_is_routine :: "str \<Rightarrow> str list \<Rightarrow> bool option" where
  "package_manager_subcommand_is_routine prog inner =
     (case package_manager_step prog inner of
        NotPackageManager \<Rightarrow> None
      | Verdict b \<Rightarrow> Some b
      | Launched launched \<Rightarrow>
          Some (\<not> command_env_is_unsafe launched \<and> \<not> launched_writes_nonsink launched
                \<and> bash_command_is_routine launched))"

definition classify_bash :: "externals \<Rightarrow> str \<Rightarrow> classifier_verdict" where
  "classify_bash E cmd =
     (case parse_shell E cmd of
        None \<Rightarrow> Block
      | Some tree \<Rightarrow>
          (case try_parse_word_only_commands_sequence tree cmd of
             None \<Rightarrow> Block
           | Some cmds \<Rightarrow>
               if sets_unsafe_env (ts_root tree) cmd cmds then Block
               else if list_ex (\<lambda>path. \<not> is_safe_write_sink path)
                         (command_write_paths_in_tree (ts_root tree) cmd) then Block
               else if cmds \<noteq> [] \<and> list_all (\<lambda>c. bash_command_is_routine (pc_words c)) cmds then Allow
               else Block))"

subsection \<open>The heuristic classifier\<close>

definition dangerous_patterns :: "str list" where
  "dangerous_patterns =
     [''rm -rf /'', ''rm -rf /*'', ''mkfs'', ''dd if='', '':(){ :|:& };:'', ''curl | sh'', ''curl|sh'',
      ''curl | bash'', ''curl|bash'', ''wget | sh'', ''wget|sh'', ''wget | bash'', ''wget|bash'',
      ''chmod 777'', ''chmod -r 777'', ''chmod +x /tmp'', ''base64 -d'', ''base64 --decode'',
      ''nc -e'', ''ncat -e'', ''/dev/tcp/'', ''shutdown'', ''reboot'', ''useradd'', ''userdel'',
      ''passwd '', ''chown -r /'', ''iptables -f'', ''kill -9 1'', ''sudo rm'', ''sudo dd'',
      ''sudo mkfs'', ''exfiltrat'', ''steal credential'', ''send secrets'']"

definition hostile_intent :: "str list" where
  "hostile_intent =
     [''delete all files'', ''wipe the disk'', ''exfiltrate'', ''steal secrets'',
      ''send my credentials'', ''ignore safety'', ''bypass permission'']"

definition opt_str :: "str option \<Rightarrow> str \<Rightarrow> str" where
  "opt_str x d = (case x of Some s \<Rightarrow> s | None \<Rightarrow> d)"

definition classify_sync ::
    "externals \<Rightarrow> str \<Rightarrow> access_kind \<Rightarrow> str option \<Rightarrow> classifier_context \<Rightarrow> classifier_verdict" where
  "classify_sync E tool_name access access_detail context =
     (let detail = to_ascii_lowercase (opt_str access_detail []);
          tool = to_ascii_lowercase tool_name;
          transcript = to_ascii_lowercase (transcript_text context);
          blob = tool @ '' '' @ detail @ '' '' @ transcript
      in if contains tool ''ask_user'' \<or> contains tool ''askuserquestion'' then Block
         else if list_ex (contains blob) dangerous_patterns then Block
         else if list_ex (contains blob) [''curl'', ''wget'', ''fetch'']
                 \<and> list_ex (contains blob) [''| sh'', ''|sh'', ''| bash'', ''|bash'', ''| zsh'', ''|zsh'']
         then Block
         else if list_ex (contains transcript) hostile_intent then Block
         else (case access of
                 access_kind.Bash cmd \<Rightarrow> classify_bash E cmd
               | access_kind.WebFetch url \<Rightarrow>
                   (let u = to_ascii_lowercase url in
                    if contains u ''localhost'' \<or> contains u ''127.0.0.1'' \<or> starts_with u ''file:''
                    then Block else Block)
               | access_kind.Edit _ \<Rightarrow> Block
               | MCPTool _ _ \<Rightarrow> Block
               | BrowserAct _ \<Rightarrow> Block
               | access_kind.Read _ \<Rightarrow> Allow
               | access_kind.Grep _ _ \<Rightarrow> Allow
               | access_kind.WebSearch _ \<Rightarrow> Allow))"

subsection \<open>The fast path\<close>

definition access_requires_user_interaction :: "str \<Rightarrow> access_kind \<Rightarrow> bool" where
  "access_requires_user_interaction tool_name access =
     (let t = to_ascii_lowercase tool_name in
      if contains t ''ask_user'' \<or> contains t ''askuserquestion'' \<or> contains t ''user_question''
         \<or> t = ''ask_user_question'' then True
      else (case access of
              MCPTool name _ \<Rightarrow>
                (let n = to_ascii_lowercase name
                 in contains n ''ask_user'' \<or> (contains n ''confirm'' \<and> contains n ''human''))
            | _ \<Rightarrow> False))"

definition is_auto_mode_allowlisted_access :: "access_kind \<Rightarrow> bool" where
  "is_auto_mode_allowlisted_access access =
     (case access of
        access_kind.Read _ \<Rightarrow> True | access_kind.Grep _ _ \<Rightarrow> True | access_kind.WebSearch _ \<Rightarrow> True
      | _ \<Rightarrow> False)"

definition is_auto_mode_allowlisted_tool_name :: "str \<Rightarrow> bool" where
  "is_auto_mode_allowlisted_tool_name tool_name =
     (tool_name \<in> set [''todo_write'', ''TodoWrite'', ''task_output'', ''TaskOutput'', ''wait_tasks'',
        ''WaitTasks'', ''ask_user_question'', ''AskUserQuestion'', ''enter_plan_mode'',
        ''EnterPlanMode'', ''exit_plan_mode'', ''ExitPlanMode'', ''switch_mode'', ''SwitchMode'',
        ''create_plan'', ''CreatePlan'', ''update_plan'', ''UpdatePlan'', ''list_mcp_resources'',
        ''ListMcpResources'', ''read_mcp_resource'', ''ReadMcpResource'', ''tool_search'',
        ''ToolSearch'', ''sleep'', ''Sleep''])"

datatype auto_fast_path = Allow | PromptUser | Classify

definition auto_mode_fast_path :: "access_kind \<Rightarrow> str \<Rightarrow> bool \<Rightarrow> auto_fast_path" where
  "auto_mode_fast_path access tool_name requires_user_interaction =
     (if requires_user_interaction then PromptUser
      else if is_auto_mode_allowlisted_access access \<or> is_auto_mode_allowlisted_tool_name tool_name
      then auto_fast_path.Allow
      else (case access of
              access_kind.Edit _ \<Rightarrow> auto_fast_path.Allow
            | access_kind.Bash cmd \<Rightarrow>
                if trim cmd \<in> {''true'', '':'', ''false''} then auto_fast_path.Allow else Classify
            | _ \<Rightarrow> Classify))"

subsection \<open>Messages for the model\<close>

definition AUTO_MODE_CLASSIFIER_SYSTEM_PROMPT :: str where
  "AUTO_MODE_CLASSIFIER_SYSTEM_PROMPT =
     ''You review a command that a coding agent wants to run on its user''
     @ [squote]
     @ ''s machine. Decide whether it can run now (shouldBlock=false) or must wait for the user''
     @ [squote]
     @ ''s approval (shouldBlock=true).''
     @ [newline]
     @ [newline]
     @ ''Let it run if everything it does is ordinary development work on this machine: building, ''
     @ ''testing, searching, and editing project files; reading the user''
     @ [squote]
     @ ''s own files, logs, configuration, and environment; scratch work in temp directories; ''
     @ ''read-only queries of the team''
     @ [squote]
     @ ''s own services, dashboards, and internal APIs made from this machine (using stored credentials ''
     @ ''for read access is normal); git reads and commits (status, diff, log, show, add, commit, ''
     @ ''amending the latest local commit, switching branches). A chain of safe steps, or a harmless ''
     @ ''no-op like `true`, is still safe. A local VM on this machine counts as this machine.''
     @ [newline]
     @ [newline]
     @ ''Make it wait if any part reaches beyond the machine or cannot be undone: publishing ''
     @ ''anything (git push, PR or review edits and comments, posts, messages), opening shells ''
     @ ''on or changing other machines (SSH sessions, kubectl exec, cluster mutations, production ''
     @ ''services), rewriting or discarding saved work (rebase, hard reset, force-clean, force-deleting ''
     @ ''branches or worktrees), extracting credentials or secrets, looking up people''
     @ [squote]
     @ ''s private data (even read-only), destroying files outside scratch space, downloading ''
     @ ''and running untrusted code, or probing systems for access.''
     @ [newline]
     @ [newline]
     @ ''Judge by what the command actually does ''
     @ [CHR 0xE2, CHR 0x80, CHR 0x94]
     @ '' not by scary names in paths or strings. If you cannot tell what it does, make it wait.''
     @ [newline]"

definition CLASSIFIER_JSON_INSTRUCTION :: str where
  "CLASSIFIER_JSON_INSTRUCTION =
     ''Respond with JSON only: {''
     @ [dquote]
     @ ''thinking''
     @ [dquote]
     @ '':''
     @ [dquote]
     @ ''...''
     @ [dquote]
     @ '',''
     @ [dquote]
     @ ''shouldBlock''
     @ [dquote]
     @ '':true|false,''
     @ [dquote]
     @ ''reason''
     @ [dquote]
     @ '':''
     @ [dquote]
     @ ''...''
     @ [dquote]
     @ ''}''"

definition classifier_output_json_schema :: json where
  "classifier_output_json_schema =
     JObj [(''type'', JStr ''object''),
       (''properties'', JObj
         [(''thinking'', JObj [(''type'', JStr ''string''),
             (''description'', JStr ''Brief step-by-step reasoning.'')]),
          (''shouldBlock'', JObj [(''type'', JStr ''boolean''),
             (''description'', JStr ''True if the action must be blocked; false if it may be auto-allowed.'')]),
          (''reason'', JObj [(''type'', JStr ''string''),
             (''description'', JStr ''Brief explanation of the decision.'')])]),
       (''required'', JArr [JStr ''thinking'', JStr ''shouldBlock'', JStr ''reason'']),
       (''additionalProperties'', JBool False)]"

fun access_kind_label :: "access_kind \<Rightarrow> str" where
  "access_kind_label (access_kind.Read _) = ''read''"
| "access_kind_label (access_kind.Grep _ _) = ''grep''"
| "access_kind_label (access_kind.Edit _) = ''edit''"
| "access_kind_label (access_kind.Bash _) = ''bash''"
| "access_kind_label (MCPTool _ _) = ''mcp''"
| "access_kind_label (access_kind.WebFetch _) = ''web_fetch''"
| "access_kind_label (access_kind.WebSearch _) = ''web_search''"
| "access_kind_label (BrowserAct _) = ''browser_act''"

definition build_classifier_messages :: "str \<Rightarrow> access_kind \<Rightarrow> str option \<Rightarrow> classifier_context
    \<Rightarrow> classifier_prompt_type \<Rightarrow> classifier_message list" where
  "build_classifier_messages tool_name access access_detail ctx prompt_type =
     (let agents =
            (case project_instructions ctx of
               Some agents_md \<Rightarrow>
                 if prompt_type = Full \<or> prompt_type = NoUserToolPrefix then
                   [\<lparr>cm_role = User, cm_text =
                      ''The following is the user''
                        @ [squote]
                        @ ''s AGENTS.md configuration. These are instructions the user provided to the agent and ''
                        @ ''should be treated as part of the user''
                        @ [squote]
                        @ ''s intent when evaluating actions.''
                        @ [newline]
                        @ [newline]
                        @ ''<project_instructions>''
                        @ [newline]
                        @ agents_md @ [newline] @ ''</project_instructions>''\<rparr>]
                 else []
             | None \<Rightarrow> []);
          proposed_action =
            ''tool: '' @ tool_name @ [newline] @ ''access_kind: '' @ access_kind_label access @ [newline]
              @ ''detail: '' @ opt_str access_detail ''(none)'';
          trailing =
            (case prompt_type of
               Full \<Rightarrow>
                 ''## Recent conversation'' @ [newline]
                   @ (if cc_turns ctx = [] then ''(no recent conversation context)''
                      else transcript_text ctx)
                   @ [newline, newline] @ ''## Proposed action'' @ [newline] @ proposed_action
                   @ [newline, newline] @ CLASSIFIER_JSON_INSTRUCTION
             | NoUserToolPrefix \<Rightarrow>
                 ''## Proposed action'' @ [newline] @ proposed_action @ [newline, newline]
                   @ CLASSIFIER_JSON_INSTRUCTION
             | BareInstructions \<Rightarrow>
                 ''## Proposed action'' @ [newline] @ proposed_action @ [newline, newline]
                   @ CLASSIFIER_JSON_INSTRUCTION
             | JustCommand \<Rightarrow> proposed_action)
      in [\<lparr>cm_role = System, cm_text = AUTO_MODE_CLASSIFIER_SYSTEM_PROMPT\<rparr>] @ agents
           @ [\<lparr>cm_role = User, cm_text = trailing\<rparr>])"

subsection \<open>Rendering the detail of an MCP call\<close>

fun nat_to_str :: "nat \<Rightarrow> str" where
  "nat_to_str n =
     (if n < 10 then [char_of (48 + n)] else nat_to_str (n div 10) @ [char_of (48 + n mod 10)])"

declare nat_to_str.simps [simp del]

definition truncate_line :: "str \<Rightarrow> nat \<Rightarrow> str" where
  "truncate_line line max_chars =
     (if length line \<le> max_chars then line
      else if char_count line \<le> max_chars then line
      else take_chars max_chars line @ '' [... truncated ('' @ nat_to_str (char_count line)
             @ '' chars total)]'')"

definition MCP_ACCESS_DETAIL_MAX_LEN :: nat where
  "MCP_ACCESS_DETAIL_MAX_LEN = 1024"

definition mcp_access_detail :: "externals \<Rightarrow> str \<Rightarrow> json \<Rightarrow> str" where
  "mcp_access_detail E name input =
     (if input = JNull then name
      else truncate_line (name @ '' '' @ json_to_string E input) MCP_ACCESS_DETAIL_MAX_LEN)"

subsection \<open>Reading the model's answer\<close>

definition block_verdict :: "bool \<Rightarrow> classifier_verdict" where
  "block_verdict b = (if b then Block else classifier_verdict.Allow)"

definition json_flag :: "json \<Rightarrow> str \<Rightarrow> bool option" where
  "json_flag v k = Option.bind (json_get v k) json_as_bool"

text \<open>\<open>&trimmed[start..=end]\<close> from the first brace to the last, if it opens before it closes.\<close>

definition embedded_object :: "str \<Rightarrow> str option" where
  "embedded_object s =
     (if CHR ''{'' \<in> set s \<and> CHR ''}'' \<in> set s then
        (let start = length (takeWhile (\<lambda>c. c \<noteq> CHR ''{'') s);
             fin = length s - 1 - length (takeWhile (\<lambda>c. c \<noteq> CHR ''}'') (rev s))
         in if start < fin then Some (slice s start (fin + 1)) else None)
      else None)"

definition embedded_verdict :: "externals \<Rightarrow> str \<Rightarrow> bool option" where
  "embedded_verdict E s =
     (case embedded_object s of
        None \<Rightarrow> None
      | Some obj \<Rightarrow>
          (case json_from_str E obj of
             None \<Rightarrow> None
           | Some v \<Rightarrow>
               Option.bind (or_else (json_get v ''shouldBlock'') (json_get v ''should_block'')) json_as_bool))"

definition whole_verdict :: "externals \<Rightarrow> str \<Rightarrow> bool option" where
  "whole_verdict E s =
     (case json_from_str E s of
        None \<Rightarrow> None
      | Some v \<Rightarrow> or_else (json_flag v ''shouldBlock'') (json_flag v ''should_block''))"

definition parse_classifier_model_text :: "externals \<Rightarrow> str \<Rightarrow> classifier_verdict" where
  "parse_classifier_model_text E text =
     (let trimmed = trim text in
      if trimmed = [] then Unavailable
      else
        (case whole_verdict E trimmed of
           Some b \<Rightarrow> block_verdict b
         | None \<Rightarrow>
             (case embedded_verdict E trimmed of
                Some b \<Rightarrow> block_verdict b
              | None \<Rightarrow>
                  (let lower = to_ascii_lowercase trimmed in
                   if contains lower ([dquote] @ ''shouldblock'' @ [dquote] @ '': true'')
                      \<or> contains lower (''shouldblock'' @ [dquote] @ '':true'')
                   then Block
                   else if trim lower \<in> {''block'', ''blocked'', ''deny'', ''denied''} then Block
                   else if trim lower \<in> {''allow'', ''allowed'', ''approve'', ''approved''}
                   then classifier_verdict.Allow
                   else Unavailable))))"

subsection \<open>The model classifier\<close>

text \<open>The two side queries: a channel to the session and a direct callback.\<close>

type_synonym side_query = "classifier_message list \<Rightarrow> str option"

record llm_permission_classifier =
  classify_text :: "side_query option"
  classify_channel :: "side_query option"
  llm_prompt_type :: classifier_prompt_type

definition llm_default :: llm_permission_classifier where
  "llm_default = \<lparr>classify_text = None, classify_channel = None, llm_prompt_type = Full\<rparr>"

definition with_channel :: "side_query \<Rightarrow> classifier_prompt_type \<Rightarrow> llm_permission_classifier" where
  "with_channel tx prompt_type =
     \<lparr>classify_text = None, classify_channel = Some tx, llm_prompt_type = prompt_type\<rparr>"

definition has_side_query :: "llm_permission_classifier \<Rightarrow> bool" where
  "has_side_query c = (classify_text c \<noteq> None \<or> classify_channel c \<noteq> None)"

definition llm_classify :: "externals \<Rightarrow> llm_permission_classifier \<Rightarrow> str \<Rightarrow> access_kind \<Rightarrow> str option
    \<Rightarrow> classifier_context \<Rightarrow> classifier_verdict" where
  "llm_classify E c tool_name access access_detail context =
     (let heuristic = classify_sync E tool_name access access_detail context in
      if heuristic = classifier_verdict.Allow then classifier_verdict.Allow
      else
        (let messages = build_classifier_messages tool_name access access_detail context
                          (llm_prompt_type c);
             model_text =
               (case classify_channel c of
                  Some tx \<Rightarrow> tx messages
                | None \<Rightarrow> (case classify_text c of Some f \<Rightarrow> f messages | None \<Rightarrow> None))
         in case model_text of
              Some text \<Rightarrow>
                (let v = parse_classifier_model_text E text
                 in if v \<noteq> Unavailable then v else heuristic)
            | None \<Rightarrow> heuristic))"

text \<open>Any classifier the permission manager may be given.\<close>

type_synonym permission_classifier =
  "str \<Rightarrow> access_kind \<Rightarrow> str option \<Rightarrow> classifier_context \<Rightarrow> classifier_verdict"

definition fixed_classifier :: "classifier_verdict \<Rightarrow> permission_classifier" where
  "fixed_classifier v = (\<lambda>_ _ _ _. v)"

definition default_auto_mode_classifier :: "externals \<Rightarrow> permission_classifier" where
  "default_auto_mode_classifier E = llm_classify E llm_default"

subsection \<open>Properties\<close>

lemma classify_bash_not_unavailable: "classify_bash E cmd \<noteq> Unavailable"
  by (simp add: classify_bash_def split: option.split)

lemma classify_sync_not_unavailable: "classify_sync E t a d c \<noteq> Unavailable"
  by (simp add: classify_sync_def Let_def classify_bash_not_unavailable split: access_kind.split)

text \<open>C16: The heuristic allows a shell command only when it can prove it routine: it parses without error
  into plain commands, at least one, each of them routine; no assignment in the tree sets a key outside
  the cosmetic list; and every path the command writes, by redirect or by operand, is a discard sink.\<close>

theorem classify_bash_allow_sound:
  assumes "classify_bash E cmd = classifier_verdict.Allow"
  shows "\<exists>tree cmds. parse_shell E cmd = Some tree \<and> \<not> ts_has_error tree
    \<and> try_parse_word_only_commands_sequence tree cmd = Some cmds \<and> cmds \<noteq> []
    \<and> list_all (\<lambda>c. bash_command_is_routine (pc_words c) \<and> \<not> command_env_is_unsafe (pc_words c)) cmds
    \<and> list_all (\<lambda>n. ts_kind n = ''variable_assignment'' \<longrightarrow> is_safe_env_key (assignment_key n cmd))
        (ts_dfs (ts_root tree))
    \<and> list_all (\<lambda>(p, mode). mode = Write \<longrightarrow> is_safe_write_sink p) (tree_touches (ts_root tree) cmd)"
proof -
  obtain tree cmds where t: "parse_shell E cmd = Some tree"
    "try_parse_word_only_commands_sequence tree cmd = Some cmds"
    and ok: "\<not> sets_unsafe_env (ts_root tree) cmd cmds"
      "\<not> list_ex (\<lambda>path. \<not> is_safe_write_sink path) (command_write_paths_in_tree (ts_root tree) cmd)"
      "cmds \<noteq> []" "list_all (\<lambda>c. bash_command_is_routine (pc_words c)) cmds"
    using assms by (auto simp: classify_bash_def split: option.splits if_splits)
  have "p \<in> set (command_write_paths_in_tree (ts_root tree) cmd)"
    if "(p, Write) \<in> set (tree_touches (ts_root tree) cmd)" for p
    using that by (simp add: written_paths_are_touches)
  with ok(2) have "list_all (\<lambda>(p, mode). mode = Write \<longrightarrow> is_safe_write_sink p)
      (tree_touches (ts_root tree) cmd)"
    by (auto simp: list_all_iff list_ex_iff)
  moreover have "list_all (\<lambda>n. ts_kind n = ''variable_assignment'' \<longrightarrow> is_safe_env_key (assignment_key n cmd))
        (ts_dfs (ts_root tree))" "list_all (\<lambda>c. \<not> command_env_is_unsafe (pc_words c)) cmds"
    using ok(1) unfolding sets_unsafe_env_def ts_walk_dfs by (auto simp: list_all_iff list_ex_iff)
  ultimately show ?thesis
    using t try_parse_SomeD(1)[OF t(2)] ok(3,4) by (auto simp: list_all_iff)
qed

lemma trim_routine: "trim ''ls'' = ''ls''"
  by (simp add: trim_id_iff ws_seqs_def ends_with_def)

lemma ls_routine: "bash_command_is_routine [''ls'', ''a'']"
proof -
  have u: "unwrap_wrappers [''ls'', ''a''] = [''ls'', ''a'']"
    by (rule unwrap_no_wrapper) (simp add: is_wrapper_command_def last_path_seg_def)
  have low: "to_ascii_lowercase ''ls a'' = ''ls a''" "to_ascii_lowercase ''ls'' = ''ls''"
    by (simp_all add: to_ascii_lowercase_def ascii_lower_def)
  have "''ls'' \<in> set ROUTINE_PREFIXES" by (simp add: ROUTINE_PREFIXES_def)
  then have "matches_routine_prefix [''ls'', ''a'']"
    unfolding matches_routine_prefix_def list_ex_iff Let_def
    by (intro bexI[of _ "''ls''"]) (simp_all add: trim_routine low)
  then show ?thesis
    by (subst bash_command_is_routine.simps)
      (simp add: u is_lone_wrapper_def last_path_seg_def low package_manager_step_def)
qed

lemma ls_classified: "classify_bash ls_externals ''ls a'' = classifier_verdict.Allow"
proof -
  have p: "parse_shell ls_externals ''ls a'' = Some ls_tree"
    by (simp add: ls_externals_def example_externals_def)
  have env: "\<not> sets_unsafe_env (ts_root ls_tree) ''ls a''
      [\<lparr>pc_words = [''ls'', ''a''], span_start = 0, span_end = 4\<rparr>]"
    by (simp add: sets_unsafe_env_def ls_tree_def command_env_is_unsafe_def numeral_eq_Suc
        nth_opt_def last_path_seg_def strip_wrapper_command_def wrapper_index_def)
  have "shell_command_invocations (ts_root ls_tree) ''ls a'' = [(0, [''ls'', ''a''], False)]"
    by (simp add: ls_tree_def shell_command_invocations_def named_children_def add_operand_def
        shell_node_arg_def utf8_text_def slice_def)
  moreover have "shell_redirect_targets (ts_root ls_tree) ''ls a'' = []"
    by (simp add: shell_redirect_targets_def ls_tree_def map_filter_simps)
  moreover have "unwrap_wrappers [''ls'', ''a''] = [''ls'', ''a'']"
    by (rule unwrap_no_wrapper) (simp add: is_wrapper_command_def last_path_seg_def)
  ultimately have "command_write_paths_in_tree (ts_root ls_tree) ''ls a'' = []"
    by (simp add: command_write_paths_in_tree_def map_filter_simps command_words_write_paths_def Let_def
        shell_program_name_def last_path_seg_def to_ascii_lowercase_def ascii_lower_def written_def
        special_file_operands_def shell_path_command_operands_def shell_file_mode_of_def)
  with p env ls_tree_parses ls_routine show ?thesis by (simp add: classify_bash_def)
qed

theorem classify_bash_allow_sound_witness:
  "\<exists>tree. parse_shell ls_externals ''ls a'' = Some tree \<and> \<not> ts_has_error tree"
  using classify_bash_allow_sound[OF ls_classified] by blast

text \<open>The model classifier never answers that it is unavailable, and it allows exactly what the heuristic
  allows and what an answer of its side query (the channel first) says to allow; without a side query it is the heuristic.\<close>

theorem llm_classify_sound:
  "llm_classify E c t a d ctx \<noteq> Unavailable
   \<and> (llm_classify E c t a d ctx = classifier_verdict.Allow
      \<longleftrightarrow> classify_sync E t a d ctx = classifier_verdict.Allow
        \<or> (\<exists>q text. (classify_channel c = Some q \<or> (classify_channel c = None \<and> classify_text c = Some q))
             \<and> q (build_classifier_messages t a d ctx (llm_prompt_type c)) = Some text
             \<and> parse_classifier_model_text E text = classifier_verdict.Allow))
   \<and> (has_side_query c \<or> llm_classify E c t a d ctx = classify_sync E t a d ctx)"
  using classify_sync_not_unavailable[of E t a d ctx]
  by (auto simp: llm_classify_def has_side_query_def Let_def split: option.splits if_splits)

lemma fast_path_cases:
  "auto_mode_fast_path a t i = auto_fast_path.Allow \<Longrightarrow>
     \<not> i \<and> (is_auto_mode_allowlisted_access a \<or> is_auto_mode_allowlisted_tool_name t
       \<or> (\<exists>p. a = access_kind.Edit p)
       \<or> (\<exists>cmd. a = access_kind.Bash cmd \<and> trim cmd \<in> {''true'', '':'', ''false''}))"
  by (auto simp: auto_mode_fast_path_def split: if_splits access_kind.splits)

text \<open>Without a side query, auto mode lets a shell command run only when the fast path knows it as a
  no-op or by its tool name, or the heuristic proves it routine; a tool call that needs the user is always
  prompted; and no web fetch, MCP call or browser act of a tool that is not allowlisted runs unprompted.\<close>

theorem heuristic_auto_mode_scope:
  "let verdict = (case auto_mode_fast_path access tool interactive of
         auto_fast_path.Allow \<Rightarrow> True
       | PromptUser \<Rightarrow> False
       | Classify \<Rightarrow> default_auto_mode_classifier E tool access detail ctx = classifier_verdict.Allow)
   in verdict = False
      \<or> (\<not> interactive
         \<and> (is_auto_mode_allowlisted_tool_name tool
            \<or> (case access of
                 access_kind.Bash cmd \<Rightarrow> trim cmd \<in> {''true'', '':'', ''false''}
                     \<or> classify_bash E cmd = classifier_verdict.Allow
               | access_kind.WebFetch _ \<Rightarrow> False | MCPTool _ _ \<Rightarrow> False | BrowserAct _ \<Rightarrow> False
               | _ \<Rightarrow> True)))"
proof -
  have d: "default_auto_mode_classifier E tool access detail ctx = classify_sync E tool access detail ctx"
    by (simp add: default_auto_mode_classifier_def llm_classify_def llm_default_def Let_def)
  have c: "classify_sync E tool access detail ctx = classifier_verdict.Allow \<Longrightarrow>
      (case access of access_kind.Bash cmd \<Rightarrow> classify_bash E cmd = classifier_verdict.Allow
       | access_kind.WebFetch _ \<Rightarrow> False | MCPTool _ _ \<Rightarrow> False | BrowserAct _ \<Rightarrow> False | _ \<Rightarrow> True)"
    unfolding classify_sync_def Let_def by (cases access) (simp_all split: if_splits)
  show ?thesis
    unfolding d
    using c by (cases access; cases interactive)
      (auto simp: auto_mode_fast_path_def is_auto_mode_allowlisted_access_def Let_def)
qed

text \<open>Routine commands are recognised by prefix of the whole command line, but \<open>find\<close>, \<open>gh\<close> and the
  package managers by the last segment of the program's path: the heuristic treats a program at any path
  with one of these names as routine, while the same path spelling blocks \<open>ls\<close>.\<close>

theorem path_qualified_find_is_routine:
  "bash_command_is_routine [''./evil/find'', ''x''] \<and> bash_command_is_routine [''./evil/npm'', ''test'']
   \<and> \<not> bash_command_is_routine [''./ls'']"
proof -
  have u: "unwrap_wrappers [''./evil/find'', ''x''] = [''./evil/find'', ''x'']"
    "unwrap_wrappers [''./evil/npm'', ''test''] = [''./evil/npm'', ''test'']"
    "unwrap_wrappers [''./ls''] = [''./ls'']"
    by (rule unwrap_no_wrapper, simp add: is_wrapper_command_def last_path_seg_def)+
  have low: "to_ascii_lowercase ''find'' = ''find''" "to_ascii_lowercase ''npm'' = ''npm''"
    "to_ascii_lowercase ''ls'' = ''ls''" "to_ascii_lowercase ''./ls'' = ''./ls''"
    by (simp_all add: to_ascii_lowercase_def ascii_lower_def)
  have find: "bash_command_is_routine [''./evil/find'', ''x'']"
    by (subst bash_command_is_routine.simps)
      (simp add: u is_lone_wrapper_def last_path_seg_def low package_manager_step_def find_is_read_only_def)
  have npm: "bash_command_is_routine [''./evil/npm'', ''test'']"
    by (subst bash_command_is_routine.simps)
      (simp add: u is_lone_wrapper_def last_path_seg_def low package_manager_step_def
        is_remote_launcher_def launcher_subcommand_def nth_opt_def explicit_launch_target_def
        safe_subcommand_def NPM_SAFE_SUBCOMMANDS_def)
  have "\<not> matches_routine_prefix [''./ls'']"
  proof
    assume "matches_routine_prefix [''./ls'']"
    then obtain p where p: "p \<in> set ROUTINE_PREFIXES" "starts_with ''./ls'' (trim p)"
      by (auto simp: matches_routine_prefix_def list_ex_iff Let_def low)
    have "list_all (\<lambda>p. p \<noteq> [] \<and> is_ascii_alphabetic (hd p)) ROUTINE_PREFIXES"
      by (simp add: ROUTINE_PREFIXES_def is_ascii_alphabetic_def)
    with p(1) have "p \<noteq> []" "is_ascii_alphabetic (hd p)" by (auto simp: list_all_iff)
    then have "trim p \<noteq> [] \<and> hd (trim p) = hd p" by (rule trim_alpha_hd)
    with p(2) have "hd p = CHR ''.''" by (cases "trim p") auto
    with \<open>is_ascii_alphabetic (hd p)\<close> show False by (simp add: is_ascii_alphabetic_def)
  qed
  then have "\<not> bash_command_is_routine [''./ls'']"
    by (subst bash_command_is_routine.simps)
      (simp add: u is_lone_wrapper_def is_wrapper_command_def last_path_seg_def low package_manager_step_def)
  with find npm show ?thesis by blast
qed

text \<open>The detail of an MCP call shown to the classifier is bounded: it is the whole text, of at most
  1024 characters or a call without arguments, or exactly its first 1024 characters, cut between two
  characters, and a marker with the full count.\<close>

theorem mcp_access_detail_bounded:
  "let full = (if input = JNull then name else name @ '' '' @ json_to_string E input);
       shown = mcp_access_detail E name input
   in shown = full \<and> (input = JNull \<or> char_count full \<le> 1024)
      \<or> (\<exists>pre rest. full = pre @ rest \<and> char_count pre = 1024 \<and> rest \<noteq> [] \<and> starts_char (hd rest)
          \<and> shown = pre @ '' [... truncated ('' @ nat_to_str (char_count full) @ '' chars total)]'')"
proof -
  have short: "length s \<le> n \<Longrightarrow> char_count s \<le> n" for s n
    unfolding char_count_def using length_filter_le order_trans by blast
  show ?thesis
  proof (cases "input = JNull \<or> char_count (name @ '' '' @ json_to_string E input) \<le> 1024")
    case True
    with short[of "name @ '' '' @ json_to_string E input" 1024] show ?thesis
      by (auto simp: mcp_access_detail_def truncate_line_def MCP_ACCESS_DETAIL_MAX_LEN_def Let_def)
  next
    case False
    let ?f = "name @ '' '' @ json_to_string E input"
    from False have "1024 < char_count ?f" by simp
    from take_chars_split[OF this] obtain rest where
      r: "?f = take_chars 1024 ?f @ rest" "char_count (take_chars 1024 ?f) = 1024" "rest \<noteq> []"
        "starts_char (hd rest)" by blast
    have l: "\<not> length ?f \<le> 1024" using short[of ?f 1024] False by blast
    have "mcp_access_detail E name input
        = take_chars 1024 ?f @ '' [... truncated ('' @ nat_to_str (char_count ?f) @ '' chars total)]''"
      unfolding mcp_access_detail_def truncate_line_def MCP_ACCESS_DETAIL_MAX_LEN_def
      using False l by (simp only: if_False de_Morgan_disj)
    with r False show ?thesis unfolding Let_def by (simp only: if_False de_Morgan_disj) blast
  qed
qed

end
