(* ===== verification/Prompter.thy ===== *)
theory Prompter
  imports Bash_Splitting Domain_Matcher Permission_Types
begin

section \<open>Asking the user (\<open>permission/prompter.rs\<close>, \<open>permission/hub_permission.rs\<close>)\<close>

text \<open>
  The options a prompt offers, the outcome of the user's choice, and the same decision taken over
  the hub. An \<open>IndexMap\<close> is an association list in insertion order. The client is the function
  \<open>gateway\<close> from the options and meta of a request to its reply, the hub a function from a payload
  to its reply; both are arbitrary.
\<close>

subsection \<open>Options\<close>

datatype permission_option_kind = AllowOnce | AllowAlways | RejectOnce | RejectAlways

record permission_option =
  option_id :: str
  option_name :: str
  option_kind :: permission_option_kind
  option_meta :: "json option"

type_synonym option_map = "(str \<times> permission_option) list"

fun im_insert :: "'k \<Rightarrow> 'v \<Rightarrow> ('k \<times> 'v) list \<Rightarrow> ('k \<times> 'v) list" where
  "im_insert k v [] = [(k, v)]"
| "im_insert k v ((k', v') # m) = (if k = k' then (k, v) # m else (k', v') # im_insert k v m)"

definition im_extend :: "('k \<times> 'v) list \<Rightarrow> ('k \<times> 'v) list \<Rightarrow> ('k \<times> 'v) list" where
  "im_extend m1 m2 = foldl (\<lambda>m (k, v). im_insert k v m) m1 m2"

definition shift_remove :: "'k \<Rightarrow> ('k \<times> 'v) list \<Rightarrow> ('k \<times> 'v) list" where
  "shift_remove k m = filter (\<lambda>(k', _). k' \<noteq> k) m"

definition REJECT_ONCE_LABEL :: str where
  "REJECT_ONCE_LABEL = ''No, and tell Grok what to do differently''"

definition ALLOW_EDITS_SESSION_OPTION_ID :: str where
  "ALLOW_EDITS_SESSION_OPTION_ID = ''allow-edits-session''"

definition ENABLE_ALWAYS_APPROVE_OPTION_ID :: str where
  "ENABLE_ALWAYS_APPROVE_OPTION_ID = ''enable-always-approve''"

definition ENABLE_ALWAYS_APPROVE_LABEL :: str where
  "ENABLE_ALWAYS_APPROVE_LABEL =
     [CHR ''Y''] @ ''es, and don'' @ [squote] @ ''t ask again for anything (always-approve mode)''"

definition mk_option :: "str \<Rightarrow> str \<Rightarrow> permission_option_kind \<Rightarrow> str \<times> permission_option" where
  "mk_option i name kind =
     (i, \<lparr>option_id = i, option_name = name, option_kind = kind, option_meta = None\<rparr>)"

definition enable_always_approve_option :: "str \<times> permission_option" where
  "enable_always_approve_option =
     mk_option ENABLE_ALWAYS_APPROVE_OPTION_ID ENABLE_ALWAYS_APPROVE_LABEL AllowOnce"

definition is_enable_always_approve_option :: "permission_option \<Rightarrow> bool" where
  "is_enable_always_approve_option opt = (option_id opt = ENABLE_ALWAYS_APPROVE_OPTION_ID)"

definition client_supports_enable_always_approve :: "client_type \<Rightarrow> bool" where
  "client_supports_enable_always_approve c = (c \<in> {GrokTUI, GrokPager, Desktop})"

definition prepend_enable_always_approve :: "client_type \<Rightarrow> option_map \<Rightarrow> option_map" where
  "prepend_enable_always_approve c base =
     (if \<not> client_supports_enable_always_approve c then base
      else im_extend [enable_always_approve_option] base)"

definition edit_options :: option_map where
  "edit_options =
     [mk_option ALLOW_EDITS_SESSION_OPTION_ID ''Yes, allow all edits during this session'' AllowAlways,
      mk_option ''allow-once'' ''Yes'' AllowOnce,
      mk_option ''reject-once'' REJECT_ONCE_LABEL RejectOnce]"

definition bash_options :: option_map where
  "bash_options =
     [mk_option ''allow-once'' ''Yes, proceed'' AllowOnce,
      mk_option ''reject-once'' REJECT_ONCE_LABEL RejectOnce]"

definition generic_bash_options :: option_map where
  "generic_bash_options =
     [mk_option ''always-allow'' (''Yes, and don'' @ [squote] @ ''t ask again for bash commands'') AllowAlways,
      mk_option ''allow-once'' ''Yes, proceed'' AllowOnce,
      mk_option ''reject-once'' REJECT_ONCE_LABEL RejectOnce,
      mk_option ''reject-always'' (''No, and don'' @ [squote] @ ''t run bash commands'') RejectAlways]"

definition fallback_options :: option_map where
  "fallback_options =
     [mk_option ''always-allow'' ''always allow'' AllowAlways,
      mk_option ''allow-once'' ''allow once'' AllowOnce,
      mk_option ''reject-once'' ''reject once'' RejectOnce]"

definition REMEMBER_TOOL_APPROVALS_GATED_IDS :: "str list" where
  "REMEMBER_TOOL_APPROVALS_GATED_IDS =
     [''allow-always-command'', ''reject-always-command'', ''allow-always-mcp'',
      ''allow-always-domain'', ''always-allow'', ''reject-always'']"

definition bash_scope_option ::
    "str \<Rightarrow> str \<Rightarrow> permission_option_kind \<Rightarrow> bash_command_highlights \<Rightarrow> str \<times> permission_option" where
  "bash_scope_option i pre kind primary =
     (i, \<lparr>option_id = i, option_name = pre @ '' '' @ join '' '' (highlighted_words primary),
          option_kind = kind, option_meta = Some (JObj [(''prompt_prefix'', JStr pre)])\<rparr>)"

definition is_fancy_client :: "client_type \<Rightarrow> bool" where
  "is_fancy_client c = (c \<in> {GrokTUI, GrokPager, Desktop})"

subsection \<open>The prompter\<close>

datatype gateway_reply =
    GatewayError
  | ReplyCancelled
  | ReplySelected str "json option"
  | ReplyUnknown

record acp_prompter =
  prompter_client_type :: client_type
  remember_tool_approvals :: bool
  hub_permission :: "(json \<Rightarrow> str + json) option"
  gateway :: "option_map \<Rightarrow> json option \<Rightarrow> gateway_reply"

definition acp_prompter_new ::
    "(option_map \<Rightarrow> json option \<Rightarrow> gateway_reply) \<Rightarrow> client_type \<Rightarrow> acp_prompter" where
  "acp_prompter_new g c =
     \<lparr>prompter_client_type = c, remember_tool_approvals = False, hub_permission = None, gateway = g\<rparr>"

definition bash_options_for :: "externals \<Rightarrow> str \<Rightarrow> option_map" where
  "bash_options_for E cmd =
     (let primary_command = primary_command_from_script E cmd;
          m = (case primary_command of
                 Some p \<Rightarrow>
                   (let (i, o1) = bash_scope_option ''allow-always-command'' ''Always allow:'' AllowAlways p
                    in im_insert i o1 [])
               | None \<Rightarrow> []);
          m = im_extend m bash_options
      in case primary_command of
           Some p \<Rightarrow>
             (let (i, o2) = bash_scope_option ''reject-always-command'' ''Never allow:'' RejectAlways p
              in im_insert i o2 m)
         | None \<Rightarrow> m)"

definition domain_options :: "externals \<Rightarrow> str \<Rightarrow> option_map" where
  "domain_options E url =
     (let domain = (case domain_from_url E url of Some d \<Rightarrow> d | None \<Rightarrow> ''unknown domain'')
      in [mk_option ''allow-always-domain'' (''Yes, always allow '' @ domain @ '' this session'') AllowAlways,
          mk_option ''allow-once'' ''Yes, allow once'' AllowOnce,
          mk_option ''reject-once'' REJECT_ONCE_LABEL RejectOnce])"

definition mcp_options :: "str \<Rightarrow> option_map" where
  "mcp_options tool_name =
     (let server_prefix = map_option fst (split_once ''__'' tool_name);
          meta = JObj [(''prompt_prefix'', JStr ''Always allow:''), (''tool_name'', JStr tool_name),
                   (''server_prefix'', (case server_prefix of Some s \<Rightarrow> JStr s | None \<Rightarrow> JNull))]
      in [(''allow-always-mcp'',
             \<lparr>option_id = ''allow-always-mcp'', option_name = ''Always allow: '' @ tool_name,
              option_kind = AllowAlways, option_meta = Some meta\<rparr>),
          mk_option ''allow-once'' ''Yes'' AllowOnce,
          mk_option ''reject-once'' REJECT_ONCE_LABEL RejectOnce])"

definition build_options_inner :: "externals \<Rightarrow> acp_prompter \<Rightarrow> access_kind \<Rightarrow> option_map" where
  "build_options_inner E p access =
     (case access of
        access_kind.Edit _ \<Rightarrow> edit_options
      | access_kind.Bash cmd \<Rightarrow>
          if is_fancy_client (prompter_client_type p) then bash_options_for E cmd
          else generic_bash_options
      | access_kind.WebFetch url \<Rightarrow> domain_options E url
      | MCPTool tool_name _ \<Rightarrow>
          if is_fancy_client (prompter_client_type p) then mcp_options tool_name
          else fallback_options
      | _ \<Rightarrow> fallback_options)"

definition build_options :: "externals \<Rightarrow> acp_prompter \<Rightarrow> access_kind \<Rightarrow> option_map" where
  "build_options E p access =
     (let base = build_options_inner E p access;
          base = (if \<not> remember_tool_approvals p
                  then foldl (\<lambda>m i. shift_remove i m) base REMEMBER_TOOL_APPROVALS_GATED_IDS
                  else base)
      in prepend_enable_always_approve (prompter_client_type p) base)"

definition bash_selection_meta :: "externals \<Rightarrow> acp_prompter \<Rightarrow> access_kind \<Rightarrow> json option" where
  "bash_selection_meta E p access =
     (case access of
        access_kind.Bash cmd \<Rightarrow>
          if remember_tool_approvals p \<and> is_fancy_client (prompter_client_type p) then
            map_option (\<lambda>h. JObj [(''prefix'', JArr (map JStr (bch_prefix h))),
                (''highlighted_words'', JArr (map JStr (highlighted_words h))),
                (''suffix'', JArr (map JStr (bch_suffix h)))])
              (primary_command_from_script E cmd)
          else None
      | _ \<Rightarrow> None)"

subsection \<open>Outcomes\<close>

datatype prompt_outcome =
    AllowOnce
  | AllowAlways
  | AllowEditsForSession
  | AllowAlwaysBashCommand str
  | AllowAlwaysDomain str
  | AllowAlwaysMcpTool str
  | AllowAlwaysMcpServer str
  | RejectOnce
  | RejectAlwaysBashCommand str
  | Cancelled
  | FollowupMessage str
  | Error str

text \<open>The metas a client sends back, as \<open>serde\<close> reads them.\<close>

datatype mcp_scope_selection = ToolScope str | ServerScope str

definition read_mcp_scope :: "json \<Rightarrow> mcp_scope_selection option" where
  "read_mcp_scope m =
     (case Option.bind (json_get m ''kind'') json_as_str of
        Some k \<Rightarrow>
          if k = ''tool'' then map_option ToolScope (Option.bind (json_get m ''tool_name'') json_as_str)
          else if k = ''server'' then map_option ServerScope (Option.bind (json_get m ''server'') json_as_str)
          else None
      | None \<Rightarrow> None)"

fun json_str_list :: "json list \<Rightarrow> str list option" where
  "json_str_list [] = Some []"
| "json_str_list (JStr s # r) = map_option (Cons s) (json_str_list r)"
| "json_str_list (_ # r) = None"

definition read_selected_terms :: "json \<Rightarrow> str list option" where
  "read_selected_terms m =
     (case json_get m ''command_parts'' of Some (JArr xs) \<Rightarrow> json_str_list xs | _ \<Rightarrow> None)"

definition always_mcp_outcome :: "json option \<Rightarrow> access_kind \<Rightarrow> prompt_outcome" where
  "always_mcp_outcome meta access =
     (let by_access = (case access of MCPTool name _ \<Rightarrow> AllowAlwaysMcpTool name | _ \<Rightarrow> prompt_outcome.AllowAlways)
      in case Option.bind meta read_mcp_scope of
           Some (ToolScope tool_name) \<Rightarrow> AllowAlwaysMcpTool tool_name
         | Some (ServerScope server) \<Rightarrow> if server = [] then by_access else AllowAlwaysMcpServer server
         | None \<Rightarrow> by_access)"

definition always_domain_outcome :: "externals \<Rightarrow> access_kind \<Rightarrow> prompt_outcome" where
  "always_domain_outcome E access =
     (case access of
        access_kind.WebFetch url \<Rightarrow>
          (case domain_from_url E url of
             Some domain \<Rightarrow> if domain \<noteq> [] then AllowAlwaysDomain domain else prompt_outcome.AllowOnce
           | None \<Rightarrow> prompt_outcome.AllowOnce)
      | _ \<Rightarrow> prompt_outcome.AllowOnce)"

text \<open>The command a persistent bash row stands for: the terms selected, else the primary command.\<close>

definition selected_command :: "externals \<Rightarrow> json option \<Rightarrow> access_kind \<Rightarrow> str option" where
  "selected_command E meta access =
     (case Option.bind meta read_selected_terms of
        Some parts \<Rightarrow> Some (join '' '' parts)
      | None \<Rightarrow>
          (case access of
             access_kind.Bash cmd \<Rightarrow>
               map_option (\<lambda>h. join '' '' (highlighted_words h)) (primary_command_from_script E cmd)
           | _ \<Rightarrow> None))"

definition map_selected_outcome ::
    "externals \<Rightarrow> option_map \<Rightarrow> str \<Rightarrow> json option \<Rightarrow> access_kind \<Rightarrow> prompt_outcome" where
  "map_selected_outcome E options oid meta access =
     (case map_of options oid of
        None \<Rightarrow> Error ''unknown permission option''
      | Some opt \<Rightarrow>
          (case option_kind opt of
             permission_option_kind.AllowOnce \<Rightarrow> prompt_outcome.AllowOnce
           | permission_option_kind.AllowAlways \<Rightarrow>
               if oid = ENABLE_ALWAYS_APPROVE_OPTION_ID then prompt_outcome.AllowOnce
               else if oid = ''allow-always-mcp'' then always_mcp_outcome meta access
               else if oid = ''allow-always-domain'' then always_domain_outcome E access
               else if oid = ''allow-always-command'' then
                 (case selected_command E meta access of
                    Some c \<Rightarrow> AllowAlwaysBashCommand c | None \<Rightarrow> prompt_outcome.AllowAlways)
               else if oid = ALLOW_EDITS_SESSION_OPTION_ID then AllowEditsForSession
               else prompt_outcome.AllowAlways
           | permission_option_kind.RejectOnce \<Rightarrow>
               (case Option.bind (Option.bind meta (\<lambda>m. json_get m ''followup_message'')) json_as_str of
                  Some followup \<Rightarrow>
                    if trim followup \<noteq> [] then FollowupMessage followup else prompt_outcome.RejectOnce
                | None \<Rightarrow> prompt_outcome.RejectOnce)
           | RejectAlways \<Rightarrow>
               if oid = ''reject-always-command'' then
                 (case selected_command E meta access of
                    Some c \<Rightarrow> RejectAlwaysBashCommand c | None \<Rightarrow> prompt_outcome.RejectOnce)
               else prompt_outcome.RejectOnce))"

fun tool_name_for_access :: "access_kind \<Rightarrow> str" where
  "tool_name_for_access (access_kind.Read _) = ''read_file''"
| "tool_name_for_access (access_kind.Grep _ _) = ''grep''"
| "tool_name_for_access (access_kind.Edit _) = ''search_replace''"
| "tool_name_for_access (access_kind.Bash _) = ''run_terminal_command''"
| "tool_name_for_access (MCPTool name _) = ''mcp:'' @ name"
| "tool_name_for_access (access_kind.WebFetch _) = ''web_fetch''"
| "tool_name_for_access (access_kind.WebSearch _) = ''web_search''"
| "tool_name_for_access (BrowserAct _) = ''browser_action''"

datatype permission_decision = DecAllow | DecDeny | DecCancelled | DecFollowup

fun permission_decision_for_outcome :: "prompt_outcome \<Rightarrow> permission_decision" where
  "permission_decision_for_outcome prompt_outcome.AllowOnce = DecAllow"
| "permission_decision_for_outcome prompt_outcome.AllowAlways = DecAllow"
| "permission_decision_for_outcome AllowEditsForSession = DecAllow"
| "permission_decision_for_outcome (AllowAlwaysBashCommand _) = DecAllow"
| "permission_decision_for_outcome (AllowAlwaysDomain _) = DecAllow"
| "permission_decision_for_outcome (AllowAlwaysMcpTool _) = DecAllow"
| "permission_decision_for_outcome (AllowAlwaysMcpServer _) = DecAllow"
| "permission_decision_for_outcome prompt_outcome.RejectOnce = DecDeny"
| "permission_decision_for_outcome (RejectAlwaysBashCommand _) = DecDeny"
| "permission_decision_for_outcome (Error _) = DecDeny"
| "permission_decision_for_outcome prompt_outcome.Cancelled = DecCancelled"
| "permission_decision_for_outcome (prompt_outcome.FollowupMessage _) = DecFollowup"

subsection \<open>The hub\<close>

fun scope_for_access :: "access_kind \<Rightarrow> str" where
  "scope_for_access (access_kind.Bash _) = ''write''"
| "scope_for_access (access_kind.Edit _) = ''write''"
| "scope_for_access (MCPTool _ _) = ''write''"
| "scope_for_access (BrowserAct _) = ''write''"
| "scope_for_access (access_kind.Read _) = ''read''"
| "scope_for_access (access_kind.Grep _ _) = ''read''"
| "scope_for_access (access_kind.WebFetch _) = ''read''"
| "scope_for_access (access_kind.WebSearch _) = ''read''"

fun describe_access :: "access_kind \<Rightarrow> str" where
  "describe_access (access_kind.Bash _) = ''Run a terminal command''"
| "describe_access (access_kind.Edit path) = ''Edit '' @ path"
| "describe_access (MCPTool name _) = ''Run MCP tool '' @ name"
| "describe_access (access_kind.WebFetch url) = ''Fetch '' @ url"
| "describe_access (access_kind.WebSearch query) = ''Search the web for '' @ query"
| "describe_access (access_kind.Read _) = ''Read a file''"
| "describe_access (access_kind.Grep _ _) = ''Search file contents''"
| "describe_access (BrowserAct detail) = ''Browser '' @ detail"

definition build_permission_payload :: "access_kind \<Rightarrow> str \<Rightarrow> json" where
  "build_permission_payload access tool_call_id =
     JObj ([(''tool_call_id'', JStr tool_call_id), (''tool_name'', JStr (tool_name_for_access access)),
            (''description'', JStr (describe_access access)), (''scope'', JStr (scope_for_access access))]
           @ (case access of
                access_kind.Bash command \<Rightarrow> [(''bash_command'', JStr command)]
              | access_kind.Edit path \<Rightarrow> [(''edit_file_paths'', JArr [JStr path])]
              | _ \<Rightarrow> []))"

definition scope_kind_value :: "json \<Rightarrow> (str \<times> str option) option" where
  "scope_kind_value reply =
     (case json_get reply ''scope'' of
        None \<Rightarrow> None
      | Some scope \<Rightarrow>
          (case Option.bind (json_get scope ''kind'') json_as_str of
             None \<Rightarrow> None
           | Some kind \<Rightarrow> Some (kind, Option.bind (json_get scope ''value'') json_as_str)))"

definition reply_word :: "json \<Rightarrow> str" where
  "reply_word reply =
     (case json_get reply ''outcome'' of
        Some (JStr s) \<Rightarrow> s
      | Some (JNum n text) \<Rightarrow>
          if n = Some 1 then ''approve'' else if n = Some 2 then ''reject''
          else if n = Some 3 then ''always_approve'' else if n = Some 4 then ''always_reject'' else []
      | _ \<Rightarrow> [])"

definition reply_to_outcome :: "json \<Rightarrow> prompt_outcome" where
  "reply_to_outcome reply =
     (let word = reply_word reply in
      if word = ''approve'' then prompt_outcome.AllowOnce
      else if word = ''always_approve'' then
        (case scope_kind_value reply of
           Some (kind, Some value) \<Rightarrow>
             if kind = ''bash_command'' then AllowAlwaysBashCommand value
             else if kind = ''server_prefix'' then AllowAlwaysMcpServer value
             else if kind = ''domain'' then AllowAlwaysDomain value
             else prompt_outcome.AllowAlways
         | _ \<Rightarrow> prompt_outcome.AllowAlways)
      else if word = ''reject'' then
        (case Option.bind (json_get reply ''followup_message'') json_as_str of
           Some message \<Rightarrow> if message \<noteq> [] then FollowupMessage message else prompt_outcome.RejectOnce
         | None \<Rightarrow> prompt_outcome.RejectOnce)
      else if word = ''always_reject'' then
        (case scope_kind_value reply of
           Some (kind, Some value) \<Rightarrow>
             if kind = ''bash_command'' then RejectAlwaysBashCommand value else prompt_outcome.RejectOnce
         | _ \<Rightarrow> prompt_outcome.RejectOnce)
      else if word = ''cancelled'' then prompt_outcome.Cancelled
      else prompt_outcome.RejectOnce)"

definition request_permission_via_hub :: "(json \<Rightarrow> str + json) \<Rightarrow> access_kind \<Rightarrow> str \<Rightarrow> prompt_outcome" where
  "request_permission_via_hub transport access tool_call_id =
     (case transport (build_permission_payload access tool_call_id) of
        Inr reply \<Rightarrow>
          (let outcome = reply_to_outcome reply
           in case access of
                access_kind.Edit _ \<Rightarrow>
                  if outcome = prompt_outcome.AllowAlways then AllowEditsForSession else outcome
              | _ \<Rightarrow> outcome)
      | Inl e \<Rightarrow> Error (''hub permission request failed: '' @ e))"

definition str_field :: "json \<Rightarrow> str \<Rightarrow> str option" where
  "str_field args k = Option.bind (json_get args k) json_as_str"

text \<open>\<open>args.get(a).or_else(|| args.get(b)).and_then(as_str).unwrap_or(d)\<close>.\<close>

definition arg_str :: "json \<Rightarrow> str \<Rightarrow> str \<Rightarrow> str \<Rightarrow> str" where
  "arg_str args a b d =
     (case Option.bind (case json_get args a of Some v \<Rightarrow> Some v | None \<Rightarrow> json_get args b) json_as_str of
        Some s \<Rightarrow> s | None \<Rightarrow> d)"

definition access_kind_for_hub_tool :: "str \<Rightarrow> json \<Rightarrow> access_kind option" where
  "access_kind_for_hub_tool tool_name args =
     (let name0 = last (split_on CHR '':'' tool_name);
          name = (case strip_prefix name0 ''cf_tools:'' of Some n \<Rightarrow> n | None \<Rightarrow> name0);
          field = (\<lambda>k. case str_field args k of Some s \<Rightarrow> s | None \<Rightarrow> [])
      in if name \<in> {''run_terminal_command'', ''run_terminal_cmd'', ''bash'', ''shell''} then
           Some (access_kind.Bash (arg_str args ''command'' ''full_command'' []))
         else if name \<in> {''search_replace'', ''hashline_edit'', ''write'', ''write_file''} then
           Some (access_kind.Edit (arg_str args ''file_path'' ''path'' ''unknown''))
         else if name = ''apply_patch'' then Some (access_kind.Edit ''apply_patch'')
         else if name = ''web_fetch'' \<or> name = ''browser_navigate'' then
           Some (access_kind.WebFetch (field ''url''))
         else if name = ''browser_click'' then
           Some (BrowserAct (''click `'' @ field ''selector'' @ ''`''))
         else if name = ''browser_type'' then
           Some (BrowserAct (''type into `'' @ field ''selector'' @ ''`''))
         else if contains name ''__'' \<or> starts_with name ''mcp'' then Some (MCPTool tool_name args)
         else None)"

definition prompt_outcome_allows :: "prompt_outcome \<Rightarrow> bool" where
  "prompt_outcome_allows out =
     (case out of
        prompt_outcome.AllowOnce \<Rightarrow> True | prompt_outcome.AllowAlways \<Rightarrow> True
      | AllowEditsForSession \<Rightarrow> True | AllowAlwaysBashCommand _ \<Rightarrow> True | AllowAlwaysDomain _ \<Rightarrow> True
      | AllowAlwaysMcpTool _ \<Rightarrow> True | AllowAlwaysMcpServer _ \<Rightarrow> True | _ \<Rightarrow> False)"

subsection \<open>A request\<close>

definition request_locally :: "externals \<Rightarrow> acp_prompter \<Rightarrow> access_kind \<Rightarrow> prompt_outcome" where
  "request_locally E p access =
     (let options = build_options E p access in
      case gateway p options (bash_selection_meta E p access) of
        ReplyCancelled \<Rightarrow> prompt_outcome.Cancelled
      | ReplySelected oid meta \<Rightarrow> map_selected_outcome E options oid meta access
      | ReplyUnknown \<Rightarrow> Error ''unknown permission outcome''
      | GatewayError \<Rightarrow> Error ''failed to request permission'')"

text \<open>The outcome, and the two events the request writes (their wait time left out).\<close>

definition prompter_request ::
    "externals \<Rightarrow> acp_prompter \<Rightarrow> access_kind \<Rightarrow> str \<Rightarrow> prompt_outcome \<times> (str \<times> permission_decision option) list" where
  "prompter_request E p access tool_call_id =
     (let tool_name = tool_name_for_access access;
          outcome = (case hub_permission p of
                       Some transport \<Rightarrow> request_permission_via_hub transport access tool_call_id
                     | None \<Rightarrow> request_locally E p access)
      in (outcome, [(tool_name, None), (tool_name, Some (permission_decision_for_outcome outcome))]))"

subsection \<open>Lemmas: the options of a gated prompt\<close>

lemma set_im_insert: "set (im_insert k v m) \<subseteq> insert (k, v) (set m)"
proof (induction m)
  case Nil
  then show ?case by simp
next
  case (Cons e m)
  then show ?case by (cases e; cases "k = fst e") auto
qed

lemma set_im_extend: "set (im_extend m1 m2) \<subseteq> set m1 \<union> set m2"
  unfolding im_extend_def
proof (induction m2 arbitrary: m1)
  case Nil
  then show ?case by simp
next
  case (Cons kv m2)
  obtain k v where kv: "kv = (k, v)" by (cases kv)
  have "set (foldl (\<lambda>m (k, v). im_insert k v m) (im_insert k v m1) m2) \<subseteq> set (im_insert k v m1) \<union> set m2"
    by (rule Cons)
  also have "\<dots> \<subseteq> insert (k, v) (set m1) \<union> set m2"
    by (rule Un_mono[OF set_im_insert subset_refl])
  finally show ?case using kv by auto
qed

text \<open>The persistent kinds carry ids of the gated list, except the session-wide edit option.\<close>

definition gated_ids_only :: "option_map \<Rightarrow> bool" where
  "gated_ids_only m =
     (\<forall>(i, opt) \<in> set m.
        (option_kind opt = permission_option_kind.AllowAlways \<longrightarrow>
           i \<in> set REMEMBER_TOOL_APPROVALS_GATED_IDS \<or> i = ALLOW_EDITS_SESSION_OPTION_ID)
        \<and> (option_kind opt = RejectAlways \<longrightarrow> i \<in> set REMEMBER_TOOL_APPROVALS_GATED_IDS))"

lemma gated_ids_only_mono: "set m \<subseteq> set m1 \<union> set m2 \<Longrightarrow> gated_ids_only m1 \<Longrightarrow> gated_ids_only m2 \<Longrightarrow> gated_ids_only m"
  unfolding gated_ids_only_def by blast

lemma gated_static:
  "gated_ids_only edit_options" "gated_ids_only bash_options" "gated_ids_only generic_bash_options"
  "gated_ids_only fallback_options" "gated_ids_only (domain_options E url)" "gated_ids_only (mcp_options t)"
  "gated_ids_only []" "gated_ids_only [enable_always_approve_option]"
  by (simp_all add: gated_ids_only_def edit_options_def bash_options_def generic_bash_options_def
      fallback_options_def domain_options_def mcp_options_def mk_option_def enable_always_approve_option_def
      REMEMBER_TOOL_APPROVALS_GATED_IDS_def Let_def)

lemma gated_bash_options: "gated_ids_only (bash_options_for E cmd)"
proof (cases "primary_command_from_script E cmd")
  case None
  have "gated_ids_only (im_extend [] bash_options)"
    by (rule gated_ids_only_mono[OF set_im_extend gated_static(7,2)])
  with None show ?thesis by (simp add: bash_options_for_def)
next
  case (Some p)
  have one: "gated_ids_only [bash_scope_option ''allow-always-command'' ''Always allow:'' permission_option_kind.AllowAlways p]"
    "gated_ids_only [bash_scope_option ''reject-always-command'' ''Never allow:'' RejectAlways p]"
    by (simp_all add: gated_ids_only_def bash_scope_option_def REMEMBER_TOOL_APPROVALS_GATED_IDS_def)
  let ?m = "im_extend [bash_scope_option ''allow-always-command'' ''Always allow:'' permission_option_kind.AllowAlways p]
      bash_options"
  obtain i o2 where io: "bash_scope_option ''reject-always-command'' ''Never allow:'' RejectAlways p = (i, o2)"
    by (cases "bash_scope_option ''reject-always-command'' ''Never allow:'' RejectAlways p")
  have "gated_ids_only ?m" by (rule gated_ids_only_mono[OF set_im_extend one(1) gated_static(2)])
  moreover have "set (im_insert i o2 ?m) \<subseteq> set [(i, o2)] \<union> set ?m" using set_im_insert[of i o2 ?m] by simp
  ultimately have "gated_ids_only (im_insert i o2 ?m)"
    using gated_ids_only_mono one(2) io by metis
  then show ?thesis
    using Some io by (simp add: bash_options_for_def Let_def case_prod_beta)
qed

lemma gated_inner: "gated_ids_only (build_options_inner E p access)"
  by (cases access) (simp_all add: build_options_inner_def gated_static gated_bash_options)

lemma strip_gated:
  "set (foldl (\<lambda>m i. shift_remove i m) m ids) = {(i, opt) \<in> set m. i \<notin> set ids}"
  by (induction ids arbitrary: m) (auto simp: shift_remove_def)

lemma gated_options_kinds:
  assumes "\<not> remember_tool_approvals p" "map_of (build_options E p access) i = Some opt"
  shows "option_kind opt \<noteq> RejectAlways
    \<and> (option_kind opt = permission_option_kind.AllowAlways \<longrightarrow> i = ALLOW_EDITS_SESSION_OPTION_ID)"
proof -
  let ?b = "foldl (\<lambda>m i. shift_remove i m) (build_options_inner E p access) REMEMBER_TOOL_APPROVALS_GATED_IDS"
  have "(i, opt) \<in> set (build_options E p access)" using assms(2) by (rule map_of_SomeD)
  then have "(i, opt) \<in> set (prepend_enable_always_approve (prompter_client_type p) ?b)"
    using assms(1) by (simp add: build_options_def)
  then consider "(i, opt) = enable_always_approve_option" | "(i, opt) \<in> set ?b"
    using set_im_extend[of "[enable_always_approve_option]" ?b]
    by (auto simp: prepend_enable_always_approve_def split: if_splits)
  then show ?thesis
  proof cases
    case 1
    then show ?thesis by (simp add: enable_always_approve_option_def mk_option_def)
  next
    case 2
    then have "(i, opt) \<in> set (build_options_inner E p access)" "i \<notin> set REMEMBER_TOOL_APPROVALS_GATED_IDS"
      unfolding strip_gated by auto
    with gated_inner[of E p access] show ?thesis unfolding gated_ids_only_def by blast
  qed
qed

lemma edits_id: "ALLOW_EDITS_SESSION_OPTION_ID \<noteq> ENABLE_ALWAYS_APPROVE_OPTION_ID"
  "ALLOW_EDITS_SESSION_OPTION_ID \<notin> {''allow-always-mcp'', ''allow-always-domain'', ''allow-always-command''}"
  by (simp_all add: ALLOW_EDITS_SESSION_OPTION_ID_def ENABLE_ALWAYS_APPROVE_OPTION_ID_def)

lemma gated_outcome:
  assumes "\<not> remember_tool_approvals p"
  shows "map_selected_outcome E (build_options E p access) i meta access
    \<in> {prompt_outcome.AllowOnce, AllowEditsForSession, prompt_outcome.RejectOnce}
       \<union> range prompt_outcome.FollowupMessage \<union> range Error"
proof (cases "map_of (build_options E p access) i")
  case None
  then show ?thesis by (simp add: map_selected_outcome_def)
next
  case (Some opt)
  note k = gated_options_kinds[OF assms Some]
  show ?thesis
  proof (cases "option_kind opt")
    case AllowAlways
    with k have "i = ALLOW_EDITS_SESSION_OPTION_ID" by simp
    with AllowAlways Some edits_id show ?thesis by (simp add: map_selected_outcome_def)
  next
    case RejectAlways
    with k show ?thesis by simp
  next
    case AllowOnce
    with Some show ?thesis by (simp add: map_selected_outcome_def)
  next
    case RejectOnce
    with Some show ?thesis by (simp add: map_selected_outcome_def split: option.split)
  qed
qed

lemma gate_off_outcome:
  assumes "\<not> remember_tool_approvals p" "hub_permission p = None"
  shows "fst (prompter_request E p access tool_call_id)
     \<in> {prompt_outcome.AllowOnce, AllowEditsForSession, prompt_outcome.RejectOnce, prompt_outcome.Cancelled}
        \<union> range prompt_outcome.FollowupMessage \<union> range Error"
proof -
  have "request_locally E p access
      \<in> {prompt_outcome.AllowOnce, AllowEditsForSession, prompt_outcome.RejectOnce, prompt_outcome.Cancelled}
        \<union> range prompt_outcome.FollowupMessage \<union> range Error"
    using gated_outcome[OF assms(1), of E access]
    by (fastforce simp: request_locally_def Let_def split: gateway_reply.split)
  then show ?thesis using assms(2) unfolding prompter_request_def Let_def by simp
qed

subsection \<open>Properties\<close>

text \<open>With the remember-approvals gate off, as a prompter starts, no answer of any client leaves a
  persistent grant or refusal: the outcome is a single allow, the session-wide edit permission, a single
  reject, a follow-up, a cancellation or an error.\<close>

theorem gate_off_nothing_persists:
  "fst (prompter_request E (acp_prompter_new g c) access tool_call_id)
     \<in> {prompt_outcome.AllowOnce, AllowEditsForSession, prompt_outcome.RejectOnce, prompt_outcome.Cancelled}
        \<union> range prompt_outcome.FollowupMessage \<union> range Error"
  by (rule gate_off_outcome) (simp_all add: acp_prompter_new_def)

lemma selected_allows_iff:
  "prompt_outcome_allows (map_selected_outcome E options i meta access) \<longleftrightarrow>
     (\<exists>opt. map_of options i = Some opt
        \<and> option_kind opt \<in> {permission_option_kind.AllowOnce, permission_option_kind.AllowAlways})"
proof (cases "map_of options i")
  case None
  then show ?thesis by (simp add: map_selected_outcome_def prompt_outcome_allows_def)
next
  case (Some opt)
  have m: "prompt_outcome_allows (always_mcp_outcome meta access)"
    by (simp add: always_mcp_outcome_def prompt_outcome_allows_def
        split: option.split mcp_scope_selection.split access_kind.split)
  have d: "prompt_outcome_allows (always_domain_outcome E access)"
    by (simp add: always_domain_outcome_def prompt_outcome_allows_def split: option.split access_kind.split)
  show ?thesis
    using Some m d
    by (cases "option_kind opt")
      (simp_all add: map_selected_outcome_def prompt_outcome_allows_def split: option.split)
qed

text \<open>A prompt lets the call proceed exactly when the client selected an option that was offered and
  whose kind is allow; an unknown option, an error, a cancellation and an unknown reply never do. The
  decision event the request records is an allow exactly in that case.\<close>

theorem prompt_allows_iff_offered:
  "(prompt_outcome_allows (request_locally E p access) \<longleftrightarrow>
      (\<exists>i meta opt. gateway p (build_options E p access) (bash_selection_meta E p access) = ReplySelected i meta
         \<and> map_of (build_options E p access) i = Some opt
         \<and> option_kind opt \<in> {permission_option_kind.AllowOnce, permission_option_kind.AllowAlways}))
   \<and> (permission_decision_for_outcome out = DecAllow \<longleftrightarrow> prompt_outcome_allows out)"
proof -
  have "permission_decision_for_outcome out = DecAllow \<longleftrightarrow> prompt_outcome_allows out"
    by (cases out) (simp_all add: prompt_outcome_allows_def)
  moreover have "prompt_outcome_allows (request_locally E p access) \<longleftrightarrow>
      (\<exists>i meta opt. gateway p (build_options E p access) (bash_selection_meta E p access) = ReplySelected i meta
         \<and> map_of (build_options E p access) i = Some opt
         \<and> option_kind opt \<in> {permission_option_kind.AllowOnce, permission_option_kind.AllowAlways})"
    by (cases "gateway p (build_options E p access) (bash_selection_meta E p access)")
      (simp_all add: request_locally_def selected_allows_iff, simp_all add: prompt_outcome_allows_def)
  ultimately show ?thesis by blast
qed

lemma reply_allows_iff:
  "prompt_outcome_allows (reply_to_outcome reply) \<longleftrightarrow> reply_word reply \<in> {''approve'', ''always_approve''}"
  by (simp add: reply_to_outcome_def prompt_outcome_allows_def Let_def split: option.split prod.split)

text \<open>A decision over the hub fails closed: the call proceeds exactly when the transport returned a
  reply whose outcome is approve or always approve (as a word, or as the numbers 1 and 3); a transport error
  and any other reply do not let it proceed.\<close>

theorem hub_permission_fails_closed:
  "prompt_outcome_allows (request_permission_via_hub transport access tool_call_id) \<longleftrightarrow>
     (\<exists>reply. transport (build_permission_payload access tool_call_id) = Inr reply
        \<and> reply_word reply \<in> {''approve'', ''always_approve''})"
proof (cases "transport (build_permission_payload access tool_call_id)")
  case (Inl e)
  then show ?thesis by (simp add: request_permission_via_hub_def prompt_outcome_allows_def)
next
  case (Inr reply)
  have "prompt_outcome_allows (request_permission_via_hub transport access tool_call_id)
      = prompt_outcome_allows (reply_to_outcome reply)"
    using Inr by (cases access) (simp_all add: request_permission_via_hub_def prompt_outcome_allows_def Let_def)
  with Inr show ?thesis by (simp add: reply_allows_iff)
qed

text \<open>The hub's guard does not know every tool the local conversion guards: a call of \<open>monitor\<close>, which
  runs a shell command, and of \<open>deploy_skill\<close>, which writes under the skills directory, needs no permission
  over the hub, whatever its arguments, while the same inputs are a Bash and an Edit access locally.\<close>

theorem hub_guard_misses_monitor:
  "access_kind_for_hub_tool ''monitor'' args = None \<and> access_kind_for_hub_tool ''deploy_skill'' args = None
   \<and> access_kind_from (TI_Monitor cmd) = access_kind.Bash cmd
   \<and> access_kind_from (TI_DeploySkill n) = access_kind.Edit (''~/.qidi/skills/user-'' @ n)"
  by (simp add: access_kind_for_hub_tool_def strip_prefix_def Let_def)

text \<open>The generic option that promises not to run bash commands any more rejects the one call only:
  choosing \<open>reject-always\<close> is a single reject, and nothing is remembered.\<close>

theorem reject_always_is_single_reject:
  "map_selected_outcome E generic_bash_options ''reject-always'' meta access = prompt_outcome.RejectOnce"
  by (simp add: map_selected_outcome_def generic_bash_options_def mk_option_def)

end
