(* ===== verification/Example_Scripts.thy ===== *)
theory Example_Scripts
  imports Bash_Splitting
begin

section \<open>Concrete scripts\<close>

text \<open>
  Trees of concrete scripts as the bash grammar gives them, for the statements about a particular
  input. \<open>words_tree ws\<close> is the tree of one command of unquoted words separated by one blank, and
  \<open>words_externals\<close> an instance of the external functions whose parser returns that tree.
\<close>

fun word_nodes :: "nat \<Rightarrow> str list \<Rightarrow> ts_node list" where
  "word_nodes pos [] = []"
| "word_nodes pos (w # ws) =
     TsNode ''word'' True (Some ''argument'') pos (pos + length w) []
       # word_nodes (pos + length w + 1) ws"

fun command_node :: "str list \<Rightarrow> ts_node" where
  "command_node [] = TsNode ''command'' True None 0 0 []"
| "command_node (c # ws) =
     TsNode ''command'' True None 0 (length (join '' '' (c # ws)))
       (TsNode ''command_name'' True (Some ''name'') 0 (length c)
          [TsNode ''word'' True None 0 (length c) []]
        # word_nodes (length c + 1) ws)"

definition words_tree :: "str list \<Rightarrow> ts_tree" where
  "words_tree ws =
     \<lparr>ts_root = TsNode ''program'' True None 0 (length (join '' '' ws)) [command_node ws],
      ts_has_error = False\<rparr>"

definition words_externals :: externals where
  "words_externals = example_externals (\<lambda>s. Some (words_tree (split_on CHR '' '' s)))"

lemma word_nodes_words:
  assumes "drop pos src = join '' '' ws"
  shows "\<exists>s e. plain_command_children src (word_nodes pos ws) (vs, s0, e0) = Some (vs @ ws, s, e)"
  using assms
proof (induction ws arbitrary: pos vs s0 e0)
  case Nil
  then show ?case by simp
next
  case (Cons w ws)
  obtain r where r: "drop pos src = w @ r" "ws \<noteq> [] \<Longrightarrow> r = CHR '' '' # join '' '' ws"
    using Cons.prems by (cases ws) auto
  have cut: "slice src pos (pos + length w) = w" by (simp add: slice_def r(1))
  have "ws \<noteq> [] \<Longrightarrow> drop (pos + length w + 1) src = join '' '' ws"
    using r by (metis One_nat_def add.commute append_eq_conv_conj drop0 drop_Suc_Cons drop_drop plus_1_eq_Suc)
  then have "\<exists>s e. plain_command_children src (word_nodes (pos + length w + 1) ws)
      (vs @ [w], (if s0 = None then Some pos else s0), Some (pos + length w)) = Some (vs @ w # ws, s, e)"
    using Cons.IH[of "pos + length w + 1" "vs @ [w]"] by (cases "ws = []") auto
  then show ?case
    by (cases s0) (simp_all add: plain_command_child_def push_span_def utf8_text_def cut)
qed

lemma word_nodes_shape:
  "n \<in> set (word_nodes pos ws) \<Longrightarrow>
     ts_named n \<and> ts_kind n = ''word'' \<and> ts_children n = [] \<and> ts_dfs n = [n]"
  by (induction pos ws rule: word_nodes.induct) auto

lemma named_word_nodes: "filter ts_named (word_nodes pos ws) = word_nodes pos ws"
  by (induction pos ws rule: word_nodes.induct) simp_all

lemma command_node_words:
  assumes "ws \<noteq> []"
  shows "\<exists>c. parse_plain_command_from_node (command_node ws) (join '' '' ws) = Some c \<and> pc_words c = ws"
proof -
  obtain w rest where ws: "ws = w # rest" using assms by (cases ws) auto
  let ?src = "join '' '' ws"
  obtain r where r: "?src = w @ r" "rest \<noteq> [] \<Longrightarrow> r = CHR '' '' # join '' '' rest" "rest = [] \<Longrightarrow> r = []"
    unfolding ws by (cases rest) auto
  have cut: "slice ?src 0 (length w) = w" by (simp add: slice_def r(1))
  have "drop (length w + 1) ?src = join '' '' rest" using r by (cases "rest = []") simp_all
  from word_nodes_words[OF this, of "[w]" "Some 0" "Some (length w)"] obtain s e where
    "plain_command_children ?src (word_nodes (length w + 1) rest) ([w], Some 0, Some (length w))
       = Some (w # rest, s, e)" by auto
  then show ?thesis
    using cut unfolding ws
    by (simp add: parse_plain_command_from_node_def named_children_def named_word_nodes
        plain_command_child_def push_span_def utf8_text_def)
qed

lemma named_allowed: "ts_named n \<Longrightarrow> ts_kind n \<in> set ALLOWED_KINDS \<Longrightarrow> node_allowed n"
  by (simp add: node_allowed_def Let_def)

lemma words_command:
  "\<exists>c. all_commands_from_script words_externals s = Some [c] \<and> pc_words c = split_on CHR '' '' s"
proof -
  let ?ws = "split_on CHR '' '' s"
  let ?n = "command_node ?ws"
  obtain w rest where ws: "?ws = w # rest" by (metis neq_Nil_conv split_on_nonempty)
  obtain c where c: "parse_plain_command_from_node ?n s = Some c" "pc_words c = ?ws"
    using command_node_words[of ?ws] by (auto simp: join_split_on)
  have dfs: "ts_dfs (ts_root (words_tree ?ws)) = ts_root (words_tree ?ws) # ts_dfs ?n"
    by (simp add: words_tree_def)
  have words: "n \<in> set (ts_dfs ?n) \<Longrightarrow> n = ?n \<or> (ts_named n \<and> ts_kind n \<in> {''word'', ''command_name''})" for n
    unfolding ws using word_nodes_shape by auto
  have kind: "ts_named ?n \<and> ts_kind ?n = ''command''" by (simp add: ws)
  have "list_all node_allowed (ts_dfs (ts_root (words_tree ?ws)))"
  proof -
    have "ts_named n \<and> ts_kind n \<in> set ALLOWED_KINDS" if "n \<in> set (ts_dfs ?n)" for n
      using words[OF that] kind
      by (elim disjE conjE insertE emptyE) (simp_all add: ALLOWED_KINDS_def)
    then show ?thesis
      unfolding dfs by (simp add: list_all_iff named_allowed, simp add: named_allowed words_tree_def ALLOWED_KINDS_def)
  qed
  moreover have "filter (\<lambda>n. ts_named n \<and> ts_kind n = ''command'') (ts_dfs (ts_root (words_tree ?ws))) = [?n]"
  proof -
    obtain tl where tl: "ts_dfs ?n = ?n # tl" "\<forall>n \<in> set tl. ts_kind n \<in> {''word'', ''command_name''}"
      unfolding ws using word_nodes_shape by auto
    then have "filter (\<lambda>n. ts_named n \<and> ts_kind n = ''command'') tl = []"
      by (auto simp: filter_empty_conv)
    then show ?thesis unfolding dfs tl(1) using kind by (simp add: words_tree_def)
  qed
  ultimately have "try_parse_word_only_commands_sequence (words_tree ?ws) s = Some [c]"
    unfolding try_parse_word_only_commands_sequence_def ts_walk_dfs Let_def
    by (simp add: c(1)) (simp add: words_tree_def)
  with c(2) show ?thesis
    by (simp add: all_commands_from_script_def words_externals_def example_externals_def)
qed

end
