(* ===== verification/Perm_State.thy ===== *)
theory Perm_State
  imports Permission_Rules
begin

section \<open>Session state, YOLO and the evolution gate\<close>

text \<open>
  The persisted permission state (\<open>permission/state.rs\<close>), the YOLO mode of the command line
  (\<open>permission/yolo.rs\<close>) and the synthetic skill-deploy rules (\<open>permission/evolution.rs\<close>). A
  \<open>HashSet\<close> is a list without duplicates, to which an element is added at the end. A directory is
  a map from file names to contents; the TOML reader and writer and whether a write succeeds are
  the parameters of \<open>store\<close>.
\<close>

record permission_state =
  edit_policy_of :: edit_policy
  allow_bash_execute :: bool
  allowed_bash_commands :: "str list"
  disallowed_bash_commands :: "str list"
  allowed_web_fetch_domains :: "str list"
  allowed_mcp_tools :: "str list"
  allowed_mcp_servers :: "str list"

definition permission_state_default :: permission_state where
  "permission_state_default =
     \<lparr>edit_policy_of = edit_policy.Ask, allow_bash_execute = False, allowed_bash_commands = [],
      disallowed_bash_commands = [], allowed_web_fetch_domains = [], allowed_mcp_tools = [],
      allowed_mcp_servers = []\<rparr>"

definition hs_insert :: "'a \<Rightarrow> 'a list \<Rightarrow> 'a list" where
  "hs_insert x xs = (if x \<in> set xs then xs else xs @ [x])"

lemma set_hs_insert [simp]: "set (hs_insert x xs) = insert x (set xs)"
  by (auto simp: hs_insert_def)

subsection \<open>The state file\<close>

record store =
  toml_from_str :: "str \<Rightarrow> permission_state option"
  toml_to_string :: "permission_state \<Rightarrow> str option"
  write_succeeds :: "str \<Rightarrow> bool"

type_synonym directory = "str \<Rightarrow> str option"

definition sanitize_client_id :: "str \<Rightarrow> str" where
  "sanitize_client_id cid =
     map (\<lambda>c. if is_ascii_alphanumeric c \<or> c = CHR ''-'' \<or> c = CHR ''_'' then c else CHR ''_'')
       (filter starts_char cid)"

definition state_file_path :: "str option \<Rightarrow> str" where
  "state_file_path client_identifier =
     (case client_identifier of
        Some cid \<Rightarrow> ''permission_'' @ sanitize_client_id cid @ ''.toml''
      | None \<Rightarrow> ''permission.toml'')"

definition try_load_state :: "store \<Rightarrow> directory \<Rightarrow> str \<Rightarrow> permission_state option" where
  "try_load_state S dir path =
     (case dir path of
        Some s \<Rightarrow> Some (case toml_from_str S s of Some st \<Rightarrow> st | None \<Rightarrow> permission_state_default)
      | None \<Rightarrow> None)"

definition load_state_from_dir :: "store \<Rightarrow> directory \<Rightarrow> str option \<Rightarrow> permission_state" where
  "load_state_from_dir S dir client_identifier =
     (let shared = (case try_load_state S dir (state_file_path None) of
                      Some st \<Rightarrow> st | None \<Rightarrow> permission_state_default)
      in case client_identifier of
           Some cid \<Rightarrow>
             (case try_load_state S dir (state_file_path (Some cid)) of Some st \<Rightarrow> st | None \<Rightarrow> shared)
         | None \<Rightarrow> shared)"

definition persist_state_to_dir ::
    "store \<Rightarrow> directory \<Rightarrow> permission_state \<Rightarrow> str option \<Rightarrow> directory" where
  "persist_state_to_dir S dir st client_identifier =
     (let path = state_file_path client_identifier in
      case toml_to_string S st of
        Some s \<Rightarrow> if write_succeeds S path then dir(path \<mapsto> s) else dir
      | None \<Rightarrow> dir)"

subsection \<open>YOLO\<close>

record yolo_mode =
  yolo_enabled :: bool
  yolo_allowlist :: "str list option"

definition yolo_all :: yolo_mode where
  "yolo_all = \<lparr>yolo_enabled = True, yolo_allowlist = None\<rparr>"

definition yolo_with_allowlist :: "str list \<Rightarrow> yolo_mode" where
  "yolo_with_allowlist tools = \<lparr>yolo_enabled = True, yolo_allowlist = Some tools\<rparr>"

definition yolo_disabled :: yolo_mode where
  "yolo_disabled = \<lparr>yolo_enabled = False, yolo_allowlist = None\<rparr>"

definition auto_approves :: "yolo_mode \<Rightarrow> str \<Rightarrow> bool" where
  "auto_approves m tool_name =
     (if \<not> yolo_enabled m then False
      else (case yolo_allowlist m of None \<Rightarrow> True | Some tools \<Rightarrow> tool_name \<in> set tools))"

definition is_unrestricted :: "yolo_mode \<Rightarrow> bool" where
  "is_unrestricted m = (yolo_enabled m \<and> yolo_allowlist m = None)"

definition parse_yolo_arg :: "str \<Rightarrow> yolo_mode" where
  "parse_yolo_arg arg =
     (let trimmed = trim arg in
      if trimmed = [] \<or> eq_ignore_ascii_case trimmed ''true'' \<or> eq_ignore_ascii_case trimmed ''all''
      then yolo_all
      else yolo_with_allowlist (filter (\<lambda>s. s \<noteq> []) (map trim (split_on CHR '','' trimmed))))"

datatype startup_check_result = Ok | RefuseNoSandbox

definition yolo_startup_check :: "yolo_mode \<Rightarrow> bool \<Rightarrow> bool \<Rightarrow> startup_check_result" where
  "yolo_startup_check mode sandbox_active ack_no_sandbox =
     (if is_unrestricted mode \<and> \<not> sandbox_active \<and> \<not> ack_no_sandbox then RefuseNoSandbox else Ok)"

subsection \<open>The skill-deploy gate\<close>

definition TILDE_SKILLS_GLOB :: str where
  "TILDE_SKILLS_GLOB = ''~/.qidi/skills/**''"

definition evolution_enabled_for :: "str option \<Rightarrow> bool" where
  "evolution_enabled_for value =
     (case value of Some v \<Rightarrow> \<not> eq_ignore_ascii_case v ''off'' | None \<Rightarrow> True)"

definition ask_edit :: "str \<Rightarrow> permission_rule" where
  "ask_edit pattern =
     \<lparr>pr_action = rule_action.Ask, pr_tool = tool_filter.Edit, pr_pattern = Some pattern,
      pr_pattern_mode = Glob\<rparr>"

definition forward_slashed :: "str \<Rightarrow> str" where
  "forward_slashed path = map (\<lambda>c. if c = backslash then CHR ''/'' else c) path"

text \<open>\<open>home\<close> is \<open>cf_config::user_grok_home()\<close>, \<open>env_value\<close> the variable \<open>QIDI_EVOLUTION\<close>.\<close>

definition skill_deploy_gate_rules :: "externals \<Rightarrow> str option \<Rightarrow> permission_rule list" where
  "skill_deploy_gate_rules E home =
     ask_edit TILDE_SKILLS_GLOB #
       (case home of
          Some h \<Rightarrow>
            (let absolute = forward_slashed (fs_join E h ''skills'') @ ''/**''
             in if absolute \<noteq> TILDE_SKILLS_GLOB then [ask_edit absolute] else [])
        | None \<Rightarrow> [])"

definition session_skill_gate_rules :: "externals \<Rightarrow> str option \<Rightarrow> str option \<Rightarrow> permission_rule list" where
  "session_skill_gate_rules E env_value home =
     (if evolution_enabled_for env_value then skill_deploy_gate_rules E home else [])"

subsection \<open>Properties\<close>

text \<open>Loading returns what was persisted: after a successful write of a state the TOML reader reads
  back, the same client loads that state, and the file name it is stored under is one path segment
  of letters, digits, dashes, underscores and the dot of its extension.\<close>

theorem persist_load_roundtrip:
  assumes "toml_to_string S st = Some s" "toml_from_str S s = Some st"
    and "write_succeeds S (state_file_path cid)"
  shows "load_state_from_dir S (persist_state_to_dir S dir st cid) cid = st
    \<and> list_all (\<lambda>c. is_ascii_alphanumeric c \<or> c \<in> set ''-_.'') (state_file_path cid)"
proof -
  have "list_all (\<lambda>c. is_ascii_alphanumeric c \<or> c \<in> set ''-_.'') (sanitize_client_id i)" for i
    by (auto simp: sanitize_client_id_def list_all_iff)
  then have "list_all (\<lambda>c. is_ascii_alphanumeric c \<or> c \<in> set ''-_.'') (state_file_path cid)"
    by (simp add: state_file_path_def is_ascii_alphanumeric_def is_ascii_alphabetic_def split: option.split)
  moreover have "load_state_from_dir S (persist_state_to_dir S dir st cid) cid = st"
    using assms by (cases cid)
      (simp_all add: load_state_from_dir_def persist_state_to_dir_def try_load_state_def Let_def)
  ultimately show ?thesis by blast
qed

text \<open>A store whose writer writes the one word \<open>default\<close> for the default state.\<close>

definition word_store :: store where
  "word_store =
     \<lparr>toml_from_str = (\<lambda>s. if s = ''default'' then Some permission_state_default else None),
      toml_to_string = (\<lambda>st. if st = permission_state_default then Some ''default'' else None),
      write_succeeds = (\<lambda>_. True)\<rparr>"

theorem persist_load_roundtrip_witness:
  "load_state_from_dir word_store
     (persist_state_to_dir word_store Map.empty permission_state_default (Some ''a/b'')) (Some ''a/b'')
     = permission_state_default"
  using persist_load_roundtrip[of word_store permission_state_default "''default''" "Some ''a/b''" Map.empty]
  by (simp add: word_store_def)

text \<open>The YOLO argument approves every tool only when it is empty, \<open>true\<close> or \<open>all\<close>; any other argument
  approves exactly the trimmed, non-empty items of its comma-separated list. Start-up is refused exactly
  for the unrestricted argument without a sandbox and without the acknowledgement.\<close>

theorem parse_yolo_arg_approves:
  "let everything = (trim arg = [] \<or> eq_ignore_ascii_case (trim arg) ''true''
                      \<or> eq_ignore_ascii_case (trim arg) ''all'')
   in auto_approves (parse_yolo_arg arg) tool
        = (everything \<or> (tool \<noteq> [] \<and> tool \<in> trim ` set (split_on CHR '','' (trim arg))))
      \<and> (yolo_startup_check (parse_yolo_arg arg) sandbox ack = RefuseNoSandbox)
        = (everything \<and> \<not> sandbox \<and> \<not> ack)"
  by (auto simp: parse_yolo_arg_def yolo_all_def yolo_with_allowlist_def auto_approves_def Let_def
      yolo_startup_check_def is_unrestricted_def)

end
