(* ===== verification/Bash_Grants.thy ===== *)
theory Bash_Grants
  imports Example_Scripts Domain_Matcher Perm_State
begin

section \<open>Grants that need no prompt (\<open>permission/manager.rs\<close>, first part)\<close>

text \<open>
  What the manager may decide from the session's own state, before or instead of asking: the
  built-in safe, always-safe and dangerous command lists, the per-segment evaluation of a bash
  script, the scope of an "always allow" row, and the pre-decisions for bash, MCP tools, web
  fetches and edits. A \<open>HashSet\<close> is the list of its elements; \<open>find\<close> over one returns the first in
  iteration order, which only the text of a rejection shows.
\<close>

subsection \<open>MCP tools\<close>

definition mcp_server_prefix_allowed :: "str \<Rightarrow> str list \<Rightarrow> bool" where
  "mcp_server_prefix_allowed name servers =
     (if servers = [] then False
      else (case split_once ''__'' name of
              None \<Rightarrow> False
            | Some (server, _) \<Rightarrow> server \<noteq> [] \<and> server \<in> set servers))"

definition mcp_pre_decision :: "str \<Rightarrow> permission_state \<Rightarrow> bool \<Rightarrow> bool \<Rightarrow> decision option" where
  "mcp_pre_decision name st policy_forced_prompt remember =
     (if policy_forced_prompt \<and> \<not> remember then None
      else if name \<in> set (allowed_mcp_tools st) then Some decision.Allow
      else if mcp_server_prefix_allowed name (allowed_mcp_servers st) then Some decision.Allow
      else None)"

subsection \<open>Command lists\<close>

definition rg_has_pre_flag :: "str list \<Rightarrow> bool" where
  "rg_has_pre_flag words =
     (if nth_opt words 0 \<noteq> Some ''rg'' then False
      else list_ex (\<lambda>w. w = ''--pre'' \<or> starts_with w ''--pre='') words)"

definition matches_command_prefix :: "str \<Rightarrow> str \<Rightarrow> bool" where
  "matches_command_prefix cmd pattern =
     (cmd = pattern \<or> (starts_with cmd pattern \<and> nth_opt cmd (length pattern) = Some CHR '' ''))"

definition is_safe_command_words_str :: "str \<Rightarrow> bool" where
  "is_safe_command_words_str cmd =
     list_ex (matches_command_prefix cmd)
       [''ls'', ''cat'', ''pwd'', ''date'', ''git status'', ''git branch'', ''git log'', ''git diff'',
        ''git ls-files'', ''git show'', ''git rev-parse'', ''cargo check'', ''whoami'', ''hostname'',
        ''uptime'', ''grep'', ''rg'', ''kubectl get'', ''kubectl logs'', ''kubectl describe'', ''ps'',
        ''bin/explorer ls'', ''head'', ''tail'', ''wc'', ''sort'', ''uniq'', ''tr'', ''cut'']"

definition is_safe_command_words :: "str list \<Rightarrow> bool" where
  "is_safe_command_words words =
     (if words = [] then False
      else if rg_has_pre_flag words then False
      else is_safe_command_words_str (join '' '' words))"

definition ALWAYS_SAFE_COMMANDS :: "str list" where
  "ALWAYS_SAFE_COMMANDS =
     [''ls'', ''cat'', ''pwd'', ''date'', ''whoami'', ''hostname'', ''uptime'', ''ps'', ''git status'',
      ''git branch'', ''git log'', ''git diff'', ''git ls-files'', ''git show'', ''git rev-parse'',
      ''grep'', ''rg'', ''cargo check'', ''kubectl get'', ''kubectl logs'', ''kubectl describe'',
      ''bin/explorer ls'']"

definition is_always_safe_command_words :: "str list \<Rightarrow> bool" where
  "is_always_safe_command_words words =
     (if words = [] then False
      else if rg_has_pre_flag words then False
      else list_ex (matches_command_prefix (join '' '' words)) ALWAYS_SAFE_COMMANDS)"

fun scope_with_flags :: "str list \<Rightarrow> nat \<Rightarrow> nat" where
  "scope_with_flags [] n = n"
| "scope_with_flags (w # ws) n = (if starts_with w ''-'' then scope_with_flags ws (n + 1) else n)"

text \<open>\<open>scope_with_flags (drop n words) n\<close> is the loop that extends the scope over leading flags.\<close>

definition default_always_allow_scope :: "str list \<Rightarrow> nat" where
  "default_always_allow_scope words =
     (let n = min (length words) 2;
          extended = scope_with_flags (drop n words) n
      in if words = [] then 0
         else if is_safe_command_words words then
           (if is_safe_command_words_str (hd words) then 1
            else if 2 \<le> length words \<and> is_safe_command_words_str (join '' '' (take 2 words)) then 2
            else extended)
         else extended)"

definition is_dangerous_command_words :: "str list \<Rightarrow> bool" where
  "is_dangerous_command_words words =
     (if words = [] then False
      else (let joined = join '' '' words in
        list_ex (matches_command_prefix joined)
          [''rm'', ''chmod'', ''chown'', ''chgrp'', ''chattr'', ''pkill'', ''kill'', ''killall'',
           ''git push'', ''sudo'', ''su'', ''dd'', ''mkfs'', ''fdisk'', ''shutdown'', ''reboot'',
           ''halt'', ''poweroff'']
        \<or> list_ex (contains joined)
             [''| sh'', ''| bash'', ''|/bin/sh'', ''|/bin/bash'', ''| zsh'']
        \<or> (matches_command_prefix joined ''curl'' \<and> contains joined ''| sh'')
        \<or> (matches_command_prefix joined ''curl'' \<and> contains joined ''| bash'')
        \<or> (matches_command_prefix joined ''wget'' \<and> contains joined ''| sh'')
        \<or> (matches_command_prefix joined ''wget'' \<and> contains joined ''| bash'')))"

definition matches_whitelist_prefix :: "str \<Rightarrow> str \<Rightarrow> bool" where
  "matches_whitelist_prefix segment_str allowed_prefix =
     matches_command_prefix segment_str allowed_prefix"

subsection \<open>Evaluating a script segment by segment\<close>

datatype segment_evaluation =
    AutoAllow (via_session_grant: bool)
  | Reject str
  | NeedsPrompts (segments: "str list") (any_dangerous: bool)
  | Unparseable

definition previously_rejected :: "str \<Rightarrow> str" where
  "previously_rejected d = ''User previously rejected `'' @ d @ ''` for this session''"

text \<open>The loop over the commands' words; \<open>needs_prompt\<close>, \<open>dangerous\<close> and \<open>via\<close> are its variables.\<close>

fun segment_loop :: "permission_state \<Rightarrow> bool \<Rightarrow> str list list \<Rightarrow> str list \<Rightarrow> bool \<Rightarrow> bool
    \<Rightarrow> segment_evaluation" where
  "segment_loop st honor [] needs_prompt dangerous via =
     (if needs_prompt = [] then AutoAllow via else NeedsPrompts needs_prompt dangerous)"
| "segment_loop st honor (raw_words # rest) needs_prompt dangerous via =
     (let words = unwrap_wrappers raw_words in
      if is_setup_command words then segment_loop st honor rest needs_prompt dangerous via
      else
        (let s = join '' '' words in
         case find (\<lambda>d. matches_whitelist_prefix s d) (disallowed_bash_commands st) of
           Some d \<Rightarrow>
             segment_evaluation.Reject (previously_rejected d)
         | None \<Rightarrow>
             if is_dangerous_command_words words
             then segment_loop st honor rest (needs_prompt @ [s]) True via
             else
               (let matched_grant = list_ex (matches_whitelist_prefix s) (allowed_bash_commands st);
                    matched_safe = (honor \<and> (is_safe_command_words words
                                               \<or> is_always_safe_command_words words))
                in if matched_grant \<or> matched_safe
                   then segment_loop st honor rest needs_prompt dangerous (matched_grant \<or> via)
                   else segment_loop st honor rest (needs_prompt @ [s]) dangerous via)))"

definition evaluate_bash_segments_inner ::
    "externals \<Rightarrow> str \<Rightarrow> permission_state \<Rightarrow> bool \<Rightarrow> segment_evaluation" where
  "evaluate_bash_segments_inner E cmd st honor_safe_lists =
     (case all_commands_from_script E cmd of
        None \<Rightarrow> Unparseable
      | Some segs \<Rightarrow> segment_loop st honor_safe_lists (map pc_words segs) [] False False)"

definition evaluate_bash_segments ::
    "externals \<Rightarrow> str \<Rightarrow> permission_state \<Rightarrow> segment_evaluation" where
  "evaluate_bash_segments E cmd st = evaluate_bash_segments_inner E cmd st True"

subsection \<open>Pre-decisions\<close>

definition clamp_yolo :: "bool \<Rightarrow> str option \<Rightarrow> bool" where
  "clamp_yolo requested yolo_pin = (requested \<and> yolo_pin = None)"

definition auto_prompt_blocks_allow :: "access_kind \<Rightarrow> bool" where
  "auto_prompt_blocks_allow access = (case access of access_kind.Bash _ \<Rightarrow> False | _ \<Rightarrow> True)"

definition persisted_bash_auto_allows :: "permission_state \<Rightarrow> str \<Rightarrow> str option \<Rightarrow> bool" where
  "persisted_bash_auto_allows st cmd yolo_pin =
     ((allow_bash_execute st \<and> yolo_pin = None) \<or> cmd \<in> set (allowed_bash_commands st))"

record bash_grant_opts =
  honor_safe_lists :: bool
  allow_blanket :: bool
  conservative_blanket :: bool

definition PRE_CLASSIFIER :: bash_grant_opts where
  "PRE_CLASSIFIER =
     \<lparr>honor_safe_lists = True, allow_blanket = True, conservative_blanket = True\<rparr>"

definition ASK_FLOOR_REMEMBER :: bash_grant_opts where
  "ASK_FLOOR_REMEMBER =
     \<lparr>honor_safe_lists = False, allow_blanket = False, conservative_blanket = False\<rparr>"

definition post_classify :: "bool \<Rightarrow> bash_grant_opts" where
  "post_classify auto_forced_prompt =
     \<lparr>honor_safe_lists = True, allow_blanket = \<not> auto_forced_prompt, conservative_blanket = False\<rparr>"

definition grant_allow :: "str \<Rightarrow> (decision \<times> str) option" where
  "grant_allow reason = Some (decision.Allow, reason)"

definition bash_grant_pre_decision :: "externals \<Rightarrow> str \<Rightarrow> permission_state \<Rightarrow> str option
    \<Rightarrow> bash_grant_opts \<Rightarrow> (decision \<times> str) option" where
  "bash_grant_pre_decision E cmd st yolo_pin opts =
     (let eval = (if honor_safe_lists opts then evaluate_bash_segments E cmd st
                  else evaluate_bash_segments_inner E cmd st False)
      in case eval of
           segment_evaluation.Reject reason \<Rightarrow> Some (decision.Reject reason, ''session_deny'')
         | AutoAllow via \<Rightarrow> grant_allow (if via then ''session_grant'' else ''safe_command'')
         | NeedsPrompts _ dangerous \<Rightarrow>
             if \<not> allow_blanket opts then None
             else if dangerous \<and> conservative_blanket opts then None
             else if persisted_bash_auto_allows st cmd yolo_pin then grant_allow ''session_grant''
             else None
         | Unparseable \<Rightarrow>
             if \<not> allow_blanket opts then None
             else
               (let allowed = (if conservative_blanket opts then cmd \<in> set (allowed_bash_commands st)
                               else persisted_bash_auto_allows st cmd yolo_pin)
                in if allowed then grant_allow ''session_grant'' else None))"

text \<open>The two web-fetch lookups differ in the reason they give for a remembered domain.\<close>

definition web_fetch_pre_decision :: "externals \<Rightarrow> str \<Rightarrow> permission_state \<Rightarrow> domain_matcher \<Rightarrow> str
    \<Rightarrow> (decision \<times> str) option" where
  "web_fetch_pre_decision E url st static_domain_matcher grant_reason =
     (case url_parse E url of
        None \<Rightarrow> None
      | Some parsed_url \<Rightarrow>
          if check E static_domain_matcher parsed_url = None then grant_allow ''static_allowlist''
          else (case host_str parsed_url of
                  None \<Rightarrow> None
                | Some host \<Rightarrow>
                    if normalize_domain E host \<in> set (allowed_web_fetch_domains st)
                    then grant_allow grant_reason else None))"

definition session_grant_pre_decision :: "externals \<Rightarrow> access_kind \<Rightarrow> permission_state \<Rightarrow> bool
    \<Rightarrow> domain_matcher \<Rightarrow> str option \<Rightarrow> (decision \<times> str) option" where
  "session_grant_pre_decision E access st allow_edits_for_session static_domain_matcher yolo_pin =
     (case access of
        MCPTool name _ \<Rightarrow> map_option (\<lambda>d. (d, ''session_grant'')) (mcp_pre_decision name st False False)
      | access_kind.WebFetch url \<Rightarrow>
          web_fetch_pre_decision E url st static_domain_matcher ''session_grant''
      | access_kind.Edit _ \<Rightarrow> if allow_edits_for_session then grant_allow ''session_grant'' else None
      | access_kind.Bash cmd \<Rightarrow> bash_grant_pre_decision E cmd st yolo_pin PRE_CLASSIFIER
      | access_kind.Read _ \<Rightarrow> None
      | access_kind.Grep _ _ \<Rightarrow> None
      | access_kind.WebSearch _ \<Rightarrow> None
      | BrowserAct _ \<Rightarrow> None)"

subsection \<open>The loop as a reference definition\<close>

text \<open>
  One segment on its own: what rejects it, what clears it, whether a user grant covers it. The loop
  decides a script as \<open>segment_verdict\<close> does from these.
\<close>

definition rejected_by :: "permission_state \<Rightarrow> str list \<Rightarrow> str option" where
  "rejected_by st raw_words =
     (let words = unwrap_wrappers raw_words in
      if is_setup_command words then None
      else find (matches_whitelist_prefix (join '' '' words)) (disallowed_bash_commands st))"

definition user_granted :: "permission_state \<Rightarrow> str list \<Rightarrow> bool" where
  "user_granted st raw_words =
     (let words = unwrap_wrappers raw_words in
      \<not> is_setup_command words \<and> \<not> is_dangerous_command_words words
      \<and> list_ex (matches_whitelist_prefix (join '' '' words)) (allowed_bash_commands st))"

definition cleared :: "permission_state \<Rightarrow> bool \<Rightarrow> str list \<Rightarrow> bool" where
  "cleared st honor raw_words =
     (let words = unwrap_wrappers raw_words in
      is_setup_command words
      \<or> (\<not> is_dangerous_command_words words
          \<and> (user_granted st raw_words
              \<or> honor \<and> (is_safe_command_words words \<or> is_always_safe_command_words words))))"

definition dangerous_segment :: "str list \<Rightarrow> bool" where
  "dangerous_segment raw_words =
     (let words = unwrap_wrappers raw_words in
      \<not> is_setup_command words \<and> is_dangerous_command_words words)"

definition segment_verdict :: "permission_state \<Rightarrow> bool \<Rightarrow> str list list \<Rightarrow> segment_evaluation" where
  "segment_verdict st honor raws =
     (case List.map_filter (rejected_by st) raws of
        d # _ \<Rightarrow>
          segment_evaluation.Reject (previously_rejected d)
      | [] \<Rightarrow>
          (let pending = filter (\<lambda>r. \<not> cleared st honor r) raws
           in if pending = [] then AutoAllow (list_ex (user_granted st) raws)
              else NeedsPrompts (map (\<lambda>r. join '' '' (unwrap_wrappers r)) pending)
                     (list_ex dangerous_segment pending)))"

lemma segment_loop_verdict:
  "segment_loop st honor raws needs dang via =
     (case List.map_filter (rejected_by st) raws of
        d # _ \<Rightarrow>
          segment_evaluation.Reject (previously_rejected d)
      | [] \<Rightarrow>
          (let pending = filter (\<lambda>r. \<not> cleared st honor r) raws
           in if needs = [] \<and> pending = [] then AutoAllow (via \<or> list_ex (user_granted st) raws)
              else NeedsPrompts (needs @ map (\<lambda>r. join '' '' (unwrap_wrappers r)) pending)
                     (dang \<or> list_ex dangerous_segment pending)))"
proof (induction raws arbitrary: needs dang via)
  case Nil
  then show ?case by (simp add: List.map_filter_def)
next
  case (Cons raw raws)
  let ?w = "unwrap_wrappers raw"
  let ?s = "join '' '' ?w"
  consider (skipped) "is_setup_command ?w"
    | (reject) d where "\<not> is_setup_command ?w" "rejected_by st raw = Some d"
    | (other) "\<not> is_setup_command ?w" "rejected_by st raw = None"
    by (cases "rejected_by st raw") auto
  then show ?case
  proof cases
    case skipped
    then have facts: "rejected_by st raw = None" "\<not> user_granted st raw" "cleared st honor raw"
      by (simp_all add: rejected_by_def user_granted_def cleared_def)
    then show ?thesis using skipped by (simp add: Cons.IH List.map_filter_simps Let_def split: list.split)
  next
    case reject
    then show ?thesis by (simp add: List.map_filter_simps rejected_by_def)
  next
    case other
    then have f: "find (matches_whitelist_prefix ?s) (disallowed_bash_commands st) = None"
      by (simp add: rejected_by_def)
    let ?g = "list_ex (matches_whitelist_prefix ?s) (allowed_bash_commands st)"
    have facts: "user_granted st raw \<longleftrightarrow> \<not> is_dangerous_command_words ?w \<and> ?g"
      "dangerous_segment raw \<longleftrightarrow> is_dangerous_command_words ?w"
      "cleared st h raw \<longleftrightarrow> \<not> is_dangerous_command_words ?w
         \<and> (?g \<or> h \<and> (is_safe_command_words ?w \<or> is_always_safe_command_words ?w))" for h
      using other(1) by (auto simp: user_granted_def dangerous_segment_def cleared_def Let_def)
    show ?thesis
      using other by (auto simp: Let_def Cons.IH List.map_filter_simps f facts split: list.split)
  qed
qed

lemma evaluate_segments_verdict:
  "evaluate_bash_segments_inner E cmd st honor =
     (case all_commands_from_script E cmd of
        None \<Rightarrow> Unparseable
      | Some segs \<Rightarrow> segment_verdict st honor (map pc_words segs))"
  by (cases "all_commands_from_script E cmd")
    (simp_all add: evaluate_bash_segments_inner_def segment_loop_verdict segment_verdict_def Let_def
        split: list.split)

lemma map_filter_Nil_iff: "List.map_filter f xs = [] \<longleftrightarrow> list_all (\<lambda>x. f x = None) xs"
  by (induction xs) (auto simp: List.map_filter_simps split: option.splits)

lemma filter_Not_Nil_iff: "filter (\<lambda>x. \<not> P x) xs = [] \<longleftrightarrow> list_all P xs"
  by (induction xs) auto

lemma segment_verdict_AutoAllow_iff:
  "segment_verdict st honor raws = AutoAllow via \<longleftrightarrow>
     list_all (\<lambda>r. rejected_by st r = None \<and> cleared st honor r) raws
     \<and> via = list_ex (user_granted st) raws"
proof -
  have "list_all (\<lambda>r. rejected_by st r = None \<and> cleared st honor r) raws \<longleftrightarrow>
      List.map_filter (rejected_by st) raws = [] \<and> filter (\<lambda>r. \<not> cleared st honor r) raws = []"
    unfolding map_filter_Nil_iff filter_Not_Nil_iff by (auto simp: list_all_iff)
  then show ?thesis by (auto simp: segment_verdict_def Let_def split: list.split)
qed

lemma segment_verdict_not_Unparseable: "segment_verdict st honor raws \<noteq> Unparseable"
  by (auto simp: segment_verdict_def Let_def split: list.split)

lemma dangerous_not_cleared: "dangerous_segment r \<Longrightarrow> \<not> cleared st honor r"
  by (simp add: dangerous_segment_def cleared_def Let_def)

lemma segment_verdict_dangerous:
  assumes "r \<in> set raws" "dangerous_segment r"
  shows "(\<exists>d. segment_verdict st honor raws = segment_evaluation.Reject d)
     \<or> (\<exists>ps. segment_verdict st honor raws = NeedsPrompts ps True)"
proof -
  have "r \<in> set (filter (\<lambda>r. \<not> cleared st honor r) raws)"
    using assms dangerous_not_cleared by simp
  then have "filter (\<lambda>r. \<not> cleared st honor r) raws \<noteq> []"
    and "list_ex dangerous_segment (filter (\<lambda>r. \<not> cleared st honor r) raws)"
    using assms(2) unfolding list_ex_iff by (metis empty_iff list.set(1), blast)
  then show ?thesis by (auto simp: segment_verdict_def Let_def split: list.split)
qed

lemma evaluate_AutoAllow_iff:
  "evaluate_bash_segments_inner E cmd st honor = AutoAllow via \<longleftrightarrow>
     (\<exists>segs. all_commands_from_script E cmd = Some segs
        \<and> list_all (\<lambda>c. rejected_by st (pc_words c) = None \<and> cleared st honor (pc_words c)) segs
        \<and> via = list_ex (\<lambda>c. user_granted st (pc_words c)) segs)"
  by (cases "all_commands_from_script E cmd")
    (auto simp: evaluate_segments_verdict segment_verdict_AutoAllow_iff list_all_iff list_ex_iff)

subsection \<open>Properties\<close>

text \<open>C15: A script is auto-allowed exactly when it splits into plain commands and every command, after its
  wrappers are peeled, is a setup command or is neither dangerous nor under a rejected prefix and is covered
  by a user's grant or (where they are honoured) a built-in safe list. So no grant covers a dangerous
  segment, one uncovered segment suffices to prompt, and the answer is credited to the session only when a
  grant was used.\<close>

theorem auto_allow_clears_every_segment:
  "evaluate_bash_segments_inner E cmd st honor = AutoAllow via \<longleftrightarrow>
     (\<exists>segs. all_commands_from_script E cmd = Some segs
        \<and> list_all (\<lambda>c. rejected_by st (pc_words c) = None \<and> cleared st honor (pc_words c)) segs
        \<and> via = list_ex (\<lambda>c. user_granted st (pc_words c)) segs)"
  by (rule evaluate_AutoAllow_iff)

lemma honest_evaluation:
  "(if honor_safe_lists opts then evaluate_bash_segments E cmd st
    else evaluate_bash_segments_inner E cmd st False)
   = evaluate_bash_segments_inner E cmd st (honor_safe_lists opts)"
  by (simp add: evaluate_bash_segments_def)

lemma dangerous_never_granted:
  assumes "all_commands_from_script E cmd = Some segs" "list_ex (\<lambda>c. dangerous_segment (pc_words c)) segs"
    and "conservative_blanket opts \<or> \<not> allow_blanket opts"
  shows "bash_grant_pre_decision E cmd st yolo_pin opts \<noteq> Some (decision.Allow, reason)"
proof -
  obtain c where "c \<in> set segs" "dangerous_segment (pc_words c)"
    using assms(2) by (auto simp: list_ex_iff)
  then have "(\<exists>d. segment_verdict st h (map pc_words segs) = segment_evaluation.Reject d)
     \<or> (\<exists>ps. segment_verdict st h (map pc_words segs) = NeedsPrompts ps True)" for h
    by (intro segment_verdict_dangerous[of "pc_words c"]) auto
  from this[of "honor_safe_lists opts"] assms(3) show ?thesis
    unfolding bash_grant_pre_decision_def honest_evaluation
    unfolding evaluate_segments_verdict assms(1)
    by (auto simp: Let_def)
qed

text \<open>The conservative grant paths never run a dangerous command unasked: before the classifier, and
  under a managed ask floor, a script with a dangerous segment is never allowed, whatever the user granted -
  an exact grant of the whole script and the approve-all switch included.\<close>

theorem conservative_grants_never_allow_dangerous:
  assumes "all_commands_from_script E cmd = Some segs" "list_ex (\<lambda>c. dangerous_segment (pc_words c)) segs"
  shows "bash_grant_pre_decision E cmd st yolo_pin PRE_CLASSIFIER \<noteq> Some (decision.Allow, reason)
    \<and> bash_grant_pre_decision E cmd st yolo_pin ASK_FLOOR_REMEMBER \<noteq> Some (decision.Allow, reason)
    \<and> bash_grant_pre_decision E cmd st yolo_pin (post_classify True) \<noteq> Some (decision.Allow, reason)"
  using dangerous_never_granted[OF assms]
  by (simp add: PRE_CLASSIFIER_def ASK_FLOOR_REMEMBER_def post_classify_def)

text \<open>The words of \<open>rm a\<close>, on their own.\<close>

lemma words_split: "split_on CHR '' '' ''rm a'' = [''rm'', ''a'']"
  by simp

lemma plain_unwrap: "\<not> is_wrapper_command (w # ws) \<Longrightarrow> unwrap_wrappers (w # ws) = w # ws"
  by (rule unwrap_no_wrapper)

lemma rm_a_dangerous: "dangerous_segment [''rm'', ''a'']"
proof -
  have "unwrap_wrappers [''rm'', ''a''] = [''rm'', ''a'']"
    by (rule plain_unwrap) (simp add: is_wrapper_command_def last_path_seg_def)
  then show ?thesis
    by (simp add: dangerous_segment_def is_setup_command_def is_dangerous_command_words_def
        matches_command_prefix_def nth_opt_def)
qed

theorem conservative_grants_never_allow_dangerous_witness:
  "bash_grant_pre_decision words_externals ''rm a''
     (permission_state_default\<lparr>allow_bash_execute := True, allowed_bash_commands := [''rm a'', ''rm'']\<rparr>)
     None PRE_CLASSIFIER \<noteq> Some (decision.Allow, ''session_grant'')"
proof -
  obtain c where c: "all_commands_from_script words_externals ''rm a'' = Some [c]"
      "pc_words c = [''rm'', ''a'']"
    using words_command[of "''rm a''"] by auto
  then have "list_ex (\<lambda>c. dangerous_segment (pc_words c)) [c]" by (simp add: rm_a_dangerous)
  from conservative_grants_never_allow_dangerous[OF c(1) this] show ?thesis by blast
qed

lemma evaluate_ignores_approve_all:
  "evaluate_bash_segments_inner E cmd (st\<lparr>allow_bash_execute := b\<rparr>) honor
     = evaluate_bash_segments_inner E cmd st honor"
proof -
  have "rejected_by (st\<lparr>allow_bash_execute := b\<rparr>) = rejected_by st"
    by (rule ext) (simp add: rejected_by_def Let_def)
  moreover have "user_granted (st\<lparr>allow_bash_execute := b\<rparr>) = user_granted st"
    by (rule ext) (simp add: user_granted_def Let_def)
  ultimately have "segment_verdict (st\<lparr>allow_bash_execute := b\<rparr>) honor raws = segment_verdict st honor raws"
    for raws unfolding segment_verdict_def cleared_def by metis
  then show ?thesis unfolding evaluate_segments_verdict by metis
qed

text \<open>Under the managed pin the approve-all switch of the state file is inert: whatever value it has, every
  bash pre-decision is the one for the switch turned off, and a requested YOLO is clamped off.\<close>

theorem pin_clamps_approve_all:
  "bash_grant_pre_decision E cmd (st\<lparr>allow_bash_execute := b\<rparr>) (Some pin) opts
     = bash_grant_pre_decision E cmd (st\<lparr>allow_bash_execute := False\<rparr>) (Some pin) opts
   \<and> \<not> clamp_yolo requested (Some pin)"
  unfolding bash_grant_pre_decision_def honest_evaluation
  unfolding evaluate_ignores_approve_all
  by (simp add: persisted_bash_auto_allows_def clamp_yolo_def Let_def split: segment_evaluation.split)

subsection \<open>The scope of an always-allow row\<close>

lemma scope_with_flags_bounds: "n \<le> scope_with_flags ws n \<and> scope_with_flags ws n \<le> n + length ws"
proof (induction ws n rule: scope_with_flags.induct)
  case (2 w ws n)
  then show ?case by (cases "starts_with w ''-''") (auto dest: le_trans[rotated])
qed simp

lemma join_take_drop:
  assumes "0 < n" "n < length ws"
  shows "join sep ws = join sep (take n ws) @ sep @ join sep (drop n ws)"
  using assms
proof (induction ws arbitrary: n)
  case Nil
  then show ?case by simp
next
  case (Cons w ws)
  then obtain m where n: "n = Suc m" by (cases n) auto
  obtain v vs where ws: "ws = v # vs" using Cons.prems n by (cases ws) auto
  show ?case
  proof (cases m)
    case 0
    then show ?thesis by (simp add: n ws)
  next
    case (Suc k)
    then obtain t ts where t: "take m ws = t # ts" by (simp add: ws)
    have "join sep (w # ws) = w @ sep @ join sep ws" by (simp add: ws)
    also have "join sep ws = join sep (take m ws) @ sep @ join sep (drop m ws)"
      using Cons.IH[of m] Cons.prems by (simp add: n Suc)
    finally show ?thesis by (simp add: n t)
  qed
qed

lemma default_scope_bounds:
  assumes "words \<noteq> []"
  shows "1 \<le> default_always_allow_scope words \<and> default_always_allow_scope words \<le> length words"
proof -
  have "1 \<le> length words" using assms by (cases words) auto
  moreover define n where "n = min (length words) 2"
  ultimately have "1 \<le> n" "n \<le> length words" by auto
  moreover have "n \<le> scope_with_flags (drop n words) n"
      "scope_with_flags (drop n words) n \<le> n + length (drop n words)"
    using scope_with_flags_bounds[of n "drop n words"] by auto
  ultimately show ?thesis
    using assms by (auto simp: default_always_allow_scope_def Let_def n_def[symmetric])
qed

text \<open>The always-allow row a prompt offers by default covers the command it was offered for: the scope is
  at least one word and at most all of them, and the entry made of that many words matches the command, on
  a word boundary, so the same command is not asked about again.\<close>

theorem always_allow_scope_covers_command:
  assumes "words \<noteq> []"
  shows "1 \<le> default_always_allow_scope words \<and> default_always_allow_scope words \<le> length words
    \<and> matches_whitelist_prefix (join '' '' words)
        (join '' '' (take (default_always_allow_scope words) words))"
proof -
  let ?n = "default_always_allow_scope words"
  have n: "1 \<le> ?n" "?n \<le> length words" using default_scope_bounds[OF assms] by auto
  have "matches_whitelist_prefix (join '' '' words) (join '' '' (take ?n words))"
  proof (cases "?n = length words")
    case True
    then show ?thesis by (simp add: matches_whitelist_prefix_def matches_command_prefix_def)
  next
    case False
    with n have "join '' '' words = join '' '' (take ?n words) @ '' '' @ join '' '' (drop ?n words)"
      by (intro join_take_drop) auto
    then show ?thesis
      by (simp add: matches_whitelist_prefix_def matches_command_prefix_def nth_opt_def nth_append)
  qed
  with n show ?thesis by simp
qed

theorem always_allow_scope_covers_command_witness:
  "default_always_allow_scope [''cargo'', ''run'', ''--bin'', ''x''] = 3
   \<and> matches_whitelist_prefix ''cargo run --bin x'' ''cargo run --bin''"
proof -
  have "default_always_allow_scope [''cargo'', ''run'', ''--bin'', ''x''] = 3"
    by (simp add: default_always_allow_scope_def is_safe_command_words_def rg_has_pre_flag_def nth_opt_def
        is_safe_command_words_str_def matches_command_prefix_def)
  with always_allow_scope_covers_command[of "[''cargo'', ''run'', ''--bin'', ''x'']"] show ?thesis
    by simp
qed

end
