(* ===== verification/Permission_Manager.thy ===== *)
theory Permission_Manager
  imports Shell_Access Auto_Mode Prompter Bash_Grants
begin

section \<open>The permission manager (\<open>permission/manager.rs\<close>, the actor)\<close>

text \<open>
  The actor that owns a session's permission state and answers its requests one at a time. What is
  fixed when it is spawned is the record \<open>manager_env\<close>; what its loop updates is the record
  \<open>actor\<close>; what it reads of the outside at each command - the external functions, whether the sandbox
  vouches for bash, the client's and the hub's answers, the number of requests in flight - is the
  record \<open>world\<close>, which may differ from one command to the next. A request is decided by the stages
  of the handler in the code's order: each stage that settles it is the code's
  \<open>emit_event; respond_to.send; continue\<close>, a \<open>resolution\<close>; the last stage prompts.
  Timestamps and wait times are left out of the event; logging and metrics are not modelled. The reasons
  are the strings of \<open>mod reasons\<close>.
\<close>

subsection \<open>State\<close>

record world =
  w_ext :: externals
  w_sandbox_auto_allow_bash :: bool
  w_gateway :: "option_map \<Rightarrow> json option \<Rightarrow> gateway_reply"
  w_hub :: "json \<Rightarrow> str + json"
  w_in_flight :: nat

record manager_env =
  me_policy :: compiled_policy
  me_prompt_policy :: prompt_policy
  me_domains :: domain_matcher
  me_cwd :: str
  me_client_type :: client_type
  me_client_id :: "str option"
  me_remember :: bool
  me_yolo_pin :: "str option"
  me_hub :: bool
  me_store :: store

record actor =
  ac_state :: permission_state
  ac_disk :: directory
  ac_yolo :: bool
  ac_yolo_allowlist :: "str list option"
  ac_auto :: bool
  ac_classifier :: "permission_classifier option"
  ac_turns :: "classifier_turn list"
  ac_instructions :: "str option"
  ac_pin_refusal_logged :: bool
  ac_allow_edits :: bool

record permission_request =
  rq_access :: access_kind
  rq_tool_call_id :: str
  rq_session_id :: "str option"
  rq_subagent_type :: "str option"
  rq_subagent_description :: "str option"

record permission_event =
  pe_tool_id :: str
  pe_tool_name :: str
  pe_access_kind :: str
  pe_access_detail :: "str option"
  pe_yolo_mode :: bool
  pe_auto_approved :: bool
  pe_user_prompted :: bool
  pe_decision :: str
  pe_prompt_outcome :: "str option"
  pe_reject_reason :: "str option"
  pe_subagent_session_id :: "str option"
  pe_subagent_type :: "str option"
  pe_subagent_description :: "str option"
  pe_permission_mode :: "str option"
  pe_decision_reason :: "str option"
  pe_queue_depth :: "nat option"

definition prompter_of :: "manager_env \<Rightarrow> world \<Rightarrow> acp_prompter" where
  "prompter_of env w =
     (acp_prompter_new (w_gateway w) (me_client_type env))
       \<lparr>hub_permission := (if me_hub env then Some (w_hub w) else None),
        remember_tool_approvals := me_remember env\<rparr>"

definition persist :: "manager_env \<Rightarrow> actor \<Rightarrow> actor" where
  "persist env a =
     a\<lparr>ac_disk := persist_state_to_dir (me_store env) (ac_disk a) (ac_state a) (me_client_id env)\<rparr>"

subsection \<open>Labels and the event\<close>

definition permission_mode_str :: "actor \<Rightarrow> str" where
  "permission_mode_str a =
     (if ac_yolo a then ''always-approve'' else if ac_auto a then ''auto'' else ''ask'')"

fun access_labels :: "externals \<Rightarrow> access_kind \<Rightarrow> str \<times> str option" where
  "access_labels E (access_kind.Read _) = (''read'', None)"
| "access_labels E (access_kind.Grep path _) = (''grep'', path)"
| "access_labels E (access_kind.Edit path) = (''edit'', Some path)"
| "access_labels E (access_kind.Bash cmd) = (''bash'', Some cmd)"
| "access_labels E (MCPTool name input) = (''mcp'', Some (mcp_access_detail E name input))"
| "access_labels E (access_kind.WebFetch url) = (''web_fetch'', Some url)"
| "access_labels E (access_kind.WebSearch query) = (''web_search'', Some query)"
| "access_labels E (BrowserAct detail) = (''browser_act'', Some detail)"

fun decision_label :: "decision \<Rightarrow> str \<times> str option" where
  "decision_label decision.Allow = (''allow'', None)"
| "decision_label decision.Ask = (''ask'', None)"
| "decision_label (decision.Reject reason) = (''reject'', Some reason)"
| "decision_label (PolicyDeny reason) = (''reject'', Some reason)"
| "decision_label (decision.FollowupMessage _) = (''followup'', None)"
| "decision_label decision.Cancelled = (''cancelled'', None)"

record resolution =
  rs_decision :: decision
  rs_auto_approved :: bool
  rs_user_prompted :: bool
  rs_prompt_outcome :: "str option"
  rs_reason :: str

definition automatic :: "decision \<Rightarrow> str \<Rightarrow> resolution" where
  "automatic d reason =
     \<lparr>rs_decision = d, rs_auto_approved = True, rs_user_prompted = False, rs_prompt_outcome = None,
      rs_reason = reason\<rparr>"

definition denied :: "decision \<Rightarrow> str \<Rightarrow> resolution" where
  "denied d reason =
     \<lparr>rs_decision = d, rs_auto_approved = False, rs_user_prompted = False, rs_prompt_outcome = None,
      rs_reason = reason\<rparr>"

definition emit_event :: "world \<Rightarrow> actor \<Rightarrow> permission_request \<Rightarrow> resolution \<Rightarrow> permission_event" where
  "emit_event w a rq r =
     (let labels = access_labels (w_ext w) (rq_access rq); dl = decision_label (rs_decision r)
      in \<lparr>pe_tool_id = rq_tool_call_id rq, pe_tool_name = tool_name_for_access (rq_access rq),
          pe_access_kind = fst labels, pe_access_detail = snd labels, pe_yolo_mode = ac_yolo a,
          pe_auto_approved = rs_auto_approved r, pe_user_prompted = rs_user_prompted r,
          pe_decision = fst dl, pe_prompt_outcome = rs_prompt_outcome r, pe_reject_reason = snd dl,
          pe_subagent_session_id = rq_session_id rq, pe_subagent_type = rq_subagent_type rq,
          pe_subagent_description = rq_subagent_description rq,
          pe_permission_mode = Some (permission_mode_str a),
          pe_decision_reason = Some (rs_reason r), pe_queue_depth = Some (w_in_flight w)\<rparr>)"

subsection \<open>The stages of a request\<close>

record policy_view =
  pv_decision :: "decision option"
  pv_shell_file_forced :: bool
  pv_shell_forced :: bool
  pv_policy_forced :: bool

definition view_policy :: "externals \<Rightarrow> manager_env \<Rightarrow> access_kind \<Rightarrow> policy_view" where
  "view_policy E env access =
     (let direct_decision = evaluate E (me_policy env) access;
          shell_command_decision =
            (case access of
               access_kind.Bash cmd \<Rightarrow> evaluate_bash_command_policy E (me_policy env) cmd
             | _ \<Rightarrow> None);
          shell_file_decision =
            (case access of
               access_kind.Bash cmd \<Rightarrow> evaluate_shell_file_access E (me_policy env) cmd (me_cwd env)
             | _ \<Rightarrow> None);
          shell_file_forced_prompt = (shell_file_decision = Some decision.Ask);
          policy_decision =
            combine_decisions (combine_decisions direct_decision shell_command_decision)
              shell_file_decision
      in \<lparr>pv_decision = policy_decision,
          pv_shell_file_forced = shell_file_forced_prompt,
          pv_shell_forced = (shell_file_forced_prompt \<or> shell_command_decision = Some decision.Ask),
          pv_policy_forced = (policy_decision = Some decision.Ask)\<rparr>)"

definition policy_deny_stage :: "policy_view \<Rightarrow> resolution option" where
  "policy_deny_stage pv =
     (case pv_decision pv of
        Some (decision.Reject reason) \<Rightarrow> Some (denied (PolicyDeny reason) ''policy_deny'')
      | _ \<Rightarrow> None)"

definition yolo_auto_approves :: "actor \<Rightarrow> str \<Rightarrow> bool" where
  "yolo_auto_approves a tool_name =
     (ac_yolo a
      \<and> (case ac_yolo_allowlist a of None \<Rightarrow> True | Some tools \<Rightarrow> tool_name \<in> set tools))"

definition yolo_stage :: "actor \<Rightarrow> str \<Rightarrow> policy_view \<Rightarrow> resolution option" where
  "yolo_stage a tool_name pv =
     (if yolo_auto_approves a tool_name \<and> \<not> pv_shell_forced pv
      then Some (automatic decision.Allow ''yolo'') else None)"

definition session_grant_stage ::
    "externals \<Rightarrow> manager_env \<Rightarrow> actor \<Rightarrow> access_kind \<Rightarrow> policy_view \<Rightarrow> resolution option" where
  "session_grant_stage E env a access pv =
     (if \<not> pv_policy_forced pv \<and> \<not> pv_shell_forced pv then
        map_option (\<lambda>(d, reason). automatic d reason)
          (session_grant_pre_decision E access (ac_state a) (ac_allow_edits a) (me_domains env)
             (me_yolo_pin env))
      else None)"

text \<open>The auto stage: the resolution, or the reason for which it forces a prompt.\<close>

datatype auto_stage_outcome = AutoResolved resolution | AutoForcesPrompt str | AutoInactive

definition auto_stage ::
    "externals \<Rightarrow> actor \<Rightarrow> access_kind \<Rightarrow> policy_view \<Rightarrow> auto_stage_outcome" where
  "auto_stage E a access pv =
     (let tool_name = tool_name_for_access access in
      if ac_auto a \<and> \<not> pv_policy_forced pv \<and> \<not> pv_shell_forced pv then
        (let needs_user = access_requires_user_interaction tool_name access in
         case auto_mode_fast_path access tool_name needs_user of
           auto_fast_path.Allow \<Rightarrow> AutoResolved (automatic decision.Allow ''auto_fast_path'')
         | PromptUser \<Rightarrow> AutoForcesPrompt ''needs_user''
         | Classify \<Rightarrow>
             (let verdict =
                    (case ac_classifier a of
                       Some clf \<Rightarrow>
                         clf tool_name access (snd (access_labels E access))
                           \<lparr>cc_turns = ac_turns a, project_instructions = ac_instructions a\<rparr>
                     | None \<Rightarrow> Unavailable)
              in case verdict of
                   classifier_verdict.Allow \<Rightarrow>
                     AutoResolved (automatic decision.Allow ''auto_classifier_allow'')
                 | Block \<Rightarrow> AutoForcesPrompt ''auto_classifier_block''
                 | Unavailable \<Rightarrow> AutoForcesPrompt ''auto_classifier_block''))
      else AutoInactive)"

definition sandbox_stage :: "world \<Rightarrow> access_kind \<Rightarrow> policy_view \<Rightarrow> bool \<Rightarrow> resolution option" where
  "sandbox_stage w access pv auto_forced_prompt =
     (if (case access of access_kind.Bash _ \<Rightarrow> True | _ \<Rightarrow> False)
         \<and> w_sandbox_auto_allow_bash w \<and> \<not> pv_policy_forced pv \<and> \<not> auto_forced_prompt
      then Some (automatic decision.Allow ''sandbox_auto'') else None)"

definition policy_allow_stage :: "policy_view \<Rightarrow> resolution option" where
  "policy_allow_stage pv =
     (case pv_decision pv of
        Some decision.Ask \<Rightarrow> None
      | Some d \<Rightarrow> Some (automatic d ''policy_allow'')
      | None \<Rightarrow> None)"

definition pre_decision :: "externals \<Rightarrow> manager_env \<Rightarrow> actor \<Rightarrow> access_kind \<Rightarrow> policy_view \<Rightarrow> bool
    \<Rightarrow> (decision \<times> str) option" where
  "pre_decision E env a access pv auto_forced_prompt =
     (case access of
        access_kind.Read _ \<Rightarrow>
          if pv_policy_forced pv then None else Some (decision.Allow, ''safe_command'')
      | access_kind.Grep _ _ \<Rightarrow>
          if pv_policy_forced pv then None else Some (decision.Allow, ''safe_command'')
      | access_kind.WebSearch _ \<Rightarrow> Some (decision.Allow, ''safe_command'')
      | BrowserAct _ \<Rightarrow> None
      | MCPTool name _ \<Rightarrow>
          map_option (\<lambda>d. (d, ''persisted_grant''))
            (mcp_pre_decision name (ac_state a) (pv_policy_forced pv) (me_remember env))
      | access_kind.Edit _ \<Rightarrow>
          if pv_policy_forced pv then None
          else if ac_allow_edits a then Some (decision.Allow, ''persisted_grant'')
          else (case edit_policy_of (ac_state a) of
                  edit_policy.Reject \<Rightarrow>
                    Some (decision.Reject ''edits prohibited'', ''session_deny'')
                | edit_policy.Ask \<Rightarrow> None
                | edit_policy.Allow \<Rightarrow> None)
      | access_kind.Bash cmd \<Rightarrow>
          if pv_policy_forced pv then
            (if me_remember env \<and> \<not> auto_forced_prompt \<and> \<not> pv_shell_file_forced pv
             then bash_grant_pre_decision E cmd (ac_state a) (me_yolo_pin env) ASK_FLOOR_REMEMBER
             else None)
          else
            bash_grant_pre_decision E cmd (ac_state a) (me_yolo_pin env)
              (post_classify auto_forced_prompt)
      | access_kind.WebFetch url \<Rightarrow>
          web_fetch_pre_decision E url (ac_state a) (me_domains env) ''persisted_grant'')"

definition pre_decision_stage :: "externals \<Rightarrow> manager_env \<Rightarrow> actor \<Rightarrow> access_kind \<Rightarrow> policy_view \<Rightarrow> bool
    \<Rightarrow> resolution option" where
  "pre_decision_stage E env a access pv auto_forced_prompt =
     (case pre_decision E env a access pv auto_forced_prompt of
        None \<Rightarrow> None
      | Some (d, reason) \<Rightarrow>
          if auto_forced_prompt \<and> auto_prompt_blocks_allow access \<and> d = decision.Allow then None
          else Some (automatic d reason))"

definition prompt_policy_stage :: "manager_env \<Rightarrow> resolution option" where
  "prompt_policy_stage env =
     (if me_prompt_policy env = prompt_policy.Deny
      then Some (denied (PolicyDeny ''denied by prompt policy (tool not pre-approved)'') ''prompt_deny'')
      else None)"

definition prompt_trigger :: "policy_view \<Rightarrow> str option \<Rightarrow> str" where
  "prompt_trigger pv auto_prompt_reason =
     (if pv_policy_forced pv \<or> pv_shell_forced pv then ''policy_ask''
      else (case auto_prompt_reason of Some r \<Rightarrow> r | None \<Rightarrow> ''needs_user''))"

text \<open>The stages in order: the resolution of the first that settles the request, else the trigger of the prompt.\<close>

definition settle_or_prompt ::
    "world \<Rightarrow> manager_env \<Rightarrow> actor \<Rightarrow> access_kind \<Rightarrow> resolution + str" where
  "settle_or_prompt w env a access =
     (let E = w_ext w; pv = view_policy E env access in
      case or_else (policy_deny_stage pv)
             (or_else (yolo_stage a (tool_name_for_access access) pv)
                (session_grant_stage E env a access pv)) of
        Some r \<Rightarrow> Inl r
      | None \<Rightarrow>
          (case auto_stage E a access pv of
             AutoResolved r \<Rightarrow> Inl r
           | outcome \<Rightarrow>
               (let auto_prompt_reason = (case outcome of AutoForcesPrompt r \<Rightarrow> Some r | _ \<Rightarrow> None);
                    auto_forced_prompt = (auto_prompt_reason \<noteq> None)
                in case or_else (sandbox_stage w access pv auto_forced_prompt)
                          (or_else (policy_allow_stage pv)
                             (or_else (pre_decision_stage E env a access pv auto_forced_prompt)
                                (prompt_policy_stage env))) of
                     Some r \<Rightarrow> Inl r
                   | None \<Rightarrow> Inr (prompt_trigger pv auto_prompt_reason))))"

subsection \<open>The answer of a prompt\<close>

definition update_state :: "manager_env \<Rightarrow> (permission_state \<Rightarrow> permission_state) \<Rightarrow> actor \<Rightarrow> actor" where
  "update_state env f a = persist env (a\<lparr>ac_state := f (ac_state a)\<rparr>)"

definition grant_bash :: "str \<Rightarrow> permission_state \<Rightarrow> permission_state" where
  "grant_bash entry st = st\<lparr>allowed_bash_commands := hs_insert entry (allowed_bash_commands st)\<rparr>"

definition reject_bash :: "str \<Rightarrow> permission_state \<Rightarrow> permission_state" where
  "reject_bash entry st = st\<lparr>disallowed_bash_commands := hs_insert entry (disallowed_bash_commands st)\<rparr>"

definition grant_domain :: "str \<Rightarrow> permission_state \<Rightarrow> permission_state" where
  "grant_domain d st = st\<lparr>allowed_web_fetch_domains := hs_insert d (allowed_web_fetch_domains st)\<rparr>"

definition grant_mcp_tool :: "str \<Rightarrow> permission_state \<Rightarrow> permission_state" where
  "grant_mcp_tool name st = st\<lparr>allowed_mcp_tools := hs_insert name (allowed_mcp_tools st)\<rparr>"

definition grant_mcp_server :: "str \<Rightarrow> permission_state \<Rightarrow> permission_state" where
  "grant_mcp_server server st = st\<lparr>allowed_mcp_servers := hs_insert server (allowed_mcp_servers st)\<rparr>"

definition prompt_failed :: "str \<Rightarrow> decision" where
  "prompt_failed e = decision.Reject (''Failed to request permission from user: '' @ e)"

fun settle_bash :: "manager_env \<Rightarrow> str \<Rightarrow> actor \<Rightarrow> prompt_outcome \<Rightarrow> actor \<times> decision \<times> str" where
  "settle_bash env cmd a prompt_outcome.AllowOnce = (a, decision.Allow, ''allow_once'')"
| "settle_bash env cmd a prompt_outcome.AllowAlways =
     (update_state env (grant_bash cmd) a, decision.Allow, ''allow_always'')"
| "settle_bash env cmd a (AllowAlwaysBashCommand entry) =
     (update_state env (grant_bash entry) a, decision.Allow, ''allow_always_bash'')"
| "settle_bash env cmd a (AllowAlwaysDomain _) = (a, decision.Allow, ''allow_once'')"
| "settle_bash env cmd a (AllowAlwaysMcpTool _) = (a, decision.Allow, ''allow_once'')"
| "settle_bash env cmd a (AllowAlwaysMcpServer _) = (a, decision.Allow, ''allow_once'')"
| "settle_bash env cmd a AllowEditsForSession = (a, decision.Allow, ''allow_once'')"
| "settle_bash env cmd a prompt_outcome.RejectOnce =
     (a, decision.Reject ''User rejected the execution'', ''reject_once'')"
| "settle_bash env cmd a (RejectAlwaysBashCommand entry) =
     (update_state env (reject_bash entry) a,
      decision.Reject (''User rejected the execution and excluded '' @ entry @ '' from this session''),
      ''reject_always_bash'')"
| "settle_bash env cmd a prompt_outcome.Cancelled = (a, decision.Cancelled, ''cancelled'')"
| "settle_bash env cmd a (prompt_outcome.FollowupMessage msg) =
     (a, decision.FollowupMessage msg, ''followup'')"
| "settle_bash env cmd a (Error e) = (a, prompt_failed e, ''error'')"

text \<open>The server prefix an MCP tool's name stands for, when it is not empty.\<close>

definition canonical_server :: "str \<Rightarrow> str option" where
  "canonical_server name =
     (case split_once ''__'' name of
        Some (s, _) \<Rightarrow> if s \<noteq> [] then Some s else None
      | None \<Rightarrow> None)"

fun settle_other :: "manager_env \<Rightarrow> access_kind \<Rightarrow> actor \<Rightarrow> prompt_outcome \<Rightarrow> actor \<times> decision \<times> str" where
  "settle_other env access a prompt_outcome.AllowOnce = (a, decision.Allow, ''allow_once'')"
| "settle_other env access a AllowEditsForSession =
     (a\<lparr>ac_allow_edits := True\<rparr>, decision.Allow, ''allow_edits_for_session'')"
| "settle_other env access a prompt_outcome.AllowAlways =
     (update_state env (case access of MCPTool name _ \<Rightarrow> grant_mcp_tool name | _ \<Rightarrow> id) a,
      decision.Allow, ''allow_always'')"
| "settle_other env access a (AllowAlwaysBashCommand _) = (a, decision.Allow, ''allow_always_bash'')"
| "settle_other env access a (AllowAlwaysDomain domain) =
     ((case access of access_kind.WebFetch _ \<Rightarrow> update_state env (grant_domain domain) a | _ \<Rightarrow> a),
      decision.Allow, ''allow_always_domain'')"
| "settle_other env access a (AllowAlwaysMcpTool tool_name) =
     ((case access of MCPTool access_name _ \<Rightarrow> update_state env (grant_mcp_tool access_name) a | _ \<Rightarrow> a),
      decision.Allow, ''allow_always_mcp_tool'')"
| "settle_other env access a (AllowAlwaysMcpServer server_prefix) =
     ((case access of
         MCPTool access_name _ \<Rightarrow>
           (if canonical_server access_name = Some server_prefix
            then update_state env (grant_mcp_server server_prefix) a
            else update_state env (grant_mcp_tool access_name) a)
       | _ \<Rightarrow> a),
      decision.Allow, ''allow_always_mcp_server'')"
| "settle_other env access a (RejectAlwaysBashCommand _) =
     (a, decision.Reject ''User rejected the execution'', ''reject_always_bash'')"
| "settle_other env access a prompt_outcome.RejectOnce =
     (a, decision.Reject ''User rejected the execution'', ''reject_once'')"
| "settle_other env access a prompt_outcome.Cancelled = (a, decision.Cancelled, ''cancelled'')"
| "settle_other env access a (Error e) = (a, prompt_failed e, ''error'')"
| "settle_other env access a (prompt_outcome.FollowupMessage msg) =
     (a, decision.FollowupMessage msg, ''followup'')"

definition settle :: "manager_env \<Rightarrow> access_kind \<Rightarrow> actor \<Rightarrow> prompt_outcome \<Rightarrow> actor \<times> decision \<times> str" where
  "settle env access a outcome =
     (case access of access_kind.Bash cmd \<Rightarrow> settle_bash env cmd a outcome
      | _ \<Rightarrow> settle_other env access a outcome)"

definition prompt_outcome_of :: "world \<Rightarrow> manager_env \<Rightarrow> permission_request \<Rightarrow> prompt_outcome" where
  "prompt_outcome_of w env rq =
     fst (prompter_request (w_ext w) (prompter_of env w) (rq_access rq) (rq_tool_call_id rq))"

definition resolve_request ::
    "world \<Rightarrow> manager_env \<Rightarrow> actor \<Rightarrow> permission_request \<Rightarrow> actor \<times> resolution" where
  "resolve_request w env a rq =
     (case settle_or_prompt w env a (rq_access rq) of
        Inl r \<Rightarrow> (a, r)
      | Inr trigger \<Rightarrow>
          (let (a', d, outcome_str) = settle env (rq_access rq) a (prompt_outcome_of w env rq)
           in (a', \<lparr>rs_decision = d, rs_auto_approved = False, rs_user_prompted = True,
                    rs_prompt_outcome = Some outcome_str, rs_reason = trigger\<rparr>)))"

definition handle_request ::
    "world \<Rightarrow> manager_env \<Rightarrow> actor \<Rightarrow> permission_request \<Rightarrow> actor \<times> decision \<times> permission_event" where
  "handle_request w env a rq =
     (let (a', r) = resolve_request w env a rq in (a', rs_decision r, emit_event w a rq r))"

subsection \<open>Commands\<close>

text \<open>The flags the actor shares with its handles (\<open>yolo_state\<close>, \<open>auto_state\<close>, \<open>side_query_wired\<close>).\<close>

record shared_flags =
  fl_yolo :: bool
  fl_auto :: bool
  fl_side_query :: bool

datatype permission_command =
    Request permission_request
  | SetYoloMode bool
  | SetYoloAllowlist "str list option"
  | SetAutoMode bool
  | SetClassifier "permission_classifier option"
  | SetClassifierTranscript "classifier_turn list"
  | SetProjectInstructions "str option"
  | ResetState
  | Shutdown

definition actor_set_yolo :: "manager_env \<Rightarrow> bool \<Rightarrow> shared_flags \<times> actor \<Rightarrow> shared_flags \<times> actor" where
  "actor_set_yolo env enabled fa =
     (let (fl, a) = fa;
          clamped = clamp_yolo enabled (me_yolo_pin env);
          a = a\<lparr>ac_pin_refusal_logged := ac_pin_refusal_logged a \<or> (enabled \<and> \<not> clamped),
                ac_yolo := clamped\<rparr>;
          fl = fl\<lparr>fl_yolo := clamped\<rparr>
      in if clamped then (fl\<lparr>fl_auto := False\<rparr>, a\<lparr>ac_auto := False\<rparr>) else (fl, a))"

definition actor_set_auto :: "externals \<Rightarrow> bool \<Rightarrow> shared_flags \<times> actor \<Rightarrow> shared_flags \<times> actor" where
  "actor_set_auto E enabled fa =
     (let (fl, a) = fa; a = a\<lparr>ac_auto := enabled\<rparr>; fl = fl\<lparr>fl_auto := enabled\<rparr>
      in if enabled then
           (fl\<lparr>fl_yolo := False\<rparr>,
            a\<lparr>ac_yolo := False,
              ac_classifier := (case ac_classifier a of
                                  Some clf \<Rightarrow> Some clf
                                | None \<Rightarrow> Some (default_auto_mode_classifier E))\<rparr>)
         else (fl, a))"

definition actor_reset_state :: "manager_env \<Rightarrow> actor \<Rightarrow> actor" where
  "actor_reset_state env a =
     (update_state env (\<lambda>_. permission_state_default) a)\<lparr>ac_allow_edits := False\<rparr>"

text \<open>One turn of the actor's loop; \<open>None\<close> is \<open>break\<close>. The reply and the event belong to a request only.\<close>

type_synonym reply = "permission_request \<times> decision \<times> permission_event"

fun handle_command :: "world \<Rightarrow> manager_env \<Rightarrow> permission_command \<Rightarrow> shared_flags \<times> actor
    \<Rightarrow> (shared_flags \<times> actor \<times> reply list) option" where
  "handle_command w env (Request rq) (fl, a) =
     (let (a', d, event) = handle_request w env a rq in Some (fl, a', [(rq, d, event)]))"
| "handle_command w env (SetYoloMode enabled) fa =
     (let (fl, a) = actor_set_yolo env enabled fa in Some (fl, a, []))"
| "handle_command w env (SetYoloAllowlist allowlist) (fl, a) =
     Some (fl, a\<lparr>ac_yolo_allowlist := allowlist\<rparr>, [])"
| "handle_command w env (SetAutoMode enabled) fa =
     (let (fl, a) = actor_set_auto (w_ext w) enabled fa in Some (fl, a, []))"
| "handle_command w env (SetClassifier classifier) (fl, a) =
     Some (fl, a\<lparr>ac_classifier := classifier\<rparr>, [])"
| "handle_command w env (SetClassifierTranscript ts) (fl, a) = Some (fl, a\<lparr>ac_turns := ts\<rparr>, [])"
| "handle_command w env (SetProjectInstructions i) (fl, a) =
     Some (fl, a\<lparr>ac_instructions := i\<rparr>, [])"
| "handle_command w env ResetState (fl, a) = Some (fl, actor_reset_state env a, [])"
| "handle_command w env Shutdown fa = None"

subsection \<open>Spawning\<close>

text \<open>
  The arguments of \<open>spawn_permission_manager_with_pin\<close>, with what it reads of its surroundings: the
  stored state, the evolution variable and the user's home.
\<close>

record spawn_args =
  sa_cwd :: str
  sa_client_type :: client_type
  sa_permission_config :: "permission_config option"
  sa_deny_read_globs :: "str list"
  sa_web_fetch_allowed_domains :: "str list"
  sa_initial_yolo :: bool
  sa_client_identifier :: "str option"
  sa_remember_tool_approvals :: bool
  sa_yolo_pin :: "str option"
  sa_hub_permission :: bool
  sa_store :: store
  sa_disk :: directory
  sa_evolution_var :: "str option"
  sa_home :: "str option"

definition config_prompt_policy :: "permission_config option \<Rightarrow> prompt_policy" where
  "config_prompt_policy config =
     (case config of Some c \<Rightarrow> pc_prompt_policy c | None \<Rightarrow> prompt_policy.Ask)"

definition initial_yolo :: "spawn_args \<Rightarrow> bool" where
  "initial_yolo args = clamp_yolo (sa_initial_yolo args) (sa_yolo_pin args)"

definition seed_auto :: "spawn_args \<Rightarrow> bool" where
  "seed_auto args =
     (\<not> initial_yolo args
      \<and> (case sa_permission_config args of
            Some c \<Rightarrow> pc_prompt_policy c = prompt_policy.Auto
          | None \<Rightarrow> False))"

definition spawn_flags :: "spawn_args \<Rightarrow> shared_flags" where
  "spawn_flags args =
     \<lparr>fl_yolo = initial_yolo args, fl_auto = seed_auto args, fl_side_query = False\<rparr>"

definition spawn_env :: "externals \<Rightarrow> spawn_args \<Rightarrow> manager_env" where
  "spawn_env E args =
     \<lparr>me_policy =
        with_synthetic_rules E
          (case sa_permission_config args of Some c \<Rightarrow> c | None \<Rightarrow> permission_config_default)
          (session_skill_gate_rules E (sa_evolution_var args) (sa_home args)),
      me_prompt_policy = config_prompt_policy (sa_permission_config args),
      me_domains = domain_matcher_new E (sa_web_fetch_allowed_domains args),
      me_cwd = sa_cwd args,
      me_client_type = sa_client_type args,
      me_client_id = sa_client_identifier args,
      me_remember = sa_remember_tool_approvals args,
      me_yolo_pin = sa_yolo_pin args,
      me_hub = sa_hub_permission args,
      me_store = sa_store args\<rparr>"

definition migrate_edit_policy :: "manager_env \<Rightarrow> actor \<Rightarrow> actor" where
  "migrate_edit_policy env a =
     (if edit_policy_of (ac_state a) = edit_policy.Allow
      then update_state env (\<lambda>st. st\<lparr>edit_policy_of := edit_policy.Ask\<rparr>) a
      else a)"

definition spawn_actor :: "externals \<Rightarrow> spawn_args \<Rightarrow> actor" where
  "spawn_actor E args =
     migrate_edit_policy (spawn_env E args)
       \<lparr>ac_state = load_state_from_dir (sa_store args) (sa_disk args) (sa_client_identifier args),
        ac_disk = sa_disk args,
        ac_yolo = initial_yolo args,
        ac_yolo_allowlist = None,
        ac_auto = seed_auto args,
        ac_classifier = Some (default_auto_mode_classifier E),
        ac_turns = [],
        ac_instructions = None,
        ac_pin_refusal_logged = False,
        ac_allow_edits = False\<rparr>"

end
