(* ===== verification/Manager_Requests.thy ===== *)
theory Manager_Requests
  imports Permission_Manager
begin

section \<open>What a permission request guarantees\<close>

text \<open>
  The properties of one request of the manager, whatever the session's modes, grants and client are:
  a policy denial is final, an ask of the shell gates is binding, a forced prompt of auto mode
  reaches the user, and nothing is remembered without a prompt. The lemmas go through the stages of
  \<open>settle_or_prompt\<close> once; the properties rest on them.
\<close>

named_theorems stage_defs

lemmas stage_unfolds [stage_defs] =
  policy_deny_stage_def yolo_stage_def session_grant_stage_def sandbox_stage_def
  policy_allow_stage_def prompt_policy_stage_def automatic_def denied_def or_else_def

subsection \<open>The combined policy view\<close>

lemma view_simps:
  "pv_decision (view_policy E env (access_kind.Bash cmd)) =
     combine_decisions
       (combine_decisions (evaluate E (me_policy env) (access_kind.Bash cmd))
          (evaluate_bash_command_policy E (me_policy env) cmd))
       (evaluate_shell_file_access E (me_policy env) cmd (me_cwd env))"
  "pv_shell_file_forced (view_policy E env (access_kind.Bash cmd)) \<longleftrightarrow>
     evaluate_shell_file_access E (me_policy env) cmd (me_cwd env) = Some decision.Ask"
  "pv_shell_forced (view_policy E env (access_kind.Bash cmd)) \<longleftrightarrow>
     evaluate_shell_file_access E (me_policy env) cmd (me_cwd env) = Some decision.Ask
     \<or> evaluate_bash_command_policy E (me_policy env) cmd = Some decision.Ask"
  "pv_policy_forced (view_policy E env access) \<longleftrightarrow>
     pv_decision (view_policy E env access) = Some decision.Ask"
  by (simp_all add: view_policy_def Let_def)

lemma view_other:
  assumes "\<And>cmd. access \<noteq> access_kind.Bash cmd"
  shows "pv_decision (view_policy E env access) = evaluate E (me_policy env) access"
    and "\<not> pv_shell_forced (view_policy E env access)"
    and "\<not> pv_shell_file_forced (view_policy E env access)"
  using assms by (cases access; simp add: view_policy_def Let_def; cases "evaluate E (me_policy env) access"; simp)+

lemma command_gate_escalation: "escalation (evaluate_bash_command_policy E cp cmd)"
  by (simp add: evaluate_bash_command_policy_def evaluate_bash_command_segments_def
      bash_segments_escalation gate_simps)

lemma combine_escalation_cases:
  assumes "escalation x \<or> x = Some decision.Allow" "escalation y"
  shows "escalation (combine_decisions x y) \<or> combine_decisions x y = Some decision.Allow"
  using assms by (auto simp: escalation_def)

lemma view_decision_cases:
  "escalation (pv_decision (view_policy E env access))
   \<or> pv_decision (view_policy E env access) = Some decision.Allow"
proof (cases "\<exists>cmd. access = access_kind.Bash cmd")
  case True
  then obtain cmd where a: "access = access_kind.Bash cmd" by blast
  show ?thesis
    unfolding a view_simps
    by (intro combine_escalation_cases evaluate_cases command_gate_escalation shell_file_access_escalation)
next
  case False
  then show ?thesis using evaluate_cases by (metis view_other(1))
qed

text \<open>An ask of a shell gate makes the combined decision an ask or a rejection.\<close>

lemma shell_forced_decision:
  assumes "pv_shell_forced (view_policy E env access)"
  shows "pv_decision (view_policy E env access) = Some decision.Ask
    \<or> (\<exists>r. pv_decision (view_policy E env access) = Some (decision.Reject r))"
proof -
  obtain cmd where a: "access = access_kind.Bash cmd" using assms view_other(2) by blast
  let ?d = "evaluate E (me_policy env) access"
  let ?c = "evaluate_bash_command_policy E (me_policy env) cmd"
  let ?f = "evaluate_shell_file_access E (me_policy env) cmd (me_cwd env)"
  have "?d = None \<or> ?d = Some decision.Allow \<or> ?d = Some decision.Ask \<or> (\<exists>r. ?d = Some (decision.Reject r))"
    using evaluate_cases[of E "me_policy env" access] by (auto simp: escalation_def)
  moreover have "?c = None \<or> ?c = Some decision.Ask \<or> (\<exists>r. ?c = Some (decision.Reject r))"
    using command_gate_escalation[of E "me_policy env" cmd] by (auto simp: escalation_def)
  moreover have "?f = None \<or> ?f = Some decision.Ask \<or> (\<exists>r. ?f = Some (decision.Reject r))"
    using shell_file_access_escalation[of E "me_policy env" cmd "me_cwd env"] by (auto simp: escalation_def)
  moreover have "?f = Some decision.Ask \<or> ?c = Some decision.Ask" using assms by (simp add: a view_simps)
  ultimately show ?thesis unfolding a view_simps by auto
qed

lemma denied_view:
  assumes "(\<exists>r. evaluate E (me_policy env) access = Some (decision.Reject r))
     \<or> (\<exists>cmd r. access = access_kind.Bash cmd
          \<and> (evaluate_bash_command_policy E (me_policy env) cmd = Some (decision.Reject r)
              \<or> evaluate_shell_file_access E (me_policy env) cmd (me_cwd env) = Some (decision.Reject r)))"
  shows "\<exists>r. pv_decision (view_policy E env access) = Some (decision.Reject r)"
proof (cases "\<exists>cmd. access = access_kind.Bash cmd")
  case True
  then obtain cmd where a: "access = access_kind.Bash cmd" by blast
  let ?d = "evaluate E (me_policy env) access"
  let ?c = "evaluate_bash_command_policy E (me_policy env) cmd"
  let ?f = "evaluate_shell_file_access E (me_policy env) cmd (me_cwd env)"
  have "?d = None \<or> ?d = Some decision.Allow \<or> ?d = Some decision.Ask \<or> (\<exists>r. ?d = Some (decision.Reject r))"
    using evaluate_cases[of E "me_policy env" access] by (auto simp: escalation_def)
  moreover have "?c = None \<or> ?c = Some decision.Ask \<or> (\<exists>r. ?c = Some (decision.Reject r))"
    using command_gate_escalation[of E "me_policy env" cmd] by (auto simp: escalation_def)
  moreover have "?f = None \<or> ?f = Some decision.Ask \<or> (\<exists>r. ?f = Some (decision.Reject r))"
    using shell_file_access_escalation[of E "me_policy env" cmd "me_cwd env"] by (auto simp: escalation_def)
  moreover have "\<exists>r. ?d = Some (decision.Reject r) \<or> ?c = Some (decision.Reject r) \<or> ?f = Some (decision.Reject r)"
    using assms by (auto simp: a)
  ultimately show ?thesis unfolding a view_simps by auto
next
  case False
  then show ?thesis using assms by (metis view_other(1))
qed

subsection \<open>The stages\<close>

lemma settle_denied:
  "pv_decision (view_policy (w_ext w) env access) = Some (decision.Reject r) \<Longrightarrow>
     settle_or_prompt w env a access = Inl (denied (PolicyDeny r) ''policy_deny'')"
  by (simp add: settle_or_prompt_def policy_deny_stage_def or_else_def Let_def)

lemma settle_ask:
  assumes "pv_decision (view_policy (w_ext w) env access) = Some decision.Ask"
    and "\<not> yolo_auto_approves a (tool_name_for_access access)
      \<or> pv_shell_forced (view_policy (w_ext w) env access)"
  shows "settle_or_prompt w env a access =
    (case or_else (pre_decision_stage (w_ext w) env a access (view_policy (w_ext w) env access) False)
            (prompt_policy_stage env) of
       Some r \<Rightarrow> Inl r
     | None \<Rightarrow> Inr ''policy_ask'')"
proof -
  let ?pv = "view_policy (w_ext w) env access"
  have forced: "pv_policy_forced ?pv" using assms(1) by (simp add: view_simps)
  have "policy_deny_stage ?pv = None" "policy_allow_stage ?pv = None"
    using assms(1) by (simp_all add: policy_deny_stage_def policy_allow_stage_def)
  moreover have "yolo_stage a (tool_name_for_access access) ?pv = None"
    using assms(2) by (auto simp: yolo_stage_def)
  moreover have "session_grant_stage (w_ext w) env a access ?pv = None"
    "auto_stage (w_ext w) a access ?pv = AutoInactive" "sandbox_stage w access ?pv False = None"
    "prompt_trigger ?pv None = ''policy_ask''"
    using forced by (simp_all add: session_grant_stage_def auto_stage_def sandbox_stage_def prompt_trigger_def
        Let_def)
  ultimately show ?thesis by (simp add: settle_or_prompt_def or_else_def Let_def split: option.split)
qed

lemma ask_floor_allow_iff:
  "bash_grant_pre_decision E cmd st yolo_pin ASK_FLOOR_REMEMBER = Some (decision.Allow, reason) \<longleftrightarrow>
     (\<exists>via. evaluate_bash_segments_inner E cmd st False = AutoAllow via
        \<and> reason = (if via then ''session_grant'' else ''safe_command''))"
  unfolding bash_grant_pre_decision_def ASK_FLOOR_REMEMBER_def
  by (auto simp: grant_allow_def split: segment_evaluation.splits)

subsection \<open>Properties\<close>

text \<open>C1: A policy denial is final. When a deny rule rejects the access, or the command gate or the file gate
  rejects a shell command, the request is answered with a policy denial, no prompt is shown, and nothing of
  the session changes - whatever its modes (YOLO and auto included), its grants, the sandbox and the
  client.\<close>

theorem request_policy_deny_wins:
  assumes "(\<exists>r. evaluate (w_ext w) (me_policy env) (rq_access rq) = Some (decision.Reject r))
     \<or> (\<exists>cmd r. rq_access rq = access_kind.Bash cmd
          \<and> (evaluate_bash_command_policy (w_ext w) (me_policy env) cmd = Some (decision.Reject r)
              \<or> evaluate_shell_file_access (w_ext w) (me_policy env) cmd (me_cwd env)
                  = Some (decision.Reject r)))"
  shows "\<exists>r e. handle_request w env a rq = (a, PolicyDeny r, e)
    \<and> \<not> pe_user_prompted e \<and> \<not> pe_auto_approved e \<and> pe_reject_reason e = Some r"
proof -
  obtain r where "pv_decision (view_policy (w_ext w) env (rq_access rq)) = Some (decision.Reject r)"
    using denied_view[OF assms] by blast
  then have "settle_or_prompt w env a (rq_access rq) = Inl (denied (PolicyDeny r) ''policy_deny'')"
    by (rule settle_denied)
  then show ?thesis
    by (auto simp: handle_request_def resolve_request_def denied_def emit_event_def Let_def)
qed

lemma shell_forced_allow:
  assumes "pv_shell_forced (view_policy (w_ext w) env (access_kind.Bash cmd))"
    and "settle_or_prompt w env a (access_kind.Bash cmd) = Inl r" "rs_decision r = decision.Allow"
  shows "me_remember env
    \<and> evaluate_shell_file_access (w_ext w) (me_policy env) cmd (me_cwd env) \<noteq> Some decision.Ask
    \<and> (\<exists>via. evaluate_bash_segments_inner (w_ext w) cmd (ac_state a) False = AutoAllow via)"
proof -
  let ?pv = "view_policy (w_ext w) env (access_kind.Bash cmd)"
  consider (rejected) d where "pv_decision ?pv = Some (decision.Reject d)"
    | (asked) "pv_decision ?pv = Some decision.Ask"
    using shell_forced_decision[OF assms(1)] by blast
  then show ?thesis
  proof cases
    case rejected
    then show ?thesis using assms(2,3) settle_denied[OF rejected, of a] by (auto simp: denied_def)
  next
    case asked
    then have forced: "pv_policy_forced ?pv" by (simp add: view_simps)
    have "pre_decision_stage (w_ext w) env a (access_kind.Bash cmd) ?pv False = Some r"
      using assms(2,3) settle_ask[OF asked, of a] assms(1)
      by (auto simp: or_else_def prompt_policy_stage_def denied_def split: option.splits if_splits)
    then obtain reason where
      "pre_decision (w_ext w) env a (access_kind.Bash cmd) ?pv False = Some (decision.Allow, reason)"
      using assms(3) by (auto simp: pre_decision_stage_def automatic_def split: option.splits)
    then show ?thesis
      using forced
      by (auto simp: pre_decision_def ask_floor_allow_iff view_simps(2) split: if_splits)
  qed
qed

text \<open>C2: An ask of a shell gate binds. When the command gate or the file gate asks about a shell command, no mode
  runs it unprompted: not YOLO, auto mode or the sandbox, and no safe list. It runs without a prompt only if
  the session remembers approvals, the file gate did not ask, and every segment is a setup command or is
  covered by an explicit grant and not dangerous.\<close>

theorem shell_ask_is_binding:
  assumes "rq_access rq = access_kind.Bash cmd"
    and "evaluate_bash_command_policy (w_ext w) (me_policy env) cmd = Some decision.Ask
      \<or> evaluate_shell_file_access (w_ext w) (me_policy env) cmd (me_cwd env) = Some decision.Ask"
    and "handle_request w env a rq = (a', decision.Allow, e)" "\<not> pe_user_prompted e"
  shows "me_remember env
    \<and> evaluate_shell_file_access (w_ext w) (me_policy env) cmd (me_cwd env) \<noteq> Some decision.Ask
    \<and> (\<exists>segs. all_commands_from_script (w_ext w) cmd = Some segs
         \<and> list_all (\<lambda>c. rejected_by (ac_state a) (pc_words c) = None
                          \<and> cleared (ac_state a) False (pc_words c)) segs)"
proof -
  have "pv_shell_forced (view_policy (w_ext w) env (access_kind.Bash cmd))"
    using assms(2) by (auto simp: view_simps)
  moreover obtain r where "settle_or_prompt w env a (access_kind.Bash cmd) = Inl r"
      "rs_decision r = decision.Allow"
    using assms(1,3,4)
    by (cases "settle_or_prompt w env a (access_kind.Bash cmd)")
      (auto simp: handle_request_def resolve_request_def emit_event_def Let_def split: prod.splits)
  ultimately show ?thesis using shell_forced_allow by (fastforce simp: evaluate_AutoAllow_iff)
qed

subsection \<open>A concrete session\<close>

text \<open>A session whose policy asks about every shell command, with a client that refuses every prompt.\<close>

definition one_rule_policy :: "rule_action \<Rightarrow> compiled_policy" where
  "one_rule_policy action = compiled_policy_new words_externals (permission_config_new
     [\<lparr>pr_action = action, pr_tool = tool_filter.Bash, pr_pattern = None, pr_pattern_mode = Glob\<rparr>])"

definition example_world :: world where
  "example_world = \<lparr>w_ext = words_externals, w_sandbox_auto_allow_bash = True,
     w_gateway = (\<lambda>_ _. ReplyCancelled), w_hub = (\<lambda>_. Inl []), w_in_flight = 1\<rparr>"

definition example_env :: "compiled_policy \<Rightarrow> manager_env" where
  "example_env cp = \<lparr>me_policy = cp, me_prompt_policy = prompt_policy.Ask,
     me_domains = domain_matcher_new words_externals [], me_cwd = ''/w'',
     me_client_type = from_client_identifier None, me_client_id = None, me_remember = True,
     me_yolo_pin = None, me_hub = False,
     me_store = \<lparr>toml_from_str = (\<lambda>_. None), toml_to_string = (\<lambda>_. None), write_succeeds = (\<lambda>_. True)\<rparr>\<rparr>"

definition example_actor :: "permission_state \<Rightarrow> bool \<Rightarrow> actor" where
  "example_actor st yolo = \<lparr>ac_state = st, ac_disk = (\<lambda>_. None), ac_yolo = yolo, ac_yolo_allowlist = None,
     ac_auto = False, ac_classifier = None, ac_turns = [], ac_instructions = None,
     ac_pin_refusal_logged = False, ac_allow_edits = False\<rparr>"

definition example_request :: "access_kind \<Rightarrow> permission_request" where
  "example_request access = \<lparr>rq_access = access, rq_tool_call_id = ''t1'', rq_session_id = None,
     rq_subagent_type = None, rq_subagent_description = None\<rparr>"

lemmas example_defs = example_world_def example_env_def example_actor_def example_request_def

lemma one_rule_evaluate:
  "evaluate words_externals (one_rule_policy rule_action.Ask) (access_kind.Bash cmd) = Some decision.Ask"
  "\<exists>m. evaluate words_externals (one_rule_policy rule_action.Deny) (access_kind.Bash cmd)
     = Some (decision.Reject m)"
  by (simp_all add: evaluate_def evaluate_rules_def one_rule_policy_def compiled_policy_new_def
      with_synthetic_rules_def permission_config_new_def compile_matchers_def pattern_matches_def)

lemma one_rule_file_gate: "evaluate_shell_file_access E (one_rule_policy action) cmd cwd = None"
  by (simp add: evaluate_shell_file_access_def one_rule_policy_def compiled_policy_new_def
      with_synthetic_rules_def permission_config_new_def restricts_files_def)

text \<open>A command of unquoted words that is neither wrapped nor a nested shell is one segment of the gate.\<close>

lemma one_rule_command_gate:
  assumes "unwrap_wrappers (split_on CHR '' '' cmd) = split_on CHR '' '' cmd"
    and "shell_dash_c_script (split_on CHR '' '' cmd) = None"
  shows "evaluate_bash_command_policy words_externals (one_rule_policy rule_action.Ask) cmd
    = Some decision.Ask"
proof -
  obtain c where "all_commands_from_script words_externals cmd = Some [c]" "pc_words c = split_on CHR '' '' cmd"
    using words_command by blast
  moreover have eight: "bash_segments E cp 8 = bash_segments E cp (Suc n)" if "n = 7" for E cp n
    using that by simp
  moreover have "has_bash_command_restrictions (one_rule_policy rule_action.Ask)"
    by (simp add: one_rule_policy_def compiled_policy_new_def with_synthetic_rules_def
        permission_config_new_def restricts_bash_def)
  ultimately show ?thesis
    using assms unfolding evaluate_bash_command_policy_def evaluate_bash_command_segments_def diff_zero
    by (subst eight[OF refl])
      (simp add: segment_forms_def escalate_def one_rule_evaluate del: split_on.simps Suc_numeral)
qed

lemma example_view:
  assumes "unwrap_wrappers (split_on CHR '' '' cmd) = split_on CHR '' '' cmd"
    and "shell_dash_c_script (split_on CHR '' '' cmd) = None"
  shows "pv_decision (view_policy words_externals (example_env (one_rule_policy rule_action.Ask)) (access_kind.Bash cmd))
      = Some decision.Ask"
    and "pv_shell_forced (view_policy words_externals (example_env (one_rule_policy rule_action.Ask)) (access_kind.Bash cmd))"
  unfolding view_simps
  by (simp_all add: example_env_def one_rule_evaluate one_rule_file_gate one_rule_command_gate[OF assms])

text \<open>What an asking policy makes of a command whose every segment is cleared without the safe lists.\<close>

lemma example_floor:
  assumes "unwrap_wrappers (split_on CHR '' '' cmd) = split_on CHR '' '' cmd"
    and "shell_dash_c_script (split_on CHR '' '' cmd) = None"
    and "rejected_by st (split_on CHR '' '' cmd) = None" "cleared st False (split_on CHR '' '' cmd)"
  shows "\<exists>reason. settle_or_prompt example_world (example_env (one_rule_policy rule_action.Ask)) (example_actor st yolo)
     (access_kind.Bash cmd) = Inl (automatic decision.Allow reason)"
proof -
  let ?env = "example_env (one_rule_policy rule_action.Ask)"
  let ?pv = "view_policy words_externals ?env (access_kind.Bash cmd)"
  note v = example_view[OF assms(1,2)]
  obtain c where c: "all_commands_from_script words_externals cmd = Some [c]"
      "pc_words c = split_on CHR '' '' cmd" using words_command by blast
  then have "\<exists>via. evaluate_bash_segments_inner words_externals cmd st False = AutoAllow via"
    using assms(3,4) by (simp add: evaluate_AutoAllow_iff del: split_on.simps)
  then obtain reason where
    r: "bash_grant_pre_decision words_externals cmd st None ASK_FLOOR_REMEMBER = Some (decision.Allow, reason)"
    using ask_floor_allow_iff by blast
  have "\<not> pv_shell_file_forced ?pv" unfolding view_simps by (simp add: example_env_def one_rule_file_gate)
  then have "pre_decision_stage words_externals ?env (example_actor st yolo) (access_kind.Bash cmd) ?pv False
      = Some (automatic decision.Allow reason)"
    using r v(1)
    by (simp add: pre_decision_stage_def pre_decision_def view_simps(4) auto_prompt_blocks_allow_def)
      (simp add: example_defs)
  then show ?thesis
    using settle_ask[of example_world ?env "access_kind.Bash cmd" "example_actor st yolo"] v
    by (auto simp: example_world_def or_else_def)
qed

theorem request_policy_deny_wins_witness:
  "\<exists>m e. handle_request example_world (example_env (one_rule_policy rule_action.Deny))
        (example_actor permission_state_default True) (example_request (access_kind.Bash ''ls''))
      = (example_actor permission_state_default True, PolicyDeny m, e) \<and> \<not> pe_user_prompted e"
proof -
  have "\<exists>m. evaluate (w_ext example_world) (me_policy (example_env (one_rule_policy rule_action.Deny)))
     (rq_access (example_request (access_kind.Bash ''ls''))) = Some (decision.Reject m)"
    using one_rule_evaluate(2) by (simp add: example_defs)
  from request_policy_deny_wins[OF disjI1[OF this]] show ?thesis by blast
qed

text \<open>The words of the scripts used below.\<close>

lemma source_words: "split_on CHR '' '' ''source a'' = [''source'', ''a'']"
  by simp

lemma make_words: "split_on CHR '' '' ''make b'' = [''make'', ''b'']"
  by simp

lemma source_unwrapped: "unwrap_wrappers [''source'', ''a''] = [''source'', ''a'']"
  by (rule plain_unwrap) (simp add: is_wrapper_command_def last_path_seg_def)

lemma make_unwrapped: "unwrap_wrappers [''make'', ''b''] = [''make'', ''b'']"
  by (rule plain_unwrap) (simp add: is_wrapper_command_def last_path_seg_def)

lemma no_nested_shell:
  "shell_dash_c_script [''source'', ''a''] = None" "shell_dash_c_script [''make'', ''b''] = None"
  by (simp_all add: shell_dash_c_script_def last_path_seg_def)

definition make_granted :: permission_state where
  "make_granted = permission_state_default\<lparr>allowed_bash_commands := [''make'']\<rparr>"

lemma make_cleared: "rejected_by make_granted [''make'', ''b''] = None \<and> cleared make_granted False [''make'', ''b'']"
  by (simp add: rejected_by_def cleared_def user_granted_def make_unwrapped make_granted_def is_setup_command_def
      permission_state_default_def is_dangerous_command_words_def matches_command_prefix_def
      matches_whitelist_prefix_def nth_opt_def)

lemma source_cleared: "rejected_by st [''source'', ''a''] = None \<and> cleared st honor [''source'', ''a'']"
  by (simp add: rejected_by_def cleared_def source_unwrapped is_setup_command_def)

lemma settled_request:
  "settle_or_prompt w env a (rq_access rq) = Inl r \<Longrightarrow>
     handle_request w env a rq = (a, rs_decision r, emit_event w a rq r)"
  by (simp add: handle_request_def resolve_request_def)

lemma source_settled:
  "\<exists>reason. settle_or_prompt example_world (example_env (one_rule_policy rule_action.Ask))
     (example_actor st yolo) (access_kind.Bash ''source a'') = Inl (automatic decision.Allow reason)"
  using example_floor[of "''source a''" st yolo]
  unfolding source_words by (simp add: source_unwrapped no_nested_shell source_cleared)

lemma make_settled:
  "\<exists>reason. settle_or_prompt example_world (example_env (one_rule_policy rule_action.Ask))
     (example_actor make_granted yolo) (access_kind.Bash ''make b'') = Inl (automatic decision.Allow reason)"
  using example_floor[of "''make b''" make_granted yolo]
  unfolding make_words by (simp add: make_unwrapped no_nested_shell make_cleared)

theorem shell_ask_is_binding_witness:
  "\<exists>segs. all_commands_from_script words_externals ''make b'' = Some segs
     \<and> list_all (\<lambda>c. rejected_by make_granted (pc_words c) = None
                      \<and> cleared make_granted False (pc_words c)) segs"
proof -
  let ?env = "example_env (one_rule_policy rule_action.Ask)" and ?a = "example_actor make_granted True"
  let ?rq = "example_request (access_kind.Bash ''make b'')"
  obtain reason where "settle_or_prompt example_world ?env ?a (rq_access ?rq)
      = Inl (automatic decision.Allow reason)"
    using make_settled by (auto simp: example_request_def)
  from settled_request[OF this] have h: "\<exists>e. handle_request example_world ?env ?a ?rq = (?a, decision.Allow, e)
      \<and> \<not> pe_user_prompted e"
    by (simp add: automatic_def emit_event_def Let_def)
  have gate: "evaluate_bash_command_policy (w_ext example_world) (me_policy ?env) ''make b'' = Some decision.Ask"
    using one_rule_command_gate[of "''make b''"] unfolding make_words
    by (simp add: make_unwrapped no_nested_shell example_world_def example_env_def)
  have "rq_access ?rq = access_kind.Bash ''make b''" by (simp add: example_request_def)
  with h gate show ?thesis
    using shell_ask_is_binding[of ?rq "''make b''" example_world ?env ?a ?a]
    by (auto simp: example_world_def example_actor_def)
qed

text \<open>The ask floor does not hold for setup commands: under a rule that asks about every shell command,
  \<open>source a\<close> - which runs the file \<open>a\<close> - is allowed without a prompt by a session with no grant at all.\<close>

theorem ask_floor_skips_setup_commands:
  "let (a', d, e) = handle_request example_world (example_env (one_rule_policy rule_action.Ask))
       (example_actor permission_state_default False) (example_request (access_kind.Bash ''source a''))
   in d = decision.Allow \<and> \<not> pe_user_prompted e
      \<and> evaluate words_externals (one_rule_policy rule_action.Ask) (access_kind.Bash ''source a'')
          = Some decision.Ask"
proof -
  let ?rq = "example_request (access_kind.Bash ''source a'')"
  obtain reason where "settle_or_prompt example_world (example_env (one_rule_policy rule_action.Ask))
      (example_actor permission_state_default False) (rq_access ?rq) = Inl (automatic decision.Allow reason)"
    using source_settled by (auto simp: example_request_def)
  from settled_request[OF this] show ?thesis
    by (simp add: automatic_def emit_event_def Let_def one_rule_evaluate)
qed

subsection \<open>What a request may change\<close>

lemma settle_frame:
  "settle env access a out = (a', d, s) \<Longrightarrow>
     a' = a\<lparr>ac_state := ac_state a', ac_disk := ac_disk a', ac_allow_edits := ac_allow_edits a'\<rparr>"
  by (cases out; cases access) (auto simp: settle_def update_state_def persist_def split: if_splits)

text \<open>The entries a request for an access may add to the remembered state.\<close>

definition confined :: "access_kind \<Rightarrow> permission_state \<Rightarrow> permission_state \<Rightarrow> bool" where
  "confined access st st' =
     (case access of
        access_kind.Bash _ \<Rightarrow>
          st' = st\<lparr>allowed_bash_commands := allowed_bash_commands st',
                   disallowed_bash_commands := disallowed_bash_commands st'\<rparr>
      | access_kind.WebFetch _ \<Rightarrow>
          st' = st\<lparr>allowed_web_fetch_domains := allowed_web_fetch_domains st'\<rparr>
      | MCPTool name _ \<Rightarrow>
          st' = st \<or> st' = grant_mcp_tool name st
          \<or> (case canonical_server name of Some s \<Rightarrow> st' = grant_mcp_server s st | None \<Rightarrow> False)
      | _ \<Rightarrow> st' = st)"

lemma confined_refl [simp]: "confined access st st"
  by (cases access) (simp_all add: confined_def)

lemma settle_confined: "settle env access a out = (a', d, s) \<Longrightarrow> confined access (ac_state a) (ac_state a')"
  by (cases out; cases access)
    (auto simp: settle_def update_state_def persist_def confined_def grant_bash_def reject_bash_def
      grant_domain_def split: if_splits)

definition auto_forces :: "auto_stage_outcome \<Rightarrow> bool" where
  "auto_forces outcome = (case outcome of AutoForcesPrompt _ \<Rightarrow> True | _ \<Rightarrow> False)"

lemma settle_stage:
  assumes "settle_or_prompt w env a access = Inl r"
  obtains (deny) "policy_deny_stage (view_policy (w_ext w) env access) = Some r"
  | (yolo) "yolo_stage a (tool_name_for_access access) (view_policy (w_ext w) env access) = Some r"
  | (session_grant) "session_grant_stage (w_ext w) env a access (view_policy (w_ext w) env access) = Some r"
  | (auto) "auto_stage (w_ext w) a access (view_policy (w_ext w) env access) = AutoResolved r"
  | (sandbox) "sandbox_stage w access (view_policy (w_ext w) env access)
       (auto_forces (auto_stage (w_ext w) a access (view_policy (w_ext w) env access))) = Some r"
  | (policy_allow) "policy_allow_stage (view_policy (w_ext w) env access) = Some r"
  | (pre_decision) "pre_decision_stage (w_ext w) env a access (view_policy (w_ext w) env access)
       (auto_forces (auto_stage (w_ext w) a access (view_policy (w_ext w) env access))) = Some r"
  | (prompt_policy) "prompt_policy_stage env = Some r"
  using assms
  by (auto simp: settle_or_prompt_def or_else_def Let_def auto_forces_def
      split: option.splits auto_stage_outcome.splits if_splits)

lemma settled_unprompted:
  assumes "settle_or_prompt w env a access = Inl r"
  shows "\<not> rs_user_prompted r \<and> rs_prompt_outcome r = None"
  using assms
  by (cases rule: settle_stage)
    (auto simp: stage_unfolds auto_stage_def pre_decision_stage_def Let_def
      split: option.splits decision.splits if_splits auto_fast_path.splits classifier_verdict.splits)

text \<open>A request in the two ways it can go.\<close>

lemma handle_request_cases:
  assumes "handle_request w env a rq = (a', d, e)"
  obtains (settled) r where "settle_or_prompt w env a (rq_access rq) = Inl r" "a' = a" "d = rs_decision r"
      "e = emit_event w a rq r" "\<not> pe_user_prompted e" "pe_prompt_outcome e = None"
  | (prompted) trigger s where "settle_or_prompt w env a (rq_access rq) = Inr trigger"
      "settle env (rq_access rq) a (prompt_outcome_of w env rq) = (a', d, s)" "pe_user_prompted e"
      "pe_prompt_outcome e = Some s" "\<not> pe_auto_approved e" "pe_decision_reason e = Some trigger"
proof (cases "settle_or_prompt w env a (rq_access rq)")
  case (Inl r)
  from settled_unprompted[OF Inl] settled_request[OF Inl] assms show ?thesis
    by (intro settled[of r, OF Inl]) (auto simp: emit_event_def Let_def)
next
  case (Inr trigger)
  obtain a1 d1 s where "settle env (rq_access rq) a (prompt_outcome_of w env rq) = (a1, d1, s)"
    by (cases "settle env (rq_access rq) a (prompt_outcome_of w env rq)")
  with assms Inr show ?thesis
    by (intro prompted[of trigger s])
      (auto simp: handle_request_def resolve_request_def emit_event_def Let_def)
qed

lemma emitted_decision: "pe_decision (emit_event w a rq r) = fst (decision_label (rs_decision r))"
  by (simp add: emit_event_def Let_def)

text \<open>A request leaves the session alone but for what its prompt was about. Modes, classifier, transcript and
  instructions never change; without a prompt nothing changes; and after one the remembered state differs
  at most in the lists of the kind that was asked about - for an MCP tool at most by that tool or by its own
  server, whatever tool or server the client named.\<close>

theorem request_confined:
  "let (a', d, e) = handle_request w env a rq
   in a' = a\<lparr>ac_state := ac_state a', ac_disk := ac_disk a', ac_allow_edits := ac_allow_edits a'\<rparr>
      \<and> (pe_user_prompted e \<or> a' = a)
      \<and> confined (rq_access rq) (ac_state a) (ac_state a')"
proof -
  obtain a' d e where h: "handle_request w env a rq = (a', d, e)"
    by (cases "handle_request w env a rq")
  show ?thesis
    unfolding h by (cases rule: handle_request_cases[OF h]) (auto dest: settle_frame settle_confined)
qed

text \<open>What a prompt answers and what is remembered agree: a grant only with an allow, a refusal only with a
  rejection, and neither is forgotten.\<close>

lemma settle_grants:
  assumes "settle env access a out = (a', d, s)"
  shows "set (allowed_bash_commands (ac_state a)) \<subseteq> set (allowed_bash_commands (ac_state a'))
    \<and> set (disallowed_bash_commands (ac_state a)) \<subseteq> set (disallowed_bash_commands (ac_state a'))
    \<and> (d = decision.Allow \<or> ac_state a' = (ac_state a)
          \<lparr>disallowed_bash_commands := disallowed_bash_commands (ac_state a')\<rparr>
        \<and> ac_allow_edits a' = ac_allow_edits a)
    \<and> (if d = decision.Allow then disallowed_bash_commands (ac_state a') = disallowed_bash_commands (ac_state a)
       else True)"
  using assms
  by (cases out; cases access)
    (auto simp: settle_def update_state_def persist_def grant_bash_def reject_bash_def grant_domain_def
      grant_mcp_tool_def grant_mcp_server_def prompt_failed_def split: if_splits)

text \<open>What a session remembers follows the answer: allowed and refused commands are never forgotten by a
  request, a grant (or the session-wide permission to edit) is added only by an answer that allows, and a
  refused command only by one that does not.\<close>

theorem request_memory_follows_answer:
  "let (a', d, e) = handle_request w env a rq; st = ac_state a; st' = ac_state a'
   in set (allowed_bash_commands st) \<subseteq> set (allowed_bash_commands st')
      \<and> set (disallowed_bash_commands st) \<subseteq> set (disallowed_bash_commands st')
      \<and> (if d = decision.Allow then disallowed_bash_commands st' = disallowed_bash_commands st
         else st' = st\<lparr>disallowed_bash_commands := disallowed_bash_commands st'\<rparr>
              \<and> ac_allow_edits a' = ac_allow_edits a)"
proof -
  obtain a' d e where h: "handle_request w env a rq = (a', d, e)"
    by (cases "handle_request w env a rq")
  from h show ?thesis
  proof (cases rule: handle_request_cases)
    case settled
    then show ?thesis unfolding h by simp
  next
    case (prompted trigger s)
    from settle_grants[OF prompted(2)] show ?thesis unfolding h by (auto simp: Let_def)
  qed
qed

text \<open>What auto mode's forced prompt leaves open: a grant given before the classifier, YOLO, a policy allow.\<close>

lemma post_classify_forced_allow:
  assumes "bash_grant_pre_decision E cmd st pin (post_classify True) = Some (decision.Allow, reason)"
  shows "bash_grant_pre_decision E cmd st pin PRE_CLASSIFIER = Some (decision.Allow, reason)"
  using assms
  by (auto simp: bash_grant_pre_decision_def post_classify_def PRE_CLASSIFIER_def grant_allow_def
      split: segment_evaluation.splits)

lemma auto_forced_view:
  assumes "auto_stage E a access pv = AutoForcesPrompt reason"
  shows "ac_auto a \<and> \<not> pv_policy_forced pv \<and> \<not> pv_shell_forced pv"
  using assms by (auto simp: auto_stage_def Let_def split: if_splits)

lemma auto_forced_settled:
  assumes "auto_stage (w_ext w) a access (view_policy (w_ext w) env access) = AutoForcesPrompt reason"
    and "settle_or_prompt w env a access = Inl r" "rs_decision r = decision.Allow"
  shows "yolo_auto_approves a (tool_name_for_access access)
    \<or> evaluate (w_ext w) (me_policy env) access = Some decision.Allow
    \<or> (\<exists>reason. session_grant_pre_decision (w_ext w) access (ac_state a) (ac_allow_edits a) (me_domains env)
         (me_yolo_pin env) = Some (decision.Allow, reason))"
  (is "_ \<or> _ \<or> ?granted")
  using assms(2)
proof (cases rule: settle_stage)
  case session_grant
  then show ?thesis
    using assms(3) by (auto simp: session_grant_stage_def automatic_def split: if_splits)
next
  case policy_allow
  then have d: "pv_decision (view_policy (w_ext w) env access) = Some decision.Allow"
    using assms(3) by (auto simp: policy_allow_stage_def automatic_def split: option.splits decision.splits)
  show ?thesis
  proof (cases "\<exists>cmd. access = access_kind.Bash cmd")
    case True
    then obtain cmd where a: "access = access_kind.Bash cmd" by blast
    have "evaluate_bash_command_policy (w_ext w) (me_policy env) cmd \<noteq> Some decision.Allow"
      "evaluate_shell_file_access (w_ext w) (me_policy env) cmd (me_cwd env) \<noteq> Some decision.Allow"
      using command_gate_escalation[of "w_ext w" "me_policy env" cmd]
        shell_file_access_escalation[of "w_ext w" "me_policy env" cmd "me_cwd env"]
      by (auto simp: escalation_def)
    with d show ?thesis unfolding a view_simps by (blast dest: decisions.combine_member)
  next
    case False
    with d show ?thesis by (metis view_other(1))
  qed
next
  case pre_decision
  then have p: "access = access_kind.Bash cmd \<and> bash_grant_pre_decision (w_ext w) cmd (ac_state a) (me_yolo_pin env)
      (post_classify True) = Some (decision.Allow, reason) \<Longrightarrow> ?granted" for cmd reason
    by (auto simp: session_grant_pre_decision_def dest: post_classify_forced_allow)
  show ?thesis
    using pre_decision p assms(1,3) auto_forced_view[OF assms(1)]
    by (cases access) (auto simp: pre_decision_stage_def pre_decision_def auto_forces_def automatic_def
        auto_prompt_blocks_allow_def split: option.splits if_splits)
qed (use assms(1,3) in \<open>auto simp: stage_unfolds auto_forces_def split: option.splits decision.splits if_splits\<close>)

text \<open>
  What the session itself covers before the classifier is asked: a script whose commands are all cleared by grants
  and safe lists, or that holds no dangerous command and was granted word for word or falls under the approve-all
  switch; a script that does not split into commands only if it was granted word for word; a tool or server, a
  host or an edit that was granted.
\<close>

definition session_covers :: "externals \<Rightarrow> manager_env \<Rightarrow> actor \<Rightarrow> access_kind \<Rightarrow> bool" where
  "session_covers E env a access =
     (let st = ac_state a in case access of
        access_kind.Bash cmd \<Rightarrow>
          (case all_commands_from_script E cmd of
             None \<Rightarrow> cmd \<in> set (allowed_bash_commands st)
           | Some segs \<Rightarrow>
               list_all (\<lambda>c. rejected_by st (pc_words c) = None) segs
               \<and> (list_all (\<lambda>c. cleared st True (pc_words c)) segs
                  \<or> \<not> list_ex (\<lambda>c. dangerous_segment (pc_words c)) segs
                    \<and> (cmd \<in> set (allowed_bash_commands st)
                       \<or> allow_bash_execute st \<and> me_yolo_pin env = None)))
      | access_kind.WebFetch url \<Rightarrow>
          (case url_parse E url of
             None \<Rightarrow> False
           | Some u \<Rightarrow> check E (me_domains env) u = None
               \<or> (case host_str u of None \<Rightarrow> False
                  | Some host \<Rightarrow> normalize_domain E host \<in> set (allowed_web_fetch_domains st)))
      | MCPTool name _ \<Rightarrow> name \<in> set (allowed_mcp_tools st) \<or> mcp_server_prefix_allowed name (allowed_mcp_servers st)
      | access_kind.Edit _ \<Rightarrow> ac_allow_edits a
      | access_kind.Read _ \<Rightarrow> False
      | access_kind.Grep _ _ \<Rightarrow> False
      | access_kind.WebSearch _ \<Rightarrow> False
      | BrowserAct _ \<Rightarrow> False)"

lemma segments_covered:
  assumes "all_commands_from_script E cmd = Some segs"
  shows "(\<exists>reason. bash_grant_pre_decision E cmd st pin PRE_CLASSIFIER = Some (decision.Allow, reason)) \<longleftrightarrow>
     list_all (\<lambda>c. rejected_by st (pc_words c) = None) segs
     \<and> (list_all (\<lambda>c. cleared st True (pc_words c)) segs
        \<or> \<not> list_ex (\<lambda>c. dangerous_segment (pc_words c)) segs \<and> persisted_bash_auto_allows st cmd pin)"
proof -
  let ?raws = "map pc_words segs" and ?pending = "filter (\<lambda>r. \<not> cleared st True r) (map pc_words segs)"
  have rejected: "List.map_filter (rejected_by st) ?raws = [] \<longleftrightarrow> list_all (\<lambda>c. rejected_by st (pc_words c) = None) segs"
    by (auto simp: map_filter_Nil_iff list_all_iff)
  have pending: "?pending = [] \<longleftrightarrow> list_all (\<lambda>c. cleared st True (pc_words c)) segs"
    unfolding filter_Not_Nil_iff by (auto simp: list_all_iff)
  have dangerous: "list_ex dangerous_segment ?pending \<longleftrightarrow> list_ex (\<lambda>c. dangerous_segment (pc_words c)) segs"
    by (auto simp: list_ex_iff dest: dangerous_not_cleared)
  show ?thesis
    unfolding rejected[symmetric] pending[symmetric] dangerous[symmetric]
    by (auto simp: bash_grant_pre_decision_def PRE_CLASSIFIER_def evaluate_bash_segments_def evaluate_segments_verdict
        assms segment_verdict_def grant_allow_def Let_def split: list.split)
qed

lemma session_grant_iff:
  "(\<exists>reason. session_grant_pre_decision E access (ac_state a) (ac_allow_edits a) (me_domains env) (me_yolo_pin env)
      = Some (decision.Allow, reason)) \<longleftrightarrow> session_covers E env a access"
proof (cases access)
  case (Bash cmd)
  show ?thesis
  proof (cases "all_commands_from_script E cmd")
    case None
    then show ?thesis
      by (simp add: Bash session_grant_pre_decision_def session_covers_def bash_grant_pre_decision_def PRE_CLASSIFIER_def
          evaluate_bash_segments_def evaluate_segments_verdict grant_allow_def)
  next
    case (Some segs)
    then show ?thesis
      using segments_covered[OF Some, of "ac_state a" "me_yolo_pin env"]
      by (auto simp: Bash session_grant_pre_decision_def session_covers_def persisted_bash_auto_allows_def)
  qed
qed (auto simp: session_grant_pre_decision_def session_covers_def mcp_pre_decision_def web_fetch_pre_decision_def
    grant_allow_def split: option.splits)


definition auto_actor :: actor where
  "auto_actor = (example_actor make_granted False)\<lparr>ac_auto := True\<rparr>"

lemma allow_rule_view:
  "view_policy words_externals (example_env (one_rule_policy rule_action.Allow)) (access_kind.Bash cmd)
     = \<lparr>pv_decision = Some decision.Allow, pv_shell_file_forced = False, pv_shell_forced = False,
        pv_policy_forced = False\<rparr>"
proof -
  have "evaluate words_externals (one_rule_policy rule_action.Allow) (access_kind.Bash cmd) = Some decision.Allow"
    by (simp add: evaluate_def evaluate_rules_def one_rule_policy_def compiled_policy_new_def
        with_synthetic_rules_def permission_config_new_def compile_matchers_def pattern_matches_def)
  moreover have "evaluate_bash_command_policy words_externals (one_rule_policy rule_action.Allow) cmd = None"
    by (simp add: evaluate_bash_command_policy_def one_rule_policy_def compiled_policy_new_def
        with_synthetic_rules_def permission_config_new_def restricts_bash_def)
  ultimately show ?thesis by (simp add: view_policy_def example_env_def one_rule_file_gate)
qed

lemma make_session_grant:
  "\<exists>reason. bash_grant_pre_decision words_externals ''make b'' make_granted pin PRE_CLASSIFIER
     = Some (decision.Allow, reason)"
proof -
  obtain c where c: "all_commands_from_script words_externals ''make b'' = Some [c]" "pc_words c = [''make'', ''b'']"
    using words_command[of "''make b''"] unfolding make_words by blast
  have "cleared make_granted True [''make'', ''b'']"
    using make_cleared by (auto simp: cleared_def Let_def)
  with c make_cleared have "\<exists>via. evaluate_bash_segments_inner words_externals ''make b'' make_granted True = AutoAllow via"
    by (simp add: evaluate_AutoAllow_iff)
  then show ?thesis
    by (auto simp: bash_grant_pre_decision_def PRE_CLASSIFIER_def evaluate_bash_segments_def grant_allow_def)
qed

lemma make_auto_forced:
  "auto_stage words_externals auto_actor (access_kind.Bash ''make b'')
     (view_policy words_externals (example_env (one_rule_policy rule_action.Allow)) (access_kind.Bash ''make b''))
   = AutoForcesPrompt ''auto_classifier_block''"
proof -
  have "trim ''make b'' = ''make b''" by (simp add: trim_id_iff ws_seqs_def ends_with_def)
  moreover have "to_ascii_lowercase ''run_terminal_command'' = ''run_terminal_command''"
    by (simp add: to_ascii_lowercase_def ascii_lower_def)
  ultimately show ?thesis
    unfolding allow_rule_view
    by (simp add: auto_stage_def auto_actor_def example_defs auto_mode_fast_path_def access_requires_user_interaction_def
        is_auto_mode_allowlisted_access_def is_auto_mode_allowlisted_tool_name_def Let_def)
qed


subsection \<open>Where the manager departs from its documentation\<close>

text \<open>A rule that asks about a web search is ignored: in every mode the search runs without a prompt, where an
  asked file read or content search reaches the user.\<close>

theorem web_search_ask_ignored:
  assumes "evaluate (w_ext w) (me_policy env) (access_kind.WebSearch q) = Some decision.Ask"
    and "rq_access rq = access_kind.WebSearch q"
  shows "\<exists>e. handle_request w env a rq = (a, decision.Allow, e) \<and> \<not> pe_user_prompted e"
proof -
  let ?pv = "view_policy (w_ext w) env (access_kind.WebSearch q)"
  have d: "pv_decision ?pv = Some decision.Ask" using assms(1) by (simp add: view_other)
  then have "\<exists>reason. settle_or_prompt w env a (rq_access rq) = Inl (automatic decision.Allow reason)"
    using view_other(2)[of "access_kind.WebSearch q" "w_ext w" env] assms(2)
    by (auto simp: settle_or_prompt_def or_else_def policy_deny_stage_def yolo_stage_def session_grant_stage_def
        auto_stage_def sandbox_stage_def policy_allow_stage_def pre_decision_stage_def pre_decision_def
        view_simps(4) Let_def)
  then obtain reason where "settle_or_prompt w env a (rq_access rq) = Inl (automatic decision.Allow reason)" by blast
  from settled_request[OF this] show ?thesis by (simp add: automatic_def emit_event_def Let_def)
qed

definition ask_search_policy :: compiled_policy where
  "ask_search_policy = compiled_policy_new words_externals (permission_config_new
     [\<lparr>pr_action = rule_action.Ask, pr_tool = tool_filter.WebSearch, pr_pattern = None, pr_pattern_mode = Glob\<rparr>])"

theorem web_search_ask_ignored_witness:
  "\<exists>e. handle_request example_world (example_env ask_search_policy) (example_actor permission_state_default False)
     (example_request (access_kind.WebSearch ''x''))
   = (example_actor permission_state_default False, decision.Allow, e) \<and> \<not> pe_user_prompted e"
proof (rule web_search_ask_ignored)
  show "evaluate (w_ext example_world) (me_policy (example_env ask_search_policy)) (access_kind.WebSearch ''x'')
      = Some decision.Ask"
    by (simp add: example_defs evaluate_def evaluate_rules_def ask_search_policy_def compiled_policy_new_def
        with_synthetic_rules_def permission_config_new_def compile_matchers_def pattern_matches_def)
qed (simp add: example_request_def)

text \<open>A session without rules, in ask mode.\<close>

definition plain_env :: manager_env where
  "plain_env = example_env (compiled_policy_new words_externals permission_config_default)"

definition plain_world :: world where
  "plain_world = example_world\<lparr>w_sandbox_auto_allow_bash := False\<rparr>"

definition rm_granted :: permission_state where
  "rm_granted = permission_state_default\<lparr>allowed_bash_commands := [''rm a'']\<rparr>"

lemma plain_view:
  "view_policy words_externals plain_env (access_kind.Bash cmd)
     = \<lparr>pv_decision = None, pv_shell_file_forced = False, pv_shell_forced = False, pv_policy_forced = False\<rparr>"
  by (simp add: view_policy_def plain_env_def example_env_def evaluate_def evaluate_rules_def
      compiled_policy_new_def with_synthetic_rules_def permission_config_default_def compile_matchers_def
      evaluate_bash_command_policy_def evaluate_shell_file_access_def)

lemma rm_words: "split_on CHR '' '' ''rm a'' = [''rm'', ''a'']"
  by simp

lemma rm_unwrapped: "unwrap_wrappers [''rm'', ''a''] = [''rm'', ''a'']"
  by (rule plain_unwrap) (simp add: is_wrapper_command_def last_path_seg_def)

lemma rm_needs_prompt:
  "\<exists>ps. evaluate_bash_segments words_externals ''rm a'' rm_granted = NeedsPrompts ps True"
proof -
  obtain c where c: "all_commands_from_script words_externals ''rm a'' = Some [c]" "pc_words c = [''rm'', ''a'']"
    using words_command[of "''rm a''"] unfolding rm_words by blast
  have "rejected_by rm_granted [''rm'', ''a''] = None"
    by (simp add: rejected_by_def rm_unwrapped rm_granted_def permission_state_default_def is_setup_command_def)
  with c show ?thesis
    using dangerous_not_cleared[OF rm_a_dangerous] rm_a_dangerous
    by (simp add: evaluate_bash_segments_def evaluate_segments_verdict segment_verdict_def Let_def
        List.map_filter_def)
qed

text \<open>A dangerous command is remembered after all: the segment evaluation sends \<open>rm a\<close> to the prompt even when it
  is in the list of allowed commands, but in a session without rules and modes the same request is
  allowed without a prompt once that list holds the whole script, as one always-allow answer puts it there.\<close>

theorem exact_grant_runs_dangerous:
  "let (a', d, e) = handle_request plain_world plain_env (example_actor rm_granted False)
       (example_request (access_kind.Bash ''rm a''))
   in d = decision.Allow \<and> \<not> pe_user_prompted e
      \<and> (\<exists>ps. evaluate_bash_segments words_externals ''rm a'' rm_granted = NeedsPrompts ps True)
      \<and> rm_granted = grant_bash ''rm a'' permission_state_default"
proof -
  let ?a = "example_actor rm_granted False" and ?rq = "example_request (access_kind.Bash ''rm a'')"
  obtain ps where ps: "evaluate_bash_segments words_externals ''rm a'' rm_granted = NeedsPrompts ps True"
    using rm_needs_prompt by blast
  then have "bash_grant_pre_decision words_externals ''rm a'' rm_granted None PRE_CLASSIFIER = None"
    "bash_grant_pre_decision words_externals ''rm a'' rm_granted None (post_classify False)
       = Some (decision.Allow, ''session_grant'')"
    by (simp_all add: bash_grant_pre_decision_def PRE_CLASSIFIER_def post_classify_def grant_allow_def
        persisted_bash_auto_allows_def rm_granted_def)
  then have "settle_or_prompt plain_world plain_env ?a (rq_access ?rq)
      = Inl (automatic decision.Allow ''session_grant'')"
    using plain_view[of "''rm a''"]
    by (simp add: settle_or_prompt_def plain_world_def plain_env_def example_defs policy_deny_stage_def yolo_stage_def
        yolo_auto_approves_def session_grant_stage_def session_grant_pre_decision_def or_else_def auto_stage_def
        sandbox_stage_def policy_allow_stage_def pre_decision_stage_def pre_decision_def Let_def)
  from settled_request[OF this] ps show ?thesis
    by (auto simp: automatic_def emit_event_def Let_def grant_bash_def rm_granted_def hs_insert_def
        permission_state_default_def)
qed

end
