(* ===== verification/Permission_Handle.thy ===== *)
theory Permission_Handle
  imports Manager_Requests
begin

section \<open>Handles and the running manager (\<open>permission/manager.rs\<close>, \<open>PermissionHandle\<close>)\<close>

text \<open>
  Clones of a handle run in many tasks. A call of a handle's operation is a sequence of atomic steps -
  stores into the shared flags, then one send into the actor's queue - and the steps of concurrent
  calls interleave freely with each other and with the turns of the actor. A turn of the actor is one
  step; the atomics are sequentially consistent, which is stronger than the code's \<open>Relaxed\<close>. The
  channel is first in, first out. What a handle's calls return is \<open>request_result\<close> and the readers.
\<close>

subsection \<open>Calls\<close>

datatype permission_handle = Actor "str option" "str list" | AllowAll

datatype handle_call =
    CallSetYoloMode bool
  | CallSetYoloAllowlist "str list option"
  | CallSetAutoMode bool
  | CallSetClassifier "permission_classifier option"
  | CallSetClassifierWithSideQuery permission_classifier bool
  | CallSetLlmSideQueryWired bool
  | CallSetClassifierTranscript "classifier_turn list"
  | CallSetProjectInstructions "str option"
  | CallResetState
  | CallRequest permission_request

datatype atomic_step = StoreYolo bool | StoreAuto bool | StoreSideQuery bool | Send permission_command

definition set_yolo_mode :: "str option \<Rightarrow> bool \<Rightarrow> atomic_step list" where
  "set_yolo_mode yolo_pin enabled =
     (let clamped = clamp_yolo enabled yolo_pin in
      StoreYolo clamped # (if clamped then [StoreAuto False] else []) @ [Send (SetYoloMode enabled)])"

definition set_auto_mode :: "bool \<Rightarrow> atomic_step list" where
  "set_auto_mode enabled =
     StoreAuto enabled # (if enabled then [StoreYolo False] else []) @ [Send (SetAutoMode enabled)]"

fun call_steps :: "permission_handle \<Rightarrow> handle_call \<Rightarrow> atomic_step list" where
  "call_steps AllowAll call = []"
| "call_steps (Actor pin globs) (CallSetYoloMode enabled) = set_yolo_mode pin enabled"
| "call_steps (Actor pin globs) (CallSetYoloAllowlist allowlist) = [Send (SetYoloAllowlist allowlist)]"
| "call_steps (Actor pin globs) (CallSetAutoMode enabled) = set_auto_mode enabled"
| "call_steps (Actor pin globs) (CallSetClassifier classifier) =
     [StoreSideQuery False, Send (SetClassifier classifier)]"
| "call_steps (Actor pin globs) (CallSetClassifierWithSideQuery classifier live) =
     [StoreSideQuery live, Send (SetClassifier (Some classifier))]"
| "call_steps (Actor pin globs) (CallSetLlmSideQueryWired wired) = [StoreSideQuery wired]"
| "call_steps (Actor pin globs) (CallSetClassifierTranscript turns) = [Send (SetClassifierTranscript turns)]"
| "call_steps (Actor pin globs) (CallSetProjectInstructions i) = [Send (SetProjectInstructions i)]"
| "call_steps (Actor pin globs) CallResetState = [Send ResetState]"
| "call_steps (Actor pin globs) (CallRequest rq) = [Send (Request rq)]"

text \<open>The result of a request: whether the send succeeded, and the actor's answer if there was one.\<close>

fun request_result :: "permission_handle \<Rightarrow> bool \<Rightarrow> decision option \<Rightarrow> decision" where
  "request_result AllowAll sent reply = decision.Allow"
| "request_result (Actor pin globs) sent reply =
     (if \<not> sent then decision.Reject ''permission manager unavailable''
      else (case reply of
              Some d \<Rightarrow> d
            | None \<Rightarrow> decision.Reject ''failed to receive permission decision''))"

fun is_yolo_mode :: "permission_handle \<Rightarrow> shared_flags \<Rightarrow> bool" where
  "is_yolo_mode AllowAll fl = True"
| "is_yolo_mode (Actor pin globs) fl = fl_yolo fl"

fun is_auto_mode :: "permission_handle \<Rightarrow> shared_flags \<Rightarrow> bool" where
  "is_auto_mode AllowAll fl = False"
| "is_auto_mode (Actor pin globs) fl = fl_auto fl"

fun has_llm_side_query :: "permission_handle \<Rightarrow> shared_flags \<Rightarrow> bool" where
  "has_llm_side_query AllowAll fl = False"
| "has_llm_side_query (Actor pin globs) fl = fl_side_query fl"

fun deny_read_globs :: "permission_handle \<Rightarrow> str list" where
  "deny_read_globs AllowAll = []"
| "deny_read_globs (Actor pin globs) = globs"

subsection \<open>The system\<close>

text \<open>\<open>sy_sent\<close> and \<open>sy_log\<close> record the requests that were sent and the replies that were given.\<close>

record system =
  sy_flags :: shared_flags
  sy_queue :: "permission_command list"
  sy_open :: bool
  sy_actor :: actor
  sy_calls :: "atomic_step list list"
  sy_sent :: "permission_request list"
  sy_log :: "reply list"

definition requests_of :: "permission_command list \<Rightarrow> permission_request list" where
  "requests_of cs = List.map_filter (\<lambda>c. case c of Request rq \<Rightarrow> Some rq | _ \<Rightarrow> None) cs"

fun exec_atomic :: "atomic_step \<Rightarrow> system \<Rightarrow> system" where
  "exec_atomic (StoreYolo b) s = s\<lparr>sy_flags := (sy_flags s)\<lparr>fl_yolo := b\<rparr>\<rparr>"
| "exec_atomic (StoreAuto b) s = s\<lparr>sy_flags := (sy_flags s)\<lparr>fl_auto := b\<rparr>\<rparr>"
| "exec_atomic (StoreSideQuery b) s = s\<lparr>sy_flags := (sy_flags s)\<lparr>fl_side_query := b\<rparr>\<rparr>"
| "exec_atomic (Send c) s =
     (if sy_open s then s\<lparr>sy_queue := sy_queue s @ [c], sy_sent := sy_sent s @ requests_of [c]\<rparr> else s)"

definition actor_turn :: "world \<Rightarrow> manager_env \<Rightarrow> permission_command \<Rightarrow> system \<Rightarrow> system" where
  "actor_turn w env c s =
     (case handle_command w env c (sy_flags s, sy_actor s) of
        None \<Rightarrow> s\<lparr>sy_open := False\<rparr>
      | Some (fl, a, replies) \<Rightarrow> s\<lparr>sy_flags := fl, sy_actor := a, sy_log := sy_log s @ replies\<rparr>)"

inductive system_step :: "manager_env \<Rightarrow> system \<Rightarrow> system \<Rightarrow> bool" for env :: manager_env where
  call: "system_step env s (s\<lparr>sy_calls := call_steps (Actor (me_yolo_pin env) globs) op # sy_calls s\<rparr>)"
| atomic: "system_step env s (exec_atomic m (s\<lparr>sy_calls := before @ ms # rest\<rparr>))"
    if "sy_calls s = before @ (m # ms) # rest"
| turn: "system_step env s (actor_turn w env c (s\<lparr>sy_queue := q\<rparr>))"
    if "sy_open s" "sy_queue s = c # q"

definition spawn_system :: "externals \<Rightarrow> spawn_args \<Rightarrow> system" where
  "spawn_system E args =
     \<lparr>sy_flags = spawn_flags args, sy_queue = [], sy_open = True, sy_actor = spawn_actor E args,
      sy_calls = [], sy_sent = [], sy_log = []\<rparr>"

definition reachable :: "externals \<Rightarrow> spawn_args \<Rightarrow> system \<Rightarrow> bool" where
  "reachable E args s = (system_step (spawn_env E args))\<^sup>*\<^sup>* (spawn_system E args) s"

lemma reachable_invariant [consumes 1, case_names spawn step]:
  assumes "reachable E args s" "I (spawn_system E args)"
    and "\<And>s s'. I s \<Longrightarrow> system_step (spawn_env E args) s s' \<Longrightarrow> I s'"
  shows "I s"
  using assms(1) unfolding reachable_def by (induction rule: rtranclp_induct) (auto intro: assms)

subsection \<open>Flags published ahead of their mode\<close>

text \<open>
  A setter stores a flag at once and leaves the actor to follow. The contract that makes this safe: a
  call that stores the flag goes on to send a command that writes it, and the actor's turn on such a
  command publishes its own mode. Then the flag can differ from the mode only while a command
  that writes it is on its way.
\<close>

locale published_mode =
  fixes env :: manager_env
    and flag :: "shared_flags \<Rightarrow> bool"
    and mode :: "actor \<Rightarrow> bool"
    and writes :: "permission_command \<Rightarrow> bool"
    and stores :: "atomic_step \<Rightarrow> bool"
  assumes turn_writes: "handle_command w env c (fl, a) = Some (fl', a', rs) \<Longrightarrow> writes c \<Longrightarrow> flag fl' = mode a'"
    and turn_keeps: "handle_command w env c (fl, a) = Some (fl', a', rs) \<Longrightarrow> \<not> writes c \<Longrightarrow>
          flag fl' = flag fl \<and> mode a' = mode a"
    and store_keeps: "\<not> stores m \<Longrightarrow> flag (sy_flags (exec_atomic m s)) = flag (sy_flags s)"
    and call_announces: "call_steps (Actor (me_yolo_pin env) globs) op = before @ m # after \<Longrightarrow> stores m \<Longrightarrow>
          \<exists>c. Send c \<in> set after \<and> writes c"
begin

definition announces :: "atomic_step list \<Rightarrow> bool" where
  "announces ms \<longleftrightarrow> (\<exists>c. Send c \<in> set ms \<and> writes c)"

definition honest :: "atomic_step list \<Rightarrow> bool" where
  "honest ms \<longleftrightarrow> (\<forall>before m after. ms = before @ m # after \<and> stores m \<longrightarrow> announces after)"

definition on_its_way :: "system \<Rightarrow> bool" where
  "on_its_way s \<longleftrightarrow> (\<exists>c \<in> set (sy_queue s). writes c) \<or> (\<exists>ms \<in> set (sy_calls s). announces ms)"

definition published :: "system \<Rightarrow> bool" where
  "published s \<longleftrightarrow> (\<forall>ms \<in> set (sy_calls s). honest ms)
     \<and> (sy_open s \<longrightarrow> flag (sy_flags s) = mode (sy_actor s) \<or> on_its_way s)"

lemma honest_tl: "honest (m # ms) \<Longrightarrow> honest ms"
  unfolding honest_def by (metis append_Cons)

lemma honest_hd: "honest (m # ms) \<Longrightarrow> stores m \<Longrightarrow> announces ms"
  unfolding honest_def by (metis append_Nil)

lemma call_honest: "honest (call_steps (Actor (me_yolo_pin env) globs) op)"
  unfolding honest_def announces_def using call_announces by blast

lemma exec_frame [simp]:
  "sy_calls (exec_atomic m s) = sy_calls s" "sy_open (exec_atomic m s) = sy_open s"
  "sy_actor (exec_atomic m s) = sy_actor s"
  by (cases m; simp)+

lemma exec_queue: "sy_open s \<Longrightarrow> set (sy_queue (exec_atomic m s)) = set (sy_queue s) \<union> {c. m = Send c}"
  by (cases m) auto

lemma published_step:
  assumes "published s" "system_step env s s'"
  shows "published s'"
  using assms(2,1)
proof cases
  case (call globs op)
  then show ?thesis using assms(1) call_honest by (auto simp: published_def on_its_way_def)
next
  case (atomic before m ms rest)
  have h: "honest (m # ms)" "\<forall>l \<in> set before \<union> set rest. honest l"
    using assms(1) atomic(2) by (auto simp: published_def)
  let ?s = "s\<lparr>sy_calls := before @ ms # rest\<rparr>"
  have "flag (sy_flags s') = mode (sy_actor s') \<or> on_its_way s'" if open_s: "sy_open s'"
  proof -
    have o: "sy_open ?s" using that atomic(1) by simp
    have q: "set (sy_queue s') = set (sy_queue s) \<union> {c. m = Send c}" "sy_calls s' = before @ ms # rest"
      using exec_queue[OF o, of m] atomic(1) by simp_all
    consider (store) "stores m" | (way) "on_its_way s" | (eq) "\<not> stores m" "flag (sy_flags s) = mode (sy_actor s)"
      using assms(1) o by (auto simp: published_def)
    then show ?thesis
    proof cases
      case store
      then show ?thesis using honest_hd[OF h(1)] q by (auto simp: on_its_way_def)
    next
      case way
      then show ?thesis using q atomic(2) by (auto simp: on_its_way_def announces_def)
    next
      case eq
      then show ?thesis using store_keeps[of m ?s] atomic(1) by simp
    qed
  qed
  then show ?thesis using h honest_tl atomic(1) by (auto simp: published_def)
next
  case (turn c q w)
  show ?thesis
  proof (cases "handle_command w env c (sy_flags s, sy_actor s)")
    case None
    then show ?thesis using turn assms(1) by (simp add: published_def actor_turn_def)
  next
    case (Some r)
    obtain fl a rs where r: "r = (fl, a, rs)" by (cases r)
    have s': "sy_flags s' = fl" "sy_actor s' = a" "sy_queue s' = q" "sy_calls s' = sy_calls s"
      using turn(1) Some r by (simp_all add: actor_turn_def)
    show ?thesis
      using assms(1) turn(2,3) turn_writes[OF Some[unfolded r]] turn_keeps[OF Some[unfolded r]]
      by (cases "writes c") (auto simp: published_def on_its_way_def s')
  qed
qed

lemma published_reachable:
  assumes "reachable E args s" "env = spawn_env E args" "flag (spawn_flags args) = mode (spawn_actor E args)"
  shows "published s"
  using assms(1)
proof (induction rule: reachable_invariant)
  case spawn
  then show ?case using assms(3) by (simp add: published_def spawn_system_def)
next
  case (step s s')
  then show ?case using published_step assms(2) by simp
qed

lemma flag_or_writer:
  assumes "published s" "sy_open s"
  shows "flag (sy_flags s) = mode (sy_actor s)
    \<or> (\<exists>c. (c \<in> set (sy_queue s) \<or> (\<exists>ms \<in> set (sy_calls s). Send c \<in> set ms)) \<and> writes c)"
  using assms by (auto simp: published_def on_its_way_def announces_def)

end

lemma actor_frame:
  "a' = a\<lparr>ac_state := st, ac_disk := dir, ac_allow_edits := b\<rparr> \<Longrightarrow> ac_yolo a' = ac_yolo a \<and> ac_auto a' = ac_auto a"
  by simp

lemma handle_request_modes:
  "handle_request w env a rq = (a', d, e) \<Longrightarrow> ac_yolo a' = ac_yolo a \<and> ac_auto a' = ac_auto a"
  by (erule handle_request_cases) (simp, blast dest: settle_frame actor_frame)

lemma handle_command_modes:
  assumes "handle_command w env c (fl, a) = Some (fl', a', rs)"
  shows "(case c of
       SetYoloMode b \<Rightarrow> (fl', a') = actor_set_yolo env b (fl, a)
     | SetAutoMode b \<Rightarrow> (fl', a') = actor_set_auto (w_ext w) b (fl, a)
     | _ \<Rightarrow> fl' = fl \<and> ac_yolo a' = ac_yolo a \<and> ac_auto a' = ac_auto a)"
  using assms handle_request_modes
  by (cases c) (auto simp: actor_reset_state_def update_state_def persist_def split: prod.splits)

definition writes_yolo :: "permission_command \<Rightarrow> bool" where
  "writes_yolo c = (case c of SetYoloMode _ \<Rightarrow> True | SetAutoMode enabled \<Rightarrow> enabled | _ \<Rightarrow> False)"

definition writes_auto :: "str option \<Rightarrow> permission_command \<Rightarrow> bool" where
  "writes_auto pin c =
     (case c of SetAutoMode _ \<Rightarrow> True | SetYoloMode enabled \<Rightarrow> clamp_yolo enabled pin | _ \<Rightarrow> False)"

definition stores_yolo :: "atomic_step \<Rightarrow> bool" where
  "stores_yolo m = (case m of StoreYolo _ \<Rightarrow> True | _ \<Rightarrow> False)"

definition stores_auto :: "atomic_step \<Rightarrow> bool" where
  "stores_auto m = (case m of StoreAuto _ \<Rightarrow> True | _ \<Rightarrow> False)"

lemmas mode_writer_defs = writes_yolo_def writes_auto_def stores_yolo_def stores_auto_def
lemmas setter_defs = set_yolo_mode_def set_auto_mode_def actor_set_yolo_def actor_set_auto_def Let_def

interpretation yolo: published_mode env fl_yolo ac_yolo writes_yolo stores_yolo
proof
  show "fl_yolo fl' = ac_yolo a'"
    if "handle_command w env c (fl, a) = Some (fl', a', rs)" "writes_yolo c" for w c fl a fl' a' rs
    using handle_command_modes[OF that(1)] that(2)
    by (auto simp: mode_writer_defs setter_defs split: permission_command.splits if_splits)
  show "fl_yolo fl' = fl_yolo fl \<and> ac_yolo a' = ac_yolo a"
    if "handle_command w env c (fl, a) = Some (fl', a', rs)" "\<not> writes_yolo c" for w c fl a fl' a' rs
    using handle_command_modes[OF that(1)] that(2)
    by (auto simp: mode_writer_defs setter_defs split: permission_command.splits if_splits)
  show "\<exists>c. Send c \<in> set after \<and> writes_yolo c"
    if "call_steps (Actor (me_yolo_pin env) globs) op = before @ m # after" "stores_yolo m" for globs op before m after
    using that by (cases op) (auto simp: setter_defs mode_writer_defs Cons_eq_append_conv append_eq_Cons_conv
        split: if_splits)
qed (simp add: mode_writer_defs split: atomic_step.splits)

interpretation auto: published_mode env fl_auto ac_auto "writes_auto (me_yolo_pin env)" stores_auto
proof
  show "fl_auto fl' = ac_auto a'"
    if "handle_command w env c (fl, a) = Some (fl', a', rs)" "writes_auto (me_yolo_pin env) c" for w c fl a fl' a' rs
    using handle_command_modes[OF that(1)] that(2)
    by (auto simp: mode_writer_defs setter_defs split: permission_command.splits if_splits)
  show "fl_auto fl' = fl_auto fl \<and> ac_auto a' = ac_auto a"
    if "handle_command w env c (fl, a) = Some (fl', a', rs)" "\<not> writes_auto (me_yolo_pin env) c" for w c fl a fl' a' rs
    using handle_command_modes[OF that(1)] that(2)
    by (auto simp: mode_writer_defs setter_defs split: permission_command.splits if_splits)
  show "\<exists>c. Send c \<in> set after \<and> writes_auto (me_yolo_pin env) c"
    if "call_steps (Actor (me_yolo_pin env) globs) op = before @ m # after" "stores_auto m" for globs op before m after
    using that by (cases op) (auto simp: setter_defs mode_writer_defs Cons_eq_append_conv append_eq_Cons_conv
        split: if_splits)
qed (simp add: mode_writer_defs split: atomic_step.splits)

lemma pin_of_env: "me_yolo_pin (spawn_env E args) = sa_yolo_pin args"
  by (simp add: spawn_env_def)

lemma writes_yolo_cases: "writes_yolo c \<longleftrightarrow> c = SetAutoMode True \<or> (\<exists>enabled. c = SetYoloMode enabled)"
  by (cases c) (auto simp: writes_yolo_def)

lemma writes_auto_cases:
  "writes_auto pin c \<longleftrightarrow> c = SetYoloMode True \<and> pin = None \<or> (\<exists>enabled. c = SetAutoMode enabled)"
  by (cases c) (auto simp: writes_auto_def clamp_yolo_def)

subsection \<open>Invariants of the running manager\<close>

lemmas store_frames = yolo.exec_frame

text \<open>No call shuts the actor down, so it runs as long as a handle exists.\<close>

definition never_shut_down :: "system \<Rightarrow> bool" where
  "never_shut_down s \<longleftrightarrow> sy_open s \<and> Shutdown \<notin> set (sy_queue s)
     \<and> (\<forall>ms \<in> set (sy_calls s). Send Shutdown \<notin> set ms)"

lemma call_no_shutdown: "Send Shutdown \<notin> set (call_steps h op)"
  by (cases h; cases op) (auto simp: setter_defs)

lemma handle_command_continues: "c \<noteq> Shutdown \<Longrightarrow> handle_command w env c (fl, a) \<noteq> None"
  by (cases c) (auto simp: Let_def split: prod.splits)

lemma never_shut_down_step:
  assumes "never_shut_down s" "system_step env s s'"
  shows "never_shut_down s'"
  using assms(2,1)
proof cases
  case (call globs op)
  then show ?thesis using assms(1) call_no_shutdown by (auto simp: never_shut_down_def)
next
  case (atomic before m ms rest)
  then show ?thesis using assms(1) by (cases m) (auto simp: never_shut_down_def)
next
  case (turn c q w)
  then have "c \<noteq> Shutdown" using assms(1) by (auto simp: never_shut_down_def)
  then obtain fl a rs where "handle_command w env c (sy_flags s, sy_actor s) = Some (fl, a, rs)"
    using handle_command_continues by (metis not_None_eq prod_cases3)
  then show ?thesis using turn assms(1) by (auto simp: never_shut_down_def actor_turn_def)
qed

text \<open>What every turn keeps of the actor and every atomic step of the flags.\<close>

definition sound_actor :: "manager_env \<Rightarrow> actor \<Rightarrow> bool" where
  "sound_actor env a \<longleftrightarrow> \<not> (ac_yolo a \<and> ac_auto a) \<and> (ac_yolo a \<longrightarrow> me_yolo_pin env = None)
     \<and> edit_policy_of (ac_state a) \<noteq> edit_policy.Allow"

lemma settle_edit_policy:
  "settle env access a out = (a', d, s) \<Longrightarrow> edit_policy_of (ac_state a') = edit_policy_of (ac_state a)"
  by (cases out; cases access)
    (auto simp: settle_def update_state_def persist_def grant_bash_def reject_bash_def grant_domain_def
      grant_mcp_tool_def grant_mcp_server_def split: if_splits)

lemma handle_request_edit_policy:
  "handle_request w env a rq = (a', d, e) \<Longrightarrow> edit_policy_of (ac_state a') = edit_policy_of (ac_state a)"
  by (erule handle_request_cases) (simp, blast dest: settle_edit_policy)

lemma sound_actor_turn:
  assumes "sound_actor env a" "handle_command w env c (fl, a) = Some (fl', a', rs)"
  shows "sound_actor env a'"
  using assms handle_request_modes handle_request_edit_policy
  by (cases c)
    (auto simp: sound_actor_def setter_defs clamp_yolo_def actor_reset_state_def update_state_def persist_def
      permission_state_default_def split: prod.splits if_splits)

definition pinned_flags :: "manager_env \<Rightarrow> system \<Rightarrow> bool" where
  "pinned_flags env s \<longleftrightarrow> (if me_yolo_pin env = None then True
     else \<not> fl_yolo (sy_flags s) \<and> (\<forall>ms \<in> set (sy_calls s). StoreYolo True \<notin> set ms))"

lemma call_pinned: "StoreYolo True \<in> set (call_steps (Actor pin globs) op) \<Longrightarrow> pin = None"
  by (cases op) (auto simp: setter_defs clamp_yolo_def split: if_splits)

lemma pinned_turn:
  "me_yolo_pin env \<noteq> None \<Longrightarrow> \<not> fl_yolo fl \<Longrightarrow> handle_command w env c (fl, a) = Some (fl', a', rs) \<Longrightarrow>
     \<not> fl_yolo fl'"
  by (drule handle_command_modes)
    (auto simp: setter_defs clamp_yolo_def split: permission_command.splits if_splits)

definition sound_system :: "manager_env \<Rightarrow> system \<Rightarrow> bool" where
  "sound_system env s \<longleftrightarrow> sound_actor env (sy_actor s) \<and> pinned_flags env s \<and> never_shut_down s
     \<and> map fst (sy_log s) @ requests_of (sy_queue s) = sy_sent s"

lemma requests_of_append [simp]: "requests_of (cs @ ds) = requests_of cs @ requests_of ds"
  by (induction cs) (simp_all add: requests_of_def List.map_filter_simps split: permission_command.split)

lemma requests_of_Nil [simp]: "requests_of [] = []"
  by (simp add: requests_of_def List.map_filter_simps)

lemma turn_replies:
  "handle_command w env c (fl, a) = Some (fl', a', rs) \<Longrightarrow> map fst rs = requests_of [c]"
  by (cases c) (auto simp: requests_of_def List.map_filter_simps Let_def split: prod.splits)

lemma sound_system_step:
  assumes "sound_system env s" "system_step env s s'"
  shows "sound_system env s'"
proof -
  have down: "never_shut_down s'" using assms never_shut_down_step by (auto simp: sound_system_def)
  from assms(2) show ?thesis
  proof cases
    case (call globs op)
    then show ?thesis using assms(1) down call_pinned[of _ globs op]
      by (fastforce simp: sound_system_def pinned_flags_def)
  next
    case (atomic before m ms rest)
    then show ?thesis using assms(1) down by (cases m) (auto simp: sound_system_def pinned_flags_def never_shut_down_def)
  next
    case (turn c q w)
    then have "c \<noteq> Shutdown" using assms(1) by (auto simp: never_shut_down_def sound_system_def)
    then obtain fl a rs where h: "handle_command w env c (sy_flags s, sy_actor s) = Some (fl, a, rs)"
      using handle_command_continues by (metis not_None_eq prod_cases3)
    have "requests_of (sy_queue s) = requests_of [c] @ requests_of q"
      using turn(3) requests_of_append[of "[c]" q] by simp
    then show ?thesis
      using turn h assms(1) down sound_actor_turn[OF _ h] turn_replies[OF h]
        pinned_turn[OF _ _ h]
      by (auto simp: sound_system_def actor_turn_def pinned_flags_def split: if_splits)
  qed
qed

lemma spawn_sound: "sound_system (spawn_env E args) (spawn_system E args)"
  by (auto simp: sound_system_def sound_actor_def pinned_flags_def never_shut_down_def spawn_system_def
      spawn_actor_def spawn_flags_def spawn_env_def migrate_edit_policy_def update_state_def persist_def
      initial_yolo_def seed_auto_def clamp_yolo_def)

lemma reachable_sound: "reachable E args s \<Longrightarrow> sound_system (spawn_env E args) s"
  by (induction rule: reachable_invariant) (simp_all add: spawn_sound sound_system_step)

lemma flags_published:
  assumes "reachable E args s"
  shows "yolo.published s" "auto.published (spawn_env E args) s"
proof -
  show "yolo.published s"
    by (rule yolo.published_reachable[OF assms refl])
      (simp add: spawn_flags_def spawn_actor_def migrate_edit_policy_def update_state_def persist_def)
  show "auto.published (spawn_env E args) s"
    by (rule auto.published_reachable[OF assms refl])
      (simp add: spawn_flags_def spawn_actor_def migrate_edit_policy_def update_state_def persist_def)
qed

subsection \<open>The remember gate\<close>

text \<open>With the remember gate off and no hub, nothing a session remembers grows over what it loaded.\<close>

definition grants_within :: "permission_state \<Rightarrow> permission_state \<Rightarrow> bool" where
  "grants_within st st0 \<longleftrightarrow>
     set (allowed_bash_commands st) \<subseteq> set (allowed_bash_commands st0)
     \<and> set (disallowed_bash_commands st) \<subseteq> set (disallowed_bash_commands st0)
     \<and> set (allowed_web_fetch_domains st) \<subseteq> set (allowed_web_fetch_domains st0)
     \<and> set (allowed_mcp_tools st) \<subseteq> set (allowed_mcp_tools st0)
     \<and> set (allowed_mcp_servers st) \<subseteq> set (allowed_mcp_servers st0)
     \<and> (allow_bash_execute st \<longrightarrow> allow_bash_execute st0)"

lemma gate_off_settle:
  assumes "out \<in> {prompt_outcome.AllowOnce, AllowEditsForSession, prompt_outcome.RejectOnce, prompt_outcome.Cancelled}
      \<union> range prompt_outcome.FollowupMessage \<union> range Error"
    and "settle env access a out = (a', d, s)"
  shows "ac_state a' = ac_state a \<and> ac_disk a' = ac_disk a"
  using assms by (cases access) (auto simp: settle_def)

lemma gate_off_request:
  assumes "\<not> me_remember env" "\<not> me_hub env" "handle_request w env a rq = (a', d, e)"
  shows "ac_state a' = ac_state a \<and> ac_disk a' = ac_disk a"
proof -
  have "prompt_outcome_of w env rq
      \<in> {prompt_outcome.AllowOnce, AllowEditsForSession, prompt_outcome.RejectOnce, prompt_outcome.Cancelled}
        \<union> range prompt_outcome.FollowupMessage \<union> range Error"
    unfolding prompt_outcome_of_def
    by (rule gate_off_outcome) (simp_all add: prompter_of_def assms(1,2))
  from gate_off_settle[OF this] assms(3) show ?thesis
    by (elim handle_request_cases) auto
qed

lemma gate_off_turn:
  assumes "\<not> me_remember env" "\<not> me_hub env" "handle_command w env c (fl, a) = Some (fl', a', rs)"
    and "grants_within (ac_state a) st0"
  shows "grants_within (ac_state a') st0"
  using assms(3,4) gate_off_request[OF assms(1,2)]
  by (cases c)
    (auto simp: setter_defs actor_reset_state_def update_state_def persist_def permission_state_default_def
      grants_within_def split: prod.splits if_splits)

lemma gate_off_reachable:
  assumes "reachable E args s" "\<not> sa_remember_tool_approvals args" "\<not> sa_hub_permission args"
  shows "grants_within (ac_state (sy_actor s))
    (load_state_from_dir (sa_store args) (sa_disk args) (sa_client_identifier args))"
  using assms(1)
proof (induction rule: reachable_invariant)
  case spawn
  then show ?case
    by (simp add: spawn_system_def spawn_actor_def migrate_edit_policy_def update_state_def persist_def
        grants_within_def)
next
  case (step s s')
  have env: "\<not> me_remember (spawn_env E args)" "\<not> me_hub (spawn_env E args)"
    using assms(2,3) by (simp_all add: spawn_env_def)
  from step(2,1) show ?case
  proof cases
    case (turn c q w)
    then show ?thesis
      using step(1) gate_off_turn[OF env]
      by (cases "handle_command w (spawn_env E args) c (sy_flags s, sy_actor s)") (auto simp: actor_turn_def)
  qed (simp_all add: store_frames)
qed

subsection \<open>A concrete run\<close>

text \<open>A pinned session without the remember gate, and its state while a call that asks for YOLO is running.\<close>

definition pinned_args :: spawn_args where
  "pinned_args = \<lparr>sa_cwd = ''/w'', sa_client_type = from_client_identifier None, sa_permission_config = None,
     sa_deny_read_globs = [], sa_web_fetch_allowed_domains = [], sa_initial_yolo = True,
     sa_client_identifier = None, sa_remember_tool_approvals = False, sa_yolo_pin = Some ''policy'',
     sa_hub_permission = False,
     sa_store = \<lparr>toml_from_str = (\<lambda>_. None), toml_to_string = (\<lambda>_. None), write_succeeds = (\<lambda>_. True)\<rparr>,
     sa_disk = (\<lambda>_. None), sa_evolution_var = None, sa_home = None\<rparr>"

definition asking_yolo :: system where
  "asking_yolo = (spawn_system words_externals pinned_args)
     \<lparr>sy_calls := [call_steps (Actor (Some ''policy'') []) (CallSetYoloMode True)]\<rparr>"

lemma spawn_reachable: "reachable E args (spawn_system E args)"
  by (simp add: reachable_def)

lemma asking_yolo_reachable: "reachable words_externals pinned_args asking_yolo"
  using system_step.call[of "spawn_env words_externals pinned_args" "spawn_system words_externals pinned_args"
      "[]" "CallSetYoloMode True"]
  by (simp add: reachable_def asking_yolo_def spawn_system_def r_into_rtranclp)
    (simp add: spawn_env_def pinned_args_def r_into_rtranclp)

text \<open>
  A session without a pin in the middle of a call that turns auto mode on: the flag is stored, the command is not
  sent yet, and the actor is still in its old mode.
\<close>

definition open_args :: spawn_args where
  "open_args = pinned_args\<lparr>sa_yolo_pin := None, sa_initial_yolo := False\<rparr>"

definition halfway_to_auto :: system where
  "halfway_to_auto = exec_atomic (StoreAuto True) ((spawn_system words_externals open_args)
     \<lparr>sy_calls := [[StoreYolo False, Send (SetAutoMode True)]]\<rparr>)"

lemma halfway_to_auto_reachable: "reachable words_externals open_args halfway_to_auto"
proof -
  let ?env = "spawn_env words_externals open_args" and ?s = "spawn_system words_externals open_args"
  let ?called = "?s\<lparr>sy_calls := [[StoreAuto True, StoreYolo False, Send (SetAutoMode True)]]\<rparr>"
  have "system_step ?env ?s ?called"
    using system_step.call[of ?env ?s "[]" "CallSetAutoMode True"] by (simp add: set_auto_mode_def spawn_system_def)
  moreover have "system_step ?env ?called halfway_to_auto"
    using system_step.atomic[of ?called "[]" "StoreAuto True" "[StoreYolo False, Send (SetAutoMode True)]" "[]" ?env]
    by (simp add: halfway_to_auto_def)
  ultimately show ?thesis unfolding reachable_def by (meson converse_rtranclp_into_rtranclp r_into_rtranclp)
qed

lemma halfway_apart: "fl_auto (sy_flags halfway_to_auto) \<noteq> ac_auto (sy_actor halfway_to_auto)"
  by (simp add: halfway_to_auto_def spawn_system_def spawn_actor_def spawn_flags_def open_args_def pinned_args_def
      migrate_edit_policy_def update_state_def persist_def seed_auto_def)

subsection \<open>Properties\<close>

text \<open>C3: The modes of a running manager are exclusive and pinned in every reachable state, whatever calls
  interleave: YOLO and auto are never both on, under the managed pin YOLO is on neither in the actor nor in
  the flag the handles read (not even between the steps of a setter), and the edit policy is never the
  legacy allow.\<close>

theorem modes_exclusive_and_pinned:
  assumes "reachable E args s"
  shows "\<not> (ac_yolo (sy_actor s) \<and> ac_auto (sy_actor s))
    \<and> (if sa_yolo_pin args = None then True else \<not> ac_yolo (sy_actor s) \<and> \<not> fl_yolo (sy_flags s))
    \<and> edit_policy_of (ac_state (sy_actor s)) \<noteq> edit_policy.Allow"
  using reachable_sound[OF assms]
  by (auto simp: sound_system_def sound_actor_def pinned_flags_def spawn_env_def split: if_splits)

theorem modes_exclusive_and_pinned_witness:
  "\<not> ac_yolo (sy_actor asking_yolo) \<and> \<not> fl_yolo (sy_flags asking_yolo)"
  using modes_exclusive_and_pinned[OF asking_yolo_reachable] by (simp add: pinned_args_def)

text \<open>C4: The flags the handles read follow the actor, in every interleaving of setters, requests and turns: in every
  reachable state a flag is the actor's mode, or a command that writes that mode is in the queue or still to be sent
  by a running call - for YOLO, to set it or to turn auto mode on; for auto mode, to set it or to turn YOLO on where
  the managed pin allows it. So once the queue is empty and no call is running, both flags are the actor's modes.\<close>

theorem flags_follow_modes:
  assumes "reachable E args s"
  shows "(fl_yolo (sy_flags s) = ac_yolo (sy_actor s)
       \<or> (\<exists>c. (c \<in> set (sy_queue s) \<or> (\<exists>steps \<in> set (sy_calls s). Send c \<in> set steps))
             \<and> (c = SetAutoMode True \<or> (\<exists>enabled. c = SetYoloMode enabled))))
    \<and> (fl_auto (sy_flags s) = ac_auto (sy_actor s)
       \<or> (\<exists>c. (c \<in> set (sy_queue s) \<or> (\<exists>steps \<in> set (sy_calls s). Send c \<in> set steps))
             \<and> (c = SetYoloMode True \<and> sa_yolo_pin args = None \<or> (\<exists>enabled. c = SetAutoMode enabled))))
    \<and> (if sy_queue s = [] \<and> list_all (\<lambda>steps. steps = []) (sy_calls s)
       then fl_yolo (sy_flags s) = ac_yolo (sy_actor s) \<and> fl_auto (sy_flags s) = ac_auto (sy_actor s)
       else True)"
proof -
  have "sy_open s" using reachable_sound[OF assms] by (simp add: sound_system_def never_shut_down_def)
  note writers = yolo.flag_or_writer[OF flags_published(1)[OF assms] this, unfolded writes_yolo_cases]
    auto.flag_or_writer[OF flags_published(2)[OF assms] this, unfolded writes_auto_cases pin_of_env]
  have "if sy_queue s = [] \<and> list_all (\<lambda>steps. steps = []) (sy_calls s)
       then fl_yolo (sy_flags s) = ac_yolo (sy_actor s) \<and> fl_auto (sy_flags s) = ac_auto (sy_actor s) else True"
    using writers by (auto simp: list_all_iff)
  with writers show ?thesis by blast
qed

theorem flags_follow_modes_witness:
  "fl_auto (sy_flags halfway_to_auto) \<noteq> ac_auto (sy_actor halfway_to_auto)
   \<and> (\<exists>c. (c \<in> set (sy_queue halfway_to_auto) \<or> (\<exists>steps \<in> set (sy_calls halfway_to_auto). Send c \<in> set steps))
        \<and> (c = SetYoloMode True \<and> sa_yolo_pin open_args = None \<or> (\<exists>enabled. c = SetAutoMode enabled)))"
  using flags_follow_modes[OF halfway_to_auto_reachable, THEN conjunct2, THEN conjunct1] halfway_apart by blast

text \<open>C6: With the remember gate off and no hub, no run of the session - whatever the client answers - remembers
  anything: the allowed and refused commands, domains, MCP tools and servers of every reachable state are
  among those loaded from disk, and the approve-all switch is on only if it was on there.\<close>

theorem gate_off_session_never_grows:
  assumes "reachable E args s" "\<not> sa_remember_tool_approvals args" "\<not> sa_hub_permission args"
  shows "grants_within (ac_state (sy_actor s))
    (load_state_from_dir (sa_store args) (sa_disk args) (sa_client_identifier args))"
  using assms by (rule gate_off_reachable)

theorem gate_off_session_never_grows_witness:
  "grants_within (ac_state (sy_actor asking_yolo))
     (load_state_from_dir (sa_store pinned_args) (sa_disk pinned_args) (sa_client_identifier pinned_args))"
  using gate_off_session_never_grows[OF asking_yolo_reachable] by (simp add: pinned_args_def)

text \<open>A request fails closed: through an actor's handle it is allowed exactly when the command was sent and the
  actor answered allow; a closed channel and a lost reply are rejections.\<close>

lemma request_fails_closed:
  "request_result (Actor pin globs) sent reply = decision.Allow \<longleftrightarrow> sent \<and> reply = Some decision.Allow"
  by (auto split: option.split)

end
