(* ===== verification/Circuit_Breaker.thy ===== *)
theory Circuit_Breaker
  imports Complex_Main Prelude "HOL-Library.Word"
begin

section \<open>The HTTP circuit breaker (\<open>common/cf-circuit-breaker\<close>)\<close>

text \<open>
  The sliding window (\<open>window.rs\<close>) is kept as the code has it, a queue of samples with a failure count.
  The breaker (\<open>breaker.rs\<close>) is shared by threads: an operation is a program of atomic steps on the
  record \<open>breaker\<close> - one per load, store and read-modify-write, one per critical section of the window's
  mutex, one per reading of the clock - so that operations can be run on their own (\<open>run\<close>) or
  interleaved (\<open>schedule\<close>). Instants and durations are natural numbers of nanoseconds, an
  instant counted from the origin of the clock; millisecond counts are taken modulo 2^64 as \<open>as u64\<close>
  does; the probe counter is a 64-bit word. Observers only report and are left out.
\<close>

subsection \<open>The window\<close>

definition MAX_WINDOW_ENTRIES :: nat where
  "MAX_WINDOW_ENTRIES = 10000"

record sliding_window =
  entries :: "(nat \<times> bool) list"
  failures :: nat

definition window_new :: sliding_window where
  "window_new = \<lparr>entries = [], failures = 0\<rparr>"

definition pop_front :: "sliding_window \<Rightarrow> sliding_window" where
  "pop_front w =
     (case entries w of
        [] \<Rightarrow> w
      | (_, was_failure) # rest \<Rightarrow>
          \<lparr>entries = rest, failures = (if was_failure then failures w - 1 else failures w)\<rparr>)"

definition window_push :: "bool \<Rightarrow> nat \<Rightarrow> sliding_window \<Rightarrow> sliding_window" where
  "window_push is_failure t w =
     (let w = (if MAX_WINDOW_ENTRIES \<le> length (entries w) then pop_front w else w)
      in \<lparr>entries = entries w @ [(t, is_failure)],
          failures = (if is_failure then failures w + 1 else failures w)\<rparr>)"

fun evict_before :: "nat \<Rightarrow> (nat \<times> bool) list \<Rightarrow> nat \<Rightarrow> sliding_window" where
  "evict_before cutoff [] n = \<lparr>entries = [], failures = n\<rparr>"
| "evict_before cutoff ((ts, was_failure) # rest) n =
     (if ts < cutoff then evict_before cutoff rest (if was_failure then n - 1 else n)
      else \<lparr>entries = (ts, was_failure) # rest, failures = n\<rparr>)"

definition window_evict :: "nat \<Rightarrow> nat \<Rightarrow> sliding_window \<Rightarrow> sliding_window" where
  "window_evict window now w =
     (if now < window then w else evict_before (now - window) (entries w) (failures w))"

text \<open>Division of \<open>f64\<close> for counts: the quotient rounded to 53 significant bits, ties to even.\<close>

definition round_half_even :: "nat \<Rightarrow> nat \<Rightarrow> nat" where
  "round_half_even n d =
     (let q = n div d; r = n mod d
      in if 2 * r < d then q else if d < 2 * r then q + 1 else if even q then q else q + 1)"

definition f64_ratio :: "nat \<Rightarrow> nat \<Rightarrow> rat" where
  "f64_ratio n d =
     (if n = 0 then 0
      else (case find (\<lambda>k. 2 ^ 52 * d \<le> n * 2 ^ k) [0..<128] of
              Some k \<Rightarrow> of_nat (round_half_even (n * 2 ^ k) d) / 2 ^ k
            | None \<Rightarrow> 0))"

definition error_rate :: "sliding_window \<Rightarrow> rat" where
  "error_rate w = (if entries w = [] then 0 else f64_ratio (failures w) (length (entries w)))"

definition sample_count :: "sliding_window \<Rightarrow> nat" where
  "sample_count w = length (entries w)"

subsection \<open>Configuration\<close>

record breaker_config =
  window_duration :: nat
  min_samples :: nat
  error_rate_threshold :: rat
  open_duration :: nat
  half_open_max_probes :: "64 word"
  failure_codes :: "nat list"
  enabled :: bool

definition secs :: "nat \<Rightarrow> nat" where
  "secs n = n * 1000000000"

definition default_failure_codes :: "nat list" where
  "default_failure_codes = [429, 500, 502, 503, 504]"

definition config_server :: breaker_config where
  "config_server =
     \<lparr>window_duration = secs 60, min_samples = 10, error_rate_threshold = 1 / 2, open_duration = secs 10,
      half_open_max_probes = 1, failure_codes = default_failure_codes, enabled = True\<rparr>"

definition config_client :: breaker_config where
  "config_client =
     \<lparr>window_duration = secs 60, min_samples = 5, error_rate_threshold = 1 / 2, open_duration = secs 60,
      half_open_max_probes = 1, failure_codes = [401], enabled = True\<rparr>"

definition is_failure_status :: "breaker_config \<Rightarrow> nat \<Rightarrow> bool" where
  "is_failure_status cfg status = (status \<in> set (failure_codes cfg))"

definition with_clock_config :: "breaker_config \<Rightarrow> breaker_config" where
  "with_clock_config cfg = cfg\<lparr>half_open_max_probes := max (half_open_max_probes cfg) 1\<rparr>"

subsection \<open>Programs of atomic steps\<close>

datatype breaker_state = Closed | Open | HalfOpen

datatype outcome = Success | Failure

record breaker =
  br_state :: breaker_state
  br_baseline :: nat
  br_opened_at_millis :: nat
  br_half_open_probes :: "64 word"
  br_probe_claimed_at_millis :: nat
  br_is_open_fast :: bool
  br_window :: sliding_window
  br_now :: nat

datatype 'r prog = Done 'r | Step "breaker \<Rightarrow> breaker \<times> 'r prog"

definition load :: "(breaker \<Rightarrow> 'a) \<Rightarrow> ('a \<Rightarrow> 'r prog) \<Rightarrow> 'r prog" where
  "load f k = Step (\<lambda>b. (b, k (f b)))"

definition put :: "(breaker \<Rightarrow> breaker) \<Rightarrow> 'r prog \<Rightarrow> 'r prog" where
  "put u k = Step (\<lambda>b. (u b, k))"

definition update :: "(breaker \<Rightarrow> breaker \<times> 'a) \<Rightarrow> ('a \<Rightarrow> 'r prog) \<Rightarrow> 'r prog" where
  "update u k = Step (\<lambda>b. let (b', x) = u b in (b', k x))"

text \<open>A program run on its own.\<close>

primrec run :: "'r prog \<Rightarrow> breaker \<Rightarrow> breaker \<times> 'r" where
  "run (Done r) = (\<lambda>b. (b, r))"
| "run (Step f) = (\<lambda>b. case map_prod id run (f b) of (b', g) \<Rightarrow> g b')"

text \<open>Programs interleaved: \<open>schedule\<close> executes the steps of the threads in a given order.\<close>

definition thread_step :: "nat \<Rightarrow> breaker \<times> 'r prog list \<Rightarrow> breaker \<times> 'r prog list" where
  "thread_step i c =
     (let (b, ps) = c in
      if i < length ps then
        (case ps ! i of
           Done _ \<Rightarrow> (b, ps)
         | Step f \<Rightarrow> (let (b', p) = f b in (b', ps[i := p])))
      else (b, ps))"

definition schedule :: "nat list \<Rightarrow> breaker \<times> 'r prog list \<Rightarrow> breaker \<times> 'r prog list" where
  "schedule is c = foldl (\<lambda>c i. thread_step i c) c is"

subsection \<open>The operations\<close>

definition as_millis :: "nat \<Rightarrow> nat" where
  "as_millis d = (d div 1000000) mod 2 ^ 64"

definition from_millis :: "nat \<Rightarrow> nat" where
  "from_millis ms = ms * 1000000"

definition elapsed_millis :: "breaker \<Rightarrow> nat" where
  "elapsed_millis b = as_millis (br_now b - br_baseline b)"

definition breaker_new :: "nat \<Rightarrow> breaker" where
  "breaker_new now =
     \<lparr>br_state = Closed, br_baseline = now, br_opened_at_millis = 0, br_half_open_probes = 0,
      br_probe_claimed_at_millis = 0, br_is_open_fast = False, br_window = window_new, br_now = now\<rparr>"

text \<open>\<open>Err(BreakerOpen { retry_after })\<close> is \<open>Inl retry_after\<close>.\<close>

type_synonym admission = "nat + unit"

definition HALF_OPEN_PROBE_BACKOFF :: nat where
  "HALF_OPEN_PROBE_BACKOFF = 50000000"

definition cas_state :: "breaker_state \<Rightarrow> breaker_state \<Rightarrow> breaker \<Rightarrow> breaker \<times> bool" where
  "cas_state from to b = (if br_state b = from then (b\<lparr>br_state := to\<rparr>, True) else (b, False))"

definition cas_claimed :: "nat \<Rightarrow> nat \<Rightarrow> breaker \<Rightarrow> breaker \<times> bool" where
  "cas_claimed from to b =
     (if br_probe_claimed_at_millis b = from then (b\<lparr>br_probe_claimed_at_millis := to\<rparr>, True) else (b, False))"

definition try_half_open_probe :: "breaker_config \<Rightarrow> admission prog" where
  "try_half_open_probe cfg =
     (load elapsed_millis (\<lambda>now.
      update (\<lambda>b. (b\<lparr>br_half_open_probes := br_half_open_probes b + 1\<rparr>, br_half_open_probes b)) (\<lambda>prev.
      if prev < half_open_max_probes cfg then
        put (\<lambda>b. b\<lparr>br_probe_claimed_at_millis := now\<rparr>) (Done (Inr ()))
      else
        put (\<lambda>b. b\<lparr>br_half_open_probes := br_half_open_probes b - 1\<rparr>)
        (let lease_millis = as_millis (open_duration cfg);
             reject = Done (Inl (min HALF_OPEN_PROBE_BACKOFF (open_duration cfg)))
         in load br_probe_claimed_at_millis (\<lambda>claimed.
            if lease_millis \<le> now - claimed then
              update (cas_claimed claimed now) (\<lambda>won. if won then Done (Inr ()) else reject)
            else reject)))))"

definition check_open :: "breaker_config \<Rightarrow> admission prog" where
  "check_open cfg =
     (load br_opened_at_millis (\<lambda>opened.
      load elapsed_millis (\<lambda>now.
      let elapsed = from_millis (now - opened) in
      if open_duration cfg \<le> elapsed then
        update (cas_state Open HalfOpen) (\<lambda>won.
        if won then put (\<lambda>b. b\<lparr>br_is_open_fast := False\<rparr>) (try_half_open_probe cfg)
        else load br_state (\<lambda>st.
          case st of
            Closed \<Rightarrow> Done (Inr ())
          | HalfOpen \<Rightarrow> try_half_open_probe cfg
          | Open \<Rightarrow>
              load br_opened_at_millis (\<lambda>opened.
              load elapsed_millis (\<lambda>now.
              Done (Inl (open_duration cfg - from_millis (now - opened)))))))
      else Done (Inl (open_duration cfg - elapsed)))))"

definition breaker_check :: "breaker_config \<Rightarrow> admission prog" where
  "breaker_check cfg =
     (if \<not> enabled cfg then Done (Inr ())
      else load br_state (\<lambda>st.
        case st of
          Closed \<Rightarrow> Done (Inr ())
        | Open \<Rightarrow> check_open cfg
        | HalfOpen \<Rightarrow> try_half_open_probe cfg))"

definition trip :: "'r prog \<Rightarrow> 'r prog" where
  "trip k =
     (put (\<lambda>b. b\<lparr>br_state := Open\<rparr>)
     (load elapsed_millis (\<lambda>now.
      put (\<lambda>b. b\<lparr>br_opened_at_millis := now\<rparr>)
     (put (\<lambda>b. b\<lparr>br_half_open_probes := 0\<rparr>)
     (put (\<lambda>b. b\<lparr>br_is_open_fast := True\<rparr>) k)))))"

definition close :: "'r prog \<Rightarrow> 'r prog" where
  "close k =
     (put (\<lambda>b. b\<lparr>br_state := Closed\<rparr>)
     (put (\<lambda>b. b\<lparr>br_window := window_new\<rparr>)
     (put (\<lambda>b. b\<lparr>br_half_open_probes := 0\<rparr>)
     (put (\<lambda>b. b\<lparr>br_is_open_fast := False\<rparr>) k))))"

definition add_sample :: "breaker_config \<Rightarrow> bool \<Rightarrow> nat \<Rightarrow> sliding_window \<Rightarrow> sliding_window" where
  "add_sample cfg is_failure now w =
     window_evict (window_duration cfg) now (window_push is_failure now w)"

definition should_trip :: "breaker_config \<Rightarrow> sliding_window \<Rightarrow> bool" where
  "should_trip cfg w =
     (min_samples cfg \<le> sample_count w \<and> error_rate_threshold cfg \<le> error_rate w)"

definition record_outcome :: "breaker_config \<Rightarrow> outcome \<Rightarrow> unit prog" where
  "record_outcome cfg out =
     (if \<not> enabled cfg then Done ()
      else (let is_failure = (out = Failure) in
        load br_now (\<lambda>now.
        load br_state (\<lambda>prev_state.
        case prev_state of
          Closed \<Rightarrow>
            update (\<lambda>b. (let w = add_sample cfg is_failure now (br_window b)
                          in (b\<lparr>br_window := w\<rparr>, should_trip cfg w)))
              (\<lambda>trips. if trips then trip (Done ()) else Done ())
        | HalfOpen \<Rightarrow> if is_failure then trip (Done ()) else close (Done ())
        | Open \<Rightarrow>
            put (\<lambda>b. b\<lparr>br_window := add_sample cfg is_failure now (br_window b)\<rparr>) (Done ())))))"

subsection \<open>Clients\<close>

text \<open>What a client may do, one call at a time, and the passing of time.\<close>

datatype client_op = Check | Record outcome | Tick nat

definition tick :: "nat \<Rightarrow> unit prog" where
  "tick d = put (\<lambda>b. b\<lparr>br_now := br_now b + d\<rparr>) (Done ())"

fun op_prog :: "breaker_config \<Rightarrow> client_op \<Rightarrow> admission option prog" where
  "op_prog cfg Check = map_prog Some (breaker_check cfg)"
| "op_prog cfg (Record out) = map_prog (\<lambda>_. None) (record_outcome cfg out)"
| "op_prog cfg (Tick d) = map_prog (\<lambda>_. None) (tick d)"

fun run_ops :: "breaker_config \<Rightarrow> client_op list \<Rightarrow> breaker \<Rightarrow> breaker \<times> admission option list" where
  "run_ops cfg [] b = (b, [])"
| "run_ops cfg (op # ops) b =
     (let (b', r) = run (op_prog cfg op) b; (b'', rs) = run_ops cfg ops b' in (b'', r # rs))"

subsection \<open>The registry\<close>

definition DEFAULT_MAX_BREAKERS :: nat where "DEFAULT_MAX_BREAKERS = 256"
definition MAX_KEY_LEN :: nat where "MAX_KEY_LEN = 512"

record breaker_registry =
  reg_config :: breaker_config
  reg_breakers :: "(str \<times> breaker) list"
  reg_max_breakers :: nat

definition registry_new :: "breaker_config \<Rightarrow> breaker_registry" where
  "registry_new cfg = \<lparr>reg_config = cfg, reg_breakers = [], reg_max_breakers = DEFAULT_MAX_BREAKERS\<rparr>"

text \<open>\<open>get\<close> returns the key under which the caller shares the breaker.\<close>

definition registry_get :: "nat \<Rightarrow> str \<Rightarrow> breaker_registry \<Rightarrow> breaker_registry \<times> str option" where
  "registry_get now key r =
     (if \<not> enabled (reg_config r) then (r, None)
      else if MAX_KEY_LEN < length key then (r, None)
      else if map_of (reg_breakers r) key \<noteq> None then (r, Some key)
      else if reg_max_breakers r \<le> length (reg_breakers r) then (r, None)
      else (r\<lparr>reg_breakers := (key, breaker_new now) # reg_breakers r\<rparr>, Some key))"

subsection \<open>The retry policy\<close>

datatype disposition = Retryable | AuthRefresh | Terminal

record retry_policy =
  rp_retryable :: "nat list"
  rp_auth_refresh :: "nat list"
  rp_terminal :: "nat list"
  rp_default :: disposition

definition classify :: "retry_policy \<Rightarrow> nat \<Rightarrow> disposition option" where
  "classify p status =
     (if 200 \<le> status \<and> status < 300 then None
      else if status \<in> set (rp_auth_refresh p) then Some AuthRefresh
      else if status \<in> set (rp_terminal p) then Some Terminal
      else if status \<in> set (rp_retryable p) \<or> 500 \<le> status \<and> status < 600 then Some Retryable
      else Some (rp_default p))"

definition should_retry :: "retry_policy \<Rightarrow> nat \<Rightarrow> bool" where
  "should_retry p status = (classify p status = Some Retryable)"

definition policy_server :: retry_policy where
  "policy_server = \<lparr>rp_retryable = [429], rp_auth_refresh = [], rp_terminal = [], rp_default = Terminal\<rparr>"

definition policy_client_storage :: retry_policy where
  "policy_client_storage =
     \<lparr>rp_retryable = [], rp_auth_refresh = [401], rp_terminal = [400, 403, 404], rp_default = Retryable\<rparr>"

end
