(* ===== verification/Breaker_Sequential.thy ===== *)
theory Breaker_Sequential
  imports Circuit_Breaker
begin

section \<open>The circuit breaker, one operation at a time\<close>

text \<open>
  What an operation does when no other runs beside it: it refines a machine of three phases whose
  window is a plain list of samples. \<open>consistent\<close> is what holds between operations; the
  simulation preserves it.
\<close>

lemma run_load [simp]: "run (load f k) b = run (k (f b)) b"
  by (simp add: load_def)

lemma run_put [simp]: "run (put u k) b = run k (u b)"
  by (simp add: put_def)

lemma run_update [simp]: "run (update u k) b = (let (b', x) = u b in run (k x) b')"
  by (simp add: update_def split: prod.split)

subsection \<open>The window counts its failures\<close>

definition fails :: "(nat \<times> bool) list \<Rightarrow> nat" where
  "fails xs = length (filter snd xs)"

definition window_ok :: "sliding_window \<Rightarrow> bool" where
  "window_ok w \<longleftrightarrow> failures w = fails (entries w) \<and> length (entries w) \<le> MAX_WINDOW_ENTRIES"

lemma fails_simps [simp]:
  "fails [] = 0" "fails (x # xs) = (if snd x then 1 else 0) + fails xs" "fails (xs @ ys) = fails xs + fails ys"
  by (simp_all add: fails_def)

lemma window_new_ok [simp]: "window_ok window_new" "entries window_new = []"
  by (simp_all add: window_ok_def window_new_def)

definition keep_newest :: "(nat \<times> bool) list \<Rightarrow> (nat \<times> bool) list" where
  "keep_newest xs = (if MAX_WINDOW_ENTRIES \<le> length xs then tl xs else xs)"

lemma pop_front_entries: "window_ok w \<Longrightarrow> pop_front w = \<lparr>entries = tl (entries w), failures = fails (tl (entries w))\<rparr>"
  by (cases "entries w") (auto simp: pop_front_def window_ok_def)

lemma push_entries:
  assumes "window_ok w"
  shows "window_push f t w = (let xs = keep_newest (entries w) @ [(t, f)] in \<lparr>entries = xs, failures = fails xs\<rparr>)"
  using assms pop_front_entries[OF assms]
  by (auto simp: window_push_def keep_newest_def window_ok_def Let_def)

lemma evict_entries:
  "evict_before cutoff xs (fails xs) =
     (let ys = dropWhile (\<lambda>e. fst e < cutoff) xs in \<lparr>entries = ys, failures = fails ys\<rparr>)"
  by (induction xs) (auto simp: Let_def)

text \<open>The samples kept after one more, as a function of the list alone.\<close>

definition add_to_samples :: "breaker_config \<Rightarrow> bool \<Rightarrow> nat \<Rightarrow> (nat \<times> bool) list \<Rightarrow> (nat \<times> bool) list" where
  "add_to_samples cfg f now xs =
     (let ys = keep_newest xs @ [(now, f)]
      in if now < window_duration cfg then ys
         else dropWhile (\<lambda>e. fst e < now - window_duration cfg) ys)"

lemma keep_newest_length: "length xs \<le> MAX_WINDOW_ENTRIES \<Longrightarrow> length (keep_newest xs) < MAX_WINDOW_ENTRIES"
  by (auto simp: keep_newest_def MAX_WINDOW_ENTRIES_def)

lemma add_sample_entries:
  assumes "window_ok w"
  shows "add_sample cfg f now w =
    (let xs = add_to_samples cfg f now (entries w) in \<lparr>entries = xs, failures = fails xs\<rparr>)"
  by (simp add: add_sample_def push_entries[OF assms] window_evict_def add_to_samples_def evict_entries Let_def
      del: fails_simps)

lemma add_sample_ok:
  assumes "window_ok w"
  shows "window_ok (add_sample cfg f now w)"
proof -
  have "length (add_to_samples cfg f now (entries w)) \<le> Suc (length (keep_newest (entries w)))"
    using length_dropWhile_le[of _ "keep_newest (entries w) @ [(now, f)]"]
    by (auto simp: add_to_samples_def Let_def)
  then show ?thesis
    using assms keep_newest_length[of "entries w"]
    by (simp add: add_sample_entries window_ok_def Let_def)
qed

subsection \<open>The abstract machine\<close>

datatype phase =
    Shut "(nat \<times> bool) list"
  | Tripped nat "(nat \<times> bool) list"
  | Probing "64 word" nat "(nat \<times> bool) list"

fun spec_check :: "breaker_config \<Rightarrow> nat \<Rightarrow> phase \<Rightarrow> phase \<times> admission" where
  "spec_check cfg ms (Shut xs) = (Shut xs, Inr ())"
| "spec_check cfg ms (Tripped since xs) =
     (if open_duration cfg \<le> from_millis (ms - since) then (Probing 1 ms xs, Inr ())
      else (Tripped since xs, Inl (open_duration cfg - from_millis (ms - since))))"
| "spec_check cfg ms (Probing n claimed xs) =
     (if n < half_open_max_probes cfg then (Probing (n + 1) ms xs, Inr ())
      else if as_millis (open_duration cfg) \<le> ms - claimed then (Probing n ms xs, Inr ())
      else (Probing n claimed xs, Inl (min HALF_OPEN_PROBE_BACKOFF (open_duration cfg))))"

definition trips :: "breaker_config \<Rightarrow> (nat \<times> bool) list \<Rightarrow> bool" where
  "trips cfg xs \<longleftrightarrow> min_samples cfg \<le> length xs
     \<and> error_rate_threshold cfg \<le> (if xs = [] then 0 else f64_ratio (fails xs) (length xs))"

fun spec_record :: "breaker_config \<Rightarrow> outcome \<Rightarrow> nat \<Rightarrow> nat \<Rightarrow> phase \<Rightarrow> phase" where
  "spec_record cfg out now ms (Shut xs) =
     (let ys = add_to_samples cfg (out = Failure) now xs in if trips cfg ys then Tripped ms ys else Shut ys)"
| "spec_record cfg out now ms (Tripped since xs) = Tripped since (add_to_samples cfg (out = Failure) now xs)"
| "spec_record cfg out now ms (Probing n claimed xs) = (if out = Failure then Tripped ms xs else Shut [])"

definition phase_of :: "breaker \<Rightarrow> phase" where
  "phase_of b =
     (case br_state b of
        Closed \<Rightarrow> Shut (entries (br_window b))
      | Open \<Rightarrow> Tripped (br_opened_at_millis b) (entries (br_window b))
      | HalfOpen \<Rightarrow> Probing (br_half_open_probes b) (br_probe_claimed_at_millis b) (entries (br_window b)))"

text \<open>What holds of a breaker between operations.\<close>

definition consistent :: "breaker_config \<Rightarrow> breaker \<Rightarrow> bool" where
  "consistent cfg b \<longleftrightarrow>
     window_ok (br_window b) \<and> (br_is_open_fast b \<longleftrightarrow> br_state b = Open)
     \<and> br_half_open_probes b \<le> half_open_max_probes cfg
     \<and> (br_state b = HalfOpen \<or> br_half_open_probes b = 0)"

lemma new_consistent: "consistent cfg (breaker_new now)"
  by (simp add: consistent_def breaker_new_def)

lemma word_less_add_one: "(n :: 64 word) < m \<Longrightarrow> n + 1 \<le> m"
  by (rule inc_le)

lemma run_try_half_open_probe:
  assumes "consistent cfg b" "br_state b = HalfOpen"
    and "run (try_half_open_probe cfg) b = (b', r)"
  shows "consistent cfg b' \<and> (phase_of b', r) = spec_check cfg (elapsed_millis b) (phase_of b)"
  using assms
  by (auto simp: try_half_open_probe_def consistent_def phase_of_def cas_claimed_def Let_def word_less_add_one
      split: if_splits)

lemma run_check:
  assumes "consistent cfg b" "enabled cfg" "half_open_max_probes cfg \<noteq> 0"
    and "run (breaker_check cfg) b = (b', r)"
  shows "consistent cfg b' \<and> (phase_of b', r) = spec_check cfg (elapsed_millis b) (phase_of b)"
proof (cases "br_state b")
  case Closed
  then show ?thesis using assms by (auto simp: breaker_check_def phase_of_def)
next
  case HalfOpen
  then show ?thesis using assms run_try_half_open_probe[OF assms(1)] by (simp add: breaker_check_def)
next
  case Open
  have "(0::64 word) < half_open_max_probes cfg" using assms(3) by (simp add: word_neq_0_conv)
  moreover from this have "1 \<le> half_open_max_probes cfg" using word_less_add_one[of 0] by simp
  ultimately show ?thesis
    using assms(1,2,4) Open
    by (auto simp: breaker_check_def check_open_def try_half_open_probe_def consistent_def phase_of_def
        cas_state_def elapsed_millis_def Let_def word_less_add_one split: if_splits)
qed

lemma sampled:
  assumes "window_ok w"
  shows "entries (add_sample cfg f now w) = add_to_samples cfg f now (entries w)"
    and "should_trip cfg (add_sample cfg f now w) = trips cfg (add_to_samples cfg f now (entries w))"
  using add_sample_entries[OF assms]
  by (simp_all add: should_trip_def trips_def sample_count_def error_rate_def Let_def)

lemma run_record:
  assumes "consistent cfg b" "enabled cfg" "run (record_outcome cfg out) b = (b', u)"
  shows "consistent cfg b' \<and> phase_of b' = spec_record cfg out (br_now b) (elapsed_millis b) (phase_of b)"
proof -
  have w: "window_ok (br_window b)" using assms(1) by (simp add: consistent_def)
  note sampled [OF w, simp] add_sample_ok [OF w, simp]
  show ?thesis
    using assms
    by (cases "br_state b")
      (auto simp: record_outcome_def trip_def close_def consistent_def phase_of_def elapsed_millis_def
        Let_def split: if_splits)
qed

subsection \<open>Sequences of operations\<close>

lemma run_map_prog [simp]: "run (map_prog f p) b = (let (b', r) = run p b in (b', f r))"
proof (induction p arbitrary: b)
  case (Step g)
  obtain b1 p1 where g: "g b = (b1, p1)" by (cases "g b")
  then have "(b1, p1) \<in> range g" by (metis rangeI)
  then show ?case using Step.IH[of "(b1, p1)" p1 b1] g by (simp add: case_prod_beta)
qed simp

type_synonym spec_state = "nat \<times> phase"

fun spec_op :: "breaker_config \<Rightarrow> nat \<Rightarrow> client_op \<Rightarrow> spec_state \<Rightarrow> spec_state \<times> admission option" where
  "spec_op cfg t0 Check (now, ph) =
     (if \<not> enabled cfg then ((now, ph), Some (Inr ()))
      else (let (ph', r) = spec_check cfg (as_millis (now - t0)) ph in ((now, ph'), Some r)))"
| "spec_op cfg t0 (Record out) (now, ph) =
     (if \<not> enabled cfg then ((now, ph), None)
      else ((now, spec_record cfg out now (as_millis (now - t0)) ph), None))"
| "spec_op cfg t0 (Tick d) (now, ph) = ((now + d, ph), None)"

fun spec_ops :: "breaker_config \<Rightarrow> nat \<Rightarrow> client_op list \<Rightarrow> spec_state \<Rightarrow> spec_state \<times> admission option list" where
  "spec_ops cfg t0 [] st = (st, [])"
| "spec_ops cfg t0 (op # ops) st =
     (let (st', r) = spec_op cfg t0 op st; (st'', rs) = spec_ops cfg t0 ops st' in (st'', r # rs))"

definition spec_state_of :: "breaker \<Rightarrow> spec_state" where
  "spec_state_of b = (br_now b, phase_of b)"

lemma run_frame:
  "run (breaker_check cfg) b = (b', r) \<Longrightarrow> br_now b' = br_now b \<and> br_baseline b' = br_baseline b"
  "run (record_outcome cfg out) b = (b', u) \<Longrightarrow> br_now b' = br_now b \<and> br_baseline b' = br_baseline b"
  by (auto simp: breaker_check_def check_open_def try_half_open_probe_def record_outcome_def trip_def close_def
      cas_state_def cas_claimed_def Let_def split: breaker_state.splits if_splits)

lemma run_op:
  assumes "consistent cfg b" "half_open_max_probes cfg \<noteq> 0" "run (op_prog cfg op) b = (b', r)"
  shows "consistent cfg b' \<and> br_baseline b' = br_baseline b
    \<and> spec_op cfg (br_baseline b) op (spec_state_of b) = (spec_state_of b', r)"
proof (cases op)
  case Check
  obtain b1 r1 where c: "run (breaker_check cfg) b = (b1, r1)" by (cases "run (breaker_check cfg) b")
  show ?thesis
  proof (cases "enabled cfg")
    case True
    then show ?thesis
      using run_check[OF assms(1) True assms(2) c] run_frame(1)[OF c] assms(3) c Check
      by (auto simp: spec_state_of_def elapsed_millis_def split: prod.splits)
  next
    case False
    then show ?thesis using assms(1,3) Check by (simp add: breaker_check_def spec_state_of_def)
  qed
next
  case (Record out)
  obtain b1 u where c: "run (record_outcome cfg out) b = (b1, u)" by (cases "run (record_outcome cfg out) b")
  show ?thesis
  proof (cases "enabled cfg")
    case True
    then show ?thesis
      using run_record[OF assms(1) True c] run_frame(2)[OF c] assms(3) c Record
      by (auto simp: spec_state_of_def elapsed_millis_def)
  next
    case False
    then show ?thesis using assms(1,3) Record by (simp add: record_outcome_def spec_state_of_def)
  qed
next
  case (Tick d)
  then show ?thesis
    using assms(1,3) by (auto simp: tick_def spec_state_of_def consistent_def phase_of_def split: breaker_state.split)
qed

lemma run_ops_refine:
  assumes "consistent cfg b" "half_open_max_probes cfg \<noteq> 0" "run_ops cfg ops b = (b', rs)"
  shows "consistent cfg b' \<and> br_baseline b' = br_baseline b
    \<and> spec_ops cfg (br_baseline b) ops (spec_state_of b) = (spec_state_of b', rs)"
  using assms
proof (induction ops arbitrary: b rs)
  case Nil
  then show ?case by simp
next
  case (Cons op ops)
  obtain b1 r where op: "run (op_prog cfg op) b = (b1, r)" by (cases "run (op_prog cfg op) b")
  obtain rs1 where ops: "run_ops cfg ops b1 = (b', rs1)" "rs = r # rs1"
    using Cons.prems(3) op by (auto split: prod.splits)
  from run_op[OF Cons.prems(1,2) op] Cons.IH[OF _ Cons.prems(2) ops(1)] ops(2) show ?case by simp
qed

lemma with_clock_probes: "half_open_max_probes (with_clock_config cfg) \<noteq> 0"
proof -
  have "(0::64 word) < 1" by simp
  also have "1 \<le> max (half_open_max_probes cfg) 1" by simp
  finally show ?thesis by (simp add: with_clock_config_def)
qed

subsection \<open>Time\<close>

text \<open>The recorded instants lie in the past, as long as the millisecond count does not wrap.\<close>

fun ticks :: "client_op list \<Rightarrow> nat" where
  "ticks [] = 0"
| "ticks (Tick d # ops) = d + ticks ops"
| "ticks (op # ops) = ticks ops"

fun in_past :: "nat \<Rightarrow> phase \<Rightarrow> bool" where
  "in_past ms (Shut xs) = True"
| "in_past ms (Tripped since xs) = (since \<le> ms)"
| "in_past ms (Probing n claimed xs) = (claimed \<le> ms)"

lemma as_millis_small: "d div 1000000 < 2 ^ 64 \<Longrightarrow> as_millis d = d div 1000000"
  by (simp add: as_millis_def)

lemma in_past_mono: "in_past ms ph \<Longrightarrow> ms \<le> ms' \<Longrightarrow> in_past ms' ph"
  by (cases ph) auto

lemma spec_op_in_past:
  assumes "spec_op cfg t0 op (now, ph) = ((now', ph'), r)" "t0 \<le> now" "in_past (as_millis (now - t0)) ph"
    and "(now' - t0) div 1000000 < 2 ^ 64"
  shows "in_past (as_millis (now' - t0)) ph' \<and> now' = now + ticks [op]"
proof (cases op)
  case Check
  then show ?thesis using assms by (cases ph) (auto split: if_splits prod.splits)
next
  case (Record out)
  then show ?thesis using assms by (cases ph) (auto simp: Let_def split: if_splits)
next
  case (Tick d)
  then have n: "now' = now + d" "ph' = ph" using assms(1) by simp_all
  have le: "(now - t0) div 1000000 \<le> (now' - t0) div 1000000" unfolding n by (intro div_le_mono) simp
  then have "as_millis (now - t0) \<le> as_millis (now' - t0)"
    using assms(4) as_millis_small[of "now - t0"] as_millis_small[of "now' - t0"] by linarith
  then show ?thesis using in_past_mono[OF assms(3)] n Tick by simp
qed

lemma ticks_Cons: "ticks (op # ops) = ticks [op] + ticks ops"
  by (cases op) simp_all

lemma spec_op_ticks: "spec_op cfg t0 op (now, ph) = ((now', ph'), r) \<Longrightarrow> now' = now + ticks [op]"
  by (cases op) (auto split: if_splits prod.splits)

lemma spec_ops_in_past:
  assumes "spec_ops cfg t0 ops (now, ph) = ((now', ph'), rs)" "t0 \<le> now" "in_past (as_millis (now - t0)) ph"
    and "(now + ticks ops - t0) div 1000000 < 2 ^ 64"
  shows "in_past (as_millis (now' - t0)) ph' \<and> now' = now + ticks ops"
  using assms
proof (induction ops arbitrary: now ph rs)
  case Nil
  then show ?case by simp
next
  case (Cons op ops)
  obtain now1 ph1 r where op: "spec_op cfg t0 op (now, ph) = ((now1, ph1), r)" by (metis prod.exhaust)
  obtain rs1 where ops: "spec_ops cfg t0 ops (now1, ph1) = ((now', ph'), rs1)"
    using Cons.prems(1) op by (auto split: prod.splits)
  have now1: "now1 = now + ticks [op]" using spec_op_ticks[OF op] .
  have "(now1 - t0) div 1000000 \<le> (now + ticks (op # ops) - t0) div 1000000"
    using now1 ticks_Cons[of op ops] by (intro div_le_mono) simp
  then have "(now1 - t0) div 1000000 < 2 ^ 64" using Cons.prems(4) by (rule le_less_trans)
  from spec_op_in_past[OF op Cons.prems(2,3) this] Cons.IH[OF ops] Cons.prems(2,4) now1 ticks_Cons[of op ops]
  show ?case by (auto simp: add.assoc)
qed

lemma run_ops_append:
  "run_ops cfg (ops @ ops') b =
     (let (b1, rs) = run_ops cfg ops b; (b2, rs') = run_ops cfg ops' b1 in (b2, rs @ rs'))"
  by (induction ops arbitrary: b) (auto simp: Let_def split: prod.splits)

text \<open>A wait of the cool-down, rounded up to a millisecond, is seen as such whatever the remainders are.\<close>

lemma recovered:
  assumes "since \<le> d div 1000000"
  shows "w \<le> from_millis ((d + (w + 1000000)) div 1000000 - since)"
    and "w div 1000000 \<le> (d + (w + 1000000)) div 1000000 - since"
  using assms unfolding from_millis_def by linarith+

lemma spec_check_recovers:
  assumes "enabled cfg" "half_open_max_probes cfg \<noteq> 0" "in_past (as_millis d) ph"
    and "(d + (open_duration cfg + 1000000)) div 1000000 < 2 ^ 64"
  shows "snd (spec_check cfg (as_millis (d + (open_duration cfg + 1000000))) ph) = Inr ()"
proof -
  let ?w = "open_duration cfg"
  have small: "d div 1000000 < 2 ^ 64" "?w div 1000000 < 2 ^ 64" using assms(4) by linarith+
  then have m: "as_millis d = d div 1000000" "as_millis ?w = ?w div 1000000"
    "as_millis (d + (?w + 1000000)) = (d + (?w + 1000000)) div 1000000"
    using assms(4) by (simp_all only: as_millis_small)
  show ?thesis
    using assms(3) recovered[of _ d ?w] unfolding m by (cases ph) (auto simp: m)
qed

subsection \<open>Properties\<close>

text \<open>C19: On its own, the breaker refines a machine of three phases over the list of its samples. Whatever a client
  calls and however time passes, its answers are those of the machine, its window holds the machine's
  samples (at most 10000, none counted wrongly), the lock-free mirror says exactly whether it is open, and
  outside the half-open phase no probe slot is taken.\<close>

theorem breaker_refines_phases:
  "let cfg' = with_clock_config cfg; (b, replies) = run_ops cfg' ops (breaker_new t0)
   in spec_ops cfg' t0 ops (t0, Shut []) = (spec_state_of b, replies) \<and> consistent cfg' b"
proof -
  obtain b rs where r: "run_ops (with_clock_config cfg) ops (breaker_new t0) = (b, rs)"
    by (cases "run_ops (with_clock_config cfg) ops (breaker_new t0)")
  have "spec_state_of (breaker_new t0) = (t0, Shut [])" "br_baseline (breaker_new t0) = t0"
    by (simp_all add: spec_state_of_def phase_of_def breaker_new_def window_new_def)
  with run_ops_refine[OF new_consistent with_clock_probes r] show ?thesis by (simp add: r Let_def)
qed

text \<open>No sequence of calls strands the breaker: whatever outcomes were recorded and however many probes were
  admitted and never reported back, once no call is made for the cool-down (rounded up by a millisecond)
  the next check is admitted - in every phase, as long as the breaker is younger than 2^64 milliseconds.\<close>

theorem breaker_recovers:
  assumes "enabled cfg" "(ticks ops + (open_duration cfg + 1000000)) div 1000000 < 2 ^ 64"
  shows "last (snd (run_ops (with_clock_config cfg) (ops @ [Tick (open_duration cfg + 1000000), Check])
    (breaker_new t0))) = Some (Inr ())"
proof -
  let ?cfg = "with_clock_config cfg" and ?w = "open_duration cfg + 1000000"
  have cfg: "enabled ?cfg" "open_duration ?cfg = open_duration cfg"
    using assms(1) by (simp_all add: with_clock_config_def)
  obtain b rs where ops: "run_ops ?cfg ops (breaker_new t0) = (b, rs)"
    by (cases "run_ops ?cfg ops (breaker_new t0)")
  have new: "spec_state_of (breaker_new t0) = (t0, Shut [])" "br_baseline (breaker_new t0) = t0"
    by (simp_all add: spec_state_of_def phase_of_def breaker_new_def window_new_def)
  from run_ops_refine[OF new_consistent with_clock_probes ops] have r: "consistent ?cfg b" "br_baseline b = t0"
      "spec_ops ?cfg t0 ops (t0, Shut []) = ((br_now b, phase_of b), rs)"
    by (simp_all add: new spec_state_of_def[symmetric])
  have "(t0 + ticks ops - t0) div 1000000 < 2 ^ 64" using assms(2) by simp
  from spec_ops_in_past[OF r(3) _ _ this] have p: "in_past (as_millis (ticks ops)) (phase_of b)"
      "br_now b = t0 + ticks ops" by auto
  obtain b1 rs1 where two: "run_ops ?cfg [Tick ?w, Check] b = (b1, rs1)" by (cases "run_ops ?cfg [Tick ?w, Check] b")
  from run_ops_refine[OF r(1) with_clock_probes two]
  have "spec_ops ?cfg t0 [Tick ?w, Check] (br_now b, phase_of b) = (spec_state_of b1, rs1)"
    by (simp only: r(2) spec_state_of_def)
  then have "last rs1 = Some (snd (spec_check ?cfg (as_millis (ticks ops + ?w)) (phase_of b)))"
    using cfg p(2) by (auto split: prod.splits)
  moreover have "snd (spec_check ?cfg (as_millis (ticks ops + ?w)) (phase_of b)) = Inr ()"
    using spec_check_recovers[of ?cfg "ticks ops" "phase_of b"] cfg with_clock_probes assms(2) p by simp
  moreover have "rs1 \<noteq> []" using two by (auto split: prod.splits)
  ultimately show ?thesis using ops two by (simp add: run_ops_append last_append del: run_ops.simps)
qed

theorem breaker_recovers_witness:
  "last (snd (run_ops (with_clock_config config_server)
     ([Record Failure, Check] @ [Tick (secs 10 + 1000000), Check]) (breaker_new 5))) = Some (Inr ())"
  using breaker_recovers[of config_server "[Record Failure, Check]" 5]
  by (simp add: config_server_def secs_def del: run_ops.simps)

subsection \<open>The registry\<close>

definition registry_ok :: "breaker_registry \<Rightarrow> bool" where
  "registry_ok r \<longleftrightarrow> distinct (map fst (reg_breakers r)) \<and> length (reg_breakers r) \<le> reg_max_breakers r
     \<and> list_all (\<lambda>(k, b). length k \<le> MAX_KEY_LEN) (reg_breakers r)"

lemma registry_get_ok: "registry_ok r \<Longrightarrow> registry_ok (fst (registry_get now key r))"
  by (auto simp: registry_get_def registry_ok_def map_of_eq_None_iff)

text \<open>The registry is bounded whatever keys it is asked for: never more than 256 breakers, no key over 512
  bytes, and one breaker per key.\<close>

theorem registry_bounded:
  "let r = foldl (\<lambda>r (now, key). fst (registry_get now key r)) (registry_new cfg) calls
   in length (reg_breakers r) \<le> 256 \<and> distinct (map fst (reg_breakers r))
      \<and> list_all (\<lambda>(k, b). length k \<le> 512) (reg_breakers r)"
proof -
  define r where "r = foldl (\<lambda>r (now, key). fst (registry_get now key r)) (registry_new cfg) calls"
  have "registry_ok r \<and> reg_max_breakers r = 256"
    unfolding r_def
  proof (induction calls rule: rev_induct)
    case Nil
    then show ?case by (simp add: registry_ok_def registry_new_def DEFAULT_MAX_BREAKERS_def)
  next
    case (snoc c calls)
    then show ?case using registry_get_ok by (cases c) (auto simp: registry_get_def)
  qed
  then show ?thesis by (simp add: r_def registry_ok_def MAX_KEY_LEN_def Let_def)
qed

end
