(* ===== verification/Breaker_Threads.thy ===== *)
theory Breaker_Threads
  imports Breaker_Sequential
begin

section \<open>The circuit breaker under concurrent calls\<close>

text \<open>
  Calls of several threads interleave step by step. What the steps of every operation keep holds in
  every interleaving; what the operations keep only as a whole need not, and two schedules show where
  it fails.
\<close>

subsection \<open>Invariants of steps\<close>

inductive safe :: "(breaker \<Rightarrow> bool) \<Rightarrow> 'r prog \<Rightarrow> bool" for I where
  safe_Done [simp]: "safe I (Done r)"
| safe_Step: "safe I (Step f)" if "\<And>b. I b \<Longrightarrow> I (fst (f b))" "\<And>b. I b \<Longrightarrow> safe I (snd (f b))"

inductive_cases safe_StepE: "safe I (Step f)"

lemma safe_load: "(\<And>x. safe I (k x)) \<Longrightarrow> safe I (load f k)"
  by (auto simp: load_def intro: safe_Step)

lemma safe_put: "(\<And>b. I b \<Longrightarrow> I (u b)) \<Longrightarrow> safe I k \<Longrightarrow> safe I (put u k)"
  by (auto simp: put_def intro: safe_Step)

lemma safe_update: "(\<And>b. I b \<Longrightarrow> I (fst (u b))) \<Longrightarrow> (\<And>x. safe I (k x)) \<Longrightarrow> safe I (update u k)"
  by (auto simp: update_def Let_def case_prod_beta intro!: safe_Step)

lemmas safe_intros = safe_load safe_put safe_update safe_Done

lemma safe_map: "safe I p \<Longrightarrow> safe I (map_prog f p)"
  by (induction rule: safe.induct) (auto intro!: safe_Step)

lemma thread_step_safe:
  assumes "list_all (safe I) ps" "I b" "thread_step i (b, ps) = (b', ps')"
  shows "list_all (safe I) ps' \<and> I b'"
proof (cases "i < length ps")
  case True
  then have s: "safe I (ps ! i)" using assms(1) by (simp add: list_all_length)
  show ?thesis
  proof (cases "ps ! i")
    case (Step f)
    have "I (fst (f b))" "safe I (snd (f b))" using s assms(2) unfolding Step by (auto elim: safe_StepE)
    with True Step assms show ?thesis
      by (auto simp: thread_step_def list_all_length nth_list_update split: prod.splits)
  qed (use True assms in \<open>simp add: thread_step_def\<close>)
qed (use assms in \<open>simp add: thread_step_def\<close>)

lemma schedule_safe:
  assumes "list_all (safe I) ps" "I b"
  shows "I (fst (schedule is (b, ps)))"
  using assms
proof (induction "is" arbitrary: b ps)
  case Nil
  then show ?case by (simp add: schedule_def)
next
  case (Cons i "is")
  obtain b' ps' where t: "thread_step i (b, ps) = (b', ps')" by (cases "thread_step i (b, ps)")
  from Cons.IH thread_step_safe[OF Cons.prems t] t show ?case by (simp add: schedule_def)
qed

lemma op_safe:
  "safe (\<lambda>b. window_ok (br_window b)) (op_prog cfg op)"
proof -
  let ?I = "\<lambda>b. window_ok (br_window b)"
  have probe: "safe ?I (try_half_open_probe cfg)"
    by (auto simp: try_half_open_probe_def cas_claimed_def Let_def intro!: safe_intros)
  have "safe ?I (breaker_check cfg)"
    by (auto simp: breaker_check_def check_open_def cas_state_def Let_def intro!: safe_intros probe
        split: breaker_state.split)
  moreover have "safe ?I (record_outcome cfg out)" for out
    by (auto simp: record_outcome_def trip_def close_def Let_def add_sample_ok intro!: safe_intros
        split: breaker_state.split)
  moreover have "safe ?I (tick d)" for d
    by (auto simp: tick_def intro!: safe_intros)
  ultimately show ?thesis by (cases op) (auto intro: safe_map)
qed

subsection \<open>Properties\<close>

text \<open>In every interleaving of any calls the window counts its failures exactly and holds at most 10000
  samples.\<close>

theorem window_exact_in_every_interleaving:
  "let (b, ps) = schedule is (breaker_new t0, map (op_prog cfg) ops); w = br_window b
   in failures w = length (filter snd (entries w)) \<and> length (entries w) \<le> 10000"
proof -
  have "list_all (safe (\<lambda>b. window_ok (br_window b))) (map (op_prog cfg) ops)"
    by (simp add: list_all_iff op_safe)
  moreover have "window_ok (br_window (breaker_new t0))" by (simp add: breaker_new_def)
  ultimately have "window_ok (br_window (fst (schedule is (breaker_new t0, map (op_prog cfg) ops))))"
    by (rule schedule_safe)
  then show ?thesis
    by (auto simp: window_ok_def fails_def MAX_WINDOW_ENTRIES_def Let_def split: prod.split)
qed

text \<open>The server preset with a threshold of one sample.\<close>

definition one_sample_config :: breaker_config where
  "one_sample_config = config_server\<lparr>min_samples := 1\<rparr>"

lemma ratio_one: "f64_ratio 1 1 = 1"
  by (simp add: f64_ratio_def upt_rec round_half_even_def)

lemma schedule_simps:
  "schedule [] c = c" "schedule (i # is) c = schedule is (thread_step i c)"
  by (simp_all add: schedule_def)

text \<open>Executing one step of a thread, by what the step is.\<close>

lemma thread_step_prims [simp]:
  "i < length ps \<Longrightarrow> ps ! i = load f k \<Longrightarrow> thread_step i (b, ps) = (b, ps[i := k (f b)])"
  "i < length ps \<Longrightarrow> ps ! i = put u l \<Longrightarrow> thread_step i (b, ps) = (u b, ps[i := l])"
  "i < length ps \<Longrightarrow> ps ! i = update v m \<Longrightarrow> thread_step i (b, ps) = (fst (v b), ps[i := m (snd (v b))])"
  by (simp_all add: thread_step_def load_def put_def update_def Let_def split: prod.split)

lemma map_prog_prims [simp]:
  "map_prog g (load f k) = load f (\<lambda>x. map_prog g (k x))"
  "map_prog g (put u l) = put u (map_prog g l)"
  "map_prog g (update v m) = update v (\<lambda>x. map_prog g (m x))"
  by (auto simp: load_def put_def update_def Let_def split: prod.split)

text \<open>The breaker after one failure and the cool-down.\<close>

definition cooled :: breaker where
  "cooled = (breaker_new 0)\<lparr>br_state := Open, br_is_open_fast := True,
     br_window := \<lparr>entries = [(0, True)], failures = 1\<rparr>, br_now := secs 10\<rparr>"

lemma cooled_reached:
  "fst (run_ops one_sample_config [Record Failure, Tick (secs 10)] (breaker_new 0)) = cooled"
  by (simp add: record_outcome_def one_sample_config_def config_server_def breaker_new_def cooled_def tick_def
      trip_def add_sample_def window_push_def window_evict_def window_new_def should_trip_def sample_count_def
      error_rate_def ratio_one[simplified] MAX_WINDOW_ENTRIES_def secs_def elapsed_millis_def as_millis_def)

lemmas execute_simps = schedule_simps breaker_check_def check_open_def try_half_open_probe_def record_outcome_def
  trip_def breaker_new_def one_sample_config_def config_server_def cas_state_def cas_claimed_def
  elapsed_millis_def as_millis_def from_millis_def secs_def

text \<open>With one probe slot two probes are admitted when the breaker half-opens: the second caller finds the slot
  taken, but the instant of the claim is stored a step after the slot is taken, so it reads the instant
  of an older claim, sees a lease that has run out and takes the slot over.\<close>

theorem half_open_admits_two:
  "let (b, ps) = schedule ([0, 0, 0, 0, 0, 0, 0] @ [1, 1, 1, 1, 1, 1] @ [0])
       (cooled, map (op_prog one_sample_config) [Check, Check])
   in ps = [Done (Some (Inr ())), Done (Some (Inr ()))] \<and> half_open_max_probes one_sample_config = 1"
  by (simp add: execute_simps cooled_def Let_def)

text \<open>The breaker with its one probe in flight.\<close>

definition probing :: breaker where
  "probing = cooled\<lparr>br_state := HalfOpen, br_is_open_fast := False, br_half_open_probes := 1,
     br_probe_claimed_at_millis := 10000\<rparr>"

lemma probing_reached: "run_ops one_sample_config [Check] cooled = (probing, [Some (Inr ())])"
  by (simp add: execute_simps cooled_def probing_def Let_def)

text \<open>A check that runs beside the failure of a probe undoes it: the trip publishes the open state before the
  instant it opened at, the check reads the instant of the previous trip, finds the cool-down over and
  half-opens the breaker again, and the rest of the trip leaves the lock-free mirror on - a half-open
  breaker that reports to be open, with the probe's failure lost.\<close>

theorem trip_race_leaves_mirror_open:
  "let (b, ps) = schedule ([0, 0, 0] @ [1, 1, 1, 1, 1, 1, 1, 1, 1] @ [0, 0, 0, 0])
       (probing, map (op_prog one_sample_config) [Record Failure, Check])
   in ps = [Done None, Done (Some (Inl HALF_OPEN_PROBE_BACKOFF))] \<and> br_state b = HalfOpen \<and> br_is_open_fast b"
  by (simp add: execute_simps cooled_def probing_def HALF_OPEN_PROBE_BACKOFF_def Let_def)

text \<open>A check between whose two updates of the slot count a trip clears it leaves the count below zero.\<close>

lemma probe_count_underflows:
  "let (b, ps) = schedule ([1, 1, 1] @ [0, 0, 0, 0, 0, 0, 0] @ [1, 1])
       (probing, map (op_prog one_sample_config) [Record Failure, Check])
   in ps = [Done None, Done (Some (Inl HALF_OPEN_PROBE_BACKOFF))] \<and> br_half_open_probes b = - 1"
  by (simp add: execute_simps cooled_def probing_def HALF_OPEN_PROBE_BACKOFF_def Let_def)

end
