(* ===== verification/Patch_Parser.thy ===== *)
theory Patch_Parser
  imports Prelude
begin

section \<open>The patch format (\<open>codex/apply_patch/parser.rs\<close>)\<close>

text \<open>
  The parser of the patches the model writes: lines between two boundary markers, read as a list of
  file operations. A path is the string it is written as. Line numbers are kept as the code counts
  them, since its errors show them. The two loops of the parser drop what the inner parser has consumed;
  they terminate because it always consumes a line.
\<close>

abbreviation BEGIN_PATCH_MARKER :: str where "BEGIN_PATCH_MARKER \<equiv> ''*** Begin Patch''"
abbreviation END_PATCH_MARKER :: str where "END_PATCH_MARKER \<equiv> ''*** End Patch''"
abbreviation ADD_FILE_MARKER :: str where "ADD_FILE_MARKER \<equiv> ''*** Add File: ''"
abbreviation DELETE_FILE_MARKER :: str where "DELETE_FILE_MARKER \<equiv> ''*** Delete File: ''"
abbreviation UPDATE_FILE_MARKER :: str where "UPDATE_FILE_MARKER \<equiv> ''*** Update File: ''"
abbreviation MOVE_TO_MARKER :: str where "MOVE_TO_MARKER \<equiv> ''*** Move to: ''"
abbreviation EOF_MARKER :: str where "EOF_MARKER \<equiv> ''*** End of File''"
abbreviation CHANGE_CONTEXT_MARKER :: str where "CHANGE_CONTEXT_MARKER \<equiv> ''@@ ''"
abbreviation EMPTY_CHANGE_CONTEXT_MARKER :: str where "EMPTY_CHANGE_CONTEXT_MARKER \<equiv> ''@@''"

subsection \<open>Data\<close>

record update_file_chunk =
  change_context :: "str option"
  old_lines :: "str list"
  new_lines :: "str list"
  is_end_of_file :: bool

datatype hunk =
    AddFile str str
  | DeleteFile str
  | UpdateFile str "str option" "update_file_chunk list"

record parsed_patch =
  pp_hunks :: "hunk list"
  pp_patch :: str

datatype parse_error = InvalidPatchError str | InvalidHunkError str nat

datatype parse_mode = Strict | Lenient

subsection \<open>Boundaries\<close>

definition check_start_and_end_lines_strict ::
    "str option \<Rightarrow> str option \<Rightarrow> parse_error + unit" where
  "check_start_and_end_lines_strict first_line last_line =
     (let first = map_option trim first_line; last = map_option trim last_line
      in if first = Some BEGIN_PATCH_MARKER \<and> last = Some END_PATCH_MARKER then Inr ()
         else if first \<noteq> None \<and> first \<noteq> Some BEGIN_PATCH_MARKER
         then Inl (InvalidPatchError (''The first line of the patch must be '' @ [squote]
                                       @ ''*** Begin Patch'' @ [squote]))
         else Inl (InvalidPatchError (''The last line of the patch must be '' @ [squote]
                                       @ ''*** End Patch'' @ [squote])))"

definition check_patch_boundaries_strict :: "str list \<Rightarrow> parse_error + unit" where
  "check_patch_boundaries_strict ls =
     (if ls = [] then check_start_and_end_lines_strict None None
      else check_start_and_end_lines_strict (Some (hd ls)) (Some (last ls)))"

definition heredoc_openers :: "str list" where
  "heredoc_openers = [''<<EOF'', ''<<'' @ [squote] @ ''EOF'' @ [squote], ''<<'' @ [dquote] @ ''EOF'' @ [dquote]]"

definition check_patch_boundaries_lenient :: "str list \<Rightarrow> parse_error \<Rightarrow> parse_error + str list" where
  "check_patch_boundaries_lenient original_lines original_parse_error =
     (if 2 \<le> length original_lines \<and> hd original_lines \<in> set heredoc_openers
         \<and> ends_with (last original_lines) ''EOF'' \<and> 4 \<le> length original_lines
      then (let inner_lines = butlast (tl original_lines)
            in case check_patch_boundaries_strict inner_lines of
                 Inr _ \<Rightarrow> Inr inner_lines
               | Inl e \<Rightarrow> Inl e)
      else Inl original_parse_error)"

subsection \<open>One chunk of an update\<close>

definition no_lines_error :: "nat \<Rightarrow> parse_error" where
  "no_lines_error line_number = InvalidHunkError ''Update hunk does not contain any lines'' line_number"

definition unexpected_line_error :: "str \<Rightarrow> nat \<Rightarrow> parse_error" where
  "unexpected_line_error line_contents line_number =
     InvalidHunkError (''Unexpected line found in update hunk: '' @ [squote] @ line_contents @ [squote]
       @ ''. Every line should start with '' @ [squote] @ '' '' @ [squote] @ '' (context line), ''
       @ [squote] @ ''+'' @ [squote] @ '' (added line), or '' @ [squote] @ ''-'' @ [squote]
       @ '' (removed line)'') line_number"

definition push_old :: "str \<Rightarrow> update_file_chunk \<Rightarrow> update_file_chunk" where
  "push_old l c = c\<lparr>old_lines := old_lines c @ [l]\<rparr>"

definition push_new :: "str \<Rightarrow> update_file_chunk \<Rightarrow> update_file_chunk" where
  "push_new l c = c\<lparr>new_lines := new_lines c @ [l]\<rparr>"

fun chunk_body :: "nat \<Rightarrow> nat \<Rightarrow> update_file_chunk \<Rightarrow> str list \<Rightarrow> parse_error + update_file_chunk \<times> nat" where
  "chunk_body line_number parsed_lines chunk [] = Inr (chunk, parsed_lines)"
| "chunk_body line_number parsed_lines chunk (line # rest) =
     (if line = EOF_MARKER then
        (if parsed_lines = 0 then Inl (no_lines_error (line_number + 1))
         else Inr (chunk\<lparr>is_end_of_file := True\<rparr>, parsed_lines + 1))
      else (case line of
          [] \<Rightarrow> chunk_body line_number (parsed_lines + 1) (push_new [] (push_old [] chunk)) rest
        | c # text_after \<Rightarrow>
            if c = CHR '' '' then
              chunk_body line_number (parsed_lines + 1) (push_new text_after (push_old text_after chunk)) rest
            else if c = CHR ''+'' then chunk_body line_number (parsed_lines + 1) (push_new text_after chunk) rest
            else if c = CHR ''-'' then chunk_body line_number (parsed_lines + 1) (push_old text_after chunk) rest
            else if parsed_lines = 0 then Inl (unexpected_line_error line (line_number + 1))
            else Inr (chunk, parsed_lines)))"

definition chunk_header :: "str \<Rightarrow> nat \<Rightarrow> bool \<Rightarrow> parse_error + str option \<times> nat" where
  "chunk_header first line_number allow_missing_context =
     (if first = EMPTY_CHANGE_CONTEXT_MARKER then Inr (None, 1)
      else (case strip_prefix first CHANGE_CONTEXT_MARKER of
              Some ctx \<Rightarrow> Inr (Some ctx, 1)
            | None \<Rightarrow>
                if \<not> allow_missing_context then
                  Inl (InvalidHunkError
                    (''Expected update hunk to start with a @@ context marker, got: '' @ [squote]
                      @ first @ [squote]) line_number)
                else Inr (None, 0)))"

definition empty_chunk :: "str option \<Rightarrow> update_file_chunk" where
  "empty_chunk ctx = \<lparr>change_context = ctx, old_lines = [], new_lines = [], is_end_of_file = False\<rparr>"

definition parse_update_file_chunk :: "str list \<Rightarrow> nat \<Rightarrow> bool \<Rightarrow> parse_error + update_file_chunk \<times> nat" where
  "parse_update_file_chunk ls line_number allow_missing_context =
     (if ls = [] then Inl (no_lines_error line_number)
      else (case chunk_header (hd ls) line_number allow_missing_context of
              Inl e \<Rightarrow> Inl e
            | Inr (ctx, start_index) \<Rightarrow>
                if length ls \<le> start_index then Inl (no_lines_error (line_number + 1))
                else (case chunk_body line_number 0 (empty_chunk ctx) (drop start_index ls) of
                        Inl e \<Rightarrow> Inl e
                      | Inr (chunk, parsed_lines) \<Rightarrow> Inr (chunk, parsed_lines + start_index))))"

lemma chunk_body_consumes:
  "chunk_body n p c ls = Inr (c', q) \<Longrightarrow> p \<le> q \<and> q \<le> p + length ls \<and> (ls \<noteq> [] \<longrightarrow> p = 0 \<longrightarrow> 0 < q)"
  by (induction n p c ls rule: chunk_body.induct) (fastforce split: if_splits list.splits)+

lemma parse_chunk_consumes:
  assumes "parse_update_file_chunk ls n allow = Inr (c, q)"
  shows "0 < q \<and> q \<le> length ls"
proof -
  obtain ctx k p where h: "k < length ls" "chunk_body n 0 (empty_chunk ctx) (drop k ls) = Inr (c, p)" "q = p + k"
    using assms by (auto simp: parse_update_file_chunk_def not_le split: if_splits sum.splits)
  from chunk_body_consumes[OF h(2)] h(1,3) show ?thesis by auto
qed

subsection \<open>Hunks\<close>

text \<open>The lines an added file takes: its contents and how many lines they were.\<close>

fun added_lines :: "str list \<Rightarrow> str \<times> nat" where
  "added_lines [] = ([], 0)"
| "added_lines (add_line # rest) =
     (case strip_prefix add_line ''+'' of
        Some line_to_add \<Rightarrow>
          (let (contents, n) = added_lines rest in (line_to_add @ [newline] @ contents, n + 1))
      | None \<Rightarrow> ([], 0))"

function update_chunks :: "nat \<Rightarrow> nat \<Rightarrow> update_file_chunk list \<Rightarrow> str list
    \<Rightarrow> parse_error + update_file_chunk list \<times> nat" where
  "update_chunks line_number parsed_lines chunks remaining_lines =
     (case remaining_lines of
        [] \<Rightarrow> Inr (chunks, parsed_lines)
      | line # rest \<Rightarrow>
          if trim line = [] then update_chunks line_number (parsed_lines + 1) chunks rest
          else if starts_with line ''***'' then Inr (chunks, parsed_lines)
          else (case parse_update_file_chunk (line # rest) (line_number + parsed_lines) (chunks = []) of
                  Inl e \<Rightarrow> Inl e
                | Inr (chunk, chunk_lines) \<Rightarrow>
                    update_chunks line_number (parsed_lines + chunk_lines) (chunks @ [chunk])
                      (drop chunk_lines (line # rest))))"
  by pat_completeness auto
termination
  by (relation "measure (\<lambda>(n, p, cs, ls). length ls)") (auto dest!: parse_chunk_consumes)

declare update_chunks.simps [simp del]

definition parse_one_hunk :: "str list \<Rightarrow> nat \<Rightarrow> parse_error + hunk \<times> nat" where
  "parse_one_hunk ls line_number =
     (let first_line = trim (hd ls) in
      case strip_prefix first_line ADD_FILE_MARKER of
        Some path \<Rightarrow>
          (let (contents, n) = added_lines (tl ls) in Inr (AddFile path contents, n + 1))
      | None \<Rightarrow>
      (case strip_prefix first_line DELETE_FILE_MARKER of
        Some path \<Rightarrow> Inr (DeleteFile path, 1)
      | None \<Rightarrow>
      (case strip_prefix first_line UPDATE_FILE_MARKER of
        Some path \<Rightarrow>
          (let remaining_lines = tl ls;
               move_path = (case remaining_lines of
                              x # _ \<Rightarrow> strip_prefix x MOVE_TO_MARKER
                            | [] \<Rightarrow> None);
               skipped = (if move_path = None then 0 else 1)
           in case update_chunks line_number (1 + skipped) [] (drop skipped remaining_lines) of
                Inl e \<Rightarrow> Inl e
              | Inr (chunks, parsed_lines) \<Rightarrow>
                  if chunks = [] then
                    Inl (InvalidHunkError (''Update file hunk for path '' @ [squote] @ path @ [squote]
                           @ '' is empty'') line_number)
                  else Inr (UpdateFile path move_path chunks, parsed_lines))
      | None \<Rightarrow>
          Inl (InvalidHunkError ([squote] @ first_line @ [squote]
            @ '' is not a valid hunk header. Valid hunk headers: ''
            @ [squote] @ ''*** Add File: {path}'' @ [squote] @ '', ''
            @ [squote] @ ''*** Delete File: {path}'' @ [squote] @ '', ''
            @ [squote] @ ''*** Update File: {path}'' @ [squote]) line_number))))"

lemma update_chunks_consumes:
  "update_chunks n p cs ls = Inr (cs', q) \<Longrightarrow> p \<le> q \<and> q \<le> p + length ls"
proof (induction n p cs ls rule: update_chunks.induct)
  case (1 n p cs ls)
  show ?case
  proof (cases ls)
    case Nil
    then show ?thesis using "1.prems" by (simp add: update_chunks.simps)
  next
    case (Cons line rest)
    then show ?thesis
      using "1.prems" "1.IH"[of line rest]
      by (subst (asm) update_chunks.simps)
        (fastforce split: if_splits sum.splits prod.splits dest!: parse_chunk_consumes)
  qed
qed

lemma added_lines_count: "snd (added_lines ls) \<le> length ls"
  by (induction ls) (auto split: option.split prod.split)

lemma parse_hunk_consumes:
  assumes "parse_one_hunk ls n = Inr (h, q)" "ls \<noteq> []"
  shows "0 < q \<and> q \<le> length ls"
proof -
  obtain l rest where ls: "ls = l # rest" using assms(2) by (cases ls) auto
  show ?thesis
    using assms(1) added_lines_count[of rest] unfolding ls parse_one_hunk_def
    by (fastforce simp: Let_def split: option.splits prod.splits list.splits sum.splits if_splits
        dest!: update_chunks_consumes)
qed

function parse_hunks :: "nat \<Rightarrow> str list \<Rightarrow> parse_error + hunk list" where
  "parse_hunks line_number remaining_lines =
     (if remaining_lines = [] then Inr []
      else (case parse_one_hunk remaining_lines line_number of
              Inl e \<Rightarrow> Inl e
            | Inr (hunk, hunk_lines) \<Rightarrow>
                map_sum id (\<lambda>hs. hunk # hs)
                  (parse_hunks (line_number + hunk_lines) (drop hunk_lines remaining_lines))))"
  by pat_completeness auto
termination
  by (relation "measure (\<lambda>(n, ls). length ls)") (auto dest!: parse_hunk_consumes)

declare parse_hunks.simps [simp del]

definition parse_patch_text :: "str \<Rightarrow> parse_mode \<Rightarrow> parse_error + parsed_patch" where
  "parse_patch_text patch mode =
     (let ls = str_lines (trim patch) in
      case (case check_patch_boundaries_strict ls of
              Inr _ \<Rightarrow> Inr ls
            | Inl e \<Rightarrow> (case mode of Strict \<Rightarrow> Inl e | Lenient \<Rightarrow> check_patch_boundaries_lenient ls e)) of
        Inl e \<Rightarrow> Inl e
      | Inr ls \<Rightarrow>
          map_sum id (\<lambda>hs. \<lparr>pp_hunks = hs, pp_patch = join [newline] ls\<rparr>)
            (parse_hunks 2 (butlast (tl ls))))"

definition parse_patch :: "str \<Rightarrow> parse_error + parsed_patch" where
  "parse_patch patch = parse_patch_text patch Lenient"

end
