(* ===== verification/Patch_Format.thy ===== *)
theory Patch_Format
  imports Patch_Parser
begin

section \<open>Printing a patch and reading it back\<close>

text \<open>
  The printer is the specification of the format: one way to write every list of hunks. What can be
  written is \<open>writable\<close>: paths without surrounding white space, lines without line breaks, chunks that
  are not empty. The parser reads every such patch back.
\<close>

fun print_chunk :: "update_file_chunk \<Rightarrow> str list" where
  "print_chunk c =
     (case change_context c of None \<Rightarrow> EMPTY_CHANGE_CONTEXT_MARKER | Some s \<Rightarrow> CHANGE_CONTEXT_MARKER @ s)
     # map (\<lambda>l. ''-'' @ l) (old_lines c) @ map (\<lambda>l. ''+'' @ l) (new_lines c)
     @ (if is_end_of_file c then [EOF_MARKER] else [])"

fun print_hunk :: "hunk \<Rightarrow> str list" where
  "print_hunk (AddFile path contents) =
     (ADD_FILE_MARKER @ path) # map (\<lambda>l. ''+'' @ l) (butlast (split_on newline contents))"
| "print_hunk (DeleteFile path) = [DELETE_FILE_MARKER @ path]"
| "print_hunk (UpdateFile path move_path chunks) =
     (UPDATE_FILE_MARKER @ path)
     # (case move_path of Some dest \<Rightarrow> [MOVE_TO_MARKER @ dest] | None \<Rightarrow> [])
     @ concat (map print_chunk chunks)"

definition print_patch :: "hunk list \<Rightarrow> str" where
  "print_patch hs =
     join [newline] (BEGIN_PATCH_MARKER # concat (map print_hunk hs) @ [END_PATCH_MARKER])"

definition line_ok :: "str \<Rightarrow> bool" where
  "line_ok l \<longleftrightarrow> newline \<notin> set l \<and> \<not> ends_with l [CHR 0x0D]"

definition path_ok :: "str \<Rightarrow> bool" where
  "path_ok p \<longleftrightarrow> p \<noteq> [] \<and> newline \<notin> set p \<and> trim_end p = p"

definition chunk_ok :: "update_file_chunk \<Rightarrow> bool" where
  "chunk_ok c \<longleftrightarrow> list_all line_ok (old_lines c) \<and> list_all line_ok (new_lines c)
     \<and> (old_lines c \<noteq> [] \<or> new_lines c \<noteq> [])
     \<and> (case change_context c of None \<Rightarrow> True | Some s \<Rightarrow> line_ok s)"

fun writable :: "hunk \<Rightarrow> bool" where
  "writable (AddFile path contents) \<longleftrightarrow>
     path_ok path \<and> last (split_on newline contents) = [] \<and> list_all line_ok (split_on newline contents)"
| "writable (DeleteFile path) \<longleftrightarrow> path_ok path"
| "writable (UpdateFile path move_path chunks) \<longleftrightarrow>
     path_ok path \<and> (case move_path of Some dest \<Rightarrow> line_ok dest | None \<Rightarrow> True)
     \<and> chunks \<noteq> [] \<and> list_all chunk_ok chunks"

subsection \<open>Chunks\<close>

text \<open>A line at which the body of a chunk stops.\<close>

definition stops :: "str list \<Rightarrow> bool" where
  "stops rest \<longleftrightarrow> (case rest of [] \<Rightarrow> True
     | l # _ \<Rightarrow> starts_with l ''@@'' \<or> (starts_with l ''***'' \<and> l \<noteq> EOF_MARKER))"

lemma chunk_body_old:
  "chunk_body n p c (map ((@) ''-'') xs @ rest) =
     chunk_body n (p + length xs) (c\<lparr>old_lines := old_lines c @ xs\<rparr>) rest"
  by (induction xs arbitrary: p c) (simp_all add: push_old_def)

lemma chunk_body_new:
  "chunk_body n p c (map ((@) ''+'') xs @ rest) =
     chunk_body n (p + length xs) (c\<lparr>new_lines := new_lines c @ xs\<rparr>) rest"
  by (induction xs arbitrary: p c) (simp_all add: push_new_def)

lemma chunk_body_stops:
  assumes "stops rest" "0 < p"
  shows "chunk_body n p c rest = Inr (c, p)"
  using assms by (cases rest; cases "hd rest") (auto simp: stops_def)

lemma parse_print_chunk:
  assumes "chunk_ok c" "stops rest"
  shows "parse_update_file_chunk (print_chunk c @ rest) n allow = Inr (c, length (print_chunk c))"
proof -
  have lines: "0 < length (old_lines c) + length (new_lines c)" using assms(1) by (auto simp: chunk_ok_def)
  have head: "chunk_header (hd (print_chunk c)) n allow = Inr (change_context c, 1)"
    by (simp add: chunk_header_def strip_prefix_def split: option.split)
  have "chunk_body n 0 (empty_chunk (change_context c)) (tl (print_chunk c) @ rest)
      = Inr (c, length (print_chunk c) - 1)"
    using lines chunk_body_stops[OF assms(2)]
    by (auto simp: chunk_body_old chunk_body_new empty_chunk_def)
  moreover obtain h t where "print_chunk c = h # t" "t \<noteq> []"
    using lines by auto
  ultimately show ?thesis
    using head by (simp add: parse_update_file_chunk_def del: print_chunk.simps)
qed

declare print_chunk.simps [simp del]

lemma print_chunk_head: "\<exists>l ls. print_chunk c = l # ls \<and> starts_with l ''@@'' \<and> trim l \<noteq> []"
proof -
  have "trim (CHR ''@'' # s) \<noteq> []" for s
    using trim_hd[of "CHR ''@'' # s"] by (simp add: ws_seqs_def)
  then show ?thesis by (cases "change_context c") (auto simp: print_chunk.simps)
qed

lemma star_not_blank: "starts_with l ''***'' \<Longrightarrow> trim l \<noteq> []"
  using trim_hd[of l] by (cases l) (auto simp: ws_seqs_def)

text \<open>The chunks of an update, followed by the header of another hunk or by nothing.\<close>

definition hunk_starts :: "str list \<Rightarrow> bool" where
  "hunk_starts rest \<longleftrightarrow> (case rest of [] \<Rightarrow> True | l # _ \<Rightarrow> starts_with l ''***'' \<and> l \<noteq> EOF_MARKER)"

lemma chunks_stop: "list_all chunk_ok cs \<Longrightarrow> hunk_starts rest \<Longrightarrow> stops (concat (map print_chunk cs) @ rest)"
proof (cases cs)
  case Nil
  then show "hunk_starts rest \<Longrightarrow> ?thesis" by (auto simp: stops_def hunk_starts_def split: list.split)
next
  case (Cons c cs')
  then show ?thesis using print_chunk_head[of c] by (auto simp: stops_def)
qed

lemma update_chunks_print:
  assumes "list_all chunk_ok cs" "hunk_starts rest"
  shows "update_chunks n p done (concat (map print_chunk cs) @ rest)
    = Inr (done @ cs, p + length (concat (map print_chunk cs)))"
  using assms(1)
proof (induction cs arbitrary: p "done")
  case Nil
  then show ?case
    using assms(2) star_not_blank
    by (subst update_chunks.simps) (auto simp: hunk_starts_def split: list.split)
next
  case (Cons c cs)
  let ?rest = "concat (map print_chunk cs) @ rest"
  obtain l ls where h: "print_chunk c = l # ls" "starts_with l ''@@''" "trim l \<noteq> []"
    using print_chunk_head by blast
  have "\<not> starts_with l ''***''" using h(2) by (cases l) auto
  moreover have "parse_update_file_chunk (print_chunk c @ ?rest) (n + p) (done = [])
      = Inr (c, length (print_chunk c))"
    using Cons.prems chunks_stop[OF _ assms(2), of cs] by (intro parse_print_chunk) auto
  then have "parse_update_file_chunk (l # ls @ ?rest) (n + p) (done = []) = Inr (c, Suc (length ls))"
    using h(1) by simp
  ultimately have "update_chunks n p done (print_chunk c @ ?rest)
      = update_chunks n (p + length (print_chunk c)) (done @ [c]) ?rest"
    using h by (subst update_chunks.simps) simp
  with Cons show ?case by (simp add: add.assoc)
qed

subsection \<open>Hunks\<close>

lemma trim_marked:
  assumes "path_ok path" "last m = CHR '' ''" "m \<noteq> []" "\<forall>w \<in> set ws_seqs. hd m \<notin> set w"
  shows "trim (m @ path) = m @ path"
proof -
  have "\<not> ends_with (m @ path) w" if w: "w \<in> set ws_seqs" for w
  proof
    assume "ends_with (m @ path) w"
    then have "suffix w (m @ path)" by (simp add: ends_with_iff_suffix)
    then consider "suffix w path" | v where "w = v @ path" "suffix v m" "v \<noteq> []"
      unfolding suffix_append using assms(1) by (metis append_Nil suffix_order.refl)
    then show False
    proof cases
      case 1
      then show False
        using w assms(1) by (auto simp: path_ok_def trim_end_id_iff ends_with_iff_suffix)
    next
      case (2 v)
      then have "last v = CHR '' ''" using assms(2,3) by (auto simp: suffix_def)
      then have "CHR '' '' \<in> set (butlast w)" using 2 assms(1) last_in_set[of v]
        by (auto simp: path_ok_def butlast_append)
      then show False using w by (auto simp: ws_seqs_def)
    qed
  qed
  moreover have "\<not> starts_with (m @ path) w" if w: "w \<in> set ws_seqs" for w
  proof
    assume "starts_with (m @ path) w"
    moreover obtain d ds where "w = d # ds" using w ws_seqs_no_Nil by (metis neq_Nil_conv)
    ultimately have "hd m \<in> set w" using assms(3) by (cases m) auto
    with w assms(4) show False by blast
  qed
  ultimately show ?thesis by (simp add: trim_id_iff)
qed

lemma star_not_white: "\<forall>w \<in> set ws_seqs. CHR ''*'' \<notin> set w"
  by (simp add: ws_seqs_def)

lemma added_lines_print:
  assumes "hunk_starts rest"
  shows "added_lines (map ((@) ''+'') ls @ rest) = (concat (map (\<lambda>l. l @ [newline]) ls), length ls)"
proof (induction ls)
  case Nil
  show ?case using assms by (cases rest; cases "hd rest") (auto simp: hunk_starts_def strip_prefix_def)
next
  case (Cons l ls)
  then show ?case by (simp add: strip_prefix_def)
qed

lemma print_hunk_starts: "hunk_starts (print_hunk h @ rest)"
  by (cases h) (simp_all add: hunk_starts_def)

lemma hunks_start: "hunk_starts (concat (map print_hunk hs))"
  by (cases hs) (use print_hunk_starts in \<open>auto simp: hunk_starts_def split: list.split\<close>)

lemma print_hunk_nonempty: "print_hunk h \<noteq> []"
  by (cases h) simp_all

lemma parse_print_hunk:
  assumes "writable h" "hunk_starts rest"
  shows "parse_one_hunk (print_hunk h @ rest) n = Inr (h, length (print_hunk h))"
proof (cases h)
  case (AddFile path contents)
  let ?ls = "split_on newline contents"
  have "concat (map (\<lambda>l. l @ [newline]) (butlast ?ls)) = contents"
    using concat_lines[of ?ls newline] assms(1) AddFile by (simp add: join_split_on)
  moreover have "trim (ADD_FILE_MARKER @ path) = ADD_FILE_MARKER @ path"
    using assms(1) AddFile star_not_white by (intro trim_marked) simp_all
  ultimately show ?thesis
    using added_lines_print[OF assms(2), of "butlast ?ls"] AddFile
    by (simp add: parse_one_hunk_def strip_prefix_def)
next
  case (DeleteFile path)
  moreover have "trim (DELETE_FILE_MARKER @ path) = DELETE_FILE_MARKER @ path"
    using assms(1) DeleteFile star_not_white by (intro trim_marked) simp_all
  ultimately show ?thesis by (simp add: parse_one_hunk_def strip_prefix_def)
next
  case (UpdateFile path move_path chunks)
  have t: "trim (UPDATE_FILE_MARKER @ path) = UPDATE_FILE_MARKER @ path"
    using assms(1) UpdateFile star_not_white by (intro trim_marked) simp_all
  have ok: "list_all chunk_ok chunks" "chunks \<noteq> []" using assms(1) UpdateFile by simp_all
  obtain c cs l ls where c: "chunks = c # cs" "print_chunk c = l # ls" "starts_with l ''@@''"
    using ok(2) print_chunk_head by (metis neq_Nil_conv)
  have "strip_prefix l MOVE_TO_MARKER = None" using c(3) by (cases l) (auto simp: strip_prefix_def)
  then show ?thesis
    using t UpdateFile c update_chunks_print[OF ok(1) assms(2), of n _ "[]"]
    by (cases move_path) (simp_all add: parse_one_hunk_def strip_prefix_def)
qed

lemma parse_hunks_print:
  "list_all writable hs \<Longrightarrow> parse_hunks n (concat (map print_hunk hs)) = Inr hs"
proof (induction hs arbitrary: n)
  case Nil
  then show ?case by (simp add: parse_hunks.simps)
next
  case (Cons h hs)
  have "parse_one_hunk (print_hunk h @ concat (map print_hunk hs)) n = Inr (h, length (print_hunk h))"
    using Cons.prems hunks_start by (intro parse_print_hunk) simp_all
  then show ?case
    using Cons print_hunk_nonempty[of h] by (subst parse_hunks.simps) simp
qed

subsection \<open>Whole patches\<close>

lemma str_lines_join:
  assumes "list_all line_ok ls" "ls \<noteq> []" "last ls \<noteq> []"
  shows "str_lines (join [newline] ls) = ls"
proof -
  have "split_on newline (join [newline] ls) = ls"
    using assms by (intro split_on_join) (auto simp: line_ok_def list_all_iff)
  moreover have "map strip_cr (butlast ls) = butlast ls"
    using assms(1) by (intro map_idI) (auto simp: strip_cr_def strip_suffix_def line_ok_def list_all_iff
        dest: in_set_butlastD)
  ultimately show ?thesis using assms(2,3) by (simp add: str_lines_def)
qed

lemma line_ok_append: "line_ok s \<Longrightarrow> newline \<notin> set m \<Longrightarrow> m \<noteq> [] \<Longrightarrow> last m \<noteq> CHR 0x0D \<Longrightarrow> line_ok (m @ s)"
  by (cases s rule: rev_cases) (auto simp: line_ok_def ends_with_iff_suffix suffix_def append_eq_append_conv2
      Cons_eq_append_conv)

lemma path_line_ok: "path_ok p \<Longrightarrow> line_ok p"
  by (auto simp: path_ok_def line_ok_def trim_end_id_iff ws_seqs_def)

lemmas marked_ok = line_ok_append[OF path_line_ok]

lemma chunk_lines_ok: "chunk_ok c \<Longrightarrow> list_all line_ok (print_chunk c)"
proof -
  assume c: "chunk_ok c"
  have plain: "line_ok EMPTY_CHANGE_CONTEXT_MARKER" "line_ok EOF_MARKER"
    by (simp_all add: line_ok_def ends_with_def)
  have "line_ok (CHANGE_CONTEXT_MARKER @ s)" if "change_context c = Some s" for s
    using c that by (intro line_ok_append) (auto simp: chunk_ok_def)
  moreover have "line_ok ([x] @ l)" if "x = CHR ''+'' \<or> x = CHR ''-''" "line_ok l" for x l
    using that by (intro line_ok_append) auto
  ultimately show ?thesis
    using c plain by (auto simp: print_chunk.simps chunk_ok_def list_all_iff split: option.split)
qed

lemma hunk_lines_ok: "writable h \<Longrightarrow> list_all line_ok (print_hunk h)"
proof (cases h)
  case (AddFile path contents)
  assume w: "writable h"
  have "line_ok ([CHR ''+''] @ l)" if "line_ok l" for l
    using that by (intro line_ok_append) auto
  then have "list_all line_ok (map ((@) ''+'') (butlast (split_on newline contents)))"
    using w AddFile by (auto simp: list_all_iff dest: in_set_butlastD)
  moreover have "line_ok (ADD_FILE_MARKER @ path)"
    using w AddFile by (intro marked_ok) simp_all
  ultimately show ?thesis using AddFile by simp
next
  case (DeleteFile path)
  assume "writable h"
  then have "line_ok (DELETE_FILE_MARKER @ path)" using DeleteFile by (intro marked_ok) simp_all
  then show ?thesis using DeleteFile by simp
next
  case (UpdateFile path move_path chunks)
  assume w: "writable h"
  have "line_ok (UPDATE_FILE_MARKER @ path)" using w UpdateFile by (intro marked_ok) simp_all
  moreover have "line_ok (MOVE_TO_MARKER @ dest)" if "move_path = Some dest" for dest
    using w UpdateFile that by (intro line_ok_append) simp_all
  moreover have "list_all line_ok (concat (map print_chunk chunks))"
    using w UpdateFile chunk_lines_ok by (fastforce simp: list_all_iff)
  ultimately show ?thesis using UpdateFile by (auto split: option.split)
qed

lemma last_join: "xs \<noteq> [] \<Longrightarrow> last xs \<noteq> [] \<Longrightarrow> join sep xs \<noteq> [] \<and> last (join sep xs) = last (last xs)"
proof (induction xs)
  case (Cons x xs)
  then show ?case by (cases xs) (auto simp: last_append)
qed simp

lemma hd_join: "x \<noteq> [] \<Longrightarrow> hd (join sep (x # xs)) = hd x"
  by (cases xs) simp_all

lemma parse_printed:
  assumes "list_all writable hs"
  shows "parse_patch (print_patch hs) = Inr \<lparr>pp_hunks = hs, pp_patch = print_patch hs\<rparr>"
proof -
  let ?ls = "BEGIN_PATCH_MARKER # concat (map print_hunk hs) @ [END_PATCH_MARKER]"
  have "line_ok BEGIN_PATCH_MARKER" "line_ok END_PATCH_MARKER" by (simp_all add: line_ok_def ends_with_def)
  moreover have "list_all line_ok (concat (map print_hunk hs))"
    using assms hunk_lines_ok by (fastforce simp: list_all_iff)
  ultimately have lines: "str_lines (print_patch hs) = ?ls"
    unfolding print_patch_def by (intro str_lines_join) simp_all
  have "print_patch hs \<noteq> []" "hd (print_patch hs) = CHR ''*''" "last (print_patch hs) = CHR ''h''"
    unfolding print_patch_def using last_join[of ?ls "[newline]"]
      hd_join[of BEGIN_PATCH_MARKER "[newline]" "concat (map print_hunk hs) @ [END_PATCH_MARKER]"]
    by simp_all
  then have t: "trim (print_patch hs) = print_patch hs"
    by (intro trim_id_ends) (simp_all add: ws_seqs_def)
  have "trim BEGIN_PATCH_MARKER = BEGIN_PATCH_MARKER" "trim END_PATCH_MARKER = END_PATCH_MARKER"
    by (intro trim_id_ends; simp add: ws_seqs_def)+
  then have "check_patch_boundaries_strict ?ls = Inr ()"
    by (simp add: check_patch_boundaries_strict_def check_start_and_end_lines_strict_def)
  moreover have "butlast (tl ?ls) = concat (map print_hunk hs)" by (simp add: butlast_append)
  ultimately show ?thesis
    using parse_hunks_print[OF assms, of 2]
    by (simp add: parse_patch_def parse_patch_text_def t lines Let_def) (simp add: print_patch_def)
qed

subsection \<open>Properties\<close>

text \<open>C23: Reading back what was written: a patch printed from any list of writable hunks - files added, deleted,
  updated in chunks with or without a context line and an end-of-file mark, moved - is parsed to exactly
  those hunks, and its normalised text is the text itself.\<close>

theorem parse_print_patch:
  assumes "list_all writable hs"
  shows "parse_patch (print_patch hs) = Inr \<lparr>pp_hunks = hs, pp_patch = print_patch hs\<rparr>"
  using assms by (rule parse_printed)

text \<open>A patch with one operation of every kind.\<close>

definition sample_patch :: "hunk list" where
  "sample_patch =
     [AddFile ''a'' (''x'' @ [newline]), DeleteFile ''b'',
      UpdateFile ''c'' (Some ''d'')
        [\<lparr>change_context = Some ''f'', old_lines = [''o''], new_lines = [''n''], is_end_of_file = True\<rparr>]]"

theorem parse_print_patch_witness:
  "parse_patch (print_patch sample_patch) = Inr \<lparr>pp_hunks = sample_patch, pp_patch = print_patch sample_patch\<rparr>"
proof (rule parse_print_patch)
  have "trim_end [c] = [c]" if "c \<in> set ''abc''" for c
    using that by (auto simp: trim_end_id_iff ws_seqs_def ends_with_def)
  then show "list_all writable sample_patch"
    by (auto simp: sample_patch_def path_ok_def line_ok_def chunk_ok_def ends_with_def)
qed

text \<open>The nested form the tool's own description recommends, one \<open>@@\<close> line directly under another to reach a
  method of a class, is rejected: the second context line is read as a body line and reported as
  unexpected, whatever follows.\<close>

theorem nested_context_rejected:
  "parse_update_file_chunk ((CHANGE_CONTEXT_MARKER @ outer) # (CHANGE_CONTEXT_MARKER @ inner) # rest) n allow
    = Inl (unexpected_line_error (CHANGE_CONTEXT_MARKER @ inner) (n + 1))"
  by (simp add: parse_update_file_chunk_def chunk_header_def strip_prefix_def)

end
