(* ===== verification/Patch_Apply.thy ===== *)
theory Patch_Apply
  imports Patch_Parser
begin

section \<open>Applying an update (\<open>seek_sequence.rs\<close>, \<open>apply.rs\<close>)\<close>

text \<open>
  The search for a block of lines in four passes of decreasing strictness, the replacements a list of
  chunks stands for, and their application from the last to the first. \<open>Vec::insert\<close> past the end
  panics: it is \<open>None\<close> here, and shown not to happen.
\<close>

subsection \<open>Searching\<close>

text \<open>The Unicode punctuation and spaces the last pass replaces, as UTF-8.\<close>

fun normalise_chars :: "str \<Rightarrow> str" where
  "normalise_chars (a # b # c # rest) =
     (if a = CHR 0xE2 \<and> b = CHR 0x80 \<and> c \<in> {CHR 0x90, CHR 0x91, CHR 0x92, CHR 0x93, CHR 0x94, CHR 0x95}
         \<or> a = CHR 0xE2 \<and> b = CHR 0x88 \<and> c = CHR 0x92
      then CHR ''-'' # normalise_chars rest
      else if a = CHR 0xE2 \<and> b = CHR 0x80 \<and> c \<in> {CHR 0x98, CHR 0x99, CHR 0x9A, CHR 0x9B}
      then squote # normalise_chars rest
      else if a = CHR 0xE2 \<and> b = CHR 0x80 \<and> c \<in> {CHR 0x9C, CHR 0x9D, CHR 0x9E, CHR 0x9F}
      then dquote # normalise_chars rest
      else if a = CHR 0xE2 \<and> b = CHR 0x80
              \<and> c \<in> {CHR 0x82, CHR 0x83, CHR 0x84, CHR 0x85, CHR 0x86, CHR 0x87, CHR 0x88, CHR 0x89,
                     CHR 0x8A, CHR 0xAF}
         \<or> a = CHR 0xE2 \<and> b = CHR 0x81 \<and> c = CHR 0x9F
         \<or> a = CHR 0xE3 \<and> b = CHR 0x80 \<and> c = CHR 0x80
      then CHR '' '' # normalise_chars rest
      else if a = CHR 0xC2 \<and> b = CHR 0xA0 then CHR '' '' # normalise_chars (c # rest)
      else a # normalise_chars (b # c # rest))"
| "normalise_chars [a, b] = (if a = CHR 0xC2 \<and> b = CHR 0xA0 then '' '' else [a, b])"
| "normalise_chars s = s"

definition normalise :: "str \<Rightarrow> str" where
  "normalise s = normalise_chars (trim s)"

text \<open>One pass: the first position from \<open>search_start\<close> at which the lines agree under \<open>view\<close>.\<close>

definition matches_at :: "(str \<Rightarrow> str) \<Rightarrow> str list \<Rightarrow> str list \<Rightarrow> nat \<Rightarrow> bool" where
  "matches_at view ls pattern i = (map view (take (length pattern) (drop i ls)) = map view pattern)"

definition seek_pass :: "(str \<Rightarrow> str) \<Rightarrow> str list \<Rightarrow> str list \<Rightarrow> nat \<Rightarrow> nat option" where
  "seek_pass view ls pattern search_start =
     find (matches_at view ls pattern) [search_start..<Suc (length ls - length pattern)]"

definition passes :: "(str \<Rightarrow> str) list" where
  "passes = [\<lambda>s. s, trim_end, trim, normalise]"

fun first_some :: "('a \<Rightarrow> 'b option) \<Rightarrow> 'a list \<Rightarrow> 'b option" where
  "first_some f [] = None"
| "first_some f (x # xs) = (case f x of Some y \<Rightarrow> Some y | None \<Rightarrow> first_some f xs)"

definition seek_sequence :: "str list \<Rightarrow> str list \<Rightarrow> nat \<Rightarrow> bool \<Rightarrow> nat option" where
  "seek_sequence ls pattern start eof =
     (if pattern = [] then Some start
      else if length ls < length pattern then None
      else (let search_start = (if eof \<and> length pattern \<le> length ls then length ls - length pattern else start)
            in first_some (\<lambda>view. seek_pass view ls pattern search_start) passes))"

subsection \<open>Replacements\<close>

type_synonym replacement = "nat \<times> nat \<times> str list"

datatype apply_error = ComputeReplacements str

definition failed_context :: "str \<Rightarrow> str \<Rightarrow> apply_error" where
  "failed_context ctx_line path =
     ComputeReplacements (''Failed to find context '' @ [squote] @ ctx_line @ [squote] @ '' in '' @ path)"

definition failed_lines :: "update_file_chunk \<Rightarrow> str \<Rightarrow> apply_error" where
  "failed_lines chunk path =
     ComputeReplacements (''Failed to find expected lines in '' @ path @ '':'' @ [newline]
       @ join [newline] (old_lines chunk))"

definition ends_blank :: "str list \<Rightarrow> bool" where
  "ends_blank ls = (ls \<noteq> [] \<and> last ls = [])"

definition drop_blank_end :: "str list \<Rightarrow> str list" where
  "drop_blank_end ls = (if ends_blank ls then butlast ls else ls)"

text \<open>The position after the chunk's context line.\<close>

definition after_context :: "str list \<Rightarrow> str \<Rightarrow> update_file_chunk \<Rightarrow> nat \<Rightarrow> apply_error + nat" where
  "after_context original_lines path chunk line_index =
     (case change_context chunk of
        None \<Rightarrow> Inr line_index
      | Some ctx_line \<Rightarrow>
          (case seek_sequence original_lines [ctx_line] line_index False of
             Some idx \<Rightarrow> Inr (idx + 1)
           | None \<Rightarrow> Inl (failed_context ctx_line path)))"

text \<open>The replacement of a chunk with old lines: where the lines were found, how many, and the new ones.\<close>

definition locate_chunk :: "str list \<Rightarrow> update_file_chunk \<Rightarrow> nat \<Rightarrow> replacement option" where
  "locate_chunk original_lines chunk line_index =
     (case seek_sequence original_lines (old_lines chunk) line_index (is_end_of_file chunk) of
        Some start_idx \<Rightarrow> Some (start_idx, length (old_lines chunk), new_lines chunk)
      | None \<Rightarrow>
          if ends_blank (old_lines chunk) then
            (let pattern = butlast (old_lines chunk); new_slice = drop_blank_end (new_lines chunk)
             in case seek_sequence original_lines pattern line_index (is_end_of_file chunk) of
                  Some start_idx \<Rightarrow> Some (start_idx, length pattern, new_slice)
                | None \<Rightarrow> None)
          else None)"

definition insertion_index :: "str list \<Rightarrow> nat" where
  "insertion_index original_lines =
     (if ends_blank original_lines then length original_lines - 1 else length original_lines)"

fun collect_replacements :: "str list \<Rightarrow> str \<Rightarrow> nat \<Rightarrow> update_file_chunk list
    \<Rightarrow> apply_error + replacement list" where
  "collect_replacements original_lines path line_index [] = Inr []"
| "collect_replacements original_lines path line_index (chunk # chunks) =
     (case after_context original_lines path chunk line_index of
        Inl e \<Rightarrow> Inl e
      | Inr line_index \<Rightarrow>
          if old_lines chunk = [] then
            map_sum id (\<lambda>rs. (insertion_index original_lines, 0, new_lines chunk) # rs)
              (collect_replacements original_lines path line_index chunks)
          else (case locate_chunk original_lines chunk line_index of
                  None \<Rightarrow> Inl (failed_lines chunk path)
                | Some (start_idx, old_len, new_slice) \<Rightarrow>
                    map_sum id (\<lambda>rs. (start_idx, old_len, new_slice) # rs)
                      (collect_replacements original_lines path (start_idx + old_len) chunks)))"

text \<open>\<open>sort_by\<close> is stable.\<close>

definition compute_replacements :: "str list \<Rightarrow> str \<Rightarrow> update_file_chunk list \<Rightarrow> apply_error + replacement list" where
  "compute_replacements original_lines path chunks =
     map_sum id (sort_key fst) (collect_replacements original_lines path 0 chunks)"

definition remove_at :: "nat \<Rightarrow> 'a list \<Rightarrow> 'a list" where
  "remove_at i xs = take i xs @ drop (Suc i) xs"

definition insert_at :: "nat \<Rightarrow> 'a \<Rightarrow> 'a list \<Rightarrow> 'a list option" where
  "insert_at i x xs = (if i \<le> length xs then Some (take i xs @ x # drop i xs) else None)"

fun remove_lines :: "nat \<Rightarrow> nat \<Rightarrow> 'a list \<Rightarrow> 'a list" where
  "remove_lines start_idx 0 ls = ls"
| "remove_lines start_idx (Suc n) ls =
     remove_lines start_idx n (if start_idx < length ls then remove_at start_idx ls else ls)"

fun insert_lines :: "nat \<Rightarrow> 'a list \<Rightarrow> 'a list \<Rightarrow> 'a list option" where
  "insert_lines i [] ls = Some ls"
| "insert_lines i (x # xs) ls =
     (case insert_at i x ls of Some ls' \<Rightarrow> insert_lines (Suc i) xs ls' | None \<Rightarrow> None)"

definition apply_one :: "replacement \<Rightarrow> str list \<Rightarrow> str list option" where
  "apply_one r ls = (case r of (start_idx, old_len, new_segment) \<Rightarrow>
     insert_lines start_idx new_segment (remove_lines start_idx old_len ls))"

text \<open>From the last replacement to the first.\<close>

fun apply_replacements :: "str list \<Rightarrow> replacement list \<Rightarrow> str list option" where
  "apply_replacements ls [] = Some ls"
| "apply_replacements ls (r # rs) =
     (case apply_replacements ls rs of Some ls' \<Rightarrow> apply_one r ls' | None \<Rightarrow> None)"

definition file_lines :: "str \<Rightarrow> str list" where
  "file_lines content = drop_blank_end (split_on newline content)"

text \<open>\<open>None\<close> is a panic.\<close>

definition derive_new_contents :: "str \<Rightarrow> str \<Rightarrow> update_file_chunk list \<Rightarrow> (apply_error + str) option" where
  "derive_new_contents original_content path chunks =
     (let original_lines = file_lines original_content in
      case compute_replacements original_lines path chunks of
        Inl e \<Rightarrow> Some (Inl e)
      | Inr replacements \<Rightarrow>
          (case apply_replacements original_lines replacements of
             None \<Rightarrow> None
           | Some replaced \<Rightarrow>
               Some (Inr (join [newline]
                 (if ends_blank replaced then replaced else replaced @ [[]])))))"

end
