(* ===== verification/Patch_Apply_Props.thy ===== *)
theory Patch_Apply_Props
  imports Patch_Apply
begin

section \<open>What applying an update does\<close>

text \<open>
  The search finds the first position of the strictest pass that finds any; replacements that do not
  overlap are a splice of the file; and no list of chunks makes the application panic.
\<close>

subsection \<open>The search\<close>

lemma find_upt_Some_iff:
  "find P [m..<n] = Some i \<longleftrightarrow> m \<le> i \<and> i < n \<and> P i \<and> (\<forall>j. m \<le> j \<and> j < i \<longrightarrow> \<not> P j)"
proof
  assume "find P [m..<n] = Some i"
  then obtain k where k: "k < n - m" "P (m + k)" "i = m + k" "\<forall>j<k. \<not> P (m + j)"
    by (auto simp: find_Some_iff)
  then show "m \<le> i \<and> i < n \<and> P i \<and> (\<forall>j. m \<le> j \<and> j < i \<longrightarrow> \<not> P j)"
    by (auto simp: less_diff_conv) (metis add.commute le_add_diff_inverse less_diff_conv2)
next
  assume r: "m \<le> i \<and> i < n \<and> P i \<and> (\<forall>j. m \<le> j \<and> j < i \<longrightarrow> \<not> P j)"
  then have "i - m < length [m..<n] \<and> P ([m..<n] ! (i - m)) \<and> i = [m..<n] ! (i - m)
      \<and> (\<forall>j<i - m. \<not> P ([m..<n] ! j))" by auto
  then show "find P [m..<n] = Some i" unfolding find_Some_iff by blast
qed

lemma find_upt_None_iff: "find P [m..<n] = None \<longleftrightarrow> (\<forall>j. m \<le> j \<and> j < n \<longrightarrow> \<not> P j)"
  by (auto simp: find_None_iff)

lemma first_some_iff:
  "first_some f xs = Some y \<longleftrightarrow> (\<exists>k < length xs. f (xs ! k) = Some y \<and> (\<forall>k' < k. f (xs ! k') = None))"
proof (induction xs)
  case (Cons x xs)
  then show ?case by (cases "f x") (simp_all add: Ex_less_Suc2 All_less_Suc2)
qed simp

text \<open>The positions a search looks at.\<close>

definition in_range :: "str list \<Rightarrow> str list \<Rightarrow> nat \<Rightarrow> bool \<Rightarrow> nat \<Rightarrow> bool" where
  "in_range ls pattern start eof i \<longleftrightarrow>
     (if eof then i = length ls - length pattern else start \<le> i) \<and> i + length pattern \<le> length ls"

lemma seek_sequence_iff:
  assumes "pattern \<noteq> []"
  shows "seek_sequence ls pattern start eof = Some i \<longleftrightarrow>
    (\<exists>k < 4. in_range ls pattern start eof i \<and> matches_at (passes ! k) ls pattern i
       \<and> (\<forall>j < i. in_range ls pattern start eof j \<longrightarrow> \<not> matches_at (passes ! k) ls pattern j)
       \<and> (\<forall>k' < k. \<forall>j. in_range ls pattern start eof j \<longrightarrow> \<not> matches_at (passes ! k') ls pattern j))"
proof (cases "length ls < length pattern")
  case True
  then show ?thesis using assms by (auto simp: seek_sequence_def in_range_def)
next
  case False
  define s where "s = (if eof \<and> length pattern \<le> length ls then length ls - length pattern else start)"
  have range: "s \<le> j \<and> j < Suc (length ls - length pattern) \<longleftrightarrow> in_range ls pattern start eof j" for j
    using False by (auto simp: in_range_def s_def)
  have len: "length passes = 4" by (simp add: passes_def)
  have pass: "seek_pass view ls pattern s = Some i \<longleftrightarrow>
      in_range ls pattern start eof i \<and> matches_at view ls pattern i
      \<and> (\<forall>j < i. in_range ls pattern start eof j \<longrightarrow> \<not> matches_at view ls pattern j)"
    "seek_pass view ls pattern s = None \<longleftrightarrow>
      (\<forall>j. in_range ls pattern start eof j \<longrightarrow> \<not> matches_at view ls pattern j)" for view
    unfolding seek_pass_def find_upt_Some_iff find_upt_None_iff range[symmetric] by auto
  show ?thesis
    using assms False unfolding seek_sequence_def Let_def s_def[symmetric]
    by (simp add: first_some_iff pass len del: upt_Suc)
qed

lemma seek_sequence_bound:
  assumes "seek_sequence ls pattern start eof = Some i" "start \<le> length ls"
  shows "i + length pattern \<le> length ls \<and> (eof \<or> start \<le> i)"
proof (cases "pattern = []")
  case True
  then show ?thesis using assms by (simp add: seek_sequence_def)
next
  case False
  then have "in_range ls pattern start eof i" using assms(1) seek_sequence_iff by blast
  then show ?thesis by (cases eof) (simp_all add: in_range_def)
qed

subsection \<open>Replacements\<close>

lemma remove_lines_eq: "remove_lines i n ls = take i ls @ drop (i + n) ls"
proof (induction n arbitrary: ls)
  case (Suc n)
  show ?case
  proof (cases "i < length ls")
    case True
    then show ?thesis by (simp add: Suc.IH remove_at_def min_def add.commute)
  next
    case False
    then show ?thesis by (simp add: Suc.IH)
  qed
qed simp

lemma insert_lines_eq: "i \<le> length ls \<Longrightarrow> insert_lines i xs ls = Some (take i ls @ xs @ drop i ls)"
proof (induction xs arbitrary: i ls)
  case (Cons x xs)
  let ?ls = "take i ls @ x # drop i ls"
  have "take (Suc i) ?ls = take i ls @ [x]" "drop (Suc i) ?ls = drop i ls"
    using Cons.prems by simp_all
  then show ?case using Cons.IH[of "Suc i" ?ls] Cons.prems by (simp add: insert_at_def)
qed simp

lemma apply_one_eq:
  "s \<le> length ls \<Longrightarrow> apply_one (s, l, new) ls = Some (take s ls @ new @ drop (s + l) ls)"
  by (simp add: apply_one_def remove_lines_eq insert_lines_eq)

text \<open>Application never reaches below the first replacement, so its insertions stay in range.\<close>

lemma apply_replacements_total:
  assumes "list_all (\<lambda>(s, l, new). s \<le> length ls) rs" "sorted (map fst rs)"
  shows "\<exists>ls'. apply_replacements ls rs = Some ls'
    \<and> (\<forall>p \<le> length ls. (\<forall>r \<in> set rs. p \<le> fst r) \<longrightarrow> take p ls' = take p ls)"
  using assms
proof (induction rs)
  case (Cons r rs)
  obtain s l new where r: "r = (s, l, new)" by (cases r)
  from Cons obtain ls' where ls': "apply_replacements ls rs = Some ls'"
    "\<forall>p \<le> length ls. (\<forall>r \<in> set rs. p \<le> fst r) \<longrightarrow> take p ls' = take p ls" by auto
  have "take s ls' = take s ls" using ls'(2) Cons.prems r by auto
  moreover have "s \<le> length ls" using Cons.prems r by simp
  ultimately have s: "s \<le> length ls'" by (metis length_take min.absorb2 nat_le_linear min_def)
  have "take p (take s ls' @ new @ drop (s + l) ls') = take p ls"
    if "p \<le> length ls" "\<forall>r' \<in> set (r # rs). p \<le> fst r'" for p
  proof -
    have "p \<le> s" "take p ls' = take p ls" using that ls'(2) r by auto
    then show ?thesis using s by (simp add: min_def)
  qed
  then show ?case using ls'(1) apply_one_eq[OF s] by (auto simp: r)
qed simp

text \<open>Replacements one after the other, and the file they splice.\<close>

fun in_order :: "nat \<Rightarrow> nat \<Rightarrow> replacement list \<Rightarrow> bool" where
  "in_order pos n [] \<longleftrightarrow> pos \<le> n"
| "in_order pos n ((s, l, new) # rs) \<longleftrightarrow> pos \<le> s \<and> in_order (s + l) n rs"

fun spliced :: "nat \<Rightarrow> 'a list \<Rightarrow> (nat \<times> nat \<times> 'a list) list \<Rightarrow> 'a list" where
  "spliced pos ls [] = drop pos ls"
| "spliced pos ls ((s, l, new) # rs) = take (s - pos) (drop pos ls) @ new @ spliced (s + l) ls rs"

lemma in_order_le: "in_order pos n rs \<Longrightarrow> pos \<le> n"
  by (induction pos n rs rule: in_order.induct) auto

lemma apply_replacements_splice:
  "in_order pos (length ls) rs \<Longrightarrow> apply_replacements ls rs = Some (take pos ls @ spliced pos ls rs)"
proof (induction rs arbitrary: pos)
  case (Cons r rs)
  obtain s l new where r: "r = (s, l, new)" by (cases r)
  have o: "pos \<le> s" "in_order (s + l) (length ls) rs" using Cons.prems r by simp_all
  have le: "s + l \<le> length ls" by (rule in_order_le[OF o(2)])
  let ?ls = "take (s + l) ls @ spliced (s + l) ls rs"
  have "take s ?ls = take s ls" "drop (s + l) ?ls = spliced (s + l) ls rs" "s \<le> length ?ls"
    using le by (simp_all add: min_def)
  then have "apply_one r ?ls = Some (take s ls @ new @ spliced (s + l) ls rs)"
    using apply_one_eq[of s ?ls] r by simp
  moreover have "take s ls = take pos ls @ take (s - pos) (drop pos ls)"
    using o(1) by (metis le_add_diff_inverse take_add)
  ultimately show ?case using Cons.IH[OF o(2)] r by simp
qed simp

subsection \<open>The replacements of a list of chunks\<close>

lemma after_context_bound:
  "after_context ls path c k = Inr k' \<Longrightarrow> k \<le> length ls \<Longrightarrow> k \<le> k' \<and> k' \<le> length ls"
  by (auto simp: after_context_def split: option.splits dest!: seek_sequence_bound)

lemma locate_chunk_bound:
  assumes "locate_chunk ls c k = Some (s, l, new)" "k \<le> length ls"
  shows "s + l \<le> length ls \<and> (is_end_of_file c \<or> k \<le> s)"
  using assms by (auto simp: locate_chunk_def Let_def split: option.splits if_splits dest!: seek_sequence_bound)

lemma insertion_index_le: "insertion_index ls \<le> length ls"
  by (simp add: insertion_index_def)

lemma collect_bound:
  assumes "collect_replacements ls path k cs = Inr rs" "k \<le> length ls"
  shows "list_all (\<lambda>(s, l, new). s \<le> length ls) rs"
  using assms
proof (induction cs arbitrary: k rs)
  case (Cons c cs)
  obtain k' where k': "after_context ls path c k = Inr k'" "k' \<le> length ls"
    using Cons.prems after_context_bound[of ls path c k] by (auto split: sum.splits)
  show ?case
  proof (cases "old_lines c = []")
    case True
    then show ?thesis
      using Cons k' insertion_index_le[of ls] by (cases "collect_replacements ls path k' cs") auto
  next
    case False
    then obtain s l new where loc: "locate_chunk ls c k' = Some (s, l, new)"
      using Cons.prems k' by (auto split: option.splits)
    have "s + l \<le> length ls" using locate_chunk_bound[OF loc k'(2)] by simp
    then show ?thesis
      using Cons k' loc False by (cases "collect_replacements ls path (s + l) cs") auto
  qed
qed simp

lemma derive_total: "derive_new_contents content path chunks \<noteq> None"
proof (cases "collect_replacements (file_lines content) path 0 chunks")
  case (Inr rs)
  have "list_all (\<lambda>(s, l, new). s \<le> length (file_lines content)) (sort_key fst rs)"
    using collect_bound[OF Inr] by (simp add: list_all_iff)
  from apply_replacements_total[OF this] obtain ls' where
    "apply_replacements (file_lines content) (sort_key fst rs) = Some ls'" by auto
  then show ?thesis using Inr by (simp add: derive_new_contents_def compute_replacements_def Let_def)
qed (simp add: derive_new_contents_def compute_replacements_def)

text \<open>
  Chunks the code finds in the order they are written: with old lines, not tied to the end of the file.
  \<open>fits\<close> says what a chunk's replacement replaces.
\<close>

definition ordinary :: "update_file_chunk \<Rightarrow> bool" where
  "ordinary c \<longleftrightarrow> old_lines c \<noteq> [] \<and> \<not> is_end_of_file c"

definition fits :: "str list \<Rightarrow> update_file_chunk \<Rightarrow> replacement \<Rightarrow> bool" where
  "fits ls c r \<longleftrightarrow> (case r of (s, l, new) \<Rightarrow>
     (\<exists>view \<in> set passes. map view (take l (drop s ls)) = map view (take l (old_lines c)))
     \<and> s + l \<le> length ls
     \<and> (if l = length (old_lines c) then new = new_lines c
        else ends_blank (old_lines c) \<and> Suc l = length (old_lines c) \<and> new = drop_blank_end (new_lines c)))"

lemma seek_sequence_view:
  assumes "seek_sequence ls pattern start eof = Some i"
  shows "\<exists>view \<in> set passes. map view (take (length pattern) (drop i ls)) = map view pattern"
proof (cases "pattern = []")
  case True
  then show ?thesis by (auto simp: passes_def)
next
  case False
  then obtain k where "k < 4" "matches_at (passes ! k) ls pattern i"
    using assms seek_sequence_iff by blast
  moreover have "length passes = 4" by (simp add: passes_def)
  ultimately show ?thesis unfolding matches_at_def by (metis nth_mem)
qed

lemma locate_chunk_fits:
  assumes "locate_chunk ls c k = Some r" "old_lines c \<noteq> []" "k \<le> length ls"
  shows "fits ls c r"
proof -
  obtain s l new where r: "r = (s, l, new)" by (cases r)
  have le: "s + l \<le> length ls" using locate_chunk_bound[of ls c k s l new] assms r by simp
  show ?thesis
  proof (cases "seek_sequence ls (old_lines c) k (is_end_of_file c)")
    case (Some i)
    then show ?thesis
      using assms(1) seek_sequence_view[OF Some] le r by (simp add: locate_chunk_def fits_def)
  next
    case None
    then have b: "ends_blank (old_lines c)"
      "seek_sequence ls (butlast (old_lines c)) k (is_end_of_file c) = Some s"
      "l = length (old_lines c) - 1" "new = drop_blank_end (new_lines c)"
      using assms(1) r by (auto simp: locate_chunk_def Let_def split: if_splits option.splits)
    have "take l (old_lines c) = butlast (old_lines c)" using b(3) by (simp add: butlast_conv_take)
    moreover have "Suc l = length (old_lines c)" using b(3) assms(2) by (cases "old_lines c") simp_all
    ultimately show ?thesis
      using seek_sequence_view[OF b(2)] b le r by (simp add: fits_def)
  qed
qed

lemma collect_ordinary:
  assumes "collect_replacements ls path k cs = Inr rs" "k \<le> length ls" "list_all ordinary cs"
  shows "in_order k (length ls) rs \<and> list_all2 (fits ls) cs rs"
  using assms
proof (induction cs arbitrary: k rs)
  case (Cons c cs)
  have c: "old_lines c \<noteq> []" "\<not> is_end_of_file c" using Cons.prems(3) by (simp_all add: ordinary_def)
  obtain k' where k': "after_context ls path c k = Inr k'" "k \<le> k'" "k' \<le> length ls"
    using Cons.prems after_context_bound[of ls path c k] by (auto split: sum.splits)
  then obtain s l new where loc: "locate_chunk ls c k' = Some (s, l, new)"
    using Cons.prems c by (auto split: option.splits)
  note b = locate_chunk_bound[OF loc k'(3)]
  obtain rs' where rs': "collect_replacements ls path (s + l) cs = Inr rs'" "rs = (s, l, new) # rs'"
    using Cons.prems k' loc c by (cases "collect_replacements ls path (s + l) cs") auto
  from Cons.IH[OF rs'(1)] show ?case
    using b c k' rs'(2) Cons.prems(3) locate_chunk_fits[OF loc c(1) k'(3)] by simp
qed simp

lemma in_order_sorted: "in_order k n rs \<Longrightarrow> sorted (map fst rs) \<and> (\<forall>r \<in> set rs. k \<le> fst r)"
  by (induction k n rs rule: in_order.induct) fastforce+

subsection \<open>Properties\<close>


text \<open>Applying an update never panics: for every file and every list of chunks - also chunks that overlap, that
  are tied to the end of the file or that only add lines - there is new content or an error.\<close>

theorem update_never_panics:
  "\<exists>r. derive_new_contents content path chunks = Some r"
  using derive_total by blast

text \<open>An update that applies changes only what its chunks name: the new file is the old one spliced at one
  place per chunk, in the order of the chunks, the places do not overlap, each holds the chunk's old lines
  (up to the white space and punctuation of the search), and every line outside them is kept.\<close>

theorem update_is_splice:
  assumes "list_all ordinary chunks" "derive_new_contents content path chunks = Some (Inr new_content)"
  shows "\<exists>rs. list_all2 (fits (file_lines content)) chunks rs \<and> in_order 0 (length (file_lines content)) rs
    \<and> (let replaced = spliced 0 (file_lines content) rs
       in new_content = join [newline] (if ends_blank replaced then replaced else replaced @ [[]]))"
proof -
  let ?ls = "file_lines content"
  obtain rs where rs: "collect_replacements ?ls path 0 chunks = Inr rs"
    using assms(2)
    by (cases "collect_replacements ?ls path 0 chunks")
      (auto simp: derive_new_contents_def compute_replacements_def Let_def)
  from collect_ordinary[OF rs _ assms(1)] have o: "in_order 0 (length ?ls) rs" "list_all2 (fits ?ls) chunks rs"
    by simp_all
  then have "sort_key fst rs = rs" using in_order_sorted by (intro sort_key_id_if_sorted) blast
  with rs assms(2) apply_replacements_splice[OF o(1)] o show ?thesis
    by (auto simp: derive_new_contents_def compute_replacements_def Let_def)
qed

lemma splice_example:
  "derive_new_contents (''a'' @ [newline] @ ''b'' @ [newline]) ''f''
     [\<lparr>change_context = None, old_lines = [''b''], new_lines = [''c''], is_end_of_file = False\<rparr>]
   = Some (Inr (''a'' @ [newline] @ ''c'' @ [newline]))"
  by (simp add: derive_new_contents_def file_lines_def drop_blank_end_def ends_blank_def compute_replacements_def
      after_context_def locate_chunk_def seek_sequence_def seek_pass_def passes_def matches_at_def upt_rec
      apply_one_def remove_at_def insert_at_def)

theorem update_is_splice_witness:
  "\<exists>rs. list_all2 (fits [''a'', ''b''])
      [\<lparr>change_context = None, old_lines = [''b''], new_lines = [''c''], is_end_of_file = False\<rparr>] rs
    \<and> in_order 0 2 rs"
proof -
  have "file_lines (''a'' @ [newline] @ ''b'' @ [newline]) = [''a'', ''b'']"
    by (simp add: file_lines_def drop_blank_end_def ends_blank_def)
  with update_is_splice[OF _ splice_example] show ?thesis by (auto simp: ordinary_def numeral_2_eq_2)
qed

lemma no_fuzzy_match: "view \<in> set passes \<Longrightarrow> view ''b'' \<noteq> view ''a''"
proof -
  have "trim ''a'' = ''a''" "trim ''b'' = ''b''" by (intro trim_id_ends; simp add: ws_seqs_def)+
  moreover have "trim_end ''a'' = ''a''" "trim_end ''b'' = ''b''"
    by (simp_all add: trim_end_id_iff ws_seqs_def ends_with_def)
  ultimately show "view \<in> set passes \<Longrightarrow> view ''b'' \<noteq> view ''a''"
    by (auto simp: passes_def normalise_def)
qed

text \<open>Three losses at the end of a file. A block tied to the end of the file is searched for at the last position
  only, without the fallback the documentation promises; the position may lie before the end of the
  previous chunk, and then the later of two overlapping replacements is undone by the earlier; and a
  blank line that a chunk leaves at the end of the file is taken for the final newline and dropped.\<close>

theorem update_end_of_file_losses:
  "seek_sequence [''a'', ''b''] [''a''] 0 True = None \<and> seek_sequence [''a'', ''b''] [''a''] 0 False = Some 0
   \<and> derive_new_contents (''a'' @ [newline]) ''f''
       [\<lparr>change_context = None, old_lines = [''a''], new_lines = [''b''], is_end_of_file = False\<rparr>,
        \<lparr>change_context = None, old_lines = [''a''], new_lines = [''c''], is_end_of_file = True\<rparr>]
     = Some (Inr (''b'' @ [newline]))
   \<and> derive_new_contents (''a'' @ [newline]) ''f''
       [\<lparr>change_context = None, old_lines = [''a''], new_lines = [''x'', []], is_end_of_file = False\<rparr>]
     = Some (Inr (''x'' @ [newline]))"
proof (intro conjI)
  show "seek_sequence [''a'', ''b''] [''a''] 0 True = None"
  proof (rule ccontr)
    assume "seek_sequence [''a'', ''b''] [''a''] 0 True \<noteq> None"
    then obtain i where i: "seek_sequence [''a'', ''b''] [''a''] 0 True = Some i" by blast
    then obtain k where "k < 4" "in_range [''a'', ''b''] [''a''] 0 True i" "matches_at (passes ! k) [''a'', ''b''] [''a''] i"
      using seek_sequence_iff[of "[''a'']" "[''a'', ''b'']" 0 True i] by auto
    moreover have "length passes = 4" by (simp add: passes_def)
    ultimately show False
      using no_fuzzy_match[of "passes ! k"] by (simp add: in_range_def matches_at_def)
  qed
qed (simp_all add: derive_new_contents_def file_lines_def drop_blank_end_def ends_blank_def compute_replacements_def
    after_context_def locate_chunk_def seek_sequence_def seek_pass_def passes_def matches_at_def upt_rec
    apply_one_def remove_at_def insert_at_def)

end
