(* ===== verification/File_System.thy ===== *)
theory File_System
  imports Externals
begin

section \<open>Files (\<open>cf-tools/src/computer\<close>)\<close>

text \<open>
  The file system a tool works on (the trait \<open>AsyncFileSystem\<close>), with its errors, as operations on a state
  of any type; the contract tools rely on, as a locale over what each path holds in a state; and the two
  implementations of the crate: \<open>MockFs\<close>, which keeps a map, and \<open>LocalFs\<close>, which confines the calls of the
  operating system to a workspace root.
\<close>

subsection \<open>Errors\<close>

datatype error_kind = NotFound | PermissionDenied | AlreadyExists | IsADirectory | InvalidFilename | OtherKind

record io_error =
  io_message :: str
  io_kind :: error_kind

datatype computer_error = IOError str "error_kind option" | CommandNotQuoted

fun error_text :: "computer_error \<Rightarrow> str" where
  "error_text (IOError m _) = ''IO Error: '' @ m"
| "error_text CommandNotQuoted = ''UnQuoted command''"

fun io_error_kind :: "computer_error \<Rightarrow> error_kind option" where
  "io_error_kind (IOError _ kind) = kind"
| "io_error_kind CommandNotQuoted = None"

definition from_io :: "io_error \<Rightarrow> computer_error" where
  "from_io e = IOError (io_message e) (Some (io_kind e))"

subsection \<open>The interface\<close>

text \<open>A call returns the state it leaves behind, and an error where it fails. Contents are bytes.\<close>

record 's file_system =
  fs_read :: "'s \<Rightarrow> str \<Rightarrow> computer_error + str"
  fs_write :: "'s \<Rightarrow> str \<Rightarrow> str \<Rightarrow> 's \<times> computer_error option"
  fs_delete :: "'s \<Rightarrow> str \<Rightarrow> 's \<times> computer_error option"

text \<open>\<open>Path::components\<close> and \<open>Path::starts_with\<close>: empty and \<open>.\<close> segments do not count, but for a leading \<open>.\<close>.\<close>

definition path_components :: "str \<Rightarrow> str list" where
  "path_components p =
     (let segs = split_on CHR ''/'' p; named = filter (\<lambda>s. s \<noteq> [] \<and> s \<noteq> ''.'') segs
      in if starts_with p ''/'' then ''/'' # named
         else if hd segs = ''.'' then ''.'' # named
         else named)"

definition path_starts_with :: "str \<Rightarrow> str \<Rightarrow> bool" where
  "path_starts_with p base = prefix (path_components base) (path_components p)"

text \<open>
  What a tool relies on, for a file system whose states hold the files \<open>contents\<close> and in which a path denotes the
  file \<open>file_of\<close> - several paths may denote one file: a read returns what the file holds, and a write or a deletion
  that reports success has set or removed that one file.
\<close>

type_synonym files = "str \<Rightarrow> str option"

locale lawful_files =
  fixes FS :: "'s file_system" and file_of :: "str \<Rightarrow> 'k" and contents :: "'s \<Rightarrow> 'k \<Rightarrow> str option"
  assumes read_law: "fs_read FS s p = Inr c \<Longrightarrow> contents s (file_of p) = Some c"
    and write_law: "fs_write FS s p c = (s', None) \<Longrightarrow> contents s' = (contents s)(file_of p \<mapsto> c)"
    and delete_law: "fs_delete FS s p = (s', None) \<Longrightarrow> contents s' = (contents s)(file_of p := None)"

subsection \<open>\<open>MockFs\<close>\<close>

text \<open>The keys of its map are \<open>PathBuf\<close>s, which are equal when their components are: \<open>a//b\<close>, \<open>a/./b\<close> and \<open>a/b\<close>.\<close>

type_synonym mock_files = "str list \<Rightarrow> str option"

definition mock_fs :: "mock_files file_system" where
  "mock_fs =
     \<lparr>fs_read = (\<lambda>fs p. case fs (path_components p) of Some c \<Rightarrow> Inr c
                   | None \<Rightarrow> Inl (IOError (''File not found: '' @ p) (Some NotFound))),
      fs_write = (\<lambda>fs p c. (fs(path_components p \<mapsto> c), None)),
      fs_delete = (\<lambda>fs p. (fs(path_components p := None), None))\<rparr>"

interpretation mock: lawful_files mock_fs path_components "\<lambda>fs. fs"
  by unfold_locales (auto simp: mock_fs_def split: option.splits)

subsection \<open>The operating system\<close>

text \<open>\<open>os_canonicalize\<close> is \<open>tokio::fs::canonicalize\<close> followed by \<open>dunce::simplified\<close>.\<close>

record 's os =
  os_read :: "'s \<Rightarrow> str \<Rightarrow> io_error + str"
  os_write :: "'s \<Rightarrow> str \<Rightarrow> str \<Rightarrow> 's \<times> io_error option"
  os_remove_file :: "'s \<Rightarrow> str \<Rightarrow> 's \<times> io_error option"
  os_create_dir_all :: "'s \<Rightarrow> str \<Rightarrow> 's \<times> io_error option"
  os_canonicalize :: "'s \<Rightarrow> str \<Rightarrow> io_error + str"

subsection \<open>\<open>LocalFs\<close>\<close>

definition canonical_root :: "'s os \<Rightarrow> 's \<Rightarrow> str \<Rightarrow> str" where
  "canonical_root OS s root = (case os_canonicalize OS s root of Inr p \<Rightarrow> p | Inl _ \<Rightarrow> root)"

definition canonical_path :: "externals \<Rightarrow> 's os \<Rightarrow> 's \<Rightarrow> str \<Rightarrow> computer_error + str" where
  "canonical_path E OS s path =
     (case os_canonicalize OS s path of
        Inr p \<Rightarrow> Inr p
      | Inl _ \<Rightarrow>
          (let parent = (case fs_parent E path of Some parent \<Rightarrow> parent | None \<Rightarrow> ''.'') in
           case os_canonicalize OS s parent of
             Inr p \<Rightarrow> Inr (fs_join E p (case fs_file_name E path of Some n \<Rightarrow> n | None \<Rightarrow> []))
           | Inl parent_err \<Rightarrow>
               Inl (IOError (''access denied: cannot resolve parent directory of '' @ [squote] @ path @ [squote]
                      @ '' for boundary check: '' @ io_message parent_err) (Some NotFound))))"

definition validate_path :: "externals \<Rightarrow> 's os \<Rightarrow> str option \<Rightarrow> 's \<Rightarrow> str \<Rightarrow> computer_error + str" where
  "validate_path E OS workspace_root s path =
     (case workspace_root of
        None \<Rightarrow> Inr path
      | Some root \<Rightarrow>
          (case canonical_path E OS s path of
             Inl e \<Rightarrow> Inl e
           | Inr p \<Rightarrow>
               if path_starts_with p (canonical_root OS s root) then Inr p
               else Inl (IOError (''access denied: path '' @ [squote] @ path @ [squote]
                           @ '' resolves outside the workspace root'') None)))"

text \<open>The delays of the retries, in milliseconds; the second result lists those that were slept.\<close>

definition WRITE_RETRY_DELAYS :: "nat list" where
  "WRITE_RETRY_DELAYS = [25, 50, 100, 200, 400]"

fun write_with_retries :: "'s os \<Rightarrow> (io_error \<Rightarrow> bool) \<Rightarrow> nat list \<Rightarrow> 's \<Rightarrow> str \<Rightarrow> str
    \<Rightarrow> ('s \<times> io_error option) \<times> nat list" where
  "write_with_retries OS is_retryable delays s path data =
     (case os_write OS s path data of
        (s', None) \<Rightarrow> ((s', None), [])
      | (s', Some e) \<Rightarrow>
          if is_retryable e then
            (case delays of
               [] \<Rightarrow> ((s', Some e), [])
             | delay # rest \<Rightarrow>
                 map_prod id (\<lambda>slept. delay # slept) (write_with_retries OS is_retryable rest s' path data))
          else ((s', Some e), []))"

declare write_with_retries.simps [simp del]

definition local_fs :: "externals \<Rightarrow> 's os \<Rightarrow> (io_error \<Rightarrow> bool) \<Rightarrow> str option \<Rightarrow> 's file_system" where
  "local_fs E OS is_retryable workspace_root =
     \<lparr>fs_read = (\<lambda>s path.
        case validate_path E OS workspace_root s path of
          Inl e \<Rightarrow> Inl e
        | Inr p \<Rightarrow> map_sum from_io id (os_read OS s p)),
      fs_write = (\<lambda>s path data.
        case validate_path E OS workspace_root s path of
          Inl e \<Rightarrow> (s, Some e)
        | Inr p \<Rightarrow>
            (case (case fs_parent E p of None \<Rightarrow> (s, None) | Some dir \<Rightarrow> os_create_dir_all OS s dir) of
               (s', Some e) \<Rightarrow> (s', Some (from_io e))
             | (s', None) \<Rightarrow>
                 map_prod id (map_option from_io)
                   (fst (write_with_retries OS is_retryable WRITE_RETRY_DELAYS s' p data)))),
      fs_delete = (\<lambda>s path.
        case validate_path E OS workspace_root s path of
          Inl e \<Rightarrow> (s, Some e)
        | Inr p \<Rightarrow> map_prod id (map_option from_io) (os_remove_file OS s p))\<rparr>"

subsection \<open>Notifications\<close>

text \<open>What a tool announces about a write (\<open>FileWritten\<close>; the call's identifier is left out).\<close>

record file_written =
  fw_path :: str
  fw_content :: str
  fw_previous_content :: "str option"
  fw_is_new_file :: bool

definition written :: "str \<Rightarrow> str \<Rightarrow> str option \<Rightarrow> bool \<Rightarrow> file_written" where
  "written path content previous is_new =
     \<lparr>fw_path = path, fw_content = content, fw_previous_content = previous, fw_is_new_file = is_new\<rparr>"

subsection \<open>Text\<close>

text \<open>\<open>String::from_utf8_lossy\<close>: a byte sequence that is not UTF-8 becomes one replacement character for each
  maximal part of a character.\<close>

definition replacement_char :: str where
  "replacement_char = [CHR 0xEF, CHR 0xBF, CHR 0xBD]"

definition byte_in :: "char \<Rightarrow> nat \<Rightarrow> nat \<Rightarrow> bool" where
  "byte_in c lo hi = (lo \<le> (of_char c :: nat) \<and> (of_char c :: nat) \<le> hi)"

text \<open>The range of the second byte after a given first byte, and how many bytes the character has.\<close>

definition second_byte :: "char \<Rightarrow> (nat \<times> nat \<times> nat) option" where
  "second_byte c =
     (if byte_in c 0xC2 0xDF then Some (2, 0x80, 0xBF)
      else if c = CHR 0xE0 then Some (3, 0xA0, 0xBF)
      else if c = CHR 0xED then Some (3, 0x80, 0x9F)
      else if byte_in c 0xE1 0xEF then Some (3, 0x80, 0xBF)
      else if c = CHR 0xF0 then Some (4, 0x90, 0xBF)
      else if byte_in c 0xF1 0xF3 then Some (4, 0x80, 0xBF)
      else if c = CHR 0xF4 then Some (4, 0x80, 0x8F)
      else None)"

definition continues :: "char \<Rightarrow> bool" where
  "continues c = byte_in c 0x80 0xBF"

text \<open>How many bytes the first character or the first broken part of one takes, and whether it is a character.\<close>

fun utf8_step :: "str \<Rightarrow> bool \<times> nat" where
  "utf8_step [] = (True, 0)"
| "utf8_step (c # rest) =
     (if byte_in c 0 0x7F then (True, 1)
      else (case second_byte c of
              None \<Rightarrow> (False, 1)
            | Some (n, lo, hi) \<Rightarrow>
                (case rest of
                   [] \<Rightarrow> (False, 1)
                 | d # further \<Rightarrow>
                     if \<not> byte_in d lo hi then (False, 1)
                     else (let k = length (takeWhile continues (take (n - 2) further))
                           in (k = n - 2, k + 2)))))"

lemma utf8_step_pos: "s \<noteq> [] \<Longrightarrow> 0 < snd (utf8_step s)"
  by (cases s) (auto simp: Let_def split: option.split list.split)

text \<open>The text as its characters and broken parts.\<close>

function utf8_units :: "str \<Rightarrow> (bool \<times> str) list" where
  "utf8_units s =
     (if s = [] then []
      else (fst (utf8_step s), take (snd (utf8_step s)) s) # utf8_units (drop (snd (utf8_step s)) s))"
  by pat_completeness auto
termination
  by (relation "measure length") (auto simp: utf8_step_pos)

declare utf8_units.simps [simp del]

definition utf8_lossy :: "str \<Rightarrow> str" where
  "utf8_lossy s = concat (map (\<lambda>(ok, u). if ok then u else replacement_char) (utf8_units s))"

definition is_utf8 :: "str \<Rightarrow> bool" where
  "is_utf8 s = list_all fst (utf8_units s)"

lemma utf8_units_Nil [simp]: "utf8_units [] = []"
  by (simp add: utf8_units.simps)

lemma utf8_units_ascii [simp]: "byte_in c 0 0x7F \<Longrightarrow> utf8_units (c # s) = (True, [c]) # utf8_units s"
  by (subst utf8_units.simps) simp

lemma concat_utf8_units [simp]: "concat (map snd (utf8_units s)) = s"
proof (induction s rule: utf8_units.induct)
  case (1 s)
  then show ?case by (subst utf8_units.simps) simp
qed

lemma utf8_lossy_id: "is_utf8 s \<Longrightarrow> utf8_lossy s = s"
proof -
  assume "is_utf8 s"
  then have "map (\<lambda>(ok, u). if ok then u else replacement_char) (utf8_units s) = map snd (utf8_units s)"
    by (auto simp: is_utf8_def list_all_iff)
  then have "utf8_lossy s = concat (map snd (utf8_units s))" by (simp only: utf8_lossy_def)
  then show ?thesis by simp
qed

text \<open>A number in decimal.\<close>

fun show_nat :: "nat \<Rightarrow> str" where
  "show_nat n = (if n < 10 then [char_of (48 + n)] else show_nat (n div 10) @ [char_of (48 + n mod 10)])"

declare show_nat.simps [simp del]

end
