(* ===== verification/Patch_Tool.thy ===== *)
theory Patch_Tool
  imports Patch_Format Patch_Apply_Props File_System
begin

section \<open>The apply-patch tool (\<open>codex/apply_patch/tool.rs\<close>)\<close>

text \<open>
  The tool parses a patch, computes every change from the files as they are, and only then writes. The outer
  sum is the tool's own error (\<open>ToolError\<close>), which may come after some of the writes; the notifications are
  those sent. Parent directories are created outside the file system of the tool, by the function \<open>mkdirs\<close>
  (\<open>tokio::fs::create_dir_all\<close>).
\<close>

type_synonym 's mkdirs = "'s \<Rightarrow> str \<Rightarrow> 's \<times> str option"

subsection \<open>Changes\<close>

datatype file_change =
    Add str str
  | Delete str str
  | Update str str str
  | Move str str str str

record file_result =
  fr_path :: str
  fr_action :: str
  fr_old_text :: "str option"
  fr_new_text :: str
  fr_move_to :: "str option"

datatype patch_output =
    PatchParseError str
  | EmptyPatch str
  | ApplicationError str
  | PatchSuccess "file_result list" str

text \<open>\<open>None\<close> is a panic of \<open>derive_new_contents\<close>.\<close>

definition read_file_as_string :: "'s file_system \<Rightarrow> 's \<Rightarrow> str \<Rightarrow> str + str" where
  "read_file_as_string FS fs path = map_sum error_text utf8_lossy (fs_read FS fs path)"

definition compute_change :: "externals \<Rightarrow> 's file_system \<Rightarrow> 's \<Rightarrow> str \<Rightarrow> hunk \<Rightarrow> (str + file_change) option" where
  "compute_change E FS fs cwd h =
     (case h of
        AddFile path contents \<Rightarrow> Some (Inr (Add (fs_join E cwd path) contents))
      | DeleteFile path \<Rightarrow>
          (let resolved = fs_join E cwd path in
           case read_file_as_string FS fs resolved of
             Inl e \<Rightarrow> Some (Inl (''Failed to read file: '' @ resolved @ '', '' @ e))
           | Inr original_content \<Rightarrow> Some (Inr (Delete resolved original_content)))
      | UpdateFile path move_path chunks \<Rightarrow>
          (let resolved = fs_join E cwd path in
           case read_file_as_string FS fs resolved of
             Inl e \<Rightarrow> Some (Inl (''Failed to read file to update: '' @ resolved @ '', '' @ e))
           | Inr original_content \<Rightarrow>
               (case derive_new_contents original_content resolved chunks of
                  None \<Rightarrow> None
                | Some (Inl (ComputeReplacements msg)) \<Rightarrow> Some (Inl msg)
                | Some (Inr new_content) \<Rightarrow>
                    Some (Inr (case move_path of
                       Some dest \<Rightarrow> Move resolved (fs_join E cwd dest) original_content new_content
                     | None \<Rightarrow> Update resolved original_content new_content)))))"

fun compute_all_changes :: "externals \<Rightarrow> 's file_system \<Rightarrow> 's \<Rightarrow> str \<Rightarrow> hunk list
    \<Rightarrow> (str + file_change list) option" where
  "compute_all_changes E FS fs cwd [] = Some (Inr [])"
| "compute_all_changes E FS fs cwd (h # hs) =
     (case compute_change E FS fs cwd h of
        None \<Rightarrow> None
      | Some (Inl e) \<Rightarrow> Some (Inl e)
      | Some (Inr c) \<Rightarrow> map_option (map_sum id (\<lambda>cs. c # cs)) (compute_all_changes E FS fs cwd hs))"

definition ensure_parent_dirs :: "externals \<Rightarrow> 's mkdirs \<Rightarrow> str \<Rightarrow> 's \<Rightarrow> 's \<times> str option" where
  "ensure_parent_dirs E mkdirs path fs =
     (case fs_parent E path of
        Some parent \<Rightarrow> if parent \<noteq> [] then mkdirs fs parent else (fs, None)
      | None \<Rightarrow> (fs, None))"

text \<open>\<open>map_err(...)?\<close> on a call of the file system.\<close>

definition stringly :: "'s \<times> computer_error option \<Rightarrow> 's \<times> str option" where
  "stringly r = map_prod id (map_option error_text) r"

definition and_then :: "'s \<times> str option \<Rightarrow> ('s \<Rightarrow> 's \<times> (str + 'a)) \<Rightarrow> 's \<times> (str + 'a)" where
  "and_then r k = (case r of (fs, None) \<Rightarrow> k fs | (fs, Some e) \<Rightarrow> (fs, Inl e))"

fun apply_change :: "externals \<Rightarrow> 's mkdirs \<Rightarrow> 's file_system \<Rightarrow> file_change \<Rightarrow> 's
    \<Rightarrow> 's \<times> (str + file_written list \<times> file_result)" where
  "apply_change E mkdirs FS (Add path content) fs =
     and_then (ensure_parent_dirs E mkdirs path fs) (\<lambda>fs.
     and_then (stringly (fs_write FS fs path content)) (\<lambda>fs.
       (fs, Inr ([written path content None True],
                 \<lparr>fr_path = path, fr_action = ''added'', fr_old_text = None, fr_new_text = content,
                  fr_move_to = None\<rparr>))))"
| "apply_change E mkdirs FS (Delete path original_content) fs =
     and_then (stringly (fs_delete FS fs path)) (\<lambda>fs.
       (fs, Inr ([written path [] (Some original_content) False],
                 \<lparr>fr_path = path, fr_action = ''deleted'', fr_old_text = Some original_content, fr_new_text = [],
                  fr_move_to = None\<rparr>)))"
| "apply_change E mkdirs FS (Update path original_content new_content) fs =
     and_then (stringly (fs_write FS fs path new_content)) (\<lambda>fs.
       (fs, Inr ([written path new_content (Some original_content) False],
                 \<lparr>fr_path = path, fr_action = ''modified'', fr_old_text = Some original_content,
                  fr_new_text = new_content, fr_move_to = None\<rparr>)))"
| "apply_change E mkdirs FS (Move source_path dest_path original_content new_content) fs =
     and_then (ensure_parent_dirs E mkdirs dest_path fs) (\<lambda>fs.
     and_then (stringly (fs_write FS fs dest_path new_content)) (\<lambda>fs.
     and_then (stringly (fs_delete FS fs source_path)) (\<lambda>fs.
       (fs, Inr ([written dest_path new_content None True, written source_path [] (Some original_content) False],
                 \<lparr>fr_path = source_path, fr_action = ''moved'', fr_old_text = Some original_content,
                  fr_new_text = new_content, fr_move_to = Some dest_path\<rparr>)))))"

fun apply_changes :: "externals \<Rightarrow> 's mkdirs \<Rightarrow> 's file_system \<Rightarrow> file_change list \<Rightarrow> 's
    \<Rightarrow> 's \<times> file_written list \<times> (str + file_result list)" where
  "apply_changes E mkdirs FS [] fs = (fs, [], Inr [])"
| "apply_changes E mkdirs FS (c # cs) fs =
     (case apply_change E mkdirs FS c fs of
        (fs, Inl e) \<Rightarrow> (fs, [], Inl e)
      | (fs, Inr (ns, r)) \<Rightarrow>
          (let (fs, ns', rs) = apply_changes E mkdirs FS cs fs in (fs, ns @ ns', map_sum id (\<lambda>rs. r # rs) rs)))"

definition summary_line :: "file_result \<Rightarrow> str" where
  "summary_line r =
     (if fr_action r = ''added'' then ''A'' else if fr_action r = ''deleted'' then ''D'' else ''M'')
     @ '' '' @ fr_path r @ [newline]"

definition build_summary :: "file_result list \<Rightarrow> str" where
  "build_summary results =
     ''Success. Updated the following files:'' @ [newline] @ concat (map summary_line results)"

definition parse_error_message :: "parse_error \<Rightarrow> str" where
  "parse_error_message e =
     (case e of
        InvalidPatchError m \<Rightarrow> ''Invalid patch: '' @ m
      | InvalidHunkError message line_number \<Rightarrow>
          ''Invalid patch hunk on line '' @ show_nat line_number @ '': '' @ message)"

definition apply_patch :: "externals \<Rightarrow> 's mkdirs \<Rightarrow> 's file_system \<Rightarrow> str \<Rightarrow> str \<Rightarrow> 's
    \<Rightarrow> ('s \<times> file_written list \<times> (str + patch_output)) option" where
  "apply_patch E mkdirs FS cwd patch fs =
     (case parse_patch patch of
        Inl e \<Rightarrow> Some (fs, [], Inr (PatchParseError (parse_error_message e)))
      | Inr parsed \<Rightarrow>
          if pp_hunks parsed = [] then Some (fs, [], Inr (EmptyPatch ''No files were modified.''))
          else (case compute_all_changes E FS fs cwd (pp_hunks parsed) of
                  None \<Rightarrow> None
                | Some (Inl msg) \<Rightarrow> Some (fs, [], Inr (ApplicationError msg))
                | Some (Inr changes) \<Rightarrow>
                    (let (fs', ns, r) = apply_changes E mkdirs FS changes fs
                     in Some (fs', ns, map_sum id (\<lambda>rs. PatchSuccess rs (build_summary rs)) r))))"

end
