(* ===== verification/Local_Files.thy ===== *)
theory Local_Files
  imports File_System
begin

section \<open>What \<open>LocalFs\<close> guarantees\<close>

text \<open>
  Confinement as non-interference: two operating systems that agree on the paths under the workspace root
  cannot be told apart through \<open>LocalFs\<close>. The retries of a write. And the way around the confinement. On an
  operating system whose calls do what they are documented to do, \<open>LocalFs\<close> keeps the contract of a file system.
\<close>

definition agree_under :: "externals \<Rightarrow> str \<Rightarrow> 's os \<Rightarrow> 's os \<Rightarrow> bool" where
  "agree_under E root OS OS' \<longleftrightarrow>
     (\<forall>s p. path_starts_with p root \<longrightarrow>
        os_read OS' s p = os_read OS s p
        \<and> os_write OS' s p = os_write OS s p
        \<and> os_remove_file OS' s p = os_remove_file OS s p
        \<and> (\<forall>dir. fs_parent E p = Some dir \<longrightarrow> os_create_dir_all OS' s dir = os_create_dir_all OS s dir))"

lemma validate_confined:
  "validate_path E OS (Some root) s path = Inr p \<Longrightarrow> path_starts_with p (canonical_root OS s root)"
  by (auto simp: validate_path_def split: sum.splits if_splits)

lemma validate_agree:
  "os_canonicalize OS' = os_canonicalize OS \<Longrightarrow> validate_path E OS' root s path = validate_path E OS root s path"
  by (simp add: validate_path_def canonical_path_def canonical_root_def split: option.split sum.split)

lemma retries_agree:
  assumes "\<And>s. os_write OS' s p = os_write OS s p"
  shows "write_with_retries OS' is_retryable delays s p data = write_with_retries OS is_retryable delays s p data"
proof (induction delays arbitrary: s)
  case Nil
  show ?case by (subst (1 2) write_with_retries.simps) (simp add: assms split: prod.split option.split)
next
  case (Cons d delays)
  then show ?case by (subst (1 2) write_with_retries.simps) (simp add: assms split: prod.split option.split)
qed

text \<open>The state after a number of attempts.\<close>

definition after_attempts :: "'s os \<Rightarrow> str \<Rightarrow> str \<Rightarrow> nat \<Rightarrow> 's \<Rightarrow> 's" where
  "after_attempts OS path data n s = ((\<lambda>s. fst (os_write OS s path data)) ^^ n) s"

definition retryable_failure :: "(io_error \<Rightarrow> bool) \<Rightarrow> io_error option \<Rightarrow> bool" where
  "retryable_failure is_retryable r = (case r of Some e \<Rightarrow> is_retryable e | None \<Rightarrow> False)"

lemma retries_cases:
  assumes "write_with_retries OS is_retryable delays s path data = ((s', r), slept)"
  shows "prefix slept delays
    \<and> os_write OS (after_attempts OS path data (length slept) s) path data = (s', r)
    \<and> (\<forall>n < length slept. retryable_failure is_retryable (snd (os_write OS (after_attempts OS path data n s) path data)))
    \<and> (retryable_failure is_retryable r \<longrightarrow> slept = delays)"
  using assms
proof (induction delays arbitrary: s slept)
  case Nil
  then show ?case
    by (subst (asm) write_with_retries.simps)
      (auto simp: after_attempts_def retryable_failure_def split: prod.splits option.splits if_splits)
next
  case (Cons d delays)
  obtain s1 r1 where w: "os_write OS s path data = (s1, r1)" by (cases "os_write OS s path data")
  show ?case
  proof (cases "retryable_failure is_retryable r1")
    case True
    then obtain e where e: "r1 = Some e" "is_retryable e" by (auto simp: retryable_failure_def split: option.splits)
    then obtain slept' where rec: "write_with_retries OS is_retryable delays s1 path data = ((s', r), slept')"
        "slept = d # slept'"
      using Cons.prems w by (subst (asm) write_with_retries.simps) (auto simp: map_prod_def split: prod.splits)
    have step: "after_attempts OS path data (Suc n) s = after_attempts OS path data n s1" for n
      using w by (simp add: after_attempts_def funpow_Suc_right del: funpow.simps)
    have first: "after_attempts OS path data 0 s = s" by (simp add: after_attempts_def)
    from Cons.IH[OF rec(1)] show ?thesis
      using rec(2) True w by (auto simp: step less_Suc_eq_0_disj first)
  next
    case False
    then show ?thesis
      using Cons.prems w
      by (subst (asm) write_with_retries.simps)
        (auto simp: after_attempts_def retryable_failure_def split: option.splits if_splits)
  qed
qed

subsection \<open>\<open>LocalFs\<close> keeps the contract of a file system\<close>

text \<open>
  What is relied on of the operating system, for files \<open>contents\<close> and the file \<open>file_of\<close> a path denotes: a read
  returns what the file holds; a write changes no other file, and sets this one where it succeeds; a removal that
  succeeds removes the file (the path is not itself a symbolic link); creating directories changes no file; a path
  and its canonical form denote one file, and so do a path that does not resolve and its name joined to its
  canonical parent.
\<close>

definition os_contract :: "externals \<Rightarrow> 's os \<Rightarrow> (str \<Rightarrow> 'k) \<Rightarrow> ('s \<Rightarrow> 'k \<Rightarrow> str option) \<Rightarrow> bool" where
  "os_contract E OS file_of contents \<longleftrightarrow>
     (\<forall>s p c. os_read OS s p = Inr c \<longrightarrow> contents s (file_of p) = Some c)
   \<and> (\<forall>s p c s' r. os_write OS s p c = (s', r) \<longrightarrow>
        (\<forall>k. k \<noteq> file_of p \<longrightarrow> contents s' k = contents s k) \<and> (r = None \<longrightarrow> contents s' (file_of p) = Some c))
   \<and> (\<forall>s p s'. os_remove_file OS s p = (s', None) \<longrightarrow> contents s' = (contents s)(file_of p := None))
   \<and> (\<forall>s d s' r. os_create_dir_all OS s d = (s', r) \<longrightarrow> contents s' = contents s)
   \<and> (\<forall>s p q. os_canonicalize OS s p = Inr q \<longrightarrow> file_of q = file_of p)
   \<and> (\<forall>s p e q. os_canonicalize OS s p = Inl e
        \<and> os_canonicalize OS s (case fs_parent E p of Some parent \<Rightarrow> parent | None \<Rightarrow> ''.'') = Inr q \<longrightarrow>
        file_of (fs_join E q (case fs_file_name E p of Some n \<Rightarrow> n | None \<Rightarrow> [])) = file_of p)"

lemma os_contractD:
  assumes "os_contract E OS file_of contents"
  shows "os_read OS s p = Inr c \<Longrightarrow> contents s (file_of p) = Some c"
    and "os_write OS s p d = (s', r) \<Longrightarrow> k \<noteq> file_of p \<Longrightarrow> contents s' k = contents s k"
    and "os_write OS s p d = (s', None) \<Longrightarrow> contents s' (file_of p) = Some d"
    and "os_remove_file OS s p = (s', None) \<Longrightarrow> contents s' = (contents s)(file_of p := None)"
    and "os_create_dir_all OS s dir = (s', r) \<Longrightarrow> contents s' = contents s"
    and "os_canonicalize OS s p = Inr q \<Longrightarrow> file_of q = file_of p"
proof -
  note laws = assms[unfolded os_contract_def, THEN conjunct2]
  show "os_read OS s p = Inr c \<Longrightarrow> contents s (file_of p) = Some c"
    by (rule assms[unfolded os_contract_def, THEN conjunct1, rule_format])
  show "os_write OS s p d = (s', r) \<Longrightarrow> k \<noteq> file_of p \<Longrightarrow> contents s' k = contents s k"
    "os_write OS s p d = (s', None) \<Longrightarrow> contents s' (file_of p) = Some d"
    using laws[THEN conjunct1] by (metis, metis)
  show "os_remove_file OS s p = (s', None) \<Longrightarrow> contents s' = (contents s)(file_of p := None)"
    by (rule laws[THEN conjunct2, THEN conjunct1, rule_format])
  show "os_create_dir_all OS s dir = (s', r) \<Longrightarrow> contents s' = contents s"
    by (rule laws[THEN conjunct2, THEN conjunct2, THEN conjunct1, rule_format])
  show "os_canonicalize OS s p = Inr q \<Longrightarrow> file_of q = file_of p"
    by (rule laws[THEN conjunct2, THEN conjunct2, THEN conjunct2, THEN conjunct1, rule_format])
qed

lemma validated_file:
  assumes "os_contract E OS file_of contents" "validate_path E OS root s path = Inr p"
  shows "file_of p = file_of path"
proof (cases root)
  case (Some r)
  with assms(2) have "canonical_path E OS s path = Inr p" by (auto simp: validate_path_def split: sum.splits if_splits)
  then show ?thesis
    using assms(1) unfolding canonical_path_def os_contract_def by (auto simp: Let_def split: sum.splits)
qed (use assms(2) in \<open>simp add: validate_path_def\<close>)

lemma retried_write:
  assumes "os_contract E OS file_of contents" "write_with_retries OS is_retryable delays s p data = ((s', r), slept)"
  shows "(\<forall>k. k \<noteq> file_of p \<longrightarrow> contents s' k = contents s k) \<and> (r = None \<longrightarrow> contents s' (file_of p) = Some data)"
proof -
  have others: "contents (after_attempts OS p data n s) k = contents s k" if "k \<noteq> file_of p" for n k
  proof (induction n)
    case (Suc n)
    have "after_attempts OS p data (Suc n) s = fst (os_write OS (after_attempts OS p data n s) p data)"
      by (simp add: after_attempts_def)
    with Suc os_contractD(2)[OF assms(1) _ that] show ?case by (metis prod.collapse)
  qed (simp add: after_attempts_def)
  have "os_write OS (after_attempts OS p data (length slept) s) p data = (s', r)"
    using retries_cases[OF assms(2)] by blast
  with others os_contractD(2,3)[OF assms(1)] show ?thesis by metis
qed

lemma local_write:
  assumes "os_contract E OS file_of contents"
    and "fs_write (local_fs E OS is_retryable root) s path data = (s', None)"
  shows "contents s' = (contents s)(file_of path \<mapsto> data)"
proof -
  obtain p where p: "validate_path E OS root s path = Inr p"
    using assms(2) by (auto simp: local_fs_def split: sum.splits)
  obtain s1 where s1: "(case fs_parent E p of None \<Rightarrow> (s, None) | Some dir \<Rightarrow> os_create_dir_all OS s dir) = (s1, None)"
    using assms(2) p by (auto simp: local_fs_def split: prod.splits option.splits)
  obtain r slept where w: "write_with_retries OS is_retryable WRITE_RETRY_DELAYS s1 p data = ((s', r), slept)" "r = None"
    using assms(2) p s1
    by (cases "write_with_retries OS is_retryable WRITE_RETRY_DELAYS s1 p data") (auto simp: local_fs_def)
  have "contents s1 = contents s"
    using s1 os_contractD(5)[OF assms(1)] by (auto split: option.splits)
  moreover have "contents s' = (contents s1)(file_of p \<mapsto> data)"
    using retried_write[OF assms(1) w(1)] w(2) by (auto simp: fun_eq_iff)
  ultimately show ?thesis using validated_file[OF assms(1) p] by simp
qed

lemma local_fs_lawful:
  assumes "os_contract E OS file_of contents"
  shows "lawful_files (local_fs E OS is_retryable root) file_of contents"
proof
  show "contents s (file_of p) = Some c" if read: "fs_read (local_fs E OS is_retryable root) s p = Inr c" for s p c
  proof -
    obtain q where q: "validate_path E OS root s p = Inr q" "map_sum from_io id (os_read OS s q) = Inr c"
      using read by (cases "validate_path E OS root s p") (simp_all add: local_fs_def)
    then have "os_read OS s q = Inr c" by (cases "os_read OS s q") auto
    with q(1) validated_file[OF assms] os_contractD(1)[OF assms] show ?thesis by metis
  qed
  show "contents s' = (contents s)(file_of p := None)"
    if deleted: "fs_delete (local_fs E OS is_retryable root) s p = (s', None)" for s p s'
  proof -
    obtain q where "validate_path E OS root s p = Inr q" "os_remove_file OS s q = (s', None)"
      using deleted by (cases "os_remove_file OS s (projr (validate_path E OS root s p))")
        (auto simp: local_fs_def split: sum.splits)
    with validated_file[OF assms] os_contractD(4)[OF assms] show ?thesis by metis
  qed
qed (rule local_write[OF assms])

text \<open>An operating system with files in memory and no links, whose directories are given; no
  directory is the current one.\<close>

definition memory_os :: "str list set \<Rightarrow> mock_files os" where
  "memory_os dirs =
     (let missing = \<lparr>io_message = ''No such file or directory'', io_kind = NotFound\<rparr>
      in \<lparr>os_read = (\<lambda>fs p. case fs (path_components p) of Some c \<Rightarrow> Inr c | None \<Rightarrow> Inl missing),
          os_write = (\<lambda>fs p c. (fs(path_components p \<mapsto> c), None)),
          os_remove_file = (\<lambda>fs p. if fs (path_components p) = None then (fs, Some missing)
                                  else (fs(path_components p := None), None)),
          os_create_dir_all = (\<lambda>fs p. (fs, None)),
          os_canonicalize = (\<lambda>fs p. if p \<noteq> ''.'' \<and> (path_components p \<in> dirs \<or> fs (path_components p) \<noteq> None)
                                   then Inr p else Inl missing)\<rparr>)"

lemma memory_os_contract:
  assumes "\<And>p. fs_parent E p = None"
  shows "os_contract E (memory_os dirs) path_components (\<lambda>fs. fs)"
  using assms by (auto simp: os_contract_def memory_os_def Let_def split: option.splits if_splits)

definition workspace_dirs :: "str list set" where
  "workspace_dirs = {[''/''], [''/'', ''w'']}"

definition workspace_fs :: "mock_files file_system" where
  "workspace_fs = local_fs (example_externals (\<lambda>_. None)) (memory_os workspace_dirs) (\<lambda>_. False) (Some ''/w'')"

interpretation workspace: lawful_files workspace_fs path_components "\<lambda>fs. fs"
  unfolding workspace_fs_def
  by (rule local_fs_lawful, rule memory_os_contract) (simp_all add: example_externals_def)

subsection \<open>Properties\<close>

text \<open>C40: Reads, writes and deletions through a confined local file system reach the operating system only at
  paths that lie, as the operating system resolves them at the time of the check, under the canonical workspace
  root (and create only parents of such paths). Of two operating systems that resolve every path alike and agree on
  the paths under that root, every call has the same result and leaves the same state, whatever they do at all other
  paths. What the operating system itself does with a path under the root is outside this: a write there may follow
  a dangling symbolic link out of the root (\<open>dangling_link_escapes_root\<close>).\<close>

theorem local_fs_confined:
  assumes "os_canonicalize OS' = os_canonicalize OS" "agree_under E (canonical_root OS s root) OS OS'"
  shows "fs_read (local_fs E OS' is_retryable (Some root)) s path = fs_read (local_fs E OS is_retryable (Some root)) s path
    \<and> fs_write (local_fs E OS' is_retryable (Some root)) s path data
        = fs_write (local_fs E OS is_retryable (Some root)) s path data
    \<and> fs_delete (local_fs E OS' is_retryable (Some root)) s path
        = fs_delete (local_fs E OS is_retryable (Some root)) s path"
proof (cases "validate_path E OS (Some root) s path")
  case (Inl e)
  then show ?thesis by (simp add: local_fs_def validate_agree[OF assms(1)])
next
  case (Inr p)
  note a = assms(2)[unfolded agree_under_def, rule_format, OF validate_confined[OF Inr]]
  have w: "write_with_retries OS' is_retryable ds t p data = write_with_retries OS is_retryable ds t p data" for ds t
    using a by (intro retries_agree) blast
  show ?thesis
    using a Inr by (simp add: local_fs_def validate_agree[OF assms(1)] w split: option.split)
qed

text \<open>A write is retried only after failures that may pass, each time after the next of the five delays, at most
  six attempts in all; what is returned is the outcome of the last attempt, and it is a failure that may
  pass only when every delay has been used.\<close>

theorem write_retries_bounded:
  "let ((s', r), slept) = write_with_retries OS is_retryable WRITE_RETRY_DELAYS s path data
   in prefix slept [25, 50, 100, 200, 400]
      \<and> os_write OS (after_attempts OS path data (length slept) s) path data = (s', r)
      \<and> list_all (\<lambda>n. retryable_failure is_retryable
            (snd (os_write OS (after_attempts OS path data n s) path data))) [0..<length slept]
      \<and> (if retryable_failure is_retryable r then length slept = 5 else True)"
proof -
  obtain s' r slept where w: "write_with_retries OS is_retryable WRITE_RETRY_DELAYS s path data = ((s', r), slept)"
    by (metis prod.exhaust)
  from retries_cases[OF w] show ?thesis
    unfolding w Let_def prod.case by (auto simp: list_all_iff WRITE_RETRY_DELAYS_def)
qed

text \<open>
  An operating system on which one path is a symbolic link: the directory of the root exists, the target of
  the link does not, and a write to the link creates the target, as \<open>open\<close> with \<open>O_CREAT\<close> does.
\<close>

definition link_os :: "str \<Rightarrow> str \<Rightarrow> str \<Rightarrow> files os" where
  "link_os dir link target =
     (let file = (\<lambda>p. if p = link then target else p);
          missing = \<lparr>io_message = ''No such file or directory'', io_kind = NotFound\<rparr>
      in \<lparr>os_read = (\<lambda>fs p. case fs (file p) of Some c \<Rightarrow> Inr c | None \<Rightarrow> Inl missing),
          os_write = (\<lambda>fs p c. (fs(file p \<mapsto> c), None)),
          os_remove_file = (\<lambda>fs p. if fs p = None then (fs, Some missing) else (fs(p := None), None)),
          os_create_dir_all = (\<lambda>fs p. (fs, None)),
          os_canonicalize = (\<lambda>fs p. if p = dir \<or> fs (file p) \<noteq> None then Inr (file p) else Inl missing)\<rparr>)"

definition link_externals :: externals where
  "link_externals = (example_externals (\<lambda>_. None))
     \<lparr>fs_parent := (\<lambda>p. if p = ''/w/l'' then Some ''/w'' else None),
      fs_file_name := (\<lambda>p. if p = ''/w/l'' then Some ''l'' else None)\<rparr>"

text \<open>A dangling symbolic link leads out of the root. Its target does not exist, so the path does not resolve
  and is judged by its parent, which is inside; the write then follows the link and creates the file outside
  the root. Once the target exists, the same path is refused.\<close>

theorem dangling_link_escapes_root:
  "fs_write (local_fs link_externals (link_os ''/w'' ''/w/l'' ''/x'') (\<lambda>_. False) (Some ''/w'')) Map.empty ''/w/l'' data
     = ([''/x'' \<mapsto> data], None)
   \<and> (\<exists>e. fs_write (local_fs link_externals (link_os ''/w'' ''/w/l'' ''/x'') (\<lambda>_. False) (Some ''/w''))
        [''/x'' \<mapsto> data] ''/w/l'' data' = ([''/x'' \<mapsto> data], Some e))"
  by (simp add: local_fs_def validate_path_def canonical_path_def canonical_root_def link_os_def link_externals_def
      example_externals_def path_starts_with_def path_components_def Let_def
      write_with_retries.simps[of _ _ WRITE_RETRY_DELAYS])

theorem local_fs_confined_witness:
  "fs_read (local_fs link_externals ((link_os ''/w'' ''/w/l'' ''/x'')\<lparr>os_read := \<lambda>fs p.
       if path_starts_with p ''/w'' then os_read (link_os ''/w'' ''/w/l'' ''/x'') fs p else Inr ''secret''\<rparr>)
     (\<lambda>_. False) (Some ''/w'')) Map.empty ''/x''
   = fs_read (local_fs link_externals (link_os ''/w'' ''/w/l'' ''/x'') (\<lambda>_. False) (Some ''/w'')) Map.empty ''/x''"
proof -
  let ?OS = "link_os ''/w'' ''/w/l'' ''/x''"
  let ?OS' = "?OS\<lparr>os_read := \<lambda>fs p. if path_starts_with p ''/w'' then os_read ?OS fs p else Inr ''secret''\<rparr>"
  have "canonical_root ?OS Map.empty ''/w'' = ''/w''" by (simp add: canonical_root_def link_os_def Let_def)
  moreover have "agree_under link_externals ''/w'' ?OS ?OS'" by (simp add: agree_under_def)
  ultimately show ?thesis using local_fs_confined[of ?OS' ?OS link_externals Map.empty "''/w''"] by simp
qed

end
