(* ===== verification/Patch_Tool_Props.thy ===== *)
theory Patch_Tool_Props
  imports Patch_Tool Local_Files
begin

section \<open>What applying a patch does\<close>

text \<open>
  A reference semantics of a list of hunks, the writes it stands for over the files as they were, and the
  theorems that the tool carries out exactly these writes or leaves everything as it is.
\<close>

subsection \<open>The writes of a patch\<close>

definition updated :: "str option \<Rightarrow> str \<Rightarrow> update_file_chunk list \<Rightarrow> str option" where
  "updated content path chunks =
     (case content of
        None \<Rightarrow> None
      | Some original \<Rightarrow>
          (case derive_new_contents (utf8_lossy original) path chunks of Some (Inr new) \<Rightarrow> Some new | _ \<Rightarrow> None))"

fun hunk_writes :: "externals \<Rightarrow> str \<Rightarrow> files \<Rightarrow> hunk \<Rightarrow> (str \<times> str option) list" where
  "hunk_writes E cwd fs (AddFile path contents) = [(fs_join E cwd path, Some contents)]"
| "hunk_writes E cwd fs (DeleteFile path) = [(fs_join E cwd path, None)]"
| "hunk_writes E cwd fs (UpdateFile path move_path chunks) =
     (let new = updated (fs (fs_join E cwd path)) (fs_join E cwd path) chunks in
      case move_path of
        None \<Rightarrow> [(fs_join E cwd path, new)]
      | Some dest \<Rightarrow> [(fs_join E cwd dest, new), (fs_join E cwd path, None)])"

definition patch_writes :: "externals \<Rightarrow> str \<Rightarrow> files \<Rightarrow> hunk list \<Rightarrow> (str \<times> str option) list" where
  "patch_writes E cwd fs hs = concat (map (hunk_writes E cwd fs) hs)"

text \<open>The last write to a file decides; other files keep what they held.\<close>

definition after_writes :: "('k \<times> str option) list \<Rightarrow> ('k \<Rightarrow> str option) \<Rightarrow> 'k \<Rightarrow> str option" where
  "after_writes ws fs q = (case map_of (rev ws) q of Some c \<Rightarrow> c | None \<Rightarrow> fs q)"

lemma after_writes_simps [simp]:
  "after_writes [] fs = fs"
  "after_writes ((p, c) # ws) fs = after_writes ws (fs(p := c))"
  by (auto simp: after_writes_def fun_eq_iff map_of_append split: option.splits)

lemma after_writes_append: "after_writes (ws @ ws') fs = after_writes ws' (after_writes ws fs)"
  by (induction ws arbitrary: fs) auto

text \<open>The same for a computed change.\<close>

fun change_writes :: "file_change \<Rightarrow> (str \<times> str option) list" where
  "change_writes (Add path content) = [(path, Some content)]"
| "change_writes (Delete path _) = [(path, None)]"
| "change_writes (Update path _ new) = [(path, Some new)]"
| "change_writes (Move source dest _ new) = [(dest, Some new), (source, None)]"

definition written_as :: "file_written \<Rightarrow> str \<times> str option \<Rightarrow> bool" where
  "written_as n w \<longleftrightarrow> fw_path n = fst w \<and> fw_content n = (case snd w of Some c \<Rightarrow> c | None \<Rightarrow> [])"

fun hunk_path :: "hunk \<Rightarrow> str" where
  "hunk_path (AddFile path _) = path"
| "hunk_path (DeleteFile path) = path"
| "hunk_path (UpdateFile path _ _) = path"

fun change_path :: "file_change \<Rightarrow> str" where
  "change_path (Add path _) = path"
| "change_path (Delete path _) = path"
| "change_path (Update path _ _) = path"
| "change_path (Move source _ _ _) = source"

subsection \<open>Computing the changes\<close>

lemma compute_change_total: "compute_change E FS fs cwd h \<noteq> None"
  by (cases h) (auto simp: compute_change_def Let_def derive_total
      split: sum.split option.split apply_error.split simp del: not_None_eq)

lemma compute_all_total: "compute_all_changes E FS fs cwd hs \<noteq> None"
  by (induction hs) (auto simp: compute_change_total split: option.split sum.split simp del: not_None_eq)

lemma compute_all_Cons:
  "compute_all_changes E FS fs cwd (h # hs) = Some (Inr cs) \<longleftrightarrow>
     (\<exists>c cs'. cs = c # cs' \<and> compute_change E FS fs cwd h = Some (Inr c)
        \<and> compute_all_changes E FS fs cwd hs = Some (Inr cs'))"
proof -
  obtain x where "compute_all_changes E FS fs cwd hs = Some x" by (metis compute_all_total option.exhaust)
  then show ?thesis by (cases x) (auto split: option.split sum.split)
qed

lemma compute_all_iff:
  "compute_all_changes E FS fs cwd hs = Some (Inr cs) \<longleftrightarrow>
     list_all2 (\<lambda>h c. compute_change E FS fs cwd h = Some (Inr c)) hs cs"
  by (induction hs arbitrary: cs)
    (auto simp: compute_all_Cons list_all2_Cons1 simp del: compute_all_changes.simps(2))

lemma compute_all_fails_iff:
  "compute_all_changes E FS fs cwd hs = Some x \<Longrightarrow>
     list_ex (\<lambda>h. \<exists>m. compute_change E FS fs cwd h = Some (Inl m)) hs \<longleftrightarrow> isl x"
proof (induction hs arbitrary: x)
  case (Cons h hs)
  obtain y where y: "compute_all_changes E FS fs cwd hs = Some y" by (metis compute_all_total option.exhaust)
  obtain z where z: "compute_change E FS fs cwd h = Some z" by (metis compute_change_total option.exhaust)
  show ?case
    using Cons.prems Cons.IH[OF y] y z by (cases z; cases y) auto
qed auto

lemma compute_change_path: "compute_change E FS fs cwd h = Some (Inr c) \<Longrightarrow> change_path c = fs_join E cwd (hunk_path h)"
  by (auto simp: compute_change_def Let_def split: hunk.splits sum.splits option.splits apply_error.splits)

subsection \<open>Carrying them out\<close>

lemma apply_change_result:
  "apply_change E mkdirs FS c fs = (fs', Inr (ns, r)) \<Longrightarrow> fr_path r = change_path c \<and> list_all2 written_as ns (change_writes c)"
  by (cases c) (auto simp: and_then_def ensure_parent_dirs_def written_def written_as_def
      split: option.splits prod.splits if_splits)

lemma apply_changes_result:
  "apply_changes E mkdirs FS cs fs = (fs', ns, Inr rs) \<Longrightarrow>
     map fr_path rs = map change_path cs \<and> list_all2 written_as ns (concat (map change_writes cs))"
proof (induction cs arbitrary: fs fs' ns rs)
  case (Cons c cs)
  from Cons.prems obtain fs1 ns1 r ns2 rs2 where
    c: "apply_change E mkdirs FS c fs = (fs1, Inr (ns1, r))" and
    cs: "apply_changes E mkdirs FS cs fs1 = (fs', ns2, Inr rs2)" and eq: "ns = ns1 @ ns2" "rs = r # rs2"
    by (auto split: prod.splits sum.splits simp: map_sum_def)
  from Cons.IH[OF cs] apply_change_result[OF c] show ?case
    by (simp add: eq list_all2_appendI)
qed simp

text \<open>The contract of a file system beside which parent directories are created.\<close>

locale patch_files = lawful_files FS file_of contents
  for FS :: "'s file_system" and file_of :: "str \<Rightarrow> 'k" and contents :: "'s \<Rightarrow> 'k \<Rightarrow> str option" +
  fixes mkdirs :: "'s mkdirs"
  assumes mkdirs_law: "mkdirs s p = (s', None) \<Longrightarrow> contents s' = contents s"
begin

lemma and_then_cases:
  "and_then x k = (fs', Inr y) \<longleftrightarrow> (\<exists>fs1. x = (fs1, None) \<and> k fs1 = (fs', Inr y))"
  by (auto simp: and_then_def split: prod.splits option.splits)

lemma stringly_iff: "stringly r = (s', None) \<longleftrightarrow> r = (s', None)"
  by (cases r) (auto simp: stringly_def)

lemma parent_dirs: "ensure_parent_dirs E mkdirs path fs = (fs', None) \<Longrightarrow> contents fs' = contents fs"
  using mkdirs_law by (auto simp: ensure_parent_dirs_def split: option.splits if_splits)

lemma apply_change_effect:
  "apply_change E mkdirs FS c fs = (fs', Inr r) \<Longrightarrow>
     contents fs' = after_writes (map (apfst file_of) (change_writes c)) (contents fs)"
  by (cases c) (auto simp: and_then_cases stringly_iff dest!: parent_dirs write_law delete_law)

lemma apply_changes_effect:
  "apply_changes E mkdirs FS cs fs = (fs', ns, Inr rs) \<Longrightarrow>
     contents fs' = after_writes (map (apfst file_of) (concat (map change_writes cs))) (contents fs)"
proof (induction cs arbitrary: fs fs' ns rs)
  case (Cons c cs)
  from Cons.prems obtain fs1 x ns2 rs2 where
    c: "apply_change E mkdirs FS c fs = (fs1, Inr x)" and cs: "apply_changes E mkdirs FS cs fs1 = (fs', ns2, Inr rs2)"
    by (auto split: prod.splits sum.splits simp: map_sum_def)
  from Cons.IH[OF cs] apply_change_effect[OF c] show ?case by (simp add: after_writes_append)
qed simp

lemma read_string: "read_file_as_string FS fs p = Inr t \<Longrightarrow> \<exists>c. contents fs (file_of p) = Some c \<and> t = utf8_lossy c"
  using read_law by (auto simp: read_file_as_string_def map_sum_def split: sum.splits)

lemma compute_change_writes:
  "compute_change E FS fs cwd h = Some (Inr c) \<Longrightarrow>
     change_writes c = hunk_writes E cwd (\<lambda>p. contents fs (file_of p)) h"
  by (auto simp: compute_change_def updated_def Let_def dest!: read_string
      split: hunk.splits sum.splits option.splits apply_error.splits)

lemma compute_all_writes:
  "compute_all_changes E FS fs cwd hs = Some (Inr cs) \<Longrightarrow>
     concat (map change_writes cs) = patch_writes E cwd (\<lambda>p. contents fs (file_of p)) hs"
  unfolding compute_all_iff patch_writes_def
  by (induction rule: list_all2_induct) (simp_all add: compute_change_writes)

end


text \<open>\<open>LocalFs\<close>, with directories created by the same operating system.\<close>

definition os_mkdirs :: "'s os \<Rightarrow> 's mkdirs" where
  "os_mkdirs OS s p = map_prod id (map_option io_message) (os_create_dir_all OS s p)"

lemma local_patch_files:
  assumes "os_contract E OS file_of contents"
  shows "patch_files (local_fs E OS is_retryable root) file_of contents (os_mkdirs OS)"
proof (intro patch_files.intro patch_files_axioms.intro local_fs_lawful[OF assms])
  show "contents s' = contents s" if "os_mkdirs OS s p = (s', None)" for s p s'
    using that os_contractD(5)[OF assms] by (cases "os_create_dir_all OS s p") (auto simp: os_mkdirs_def)
qed

interpretation mock: patch_files mock_fs path_components "\<lambda>fs. fs" "\<lambda>fs p. (fs, None)"
  by unfold_locales auto

interpretation workspace: patch_files workspace_fs path_components "\<lambda>fs. fs" "os_mkdirs (memory_os workspace_dirs)"
  unfolding workspace_fs_def
  by (rule local_patch_files, rule memory_os_contract) (simp add: example_externals_def)

subsection \<open>Properties\<close>

text \<open>C21: All or nothing before the first write: whatever the text, the tool does not panic, and it reports a
  parse error exactly for a text that does not parse, an empty patch exactly for one without hunks, and an
  application error exactly when some hunk cannot be computed from the files as they are; in these three
  cases no file has changed and no notification was sent. Only when every hunk could be computed are
  files written, and only then can the call end in a tool error.\<close>

theorem patch_failure_changes_nothing:
  "case apply_patch E mkdirs FS cwd patch fs of
     None \<Rightarrow> False
   | Some (fs', ns, r) \<Rightarrow>
       (case parse_patch patch of
          Inl e \<Rightarrow> fs' = fs \<and> ns = [] \<and> (\<exists>m. r = Inr (PatchParseError m))
        | Inr pp \<Rightarrow>
            if pp_hunks pp = [] then fs' = fs \<and> ns = [] \<and> (\<exists>m. r = Inr (EmptyPatch m))
            else if list_ex (\<lambda>h. \<exists>m. compute_change E FS fs cwd h = Some (Inl m)) (pp_hunks pp)
            then fs' = fs \<and> ns = [] \<and> (\<exists>m. r = Inr (ApplicationError m))
            else (\<exists>m. r = Inl m) \<or> (\<exists>rs s. r = Inr (PatchSuccess rs s)))"
proof (cases "parse_patch patch")
  case (Inr pp)
  obtain x where x: "compute_all_changes E FS fs cwd (pp_hunks pp) = Some x" by (metis compute_all_total option.exhaust)
  have "list_ex (\<lambda>h. \<exists>m. compute_change E FS fs cwd h = Some (Inl m)) (pp_hunks pp) \<longleftrightarrow> isl x"
    using x by (rule compute_all_fails_iff)
  with Inr x show ?thesis
    by (cases x) (auto simp: apply_patch_def map_sum_def split: prod.split sum.split)
qed (simp add: apply_patch_def)

text \<open>C20: A patch that succeeds has done the writes its hunks stand for, and no others. Each hunk is read against the
  files as they were before the patch: an added file gets the given text, a deleted one is removed, an updated one
  gets its text of before the patch with the chunks applied, and a moved one gets that at its destination and then
  has its source removed. On a file system that keeps its contract the files afterwards are those before with these
  writes carried out in the order of the hunks, so of two writes to one file the later one alone decides (a second
  update drops what a first one did, and a move onto itself leaves no file), and every other file is untouched. The
  notifications sent are these writes, and the report has one line for each hunk. The contract, under which several
  paths may denote one file, is kept by LocalFs on any operating system with the documented behaviour
  (\<open>local_patch_files\<close>) and by MockFs; a deletion through a symbolic link, which removes the link, is outside it.\<close>

theorem patch_success_effect:
  assumes "patch_files FS file_of contents mkdirs"
    and "apply_patch E mkdirs FS cwd patch fs = Some (fs', ns, Inr (PatchSuccess rs s))"
  shows "case parse_patch patch of
      Inl _ \<Rightarrow> False
    | Inr pp \<Rightarrow>
        let ws = patch_writes E cwd (\<lambda>p. contents fs (file_of p)) (pp_hunks pp)
        in contents fs' = after_writes (map (apfst file_of) ws) (contents fs)
           \<and> list_all2 written_as ns ws
           \<and> map fr_path rs = map (\<lambda>h. fs_join E cwd (hunk_path h)) (pp_hunks pp)"
proof -
  from assms(2) obtain pp cs where
    pp: "parse_patch patch = Inr pp" and cs: "compute_all_changes E FS fs cwd (pp_hunks pp) = Some (Inr cs)"
    and ap: "apply_changes E mkdirs FS cs fs = (fs', ns, Inr rs)"
    by (auto simp: apply_patch_def map_sum_def split: sum.splits option.splits if_splits prod.splits)
  have "map change_path cs = map (\<lambda>h. fs_join E cwd (hunk_path h)) (pp_hunks pp)"
    using cs unfolding compute_all_iff by (induction rule: list_all2_induct) (simp_all add: compute_change_path)
  with apply_changes_result[OF ap] patch_files.apply_changes_effect[OF assms(1) ap]
    patch_files.compute_all_writes[OF assms(1) cs] pp
  show ?thesis by simp
qed

text \<open>Two concrete runs, on the file system kept in memory.\<close>

definition swap_line :: "char \<Rightarrow> char \<Rightarrow> update_file_chunk" where
  "swap_line a b = \<lparr>change_context = None, old_lines = [[a]], new_lines = [[b]], is_end_of_file = False\<rparr>"

definition two_updates :: "hunk list" where
  "two_updates =
     [UpdateFile ''f'' None [swap_line CHR ''a'' CHR ''b''], UpdateFile ''f'' None [swap_line CHR ''x'' CHR ''y'']]"

definition one_update :: "hunk list" where
  "one_update = [UpdateFile ''f'' None [swap_line CHR ''a'' CHR ''b'']]"

definition self_move :: "hunk list" where
  "self_move = [UpdateFile ''f'' (Some ''f'') [swap_line CHR ''a'' CHR ''b'']]"

definition overwrite :: "hunk list" where
  "overwrite = [AddFile ''f'' (''b'' @ [newline])]"

definition two_lines :: str where
  "two_lines = ''a'' @ [newline] @ ''x'' @ [newline]"

lemma single_line_ok: "c \<in> set ''abxyf'' \<Longrightarrow> line_ok [c] \<and> path_ok [c]"
  by (auto simp: line_ok_def path_ok_def trim_end_id_iff ws_seqs_def ends_with_def)

lemma example_hunks_writable: "list_all writable two_updates" "list_all writable self_move"
  "list_all writable overwrite" "list_all writable one_update"
  by (simp_all add: one_update_def two_updates_def self_move_def overwrite_def swap_line_def chunk_ok_def single_line_ok line_ok_def
      ends_with_def)

lemma lines_utf8: "utf8_lossy two_lines = two_lines"
  by (rule utf8_lossy_id) (simp add: two_lines_def is_utf8_def byte_in_def)

lemma swap_first: "derive_new_contents two_lines p [swap_line CHR ''a'' CHR ''b''] =
    Some (Inr (''b'' @ [newline] @ ''x'' @ [newline]))"
  by (simp add: two_lines_def swap_line_def derive_new_contents_def file_lines_def drop_blank_end_def ends_blank_def
      compute_replacements_def after_context_def locate_chunk_def seek_sequence_def seek_pass_def passes_def
      matches_at_def upt_rec apply_one_def remove_at_def insert_at_def)

lemma swap_second: "derive_new_contents two_lines p [swap_line CHR ''x'' CHR ''y''] =
    Some (Inr (''a'' @ [newline] @ ''y'' @ [newline]))"
  by (simp add: two_lines_def swap_line_def derive_new_contents_def file_lines_def drop_blank_end_def ends_blank_def
      compute_replacements_def after_context_def locate_chunk_def seek_sequence_def seek_pass_def passes_def
      matches_at_def upt_rec apply_one_def remove_at_def insert_at_def)

text \<open>Three ways in which a patch that is reported as applied loses text. Every hunk is computed from the file as
  it was before the patch, so of two updates of one file the second undoes the first; a move is a write
  to the destination followed by a deletion of the source, so a file moved onto itself is deleted; and a
  file added over an existing one is announced as new, without the former text a rewind would need.\<close>

theorem successful_patch_loses_edits:
  "(\<exists>ns rs s. apply_patch E (\<lambda>fs p. (fs, None)) mock_fs cwd (print_patch two_updates) [path_components (fs_join E cwd ''f'') \<mapsto> two_lines]
      = Some ([path_components (fs_join E cwd ''f'') \<mapsto> ''a'' @ [newline] @ ''y'' @ [newline]], ns, Inr (PatchSuccess rs s)))
   \<and> (\<exists>ns rs s. apply_patch E (\<lambda>fs p. (fs, None)) mock_fs cwd (print_patch self_move) [path_components (fs_join E cwd ''f'') \<mapsto> two_lines]
      = Some (Map.empty, ns, Inr (PatchSuccess rs s)))
   \<and> (\<exists>rs s. apply_patch E (\<lambda>fs p. (fs, None)) mock_fs cwd (print_patch overwrite) [path_components (fs_join E cwd ''f'') \<mapsto> two_lines]
      = Some ([path_components (fs_join E cwd ''f'') \<mapsto> ''b'' @ [newline]],
          [written (fs_join E cwd ''f'') (''b'' @ [newline]) None True], Inr (PatchSuccess rs s)))"
  by (simp add: example_hunks_writable[THEN parse_printed] apply_patch_def)
    (simp add: two_updates_def self_move_def overwrite_def compute_change_def mock_fs_def swap_first swap_second
      lines_utf8 read_file_as_string_def stringly_def       Let_def and_then_def ensure_parent_dirs_def split: option.split)

definition workspace_files :: mock_files where
  "workspace_files = [[''/'', ''w'', ''f''] \<mapsto> two_lines, [''/'', ''w'', ''g''] \<mapsto> ''g'']"

text \<open>An ordinary update of one of two files, through \<open>LocalFs\<close>.\<close>

theorem patch_success_effect_witness:
  "\<exists>fs' ns rs s. apply_patch (example_externals (\<lambda>_. None)) (os_mkdirs (memory_os workspace_dirs)) workspace_fs ''/w''
        (print_patch one_update) workspace_files = Some (fs', ns, Inr (PatchSuccess rs s))
    \<and> fs' = workspace_files([''/'', ''w'', ''f''] \<mapsto> ''b'' @ [newline] @ ''x'' @ [newline])
    \<and> map fr_path rs = [''/w/f'']"
proof -
  let ?E = "example_externals (\<lambda>_. None)"
  have parsed: "parse_patch (print_patch one_update) = Inr \<lparr>pp_hunks = one_update, pp_patch = print_patch one_update\<rparr>"
    by (rule parse_printed[OF example_hunks_writable(4)])
  obtain fs' ns rs s where r: "apply_patch ?E (os_mkdirs (memory_os workspace_dirs)) workspace_fs ''/w''
      (print_patch one_update) workspace_files = Some (fs', ns, Inr (PatchSuccess rs s))"
    using parsed
    by (simp add: apply_patch_def one_update_def compute_change_def swap_first example_externals_def lines_utf8
        read_file_as_string_def stringly_def Let_def and_then_def workspace_fs_def local_fs_def validate_path_def
        canonical_path_def canonical_root_def memory_os_def workspace_dirs_def workspace_files_def
        path_starts_with_def path_components_def write_with_retries.simps[of _ _ WRITE_RETRY_DELAYS])
  have "patch_writes ?E ''/w'' (\<lambda>p. workspace_files (path_components p)) one_update
      = [(''/w/f'', Some (''b'' @ [newline] @ ''x'' @ [newline]))]"
    by (simp add: patch_writes_def one_update_def updated_def workspace_files_def swap_first lines_utf8
        example_externals_def path_components_def)
  with patch_success_effect[OF workspace.patch_files_axioms r] parsed
  have "fs' = workspace_files([''/'', ''w'', ''f''] \<mapsto> ''b'' @ [newline] @ ''x'' @ [newline])"
    "map fr_path rs = [''/w/f'']"
    by (simp_all add: Let_def path_components_def) (simp add: one_update_def example_externals_def)
  with r show ?thesis by (intro exI conjI)
qed

end
