(* ===== verification/Confusables.thy ===== *)
theory Confusables
  imports File_System
begin

section \<open>Confusable characters (\<open>unicode_confusables.rs\<close>, \<open>search_replace/helpers.rs\<close>)\<close>

text \<open>
  The typographic characters that read like ASCII, the normalisation of a text with the map from its byte
  offsets back to the original ones, and the search for a pattern up to this normalisation. A character of
  a text is the byte sequence of its UTF-8 encoding.
\<close>

definition utf8_chars :: "str \<Rightarrow> str list" where
  "utf8_chars s = map snd (utf8_units s)"

definition CONFUSABLE_MAP :: "(str \<times> str) list" where
  "CONFUSABLE_MAP =
     [([CHR 0xE2, CHR 0x80, CHR 0x9C], [dquote]),
      ([CHR 0xE2, CHR 0x80, CHR 0x9D], [dquote]),
      ([CHR 0xE2, CHR 0x80, CHR 0x98], [squote]),
      ([CHR 0xE2, CHR 0x80, CHR 0x99], [squote]),
      ([CHR 0xE2, CHR 0x80, CHR 0x94], ''--''),
      ([CHR 0xE2, CHR 0x80, CHR 0x93], ''-''),
      ([CHR 0xE2, CHR 0x80, CHR 0xA6], ''...''),
      ([CHR 0xC2, CHR 0xA0], '' '')]"

definition lookup :: "str \<Rightarrow> str option" where
  "lookup c = map_of CONFUSABLE_MAP c"

definition has_confusables :: "str \<Rightarrow> bool" where
  "has_confusables s = list_ex (\<lambda>c. lookup c \<noteq> None) (utf8_chars s)"

definition normalize_char :: "str \<Rightarrow> str" where
  "normalize_char c = (case lookup c of Some replacement \<Rightarrow> replacement | None \<Rightarrow> c)"

definition normalize_confusables :: "str \<Rightarrow> str" where
  "normalize_confusables s = concat (map normalize_char (utf8_chars s))"

record confusable_hit =
  ch_byte_offset :: nat
  ch_char :: str
  ch_ascii_replacement :: str
  ch_line_number :: nat

fun hits_from :: "nat \<Rightarrow> nat \<Rightarrow> str list \<Rightarrow> confusable_hit list" where
  "hits_from byte_offset line [] = []"
| "hits_from byte_offset line (c # cs) =
     (case lookup c of
        Some r \<Rightarrow> [\<lparr>ch_byte_offset = byte_offset, ch_char = c, ch_ascii_replacement = r, ch_line_number = line\<rparr>]
      | None \<Rightarrow> [])
     @ hits_from (byte_offset + length c) (if c = [newline] then line + 1 else line) cs"

definition detect_confusables :: "str \<Rightarrow> confusable_hit list" where
  "detect_confusables s = hits_from 0 1 (utf8_chars s)"

fun offset_map_from :: "nat \<Rightarrow> str list \<Rightarrow> str \<times> nat list" where
  "offset_map_from off [] = ([], [off])"
| "offset_map_from off (c # cs) =
     (let (normalized, offset_map) = offset_map_from (off + length c) cs in
      case lookup c of
        Some replacement \<Rightarrow> (replacement @ normalized, replicate (length replacement) off @ offset_map)
      | None \<Rightarrow> (c @ normalized, [off..<off + length c] @ offset_map))"

definition build_offset_map :: "str \<Rightarrow> str \<times> nat list" where
  "build_offset_map s = offset_map_from 0 (utf8_chars s)"

text \<open>\<open>s.match_indices(pattern)\<close> for a pattern that is not empty: from the left, not overlapping.\<close>

function match_from :: "nat \<Rightarrow> str \<Rightarrow> str \<Rightarrow> nat list" where
  "match_from off pattern s =
     (if pattern = [] \<or> s = [] then []
      else if starts_with s pattern
      then off # match_from (off + length pattern) pattern (drop (length pattern) s)
      else match_from (off + 1) pattern (tl s))"
  by pat_completeness auto
termination
  by (relation "measure (\<lambda>(off, p, s). length s)") auto

declare match_from.simps [simp del]

definition match_indices :: "str \<Rightarrow> str \<Rightarrow> nat list" where
  "match_indices s pattern = match_from 0 pattern s"

record normalized_match =
  original_start :: nat
  original_len :: nat

datatype normalized_match_result = NoMatch | Matches "normalized_match list" | Ambiguous

definition original_end :: "normalized_match \<Rightarrow> nat" where
  "original_end m = original_start m + original_len m"

text \<open>The candidate at a position of the normalised text, if it is the pattern again when normalised.\<close>

definition validate_candidate :: "str \<Rightarrow> nat list \<Rightarrow> str \<Rightarrow> nat \<Rightarrow> normalized_match option" where
  "validate_candidate text offset_map norm_pattern norm_start =
     (let orig_start = offset_map ! norm_start;
          orig_end = offset_map ! (norm_start + length norm_pattern)
      in if orig_end \<le> orig_start then None
         else if normalize_confusables (slice text orig_start orig_end) \<noteq> norm_pattern then None
         else Some \<lparr>original_start = orig_start, original_len = orig_end - orig_start\<rparr>)"

definition spans_overlap :: "normalized_match list \<Rightarrow> bool" where
  "spans_overlap ms = list_ex (\<lambda>(m, m'). original_start m' < original_end m) (zip ms (tl ms))"

definition find_normalized_match_positions :: "str \<Rightarrow> str \<Rightarrow> normalized_match_result" where
  "find_normalized_match_positions text pattern =
     (let (norm_text, offset_map) = build_offset_map text;
          norm_pattern = normalize_confusables pattern
      in if norm_pattern = [] then NoMatch
         else (let candidates = map (validate_candidate text offset_map norm_pattern)
                                  (match_indices norm_text norm_pattern);
                   validated = List.map_filter id candidates
               in if validated = [] then (if None \<in> set candidates then Ambiguous else NoMatch)
                  else if spans_overlap validated then Ambiguous
                  else Matches validated))"

subsection \<open>Lemmas: the search for a substring\<close>

lemma match_from_iff:
  "pattern \<noteq> [] \<Longrightarrow> match_from off pattern s = [] \<longleftrightarrow> \<not> contains s pattern"
proof (induction off pattern s rule: match_from.induct)
  case (1 off pattern s)
  then show ?case
    by (subst match_from.simps) (cases s; auto)
qed

lemma match_from_occurs:
  assumes "i \<in> set (match_from off pattern s)"
  shows "off \<le> i \<and> i + length pattern \<le> off + length s \<and> starts_with (drop (i - off) s) pattern"
  using assms
proof (induction off pattern s rule: match_from.induct)
  case (1 off pattern s)
  have ne: "pattern \<noteq> []" "s \<noteq> []" using "1.prems" by (subst (asm) match_from.simps, simp split: if_splits)+
  show ?case
  proof (cases "starts_with s pattern")
    case True
    then have len: "length pattern \<le> length s" by (auto simp: starts_with_iff_prefix prefix_length_le)
    have "i = off \<or> i \<in> set (match_from (off + length pattern) pattern (drop (length pattern) s))"
      using "1.prems" ne True by (subst (asm) match_from.simps) simp
    then show ?thesis
      using "1.IH"(1) ne True len by (auto simp: add.commute add.left_commute)
  next
    case False
    have "i \<in> set (match_from (off + 1) pattern (tl s))"
      using "1.prems" ne False by (subst (asm) match_from.simps) simp
    with "1.IH"(2) ne False have "off + 1 \<le> i" "i + length pattern \<le> off + 1 + length (tl s)"
        "starts_with (drop (i - (off + 1)) (tl s)) pattern" by auto
    then show ?thesis
      using ne(2) by (cases s) (auto simp: drop_Cons')
  qed
qed

text \<open>The matches of a pattern are in order and do not overlap.\<close>

fun apart :: "nat \<Rightarrow> nat \<Rightarrow> nat list \<Rightarrow> bool" where
  "apart len from [] \<longleftrightarrow> True"
| "apart len from (i # is) \<longleftrightarrow> from \<le> i \<and> apart len (i + len) is"

lemma apart_mono: "apart len from is \<Longrightarrow> from' \<le> from \<Longrightarrow> apart len from' is"
  by (cases "is") auto

lemma match_from_apart: "apart (length pattern) off (match_from off pattern s)"
proof (induction off pattern s rule: match_from.induct)
  case (1 off pattern s)
  then show ?case
    by (subst match_from.simps) (auto intro: apart_mono)
qed

subsection \<open>Lemmas: the offset map\<close>

lemma utf8_units_nonempty: "[] \<notin> snd ` set (utf8_units s)"
proof (induction s rule: utf8_units.induct)
  case (1 s)
  then show ?case by (subst utf8_units.simps) (auto dest: utf8_step_pos)
qed

lemma utf8_chars_simps [simp]: "utf8_chars [] = []" "concat (utf8_chars s) = s"
  by (simp_all add: utf8_chars_def)

lemma lookup_nonempty: "lookup c = Some r \<Longrightarrow> r \<noteq> []"
  by (auto simp: lookup_def CONFUSABLE_MAP_def split: if_splits)

lemma offset_map_text: "fst (offset_map_from off cs) = concat (map normalize_char cs)"
  by (induction off cs rule: offset_map_from.induct) (auto simp: normalize_char_def split: prod.split option.split)

lemma offset_map_length:
  "length (snd (offset_map_from off cs)) = Suc (length (concat (map normalize_char cs)))"
  by (induction off cs rule: offset_map_from.induct) (auto simp: normalize_char_def split: prod.splits option.split)

lemma offset_map_bounds: "k \<in> set (snd (offset_map_from off cs)) \<Longrightarrow> off \<le> k \<and> k \<le> off + length (concat cs)"
  by (induction off cs rule: offset_map_from.induct) (fastforce split: prod.splits option.splits)+

lemma offset_map_sorted: "sorted (snd (offset_map_from off cs))"
proof (induction off cs rule: offset_map_from.induct)
  case (2 off c cs)
  have "sorted (snd (offset_map_from (off + length c) cs))" using 2 by (cases "offset_map_from (off + length c) cs") auto
  moreover have "\<forall>k \<in> set (snd (offset_map_from (off + length c) cs)). off + length c \<le> k"
    using offset_map_bounds by blast
  ultimately show ?case
    by (cases "offset_map_from (off + length c) cs") (fastforce simp: sorted_append split: option.split)
qed simp

lemma offset_map_split:
  "snd (offset_map_from off (cs @ ds)) =
     butlast (snd (offset_map_from off cs)) @ snd (offset_map_from (off + length (concat cs)) ds)"
proof (induction off cs rule: offset_map_from.induct)
  case (2 off c cs)
  have "snd (offset_map_from (off + length c) cs) \<noteq> []" using offset_map_length[of "off + length c" cs] by auto
  with 2 show ?case
    by (auto simp: butlast_append add.assoc split: prod.splits option.split)
qed simp

lemma offset_map_hd: "snd (offset_map_from off cs) ! 0 = off"
  if "[] \<notin> set cs"
proof (cases cs)
  case (Cons c cs')
  then show ?thesis
    using that lookup_nonempty[of c]
    by (cases c) (auto simp: nth_append upt_conv_Cons split: prod.split option.split)
qed simp

lemma offset_map_at:
  assumes "[] \<notin> set ds"
  shows "snd (offset_map_from 0 (cs @ ds)) ! length (concat (map normalize_char cs)) = length (concat cs)"
proof -
  have "length (butlast (snd (offset_map_from 0 cs))) = length (concat (map normalize_char cs))"
    by (simp add: offset_map_length)
  then have "snd (offset_map_from 0 (cs @ ds)) ! length (concat (map normalize_char cs))
      = snd (offset_map_from (length (concat cs)) ds) ! 0"
    by (simp add: offset_map_split nth_append)
  with offset_map_hd[OF assms] show ?thesis by simp
qed

subsection \<open>Lemmas: characters\<close>

lemma utf8_step_append:
  "utf8_step u = (True, length u) \<Longrightarrow> u \<noteq> [] \<Longrightarrow> utf8_step (u @ rest) = (True, length u)"
proof (cases u)
  case (Cons c v)
  then show "utf8_step u = (True, length u) \<Longrightarrow> ?thesis"
    by (cases v) (auto simp: Let_def split: if_splits option.splits)
qed simp

lemma utf8_step_le: "snd (utf8_step s) \<le> length s"
proof -
  have "length (takeWhile continues (take k v)) \<le> length v" for k v
    by (rule order_trans[OF length_takeWhile_le]) simp
  then show ?thesis by (cases s) (auto simp: Let_def split: option.split list.split)
qed

lemma utf8_step_take:
  assumes "utf8_step s = (True, n)" "s \<noteq> []"
  shows "utf8_step (take n s) = (True, n)"
proof (cases s)
  case (Cons c r)
  show ?thesis
  proof (cases "byte_in c 0 0x7F")
    case True
    then show ?thesis using assms Cons by auto
  next
    case False
    then obtain k lo hi d v where k: "second_byte c = Some (k, lo, hi)" "r = d # v" "byte_in d lo hi"
        "length (takeWhile continues (take (k - 2) v)) = k - 2" "n = Suc (Suc (k - 2))"
      using assms Cons by (auto simp: Let_def split: option.splits list.splits if_splits)
    have "2 \<le> k" using k(1) by (auto simp: second_byte_def split: if_splits)
    with k False Cons show ?thesis
      by (cases k; cases "k - 1") (auto simp: Let_def)
  qed
qed (use assms in simp)

lemma utf8_units_ok: "(True, u) \<in> set (utf8_units s) \<Longrightarrow> utf8_step u = (True, length u) \<and> u \<noteq> []"
proof (induction s rule: utf8_units.induct)
  case (1 s)
  have ne: "s \<noteq> []" using "1.prems" by (cases s) auto
  have in_: "(True, u) = (fst (utf8_step s), take (snd (utf8_step s)) s)
      \<or> (True, u) \<in> set (utf8_units (drop (snd (utf8_step s)) s))"
    using "1.prems" ne by (subst (asm) utf8_units.simps) simp
  then show ?case
  proof
    assume u: "(True, u) = (fst (utf8_step s), take (snd (utf8_step s)) s)"
    then have st: "utf8_step s = (True, snd (utf8_step s))" by (metis prod.collapse fst_conv)
    have "snd (utf8_step s) \<le> length s" by (rule utf8_step_le)
    then show ?thesis using u utf8_step_take[OF st ne] utf8_step_pos[OF ne] ne by auto
  qed (use "1.IH"[OF ne] in blast)
qed

lemma utf8_units_concat:
  "list_all (\<lambda>u. utf8_step u = (True, length u) \<and> u \<noteq> []) us \<Longrightarrow> utf8_units (concat us) = map (\<lambda>u. (True, u)) us"
proof (induction us)
  case (Cons u us)
  then have "utf8_step (u @ concat us) = (True, length u)" by (intro utf8_step_append) auto
  with Cons show ?case by (subst utf8_units.simps) simp
qed simp

lemma utf8_chars_part:
  assumes "is_utf8 s" "utf8_chars s = xs @ ys @ zs"
  shows "utf8_chars (concat ys) = ys"
proof -
  have "utf8_step u = (True, length u) \<and> u \<noteq> []" if u: "u \<in> set ys" for u
  proof -
    have "u \<in> snd ` set (utf8_units s)" using assms(2) u by (auto simp: utf8_chars_def dest: arg_cong[where f = set])
    then obtain ok where "(ok, u) \<in> set (utf8_units s)" by auto
    with assms(1) have "(True, u) \<in> set (utf8_units s)" by (auto simp: is_utf8_def list_all_iff)
    then show ?thesis by (rule utf8_units_ok)
  qed
  then have "utf8_units (concat ys) = map (\<lambda>u. (True, u)) ys" by (intro utf8_units_concat) (simp add: list_all_iff)
  then show ?thesis by (simp add: utf8_chars_def comp_def)
qed

lemma map_filter_id_Nil: "List.map_filter id xs = [] \<longleftrightarrow> (\<forall>x \<in> set xs. x = None)"
  by (induction xs) (auto simp: List.map_filter_simps split: option.split)

lemma build_offset_map_simps:
  "fst (build_offset_map s) = normalize_confusables s"
  "length (snd (build_offset_map s)) = Suc (length (normalize_confusables s))"
  "k \<in> set (snd (build_offset_map s)) \<Longrightarrow> k \<le> length s"
  "sorted (snd (build_offset_map s))"
  using offset_map_bounds[of k 0 "utf8_chars s"]
  by (auto simp: build_offset_map_def offset_map_text offset_map_length offset_map_sorted normalize_confusables_def)

definition span_ok :: "str \<Rightarrow> str \<Rightarrow> normalized_match \<Rightarrow> bool" where
  "span_ok text pattern m \<longleftrightarrow>
     0 < original_len m \<and> original_end m \<le> length text
     \<and> normalize_confusables (slice text (original_start m) (original_end m)) = normalize_confusables pattern"

lemma candidate_ok:
  assumes "validate_candidate text (snd (build_offset_map text)) (normalize_confusables pattern) i = Some m"
    and "i \<in> set (match_indices (normalize_confusables text) (normalize_confusables pattern))"
  shows "span_ok text pattern m"
proof -
  let ?m = "snd (build_offset_map text)" and ?j = "i + length (normalize_confusables pattern)"
  have "?j \<le> length (normalize_confusables text)"
    using match_from_occurs[OF assms(2)[unfolded match_indices_def]] by simp
  then have "?m ! ?j \<in> set ?m" by (simp add: build_offset_map_simps(2))
  then have "?m ! ?j \<le> length text" by (rule build_offset_map_simps(3))
  then show ?thesis
    using assms(1) by (auto simp: validate_candidate_def span_ok_def original_end_def Let_def split: if_splits)
qed

text \<open>A match up to confusables is safe to replace: every span reported lies in the text, is not empty and
  normalises to the normalised pattern, and the spans are in order and do not overlap. Nothing is found
  only when the normalised pattern is empty or does not occur in the normalised text at all; where it
  occurs but no span normalises to it, the answer is that the match is ambiguous.\<close>

lemma normalized_matches_found:
  "case find_normalized_match_positions text pattern of
     Matches ms \<Rightarrow> ms \<noteq> [] \<and> list_all (span_ok text pattern) ms \<and> \<not> spans_overlap ms
   | NoMatch \<Rightarrow> normalize_confusables pattern = []
        \<or> contains (normalize_confusables text) (normalize_confusables pattern) = False
   | Ambiguous \<Rightarrow> normalize_confusables pattern \<noteq> []
        \<and> contains (normalize_confusables text) (normalize_confusables pattern)"
proof (cases "normalize_confusables pattern = []")
  case True
  then show ?thesis by (simp add: find_normalized_match_positions_def split: prod.split)
next
  case False
  define js where "js = match_indices (normalize_confusables text) (normalize_confusables pattern)"
  define cands where "cands = map (validate_candidate text (snd (build_offset_map text)) (normalize_confusables pattern)) js"
  have eq: "find_normalized_match_positions text pattern =
      (if List.map_filter id cands = [] then (if None \<in> set cands then Ambiguous else NoMatch)
       else if spans_overlap (List.map_filter id cands) then Ambiguous
       else Matches (List.map_filter id cands))"
    using False build_offset_map_simps(1)[of "text"]
    by (auto simp: find_normalized_match_positions_def cands_def js_def Let_def split: prod.split)
  have occurs: "js = [] \<longleftrightarrow> \<not> contains (normalize_confusables text) (normalize_confusables pattern)"
    unfolding js_def match_indices_def by (rule match_from_iff[OF False])
  have "span_ok text pattern m" if "m \<in> set (List.map_filter id cands)" for m
    using that candidate_ok[of "text" pattern _ m] by (auto simp: in_set_map_filter cands_def js_def)
  moreover have "cands = [] \<longleftrightarrow> js = []" by (simp add: cands_def)
  moreover have "cands = []" if "List.map_filter id cands = []" "None \<notin> set cands"
    using that map_filter_id_Nil[of cands] by (metis list.set_intros(1) neq_Nil_conv)
  ultimately show ?thesis
    using occurs False unfolding eq by (auto simp: list_all_iff)
qed

subsection \<open>Properties\<close>

text \<open>The map of byte offsets does what its documentation says where it can: it has one entry for each byte of
  the normalised text and one for its end, ascends from 0 to the length of the original, and the span of
  the original that belongs to a whole sequence of characters is that sequence, whose normal form is the
  corresponding span of the normalised text.\<close>

theorem offset_map_roundtrip:
  assumes "is_utf8 s" "utf8_chars s = xs @ ys @ zs"
  shows "let (text, offset_map) = build_offset_map s;
             a = length (normalize_confusables (concat xs)); b = a + length (normalize_confusables (concat ys));
             span = slice s (offset_map ! a) (offset_map ! b)
         in text = normalize_confusables s \<and> length offset_map = length text + 1 \<and> sorted offset_map
            \<and> offset_map ! 0 = 0 \<and> offset_map ! length text = length s
            \<and> span = concat ys \<and> normalize_confusables span = slice text a b"
proof -
  let ?t = "fst (build_offset_map s)" and ?m = "snd (build_offset_map s)"
  let ?n = "\<lambda>cs. concat (map normalize_char cs)"
  have parts: "utf8_chars (concat xs) = xs" "utf8_chars (concat ys) = ys"
    using utf8_chars_part[OF assms(1), of "[]" xs "ys @ zs"] utf8_chars_part[OF assms] assms(2) by simp_all
  have ne: "[] \<notin> set (utf8_chars s)" using utf8_units_nonempty[of s] by (force simp: utf8_chars_def)
  have s: "s = concat xs @ concat ys @ concat zs"
    using assms(2) by (metis utf8_chars_simps(2) concat_append)
  have at: "?m ! length (?n cs) = length (concat cs)" if "utf8_chars s = cs @ ds" for cs ds
    using offset_map_at[of ds cs] ne that by (simp add: build_offset_map_def)
  have a: "?m ! length (?n xs) = length (concat xs)" using at[of xs "ys @ zs"] assms(2) by simp
  have b: "?m ! (length (?n xs) + length (?n ys)) = length (concat xs) + length (concat ys)"
    using at[of "xs @ ys" zs] assms(2) by simp
  have e: "?m ! length (?n (utf8_chars s)) = length s" using at[of "utf8_chars s" "[]"] by simp
  have z: "?m ! 0 = 0" using at[of "[]" "utf8_chars s"] by simp
  have t: "?t = ?n xs @ ?n ys @ ?n zs"
    using build_offset_map_simps(1)[of s] assms(2) by (simp add: normalize_confusables_def)
  have span: "slice s (length (concat xs)) (length (concat xs) + length (concat ys)) = concat ys"
    by (simp add: slice_def s)
  have "slice ?t (length (?n xs)) (length (?n xs) + length (?n ys)) = ?n ys" by (simp add: slice_def t)
  then show ?thesis
    using a b e z span build_offset_map_simps(1,2,4)[of s]
    by (simp add: split_beta Let_def normalize_confusables_def parts)
qed

definition em_dash :: str where
  "em_dash = [CHR 0xE2, CHR 0x80, CHR 0x94]"

lemma em_dash_alone: "utf8_units em_dash = [(True, em_dash)]"
  by (simp add: em_dash_def, subst utf8_units.simps)
    (simp add: byte_in_def second_byte_def continues_def numeral_eq_Suc Let_def)

lemma em_dash_units: "utf8_units (''a'' @ em_dash) = [(True, ''a''), (True, em_dash)]"
  by (simp add: byte_in_def em_dash_alone)

theorem offset_map_roundtrip_witness:
  "snd (build_offset_map (''a'' @ em_dash)) ! 0 = 0 \<and> sorted (snd (build_offset_map (''a'' @ em_dash)))
   \<and> normalize_confusables em_dash = slice (normalize_confusables (''a'' @ em_dash)) 1 3"
proof -
  have u: "is_utf8 (''a'' @ em_dash)" "utf8_chars (''a'' @ em_dash) = [''a''] @ [em_dash] @ []"
    by (simp_all only: is_utf8_def utf8_chars_def em_dash_units) simp_all
  have n: "normalize_confusables ''a'' = ''a''" "normalize_confusables em_dash = ''--''"
    by (simp_all add: normalize_confusables_def utf8_chars_def em_dash_alone normalize_char_def lookup_def
        CONFUSABLE_MAP_def byte_in_def)
      (simp add: em_dash_def)
  show ?thesis
    using offset_map_roundtrip[OF u] by (auto simp: Let_def n numeral_3_eq_3 split: prod.splits)
qed

text \<open>Half of an em dash: the documented contract does not hold for a range that splits a replacement.\<close>

lemma split_replacement:
  "let (text, offset_map) = build_offset_map em_dash
   in normalize_confusables (slice em_dash (offset_map ! 0) (offset_map ! 1)) \<noteq> slice text 0 1"
proof -
  have "utf8_chars em_dash = [em_dash]"
    by (simp add: utf8_chars_def em_dash_alone)
  then show ?thesis
    by (simp add: build_offset_map_def lookup_def CONFUSABLE_MAP_def em_dash_def slice_def normalize_confusables_def)
qed

end
