(* ===== verification/Edit_Hints.thy ===== *)
theory Edit_Hints
  imports Confusables
begin

section \<open>Hints after a failed match (\<open>search_replace/mod.rs\<close>, \<open>util/query_tools.rs\<close>, \<open>util/truncate.rs\<close>)\<close>

text \<open>
  What the search-replace tool appends to the message that a string was not found: the first line that
  holds the longest word of its first line, and, where the string does occur up to confusables, the lines on
  which such characters stand.
\<close>

definition count_newlines :: "str \<Rightarrow> nat" where
  "count_newlines s = length (filter (\<lambda>c. c = newline) s)"

text \<open>\<open>split_whitespace\<close>; the second argument is the word read so far.\<close>

function words_from :: "str \<Rightarrow> str \<Rightarrow> str list" where
  "words_from s word =
     (let finished = (if word = [] then [] else [word]) in
      case s of
        [] \<Rightarrow> finished
      | c # rest \<Rightarrow>
          (case ws_prefix s of
             Some w \<Rightarrow> finished @ words_from (drop (length w) s) []
           | None \<Rightarrow> words_from rest (word @ [c])))"
  by pat_completeness auto
termination
  by (relation "measure (\<lambda>(s, w). length s)") (auto dest!: ws_prefix_SomeD simp: diff_less)

declare words_from.simps [simp del]

definition split_whitespace :: "str \<Rightarrow> str list" where
  "split_whitespace s = words_from s []"

text \<open>\<open>max_by_key(|w| w.len())\<close> is the last of the longest.\<close>

definition longest_word :: "str list \<Rightarrow> str" where
  "longest_word ws = foldl (\<lambda>best w. if length best \<le> length w then w else best) [] ws"

definition TRUNCATION_MARKER :: str where
  "TRUNCATION_MARKER = [CHR 0xE2, CHR 0x80, CHR 0xA6]"

fun floor_boundary :: "str \<Rightarrow> nat \<Rightarrow> nat" where
  "floor_boundary s 0 = 0"
| "floor_boundary s (Suc n) = (if is_char_boundary s (Suc n) then Suc n else floor_boundary s n)"

definition truncate_str_with_marker :: "str \<Rightarrow> nat \<Rightarrow> str" where
  "truncate_str_with_marker s max_bytes =
     (if length s \<le> max_bytes then s
      else if max_bytes < length TRUNCATION_MARKER then take (floor_boundary s max_bytes) s
      else take (floor_boundary s (max_bytes - length TRUNCATION_MARKER)) s @ TRUNCATION_MARKER)"

definition build_nearest_match_hint :: "str \<Rightarrow> str \<Rightarrow> str" where
  "build_nearest_match_hint file old_string =
     (let keyword = (case str_lines old_string of [] \<Rightarrow> [] | l # _ \<Rightarrow> longest_word (split_whitespace l)) in
      if keyword = [] then []
      else (case find (\<lambda>(i, l). contains l keyword) (enumerate 0 (str_lines file)) of
              None \<Rightarrow> []
            | Some (i, l) \<Rightarrow>
                truncate_str_with_marker
                  ([newline, newline] @ ''Nearest match: line '' @ show_nat (i + 1) @ '': '' @ trim_end l) 200))"

definition backtick :: char where
  "backtick = CHR 0x60"

definition edit_tools :: "str option \<Rightarrow> str option \<Rightarrow> str list" where
  "edit_tools python sed = map (\<lambda>t. [backtick] @ t @ [backtick]) (List.map_filter id [python, sed])"

definition examples_clause :: "str list \<Rightarrow> str" where
  "examples_clause tools =
     (case tools of
        [] \<Rightarrow> []
      | [a] \<Rightarrow> '' (e.g. '' @ a @ '')''
      | [a, b] \<Rightarrow> '' (e.g. '' @ a @ '' or '' @ b @ '')''
      | _ \<Rightarrow> '' (e.g. '' @ join '', '' (butlast tools) @ '', or '' @ last tools @ '')'')"

text \<open>The lines with confusables in the region that the normalised string covers.\<close>

definition affected_lines :: "str \<Rightarrow> str \<Rightarrow> nat list" where
  "affected_lines file old_string =
     (let (norm_file, offset_map) = build_offset_map file; norm_old = normalize_confusables old_string in
      case match_indices norm_file norm_old of
        [] \<Rightarrow> []
      | norm_start # _ \<Rightarrow>
          (let orig_start = offset_map ! norm_start;
               orig_end = offset_map ! (norm_start + length norm_old);
               match_start_line = count_newlines (take orig_start file) + 1;
               match_end_line = count_newlines (take orig_end file) + 1
           in remdups_adj (map ch_line_number
                (filter (\<lambda>h. match_start_line \<le> ch_line_number h \<and> ch_line_number h \<le> match_end_line)
                  (detect_confusables file)))))"

definition MAX_LISTED_LINES :: nat where
  "MAX_LISTED_LINES = 8"

definition build_confusable_hint :: "str \<Rightarrow> str \<Rightarrow> str list \<Rightarrow> str \<Rightarrow> str \<Rightarrow> str \<Rightarrow> str" where
  "build_confusable_hint file old_string tools read_tool_name old_string_param execute_tool_name =
     (let affected = affected_lines file old_string in
      if \<not> has_confusables file \<or> affected = [] then []
      else (let line_summary =
                  (if length affected \<le> MAX_LISTED_LINES then join '', '' (map show_nat affected)
                   else join '', '' (map show_nat (take MAX_LISTED_LINES affected)) @ '' (and ''
                     @ show_nat (length affected - MAX_LISTED_LINES) @ '' more)'');
                read_qualifier = (if read_tool_name = [] then [] else '' in '' @ read_tool_name @ '' output'');
                param = (if old_string_param = [] then ''old_string'' else old_string_param);
                terminal_fallback =
                  (if tools = [] \<or> execute_tool_name = [] then []
                   else '', or use '' @ execute_tool_name @ '' with a short script'' @ examples_clause tools
                     @ '' to edit the file directly'')
            in [newline, newline] @ ''The nearest matching region contains Unicode typography characters (smart quotes, em-dashes, etc.) on lines ''
               @ line_summary @ '' that look identical to ASCII'' @ read_qualifier
               @ '' but differ at the byte level. Re-read the file and use a shorter '' @ param
               @ '' anchored on nearby ASCII-only context'' @ terminal_fallback @ ''.''))"

lemma floor_boundary_le: "floor_boundary s n \<le> n"
  by (induction n) auto

text \<open>A hint about the nearest line is at most 200 bytes long, and both hints are empty where there is nothing to
  say: no line holds the word, the normalised string does not occur, or no line in its region has a
  confusable.\<close>

lemma nearest_hint_bound: "length (build_nearest_match_hint file old_string) \<le> 200"
proof -
  have "length (truncate_str_with_marker s 200) \<le> 200" for s
    using floor_boundary_le[of s "200 - length TRUNCATION_MARKER"]
    by (auto simp: truncate_str_with_marker_def TRUNCATION_MARKER_def)
  then show ?thesis by (simp add: build_nearest_match_hint_def Let_def split: option.split list.split)
qed

end
