(* ===== verification/Search_Replace.thy ===== *)
theory Search_Replace
  imports Edit_Hints
begin

section \<open>The search-replace tool (\<open>qidi_build/search_replace\<close>)\<close>

text \<open>
  The agent's main editing tool: a string is replaced at its one occurrence in a file, or at all of them.
  Text is matched with line ends read as newlines, on request up to confusable characters, and written back
  with the line ends of the file. \<open>None\<close> is a panic: a slice out of range. What surrounds the edit - the
  resolved path and what the file system says of it, the names in messages - is the
  record \<open>edit_env\<close>.
\<close>

subsection \<open>Positions and lines (\<open>helpers.rs\<close>)\<close>

definition range_opt :: "'a list \<Rightarrow> nat \<Rightarrow> nat \<Rightarrow> 'a list option" where
  "range_opt xs a b = (if a \<le> b \<and> b \<le> length xs then Some (slice xs a b) else None)"

text \<open>\<open>split_inclusive('\n')\<close>.\<close>

definition lines_inclusive :: "str \<Rightarrow> str list" where
  "lines_inclusive s =
     (let parts = split_on newline s
      in map (\<lambda>l. l @ [newline]) (butlast parts) @ (if last parts = [] then [] else [last parts]))"

record line_range =
  start_line :: nat
  end_line :: nat

definition compute_line_range :: "str \<Rightarrow> nat \<Rightarrow> str \<Rightarrow> line_range option" where
  "compute_line_range text start_pos inserted_text =
     map_option
       (\<lambda>before.
          let start = count_newlines before;
              lines_in_inserted = max 1 (length (lines_inclusive inserted_text))
          in \<lparr>start_line = start, end_line = start + lines_in_inserted - 1\<rparr>)
       (range_opt text 0 start_pos)"

text \<open>The contexts before and after an edit. The snippet with line numbers, which the callers drop, is left out
  but for the subtraction in its length.\<close>

definition render_snippet :: "str \<Rightarrow> str \<Rightarrow> nat \<Rightarrow> nat \<Rightarrow> (str \<times> str) option" where
  "render_snippet new_text new_string start_pos context_size =
     Option.bind (compute_line_range new_text start_pos new_string) (\<lambda>range.
       let ls = lines_inclusive new_text;
           total_lines_count = length ls;
           snippet_start = start_line range - context_size;
           snippet_end = min (end_line range + context_size) (total_lines_count - 1)
       in if snippet_end < snippet_start then None
          else Option.bind (if snippet_start < start_line range
                            then map_option concat (range_opt ls snippet_start (start_line range))
                            else Some []) (\<lambda>before.
               map_option (\<lambda>after. (before, after))
                 (if end_line range < snippet_end
                  then map_option concat (range_opt ls (end_line range + 1) (snippet_end + 1))
                  else Some [])))"

text \<open>Both replacement routines: the text between the spans is kept, each span becomes the new string. The second
  result lists where the new strings start. A span is a start and an end.\<close>

fun replace_spans :: "str \<Rightarrow> nat \<Rightarrow> (nat \<times> nat) list \<Rightarrow> str \<Rightarrow> str \<Rightarrow> nat list \<Rightarrow> (str \<times> nat list) option" where
  "replace_spans text last_end [] new_string result new_positions =
     map_option (\<lambda>rest. (result @ rest, new_positions)) (range_opt text last_end (length text))"
| "replace_spans text last_end ((start, stop) # spans) new_string result new_positions =
     Option.bind (range_opt text last_end start) (\<lambda>kept.
       replace_spans text stop spans new_string (result @ kept @ new_string)
         (new_positions @ [length (result @ kept)]))"

definition replace_using_positions :: "str \<Rightarrow> nat list \<Rightarrow> str \<Rightarrow> str \<Rightarrow> (str \<times> nat list) option" where
  "replace_using_positions text match_positions old_string new_string =
     replace_spans text 0 (map (\<lambda>pos. (pos, pos + length old_string)) match_positions) new_string [] []"

definition replace_normalized_matches :: "str \<Rightarrow> normalized_match list \<Rightarrow> str \<Rightarrow> (str \<times> nat list) option" where
  "replace_normalized_matches text ms new_string =
     replace_spans text 0 (map (\<lambda>m. (original_start m, original_end m)) ms) new_string [] []"

record edit_detail =
  ed_old_string :: str
  ed_old_line :: nat
  ed_new_string :: str
  ed_new_line :: nat
  ed_context_before :: str
  ed_context_after :: str
  ed_line_prefix :: str

definition CONTEXT_LINES :: nat where
  "CONTEXT_LINES = 3"

text \<open>The text of a line before a position: what follows the last newline.\<close>

definition line_prefix :: "str \<Rightarrow> str" where
  "line_prefix before = last (split_on newline before)"

definition edit_detail_at :: "str \<Rightarrow> str \<Rightarrow> str \<Rightarrow> nat \<Rightarrow> nat \<Rightarrow> edit_detail option" where
  "edit_detail_at new_text old_string new_string context_lines start_pos =
     Option.bind (render_snippet new_text new_string start_pos context_lines) (\<lambda>(context_before, context_after).
     Option.bind (compute_line_range new_text start_pos new_string) (\<lambda>range.
     map_option
       (\<lambda>before.
          \<lparr>ed_old_string = old_string, ed_old_line = start_line range + 1,
           ed_new_string = new_string, ed_new_line = start_line range + 1,
           ed_context_before = context_before, ed_context_after = context_after,
           ed_line_prefix = line_prefix before\<rparr>)
       (range_opt new_text 0 start_pos)))"

fun all_some :: "'a option list \<Rightarrow> 'a list option" where
  "all_some [] = Some []"
| "all_some (x # xs) = Option.bind x (\<lambda>y. map_option (\<lambda>ys. y # ys) (all_some xs))"

definition build_edit_details :: "str \<Rightarrow> str \<Rightarrow> str \<Rightarrow> nat list \<Rightarrow> nat \<Rightarrow> edit_detail list option" where
  "build_edit_details new_text old_string new_string new_positions context_lines =
     all_some (map (edit_detail_at new_text old_string new_string context_lines) new_positions)"

subsection \<open>Input and output\<close>

record search_replace_input =
  si_file_path :: str
  si_old_string :: str
  si_new_string :: str
  si_replace_all :: bool

text \<open>\<open>skip_read_before_edit\<close> is not read by the tool.\<close>

record search_replace_params =
  empty_old_string_does_not_override :: bool
  unicode_normalized_fallback :: bool
  include_user_edit_hint :: bool

record edits_applied =
  ea_old_string :: str
  ea_new_string :: str
  ea_tool_output_for_prompt :: str
  ea_tool_output_for_prompt_concise :: str
  ea_absolute_path :: str
  ea_details :: "edit_detail list"
  ea_unicode_normalized :: bool

datatype search_replace_output =
    FileAlreadyExists str
  | EditsApplied edits_applied
  | MultipleMatchesFound str
  | NoMatchesFound str str
  | InvalidInput str
  | FileNotFound str
  | FilenameTooLong str

text \<open>
  The resolved path (\<open>resolve_model_path\<close> and its canonicalisation), whether it is a directory or ignored by
  a respected .gitignore, the parameters if any are set, the template renderer (or its error), the message
  for a missing file, and the editing tools found on the path (\<open>QueryTools::detect\<close>).
\<close>

record edit_env =
  ee_path :: str
  ee_is_dir :: bool
  ee_ignored :: bool
  ee_params :: "search_replace_params option"
  ee_render :: "str \<Rightarrow> str + str"
  ee_not_found :: str
  ee_python :: "str option"
  ee_sed :: "str option"

type_synonym 's edit_result = "('s \<times> file_written list \<times> (str + search_replace_output)) option"

text \<open>An answer without an effect.\<close>

definition answer :: "'s \<Rightarrow> search_replace_output \<Rightarrow> 's edit_result" where
  "answer fs out = Some (fs, [], Inr out)"

definition with_name :: "'s \<Rightarrow> edit_env \<Rightarrow> str \<Rightarrow> (str \<Rightarrow> 's edit_result) \<Rightarrow> 's edit_result" where
  "with_name fs env template k =
     (case ee_render env template of Inl e \<Rightarrow> Some (fs, [], Inl e) | Inr name \<Rightarrow> k name)"

abbreviation OLD_STRING_PARAM :: str where "OLD_STRING_PARAM \<equiv> ''${{ params.edit.old_string }}''"
abbreviation REPLACE_ALL_PARAM :: str where "REPLACE_ALL_PARAM \<equiv> ''${{ params.edit.replace_all }}''"
abbreviation READ_TOOL :: str where "READ_TOOL \<equiv> ''${{ tools.by_kind.read }}''"
abbreviation EXECUTE_TOOL :: str where "EXECUTE_TOOL \<equiv> ''${{ tools.by_kind.execute }}''"

definition NAME_MAX :: nat where
  "NAME_MAX = 255"

definition validate_path_length :: "str \<Rightarrow> search_replace_output option" where
  "validate_path_length file_path =
     map_option
       (\<lambda>name. FilenameTooLong (''Error: file name exceeds the 255-character limit (''
          @ show_nat (length name) @ '' characters). Please use a shorter file name.''))
       (find (\<lambda>c. c \<notin> {''/'', ''.'', ''..''} \<and> NAME_MAX < length c) (path_components file_path))"

definition name_too_long :: search_replace_output where
  "name_too_long =
     FilenameTooLong (''Error: file name exceeds the 255-character limit. Please use a shorter file name.'')"

subsection \<open>A new file\<close>

definition write_failure :: "edit_env \<Rightarrow> search_replace_input \<Rightarrow> str \<Rightarrow> computer_error \<Rightarrow> search_replace_output" where
  "write_failure env input occupied e =
     (case io_error_kind e of
        Some AlreadyExists \<Rightarrow>
          InvalidInput (''Error: cannot '' @ occupied @ '' '' @ si_file_path input @ ''. A component of the path already exists as a file where a directory is expected.'')
      | Some InvalidFilename \<Rightarrow> name_too_long
      | _ \<Rightarrow> InvalidInput (''Error: failed to write '' @ si_file_path input @ '': '' @ error_text e))"

definition created :: "edit_env \<Rightarrow> search_replace_input \<Rightarrow> search_replace_output" where
  "created env input =
     EditsApplied
       \<lparr>ea_old_string = si_old_string input, ea_new_string = si_new_string input,
        ea_tool_output_for_prompt = ''The file '' @ si_file_path input @ '' has been created successfully.'',
        ea_tool_output_for_prompt_concise = ''The file '' @ si_file_path input @ '' has been created.'',
        ea_absolute_path = ee_path env,
        ea_details = [\<lparr>ed_old_string = si_old_string input, ed_old_line = 1, ed_new_string = si_new_string input,
                       ed_new_line = 1, ed_context_before = [], ed_context_after = [], ed_line_prefix = []\<rparr>],
        ea_unicode_normalized = False\<rparr>"

definition handle_new_file_creation ::
    "'s file_system \<Rightarrow> edit_env \<Rightarrow> search_replace_input \<Rightarrow> bool \<Rightarrow> 's \<Rightarrow> 's edit_result" where
  "handle_new_file_creation FS env input keep_existing fs =
     (let path = ee_path env;
          file_exists = (case fs_read FS fs path of Inr bytes \<Rightarrow> bytes \<noteq> [] | Inl _ \<Rightarrow> False);
          old_text = (case fs_read FS fs path of Inr bytes \<Rightarrow> Some (utf8_lossy bytes) | Inl _ \<Rightarrow> None)
      in if file_exists \<and> keep_existing then
           with_name fs env OLD_STRING_PARAM (\<lambda>name.
             answer fs (FileAlreadyExists (name @ '' is empty, which is only allowed when creating a new file or when the file is empty.'')))
         else (case fs_write FS fs path (si_new_string input) of
                 (fs', Some e) \<Rightarrow>
                   answer fs' (if io_error_kind e = Some NotFound then FileNotFound (ee_not_found env)
                               else write_failure env input ''create'' e)
               | (fs', None) \<Rightarrow>
                   Some (fs',
                     [if old_text \<noteq> None \<and> file_exists \<and> keep_existing
                      then written path (si_new_string input) old_text False
                      else written path (si_new_string input) None True],
                     Inr (created env input))))"

subsection \<open>A replacement\<close>

definition to_newlines :: "str \<Rightarrow> str" where
  "to_newlines s = replace2 (CHR 0x0D) newline [newline] s"

definition to_crlf :: "str \<Rightarrow> str" where
  "to_crlf s = concat (map (\<lambda>c. if c = newline then [CHR 0x0D, newline] else [c]) s)"

definition has_crlf :: "str \<Rightarrow> bool" where
  "has_crlf s = contains s [CHR 0x0D, newline]"

text \<open>What is matched, and what is written.\<close>

definition match_text_of :: "str \<Rightarrow> str" where
  "match_text_of old_text = (if has_crlf old_text then to_newlines old_text else old_text)"

definition write_text_of :: "str \<Rightarrow> str \<Rightarrow> str" where
  "write_text_of old_text new_text = (if has_crlf old_text then to_crlf (to_newlines new_text) else new_text)"

definition read_failure :: "edit_env \<Rightarrow> search_replace_input \<Rightarrow> computer_error \<Rightarrow> str + search_replace_output" where
  "read_failure env input e =
     (case io_error_kind e of
        Some NotFound \<Rightarrow> Inr (FileNotFound (ee_not_found env))
      | Some IsADirectory \<Rightarrow> Inr (InvalidInput (''Error: '' @ si_file_path input @ '' is a directory, not a file.''))
      | Some InvalidFilename \<Rightarrow> Inr name_too_long
      | Some PermissionDenied \<Rightarrow> Inr (InvalidInput (''Error: permission denied reading '' @ si_file_path input @ ''.''))
      | _ \<Rightarrow> Inl (error_text e))"

definition no_matches :: "edit_env \<Rightarrow> search_replace_input \<Rightarrow> bool \<Rightarrow> str \<Rightarrow> 's \<Rightarrow> 's edit_result" where
  "no_matches env input legacy match_text fs =
     with_name fs env READ_TOOL (\<lambda>read_name.
     with_name fs env OLD_STRING_PARAM (\<lambda>old_string_param.
     with_name fs env EXECUTE_TOOL (\<lambda>execute_name.
       let user_edit_hint =
             (if (case ee_params env of Some p \<Rightarrow> include_user_edit_hint p | None \<Rightarrow> True)
              then '' The user may have changed the file since you last read it.'' else []);
           hints = (if legacy then []
                    else build_nearest_match_hint match_text (si_old_string input)
                      @ build_confusable_hint match_text (si_old_string input) (edit_tools (ee_python env) (ee_sed env))
                          read_name old_string_param execute_name)
       in answer fs (NoMatchesFound
            (''The string to replace was not found in the file, use the '' @ read_name
              @ '' tool to see the correct string.'' @ user_edit_hint @ hints) (ee_path env)))))"

text \<open>The replacement carried out and written, \<open>replaced\<close> being the new text and the starts of the new strings.\<close>

definition write_edit ::
    "'s file_system \<Rightarrow> edit_env \<Rightarrow> search_replace_input \<Rightarrow> str \<Rightarrow> bool \<Rightarrow> (str \<times> nat list) option \<Rightarrow> 's
      \<Rightarrow> 's edit_result" where
  "write_edit FS env input old_text used_normalized_fallback replaced fs =
     Option.bind replaced (\<lambda>(new_text, new_positions).
       let path = ee_path env; write_text = write_text_of old_text new_text in
       case fs_write FS fs path write_text of
         (fs', Some e) \<Rightarrow> answer fs' (write_failure env input ''write'' e)
       | (fs', None) \<Rightarrow>
           map_option
             (\<lambda>details.
                (fs', [written path write_text (Some old_text) False],
                 Inr (EditsApplied
                   \<lparr>ea_old_string = si_old_string input, ea_new_string = si_new_string input,
                    ea_tool_output_for_prompt = ''The file '' @ si_file_path input
                      @ (if length new_positions = 1 then '' has been updated successfully.''
                         else '' has been updated. All occurrences were successfully replaced.''),
                    ea_tool_output_for_prompt_concise = ''The file '' @ si_file_path input
                      @ (if length new_positions = 1 then '' has been updated.''
                         else '' has been updated. All occurrences were replaced.''),
                    ea_absolute_path = path, ea_details = details,
                    ea_unicode_normalized = used_normalized_fallback\<rparr>)))
             (build_edit_details new_text (si_old_string input) (si_new_string input) new_positions CONTEXT_LINES))"

definition several_matches :: "edit_env \<Rightarrow> str \<Rightarrow> 's \<Rightarrow> 's edit_result" where
  "several_matches env how fs =
     with_name fs env REPLACE_ALL_PARAM (\<lambda>name.
       answer fs (MultipleMatchesFound (''The string to replace was found multiple times in the file'' @ how @ ''. Use ''
         @ name @ '' to replace all occurrences, or include more context to only edit one occurrence.'')))"

definition handle_replacement ::
    "'s file_system \<Rightarrow> edit_env \<Rightarrow> search_replace_input \<Rightarrow> bool \<Rightarrow> 's \<Rightarrow> 's edit_result" where
  "handle_replacement FS env input legacy fs =
     (case fs_read FS fs (ee_path env) of
        Inl e \<Rightarrow> Some (fs, [], read_failure env input e)
      | Inr bytes \<Rightarrow>
          (let old_text = utf8_lossy bytes;
               match_text = match_text_of old_text;
               positions = match_indices match_text (si_old_string input)
           in if positions \<noteq> [] then
                (if 1 < length positions \<and> \<not> si_replace_all input then several_matches env [] fs
                 else write_edit FS env input old_text False
                        (replace_using_positions match_text positions (si_old_string input) (si_new_string input)) fs)
              else if (case ee_params env of Some p \<Rightarrow> unicode_normalized_fallback p | None \<Rightarrow> False) then
                (case find_normalized_match_positions match_text (si_old_string input) of
                   Matches ms \<Rightarrow>
                     if 1 < length ms \<and> \<not> si_replace_all input
                     then several_matches env '' (via Unicode normalization)'' fs
                     else write_edit FS env input old_text True
                            (replace_normalized_matches match_text ms (si_new_string input)) fs
                 | Ambiguous \<Rightarrow>
                     with_name fs env OLD_STRING_PARAM (\<lambda>name.
                       answer fs (MultipleMatchesFound (''The string to replace was found via Unicode normalization but the match is ambiguous (partial or overlapping). Use a more specific ''
                         @ name @ '' that avoids lines with Unicode typography characters.'')))
                 | NoMatch \<Rightarrow> no_matches env input legacy match_text fs)
              else no_matches env input legacy match_text fs))"

subsection \<open>The tool\<close>

definition run_search_replace ::
    "'s file_system \<Rightarrow> edit_env \<Rightarrow> search_replace_input \<Rightarrow> bool \<Rightarrow> 's \<Rightarrow> 's edit_result" where
  "run_search_replace FS env input legacy fs =
     (case validate_path_length (si_file_path input) of
        Some err \<Rightarrow> answer fs err
      | None \<Rightarrow>
          if ee_is_dir env then answer fs (InvalidInput ''File path is a directory'')
          else if \<not> legacy \<and> ee_ignored env then
            answer fs (InvalidInput (''Error: '' @ si_file_path input @ '' is ignored by .gitignore and cannot be edited.''))
          else if si_old_string input = si_new_string input then
            answer fs (InvalidInput ''Old string and new string are the same'')
          else if si_old_string input = [] then
            handle_new_file_creation FS env input
              (case ee_params env of Some p \<Rightarrow> empty_old_string_does_not_override p | None \<Rightarrow> False) fs
          else handle_replacement FS env input legacy fs)"

text \<open>The wording of version 0.4.10 (\<open>versions/legacy_0_4_10.rs\<close>).\<close>

definition downgrade_structured_errors ::
    "edit_env \<Rightarrow> str \<Rightarrow> 's \<times> file_written list \<times> (str + search_replace_output) \<Rightarrow> 's edit_result" where
  "downgrade_structured_errors env file_path r =
     (case r of
        (fs, ns, Inl e) \<Rightarrow> Some (fs, ns, Inl e)
      | (fs, ns, Inr out) \<Rightarrow>
          (case (ee_render env READ_TOOL, ee_render env REPLACE_ALL_PARAM, ee_render env OLD_STRING_PARAM) of
             (Inr read_tool_name, Inr replace_all_name, Inr old_string_name) \<Rightarrow>
               Some (fs, ns, Inr (case out of
                   FileAlreadyExists _ \<Rightarrow> InvalidInput (old_string_name @ '' is empty, which is only allowed when creating a new file or when the file is empty.'')
                 | FileNotFound _ \<Rightarrow> InvalidInput (''File not found: '' @ file_path @ ''. Please check the path and try again.'')
                 | FilenameTooLong msg \<Rightarrow> InvalidInput msg
                 | MultipleMatchesFound _ \<Rightarrow> InvalidInput (''The string to replace was found multiple times in the file. Use ''
                     @ replace_all_name @ '' to replace all occurrences, or include more context to only edit one occurrence.'')
                 | NoMatchesFound _ _ \<Rightarrow> InvalidInput (''The string to replace was not found in the file, use the ''
                     @ read_tool_name @ '' tool to see the correct string.'')
                 | _ \<Rightarrow> out))
           | (Inl e, _, _) \<Rightarrow> Some (fs, ns, Inl e)
           | (_, Inl e, _) \<Rightarrow> Some (fs, ns, Inl e)
           | (_, _, Inl e) \<Rightarrow> Some (fs, ns, Inl e)))"

definition search_replace ::
    "'s file_system \<Rightarrow> edit_env \<Rightarrow> search_replace_input \<Rightarrow> bool \<Rightarrow> 's \<Rightarrow> 's edit_result" where
  "search_replace FS env input legacy fs =
     Option.bind (run_search_replace FS env input legacy fs) (\<lambda>r.
       if legacy then downgrade_structured_errors env (si_file_path input) r else Some r)"

end
