(* ===== verification/Search_Replace_Props.thy ===== *)
theory Search_Replace_Props
  imports Search_Replace Local_Files
begin

section \<open>What a search-replace edit does\<close>

text \<open>
  A text as pieces between the spans that are replaced: the weave of the pieces with the old spans is the
  text, the weave with the new string is the result. From this follow that the tool edits only what matched,
  that it never panics, and what becomes of line ends.
\<close>

subsection \<open>Spans\<close>

fun weave :: "str list \<Rightarrow> str list \<Rightarrow> str" where
  "weave (p # ps) (m # ms) = p @ m @ weave ps ms"
| "weave (p # ps) [] = p"
| "weave [] ms = []"

fun spans_in :: "nat \<Rightarrow> nat \<Rightarrow> (nat \<times> nat) list \<Rightarrow> bool" where
  "spans_in from n [] \<longleftrightarrow> from \<le> n"
| "spans_in from n ((a, b) # spans) \<longleftrightarrow> from \<le> a \<and> a \<le> b \<and> spans_in b n spans"

fun pieces :: "str \<Rightarrow> nat \<Rightarrow> (nat \<times> nat) list \<Rightarrow> str list" where
  "pieces t from [] = [drop from t]"
| "pieces t from ((a, b) # spans) = slice t from a # pieces t b spans"

definition mids :: "str \<Rightarrow> (nat \<times> nat) list \<Rightarrow> str list" where
  "mids t spans = map (\<lambda>(a, b). slice t a b) spans"

lemma spans_in_le: "spans_in from n spans \<Longrightarrow> from \<le> n"
  by (induction "from" n spans rule: spans_in.induct) auto

lemma spans_in_mono: "spans_in from n spans \<Longrightarrow> from' \<le> from \<Longrightarrow> spans_in from' n spans"
  by (cases spans) auto

lemma slice_append: "a \<le> b \<Longrightarrow> slice t a b @ drop b t = drop a t"
  unfolding slice_def by (metis append_take_drop_id drop_drop le_add_diff_inverse2)

lemma length_pieces: "length (pieces t from spans) = Suc (length spans)"
  by (induction t "from" spans rule: pieces.induct) auto

lemma length_mids: "length (mids t spans) = length spans"
  by (simp add: mids_def)

lemma weave_mids: "spans_in from (length t) spans \<Longrightarrow> weave (pieces t from spans) (mids t spans) = drop from t"
proof (induction t "from" spans rule: pieces.induct)
  case (2 t "from" a b spans)
  then show ?case by (simp add: mids_def slice_append)
qed (simp add: mids_def)

lemma replace_spans_weave:
  "spans_in last_end (length t) spans \<Longrightarrow>
     \<exists>ps. replace_spans t last_end spans new res pos
            = Some (res @ weave (pieces t last_end spans) (replicate (length spans) new), pos @ ps)
        \<and> length ps = length spans
        \<and> (\<forall>p \<in> set ps. p \<le> length (res @ weave (pieces t last_end spans) (replicate (length spans) new)))"
proof (induction spans arbitrary: last_end res pos)
  case Nil
  then show ?case by (simp add: range_opt_def slice_def)
next
  case (Cons ab spans)
  obtain a b where ab: "ab = (a, b)" by (cases ab)
  have le: "last_end \<le> a" "a \<le> b" "spans_in b (length t) spans" using Cons.prems ab by simp_all
  have "a \<le> length t" using le spans_in_le by fastforce
  then have r: "range_opt t last_end a = Some (slice t last_end a)" using le by (simp add: range_opt_def)
  from Cons.IH[OF le(3), of "res @ slice t last_end a @ new" "pos @ [length (res @ slice t last_end a)]"]
  show ?case by (auto simp: ab r)
qed

text \<open>The spans of an exact match.\<close>

definition exact_spans :: "str \<Rightarrow> str \<Rightarrow> (nat \<times> nat) list" where
  "exact_spans t old = map (\<lambda>p. (p, p + length old)) (match_indices t old)"

lemma apart_spans:
  "apart len from ps \<Longrightarrow> \<forall>p \<in> set ps. p + len \<le> n \<Longrightarrow> from \<le> n \<Longrightarrow> spans_in from n (map (\<lambda>p. (p, p + len)) ps)"
  by (induction len "from" ps rule: apart.induct) auto

lemma exact_spans_in: "spans_in 0 (length t) (exact_spans t old)"
  unfolding exact_spans_def match_indices_def
  using match_from_apart[of old 0 t] match_from_occurs[of _ 0 old t] by (intro apart_spans) auto

lemma exact_mids: "m \<in> set (mids t (exact_spans t old)) \<Longrightarrow> m = old"
proof -
  assume "m \<in> set (mids t (exact_spans t old))"
  then obtain p where p: "p \<in> set (match_from 0 old t)" "m = take (length old) (drop p t)"
    by (auto simp: mids_def exact_spans_def match_indices_def slice_def)
  with match_from_occurs[OF p(1)] show "m = old" by (auto simp: starts_with_iff_prefix prefix_def)
qed

text \<open>The spans of a match up to confusables.\<close>

definition normalized_spans :: "normalized_match list \<Rightarrow> (nat \<times> nat) list" where
  "normalized_spans ms = map (\<lambda>m. (original_start m, original_end m)) ms"

lemma normalized_spans_in:
  "list_all (span_ok t pattern) ms \<Longrightarrow> \<not> spans_overlap ms \<Longrightarrow> spans_in 0 (length t) (normalized_spans ms)"
proof (induction ms)
  case (Cons m ms)
  have "spans_in (original_end m) (length t) (normalized_spans ms)"
  proof (cases ms)
    case Nil
    then show ?thesis using Cons.prems by (simp add: normalized_spans_def span_ok_def)
  next
    case (Cons m' ms')
    then show ?thesis
      using Cons.IH Cons.prems by (auto simp: normalized_spans_def spans_overlap_def)
  qed
  then show ?case by (simp add: normalized_spans_def original_end_def)
qed (simp add: normalized_spans_def)

lemma normalized_mids:
  "list_all (span_ok t pattern) ms \<Longrightarrow> m \<in> set (mids t (normalized_spans ms)) \<Longrightarrow>
     normalize_confusables m = normalize_confusables pattern"
  by (auto simp: mids_def normalized_spans_def list_all_iff span_ok_def)

subsection \<open>Lines\<close>

lemma length_split_on: "length (split_on d s) = Suc (length (filter (\<lambda>c. c = d) s))"
  by (induction d s rule: split_on.induct) (auto simp: Let_def split: list.splits)

lemma count_newlines_lines: "count_newlines s \<le> length (lines_inclusive s)"
  by (simp add: lines_inclusive_def count_newlines_def length_split_on Let_def)

lemma count_newlines_take: "count_newlines (take k s) \<le> count_newlines s"
proof -
  have "count_newlines s = count_newlines (take k s) + count_newlines (drop k s)"
    unfolding count_newlines_def by (metis append_take_drop_id filter_append length_append)
  then show ?thesis by simp
qed

lemma render_snippet_total:
  assumes "pos \<le> length new_text"
  shows "\<exists>r. render_snippet new_text new_string pos CONTEXT_LINES = Some r"
proof -
  let ?s = "count_newlines (take pos new_text)" and ?total = "length (lines_inclusive new_text)"
  have "?s \<le> ?total" using count_newlines_take count_newlines_lines order_trans by blast
  then show ?thesis
    using assms
    by (auto simp: render_snippet_def compute_line_range_def range_opt_def CONTEXT_LINES_def Let_def slice_def)
qed

lemma edit_details_total:
  "\<forall>p \<in> set ps. p \<le> length new_text \<Longrightarrow> \<exists>ds. build_edit_details new_text old new ps CONTEXT_LINES = Some ds"
proof (induction ps)
  case (Cons p ps)
  obtain r where r: "render_snippet new_text new p CONTEXT_LINES = Some r"
    using render_snippet_total Cons.prems by fastforce
  have "\<exists>d. edit_detail_at new_text old new CONTEXT_LINES p = Some d"
    using Cons.prems by (cases r) (simp add: edit_detail_at_def r compute_line_range_def range_opt_def)
  then show ?case using Cons by (auto simp: build_edit_details_def)
qed (simp add: build_edit_details_def)

subsection \<open>The tool\<close>

text \<open>An edit of a text: the middle pieces, which match the old string, become the new one.\<close>

definition edited :: "bool \<Rightarrow> str \<Rightarrow> str \<Rightarrow> str \<Rightarrow> str \<Rightarrow> nat \<Rightarrow> bool" where
  "edited normalized old new t t' n \<longleftrightarrow>
     (\<exists>outer inner. weave outer inner = t \<and> length outer = n + 1 \<and> length inner = n
        \<and> list_all (\<lambda>m. if normalized then normalize_confusables m = normalize_confusables old else m = old) inner
        \<and> t' = weave outer (replicate n new))"

text \<open>
  The edit asked for. Matched exactly, the new text is the old one with every occurrence replaced, as
  \<open>str::replace\<close> does, \<open>n\<close> being the number of occurrences. Matched up to confusables, the old string does not
  occur as it is, and the spans replaced are all those that are the pattern again when normalised, among the spans
  that correspond to an occurrence of the normalised pattern in the normalised text.
\<close>

definition confusable_spans :: "str \<Rightarrow> str \<Rightarrow> (nat \<times> nat) list" where
  "confusable_spans t old =
     (let offset_map = snd (build_offset_map t); pattern = normalize_confusables old
      in filter (\<lambda>(a, b). a < b \<and> normalize_confusables (slice t a b) = pattern)
           (map (\<lambda>i. (offset_map ! i, offset_map ! (i + length pattern)))
             (match_indices (normalize_confusables t) pattern)))"

definition exact_edit :: "bool \<Rightarrow> str \<Rightarrow> str \<Rightarrow> str \<Rightarrow> str \<Rightarrow> nat \<Rightarrow> bool" where
  "exact_edit normalized old new t t' n \<longleftrightarrow>
     edited normalized old new t t' n
     \<and> (if normalized
        then \<not> contains t old \<and> n = length (confusable_spans t old)
             \<and> t' = weave (pieces t 0 (confusable_spans t old)) (replicate n new)
        else n = length (match_indices t old) \<and> t' = replace_all old new t)"

lemma weave_match_from:
  "old \<noteq> [] \<Longrightarrow> s = drop off t \<Longrightarrow> from \<le> off \<Longrightarrow> off \<le> length t \<Longrightarrow>
     weave (pieces t from (map (\<lambda>p. (p, p + length old)) (match_from off old s)))
       (replicate (length (match_from off old s)) new) = slice t from off @ replace_all old new s"
proof (induction off old s arbitrary: "from" rule: match_from.induct)
  case (1 off old s)
  show ?case
  proof (cases "s = []")
    case True
    then show ?thesis using 1(3-6)
      by (subst (1 2) match_from.simps, subst replace_all.simps) (simp add: slice_def)
  next
    case False
    then have off: "off < length t" using 1(4) by simp
    show ?thesis
    proof (cases "starts_with s old")
      case True
      then have le: "off + length old \<le> length t"
        using 1(4,6) by (auto simp: starts_with_iff_prefix dest!: prefix_length_le)
      have "drop (length old) s = drop (off + length old) t" by (simp add: 1(4) add.commute)
      from 1(1)[OF _ True 1(3) this order_refl le] False 1(3) True
      have rec: "weave (pieces t (off + length old) (map (\<lambda>p. (p, p + length old))
            (match_from (off + length old) old (drop (length old) s))))
          (replicate (length (match_from (off + length old) old (drop (length old) s))) new)
        = replace_all old new (drop (length old) s)"
        by (simp add: slice_def)
      have m: "match_from off old s = off # match_from (off + length old) old (drop (length old) s)"
        using False True 1(3) by (subst match_from.simps) simp
      have "replace_all old new s = new @ replace_all old new (drop (length old) s)"
        using False True 1(3) by (subst replace_all.simps) (auto split: list.split)
      then show ?thesis by (simp add: m rec)
    next
      case no: False
      have "tl s = drop (off + 1) t" by (simp add: 1(4) drop_Suc tl_drop)
      from 1(2)[OF _ no 1(3) this] False 1(3,5) off
      have rec: "weave (pieces t from (map (\<lambda>p. (p, p + length old)) (match_from (off + 1) old (tl s))))
          (replicate (length (match_from (off + 1) old (tl s))) new)
        = slice t from (off + 1) @ replace_all old new (tl s)"
        by simp
      have m: "match_from off old s = match_from (off + 1) old (tl s)"
        using False no 1(3) by (subst match_from.simps) simp
      have "slice t from (off + 1) = slice t from off @ [hd s]"
        using off 1(4,5) by (simp add: slice_def Suc_diff_le take_Suc_conv_app_nth hd_drop_conv_nth)
      moreover have "replace_all old new s = hd s # replace_all old new (tl s)"
        using False no 1(3) by (subst replace_all.simps) (auto split: list.split)
      ultimately show ?thesis using rec m by simp
    qed
  qed
qed

lemma found_spans:
  assumes "find_normalized_match_positions t old = Matches ms"
  shows "normalized_spans ms = confusable_spans t old"
proof -
  let ?om = "snd (build_offset_map t)" and ?p = "normalize_confusables old"
  have ms: "ms = List.map_filter id (map (validate_candidate t ?om ?p) (match_indices (normalize_confusables t) ?p))"
    using assms build_offset_map_simps(1)[of t]
    by (auto simp: find_normalized_match_positions_def Let_def split: prod.splits if_splits)
  have "normalized_spans (List.map_filter id (map (validate_candidate t ?om ?p) is))
      = filter (\<lambda>(a, b). a < b \<and> normalize_confusables (slice t a b) = ?p) (map (\<lambda>i. (?om ! i, ?om ! (i + length ?p))) is)"
    for "is"
    by (induction "is")
      (auto simp: normalized_spans_def validate_candidate_def original_end_def map_filter_simps Let_def)
  then show ?thesis by (simp add: ms confusable_spans_def Let_def)
qed

lemma edited_by_spans:
  assumes "spans_in 0 (length t) spans"
    and "\<And>m. m \<in> set (mids t spans) \<Longrightarrow> if normalized then normalize_confusables m = normalize_confusables old else m = old"
  shows "\<exists>t' ps. replace_spans t 0 spans new [] [] = Some (t', ps) \<and> length ps = length spans
    \<and> (\<forall>p \<in> set ps. p \<le> length t') \<and> edited normalized old new t t' (length spans)
    \<and> t' = weave (pieces t 0 spans) (replicate (length spans) new)"
proof -
  have w: "weave (pieces t 0 spans) (mids t spans) = t" using weave_mids[OF assms(1)] by simp
  have e: "edited normalized old new t (weave (pieces t 0 spans) (replicate (length spans) new)) (length spans)"
    unfolding edited_def
    by (rule exI[of _ "pieces t 0 spans"], rule exI[of _ "mids t spans"])
      (use assms(2) w in \<open>simp add: length_pieces length_mids list_all_iff\<close>)
  from replace_spans_weave[OF assms(1), of new "[]" "[]"] e show ?thesis by auto
qed

lemma replace_exact:
  assumes "match_indices t old \<noteq> []"
  shows "\<exists>t' ps. replace_using_positions t (match_indices t old) old new = Some (t', ps)
     \<and> length ps = length (match_indices t old) \<and> (\<forall>p \<in> set ps. p \<le> length t')
     \<and> exact_edit False old new t t' (length (match_indices t old))"
proof -
  have "old \<noteq> []" using assms by (auto simp: match_indices_def match_from.simps[of 0 "[]"])
  from weave_match_from[OF this, of t 0 t 0 new]
  have "weave (pieces t 0 (exact_spans t old)) (replicate (length (exact_spans t old)) new) = replace_all old new t"
    by (simp add: exact_spans_def match_indices_def slice_def)
  then show ?thesis
    using edited_by_spans[OF exact_spans_in, of t old False old new] exact_mids[of _ t old]
    by (auto simp: replace_using_positions_def exact_spans_def exact_edit_def)
qed

lemma replace_normalized:
  assumes "find_normalized_match_positions t old = Matches ms" "match_indices t old = []"
  shows "ms \<noteq> [] \<and> (\<exists>t' ps. replace_normalized_matches t ms new = Some (t', ps)
     \<and> length ps = length ms \<and> (\<forall>p \<in> set ps. p \<le> length t') \<and> exact_edit True old new t t' (length ms))"
proof -
  have ok: "ms \<noteq> []" "list_all (span_ok t old) ms" "\<not> spans_overlap ms"
    using normalized_matches_found[of old t] assms(1) by simp_all
  have "old \<noteq> []" using assms(1) by (auto simp: find_normalized_match_positions_def normalize_confusables_def
        utf8_chars_def split: prod.splits)
  then have "\<not> contains t old" using assms(2) by (simp add: match_indices_def match_from_iff)
  moreover have len: "length ms = length (normalized_spans ms)" by (simp add: normalized_spans_def)
  moreover have spans: "replace_normalized_matches t ms new = replace_spans t 0 (normalized_spans ms) new [] []"
    by (simp add: replace_normalized_matches_def normalized_spans_def)
  ultimately show ?thesis
    using edited_by_spans[OF normalized_spans_in[OF ok(2,3)], of True old new] normalized_mids[OF ok(2)] ok(1)
      found_spans[OF assms(1)]
    unfolding len spans by (auto simp: exact_edit_def)
qed

text \<open>How a call can end: without an effect, with a failed write, or with an edit.\<close>

definition write_attempted :: "'s file_system \<Rightarrow> str \<Rightarrow> 's \<Rightarrow> 's \<Rightarrow> bool" where
  "write_attempted FS path fs fs' \<longleftrightarrow> (\<exists>t e. fs_write FS fs path t = (fs', Some e))"

definition is_edit :: "str + search_replace_output \<Rightarrow> bool" where
  "is_edit r = (case r of Inr (EditsApplied _) \<Rightarrow> True | _ \<Rightarrow> False)"

definition without_effect :: "'s file_system \<Rightarrow> str \<Rightarrow> 's \<Rightarrow> 's edit_result \<Rightarrow> bool" where
  "without_effect FS path fs res \<longleftrightarrow>
     (\<exists>fs' r. res = Some (fs', [], r) \<and> \<not> is_edit r \<and> (fs' = fs \<or> write_attempted FS path fs fs'))"

lemma without_effect_intros:
  "\<not> is_edit (Inr out) \<Longrightarrow> without_effect FS path fs (answer fs out)"
  "\<not> is_edit r \<Longrightarrow> without_effect FS path fs (Some (fs, [], r))"
  "fs_write FS fs path t = (fs', Some e) \<Longrightarrow> \<not> is_edit (Inr out) \<Longrightarrow> without_effect FS path fs (answer fs' out)"
  by (auto simp: without_effect_def answer_def write_attempted_def)

lemma with_name_effect:
  "(\<And>name. without_effect FS path fs (k name)) \<Longrightarrow> without_effect FS path fs (with_name fs env template k)"
  by (auto simp: with_name_def is_edit_def intro: without_effect_intros split: sum.split)

lemma plain_outputs [simp]:
  "\<not> is_edit (Inl e)" "\<not> is_edit (Inr (write_failure env input how err))" "\<not> is_edit (read_failure env input err)"
  "\<not> is_edit (Inr name_too_long)" "\<not> is_edit (Inr (FileAlreadyExists m))" "\<not> is_edit (Inr (MultipleMatchesFound m))"
  "\<not> is_edit (Inr (NoMatchesFound m p))" "\<not> is_edit (Inr (InvalidInput m))" "\<not> is_edit (Inr (FileNotFound m))"
  "\<not> is_edit (Inr (FilenameTooLong m))"
  by (simp_all add: is_edit_def write_failure_def read_failure_def name_too_long_def split: option.split error_kind.split)

lemma several_no_effect: "without_effect FS path fs (several_matches env how fs)"
  unfolding several_matches_def by (intro with_name_effect without_effect_intros) simp

lemma no_matches_no_effect: "without_effect FS path fs (no_matches env input legacy t fs)"
  unfolding no_matches_def Let_def by (intro with_name_effect without_effect_intros) simp

definition performed ::
    "'s file_system \<Rightarrow> edit_env \<Rightarrow> search_replace_input \<Rightarrow> 's \<Rightarrow> 's edit_result \<Rightarrow> bool" where
  "performed FS env input fs res \<longleftrightarrow>
     (\<exists>c n t' fs' ea.
        fs_read FS fs (ee_path env) = Inr c
        \<and> exact_edit (ea_unicode_normalized ea) (si_old_string input) (si_new_string input)
            (match_text_of (utf8_lossy c)) t' n
        \<and> 0 < n \<and> (si_replace_all input \<or> n = 1)
        \<and> fs_write FS fs (ee_path env) (write_text_of (utf8_lossy c) t') = (fs', None)
        \<and> res = Some (fs', [written (ee_path env) (write_text_of (utf8_lossy c) t') (Some (utf8_lossy c)) False],
                      Inr (EditsApplied ea)))"

lemma write_edit_result:
  assumes "fs_read FS fs (ee_path env) = Inr c" "replaced = Some (t', ps)" "\<forall>p \<in> set ps. p \<le> length t'"
    and "exact_edit norm (si_old_string input) (si_new_string input) (match_text_of (utf8_lossy c)) t' n"
    and "0 < n" "si_replace_all input \<or> n = 1"
  shows "performed FS env input fs (write_edit FS env input (utf8_lossy c) norm replaced fs)
    \<or> without_effect FS (ee_path env) fs (write_edit FS env input (utf8_lossy c) norm replaced fs)"
proof -
  let ?w = "write_text_of (utf8_lossy c) t'"
  obtain ds where ds: "build_edit_details t' (si_old_string input) (si_new_string input) ps CONTEXT_LINES = Some ds"
    using edit_details_total[OF assms(3)] by blast
  obtain fs' e where w: "fs_write FS fs (ee_path env) ?w = (fs', e)" by (cases "fs_write FS fs (ee_path env) ?w")
  show ?thesis
  proof (cases e)
    case (Some err)
    then have "without_effect FS (ee_path env) fs (answer fs' (write_failure env input ''write'' err))"
      using w by (intro without_effect_intros(3)) simp_all
    then show ?thesis using w Some by (simp add: write_edit_def assms(2) Let_def)
  next
    case None
    then have "performed FS env input fs (write_edit FS env input (utf8_lossy c) norm replaced fs)"
      unfolding performed_def write_edit_def assms(2)
      using assms(1,4,5,6) w ds by (fastforce simp: Let_def)
    then show ?thesis ..
  qed
qed

lemma handle_replacement_cases:
  "performed FS env input fs (handle_replacement FS env input legacy fs)
   \<or> without_effect FS (ee_path env) fs (handle_replacement FS env input legacy fs)"
proof (cases "fs_read FS fs (ee_path env)")
  case (Inl e)
  then show ?thesis by (simp add: handle_replacement_def without_effect_intros)
next
  case (Inr c)
  let ?t = "match_text_of (utf8_lossy c)" and ?old = "si_old_string input" and ?new = "si_new_string input"
  have quiet: "without_effect FS (ee_path env) fs (several_matches env how fs)"
    "without_effect FS (ee_path env) fs (no_matches env input legacy ?t fs)" for how
    by (rule several_no_effect no_matches_no_effect)+
  show ?thesis
  proof (cases "match_indices ?t ?old = []")
    case False
    obtain t' ps where r: "replace_using_positions ?t (match_indices ?t ?old) ?old ?new = Some (t', ps)"
        "\<forall>p \<in> set ps. p \<le> length t'" "exact_edit False ?old ?new ?t t' (length (match_indices ?t ?old))"
      using replace_exact[OF False] by metis
    show ?thesis
    proof (cases "1 < length (match_indices ?t ?old) \<and> \<not> si_replace_all input")
      case True
      with Inr False quiet(1)[of "[]"] show ?thesis by (simp add: handle_replacement_def Let_def)
    next
      case one: False
      with False have "0 < length (match_indices ?t ?old)"
        "si_replace_all input \<or> length (match_indices ?t ?old) = 1" by (auto simp: Suc_lessI)
      note res = write_edit_result[OF Inr r this]
      have "handle_replacement FS env input legacy fs = write_edit FS env input (utf8_lossy c) False
          (replace_using_positions ?t (match_indices ?t ?old) ?old ?new) fs"
        using one False Inr by (auto simp: handle_replacement_def Let_def)
      with res show ?thesis by simp
    qed
  next
    case exact: True
    show ?thesis
    proof (cases "find_normalized_match_positions ?t ?old")
      case NoMatch
      then show ?thesis using Inr exact quiet by (simp add: handle_replacement_def Let_def)
    next
      case Ambiguous
      have "without_effect FS (ee_path env) fs (with_name fs env OLD_STRING_PARAM (\<lambda>name. answer fs (MultipleMatchesFound (m name))))" for m
        by (intro with_name_effect without_effect_intros) simp
      then show ?thesis using Inr exact quiet Ambiguous by (simp add: handle_replacement_def Let_def)
    next
      case (Matches ms)
      obtain t' ps where r: "ms \<noteq> []" "replace_normalized_matches ?t ms ?new = Some (t', ps)"
          "\<forall>p \<in> set ps. p \<le> length t'" "exact_edit True ?old ?new ?t t' (length ms)"
        using replace_normalized[OF Matches exact] by metis
      show ?thesis
      proof (cases "1 < length ms \<and> \<not> si_replace_all input")
        case True
        with Inr exact Matches quiet show ?thesis by (simp add: handle_replacement_def Let_def)
      next
        case False
        then have "0 < length ms" "si_replace_all input \<or> length ms = 1"
          using r(1) by (auto simp: Suc_lessI)
        note res = write_edit_result[OF Inr r(2-4) this]
        show ?thesis
        proof (cases "case ee_params env of Some p \<Rightarrow> unicode_normalized_fallback p | None \<Rightarrow> False")
          case True
          then have "handle_replacement FS env input legacy fs
              = write_edit FS env input (utf8_lossy c) True (replace_normalized_matches ?t ms ?new) fs"
            using False exact Inr Matches by (auto simp: handle_replacement_def Let_def)
          with res show ?thesis by simp
        qed (use Inr exact quiet in \<open>simp add: handle_replacement_def Let_def\<close>)
      qed
    qed
  qed
qed

definition created_file ::
    "'s file_system \<Rightarrow> edit_env \<Rightarrow> search_replace_input \<Rightarrow> 's \<Rightarrow> 's edit_result \<Rightarrow> bool" where
  "created_file FS env input fs res \<longleftrightarrow>
     (\<exists>fs'. fs_write FS fs (ee_path env) (si_new_string input) = (fs', None)
        \<and> res = Some (fs', [written (ee_path env) (si_new_string input) None True], Inr (created env input)))"

lemma handle_new_file_cases:
  "created_file FS env input fs (handle_new_file_creation FS env input keep fs)
   \<or> without_effect FS (ee_path env) fs (handle_new_file_creation FS env input keep fs)"
proof (cases "(case fs_read FS fs (ee_path env) of Inr bytes \<Rightarrow> bytes \<noteq> [] | Inl _ \<Rightarrow> False) \<and> keep")
  case True
  have "without_effect FS (ee_path env) fs (with_name fs env OLD_STRING_PARAM (\<lambda>name. answer fs (FileAlreadyExists (m name))))" for m
    by (intro with_name_effect without_effect_intros) simp
  then show ?thesis using True by (simp add: handle_new_file_creation_def)
next
  case False
  obtain fs' e where w: "fs_write FS fs (ee_path env) (si_new_string input) = (fs', e)"
    by (cases "fs_write FS fs (ee_path env) (si_new_string input)")
  show ?thesis
  proof (cases e)
    case None
    then show ?thesis
      using False w by (auto simp: handle_new_file_creation_def created_file_def Let_def split: sum.splits)
  next
    case (Some err)
    then have "without_effect FS (ee_path env) fs (answer fs' out)" if "\<not> is_edit (Inr out)" for out
      using w that by (intro without_effect_intros(3)) simp_all
    then show ?thesis using False w Some by (auto simp: handle_new_file_creation_def Let_def)
  qed
qed

lemma run_cases:
  "(si_old_string input \<noteq> [] \<and> performed FS env input fs (run_search_replace FS env input legacy fs))
   \<or> (si_old_string input = [] \<and> created_file FS env input fs (run_search_replace FS env input legacy fs))
   \<or> without_effect FS (ee_path env) fs (run_search_replace FS env input legacy fs)"
proof -
  have "\<not> is_edit (Inr err)" if "validate_path_length p = Some err" for p err
    using that by (auto simp: validate_path_length_def)
  then show ?thesis
    using handle_replacement_cases[of FS env input fs legacy]
      handle_new_file_cases[of FS env input fs "case ee_params env of Some p \<Rightarrow> empty_old_string_does_not_override p | None \<Rightarrow> False"]
    by (auto simp: run_search_replace_def without_effect_intros split: option.split)
qed

lemma run_total: "\<exists>fs' ns r. run_search_replace FS env input legacy fs = Some (fs', ns, r)"
  using run_cases[of input FS env fs legacy] by (auto simp: performed_def created_file_def without_effect_def)

lemma downgrade_cases:
  "\<exists>r'. downgrade_structured_errors env p (fs, ns, r) = Some (fs, ns, r')
     \<and> ((\<exists>e. r' = Inl e) \<or> is_edit r' = is_edit r \<and> (is_edit r \<longrightarrow> r' = r))"
  by (cases r) (auto simp: downgrade_structured_errors_def is_edit_def split: sum.split search_replace_output.split)

lemma run_edit:
  "search_replace FS env input legacy fs = Some (fs', ns, Inr (EditsApplied ea)) \<Longrightarrow>
     run_search_replace FS env input legacy fs = Some (fs', ns, Inr (EditsApplied ea))"
proof -
  assume a: "search_replace FS env input legacy fs = Some (fs', ns, Inr (EditsApplied ea))"
  obtain f n r where run: "run_search_replace FS env input legacy fs = Some (f, n, r)" using run_total by metis
  obtain r' where "downgrade_structured_errors env (si_file_path input) (f, n, r) = Some (f, n, r')"
    "(\<exists>e. r' = Inl e) \<or> is_edit r' = is_edit r \<and> (is_edit r \<longrightarrow> r' = r)"
    using downgrade_cases by metis
  with a run show ?thesis by (auto simp: search_replace_def is_edit_def split: if_splits)
qed

subsection \<open>Line ends\<close>

lemma replace2_skip: "c \<noteq> a \<Longrightarrow> replace2 a b t (c # s) = c # replace2 a b t s"
  by (cases s) auto

lemma to_newlines_crlf: "CHR 0x0D \<notin> set t \<Longrightarrow> to_newlines (to_crlf t) = t"
  by (induction t) (auto simp: to_newlines_def to_crlf_def replace2_skip)

lemma to_newlines_id: "CHR 0x0D \<notin> set t \<Longrightarrow> to_newlines t = t"
  by (induction t) (auto simp: to_newlines_def replace2_skip)

lemma has_crlf_no_cr: "CHR 0x0D \<notin> set t \<Longrightarrow> \<not> has_crlf t"
  by (auto simp: has_crlf_def contains_iff)

lemma has_crlf_to_crlf: "newline \<in> set t \<Longrightarrow> has_crlf (to_crlf t)"
proof -
  assume "newline \<in> set t"
  then obtain a b where "t = a @ newline # b" by (auto simp: in_set_conv_decomp)
  then have "to_crlf t = to_crlf a @ [CHR 0x0D, newline] @ to_crlf b" by (simp add: to_crlf_def)
  then show ?thesis unfolding has_crlf_def contains_iff by blast
qed

lemma to_crlf_id: "newline \<notin> set t \<Longrightarrow> to_crlf t = t"
  by (induction t) (auto simp: to_crlf_def)

subsection \<open>Properties\<close>

text \<open>C24: A reported edit is the edit asked for. On a file system that keeps its contract (LocalFs on an operating
  system with the documented behaviour, MockFs), a call with an old string that answers with applied edits has changed one file. Its
  text is decoded, every sequence that is not UTF-8 becoming a replacement character, and read with newlines where
  it has a CRLF. In that text the old string occurs n times without overlap - or, where the answer says so, it does
  not occur and n spans equal it up to confusables, namely all spans of normalised occurrences that cut through no
  replaced character - and n is 1 unless all were asked for. The new text has the new string in place of all n (as
  str::replace puts it) and the same pieces around them. It is written back with CRLF at every line end where
  the file had a CRLF anywhere, so mixed line ends and broken sequences elsewhere in the file do not survive
  (\<open>edit_rewrites_other_bytes\<close>). One notification carries the new and the former text.\<close>

theorem search_replace_edits_only_matches:
  assumes "lawful_files FS file_of contents" "si_old_string input \<noteq> []"
    and "search_replace FS env input legacy fs = Some (fs', ns, Inr (EditsApplied ea))"
  shows "\<exists>c t' n. contents fs (file_of (ee_path env)) = Some c
    \<and> exact_edit (ea_unicode_normalized ea) (si_old_string input) (si_new_string input) (match_text_of (utf8_lossy c)) t' n
    \<and> (if si_replace_all input then 1 \<le> n else n = 1)
    \<and> contents fs' = (contents fs)(file_of (ee_path env) \<mapsto> write_text_of (utf8_lossy c) t')
    \<and> ns = [written (ee_path env) (write_text_of (utf8_lossy c) t') (Some (utf8_lossy c)) False]"
proof -
  note run = run_edit[OF assms(3)]
  have "performed FS env input fs (run_search_replace FS env input legacy fs)"
    using run_cases[of input FS env fs legacy] assms(2) run by (auto simp: without_effect_def is_edit_def)
  then obtain c n t' where p: "fs_read FS fs (ee_path env) = Inr c"
      "exact_edit (ea_unicode_normalized ea) (si_old_string input) (si_new_string input) (match_text_of (utf8_lossy c)) t' n"
      "0 < n" "si_replace_all input \<or> n = 1"
      "fs_write FS fs (ee_path env) (write_text_of (utf8_lossy c) t') = (fs', None)"
      "ns = [written (ee_path env) (write_text_of (utf8_lossy c) t') (Some (utf8_lossy c)) False]"
    unfolding run performed_def by auto
  from lawful_files.read_law[OF assms(1) p(1)] lawful_files.write_law[OF assms(1) p(5)] p show ?thesis
    by (intro exI[of _ c] exI[of _ t'] exI[of _ n]) auto
qed

text \<open>Everything else leaves the file alone. The tool never panics; an answer without applied edits, or a tool
  error, comes without a notification and with the files as they were, unless the file system itself failed
  during the write - except that the legacy wording may turn an edit already carried out into a tool
  error.\<close>

theorem search_replace_otherwise_quiet:
  "case search_replace FS env input legacy fs of
     None \<Rightarrow> False
   | Some (fs', ns, r) \<Rightarrow>
       if is_edit r then length ns = 1
       else (ns = [] \<and> (fs' = fs \<or> write_attempted FS (ee_path env) fs fs')) \<or> (legacy \<and> isl r \<and> length ns = 1)"
proof -
  obtain f n r where run: "run_search_replace FS env input legacy fs = Some (f, n, r)" using run_total by metis
  have c: "if is_edit r then length n = 1 else n = [] \<and> (f = fs \<or> write_attempted FS (ee_path env) fs f)"
    using run_cases[of input FS env fs legacy] unfolding run
    by (auto simp: performed_def created_file_def without_effect_def is_edit_def created_def)
  obtain r' where d: "downgrade_structured_errors env (si_file_path input) (f, n, r) = Some (f, n, r')"
    "(\<exists>e. r' = Inl e) \<or> is_edit r' = is_edit r \<and> (is_edit r \<longrightarrow> r' = r)"
    using downgrade_cases by metis
  have "\<not> is_edit (Inl e)" for e by simp
  then show ?thesis
    using c d run by (cases legacy; cases "is_edit r") (auto simp: search_replace_def)
qed

text \<open>Line ends survive an edit where they are uniform: a file with newlines only is matched and written as it is,
  and a file whose line ends are all CRLF is matched as its text with newlines and written back with the
  line ends restored, so the edit of the one is the image of the edit of the other.\<close>

theorem uniform_line_ends_kept:
  assumes "CHR 0x0D \<notin> set t" "CHR 0x0D \<notin> set t'" "newline \<in> set t"
  shows "match_text_of t = t \<and> write_text_of t t' = t'
    \<and> match_text_of (to_crlf t) = t \<and> write_text_of (to_crlf t) t' = to_crlf t'"
  using assms
  by (simp add: match_text_of_def write_text_of_def has_crlf_no_cr has_crlf_to_crlf to_newlines_crlf to_newlines_id)

theorem uniform_line_ends_kept_witness:
  "match_text_of (to_crlf [CHR ''a'', newline]) = [CHR ''a'', newline]
   \<and> write_text_of (to_crlf [CHR ''a'', newline]) [CHR ''b'', newline] = to_crlf [CHR ''b'', newline]"
  using uniform_line_ends_kept[of "[CHR ''a'', newline]" "[CHR ''b'', newline]"] by simp

subsection \<open>Examples\<close>

definition plain_edit_env :: edit_env where
  "plain_edit_env =
     \<lparr>ee_path = ''f'', ee_is_dir = False, ee_ignored = False, ee_params = None, ee_render = Inr, ee_not_found = [],
      ee_python = None, ee_sed = None\<rparr>"

definition replace_input :: "str \<Rightarrow> str \<Rightarrow> bool \<Rightarrow> search_replace_input" where
  "replace_input old new all =
     \<lparr>si_file_path = ''f'', si_old_string = old, si_new_string = new, si_replace_all = all\<rparr>"

lemma match_from_eval:
  "match_from off (p # ps) [] = []"
  "match_from off (p # ps) (c # s) =
     (if starts_with (c # s) (p # ps)
      then off # match_from (off + length (p # ps)) (p # ps) (drop (length ps) s)
      else match_from (off + 1) (p # ps) s)"
  by (subst match_from.simps, simp)+

lemma replace_all_eval:
  "replace_all (p # ps) t [] = []"
  "replace_all (p # ps) t (c # s) =
     (if starts_with (c # s) (p # ps) then t @ replace_all (p # ps) t (drop (length ps) s)
      else c # replace_all (p # ps) t s)"
  by (subst replace_all.simps, simp)+

lemma ascii_bytes: "list_all (\<lambda>c. byte_in c 0 0x7F) s \<Longrightarrow> utf8_lossy s = s"
proof -
  assume "list_all (\<lambda>c. byte_in c 0 0x7F) s"
  then have "list_all fst (utf8_units s)" by (induction s) simp_all
  then show ?thesis using utf8_lossy_id by (simp add: is_utf8_def)
qed

lemma short_path: "validate_path_length ''f'' = None"
  by (simp add: validate_path_length_def path_components_def NAME_MAX_def)

lemma f_components: "path_components ''f'' = [''f'']"
  by (simp add: path_components_def)

lemmas edit_evals = f_components search_replace_def run_search_replace_def handle_replacement_def plain_edit_env_def replace_input_def
  mock_fs_def match_indices_def match_from_eval replace_using_positions_def range_opt_def slice_def short_path
  write_edit_def match_text_of_def write_text_of_def build_edit_details_def edit_detail_at_def render_snippet_def
  compute_line_range_def count_newlines_def lines_inclusive_def CONTEXT_LINES_def line_prefix_def answer_def Let_def

text \<open>The bytes the examples write.\<close>

definition mixed_lines :: str where
  "mixed_lines = ''a'' @ [CHR 0x0D, newline] @ ''b'' @ [newline]"

lemma mixed_utf8: "utf8_lossy mixed_lines = mixed_lines"
  by (rule ascii_bytes) (simp add: mixed_lines_def byte_in_def)

lemma latin_utf8: "utf8_lossy [CHR 0xFF, CHR ''a''] = replacement_char @ ''a''"
proof -
  have "utf8_units [CHR 0xFF, CHR ''a''] = [(False, [CHR 0xFF]), (True, ''a'')]"
    by (subst utf8_units.simps) (simp add: byte_in_def second_byte_def)
  then show ?thesis by (simp add: utf8_lossy_def)
qed

text \<open>Two ways in which a successful edit changes what it was not asked to change. A file with both kinds of line
  ends is written back with CRLF throughout; and a byte that is not UTF-8, anywhere in the file, is replaced
  by the replacement character.\<close>

theorem edit_rewrites_other_bytes:
  "(\<exists>ns ea. search_replace mock_fs plain_edit_env (replace_input ''a'' ''c'' False) False [[''f''] \<mapsto> mixed_lines]
     = Some ([[''f''] \<mapsto> ''c'' @ [CHR 0x0D, newline] @ ''b'' @ [CHR 0x0D, newline]], ns, Inr (EditsApplied ea)))
   \<and> (\<exists>ns ea. search_replace mock_fs plain_edit_env (replace_input ''a'' ''b'' False) False
        [[''f''] \<mapsto> [CHR 0xFF, CHR ''a'']]
      = Some ([[''f''] \<mapsto> replacement_char @ ''b''], ns, Inr (EditsApplied ea)))"
proof
  show "\<exists>ns ea. search_replace mock_fs plain_edit_env (replace_input ''a'' ''c'' False) False [[''f''] \<mapsto> mixed_lines]
     = Some ([[''f''] \<mapsto> ''c'' @ [CHR 0x0D, newline] @ ''b'' @ [CHR 0x0D, newline]], ns, Inr (EditsApplied ea))"
    by (simp add: edit_evals mixed_utf8) (simp add: mixed_lines_def has_crlf_def to_newlines_def to_crlf_def edit_evals)
  show "\<exists>ns ea. search_replace mock_fs plain_edit_env (replace_input ''a'' ''b'' False) False
      [[''f''] \<mapsto> [CHR 0xFF, CHR ''a'']] = Some ([[''f''] \<mapsto> replacement_char @ ''b''], ns, Inr (EditsApplied ea))"
    by (simp add: edit_evals latin_utf8) (simp add: replacement_char_def has_crlf_def edit_evals)
qed

lemma small_texts: "utf8_lossy ''a'' = ''a''" "utf8_lossy ''aaa'' = ''aaa''"
  "utf8_lossy [CHR ''a'', newline, CHR ''a''] = [CHR ''a'', newline, CHR ''a'']"
  by (rule ascii_bytes, simp add: byte_in_def)+

text \<open>Three reports that are not what they say. A file whose text is replaced as a whole is announced as new,
  without its former text; the line an edit had in the original file is counted in the edited one; and a
  string that occurs at two overlapping places is taken to occur once.\<close>

theorem edit_reports_mislead:
  "(\<exists>ea. search_replace mock_fs plain_edit_env (replace_input [] ''c'' False) False [[''f''] \<mapsto> ''a'']
      = Some ([[''f''] \<mapsto> ''c''], [written ''f'' ''c'' None True], Inr (EditsApplied ea)))
   \<and> (\<exists>fs' ns ea. search_replace mock_fs plain_edit_env (replace_input ''a'' [CHR ''b'', newline, CHR ''b''] True) False
        [[''f''] \<mapsto> [CHR ''a'', newline, CHR ''a'']] = Some (fs', ns, Inr (EditsApplied ea))
      \<and> map ed_old_line (ea_details ea) = [1, 3])
   \<and> (\<exists>ns ea. search_replace mock_fs plain_edit_env (replace_input ''aa'' ''b'' False) False [[''f''] \<mapsto> ''aaa'']
      = Some ([[''f''] \<mapsto> ''ba''], ns, Inr (EditsApplied ea)))"
proof (intro conjI)
  show "\<exists>ea. search_replace mock_fs plain_edit_env (replace_input [] ''c'' False) False [[''f''] \<mapsto> ''a'']
      = Some ([[''f''] \<mapsto> ''c''], [written ''f'' ''c'' None True], Inr (EditsApplied ea))"
    by (simp add: edit_evals handle_new_file_creation_def created_def)
  show "\<exists>fs' ns ea. search_replace mock_fs plain_edit_env (replace_input ''a'' [CHR ''b'', newline, CHR ''b''] True) False
        [[''f''] \<mapsto> [CHR ''a'', newline, CHR ''a'']] = Some (fs', ns, Inr (EditsApplied ea))
      \<and> map ed_old_line (ea_details ea) = [1, 3]"
    by (simp add: edit_evals small_texts has_crlf_def)
  show "\<exists>ns ea. search_replace mock_fs plain_edit_env (replace_input ''aa'' ''b'' False) False [[''f''] \<mapsto> ''aaa'']
      = Some ([[''f''] \<mapsto> ''ba''], ns, Inr (EditsApplied ea))"
    by (simp add: edit_evals small_texts has_crlf_def)
qed

theorem search_replace_edits_only_matches_witness:
  "\<exists>fs' ns ea. search_replace mock_fs plain_edit_env (replace_input ''a'' ''b'' True) False [[''f''] \<mapsto> ''aaa'']
      = Some (fs', ns, Inr (EditsApplied ea)) \<and> fs' = [[''f''] \<mapsto> ''bbb'']"
proof -
  obtain fs' ns ea where r: "search_replace mock_fs plain_edit_env (replace_input ''a'' ''b'' True) False [[''f''] \<mapsto> ''aaa'']
      = Some (fs', ns, Inr (EditsApplied ea))" "\<not> ea_unicode_normalized ea"
    by (simp add: edit_evals small_texts has_crlf_def)
  have "si_old_string (replace_input ''a'' ''b'' True) \<noteq> []" by (simp add: replace_input_def)
  from search_replace_edits_only_matches[OF mock.lawful_files_axioms this r(1)] r(2)
  have "fs' = [[''f''] \<mapsto> ''bbb'']"
    by (auto simp: exact_edit_def replace_input_def plain_edit_env_def f_components small_texts match_text_of_def
        write_text_of_def has_crlf_def replace_all_eval)
  with r show ?thesis by (intro exI conjI)
qed

text \<open>Under the legacy wording an edit that was carried out can be answered with a tool error.\<close>

lemma legacy_error_after_edit:
  "search_replace mock_fs (plain_edit_env\<lparr>ee_render := \<lambda>_. Inl ''no renderer''\<rparr>) (replace_input ''aa'' ''b'' False) True
      [[''f''] \<mapsto> ''aaa''] = Some ([[''f''] \<mapsto> ''ba''], [written ''f'' ''ba'' (Some ''aaa'') False], Inl ''no renderer'')"
  by (simp add: edit_evals small_texts has_crlf_def downgrade_structured_errors_def)

end
