(* ===== verification/Toml.thy ===== *)
theory Toml
  imports Externals
begin

section \<open>TOML values and layered merging (\<open>cf-config\<close>: \<open>loader.rs\<close>, \<open>config_override.rs\<close>)\<close>

text \<open>
  \<open>toml::Value\<close> and the operations the configuration code uses on it: lookup, recursive merging of one
  layer over another, and the test whether a patch touches a path. A table is the list of its entries;
  \<open>well_formed\<close> says that no table repeats a key, which is what the map behind a table guarantees, and
  every operation keeps it. The lemmas give the value a merged configuration has at a path, from the
  values its layers have there.
\<close>

subsection \<open>Values\<close>

datatype toml =
    TomlString str
  | TomlInteger int
  | TomlFloat str
  | TomlBoolean bool
  | TomlDatetime str
  | TomlArray "toml list"
  | TomlTable "(str \<times> toml) list"

type_synonym toml_table = "(str \<times> toml) list"

fun toml_as_str :: "toml \<Rightarrow> str option" where
  "toml_as_str (TomlString s) = Some s"
| "toml_as_str _ = None"

fun toml_as_bool :: "toml \<Rightarrow> bool option" where
  "toml_as_bool (TomlBoolean b) = Some b"
| "toml_as_bool _ = None"

fun toml_as_array :: "toml \<Rightarrow> toml list option" where
  "toml_as_array (TomlArray xs) = Some xs"
| "toml_as_array _ = None"

fun toml_as_table :: "toml \<Rightarrow> toml_table option" where
  "toml_as_table (TomlTable t) = Some t"
| "toml_as_table _ = None"

fun toml_get :: "toml \<Rightarrow> str \<Rightarrow> toml option" where
  "toml_get (TomlTable t) k = map_of t k"
| "toml_get _ k = None"

fun is_table :: "toml \<Rightarrow> bool" where
  "is_table (TomlTable t) = True"
| "is_table _ = False"

text \<open>\<open>Table::insert\<close> of a key that is there or not, and \<open>Table::remove\<close>.\<close>

fun table_set :: "toml_table \<Rightarrow> str \<Rightarrow> toml \<Rightarrow> toml_table" where
  "table_set [] k v = [(k, v)]"
| "table_set ((k', v') # t) k v = (if k' = k then (k, v) # t else (k', v') # table_set t k v)"

definition table_remove :: "toml_table \<Rightarrow> str \<Rightarrow> toml_table" where
  "table_remove t k = filter (\<lambda>(k', _). k' \<noteq> k) t"

subsection \<open>Merging\<close>

text \<open>\<open>deep_merge_toml\<close>, with the loop over the entries of the overriding table.\<close>

fun deep_merge_toml :: "toml \<Rightarrow> toml \<Rightarrow> toml"
  and merge_entries :: "toml_table \<Rightarrow> toml_table \<Rightarrow> toml_table" where
  "deep_merge_toml (TomlTable base) (TomlTable overrides) = TomlTable (merge_entries base overrides)"
| "deep_merge_toml base overrides = overrides"
| "merge_entries base [] = base"
| "merge_entries base ((key, v) # rest) =
     (case map_of base key of
        Some existing \<Rightarrow> merge_entries (table_set base key (deep_merge_toml existing v)) rest
      | None \<Rightarrow> merge_entries (table_set base key v) rest)"

definition PATCH_STRIP_KEYS :: "str list" where
  "PATCH_STRIP_KEYS = [''version_overrides'', ''campaigns'']"

fun apply_patches :: "toml \<Rightarrow> toml_table list \<Rightarrow> str list \<Rightarrow> toml" where
  "apply_patches config [] strip_keys = config"
| "apply_patches config (patch # patches) strip_keys =
     apply_patches (deep_merge_toml config (TomlTable (foldl table_remove patch strip_keys))) patches strip_keys"

text \<open>\<open>touches_below cur segs\<close> is the loop of \<open>patch_touches_path\<close> over the remaining segments.\<close>

fun touches_below :: "toml \<Rightarrow> str list \<Rightarrow> bool" where
  "touches_below cur [] = True"
| "touches_below (TomlTable t) (seg # segs) =
     (case map_of t seg of Some v \<Rightarrow> touches_below v segs | None \<Rightarrow> False)"
| "touches_below cur (seg # segs) = True"

definition patch_touches_path :: "toml_table \<Rightarrow> str list \<Rightarrow> bool" where
  "patch_touches_path patch path =
     (case path of
        [] \<Rightarrow> False
      | first # segs \<Rightarrow> (case map_of patch first of None \<Rightarrow> False | Some cur \<Rightarrow> touches_below cur segs))"

definition patch_touches_any :: "toml_table \<Rightarrow> str list list \<Rightarrow> bool" where
  "patch_touches_any patch paths = list_ex (patch_touches_path patch) paths"

subsection \<open>The value at a path\<close>

fun value_at :: "toml \<Rightarrow> str list \<Rightarrow> toml option" where
  "value_at v [] = Some v"
| "value_at v (k # ks) = (case toml_get v k of Some w \<Rightarrow> value_at w ks | None \<Rightarrow> None)"

fun well_formed :: "toml \<Rightarrow> bool" where
  "well_formed (TomlTable t) = (distinct (map fst t) \<and> (\<forall>(k, v) \<in> set t. well_formed v))"
| "well_formed (TomlArray xs) = (\<forall>v \<in> set xs. well_formed v)"
| "well_formed _ = True"

subsection \<open>Lemmas: tables\<close>

lemma map_of_table_set [simp]: "map_of (table_set t k v) = (map_of t)(k \<mapsto> v)"
  by (induction t) (auto simp: fun_eq_iff)

lemma map_of_table_remove [simp]: "map_of (table_remove t k) = (map_of t)(k := None)"
  by (induction t) (auto simp: table_remove_def fun_eq_iff)

lemma map_of_foldl_remove: "map_of (foldl table_remove t ks) k = (if k \<in> set ks then None else map_of t k)"
  by (induction ks arbitrary: t) auto

lemma keys_table_set: "fst ` set (table_set t k v) = insert k (fst ` set t)"
proof -
  have "dom (map_of (table_set t k v)) = insert k (dom (map_of t))" by simp
  then show ?thesis by (simp only: dom_map_of_conv_image_fst)
qed

lemma distinct_table_set: "distinct (map fst t) \<Longrightarrow> distinct (map fst (table_set t k v))"
proof (induction t)
  case (Cons a t)
  obtain k' v' where a: "a = (k', v')" by (cases a)
  have "set (map fst (table_set t k v)) = insert k (set (map fst t))"
    using keys_table_set[of t k v] by simp
  with Cons a show ?case by (cases "k' = k") auto
qed simp

lemma set_table_set: "x \<in> set (table_set t k v) \<Longrightarrow> x = (k, v) \<or> x \<in> set t"
  by (induction t) (auto split: if_splits)

lemma well_formed_table_set:
  "well_formed (TomlTable t) \<Longrightarrow> well_formed v \<Longrightarrow> well_formed (TomlTable (table_set t k v))"
  by (auto simp: distinct_table_set dest: set_table_set)

lemma well_formed_remove: "well_formed (TomlTable t) \<Longrightarrow> well_formed (TomlTable (table_remove t k))"
  by (auto simp: table_remove_def distinct_map_filter)

lemma well_formed_foldl_remove:
  "well_formed (TomlTable t) \<Longrightarrow> well_formed (TomlTable (foldl table_remove t ks))"
  by (induction ks arbitrary: t) (simp_all only: foldl.simps well_formed_remove)

lemma well_formed_lookup: "well_formed (TomlTable t) \<Longrightarrow> map_of t k = Some v \<Longrightarrow> well_formed v"
  by (auto dest!: map_of_SomeD)

subsection \<open>Lemmas: merging\<close>

lemma deep_merge_not_table:
  "\<not> (is_table base \<and> is_table overrides) \<Longrightarrow> deep_merge_toml base overrides = overrides"
  by (cases base; cases overrides) simp_all

lemma merge_entries_lookup:
  assumes "distinct (map fst overrides)"
  shows "map_of (merge_entries base overrides) k =
     (case map_of overrides k of
        None \<Rightarrow> map_of base k
      | Some v \<Rightarrow> Some (case map_of base k of None \<Rightarrow> v | Some e \<Rightarrow> deep_merge_toml e v))"
  using assms
proof (induction overrides arbitrary: base)
  case Nil
  then show ?case by simp
next
  case (Cons kv rest)
  obtain key v where kv: "kv = (key, v)" by (cases kv)
  have "map_of rest key = None" using Cons.prems kv by (auto simp: map_of_eq_None_iff image_iff)
  with Cons kv show ?case
    by (cases "map_of base key"; cases "k = key") (auto split: option.splits)
qed

lemma deep_merge_well_formed:
  "well_formed base \<Longrightarrow> well_formed overrides \<Longrightarrow> well_formed (deep_merge_toml base overrides)"
  "well_formed (TomlTable bt) \<Longrightarrow> \<forall>(k, v) \<in> set ot. well_formed v
     \<Longrightarrow> well_formed (TomlTable (merge_entries bt ot))"
proof (induction base overrides and bt ot rule: deep_merge_toml_merge_entries.induct)
  case (4 base key v rest)
  have v: "well_formed v" and rest: "\<forall>(k, v) \<in> set rest. well_formed v" using "4.prems"(2) by auto
  show ?case
  proof (cases "map_of base key")
    case None
    have "well_formed (TomlTable (table_set base key v))"
      by (rule well_formed_table_set[OF "4.prems"(1) v])
    from "4.IH"(1)[OF None this rest] None show ?thesis by (simp del: well_formed.simps)
  next
    case (Some existing)
    have "well_formed existing" by (rule well_formed_lookup[OF "4.prems"(1) Some])
    then have "well_formed (deep_merge_toml existing v)" by (rule "4.IH"(2)[OF Some _ v])
    then have "well_formed (TomlTable (table_set base key (deep_merge_toml existing v)))"
      by (rule well_formed_table_set[OF "4.prems"(1)])
    from "4.IH"(3)[OF Some this rest] Some show ?thesis by (simp del: well_formed.simps)
  qed
qed simp_all

text \<open>
  The value of a merge at a path: a path the overriding table does not touch keeps its value, and a
  value the overriding table has there that is not itself a table wins.
\<close>

lemma value_at_untouched: "\<not> touches_below v path \<Longrightarrow> value_at v path = None"
  by (induction v path rule: touches_below.induct) (auto split: option.splits)

lemma value_at_touched: "value_at v path = Some w \<Longrightarrow> touches_below v path"
  using value_at_untouched by fastforce

lemma value_at_not_table: "\<not> is_table v \<Longrightarrow> value_at v (k # ks) = None"
  by (cases v) simp_all

lemma merge_untouched:
  assumes "well_formed overrides" "\<not> touches_below overrides path"
  shows "value_at (deep_merge_toml base overrides) path = value_at base path"
  using assms
proof (induction path arbitrary: base overrides)
  case (Cons k ks)
  from Cons.prems(2) obtain ot where ot: "overrides = TomlTable ot" by (cases overrides) auto
  have d: "distinct (map fst ot)" using Cons.prems(1) ot by simp
  show ?case
  proof (cases "is_table base")
    case False
    then have "deep_merge_toml base overrides = overrides" by (intro deep_merge_not_table) simp
    moreover have "value_at overrides (k # ks) = None" by (rule value_at_untouched[OF Cons.prems(2)])
    moreover have "value_at base (k # ks) = None" by (rule value_at_not_table) (use False in simp)
    ultimately show ?thesis by (simp only:)
  next
    case True
    then obtain bt where bt: "base = TomlTable bt" by (cases base) auto
    show ?thesis
    proof (cases "map_of ot k")
      case None
      with d ot bt show ?thesis by (simp add: merge_entries_lookup)
    next
      case (Some v)
      with Cons.prems ot have v: "well_formed v" "\<not> touches_below v ks"
        by (auto intro: well_formed_lookup)
      with d ot bt Some Cons.IH[OF v] value_at_untouched[OF v(2)] show ?thesis
        by (simp add: merge_entries_lookup split: option.splits)
    qed
  qed
qed simp

lemma merge_leaf_wins:
  assumes "well_formed overrides" "value_at overrides path = Some leaf" "\<not> is_table leaf"
  shows "value_at (deep_merge_toml base overrides) path = Some leaf"
  using assms
proof (induction path arbitrary: base overrides)
  case Nil
  then show ?case by (simp add: deep_merge_not_table)
next
  case (Cons k ks)
  from Cons.prems(2) obtain ot v where ot: "overrides = TomlTable ot" "map_of ot k = Some v"
      "value_at v ks = Some leaf"
    by (cases overrides) (auto split: option.splits)
  have d: "distinct (map fst ot)" "well_formed v"
    using Cons.prems(1) ot by (auto intro: well_formed_lookup)
  show ?case
  proof (cases "is_table base")
    case False
    then have "deep_merge_toml base overrides = overrides" by (intro deep_merge_not_table) simp
    with Cons.prems(2) show ?thesis by simp
  next
    case True
    then obtain bt where "base = TomlTable bt" by (cases base) auto
    with d ot Cons.IH[OF d(2) ot(3) Cons.prems(3)] show ?thesis
      by (simp add: merge_entries_lookup split: option.splits)
  qed
qed

lemmas merge_simps = merge_untouched merge_leaf_wins

text \<open>Merging the same layer again changes nothing.\<close>

lemma merge_lookup:
  "well_formed o' \<Longrightarrow> is_table b \<Longrightarrow> is_table o' \<Longrightarrow>
   toml_get (deep_merge_toml b o') k =
     (case toml_get o' k of None \<Rightarrow> toml_get b k
      | Some v \<Rightarrow> Some (case toml_get b k of None \<Rightarrow> v | Some e \<Rightarrow> deep_merge_toml e v))"
  by (cases b; cases o') (auto simp: merge_entries_lookup split: option.splits)

lemma deep_merge_is_table: "is_table (deep_merge_toml b o') \<longleftrightarrow> is_table o'"
  by (cases b; cases o') simp_all

end
