(* ===== verification/Config_Host.thy ===== *)
theory Config_Host
  imports Toml File_System
begin

section \<open>The host as the configuration code sees it (\<open>cf-config\<close>: \<open>paths.rs\<close>, \<open>lib.rs\<close>)\<close>

text \<open>
  A \<open>Path\<close> is the list of its components, the leading \<open>/\<close> included: Rust compares paths, finds parents and
  tests prefixes by components. The record \<open>host\<close> stands for what is outside the repository: the process
  environment, the home directories, the files, the git library, the parsers of TOML and of semantic
  versions, \<open>shellexpand\<close>, \<open>base64\<close> and the macOS preferences. Versions are of any linearly ordered type.
\<close>

subsection \<open>Paths\<close>

type_synonym path = "str list"

definition path_is_absolute :: "path \<Rightarrow> bool" where
  "path_is_absolute p = (p \<noteq> [] \<and> hd p = ''/'')"

definition path_parent :: "path \<Rightarrow> path option" where
  "path_parent p = (if p = [] \<or> last p = ''/'' then None else Some (butlast p))"

text \<open>\<open>dir.join(name)\<close> for a plain file name.\<close>

definition path_join :: "path \<Rightarrow> str \<Rightarrow> path" where
  "path_join dir name = dir @ [name]"

fun path_display :: "path \<Rightarrow> str" where
  "path_display (c # cs) = (if c = ''/'' then ''/'' @ join ''/'' cs else join ''/'' (c # cs))"
| "path_display [] = []"

lemma path_parent_shorter: "path_parent p = Some q \<Longrightarrow> length q < length p"
  by (auto simp: path_parent_def split: if_splits)

lemma path_parent_prefix: "path_parent p = Some q \<Longrightarrow> prefix q p"
  by (auto simp: path_parent_def split: if_splits intro: prefixI[of _ _ "[last p]"])

subsection \<open>The host\<close>

record toml_error =
  te_span :: "(nat \<times> nat) option"
  te_message :: str

record 'v host =
  env_var :: "str \<Rightarrow> str option"
  std_home_dir :: "path option"
  dirs_home_dir :: "path option"
  h_canonicalize :: "path \<Rightarrow> path option"
  read_to_string :: "path \<Rightarrow> io_error + str"
  path_exists :: "path \<Rightarrow> bool"
  is_file :: "path \<Rightarrow> bool"
  is_dir :: "path \<Rightarrow> bool"
  git_workdir :: "path \<Rightarrow> path option"
  toml_from_str :: "str \<Rightarrow> toml_error + toml"
  expand_env_vars_in_string :: "str \<Rightarrow> str"
  parse_version :: "str \<Rightarrow> 'v option"
  zero_version :: 'v
  compiled_version :: str
  base64_decode :: "str \<Rightarrow> str option"
  read_forced_requirements :: "str option"

subsection \<open>Locations\<close>

definition default_grok_home :: "'v host \<Rightarrow> path" where
  "default_grok_home H =
     (let home = (case std_home_dir H of Some p \<Rightarrow> p | None \<Rightarrow> [''.''])
      in path_join (case h_canonicalize H home of Some p \<Rightarrow> p | None \<Rightarrow> home) ''.qidi'')"

definition grok_home :: "'v host \<Rightarrow> path" where
  "grok_home H =
     (case env_var H ''QIDI_HOME'' of Some v \<Rightarrow> path_components v | None \<Rightarrow> default_grok_home H)"

definition user_grok_home :: "'v host \<Rightarrow> path option" where
  "user_grok_home H =
     (if env_var H ''QIDI_HOME'' \<noteq> None \<or> std_home_dir H \<noteq> None then Some (grok_home H) else None)"

definition system_config_dir :: "'v host \<Rightarrow> path option" where
  "system_config_dir H =
     (let qidi = [''/'', ''etc'', ''qidi'']
      in if path_exists H qidi then Some qidi else Some [''/'', ''etc'', ''grok''])"

definition claude_managed_settings_path :: "'v host \<Rightarrow> path option" where
  "claude_managed_settings_path H =
     (let path = [''/'', ''etc'', ''claude-code'', ''managed-settings.json'']
      in if path_exists H path then Some path else None)"

subsection \<open>Environment switches\<close>

definition env_bool :: "'v host \<Rightarrow> str \<Rightarrow> bool option" where
  "env_bool H name =
     (case env_var H name of
        None \<Rightarrow> None
      | Some value \<Rightarrow>
          (let v = to_ascii_lowercase (trim value)
           in if v \<in> {''1'', ''true'', ''yes'', ''on'', ''enabled''} then Some True
              else if v \<in> {''0'', ''false'', ''no'', ''off'', ''disabled''} then Some False
              else None))"

definition installed :: "'v host \<Rightarrow> str" where
  "installed H =
     (case env_var H ''QIDI_TEST_VERSION'' of Some v \<Rightarrow> trim v | None \<Rightarrow> compiled_version H)"

definition installed_semver :: "'v host \<Rightarrow> 'v option" where
  "installed_semver H = parse_version H (installed H)"

subsection \<open>Reading TOML (\<open>loader.rs\<close>)\<close>

text \<open>\<open>line_col src byte\<close>: the loop over the characters before a byte offset, with its two counters.\<close>

fun line_col_from :: "nat \<Rightarrow> str \<Rightarrow> nat \<Rightarrow> nat \<Rightarrow> nat \<Rightarrow> nat \<times> nat" where
  "line_col_from i [] byte line col = (line, col)"
| "line_col_from i (c # cs) byte line col =
     (if starts_char c then
        (if byte \<le> i then (line, col)
         else if c = newline then line_col_from (i + 1) cs byte (line + 1) 1
         else line_col_from (i + 1) cs byte line (col + 1))
      else line_col_from (i + 1) cs byte line col)"

definition line_col :: "str \<Rightarrow> nat \<Rightarrow> nat \<times> nat" where
  "line_col src byte = line_col_from 0 src byte 1 1"

definition toml_error_detail :: "str \<Rightarrow> toml_error \<Rightarrow> str" where
  "toml_error_detail src e =
     (case te_span e of
        Some (start, _) \<Rightarrow>
          (let (line, col) = line_col src start
           in ''TOML parse error at line '' @ show_nat line @ '', column '' @ show_nat col @ '': '' @ te_message e)
      | None \<Rightarrow> te_message e)"

fun expand_env_vars_in_toml :: "'v host \<Rightarrow> toml \<Rightarrow> toml" where
  "expand_env_vars_in_toml H (TomlString s) = TomlString (expand_env_vars_in_string H s)"
| "expand_env_vars_in_toml H (TomlArray items) = TomlArray (map (expand_env_vars_in_toml H) items)"
| "expand_env_vars_in_toml H (TomlTable t) =
     TomlTable (map (\<lambda>(k, item). (k, expand_env_vars_in_toml H item)) t)"
| "expand_env_vars_in_toml H v = v"

definition load_toml_file :: "'v host \<Rightarrow> path \<Rightarrow> io_error + toml" where
  "load_toml_file H path =
     (case read_to_string H path of
        Inr s \<Rightarrow>
          (case toml_from_str H s of
             Inr v \<Rightarrow> Inr (expand_env_vars_in_toml H v)
           | Inl e \<Rightarrow> Inl \<lparr>io_message = toml_error_detail s e, io_kind = OtherKind\<rparr>)
      | Inl e \<Rightarrow> if io_kind e = NotFound then Inr (TomlTable []) else Inl e)"

text \<open>\<open>decode_managed_toml\<close>: the payload an administrator forces is used without expansion.\<close>

definition is_ascii_whitespace :: "char \<Rightarrow> bool" where
  "is_ascii_whitespace c = (c \<in> {CHR 0x20, CHR 0x09, CHR 0x0A, CHR 0x0C, CHR 0x0D})"

definition decode_managed_toml :: "'v host \<Rightarrow> str \<Rightarrow> toml option" where
  "decode_managed_toml H encoded =
     (case base64_decode H (filter (\<lambda>c. \<not> is_ascii_whitespace c) encoded) of
        None \<Rightarrow> None
      | Some decoded \<Rightarrow>
          if \<not> is_utf8 decoded then None
          else (case toml_from_str H decoded of
                  Inl _ \<Rightarrow> None
                | Inr v \<Rightarrow>
                    (case toml_as_table v of
                       Some t \<Rightarrow> if t \<noteq> [] then Some v else None
                     | None \<Rightarrow> None)))"

definition managed_preferences_requirements :: "'v host \<Rightarrow> toml option" where
  "managed_preferences_requirements H =
     (case read_forced_requirements H of None \<Rightarrow> None | Some s \<Rightarrow> decode_managed_toml H s)"

subsection \<open>Lemmas\<close>

lemma fst_map_value [simp]: "fst \<circ> (\<lambda>(k, item). (k, f item)) = fst"
  by auto

lemma expand_well_formed: "well_formed v \<Longrightarrow> well_formed (expand_env_vars_in_toml H v)"
proof (induction v)
  case (TomlTable t)
  have "\<forall>(k, w) \<in> set t. well_formed (expand_env_vars_in_toml H w)" using TomlTable by fastforce
  with TomlTable.prems show ?case by (auto simp: fst_map_value)
qed auto

text \<open>
  A \<open>QIDI_HOME\<close> that is set but empty makes the user's home the empty path, so that every user file is
  looked up relative to the working directory.
\<close>

lemma empty_home_is_working_directory:
  "env_var H ''QIDI_HOME'' = Some [] \<Longrightarrow> user_grok_home H = Some []"
  by (simp add: user_grok_home_def grok_home_def path_components_def)

text \<open>A host on which concrete examples evaluate: a map of files, no environment, versions are numbers.\<close>

definition example_host :: "(path \<Rightarrow> str option) \<Rightarrow> (str \<Rightarrow> toml option) \<Rightarrow> nat host" where
  "example_host files parser =
     \<lparr>env_var = (\<lambda>_. None), std_home_dir = Some [''/'', ''home'', ''u''],
      dirs_home_dir = Some [''/'', ''home'', ''u''], h_canonicalize = Some,
      read_to_string = (\<lambda>p. case files p of Some s \<Rightarrow> Inr s
                         | None \<Rightarrow> Inl \<lparr>io_message = ''not found'', io_kind = NotFound\<rparr>),
      path_exists = (\<lambda>p. files p \<noteq> None), is_file = (\<lambda>p. files p \<noteq> None),
      is_dir = (\<lambda>_. False), git_workdir = (\<lambda>_. None),
      toml_from_str = (\<lambda>s. case parser s of Some v \<Rightarrow> Inr v
                        | None \<Rightarrow> Inl \<lparr>te_span = None, te_message = ''syntax error''\<rparr>),
      expand_env_vars_in_string = (\<lambda>s. s), parse_version = (\<lambda>s. if s = ''2'' then Some 2 else if s = ''1'' then Some 1 else None),
      zero_version = 0, compiled_version = ''1'', base64_decode = Some, read_forced_requirements = None\<rparr>"

end
