(* ===== verification/Config_Layers.thy ===== *)
theory Config_Layers
  imports Config_Host
begin

section \<open>Layered configuration (\<open>cf-config\<close>: \<open>loader.rs\<close>, \<open>campaigns.rs\<close>, \<open>version_overrides.rs\<close>, \<open>validation.rs\<close>)\<close>

text \<open>
  How the effective configuration is built: every layer applies the \<open>[[version_overrides]]\<close> that fit the
  installed version, gives up its \<open>[[campaigns]]\<close>, and is merged over the layers below it; the campaigns
  that are active are merged over the result, and the requirements of the administrator over everything.
  The lemmas read off what the result has at a path.
\<close>

subsection \<open>Arrays of patches (\<open>config_override.rs\<close>)\<close>

text \<open>
  \<open>read\<close> splits an entry of the array into its own fields and the patch, as the flattened \<open>serde\<close> struct
  does; it fails where a field has the wrong type, and one failure fails the array.
\<close>

fun read_patch_entry :: "(toml_table \<Rightarrow> ('m \<times> toml_table) option) \<Rightarrow> toml \<Rightarrow> ('m \<times> toml_table) option" where
  "read_patch_entry read (TomlTable t) = read t"
| "read_patch_entry read _ = None"

fun read_patch_entries :: "(toml_table \<Rightarrow> ('m \<times> toml_table) option) \<Rightarrow> toml \<Rightarrow> ('m \<times> toml_table) list option" where
  "read_patch_entries read (TomlArray xs) = those (map (read_patch_entry read) xs)"
| "read_patch_entries read _ = None"

definition take_patch_array :: "(toml_table \<Rightarrow> ('m \<times> toml_table) option) \<Rightarrow> toml \<Rightarrow> str
    \<Rightarrow> toml \<times> ('m \<times> toml_table) list option" where
  "take_patch_array read config key =
     (case toml_as_table config of
        None \<Rightarrow> (config, Some [])
      | Some t \<Rightarrow>
          (case map_of t key of
             None \<Rightarrow> (config, Some [])
           | Some array_value \<Rightarrow> (TomlTable (table_remove t key), read_patch_entries read array_value)))"

definition string_field :: "toml_table \<Rightarrow> str \<Rightarrow> str option option" where
  "string_field t k =
     (case map_of t k of None \<Rightarrow> Some None | Some v \<Rightarrow> map_option Some (toml_as_str v))"

subsection \<open>Version overrides (\<open>version_overrides.rs\<close>)\<close>

record version_override_meta =
  minimum_version :: "str option"
  maximum_version :: "str option"

datatype version_override_error =
    Deserialize
  | InvalidMinimumVersion nat str
  | InvalidMaximumVersion nat str

definition read_version_override :: "toml_table \<Rightarrow> (version_override_meta \<times> toml_table) option" where
  "read_version_override t =
     (case (string_field t ''minimum_version'', string_field t ''maximum_version'') of
        (Some mn, Some mx) \<Rightarrow>
          Some (\<lparr>minimum_version = mn, maximum_version = mx\<rparr>,
                table_remove (table_remove t ''minimum_version'') ''maximum_version'')
      | _ \<Rightarrow> None)"

definition version_bounds :: "'v host \<Rightarrow> nat \<Rightarrow> version_override_meta \<Rightarrow> version_override_error + 'v \<times> 'v option" where
  "version_bounds H index m =
     (case (case minimum_version m of
              None \<Rightarrow> Inr (zero_version H)
            | Some s \<Rightarrow> (case parse_version H (trim s) of Some v \<Rightarrow> Inr v | None \<Rightarrow> Inl (InvalidMinimumVersion index s))) of
        Inl e \<Rightarrow> Inl e
      | Inr min_v \<Rightarrow>
          (case maximum_version m of
             None \<Rightarrow> Inr (min_v, None)
           | Some s \<Rightarrow> (case parse_version H (trim s) of Some v \<Rightarrow> Inr (min_v, Some v)
                        | None \<Rightarrow> Inl (InvalidMaximumVersion index s))))"

fun parse_bounds :: "'v host \<Rightarrow> nat \<Rightarrow> (version_override_meta \<times> toml_table) list
    \<Rightarrow> version_override_error + ('v \<times> 'v option \<times> toml_table) list" where
  "parse_bounds H index [] = Inr []"
| "parse_bounds H index ((m, patch) # entries) =
     (case version_bounds H index m of
        Inl e \<Rightarrow> Inl e
      | Inr (min_v, max_v) \<Rightarrow>
          (case parse_bounds H (index + 1) entries of
             Inl e \<Rightarrow> Inl e
           | Inr parsed \<Rightarrow> Inr ((min_v, max_v, patch) # parsed)))"

definition in_range :: "'v::linorder \<Rightarrow> 'v \<times> 'v option \<times> toml_table \<Rightarrow> bool" where
  "in_range version e =
     (case e of (min_v, max_v, patch) \<Rightarrow> min_v \<le> version \<and> (case max_v of Some m \<Rightarrow> version \<le> m | None \<Rightarrow> True))"

definition patches_for :: "'v::linorder \<Rightarrow> ('v \<times> 'v option \<times> toml_table) list \<Rightarrow> toml_table list" where
  "patches_for version parsed = map (snd \<circ> snd) (filter (in_range version) (sort_key fst parsed))"

text \<open>The configuration is returned with the section stripped, and patched where there is no error.\<close>

definition apply_version_overrides ::
    "'v::linorder host \<Rightarrow> toml \<Rightarrow> 'v \<Rightarrow> toml \<times> version_override_error option" where
  "apply_version_overrides H config version =
     (case take_patch_array read_version_override config ''version_overrides'' of
        (config, None) \<Rightarrow> (config, Some Deserialize)
      | (config, Some entries) \<Rightarrow>
          (case parse_bounds H 0 entries of
             Inl e \<Rightarrow> (config, Some e)
           | Inr parsed \<Rightarrow> (apply_patches config (patches_for version parsed) PATCH_STRIP_KEYS, None)))"

definition apply_version_overrides_with_registered ::
    "'v::linorder host \<Rightarrow> toml \<Rightarrow> toml \<times> version_override_error option" where
  "apply_version_overrides_with_registered H v =
     (case installed_semver H of
        Some version \<Rightarrow> apply_version_overrides H v version
      | None \<Rightarrow> (case toml_as_table v of Some t \<Rightarrow> (TomlTable (table_remove t ''version_overrides''), None)
                 | None \<Rightarrow> (v, None)))"

text \<open>An error of \<open>load_config_file\<close>: the file's, or of its overrides.\<close>

definition load_config_file :: "'v::linorder host \<Rightarrow> path \<Rightarrow> (io_error + version_override_error) + toml" where
  "load_config_file H path =
     (case load_toml_file H path of
        Inl e \<Rightarrow> Inl (Inl e)
      | Inr v \<Rightarrow> (case apply_version_overrides_with_registered H v of
                    (v', None) \<Rightarrow> Inr v' | (v', Some e) \<Rightarrow> Inl (Inr e)))"

subsection \<open>Campaigns (\<open>campaigns.rs\<close>)\<close>

record campaign_entry =
  campaign_id :: str
  campaign_patch :: toml_table

text \<open>The identifier may be spelled in two ways; both at once is a duplicate field.\<close>

definition read_campaign :: "toml_table \<Rightarrow> (str option \<times> toml_table) option" where
  "read_campaign t =
     (case (string_field t ''id'', string_field t ''campaign_id'') of
        (Some i, Some j) \<Rightarrow>
          if i \<noteq> None \<and> j \<noteq> None then None
          else Some (if i \<noteq> None then i else j, table_remove (table_remove t ''id'') ''campaign_id'')
      | _ \<Rightarrow> None)"

definition take_campaigns :: "toml \<Rightarrow> toml \<times> (str option \<times> toml_table) list" where
  "take_campaigns config =
     (case take_patch_array read_campaign config ''campaigns'' of
        (config, Some entries) \<Rightarrow> (config, entries)
      | (config, None) \<Rightarrow> (config, []))"

definition build_campaign_entries :: "(str option \<times> toml_table) list \<Rightarrow> campaign_entry list" where
  "build_campaign_entries taken =
     List.map_filter (\<lambda>(i, patch).
        case i of
          None \<Rightarrow> None
        | Some i \<Rightarrow> if trim i = [] \<or> patch = [] then None
                    else Some \<lparr>campaign_id = trim i, campaign_patch = patch\<rparr>) taken"

definition take_campaign_entries :: "toml \<Rightarrow> toml \<times> campaign_entry list" where
  "take_campaign_entries config = map_prod id build_campaign_entries (take_campaigns config)"

fun merge_campaign_loop :: "str list \<Rightarrow> campaign_entry list \<Rightarrow> campaign_entry list" where
  "merge_campaign_loop seen [] = []"
| "merge_campaign_loop seen (e # es) =
     (if campaign_id e \<in> set seen then merge_campaign_loop seen es
      else e # merge_campaign_loop (campaign_id e # seen) es)"

definition merge_campaign_entries :: "campaign_entry list list \<Rightarrow> campaign_entry list" where
  "merge_campaign_entries sources = merge_campaign_loop [] (concat sources)"

definition filter_active_campaigns :: "campaign_entry list \<Rightarrow> str list \<Rightarrow> campaign_entry list" where
  "filter_active_campaigns merged dismissed_ids = filter (\<lambda>e. campaign_id e \<notin> set dismissed_ids) merged"

definition ids_touching_paths :: "campaign_entry list \<Rightarrow> str list list \<Rightarrow> str list" where
  "ids_touching_paths active paths =
     map campaign_id (filter (\<lambda>e. patch_touches_any (campaign_patch e) paths) active)"

definition apply_active_campaign_patches :: "toml \<Rightarrow> campaign_entry list \<Rightarrow> toml" where
  "apply_active_campaign_patches effective active =
     apply_patches effective (map campaign_patch (rev active)) PATCH_STRIP_KEYS"

subsection \<open>Requirements (\<open>validation.rs\<close>)\<close>

definition FAIL_CLOSED_KEY :: str where "FAIL_CLOSED_KEY = ''fail_closed''"

definition fail_closed_flag :: "toml \<Rightarrow> bool" where
  "fail_closed_flag requirements =
     (case toml_get requirements FAIL_CLOSED_KEY of
        Some v \<Rightarrow> (case toml_as_bool v of Some b \<Rightarrow> b | None \<Rightarrow> False)
      | None \<Rightarrow> False)"

datatype requirements_source = File path | Mdm

definition MDM_REQUIREMENTS_SOURCE :: str where
  "MDM_REQUIREMENTS_SOURCE = ''ai.x.grok:requirements_toml_base64''"

fun label :: "requirements_source \<Rightarrow> str" where
  "label (File p) = path_display p"
| "label Mdm = MDM_REQUIREMENTS_SOURCE"

record requirements_layer =
  rl_value :: toml
  rl_source :: requirements_source
  rl_is_system :: bool

definition normalize_requirements_value :: "'v::linorder host \<Rightarrow> toml \<Rightarrow> toml option" where
  "normalize_requirements_value H v =
     (case apply_version_overrides_with_registered H
             (case toml_as_table v of Some t \<Rightarrow> TomlTable (table_remove t FAIL_CLOSED_KEY) | None \<Rightarrow> v) of
        (v', None) \<Rightarrow> Some v'
      | (v', Some e) \<Rightarrow> None)"

definition load_requirements_layer :: "'v::linorder host \<Rightarrow> path \<Rightarrow> toml option" where
  "load_requirements_layer H path =
     (case load_toml_file H path of
        Inl e \<Rightarrow> None
      | Inr v \<Rightarrow> (case toml_as_table v of
                    Some t \<Rightarrow> if t \<noteq> [] then normalize_requirements_value H v else None
                  | None \<Rightarrow> None))"

definition mdm_requirements_value :: "'v::linorder host \<Rightarrow> toml option" where
  "mdm_requirements_value H = Option.bind (managed_preferences_requirements H) (normalize_requirements_value H)"

definition load_requirements :: "'v::linorder host \<Rightarrow> toml option" where
  "load_requirements H =
     Option.bind (user_grok_home H) (\<lambda>home. load_requirements_layer H (path_join home ''requirements.toml''))"

definition load_system_requirements :: "'v::linorder host \<Rightarrow> toml option" where
  "load_system_requirements H =
     Option.bind (system_config_dir H) (\<lambda>dir. load_requirements_layer H (path_join dir ''requirements.toml''))"

definition requirements_layers :: "'v::linorder host \<Rightarrow> requirements_layer list" where
  "requirements_layers H =
     (case user_grok_home H of
        Some g \<Rightarrow>
          (let user_path = path_join g ''requirements.toml''
           in case load_requirements_layer H user_path of
                Some v \<Rightarrow> [\<lparr>rl_value = v, rl_source = File user_path, rl_is_system = False\<rparr>]
              | None \<Rightarrow> [])
      | None \<Rightarrow> [])
     @ (case system_config_dir H of
          Some dir \<Rightarrow>
            (let sys_path = path_join dir ''requirements.toml''
             in case load_requirements_layer H sys_path of
                  Some v \<Rightarrow> [\<lparr>rl_value = v, rl_source = File sys_path, rl_is_system = True\<rparr>]
                | None \<Rightarrow> [])
        | None \<Rightarrow> [])
     @ (case mdm_requirements_value H of
          Some v \<Rightarrow> [\<lparr>rl_value = v, rl_source = Mdm, rl_is_system = True\<rparr>]
        | None \<Rightarrow> [])"

definition load_merged_requirements :: "'v::linorder host \<Rightarrow> toml option" where
  "load_merged_requirements H =
     (case requirements_layers H of
        [] \<Rightarrow> None
      | layer # rest \<Rightarrow> Some (foldl (\<lambda>merged l. deep_merge_toml merged (rl_value l)) (rl_value layer) rest))"

definition resolve_fail_closed_mode :: "'v host \<Rightarrow> toml \<Rightarrow> bool" where
  "resolve_fail_closed_mode H requirements =
     (fail_closed_flag requirements \<or> env_bool H ''QIDI_MANAGED_CONFIG_FAIL_CLOSED'' = Some True)"

text \<open>The error names the layer and carries the override's error; \<open>None\<close> is \<open>Ok(())\<close>.\<close>

definition validate_requirements_value :: "'v::linorder host \<Rightarrow> toml \<Rightarrow> requirements_source
    \<Rightarrow> (str \<times> version_override_error) option" where
  "validate_requirements_value H v source =
     (if (case toml_as_table v of Some t \<Rightarrow> t = [] | None \<Rightarrow> True) then None
      else (case installed_semver H of
              None \<Rightarrow> None
            | Some version \<Rightarrow>
                (case snd (apply_version_overrides H v version) of
                   Some e \<Rightarrow> if resolve_fail_closed_mode H v then Some (label source, e) else None
                 | None \<Rightarrow> None)))"

definition validate_requirements_layer ::
    "'v::linorder host \<Rightarrow> path \<Rightarrow> (str \<times> version_override_error) option" where
  "validate_requirements_layer H path =
     (case load_toml_file H path of
        Inl e \<Rightarrow> None
      | Inr v \<Rightarrow> validate_requirements_value H v (File path))"

definition validate_requirements :: "'v::linorder host \<Rightarrow> (str \<times> version_override_error) option" where
  "validate_requirements H =
     (case Option.bind (user_grok_home H) (\<lambda>g. validate_requirements_layer H (path_join g ''requirements.toml'')) of
        Some e \<Rightarrow> Some e
      | None \<Rightarrow>
          (case Option.bind (system_config_dir H)
                  (\<lambda>dir. validate_requirements_layer H (path_join dir ''requirements.toml'')) of
             Some e \<Rightarrow> Some e
           | None \<Rightarrow> (case managed_preferences_requirements H of
                        Some mdm \<Rightarrow> validate_requirements_value H mdm Mdm
                      | None \<Rightarrow> None)))"

end
