(* ===== verification/Config_Merge.thy ===== *)
theory Config_Merge
  imports Config_Layers
begin

section \<open>The effective configuration (\<open>cf-config\<close>: \<open>loader.rs\<close>)\<close>

text \<open>
  The layers in memory, their loading, the merge and the campaign overlay; then what the effective
  configuration has at a path: requirements above everything, campaigns by priority above the layers, and
  a table whose sections for overrides and campaigns are gone.
\<close>

record campaign_overrides =
  co_requirements :: "campaign_entry list"
  co_user :: "campaign_entry list"
  co_managed :: "campaign_entry list"
  co_system_managed :: "campaign_entry list"

record config_layers =
  cl_system_managed :: toml
  cl_managed :: toml
  cl_user :: toml
  cl_user_requirements :: "toml option"
  cl_system_requirements :: "toml option"
  cl_mdm_requirements :: "toml option"
  cl_campaigns :: campaign_overrides

definition MANAGED_CONFIG_FILENAME :: str where
  "MANAGED_CONFIG_FILENAME = ''managed_config.toml''"

definition load_user_config_layer ::
    "'v::linorder host \<Rightarrow> path option \<Rightarrow> str \<Rightarrow> (io_error + version_override_error) + toml" where
  "load_user_config_layer H home filename =
     (case home of Some g \<Rightarrow> load_config_file H (path_join g filename) | None \<Rightarrow> Inr (TomlTable []))"

definition load_from_disk :: "'v::linorder host \<Rightarrow> (io_error + version_override_error) + toml" where
  "load_from_disk H = load_user_config_layer H (user_grok_home H) ''config.toml''"

definition load_managed_config :: "'v::linorder host \<Rightarrow> (io_error + version_override_error) + toml" where
  "load_managed_config H = load_user_config_layer H (user_grok_home H) MANAGED_CONFIG_FILENAME"

definition load_system_managed_config :: "'v::linorder host \<Rightarrow> (io_error + version_override_error) + toml" where
  "load_system_managed_config H =
     (case (case system_config_dir H of
              Some dir \<Rightarrow> load_toml_file H (path_join dir MANAGED_CONFIG_FILENAME)
            | None \<Rightarrow> Inr (TomlTable [])) of
        Inl e \<Rightarrow> Inl (Inl e)
      | Inr v \<Rightarrow> (case apply_version_overrides_with_registered H v of
                    (v', None) \<Rightarrow> Inr v' | (v', Some e) \<Rightarrow> Inl (Inr e)))"

record managed_config_layer =
  mcl_value :: toml
  mcl_path :: path
  mcl_is_system :: bool

definition managed_config_layers_at ::
    "'v::linorder host \<Rightarrow> path option \<Rightarrow> path option \<Rightarrow> managed_config_layer list" where
  "managed_config_layers_at H system_dir user_home =
     List.map_filter (\<lambda>(dir, is_system).
        case map_option (\<lambda>d. path_join d MANAGED_CONFIG_FILENAME) dir of
          None \<Rightarrow> None
        | Some path \<Rightarrow>
            if \<not> is_file H path then None
            else (case load_config_file H path of
                    Inr v \<Rightarrow> Some \<lparr>mcl_value = v, mcl_path = path, mcl_is_system = is_system\<rparr>
                  | Inl e \<Rightarrow> None))
       [(system_dir, True), (user_home, False)]"

definition managed_config_layers :: "'v::linorder host \<Rightarrow> managed_config_layer list" where
  "managed_config_layers H = managed_config_layers_at H (system_config_dir H) (user_grok_home H)"

subsection \<open>Loading the layers (\<open>ConfigLayers::load\<close>)\<close>

definition take_requirements_campaigns :: "toml option \<Rightarrow> toml option \<times> campaign_entry list" where
  "take_requirements_campaigns req =
     (case req of
        Some v \<Rightarrow> (case take_campaign_entries v of (v', es) \<Rightarrow> (Some v', es))
      | None \<Rightarrow> (None, []))"

definition load_layers :: "'v::linorder host \<Rightarrow> (io_error + version_override_error) + config_layers" where
  "load_layers H =
     (case load_system_managed_config H of
        Inl e \<Rightarrow> Inl e
      | Inr system_managed0 \<Rightarrow>
     (case load_managed_config H of
        Inl e \<Rightarrow> Inl e
      | Inr managed0 \<Rightarrow>
     (case load_from_disk H of
        Inl e \<Rightarrow> Inl e
      | Inr user0 \<Rightarrow>
     (let (system_managed, system_managed_campaigns) = take_campaign_entries system_managed0;
          (managed, managed_campaigns) = take_campaign_entries managed0;
          (user, user_campaigns) = take_campaign_entries user0;
          (mdm_requirements, mdm_campaigns) = take_requirements_campaigns (mdm_requirements_value H);
          (system_requirements, system_campaigns) = take_requirements_campaigns (load_system_requirements H);
          (user_requirements, user_req_campaigns) = take_requirements_campaigns (load_requirements H)
      in Inr \<lparr>cl_system_managed = system_managed, cl_managed = managed, cl_user = user,
              cl_user_requirements = user_requirements, cl_system_requirements = system_requirements,
              cl_mdm_requirements = mdm_requirements,
              cl_campaigns = \<lparr>co_requirements = mdm_campaigns @ system_campaigns @ user_req_campaigns,
                              co_user = user_campaigns, co_managed = managed_campaigns,
                              co_system_managed = system_managed_campaigns\<rparr>\<rparr>))))"

subsection \<open>Merging the layers\<close>

definition merge_option :: "toml \<Rightarrow> toml option \<Rightarrow> toml" where
  "merge_option merged layer =
     (case layer of Some req \<Rightarrow> deep_merge_toml merged req | None \<Rightarrow> merged)"

definition effective_config_base :: "config_layers \<Rightarrow> toml" where
  "effective_config_base L =
     (let merged = deep_merge_toml (cl_system_managed L) (cl_managed L);
          merged = deep_merge_toml merged (cl_user L);
          merged = merge_option merged (cl_user_requirements L);
          merged = merge_option merged (cl_system_requirements L)
      in merge_option merged (cl_mdm_requirements L))"

definition campaign_source_slices :: "config_layers \<Rightarrow> campaign_entry list \<Rightarrow> campaign_entry list list" where
  "campaign_source_slices L remote_campaigns =
     [co_requirements (cl_campaigns L), remote_campaigns, co_user (cl_campaigns L),
      co_managed (cl_campaigns L), co_system_managed (cl_campaigns L)]"

definition campaigns_application_disabled :: "'v host \<Rightarrow> toml \<Rightarrow> bool" where
  "campaigns_application_disabled H base_effective =
     (if env_bool H ''QIDI_CAMPAIGNS'' = Some False then True
      else Option.bind (Option.bind (toml_get base_effective ''features'') (\<lambda>f. toml_get f ''campaigns''))
             toml_as_bool = Some False)"

definition resolve_campaigns ::
    "'v host \<Rightarrow> config_layers \<Rightarrow> toml \<Rightarrow> campaign_entry list \<Rightarrow> str list \<Rightarrow> campaign_entry list" where
  "resolve_campaigns H L base remote_campaigns dismissed_ids =
     (if campaigns_application_disabled H base then []
      else filter_active_campaigns (merge_campaign_entries (campaign_source_slices L remote_campaigns)) dismissed_ids)"

definition reapply_requirements :: "config_layers \<Rightarrow> toml \<Rightarrow> toml" where
  "reapply_requirements L merged =
     foldl deep_merge_toml merged
       (List.map_filter id [cl_user_requirements L, cl_system_requirements L, cl_mdm_requirements L])"

definition apply_campaign_overrides :: "config_layers \<Rightarrow> toml \<Rightarrow> campaign_entry list \<Rightarrow> toml" where
  "apply_campaign_overrides L merged active =
     reapply_requirements L (apply_active_campaign_patches merged active)"

definition effective_config_with_campaigns ::
    "'v host \<Rightarrow> config_layers \<Rightarrow> campaign_entry list \<Rightarrow> str list \<Rightarrow> toml" where
  "effective_config_with_campaigns H L remote_campaigns dismissed_ids =
     (let merged = effective_config_base L;
          active = resolve_campaigns H L merged remote_campaigns dismissed_ids
      in apply_campaign_overrides L merged active)"

text \<open>The identifiers the user dismissed: a file that is missing or does not parse dismisses nothing.\<close>

fun strings_of_json :: "json \<Rightarrow> str list option" where
  "strings_of_json (JArr xs) = those (map json_as_str xs)"
| "strings_of_json _ = None"

fun read_campaigns_state :: "json \<Rightarrow> str list option" where
  "read_campaigns_state (JObj kvs) =
     (case map_of kvs ''dismissed_ids'' of None \<Rightarrow> Some [] | Some v \<Rightarrow> strings_of_json v)"
| "read_campaigns_state (JArr []) = Some []"
| "read_campaigns_state (JArr [v]) = strings_of_json v"
| "read_campaigns_state _ = None"

definition load_dismissed_ids_from_home :: "externals \<Rightarrow> 'v host \<Rightarrow> str list" where
  "load_dismissed_ids_from_home E H =
     (case user_grok_home H of
        None \<Rightarrow> []
      | Some home \<Rightarrow>
          (case read_to_string H (path_join home ''campaigns_state.json'') of
             Inl _ \<Rightarrow> []
           | Inr contents \<Rightarrow>
               (case Option.bind (json_from_str E contents) read_campaigns_state of
                  Some ids \<Rightarrow> ids | None \<Rightarrow> [])))"

definition effective_config_disk_only :: "externals \<Rightarrow> 'v host \<Rightarrow> config_layers \<Rightarrow> toml" where
  "effective_config_disk_only E H L =
     effective_config_with_campaigns H L [] (load_dismissed_ids_from_home E H)"

definition load_effective_config_disk_only ::
    "externals \<Rightarrow> 'v::linorder host \<Rightarrow> (io_error + version_override_error) + toml" where
  "load_effective_config_disk_only E H = map_sum id (effective_config_disk_only E H) (load_layers H)"

definition non_empty_table :: "toml \<Rightarrow> bool" where
  "non_empty_table v = (case toml_as_table v of Some t \<Rightarrow> t \<noteq> [] | None \<Rightarrow> False)"

definition has_managed :: "config_layers \<Rightarrow> bool" where
  "has_managed L = (non_empty_table (cl_managed L) \<or> non_empty_table (cl_system_managed L))"

definition has_system_managed :: "config_layers \<Rightarrow> bool" where
  "has_system_managed L = non_empty_table (cl_system_managed L)"

subsection \<open>Lemmas: layers of patches\<close>

text \<open>The merge of a list of layers: the last one that touches a path decides.\<close>

lemma merge_layers_untouched:
  "\<forall>o' \<in> set ls. well_formed o' \<and> \<not> touches_below o' path
     \<Longrightarrow> value_at (foldl deep_merge_toml base ls) path = value_at base path"
  by (induction ls arbitrary: base) (simp_all add: merge_untouched)

lemma merge_layers_last_wins:
  assumes "well_formed l" "value_at l path = Some leaf" "\<not> is_table leaf"
    and "\<forall>o' \<in> set upper. well_formed o' \<and> \<not> touches_below o' path"
  shows "value_at (foldl deep_merge_toml base (lower @ l # upper)) path = Some leaf"
  using assms by (simp add: merge_layers_untouched merge_leaf_wins)

lemma merge_layers_well_formed:
  "well_formed base \<Longrightarrow> \<forall>l \<in> set ls. well_formed l \<Longrightarrow> well_formed (foldl deep_merge_toml base ls)"
  by (induction ls arbitrary: base) (simp_all add: deep_merge_well_formed(1))

lemma merge_layers_is_table:
  "is_table base \<Longrightarrow> \<forall>l \<in> set ls. is_table l \<Longrightarrow> is_table (foldl deep_merge_toml base ls)"
  by (induction ls arbitrary: base) (simp_all add: deep_merge_is_table)

definition stripped :: "toml_table \<Rightarrow> toml" where
  "stripped patch = TomlTable (foldl table_remove patch PATCH_STRIP_KEYS)"

lemma apply_patches_fold:
  "apply_patches config patches PATCH_STRIP_KEYS = foldl deep_merge_toml config (map stripped patches)"
  by (induction patches arbitrary: config) (simp_all add: stripped_def)

lemma stripped_well_formed: "well_formed (TomlTable patch) \<Longrightarrow> well_formed (stripped patch)"
  unfolding stripped_def by (rule well_formed_foldl_remove)

lemma stripped_lookup:
  "toml_get (stripped patch) k = (if k \<in> set PATCH_STRIP_KEYS then None else map_of patch k)"
  by (simp add: stripped_def map_of_foldl_remove)

text \<open>A patch without its reserved sections touches the same paths as the patch, those sections apart.\<close>

lemma stripped_touches: "k \<notin> set PATCH_STRIP_KEYS \<Longrightarrow>
    touches_below (stripped patch) (k # ks) = patch_touches_path patch (k # ks)"
  by (simp add: stripped_def patch_touches_path_def map_of_foldl_remove)

lemma stripped_touches_section: "k \<in> set PATCH_STRIP_KEYS \<Longrightarrow> \<not> touches_below (stripped patch) (k # ks)"
  by (simp add: stripped_def map_of_foldl_remove)

lemma stripped_value: "k \<notin> set PATCH_STRIP_KEYS \<Longrightarrow>
    value_at (stripped patch) (k # ks) = value_at (TomlTable patch) (k # ks)"
  by (simp add: stripped_def map_of_foldl_remove)

definition requirement_values :: "config_layers \<Rightarrow> toml list" where
  "requirement_values L =
     List.map_filter id [cl_user_requirements L, cl_system_requirements L, cl_mdm_requirements L]"

lemma effective_base_fold:
  "effective_config_base L =
     foldl deep_merge_toml (cl_system_managed L) ([cl_managed L, cl_user L] @ requirement_values L)"
  by (cases "cl_user_requirements L"; cases "cl_system_requirements L"; cases "cl_mdm_requirements L")
    (simp_all add: effective_config_base_def Let_def merge_option_def requirement_values_def map_filter_simps)

lemma effective_fold:
  "effective_config_with_campaigns H L remote dismissed =
     foldl deep_merge_toml (effective_config_base L)
       (map stripped (map campaign_patch (rev (resolve_campaigns H L (effective_config_base L) remote dismissed)))
        @ requirement_values L)"
  by (simp add: effective_config_with_campaigns_def Let_def apply_campaign_overrides_def reapply_requirements_def
      apply_active_campaign_patches_def apply_patches_fold requirement_values_def)

end
