(* ===== verification/Config_Props.thy ===== *)
theory Config_Props
  imports Config_Merge
begin

section \<open>What the effective configuration promises\<close>

text \<open>
  Requirements are above every campaign, campaigns act by priority and only where they touch, version
  overrides fail before they patch, the result is a well-formed table without the sections the loader
  consumed, and a layer that asks to fail closed is enforced when start-up validation passes.
\<close>

subsection \<open>Lemmas: campaigns\<close>

lemma merge_loop_mem:
  "e \<in> set (merge_campaign_loop seen es) \<longleftrightarrow>
     campaign_id e \<notin> set seen \<and> find (\<lambda>x. campaign_id x = campaign_id e) es = Some e"
  by (induction es arbitrary: seen) auto

lemma merge_loop_distinct: "distinct (map campaign_id (merge_campaign_loop seen es))"
  by (induction es arbitrary: seen) (auto simp: merge_loop_mem)

lemma resolve_mem:
  "e \<in> set (resolve_campaigns H L base remote dismissed) \<longleftrightarrow>
     \<not> campaigns_application_disabled H base
     \<and> find (\<lambda>x. campaign_id x = campaign_id e) (concat (campaign_source_slices L remote)) = Some e
     \<and> campaign_id e \<notin> set dismissed"
  by (auto simp: resolve_campaigns_def filter_active_campaigns_def merge_campaign_entries_def merge_loop_mem)

subsection \<open>Lemmas: sections and well-formedness of a layer\<close>

definition sections_gone :: "toml \<Rightarrow> bool" where
  "sections_gone v = (\<forall>k \<in> set PATCH_STRIP_KEYS. toml_get v k = None)"

definition clean_layer :: "toml \<Rightarrow> bool" where
  "clean_layer v = (is_table v \<and> well_formed v \<and> sections_gone v)"

lemma clean_layer_merge: "clean_layer a \<Longrightarrow> clean_layer b \<Longrightarrow> clean_layer (deep_merge_toml a b)"
  by (simp add: clean_layer_def sections_gone_def deep_merge_is_table deep_merge_well_formed(1) merge_lookup)

lemma clean_layer_fold: "clean_layer b \<Longrightarrow> \<forall>l \<in> set ls. clean_layer l \<Longrightarrow> clean_layer (foldl deep_merge_toml b ls)"
  by (induction ls arbitrary: b) (simp_all add: clean_layer_merge)

lemma clean_layer_stripped: "well_formed (TomlTable patch) \<Longrightarrow> clean_layer (stripped patch)"
  by (simp add: clean_layer_def sections_gone_def stripped_lookup stripped_well_formed)
    (simp add: stripped_def)

definition wf_patches :: "(toml_table \<Rightarrow> ('m \<times> toml_table) option) \<Rightarrow> bool" where
  "wf_patches read =
     (\<forall>t m p. read t = Some (m, p) \<longrightarrow> well_formed (TomlTable t) \<longrightarrow> well_formed (TomlTable p))"

lemma wf_patches_readers: "wf_patches read_version_override" "wf_patches read_campaign"
  unfolding wf_patches_def read_version_override_def read_campaign_def
  by (auto simp del: well_formed.simps intro!: well_formed_remove split: option.splits if_splits)

lemma those_mem: "those os = Some xs \<Longrightarrow> x \<in> set xs \<Longrightarrow> Some x \<in> set os"
  by (induction os arbitrary: xs) (auto split: option.splits)

lemma take_patch_array_clean:
  assumes "take_patch_array read config key = (config', r)" "is_table config" "well_formed config" "wf_patches read"
  shows "is_table config'" "well_formed config'" "toml_get config' key = None"
    "toml_get config k = None \<Longrightarrow> toml_get config' k = None"
    "r = Some entries \<Longrightarrow> (m, p) \<in> set entries \<Longrightarrow> well_formed (TomlTable p)"
proof -
  obtain t where t: "config = TomlTable t" using assms(2) by (cases config) auto
  show "is_table config'" "toml_get config' key = None" "toml_get config k = None \<Longrightarrow> toml_get config' k = None"
    using assms(1) t by (auto simp: take_patch_array_def split: option.splits if_splits)
  show "well_formed config'"
    using assms(1,3) t by (auto simp: take_patch_array_def simp del: well_formed.simps intro: well_formed_remove
        split: option.splits)
  assume r: "r = Some entries" and mem: "(m, p) \<in> set entries"
  show "well_formed (TomlTable p)"
  proof (cases "map_of t key")
    case None
    with assms(1) t r mem show ?thesis by (simp add: take_patch_array_def)
  next
    case (Some v)
    with assms(1) t r have e: "read_patch_entries read v = Some entries" by (simp add: take_patch_array_def)
    then obtain xs where xs: "v = TomlArray xs" "those (map (read_patch_entry read) xs) = Some entries"
      by (cases v) auto
    from those_mem[OF xs(2) mem] obtain x where x: "x \<in> set xs" "read_patch_entry read x = Some (m, p)" by auto
    from x(2) obtain et where et: "x = TomlTable et" "read et = Some (m, p)" by (cases x) auto
    have "well_formed v" using Some assms(3) t by (auto intro: well_formed_lookup)
    with xs x(1) et(1) have "well_formed (TomlTable et)" by (auto simp del: well_formed.simps(1))
    with assms(4) et(2) show ?thesis unfolding wf_patches_def by metis
  qed
qed

lemma parse_bounds_patches:
  "parse_bounds H i entries = Inr parsed \<Longrightarrow> map (snd \<circ> snd) parsed = map snd entries"
  by (induction entries arbitrary: i parsed) (auto split: sum.splits prod.splits)

lemma patches_for_subset:
  "parse_bounds H i entries = Inr parsed \<Longrightarrow> set (patches_for version parsed) \<subseteq> set (map snd entries)"
proof -
  assume "parse_bounds H i entries = Inr parsed"
  from parse_bounds_patches[OF this] have "set (map (snd \<circ> snd) parsed) = set (map snd entries)" by simp
  then show ?thesis by (auto simp: patches_for_def)
qed

definition overrides_gone :: "toml \<Rightarrow> bool" where
  "overrides_gone v = (is_table v \<and> well_formed v \<and> toml_get v ''version_overrides'' = None)"

lemma overrides_gone_merge:
  "overrides_gone a \<Longrightarrow> clean_layer b \<Longrightarrow> overrides_gone (deep_merge_toml a b)"
  by (simp add: overrides_gone_def clean_layer_def sections_gone_def PATCH_STRIP_KEYS_def deep_merge_is_table
      deep_merge_well_formed(1) merge_lookup)

lemma apply_overrides_gone:
  assumes "is_table config" "well_formed config"
  shows "overrides_gone (fst (apply_version_overrides H config version))"
proof -
  obtain config' r where take: "take_patch_array read_version_override config ''version_overrides'' = (config', r)"
    by (cases "take_patch_array read_version_override config ''version_overrides''")
  note c = take_patch_array_clean[OF take assms wf_patches_readers(1)]
  have c': "overrides_gone config'" using c(1-3) by (simp add: overrides_gone_def)
  have folded: "overrides_gone (foldl deep_merge_toml b (map stripped ps))"
    if "overrides_gone b" "\<forall>p \<in> set ps. well_formed (TomlTable p)" for b ps
    using that
  proof (induction ps arbitrary: b)
    case (Cons p ps)
    then show ?case by (simp add: overrides_gone_merge clean_layer_stripped del: well_formed.simps)
  qed simp
  show ?thesis
  proof (cases r)
    case None
    with take c' show ?thesis by (simp add: apply_version_overrides_def)
  next
    case (Some entries)
    show ?thesis
    proof (cases "parse_bounds H 0 entries")
      case (Inl e)
      with take Some c' show ?thesis by (simp add: apply_version_overrides_def)
    next
      case (Inr parsed)
      have "\<forall>p \<in> set (patches_for version parsed). well_formed (TomlTable p)"
        using patches_for_subset[OF Inr, of version] c(5)[OF Some] by fastforce
      from folded[OF c' this] take Some Inr show ?thesis
        by (simp add: apply_version_overrides_def apply_patches_fold)
    qed
  qed
qed

lemma registered_overrides_gone:
  assumes "is_table v" "well_formed v" "apply_version_overrides_with_registered H v = (v', None)"
  shows "overrides_gone v'"
proof (cases "installed_semver H")
  case None
  obtain t where "v = TomlTable t" using assms(1) by (cases v) auto
  with None assms show ?thesis
    by (auto simp: apply_version_overrides_with_registered_def overrides_gone_def simp del: well_formed.simps
        intro: well_formed_remove)
next
  case (Some version)
  with assms apply_overrides_gone[OF assms(1,2), of H version] show ?thesis
    by (simp add: apply_version_overrides_with_registered_def)
qed

text \<open>What a TOML parser guarantees: a document is a table, and tables are maps.\<close>

definition toml_documents :: "'v host \<Rightarrow> bool" where
  "toml_documents H = (\<forall>s v. toml_from_str H s = Inr v \<longrightarrow> is_table v \<and> well_formed v)"

lemma expand_is_table: "is_table (expand_env_vars_in_toml H v) = is_table v"
  by (cases v) simp_all

lemma load_toml_document:
  "toml_documents H \<Longrightarrow> load_toml_file H p = Inr v \<Longrightarrow> is_table v \<and> well_formed v"
  by (auto simp: load_toml_file_def toml_documents_def expand_well_formed expand_is_table
      split: sum.splits if_splits)

lemma load_config_document:
  "toml_documents H \<Longrightarrow> load_config_file H p = Inr v \<Longrightarrow> overrides_gone v"
  by (auto simp: load_config_file_def split: sum.splits prod.splits option.splits
      dest!: load_toml_document intro: registered_overrides_gone)

lemma normalize_document:
  assumes "is_table v" "well_formed v" "normalize_requirements_value H v = Some v'"
  shows "overrides_gone v'"
proof -
  obtain t where t: "v = TomlTable t" using assms(1) by (cases v) auto
  have "well_formed (TomlTable (table_remove t FAIL_CLOSED_KEY))"
    using assms(2) t by (simp only: well_formed_remove)
  moreover have "apply_version_overrides_with_registered H (TomlTable (table_remove t FAIL_CLOSED_KEY)) = (v', None)"
    using assms(3) t by (auto simp: normalize_requirements_value_def split: prod.splits option.splits)
  ultimately show ?thesis by (intro registered_overrides_gone) simp_all
qed

lemma load_requirements_document:
  "toml_documents H \<Longrightarrow> load_requirements_layer H p = Some v \<Longrightarrow> overrides_gone v"
  by (auto simp: load_requirements_layer_def split: sum.splits option.splits if_splits
      dest!: load_toml_document intro: normalize_document)

lemma mdm_document:
  "toml_documents H \<Longrightarrow> mdm_requirements_value H = Some v \<Longrightarrow> overrides_gone v"
  by (auto simp: mdm_requirements_value_def managed_preferences_requirements_def decode_managed_toml_def
      toml_documents_def bind_eq_Some_conv split: option.splits sum.splits if_splits intro: normalize_document)

lemma take_campaigns_clean:
  assumes "overrides_gone v" "take_campaign_entries v = (v', es)"
  shows "clean_layer v'" "\<forall>e \<in> set es. well_formed (TomlTable (campaign_patch e))"
proof -
  obtain c r where take: "take_patch_array read_campaign v ''campaigns'' = (c, r)"
    by (cases "take_patch_array read_campaign v ''campaigns''")
  have v: "is_table v" "well_formed v" "toml_get v ''version_overrides'' = None"
    using assms(1) by (simp_all add: overrides_gone_def)
  note t = take_patch_array_clean[OF take v(1,2) wf_patches_readers(2)]
  have c: "v' = c" "es = build_campaign_entries (case r of Some x \<Rightarrow> x | None \<Rightarrow> [])"
    using assms(2) take by (auto simp: take_campaign_entries_def take_campaigns_def split: option.splits)
  show "clean_layer v'"
    using t(1-3) t(4)[OF v(3)] c(1) by (simp add: clean_layer_def sections_gone_def PATCH_STRIP_KEYS_def)
  show "\<forall>e \<in> set es. well_formed (TomlTable (campaign_patch e))"
    using t(5) c(2) by (cases r)
      (auto simp: build_campaign_entries_def in_set_map_filter map_filter_simps simp del: well_formed.simps
        split: option.splits if_splits)
qed

lemma take_requirements_clean:
  assumes "take_requirements_campaigns req = (req', es)" "\<forall>v. req = Some v \<longrightarrow> overrides_gone v"
  shows "\<forall>v. req' = Some v \<longrightarrow> clean_layer v" "\<forall>e \<in> set es. well_formed (TomlTable (campaign_patch e))"
proof -
  obtain c es' where t: "\<And>v. req = Some v \<Longrightarrow> take_campaign_entries v = (c, es')"
    by (metis option.inject surj_pair)
  show "\<forall>v. req' = Some v \<longrightarrow> clean_layer v" "\<forall>e \<in> set es. well_formed (TomlTable (campaign_patch e))"
    using assms t take_campaigns_clean[of "the req" c es']
    by (auto simp: take_requirements_campaigns_def split: option.splits)
qed

lemma load_layers_clean:
  assumes "toml_documents H" "load_layers H = Inr L"
  shows "clean_layer (cl_system_managed L) \<and> clean_layer (cl_managed L) \<and> clean_layer (cl_user L)"
    "\<forall>r \<in> set (requirement_values L). clean_layer r"
    "\<forall>e \<in> set (concat (campaign_source_slices L [])). well_formed (TomlTable (campaign_patch e))"
proof -
  from assms(2) obtain s0 m0 u0 where l: "load_system_managed_config H = Inr s0"
      "load_managed_config H = Inr m0" "load_from_disk H = Inr u0"
    by (auto simp: load_layers_def split: sum.splits)
  obtain s sc where s: "take_campaign_entries s0 = (s, sc)" by (cases "take_campaign_entries s0")
  obtain m mc where m: "take_campaign_entries m0 = (m, mc)" by (cases "take_campaign_entries m0")
  obtain u uc where u: "take_campaign_entries u0 = (u, uc)" by (cases "take_campaign_entries u0")
  obtain d dc where d: "take_requirements_campaigns (mdm_requirements_value H) = (d, dc)"
    by (cases "take_requirements_campaigns (mdm_requirements_value H)")
  obtain y yc where y: "take_requirements_campaigns (load_system_requirements H) = (y, yc)"
    by (cases "take_requirements_campaigns (load_system_requirements H)")
  obtain r rc where r: "take_requirements_campaigns (load_requirements H) = (r, rc)"
    by (cases "take_requirements_campaigns (load_requirements H)")
  have L: "L = \<lparr>cl_system_managed = s, cl_managed = m, cl_user = u, cl_user_requirements = r,
      cl_system_requirements = y, cl_mdm_requirements = d,
      cl_campaigns = \<lparr>co_requirements = dc @ yc @ rc, co_user = uc, co_managed = mc, co_system_managed = sc\<rparr>\<rparr>"
    using assms(2) l s m u d y r by (simp add: load_layers_def)
  have empty: "overrides_gone (TomlTable [])" by (simp add: overrides_gone_def)
  have "overrides_gone s0"
    using l(1) assms(1) registered_overrides_gone[of "TomlTable []"]
    by (auto simp: load_system_managed_config_def split: option.splits sum.splits prod.splits
        dest!: load_toml_document intro: registered_overrides_gone)
  moreover have "overrides_gone m0" "overrides_gone u0"
    using l(2,3) assms(1) empty
    by (auto simp: load_managed_config_def load_from_disk_def load_user_config_layer_def
        split: option.splits intro: load_config_document)
  ultimately have layers: "clean_layer s" "clean_layer m" "clean_layer u"
      "\<forall>e \<in> set (sc @ mc @ uc). well_formed (TomlTable (campaign_patch e))"
    using take_campaigns_clean[OF _ s] take_campaigns_clean[OF _ m] take_campaigns_clean[OF _ u] by auto
  have reqs: "\<forall>v. mdm_requirements_value H = Some v \<longrightarrow> overrides_gone v"
      "\<forall>v. load_system_requirements H = Some v \<longrightarrow> overrides_gone v"
      "\<forall>v. load_requirements H = Some v \<longrightarrow> overrides_gone v"
    using assms(1) mdm_document load_requirements_document
    by (auto simp: load_system_requirements_def load_requirements_def bind_eq_Some_conv)
  note c = take_requirements_clean[OF d reqs(1)] take_requirements_clean[OF y reqs(2)]
    take_requirements_clean[OF r reqs(3)]
  show "clean_layer (cl_system_managed L) \<and> clean_layer (cl_managed L) \<and> clean_layer (cl_user L)"
    using layers L by simp
  show "\<forall>r \<in> set (requirement_values L). clean_layer r"
    using c(1,3,5) L by (auto simp: requirement_values_def map_filter_simps split: option.splits)
  show "\<forall>e \<in> set (concat (campaign_source_slices L [])). well_formed (TomlTable (campaign_patch e))"
    using c(2,4,6) layers(4) L by (auto simp: campaign_source_slices_def simp del: well_formed.simps)
qed

subsection \<open>Properties\<close>

text \<open>C9: A value the administrator requires cannot be displaced: when a requirements layer sets a value
  (not a table) at a path and no requirements layer above it touches that path, the merged layers and the
  effective configuration have exactly that value there, whatever the other layers, the campaigns on disk,
  the remote campaigns and the dismissed identifiers are.\<close>

theorem requirements_survive_campaigns:
  assumes "requirement_values L = lower @ req # upper"
    and "\<forall>r \<in> set (req # upper). well_formed r"
    and "value_at req path = Some leaf" "\<not> is_table leaf"
    and "\<forall>r \<in> set upper. \<not> touches_below r path"
  shows "value_at (effective_config_base L) path = Some leaf
    \<and> value_at (effective_config_with_campaigns H L remote dismissed) path = Some leaf"
proof -
  have wins: "value_at (foldl deep_merge_toml base (below @ requirement_values L)) path = Some leaf" for base below
    using merge_layers_last_wins[of req path leaf upper base "below @ lower"] assms by simp
  show ?thesis unfolding effective_fold by (simp only: effective_base_fold wins simp_thms)
qed

text \<open>The campaign overlay. A campaign is active iff campaigns are not switched off, it is the first of
  its identifier in the order requirements, remote, user, managed, system, and the user has not dismissed it;
  no identifier is active twice. At a path that no requirements layer touches, the first active campaign
  that touches it decides (a value it sets there is the effective one) and, where none touches it, the
  merged layers do; the reserved sections are never touched.\<close>

theorem campaign_overlay:
  assumes "\<forall>r \<in> set (requirement_values L). well_formed r \<and> \<not> touches_below r (k # ks)"
    and "\<forall>c \<in> set (concat (campaign_source_slices L remote)). well_formed (TomlTable (campaign_patch c))"
  shows "let base = effective_config_base L; active = resolve_campaigns H L base remote dismissed;
             result = value_at (effective_config_with_campaigns H L remote dismissed) (k # ks);
             touching = filter (\<lambda>c. k \<notin> set PATCH_STRIP_KEYS \<and> patch_touches_path (campaign_patch c) (k # ks)) active
    in distinct (map campaign_id active)
       \<and> (\<forall>c. c \<in> set active \<longleftrightarrow>
            \<not> campaigns_application_disabled H base
            \<and> find (\<lambda>x. campaign_id x = campaign_id c) (concat (campaign_source_slices L remote)) = Some c
            \<and> campaign_id c \<notin> set dismissed)
       \<and> (case touching of
            [] \<Rightarrow> result = value_at base (k # ks)
          | c # _ \<Rightarrow> \<forall>leaf. value_at (TomlTable (campaign_patch c)) (k # ks) = Some leaf \<and> \<not> is_table leaf
                       \<longrightarrow> result = Some leaf)"
proof -
  define base where "base = effective_config_base L"
  define active where "active = resolve_campaigns H L base remote dismissed"
  define touching where "touching =
    filter (\<lambda>c. k \<notin> set PATCH_STRIP_KEYS \<and> patch_touches_path (campaign_patch c) (k # ks)) active"
  define result where "result = value_at (effective_config_with_campaigns H L remote dismissed) (k # ks)"
  let ?overlay = "map stripped (map campaign_patch (rev active))"
  have wf: "well_formed (stripped (campaign_patch c))" if "c \<in> set active" for c
  proof -
    from that have "c \<in> set (concat (campaign_source_slices L remote))"
      unfolding active_def resolve_mem by (metis find_Some_iff nth_mem)
    with assms(2) show ?thesis by (intro stripped_well_formed) metis
  qed
  have touch: "touches_below (stripped (campaign_patch c)) (k # ks) \<longleftrightarrow>
      k \<notin> set PATCH_STRIP_KEYS \<and> patch_touches_path (campaign_patch c) (k # ks)" for c
    using stripped_touches stripped_touches_section by metis
  have result: "result = value_at (foldl deep_merge_toml base ?overlay) (k # ks)"
    unfolding result_def effective_fold base_def[symmetric] active_def[symmetric] foldl_append
    by (rule merge_layers_untouched) (use assms(1) in blast)
  have "distinct (map campaign_id active)"
    by (simp add: active_def resolve_campaigns_def filter_active_campaigns_def merge_campaign_entries_def
        merge_loop_distinct distinct_map_filter)
  moreover have "\<forall>c. c \<in> set active \<longleftrightarrow>
      \<not> campaigns_application_disabled H base
      \<and> find (\<lambda>x. campaign_id x = campaign_id c) (concat (campaign_source_slices L remote)) = Some c
      \<and> campaign_id c \<notin> set dismissed"
    by (simp add: active_def resolve_mem)
  moreover have "case touching of [] \<Rightarrow> result = value_at base (k # ks)
      | c # _ \<Rightarrow> \<forall>leaf. value_at (TomlTable (campaign_patch c)) (k # ks) = Some leaf \<and> \<not> is_table leaf
                   \<longrightarrow> result = Some leaf"
  proof (cases touching)
    case Nil
    then have "\<forall>c \<in> set active. \<not> touches_below (stripped (campaign_patch c)) (k # ks)"
      unfolding touch touching_def by (auto simp: filter_empty_conv)
    then have "result = value_at base (k # ks)"
      unfolding result by (intro merge_layers_untouched) (auto simp: wf)
    with Nil show ?thesis by simp
  next
    case (Cons c cs)
    then obtain us vs where a: "active = us @ c # vs"
        "\<forall>u \<in> set us. \<not> touches_below (stripped (campaign_patch u)) (k # ks)" "k \<notin> set PATCH_STRIP_KEYS"
      unfolding touching_def filter_eq_Cons_iff touch by blast
    have "result = Some leaf" if "value_at (TomlTable (campaign_patch c)) (k # ks) = Some leaf" "\<not> is_table leaf" for leaf
    proof -
      have "value_at (stripped (campaign_patch c)) (k # ks) = Some leaf"
        using that(1) stripped_value[OF a(3)] by simp
      moreover have "\<forall>o' \<in> set (map stripped (map campaign_patch (rev us))). well_formed o' \<and> \<not> touches_below o' (k # ks)"
        using a wf by auto
      ultimately show ?thesis
        using merge_layers_last_wins[of "stripped (campaign_patch c)" "k # ks" leaf
            "map stripped (map campaign_patch (rev us))" base "map stripped (map campaign_patch (rev vs))"]
          that(2) wf a(1) result by simp
    qed
    with Cons show ?thesis by simp
  qed
  ultimately show ?thesis
    unfolding Let_def touching_def result_def active_def base_def by blast
qed

text \<open>C18: Loading and merging keep the type of a configuration: when the layers load, the effective
  configuration is a table in which no table, at any depth, repeats a key, and its root has neither the
  version overrides nor the campaigns section, so no patch can bring a section back to be applied again.\<close>

theorem effective_config_typed:
  assumes "toml_documents H" "load_layers H = Inr L"
    and "\<forall>c \<in> set remote. well_formed (TomlTable (campaign_patch c))"
  shows "clean_layer (effective_config_base L)
    \<and> clean_layer (effective_config_with_campaigns H L remote dismissed)"
proof -
  note l = load_layers_clean[OF assms(1,2)]
  have base: "clean_layer (effective_config_base L)"
    unfolding effective_base_fold using l(1,2) by (intro clean_layer_fold) auto
  have "well_formed (TomlTable (campaign_patch c))"
    if "c \<in> set (resolve_campaigns H L base remote dismissed)" for c base
  proof -
    from that have "c \<in> set (concat (campaign_source_slices L remote))"
      unfolding resolve_mem by (metis find_Some_iff nth_mem)
    then have "c \<in> set remote \<or> c \<in> set (concat (campaign_source_slices L []))"
      by (auto simp: campaign_source_slices_def)
    with l(3) assms(3) show ?thesis by metis
  qed
  then have "clean_layer (effective_config_with_campaigns H L remote dismissed)"
    unfolding effective_fold using base l(2) by (intro clean_layer_fold) (auto intro: clean_layer_stripped)
  with base show ?thesis ..
qed

lemma bounds_fail_iff:
  "(\<exists>e. parse_bounds H i es = Inl e) \<longleftrightarrow> (\<exists>(m, p) \<in> set es. \<exists>e. version_bounds H 0 m = Inl e)"
proof (induction es arbitrary: i)
  case (Cons mp es)
  obtain m p where mp: "mp = (m, p)" by (cases mp)
  have "(\<exists>e. version_bounds H i m = Inl e) \<longleftrightarrow> (\<exists>e. version_bounds H 0 m = Inl e)"
    by (auto simp: version_bounds_def split: option.splits)
  moreover have "(\<exists>e. parse_bounds H i (mp # es) = Inl e) \<longleftrightarrow>
      (\<exists>e. version_bounds H i m = Inl e) \<or> (\<exists>e. parse_bounds H (i + 1) es = Inl e)"
    using mp by (auto split: sum.splits)
  ultimately show ?case using Cons[of "i + 1"] mp by simp
qed simp

text \<open>Version overrides. A bound that is not a version, in any entry, fails the layer before anything is
  merged, even when the entry's range excludes the installed version. Otherwise exactly the patches whose
  range contains the version are merged, in ascending order of their minimum version and in the declared
  order where these agree: at a path outside the reserved sections the last of them that touches it decides,
  and where none does the layer keeps its value.\<close>

theorem version_overrides_effect:
  fixes H :: "'v::linorder host"
  assumes "map_of t ''version_overrides'' = Some sect"
    and "read_patch_entries read_version_override sect = Some entries"
    and "well_formed (TomlTable t)" "k \<notin> set PATCH_STRIP_KEYS"
  shows "((\<exists>e. parse_bounds H 0 entries = Inl e) \<longleftrightarrow> (\<exists>(m, p) \<in> set entries. \<exists>e. version_bounds H 0 m = Inl e))
    \<and> (case parse_bounds H 0 entries of
      Inl e \<Rightarrow> apply_version_overrides H (TomlTable t) version
            = (TomlTable (table_remove t ''version_overrides''), Some e)
    | Inr parsed \<Rightarrow>
        map (snd \<circ> snd) parsed = map snd entries
        \<and> (let matching = filter (in_range version) (sort_key fst parsed);
               touching = filter (\<lambda>(mn, mx, p). patch_touches_path p (k # ks)) matching;
               (config, error) = apply_version_overrides H (TomlTable t) version
           in error = None
              \<and> (if touching = [] then value_at config (k # ks) = value_at (TomlTable t) (k # ks)
                 else \<forall>leaf. value_at (TomlTable (snd (snd (last touching)))) (k # ks) = Some leaf \<and> \<not> is_table leaf
                        \<longrightarrow> value_at config (k # ks) = Some leaf)))"
proof (cases "parse_bounds H 0 entries")
  case (Inl e)
  with bounds_fail_iff[of H 0 entries] show ?thesis
    using assms(1,2) by (simp add: apply_version_overrides_def take_patch_array_def)
next
  case (Inr parsed)
  define matching where "matching = filter (in_range version) (sort_key fst parsed)"
  define touching where "touching = filter (\<lambda>(mn, mx, p). patch_touches_path p (k # ks)) matching"
  define base where "base = TomlTable (table_remove t ''version_overrides'')"
  have applied: "apply_version_overrides H (TomlTable t) version
      = (foldl deep_merge_toml base (map (stripped \<circ> snd \<circ> snd) matching), None)"
    using assms(1,2) Inr
    by (simp add: apply_version_overrides_def take_patch_array_def apply_patches_fold patches_for_def
        matching_def base_def comp_assoc)
  have base: "value_at base (k # ks) = value_at (TomlTable t) (k # ks)"
    using assms(4) by (simp add: base_def PATCH_STRIP_KEYS_def)
  have "\<forall>(m, p) \<in> set entries. well_formed (TomlTable p)"
  proof -
    have "take_patch_array read_version_override (TomlTable t) ''version_overrides'' = (base, Some entries)"
      using assms(1,2) by (simp add: take_patch_array_def base_def)
    from take_patch_array_clean(5)[OF this _ assms(3) wf_patches_readers(1)] show ?thesis
      by (auto simp del: well_formed.simps)
  qed
  then have entries: "\<forall>p \<in> set (map snd entries). well_formed (TomlTable p)"
    by (auto simp del: well_formed.simps)
  have "\<forall>e \<in> set parsed. well_formed (TomlTable (snd (snd e)))"
  proof
    fix e assume "e \<in> set parsed"
    then have "(snd \<circ> snd) e \<in> set (map (snd \<circ> snd) parsed)" by (auto simp del: comp_apply)
    with entries show "well_formed (TomlTable (snd (snd e)))"
      unfolding parse_bounds_patches[OF Inr] comp_apply by (rule bspec)
  qed
  then have wf: "\<forall>e \<in> set matching. well_formed (stripped (snd (snd e)))"
    by (auto simp: matching_def simp del: well_formed.simps intro!: stripped_well_formed)
  have touch: "touches_below (stripped p) (k # ks) = patch_touches_path p (k # ks)" for p
    by (rule stripped_touches[OF assms(4)])
  have result: "if touching = [] then value_at (fst (apply_version_overrides H (TomlTable t) version)) (k # ks)
        = value_at (TomlTable t) (k # ks)
      else \<forall>leaf. value_at (TomlTable (snd (snd (last touching)))) (k # ks) = Some leaf \<and> \<not> is_table leaf
        \<longrightarrow> value_at (fst (apply_version_overrides H (TomlTable t) version)) (k # ks) = Some leaf"
  proof (cases "touching = []")
    case True
    then have "\<forall>e \<in> set matching. \<not> touches_below (stripped (snd (snd e))) (k # ks)"
      unfolding touch touching_def by (auto simp: filter_empty_conv)
    with wf have "value_at (foldl deep_merge_toml base (map (stripped \<circ> snd \<circ> snd) matching)) (k # ks)
        = value_at base (k # ks)"
      by (intro merge_layers_untouched) auto
    with base True show ?thesis by (simp only: applied fst_conv simp_thms if_True)
  next
    case False
    then obtain us e vs where m: "matching = us @ e # vs" "last touching = e"
        "\<forall>v \<in> set vs. \<not> patch_touches_path (snd (snd v)) (k # ks)"
    proof -
      have "rev touching \<noteq> []" using False by simp
      then obtain x xs where x: "rev touching = x # xs" by (cases "rev touching") auto
      then have "filter (\<lambda>(mn, mx, p). patch_touches_path p (k # ks)) (rev matching) = x # xs"
        by (simp add: touching_def rev_filter)
      then obtain a b where ab: "rev matching = a @ x # b"
          "\<forall>u \<in> set a. \<not> (case u of (mn, mx, p) \<Rightarrow> patch_touches_path p (k # ks))"
        unfolding filter_eq_Cons_iff by blast
      have "matching = rev b @ x # rev a" using arg_cong[OF ab(1), of rev] by simp
      moreover have "last touching = x" using x by (metis last_rev list.sel(1) rev_rev_ident False)
      ultimately show thesis using that[of "rev b" x "rev a"] ab(2) by (auto simp: case_prod_beta)
    qed
    show ?thesis
    proof -
      have "value_at (fst (apply_version_overrides H (TomlTable t) version)) (k # ks) = Some leaf"
        if leaf: "value_at (TomlTable (snd (snd e))) (k # ks) = Some leaf" "\<not> is_table leaf" for leaf
      proof -
        let ?f = "stripped \<circ> snd \<circ> snd"
        have "value_at (foldl deep_merge_toml base (map ?f us @ ?f e # map ?f vs)) (k # ks) = Some leaf"
        proof (rule merge_layers_last_wins)
          show "well_formed (?f e)" using wf m(1) by simp
          show "value_at (?f e) (k # ks) = Some leaf"
            unfolding comp_apply stripped_value[OF assms(4)] by (rule leaf(1))
          show "\<forall>o' \<in> set (map ?f vs). well_formed o' \<and> \<not> touches_below o' (k # ks)"
            using wf m(1,3) by (simp add: touch)
        qed (rule leaf(2))
        then show ?thesis by (simp only: applied fst_conv m(1) map_append list.map)
      qed
      with False m(2) show ?thesis by simp
    qed
  qed
  have error: "snd (apply_version_overrides H (TomlTable t) version) = None" by (simp add: applied)
  obtain config err where a: "apply_version_overrides H (TomlTable t) version = (config, err)"
    by (cases "apply_version_overrides H (TomlTable t) version")
  show ?thesis
    unfolding Inr sum.case Let_def matching_def[symmetric] touching_def[symmetric] a prod.case
  proof (intro conjI)
    show "(\<exists>e. Inr parsed = Inl e) \<longleftrightarrow> (\<exists>(m, p) \<in> set entries. \<exists>e. version_bounds H 0 m = Inl e)"
      using bounds_fail_iff[of H 0 entries] by (simp add: Inr)
    show "map (snd \<circ> snd) parsed = map snd entries" by (rule parse_bounds_patches[OF Inr])
    show "err = None" using error a by simp
    show "if touching = [] then value_at config (k # ks) = value_at (TomlTable t) (k # ks)
      else \<forall>leaf. value_at (TomlTable (snd (snd (last touching)))) (k # ks) = Some leaf \<and> \<not> is_table leaf
        \<longrightarrow> value_at config (k # ks) = Some leaf"
      using result unfolding a fst_conv .
  qed
qed

lemma overrides_ignore_other_keys:
  "k \<noteq> ''version_overrides'' \<Longrightarrow>
   snd (apply_version_overrides H (TomlTable (table_remove t k)) version)
     = snd (apply_version_overrides H (TomlTable t) version)"
  by (simp add: apply_version_overrides_def take_patch_array_def split: option.splits sum.splits)

text \<open>The documents the requirements layers are read from, before they are normalised.\<close>

definition raw_requirements :: "'v::linorder host \<Rightarrow> (requirements_source \<times> toml) list" where
  "raw_requirements H =
     List.map_filter (\<lambda>dir. case dir of
        None \<Rightarrow> None
      | Some d \<Rightarrow> (case load_toml_file H (path_join d ''requirements.toml'') of
                     Inl _ \<Rightarrow> None | Inr v \<Rightarrow> Some (File (path_join d ''requirements.toml''), v)))
       [user_grok_home H, system_config_dir H]
     @ (case managed_preferences_requirements H of None \<Rightarrow> [] | Some v \<Rightarrow> [(Mdm, v)])"

lemma validated_value_loads:
  assumes "validate_requirements_value H v src = None" "toml_as_table v = Some t" "t \<noteq> []"
    and "resolve_fail_closed_mode H v"
  shows "normalize_requirements_value H v \<noteq> None"
proof (cases "installed_semver H")
  case None
  with assms(2) show ?thesis
    by (simp add: normalize_requirements_value_def apply_version_overrides_with_registered_def)
next
  case (Some version)
  have v: "v = TomlTable t" using assms(2) by (cases v) auto
  have "snd (apply_version_overrides H (TomlTable t) version) = None"
    using assms Some v by (auto simp: validate_requirements_value_def split: option.splits if_splits)
  then have "snd (apply_version_overrides H (TomlTable (table_remove t FAIL_CLOSED_KEY)) version) = None"
    by (subst overrides_ignore_other_keys) (simp_all add: FAIL_CLOSED_KEY_def)
  with Some v show ?thesis
    by (auto simp: normalize_requirements_value_def apply_version_overrides_with_registered_def
        split: prod.splits option.splits)
qed

text \<open>Fail-closed requirements. When start-up validation passes, every requirements document that could be
  read and asks to fail closed (by its own flag or by the environment switch) is among the enforced layers,
  so no invalid override silently drops the policy it came with. A file that cannot be read or parsed is
  outside this: validation passes over it and it contributes no layer, whatever flag it has.\<close>

theorem fail_closed_layers_enforced:
  assumes "validate_requirements H = None"
  shows "(\<forall>(src, v) \<in> set (raw_requirements H).
            non_empty_table v \<and> resolve_fail_closed_mode H v
            \<longrightarrow> (\<exists>l \<in> set (requirements_layers H). rl_source l = src \<and> normalize_requirements_value H v = Some (rl_value l)))
    \<and> (\<forall>path e. load_toml_file H path = Inl e \<longrightarrow>
         validate_requirements_layer H path = None \<and> load_requirements_layer H path = None)"
proof -
  have document: "\<exists>w. load_requirements_layer H p = Some w \<and> normalize_requirements_value H v = Some w"
    if "validate_requirements_layer H p = None" "load_toml_file H p = Inr v"
      "non_empty_table v" "resolve_fail_closed_mode H v" for p v
    using that validated_value_loads[of H v "File p"]
    by (auto simp: validate_requirements_layer_def load_requirements_layer_def non_empty_table_def split: option.splits)
  have ok: "\<And>g. user_grok_home H = Some g \<Longrightarrow> validate_requirements_layer H (path_join g ''requirements.toml'') = None"
    "\<And>d. system_config_dir H = Some d \<Longrightarrow> validate_requirements_layer H (path_join d ''requirements.toml'') = None"
    "\<And>v. managed_preferences_requirements H = Some v \<Longrightarrow> validate_requirements_value H v Mdm = None"
    using assms by (auto simp: validate_requirements_def split: option.splits)
  have "\<exists>l \<in> set (requirements_layers H). rl_source l = src \<and> normalize_requirements_value H v = Some (rl_value l)"
    if mem: "(src, v) \<in> set (raw_requirements H)" and v: "non_empty_table v" "resolve_fail_closed_mode H v" for src v
  proof -
    from mem consider
        g where "user_grok_home H = Some g" "src = File (path_join g ''requirements.toml'')"
          "load_toml_file H (path_join g ''requirements.toml'') = Inr v"
      | d where "system_config_dir H = Some d" "src = File (path_join d ''requirements.toml'')"
          "load_toml_file H (path_join d ''requirements.toml'') = Inr v"
      | "managed_preferences_requirements H = Some v" "src = Mdm"
      by (auto simp: raw_requirements_def map_filter_simps split: option.splits sum.splits)
    then show ?thesis
    proof cases
      case 1
      with document[OF ok(1)[OF 1(1)] 1(3) v] show ?thesis by (auto simp: requirements_layers_def Let_def)
    next
      case 2
      with document[OF ok(2)[OF 2(1)] 2(3) v] show ?thesis by (auto simp: requirements_layers_def Let_def)
    next
      case 3
      from v(1) obtain t where "toml_as_table v = Some t" "t \<noteq> []"
        by (auto simp: non_empty_table_def split: option.splits)
      with validated_value_loads[OF ok(3)[OF 3(1)] _ _ v(2)] 3 show ?thesis
        by (auto simp: requirements_layers_def mdm_requirements_value_def Let_def)
    qed
  qed
  then show ?thesis by (auto simp: validate_requirements_layer_def load_requirements_layer_def)
qed

subsection \<open>Witnesses\<close>

definition system_requirements_path :: path where
  "system_requirements_path = [''/'', ''etc'', ''grok'', ''requirements.toml'']"

definition user_config_path :: path where
  "user_config_path = [''/'', ''home'', ''u'', ''.qidi'', ''config.toml'']"

definition requirements_doc :: toml where
  "requirements_doc = TomlTable [(''fail_closed'', TomlBoolean True), (''ui'', TomlTable [(''yolo'', TomlBoolean False)])]"

definition user_doc :: toml where
  "user_doc = TomlTable [(''ui'', TomlTable [(''yolo'', TomlBoolean True)]),
     (''campaigns'', TomlArray [TomlTable [(''id'', TomlString ''c''), (''models'', TomlString ''b'')]])]"

definition policy_host :: "nat host" where
  "policy_host =
     example_host (\<lambda>p. if p = system_requirements_path then Some ''R'' else if p = user_config_path then Some ''U'' else None)
       (\<lambda>s. if s = ''R'' then Some requirements_doc else if s = ''U'' then Some user_doc else None)"

lemmas policy_host_simps = policy_host_def example_host_def system_requirements_path_def user_config_path_def
  requirements_doc_def user_doc_def

definition policy_layers :: config_layers where
  "policy_layers =
     \<lparr>cl_system_managed = TomlTable [], cl_managed = TomlTable [],
      cl_user = TomlTable [(''ui'', TomlTable [(''yolo'', TomlBoolean True)])],
      cl_user_requirements = None,
      cl_system_requirements = Some (TomlTable [(''ui'', TomlTable [(''yolo'', TomlBoolean False)])]),
      cl_mdm_requirements = None,
      cl_campaigns = \<lparr>co_requirements = [], co_user = [\<lparr>campaign_id = ''c'', campaign_patch = [(''models'', TomlString ''b'')]\<rparr>],
        co_managed = [], co_system_managed = []\<rparr>\<rparr>"

lemma policy_requirements:
  "requirement_values policy_layers = [] @ TomlTable [(''ui'', TomlTable [(''yolo'', TomlBoolean False)])] # []"
  by (simp add: requirement_values_def policy_layers_def map_filter_simps)

theorem requirements_survive_campaigns_witness:
  "value_at (effective_config_base policy_layers) [''ui'', ''yolo''] = Some (TomlBoolean False)
   \<and> value_at (effective_config_with_campaigns policy_host policy_layers
        [\<lparr>campaign_id = ''r'', campaign_patch = [(''ui'', TomlString ''x'')]\<rparr>] []) [''ui'', ''yolo'']
      = Some (TomlBoolean False)"
  by (rule requirements_survive_campaigns[OF policy_requirements]) simp_all

theorem campaign_overlay_witness:
  "value_at (effective_config_with_campaigns policy_host policy_layers [] []) [''models'']
     = Some (TomlString ''b'')"
proof -
  have base: "effective_config_base policy_layers = TomlTable [(''ui'', TomlTable [(''yolo'', TomlBoolean False)])]"
    by (simp add: effective_config_base_def policy_layers_def merge_option_def)
  have "resolve_campaigns policy_host policy_layers (effective_config_base policy_layers) [] []
      = [\<lparr>campaign_id = ''c'', campaign_patch = [(''models'', TomlString ''b'')]\<rparr>]"
    unfolding base by (simp add: resolve_campaigns_def campaigns_application_disabled_def env_bool_def policy_host_simps
        campaign_source_slices_def policy_layers_def merge_campaign_entries_def filter_active_campaigns_def)
  moreover have "\<forall>r \<in> set (requirement_values policy_layers). well_formed r \<and> \<not> touches_below r (''models'' # [])"
    by (simp add: policy_requirements)
  moreover have "\<forall>c \<in> set (concat (campaign_source_slices policy_layers [])). well_formed (TomlTable (campaign_patch c))"
    by (simp add: campaign_source_slices_def policy_layers_def)
  ultimately show ?thesis
    using campaign_overlay[of policy_layers "''models''" "[]" "[]" policy_host "[]"]
    by (simp add: Let_def patch_touches_path_def PATCH_STRIP_KEYS_def)
qed

lemma policy_documents: "toml_documents policy_host"
  by (auto simp: toml_documents_def policy_host_simps split: if_splits)

lemma policy_installed: "installed_semver policy_host = Some 1"
  by (simp add: installed_semver_def installed_def policy_host_simps)

lemma policy_homes:
  "user_grok_home policy_host = Some [''/'', ''home'', ''u'', ''.qidi'']"
  "system_config_dir policy_host = Some [''/'', ''etc'', ''grok'']"
  "managed_preferences_requirements policy_host = None"
  by (simp_all add: user_grok_home_def grok_home_def default_grok_home_def path_join_def system_config_dir_def
      managed_preferences_requirements_def policy_host_simps)

lemma policy_files:
  "load_toml_file policy_host [''/'', ''etc'', ''grok'', ''requirements.toml''] = Inr requirements_doc"
  "load_toml_file policy_host [''/'', ''home'', ''u'', ''.qidi'', ''config.toml''] = Inr user_doc"
  "load_toml_file policy_host [''/'', ''etc'', ''grok'', ''managed_config.toml''] = Inr (TomlTable [])"
  "load_toml_file policy_host [''/'', ''home'', ''u'', ''.qidi'', ''managed_config.toml''] = Inr (TomlTable [])"
  "load_toml_file policy_host [''/'', ''home'', ''u'', ''.qidi'', ''requirements.toml''] = Inr (TomlTable [])"
  by (simp_all add: load_toml_file_def policy_host_simps)

lemma no_overrides:
  "map_of t ''version_overrides'' = None
     \<Longrightarrow> apply_version_overrides H (TomlTable t) version = (TomlTable t, None)"
  by (simp add: apply_version_overrides_def take_patch_array_def patches_for_def)

theorem effective_config_typed_witness:
  "\<exists>L. load_layers policy_host = Inr L \<and> co_user (cl_campaigns L) \<noteq> []
     \<and> clean_layer (effective_config_base L)
     \<and> clean_layer (effective_config_with_campaigns policy_host L [] [])"
proof -
  have "\<exists>L. load_layers policy_host = Inr L \<and> co_user (cl_campaigns L) \<noteq> []"
    by (simp add: load_layers_def load_system_managed_config_def load_managed_config_def load_from_disk_def
        load_user_config_layer_def load_config_file_def policy_homes policy_files path_join_def
        MANAGED_CONFIG_FILENAME_def apply_version_overrides_with_registered_def policy_installed no_overrides
        mdm_requirements_value_def load_requirements_def load_system_requirements_def load_requirements_layer_def
        normalize_requirements_value_def FAIL_CLOSED_KEY_def take_campaign_entries_def take_campaigns_def
        take_patch_array_def user_doc_def requirements_doc_def table_remove_def take_requirements_campaigns_def
        read_campaign_def string_field_def build_campaign_entries_def map_filter_simps
        trim_id_ends ws_seqs_def)
  then obtain L where L: "load_layers policy_host = Inr L" "co_user (cl_campaigns L) \<noteq> []" by blast
  with effective_config_typed[OF policy_documents L(1), of "[]" "[]"] show ?thesis by auto
qed

definition override_section :: toml where
  "override_section = TomlArray
     [TomlTable [(''minimum_version'', TomlString ''1''), (''theme'', TomlString ''new'')],
      TomlTable [(''minimum_version'', TomlString ''2''), (''theme'', TomlString ''later'')]]"

theorem version_overrides_effect_witness:
  "value_at (fst (apply_version_overrides policy_host
      (TomlTable [(''theme'', TomlString ''old''), (''version_overrides'', override_section)]) 1)) [''theme'']
     = Some (TomlString ''new'')"
proof -
  let ?t = "[(''theme'', TomlString ''old''), (''version_overrides'', override_section)]"
  let ?e = "[(\<lparr>minimum_version = Some ''1'', maximum_version = None\<rparr>, [(''theme'', TomlString ''new'')]),
             (\<lparr>minimum_version = Some ''2'', maximum_version = None\<rparr>, [(''theme'', TomlString ''later'')])]"
  have sec: "map_of ?t ''version_overrides'' = Some override_section" by simp
  have read: "read_patch_entries read_version_override override_section = Some ?e"
    by (simp add: override_section_def read_version_override_def string_field_def table_remove_def)
  have wf: "well_formed (TomlTable ?t)" by (simp add: override_section_def)
  have k: "''theme'' \<notin> set PATCH_STRIP_KEYS" by (simp add: PATCH_STRIP_KEYS_def)
  have t: "trim ''1'' = ''1''" "trim ''2'' = ''2''" by (simp_all add: trim_id_ends ws_seqs_def)
  have p: "parse_bounds policy_host 0 ?e
      = Inr [(1, None, [(''theme'', TomlString ''new'')]), (2, None, [(''theme'', TomlString ''later'')])]"
    by (simp add: version_bounds_def t policy_host_simps)
  obtain c err where a: "apply_version_overrides policy_host (TomlTable ?t) 1 = (c, err)"
    by (cases "apply_version_overrides policy_host (TomlTable ?t) 1")
  show ?thesis
    using version_overrides_effect[OF sec read wf k, of policy_host 1 "[]", THEN conjunct2, unfolded p sum.case,
        THEN conjunct2]
    by (simp add: Let_def a in_range_def patch_touches_path_def del: One_nat_def)
qed

theorem fail_closed_layers_enforced_witness:
  "validate_requirements policy_host = None
   \<and> (\<exists>l \<in> set (requirements_layers policy_host). rl_source l = File system_requirements_path)"
proof -
  have ok: "validate_requirements policy_host = None"
    by (simp add: validate_requirements_def policy_homes path_join_def validate_requirements_layer_def policy_files
        validate_requirements_value_def requirements_doc_def policy_installed no_overrides)
  have "(File system_requirements_path, requirements_doc) \<in> set (raw_requirements policy_host)"
    by (simp add: raw_requirements_def policy_homes path_join_def policy_files map_filter_simps
        system_requirements_path_def)
  moreover have "non_empty_table requirements_doc" "resolve_fail_closed_mode policy_host requirements_doc"
    by (simp_all add: non_empty_table_def requirements_doc_def resolve_fail_closed_mode_def fail_closed_flag_def
        FAIL_CLOSED_KEY_def)
  ultimately have "\<exists>l \<in> set (requirements_layers policy_host). rl_source l = File system_requirements_path"
    using fail_closed_layers_enforced[OF ok] by fastforce
  with ok show ?thesis ..
qed

end
