(* ===== verification/Claude_Settings.thy ===== *)
theory Claude_Settings
  imports Permission_Rules Config_Host
begin

section \<open>Vendor settings files (\<open>permission/claude_settings.rs\<close>)\<close>

text \<open>
  Reading \<open>.claude/settings.json\<close>: which fields are taken from a parsed file and how wrong types are
  tolerated, which files are found between the working directory and the repository root, and the
  environment the files contribute. The lemmas describe the directories the walk visits.
\<close>

subsection \<open>One file\<close>

record parsed_permissions =
  pp_allow :: "str list"
  pp_deny :: "str list"
  pp_ask :: "str list"

record claude_settings =
  cs_permissions :: "parsed_permissions option"
  cs_default_mode :: "str option"
  cs_additional_directories :: "str list option"
  cs_env :: "(str \<times> str) list option"

definition rule_warning :: "str \<Rightarrow> str \<Rightarrow> rule_parse_error \<Rightarrow> str" where
  "rule_warning label rule_str e =
     ''permissions.'' @ label @ '': '' @ rule_str @ '' -- '' @ rule_parse_error_display e"

fun parse_entries :: "rule_action \<Rightarrow> str \<Rightarrow> str list \<Rightarrow> permission_rule list \<times> str list" where
  "parse_entries action label [] = ([], [])"
| "parse_entries action label (rule_str # entries) =
     (let (rules, warnings) = parse_entries action label entries
      in case parse_permission_rule rule_str action of
           Inr rule \<Rightarrow> (rule # rules, warnings)
         | Inl e \<Rightarrow> (rules, rule_warning label rule_str e # warnings))"

definition into_permission_config :: "parsed_permissions \<Rightarrow> permission_config \<times> str list" where
  "into_permission_config p =
     (let parts = map (\<lambda>(action, entries, label). parse_entries action label entries)
            [(rule_action.Allow, pp_allow p, ''allow''), (rule_action.Deny, pp_deny p, ''deny''),
             (rule_action.Ask, pp_ask p, ''ask'')]
      in (permission_config_new (concat (map fst parts)), concat (map snd parts)))"

fun type_of :: "json \<Rightarrow> str" where
  "type_of JNull = ''null''"
| "type_of (JBool _) = ''boolean''"
| "type_of (JNum _ _) = ''number''"
| "type_of (JStr _) = ''string''"
| "type_of (JArr _) = ''array''"
| "type_of (JObj _) = ''object''"

fun json_as_array :: "json \<Rightarrow> json list option" where
  "json_as_array (JArr xs) = Some xs"
| "json_as_array _ = None"

fun string_items :: "nat \<Rightarrow> json list \<Rightarrow> str list \<times> str list" where
  "string_items i [] = ([], [])"
| "string_items i (v # vs) =
     (let (strings, warnings) = string_items (i + 1) vs
      in case json_as_str v of
           Some s \<Rightarrow> (s # strings, warnings)
         | None \<Rightarrow> (strings, (''permissions array index '' @ show_nat i @ '': expected string, got '' @ type_of v)
                               # warnings))"

definition extract_string_array :: "json option \<Rightarrow> str list \<times> str list" where
  "extract_string_array value =
     (case value of
        None \<Rightarrow> ([], [])
      | Some (JArr arr) \<Rightarrow> string_items 0 arr
      | Some other \<Rightarrow> ([], [''permissions field: expected array, got '' @ type_of other]))"

definition extract_default_mode :: "json \<Rightarrow> str option" where
  "extract_default_mode value =
     (case Option.bind (json_get value ''permissions'') (\<lambda>perms. json_get perms ''defaultMode'') of
        Some dm \<Rightarrow> json_as_str dm
      | None \<Rightarrow> Option.bind (json_get value ''defaultMode'') json_as_str)"

definition extract_additional_directories :: "json \<Rightarrow> str list option" where
  "extract_additional_directories value =
     map_option (List.map_filter json_as_str)
       (case Option.bind (json_get value ''permissions'') (\<lambda>p. json_get p ''additionalDirectories'') of
          Some nested \<Rightarrow> json_as_array nested
        | None \<Rightarrow> Option.bind (json_get value ''additionalDirectories'') json_as_array)"

fun env_value :: "json \<Rightarrow> str option" where
  "env_value (JStr s) = Some s"
| "env_value (JNum i text) = Some text"
| "env_value (JBool b) = Some (if b then ''true'' else ''false'')"
| "env_value _ = None"

definition extract_string_map :: "json option \<Rightarrow> (str \<times> str) list option" where
  "extract_string_map value =
     (case value of
        Some (JObj obj) \<Rightarrow>
          (let result = List.map_filter (\<lambda>(key, val). map_option (Pair key) (env_value val)) obj
           in if result = [] then None else Some result)
      | _ \<Rightarrow> None)"

definition settings_of_json :: "json \<Rightarrow> claude_settings" where
  "settings_of_json value =
     \<lparr>cs_permissions =
        Option.bind (json_get value ''permissions'')
          (\<lambda>p. let allow = fst (extract_string_array (json_get p ''allow''));
                   deny = fst (extract_string_array (json_get p ''deny''));
                   ask = fst (extract_string_array (json_get p ''ask''))
               in if allow = [] \<and> deny = [] \<and> ask = [] then None
                  else Some \<lparr>pp_allow = allow, pp_deny = deny, pp_ask = ask\<rparr>),
      cs_default_mode = extract_default_mode value,
      cs_additional_directories = extract_additional_directories value,
      cs_env = extract_string_map (json_get value ''env'')\<rparr>"

definition load_claude_settings :: "externals \<Rightarrow> 'v host \<Rightarrow> path \<Rightarrow> claude_settings option" where
  "load_claude_settings E H path =
     (case read_to_string H path of
        Inl _ \<Rightarrow> None
      | Inr content \<Rightarrow> map_option settings_of_json (json_from_str E content))"

subsection \<open>Which files\<close>

definition settings_files :: "path \<Rightarrow> path list" where
  "settings_files dir =
     (let claude_dir = path_join dir ''.claude''
      in [path_join claude_dir ''settings.local.json'', path_join claude_dir ''settings.json''])"

definition global_claude_settings_paths :: "'v host \<Rightarrow> path list" where
  "global_claude_settings_paths H =
     (case dirs_home_dir H of Some home \<Rightarrow> settings_files home | None \<Rightarrow> [])"

definition canonicalize_or_owned :: "'v host \<Rightarrow> path \<Rightarrow> path" where
  "canonicalize_or_owned H p = (case h_canonicalize H p of Some q \<Rightarrow> q | None \<Rightarrow> p)"

definition is_home_dir :: "'v host \<Rightarrow> path \<Rightarrow> bool" where
  "is_home_dir H p =
     (case dirs_home_dir H of
        None \<Rightarrow> False
      | Some home \<Rightarrow> canonicalize_or_owned H p = canonicalize_or_owned H home)"

function find_repo_root :: "'v host \<Rightarrow> path \<Rightarrow> path option" where
  "find_repo_root H current =
     (if path_exists H (path_join current ''.git'') then Some current
      else (case path_parent current of Some parent \<Rightarrow> find_repo_root H parent | None \<Rightarrow> None))"
  by pat_completeness auto
termination
  by (relation "measure (\<lambda>(H, p). length p)") (auto dest: path_parent_shorter)

function walk_up :: "path \<Rightarrow> path \<Rightarrow> path list" where
  "walk_up repo_root current =
     current # (if current = repo_root then []
                else (case path_parent current of Some parent \<Rightarrow> walk_up repo_root parent | None \<Rightarrow> []))"
  by pat_completeness auto
termination
  by (relation "measure (\<lambda>(r, p). length p)") (auto dest: path_parent_shorter)

declare find_repo_root.simps [simp del] walk_up.simps [simp del]

definition project_root :: "'v host \<Rightarrow> path \<Rightarrow> path" where
  "project_root H cwd =
     (case find_repo_root H cwd of
        Some root \<Rightarrow> if is_home_dir H root then cwd else root
      | None \<Rightarrow> cwd)"

definition collect_project_claude_paths :: "'v host \<Rightarrow> path \<Rightarrow> path list" where
  "collect_project_claude_paths H cwd = concat (map settings_files (walk_up (project_root H cwd) cwd))"

definition find_claude_settings_paths :: "'v host \<Rightarrow> path \<Rightarrow> path list" where
  "find_claude_settings_paths H cwd = collect_project_claude_paths H cwd @ global_claude_settings_paths H"

definition has_claude_compat :: "'v host \<Rightarrow> path \<Rightarrow> bool" where
  "has_claude_compat H cwd = list_ex (path_exists H) (find_claude_settings_paths H cwd)"

definition project_claude_settings_present :: "'v host \<Rightarrow> path \<Rightarrow> bool" where
  "project_claude_settings_present H cwd = list_ex (is_file H) (collect_project_claude_paths H cwd)"

subsection \<open>The import marker and the environment\<close>

definition is_claude_import_marked :: "'v host \<Rightarrow> bool" where
  "is_claude_import_marked H =
     (if env_var H ''_QIDI_CLAUDE_MARKER_OVERRIDE'' = Some ''1'' then True
      else (case user_grok_home H of
              None \<Rightarrow> False
            | Some g \<Rightarrow>
                (case read_to_string H (path_join g ''config.toml'') of
                   Inl _ \<Rightarrow> False
                 | Inr contents \<Rightarrow>
                     (case toml_from_str H contents of
                        Inl _ \<Rightarrow> False
                      | Inr v \<Rightarrow>
                          (case Option.bind (Option.bind (toml_get v ''claude_compat'')
                                   (\<lambda>c. toml_get c ''imported'')) toml_as_bool of
                             Some b \<Rightarrow> b | None \<Rightarrow> False)))))"

definition env_of :: "externals \<Rightarrow> 'v host \<Rightarrow> path \<Rightarrow> (str \<times> str) list" where
  "env_of E H path =
     (case Option.bind (load_claude_settings E H path) cs_env of Some env \<Rightarrow> env | None \<Rightarrow> [])"

definition load_claude_env_with_project :: "externals \<Rightarrow> 'v host \<Rightarrow> path \<Rightarrow> bool \<Rightarrow> (str \<rightharpoonup> str)" where
  "load_claude_env_with_project E H cwd project_trusted =
     (if is_claude_import_marked H then Map.empty
      else (let paths = (if project_trusted then find_claude_settings_paths H cwd else global_claude_settings_paths H)
            in foldl (\<lambda>merged path. merged ++ map_of (env_of E H path)) Map.empty (rev paths)))"

subsection \<open>Lemmas: the walk\<close>

lemma walk_up_mem:
  "d \<in> set (walk_up r p) \<longleftrightarrow>
     d = p \<or> (p \<noteq> r \<and> (\<exists>q. path_parent p = Some q \<and> d \<in> set (walk_up r q)))"
  by (subst walk_up.simps) (auto split: option.splits)

lemma walk_up_prefixes: "d \<in> set (walk_up r p) \<Longrightarrow> prefix d p"
proof (induction r p rule: walk_up.induct)
  case (1 r p)
  show ?case
  proof (cases "d = p")
    case False
    with 1(2) obtain q where q: "p \<noteq> r" "path_parent p = Some q" "d \<in> set (walk_up r q)"
      using walk_up_mem[of d r p] by auto
    from 1(1)[OF q] path_parent_prefix[OF q(2)] show ?thesis by (rule prefix_order.order_trans)
  qed simp
qed

lemma path_parent_butlast: "path_parent p = Some q \<Longrightarrow> prefix r p \<Longrightarrow> r \<noteq> p \<Longrightarrow> prefix r q"
  by (auto simp: path_parent_def prefix_def split: if_splits)
    (metis append_Nil2 butlast_append)

text \<open>
  The walk visits a directory exactly when it lies between the root and the start, the root included; a
  start that is not below the root goes up to the top.
\<close>

lemma walk_up_iff:
  assumes "prefix r p" "''/'' \<notin> set (tl p)" "r \<noteq> [] \<or> ''/'' \<notin> set p"
  shows "d \<in> set (walk_up r p) \<longleftrightarrow> prefix r d \<and> prefix d p"
  using assms
proof (induction r p rule: walk_up.induct)
  case (1 r p)
  show ?case
  proof (cases "p = r")
    case True
    then show ?thesis
      by (subst walk_up.simps) (auto intro: prefix_order.order_antisym)
  next
    case False
    have p: "p \<noteq> []" using False 1(2) by auto
    have "last p \<noteq> ''/''"
    proof
      assume l: "last p = ''/''"
      then have "tl p = []" using p 1(3) by (metis last_in_set last_tl)
      with p l have "p = [''/'']" by (cases p) auto
      with False 1(2,4) show False by (cases r) auto
    qed
    with p have q: "path_parent p = Some (butlast p)" by (simp add: path_parent_def)
    have "set (tl (butlast p)) \<subseteq> set (tl p)"
      by (metis butlast_tl in_set_butlastD subsetI)
    with 1(3,4) have tl: "''/'' \<notin> set (tl (butlast p))" "r \<noteq> [] \<or> ''/'' \<notin> set (butlast p)"
      by (auto dest: in_set_butlastD)
    from 1(1)[OF False q path_parent_butlast[OF q 1(2)] tl] False
    have "d \<in> set (walk_up r (butlast p)) \<longleftrightarrow> prefix r d \<and> prefix d (butlast p)" by metis
    moreover have "d \<in> set (walk_up r p) \<longleftrightarrow> d = p \<or> d \<in> set (walk_up r (butlast p))"
      using walk_up_mem[of d r p] False q by auto
    moreover have "prefix d p \<longleftrightarrow> d = p \<or> prefix d (butlast p)"
      using path_parent_butlast[OF q] path_parent_prefix[OF q] by (metis prefix_order.order_trans prefix_order.order_refl)
    ultimately show ?thesis using 1(2) by auto
  qed
qed

lemma find_repo_root_prefix: "find_repo_root H p = Some r \<Longrightarrow> prefix r p"
proof (induction H p rule: find_repo_root.induct)
  case (1 H p)
  then show ?case
    by (subst (asm) (2) find_repo_root.simps)
      (auto split: if_splits option.splits dest: path_parent_prefix intro: prefix_order.order_trans)
qed

lemma project_root_prefix: "prefix (project_root H cwd) cwd"
  by (auto simp: project_root_def find_repo_root_prefix split: option.splits)

lemma settings_files_dir: "f \<in> set (settings_files d) \<longleftrightarrow>
    f = d @ [''.claude'', ''settings.local.json''] \<or> f = d @ [''.claude'', ''settings.json'']"
  by (auto simp: settings_files_def path_join_def)

subsection \<open>Lemmas: the environment\<close>

lemma env_fold:
  "foldl (\<lambda>merged path. merged ++ map_of (f path)) m (rev paths) k =
     (case find (\<lambda>p. map_of (f p) k \<noteq> None) paths of Some p \<Rightarrow> map_of (f p) k | None \<Rightarrow> m k)"
  by (induction paths) (auto simp: map_add_def split: option.splits)

end
