(* ===== verification/Mcp_Policy.thy ===== *)
theory Mcp_Policy
  imports Config_Host Domain_Matcher
begin

section \<open>MCP servers and marketplaces of a managed policy (\<open>permission/resolution.rs\<close>, second part)\<close>

text \<open>
  The allow and deny lists of MCP servers and of marketplaces: how entries are read, how a name, a command
  and a URL are matched, and the decision. A deny pattern is compared by host, so that scheme, port, user
  information and query cannot get around it; an allow pattern is compared literally. \<open>glob_icase p\<close> is
  \<open>glob::Pattern::new(p)\<close> matched without case and without treating \<open>/\<close> specially.
\<close>

type_synonym globs = "str \<Rightarrow> (str \<Rightarrow> bool) option"

subsection \<open>Servers and entries\<close>

datatype mcp_server =
    Http (server_name: str) (server_url: str)
  | Sse (server_name: str) (server_url: str)
  | Stdio (server_name: str) (server_command: str)
  | OtherServer

datatype allowed_mcp_server =
    AllowedHttp str
  | AllowedStdio str
  | AllowedName str

record mcp_server_allowlist =
  mcp_entries :: "allowed_mcp_server list"
  mcp_deny_entries :: "allowed_mcp_server list"
  url_patterns :: "str list"
  commands :: "str list"
  names :: "str list"
  deny_url_patterns :: "str list"
  deny_commands :: "str list"
  deny_names :: "str list"
  mcp_source_path :: "path option"

fun split_mcp_entries :: "allowed_mcp_server list \<Rightarrow> str list \<times> str list \<times> str list" where
  "split_mcp_entries [] = ([], [], [])"
| "split_mcp_entries (e # es) =
     (let (us, cs, ns) = split_mcp_entries es
      in case e of
           AllowedHttp u \<Rightarrow> (u # us, cs, ns)
         | AllowedStdio c \<Rightarrow> (us, c # cs, ns)
         | AllowedName n \<Rightarrow> (us, cs, n # ns))"

definition mcp_server_allowlist_new ::
    "allowed_mcp_server list \<Rightarrow> allowed_mcp_server list \<Rightarrow> path option \<Rightarrow> mcp_server_allowlist" where
  "mcp_server_allowlist_new entries deny_entries source_path =
     (let (us, cs, ns) = split_mcp_entries entries; (dus, dcs, dns) = split_mcp_entries deny_entries
      in \<lparr>mcp_entries = entries, mcp_deny_entries = deny_entries, url_patterns = us, commands = cs, names = ns,
          deny_url_patterns = dus, deny_commands = dcs, deny_names = dns, mcp_source_path = source_path\<rparr>)"

definition mcp_is_restricted :: "mcp_server_allowlist \<Rightarrow> bool" where
  "mcp_is_restricted p = (mcp_entries p \<noteq> [] \<or> mcp_deny_entries p \<noteq> [])"

definition parse_mcp_entry :: "json \<Rightarrow> allowed_mcp_server option" where
  "parse_mcp_entry entry =
     (case Option.bind (json_get entry ''serverUrl'') json_as_str of
        Some url \<Rightarrow> Some (AllowedHttp url)
      | None \<Rightarrow>
          (case Option.bind (json_get entry ''command'') json_as_str of
             Some cmd \<Rightarrow> Some (AllowedStdio cmd)
           | None \<Rightarrow>
               map_option AllowedName (Option.bind (json_get entry ''serverName'') json_as_str)))"

definition parse_mcp_entries :: "json \<Rightarrow> str \<Rightarrow> allowed_mcp_server list" where
  "parse_mcp_entries json key =
     (case json_get json key of
        Some (JArr arr) \<Rightarrow> List.map_filter parse_mcp_entry arr
      | _ \<Rightarrow> [])"

subsection \<open>Matching a name\<close>

definition MANAGED_MCP_PREFIX :: str where "MANAGED_MCP_PREFIX = ''grok_com_''"

definition MANAGED_MCP_NAME_MAX_CHARS :: nat where "MANAGED_MCP_NAME_MAX_CHARS = 39"

definition normalize_managed_name :: "externals \<Rightarrow> str \<Rightarrow> str" where
  "normalize_managed_name E bare =
     map (\<lambda>c. if c = CHR '' '' then CHR ''_'' else c) (to_lowercase E bare)"

definition mcp_name_key :: "externals \<Rightarrow> str \<Rightarrow> str" where
  "mcp_name_key E s =
     (let bare = (case strip_prefix s MANAGED_MCP_PREFIX of Some r \<Rightarrow> r | None \<Rightarrow> s)
      in take_chars (MANAGED_MCP_NAME_MAX_CHARS - length MANAGED_MCP_PREFIX) (normalize_managed_name E bare))"

definition mcp_name_matches :: "externals \<Rightarrow> str \<Rightarrow> str \<Rightarrow> bool" where
  "mcp_name_matches E pattern name =
     (mcp_name_key E pattern \<noteq> [] \<and> mcp_name_key E pattern = mcp_name_key E name)"

fun mcp_server_name :: "mcp_server \<Rightarrow> str" where
  "mcp_server_name (Http name url) = name"
| "mcp_server_name (Sse name url) = name"
| "mcp_server_name (Stdio name command) = name"
| "mcp_server_name OtherServer = []"

subsection \<open>Matching a URL\<close>

definition strip_url_query :: "str \<Rightarrow> str" where
  "strip_url_query url = takeWhile (\<lambda>c. c \<noteq> CHR ''?'') (takeWhile (\<lambda>c. c \<noteq> CHR ''#'') url)"

definition url_glob_matches :: "globs \<Rightarrow> str \<Rightarrow> str \<Rightarrow> bool" where
  "url_glob_matches glob_icase pattern url =
     (case glob_icase pattern of Some p \<Rightarrow> p (strip_url_query url) | None \<Rightarrow> False)"

definition split_host_path :: "str \<Rightarrow> str option \<times> str" where
  "split_host_path s =
     (let after_scheme = (case split_once ''://'' s of Some (_, rest) \<Rightarrow> rest | None \<Rightarrow> s);
          authority = takeWhile (\<lambda>c. c \<noteq> CHR ''/'') after_scheme;
          path = dropWhile (\<lambda>c. c \<noteq> CHR ''/'') after_scheme;
          authority = rev (takeWhile (\<lambda>c. c \<noteq> CHR ''@'') (rev authority));
          host = takeWhile (\<lambda>c. c \<noteq> CHR '':'') authority;
          host = to_ascii_lowercase (trim_end_matches CHR ''.'' host)
      in (if host = [] then None else Some host, path))"

definition url_deny_matches :: "globs \<Rightarrow> str \<Rightarrow> str \<Rightarrow> bool" where
  "url_deny_matches glob_icase pattern url =
     (let glob_match = (\<lambda>pat s. case glob_icase pat of Some p \<Rightarrow> p s | None \<Rightarrow> False)
      in case split_host_path pattern of
           (None, _) \<Rightarrow> False
         | (Some pat_host, pat_path) \<Rightarrow>
             (case split_host_path (strip_url_query url) of
                (None, _) \<Rightarrow> False
              | (Some url_host, u_path) \<Rightarrow>
                  if \<not> glob_match pat_host url_host then False
                  else if pat_path = [] then True
                  else glob_match pat_path (if u_path = [] then ''/'' else u_path)))"

subsection \<open>The decision\<close>

definition is_server_denied :: "externals \<Rightarrow> globs \<Rightarrow> mcp_server_allowlist \<Rightarrow> mcp_server \<Rightarrow> bool" where
  "is_server_denied E glob_icase p server =
     (if list_ex (\<lambda>pat. mcp_name_matches E pat (mcp_server_name server)) (deny_names p) then True
      else (case server of
              Http _ url \<Rightarrow> list_ex (\<lambda>pat. url_deny_matches glob_icase pat url) (deny_url_patterns p)
            | Sse _ url \<Rightarrow> list_ex (\<lambda>pat. url_deny_matches glob_icase pat url) (deny_url_patterns p)
            | Stdio _ command \<Rightarrow> list_ex (\<lambda>c. c = utf8_lossy command) (deny_commands p)
            | OtherServer \<Rightarrow> False))"

definition is_server_allowed :: "externals \<Rightarrow> globs \<Rightarrow> mcp_server_allowlist \<Rightarrow> mcp_server \<Rightarrow> bool" where
  "is_server_allowed E glob_icase p server =
     (if \<not> mcp_is_restricted p then True
      else if is_server_denied E glob_icase p server then False
      else
        (let restricted = (names p \<noteq> []);
             matched = list_ex (\<lambda>pat. mcp_name_matches E pat (mcp_server_name server)) (names p);
             by_url = (\<lambda>url. (url_patterns p \<noteq> [], list_ex (\<lambda>pat. url_glob_matches glob_icase pat url) (url_patterns p)));
             (restricted', matched') =
               (case server of
                  Http _ url \<Rightarrow> by_url url
                | Sse _ url \<Rightarrow> by_url url
                | Stdio _ command \<Rightarrow> (commands p \<noteq> [], list_ex (\<lambda>c. c = utf8_lossy command) (commands p))
                | OtherServer \<Rightarrow> (False, False))
         in \<not> (restricted \<or> restricted') \<or> (matched \<or> matched')))"

subsection \<open>Marketplaces\<close>

record marketplace_allowlist =
  allowed_urls :: "str list"
  marketplace_source_path :: "path option"

function trim_end_suffix :: "str \<Rightarrow> str \<Rightarrow> str" where
  "trim_end_suffix suf s = (if suf \<noteq> [] \<and> ends_with s suf then trim_end_suffix suf (take (length s - length suf) s) else s)"
  by pat_completeness auto
termination
proof (relation "measure (\<lambda>(suf, s). length s)")
  fix suf s :: str
  assume a: "suf \<noteq> [] \<and> ends_with s suf"
  then have "suffix suf s" by (simp add: ends_with_iff_suffix)
  then have "length suf \<le> length s" by (rule suffix_length_le)
  then show "((suf, take (length s - length suf) s), suf, s) \<in> measure (\<lambda>(suf, s). length s)"
    using a by (cases suf) auto
qed simp

declare trim_end_suffix.simps [simp del]

definition normalize_git_url :: "externals \<Rightarrow> str \<Rightarrow> str" where
  "normalize_git_url E url = trim_end_suffix ''.git'' (to_lowercase E url)"

definition marketplace_is_restricted :: "marketplace_allowlist \<Rightarrow> bool" where
  "marketplace_is_restricted m = (allowed_urls m \<noteq> [])"

definition is_url_allowed :: "externals \<Rightarrow> marketplace_allowlist \<Rightarrow> str \<Rightarrow> bool" where
  "is_url_allowed E m url =
     (if allowed_urls m = [] then True
      else list_ex (\<lambda>allowed. normalize_git_url E allowed = normalize_git_url E url) (allowed_urls m))"

definition block_reason :: "marketplace_allowlist \<Rightarrow> str" where
  "block_reason m =
     (case marketplace_source_path m of
        Some p \<Rightarrow> ''source not in strictKnownMarketplaces ('' @ path_display p @ '')''
      | None \<Rightarrow> ''source not in strictKnownMarketplaces'')"

definition marketplace_entry :: "json \<Rightarrow> str option" where
  "marketplace_entry entry =
     (case Option.bind (json_get entry ''source'') json_as_str of
        Some source \<Rightarrow> if source \<noteq> ''git'' then None else Option.bind (json_get entry ''url'') json_as_str
      | None \<Rightarrow> None)"

definition parse_marketplaces :: "json \<Rightarrow> str list" where
  "parse_marketplaces json =
     (case json_get json ''strictKnownMarketplaces'' of
        Some (JArr arr) \<Rightarrow> List.map_filter marketplace_entry arr
      | _ \<Rightarrow> [])"

subsection \<open>Lemmas: the host of a URL\<close>

lemma takeWhile_stop: "c \<notin> set a \<Longrightarrow> takeWhile (\<lambda>x. x \<noteq> c) (a @ c # b) = a"
  by (induction a) auto

lemma takeWhile_none: "c \<notin> set a \<Longrightarrow> takeWhile (\<lambda>x. x \<noteq> c) a = a"
  by (induction a) auto

lemma split_once_scheme:
  "CHR '':'' \<notin> set a \<Longrightarrow> split_once ''://'' (a @ ''://'' @ b) = Some (a, b)"
  by (induction a) (auto simp: Let_def)

lemma split_once_absent: "c \<notin> set s \<Longrightarrow> split_once (c # d) s = None"
  by (induction s) auto

lemma after_at:
  assumes "CHR ''@'' \<notin> set b"
  shows "rev (takeWhile (\<lambda>c. c \<noteq> CHR ''@'') (rev (a @ CHR ''@'' # b))) = b"
    "rev (takeWhile (\<lambda>c. c \<noteq> CHR ''@'') (rev b)) = b"
proof -
  have b: "CHR ''@'' \<notin> set (rev b)" using assms by simp
  show "rev (takeWhile (\<lambda>c. c \<noteq> CHR ''@'') (rev (a @ CHR ''@'' # b))) = b"
    using takeWhile_stop[OF b, of "rev a"] by simp
  show "rev (takeWhile (\<lambda>c. c \<noteq> CHR ''@'') (rev b)) = b" by (simp only: takeWhile_none[OF b] rev_rev_ident)
qed

text \<open>
  The parts of a URL: a scheme, optional user information, a host, an optional port and the rest, which
  starts a path, a query or a fragment.
\<close>

definition url_of :: "str \<Rightarrow> str option \<Rightarrow> str \<Rightarrow> str option \<Rightarrow> str \<Rightarrow> str" where
  "url_of scheme user host port rest =
     scheme @ ''://'' @ (case user of Some u \<Rightarrow> u @ ''@'' | None \<Rightarrow> []) @ host
       @ (case port of Some p \<Rightarrow> CHR '':'' # p | None \<Rightarrow> []) @ rest"

definition plain_part :: "str \<Rightarrow> bool" where
  "plain_part s = (set s \<inter> {CHR ''/'', CHR ''?'', CHR ''#'', CHR ''@''} = {})"

definition url_parts :: "str \<Rightarrow> str option \<Rightarrow> str \<Rightarrow> str option \<Rightarrow> str \<Rightarrow> bool" where
  "url_parts scheme user host port rest =
     (plain_part scheme \<and> CHR '':'' \<notin> set scheme \<and> (\<forall>u. user = Some u \<longrightarrow> plain_part u)
      \<and> plain_part host \<and> CHR '':'' \<notin> set host \<and> (\<forall>p. port = Some p \<longrightarrow> plain_part p)
      \<and> (rest = [] \<or> hd rest \<in> {CHR ''/'', CHR ''?'', CHR ''#''}))"

lemma takeWhile_append_all: "c \<notin> set a \<Longrightarrow> takeWhile (\<lambda>x. x \<noteq> c) (a @ b) = a @ takeWhile (\<lambda>x. x \<noteq> c) b"
  by (induction a) auto

lemma strip_query_url:
  assumes "url_parts scheme user host port rest"
  shows "strip_url_query (url_of scheme user host port rest) = url_of scheme user host port (strip_url_query rest)
    \<and> (strip_url_query rest = [] \<or> hd (strip_url_query rest) = CHR ''/'')"
proof -
  let ?front = "scheme @ ''://'' @ (case user of Some u \<Rightarrow> u @ ''@'' | None \<Rightarrow> []) @ host
       @ (case port of Some p \<Rightarrow> CHR '':'' # p | None \<Rightarrow> [])"
  have "CHR ''#'' \<notin> set ?front" "CHR ''?'' \<notin> set ?front"
    using assms by (auto simp: url_parts_def plain_part_def split: option.splits)
  then have "strip_url_query (?front @ rest) = ?front @ strip_url_query rest"
    by (simp add: strip_url_query_def takeWhile_append_all del: append_assoc)
  moreover have "strip_url_query rest = [] \<or> hd (strip_url_query rest) = CHR ''/''"
    using assms by (cases rest) (auto simp: url_parts_def strip_url_query_def)
  ultimately show ?thesis by (simp add: url_of_def)
qed

lemma host_of_url:
  assumes "url_parts scheme user host port rest" "rest = [] \<or> hd rest = CHR ''/''"
    and "h = to_ascii_lowercase (trim_end_matches CHR ''.'' host)" "h \<noteq> []"
  shows "split_host_path (url_of scheme user host port rest) = (Some h, rest)"
proof -
  let ?auth = "(case user of Some u \<Rightarrow> u @ ''@'' | None \<Rightarrow> []) @ host
       @ (case port of Some p \<Rightarrow> CHR '':'' # p | None \<Rightarrow> [])"
  let ?hp = "host @ (case port of Some p \<Rightarrow> CHR '':'' # p | None \<Rightarrow> [])"
  have p: "CHR '':'' \<notin> set scheme" "CHR ''/'' \<notin> set ?auth" "CHR ''@'' \<notin> set ?hp" "CHR '':'' \<notin> set host"
    using assms(1) by (auto simp: url_parts_def plain_part_def split: option.splits)
  have s: "split_once ''://'' (url_of scheme user host port rest) = Some (scheme, ?auth @ rest)"
    using split_once_scheme[OF p(1), of "?auth @ rest"] by (simp add: url_of_def)
  have a: "takeWhile (\<lambda>c. c \<noteq> CHR ''/'') (?auth @ rest) = ?auth"
    using assms(2) p(2) by (cases rest) (simp_all add: takeWhile_append_all takeWhile_none del: append_assoc)
  have d: "dropWhile (\<lambda>c. c \<noteq> CHR ''/'') (?auth @ rest) = rest"
    using takeWhile_dropWhile_id[of "\<lambda>c. c \<noteq> CHR ''/''" "?auth @ rest"] unfolding a by simp
  have h: "rev (takeWhile (\<lambda>c. c \<noteq> CHR ''@'') (rev ?auth)) = ?hp"
    using after_at[OF p(3)] by (cases user) simp_all
  have t: "takeWhile (\<lambda>c. c \<noteq> CHR '':'') ?hp = host"
    using p(4) by (cases port) (simp_all add: takeWhile_stop takeWhile_none)
  show ?thesis
    unfolding split_host_path_def Let_def s option.case prod.case a d h t assms(3)[symmetric]
    using assms(4) by simp
qed

lemma host_of_pattern:
  assumes "plain_part h" "CHR '':'' \<notin> set h" "h \<noteq> []" "last h \<noteq> CHR ''.''" "to_ascii_lowercase h = h"
  shows "split_host_path h = (Some h, [])"
proof -
  have p: "CHR ''/'' \<notin> set h" "CHR ''@'' \<notin> set h" using assms(1) by (auto simp: plain_part_def)
  have "dropWhile (\<lambda>c. c \<noteq> CHR ''/'') h = []" using p(1) by (induction h) auto
  moreover have "trim_end_matches CHR ''.'' h = h"
    using assms(3,4) by (cases "rev h") (auto simp: trim_end_matches_def last_rev[symmetric] hd_rev)
  ultimately show ?thesis
    using assms p after_at(2)[OF p(2)]
    by (simp add: split_host_path_def split_once_absent takeWhile_none Let_def)
qed

subsection \<open>Properties\<close>

text \<open>A denied host cannot be reached by respelling its URL. When the deny list names a host, a server
  on that host is denied, and so refused whatever the allow list says, for every scheme, user information,
  letter case, trailing dots, port, path, query and fragment of its URL.\<close>

theorem denied_host_stays_denied:
  assumes "plain_part h" "CHR '':'' \<notin> set h" "h \<noteq> []" "last h \<noteq> CHR ''.''" "to_ascii_lowercase h = h"
    and "glob_icase h = Some g" "g h"
    and "h \<in> set (deny_url_patterns p)" "mcp_deny_entries p \<noteq> []"
    and "url_parts scheme user host port rest" "to_ascii_lowercase (trim_end_matches CHR ''.'' host) = h"
  shows "\<not> is_server_allowed E glob_icase p (Http name (url_of scheme user host port rest))
    \<and> \<not> is_server_allowed E glob_icase p (Sse name (url_of scheme user host port rest))"
proof -
  let ?rest = "strip_url_query rest"
  note q = strip_query_url[OF assms(10)]
  have "url_parts scheme user host port ?rest" using assms(10) q by (auto simp: url_parts_def)
  from host_of_url[OF this _ assms(11)[symmetric] assms(3)] q
  have "split_host_path (strip_url_query (url_of scheme user host port rest)) = (Some h, ?rest)" by simp
  with host_of_pattern[OF assms(1-5)] assms(6,7)
  have "url_deny_matches glob_icase h (url_of scheme user host port rest)"
    by (simp add: url_deny_matches_def)
  with assms(8,9) show ?thesis
    by (auto simp: is_server_allowed_def is_server_denied_def mcp_is_restricted_def list_ex_iff)
qed

theorem denied_host_stays_denied_witness:
  "\<not> is_server_allowed (example_externals (\<lambda>_. None)) (\<lambda>p. Some (\<lambda>s. s = p))
       (mcp_server_allowlist_new [AllowedHttp ''https://a.b/mcp''] [AllowedHttp ''a.b''] None)
       (Http ''n'' ''ws://u@A.b.:8080/mcp?k=v'')"
proof -
  let ?p = "mcp_server_allowlist_new [AllowedHttp ''https://a.b/mcp''] [AllowedHttp ''a.b''] None"
  have parts: "url_parts ''ws'' (Some ''u'') ''A.b.'' (Some ''8080'') ''/mcp?k=v''"
    by (simp add: url_parts_def plain_part_def)
  have deny: "''a.b'' \<in> set (deny_url_patterns ?p)" "mcp_deny_entries ?p \<noteq> []"
    by (simp_all add: mcp_server_allowlist_new_def)
  have host: "to_ascii_lowercase (trim_end_matches CHR ''.'' ''A.b.'') = ''a.b''"
    by code_simp
  have plain: "plain_part ''a.b''" "to_ascii_lowercase ''a.b'' = ''a.b''"
    by code_simp+
  show ?thesis
    using denied_host_stays_denied[OF plain(1) _ _ _ plain(2) _ _ deny parts host,
        of "\<lambda>p. Some (\<lambda>s. s = p)" "\<lambda>s. s = ''a.b''" "example_externals (\<lambda>_. None)" "''n''"]
    by (simp add: url_of_def)
qed

text \<open>
  An IPv6 literal loses its closing bracket to the port split, and an unclosed bracket is not a glob: a deny
  entry for such a host never matches.
\<close>

lemma ipv6_deny_never_matches:
  "glob_icase ''['' = None \<Longrightarrow> \<not> url_deny_matches glob_icase ''http://[::1]/*'' url"
  by (simp add: url_deny_matches_def split_host_path_def Let_def trim_end_matches_def to_ascii_lowercase_def
      ascii_lower_def split: prod.splits option.splits)

end
