(* ===== verification/Permission_Sources.thy ===== *)
theory Permission_Sources
  imports Claude_Settings Mcp_Policy Config_Merge Policy
begin

section \<open>Where rules come from (\<open>permission/resolution.rs\<close>)\<close>

text \<open>
  The resolution of a session's rules: requirements, managed settings, managed configuration, the
  \<open>config.toml\<close> files and the vendor settings are read, tagged with their source and merged; the mode is
  taken from the managed settings or the most specific file; under the administrator's pin the blanket
  allows of untrusted sources are dropped. \<open>read_verbose\<close> is the deserializer derived for the verbose form
  of a \<open>[permission]\<close> section.
\<close>

subsection \<open>Sources\<close>

datatype requirement_source =
    Unknown
  | Requirements path
  | SystemRequirements path
  | ManagedSettings path
  | ManagedConfig path
  | Config path
  | Settings path

fun source_display :: "requirement_source \<Rightarrow> str" where
  "source_display Unknown = ''<unknown>''"
| "source_display (Requirements p) = path_display p @ '' (requirements)''"
| "source_display (SystemRequirements p) = path_display p @ '' (system requirements)''"
| "source_display (ManagedSettings p) = path_display p @ '' (managed-settings)''"
| "source_display (ManagedConfig p) = path_display p @ '' (managed config)''"
| "source_display (Config p) = path_display p @ '' (config)''"
| "source_display (Settings p) = path_display p @ '' (settings)''"

record sourced_rule =
  sr_value :: permission_rule
  sr_source :: requirement_source

record skipped_permission =
  sk_rule :: str
  sk_reason :: str

definition tag_with_source :: "permission_rule list \<Rightarrow> requirement_source \<Rightarrow> sourced_rule list" where
  "tag_with_source rules source = map (\<lambda>rule. \<lparr>sr_value = rule, sr_source = source\<rparr>) rules"

subsection \<open>Modes\<close>

datatype user_default_mode_load = Apply | SkipManagedOwns

definition catch_all_allow :: "tool_filter \<Rightarrow> permission_rule" where
  "catch_all_allow tool =
     \<lparr>pr_action = rule_action.Allow, pr_tool = tool, pr_pattern = None, pr_pattern_mode = Glob\<rparr>"

definition synthetic_rules_for_default_mode ::
    "default_permission_mode \<Rightarrow> str option \<Rightarrow> permission_rule list \<times> skipped_permission list \<times> bool" where
  "synthetic_rules_for_default_mode mode policy_block =
     (let e = effects mode
      in if bypass_permissions e then
           (case policy_block of
              Some reason \<Rightarrow> ([], [\<lparr>sk_rule = ''defaultMode=bypassPermissions'', sk_reason = reason\<rparr>], True)
            | None \<Rightarrow> ([catch_all_allow Any], [], False))
         else if accept_edits e then ([catch_all_allow tool_filter.Edit], [], False)
         else ([], [], False))"

definition parse_default_mode_claiming_scope :: "str \<Rightarrow> default_permission_mode \<times> skipped_permission list" where
  "parse_default_mode_claiming_scope raw =
     (case default_permission_mode_from_str raw of
        Inr mode \<Rightarrow> (mode, [])
      | Inl invalid \<Rightarrow>
          (Default, [\<lparr>sk_rule = ''defaultMode='' @ invalid,
                      sk_reason = ''unrecognized value; treated as default''\<rparr>]))"

subsection \<open>TOML sections\<close>

type_synonym verbose_reader = "toml \<Rightarrow> permission_rule list option"

definition compact_rules :: "rule_action \<Rightarrow> toml list \<Rightarrow> permission_rule list" where
  "compact_rules action arr =
     List.map_filter (\<lambda>item. case toml_as_str item of
        Some s \<Rightarrow> (case parse_permission_rule s action of Inr rule \<Rightarrow> Some rule | Inl _ \<Rightarrow> None)
      | None \<Rightarrow> None) arr"

definition compact_key :: "toml \<Rightarrow> rule_action \<times> str \<Rightarrow> permission_rule list option" where
  "compact_key section_value ak =
     map_option (compact_rules (fst ak)) (Option.bind (toml_get section_value (snd ak)) toml_as_array)"

definition parse_toml_permission_section :: "verbose_reader \<Rightarrow> toml \<Rightarrow> permission_rule list option" where
  "parse_toml_permission_section read_verbose permission_value =
     (let found = List.map_filter (compact_key permission_value)
            [(rule_action.Deny, ''deny''), (rule_action.Allow, ''allow''), (rule_action.Ask, ''ask'')]
      in if found \<noteq> [] then Some (concat found) else read_verbose permission_value)"

definition extract_toml_permissions :: "verbose_reader \<Rightarrow> toml \<Rightarrow> requirement_source \<Rightarrow> sourced_rule list" where
  "extract_toml_permissions read_verbose config source =
     (case Option.bind (toml_get config ''permission'') (parse_toml_permission_section read_verbose) of
        Some rules \<Rightarrow> tag_with_source rules source
      | None \<Rightarrow> [])"

definition requirements_source_of :: "requirements_layer \<Rightarrow> requirement_source" where
  "requirements_source_of layer =
     (let p = path_components (label (rl_source layer))
      in if rl_is_system layer then SystemRequirements p else Requirements p)"

definition load_requirements_permissions :: "verbose_reader \<Rightarrow> 'v::linorder host \<Rightarrow> sourced_rule list" where
  "load_requirements_permissions read_verbose H =
     concat (map (\<lambda>layer. extract_toml_permissions read_verbose (rl_value layer) (requirements_source_of layer))
               (requirements_layers H))"

definition project_config_file :: "path \<Rightarrow> path" where
  "project_config_file dir = path_join (path_join dir ''.qidi'') ''config.toml''"

definition find_project_grok_configs :: "'v host \<Rightarrow> path \<Rightarrow> path list" where
  "find_project_grok_configs H cwd =
     (case git_workdir H cwd of
        Some root \<Rightarrow> rev (filter (is_file H) (map project_config_file (walk_up root cwd)))
      | None \<Rightarrow> filter (is_file H) [project_config_file cwd])"

definition load_config_rules :: "verbose_reader \<Rightarrow> 'v::linorder host \<Rightarrow> path \<Rightarrow> sourced_rule list" where
  "load_config_rules read_verbose H p =
     (case load_config_file H p of
        Inr value \<Rightarrow> extract_toml_permissions read_verbose value (Config p)
      | Inl _ \<Rightarrow> [])"

definition load_config_toml_permissions :: "verbose_reader \<Rightarrow> 'v::linorder host \<Rightarrow> path \<Rightarrow> sourced_rule list" where
  "load_config_toml_permissions read_verbose H cwd =
     (case user_grok_home H of
        Some g \<Rightarrow> (let global_path = path_join g ''config.toml''
                   in if is_file H global_path then load_config_rules read_verbose H global_path else [])
      | None \<Rightarrow> [])
     @ concat (map (load_config_rules read_verbose H) (find_project_grok_configs H cwd))"

definition managed_config_permissions :: "verbose_reader \<Rightarrow> managed_config_layer list \<Rightarrow> sourced_rule list" where
  "managed_config_permissions read_verbose layers =
     concat (map (\<lambda>layer. extract_toml_permissions read_verbose (mcl_value layer) (ManagedConfig (mcl_path layer))) layers)"

subsection \<open>The pin\<close>

definition YOLO_PIN_REASON_REQUIREMENTS :: str where
  "YOLO_PIN_REASON_REQUIREMENTS = ''always-approve disabled by managed policy ([ui] disable_bypass_permissions_mode = true in requirements.toml)''"

definition YOLO_PIN_REASON_LEGACY_YOLO :: str where
  "YOLO_PIN_REASON_LEGACY_YOLO = ''always-approve disabled by managed policy ([ui] yolo = false in requirements.toml)''"

definition requirements_lock_bool :: "toml option \<Rightarrow> str \<Rightarrow> bool option" where
  "requirements_lock_bool ui key = Option.bind (Option.bind ui (\<lambda>u. toml_get u key)) toml_as_bool"

fun resolve_yolo_policy_block :: "toml list \<Rightarrow> str option" where
  "resolve_yolo_policy_block [] = None"
| "resolve_yolo_policy_block (layer # layers) =
     (let ui = toml_get layer ''ui''
      in if requirements_lock_bool ui ''disable_bypass_permissions_mode'' = Some True then
           Some YOLO_PIN_REASON_REQUIREMENTS
         else if requirements_lock_bool ui ''yolo'' = Some False then Some YOLO_PIN_REASON_LEGACY_YOLO
         else resolve_yolo_policy_block layers)"

definition yolo_disabled_by_policy :: "'v::linorder host \<Rightarrow> str option" where
  "yolo_disabled_by_policy H = resolve_yolo_policy_block (map rl_value (requirements_layers H))"

definition is_catchall_allow :: "externals \<Rightarrow> permission_rule \<Rightarrow> bool" where
  "is_catchall_allow E rule =
     (if pr_action rule \<noteq> rule_action.Allow then False
      else if pr_tool rule \<in> {tool_filter.Read, tool_filter.Edit, tool_filter.Grep} then False
      else rule_is_catchall E rule)"

fun is_admin_source :: "requirement_source \<Rightarrow> bool" where
  "is_admin_source (SystemRequirements p) = True"
| "is_admin_source (ManagedSettings p) = True"
| "is_admin_source _ = False"

definition catchall_skip :: "str \<Rightarrow> sourced_rule \<Rightarrow> skipped_permission" where
  "catchall_skip reason sourced =
     \<lparr>sk_rule = ''allow '' @ (case pr_pattern (sr_value sourced) of Some p \<Rightarrow> p | None \<Rightarrow> ''*'') @ '' (catch-all)'',
      sk_reason = reason\<rparr>"

definition untrusted_catchall :: "externals \<Rightarrow> sourced_rule \<Rightarrow> bool" where
  "untrusted_catchall E sourced = (is_catchall_allow E (sr_value sourced) \<and> \<not> is_admin_source (sr_source sourced))"

definition drop_untrusted_catchall_allows ::
    "externals \<Rightarrow> sourced_rule list \<Rightarrow> str option \<Rightarrow> sourced_rule list \<times> skipped_permission list" where
  "drop_untrusted_catchall_allows E rules policy_block =
     (case policy_block of
        None \<Rightarrow> (rules, [])
      | Some reason \<Rightarrow>
          (filter (\<lambda>s. \<not> untrusted_catchall E s) rules,
           map (catchall_skip reason) (filter (untrusted_catchall E) rules)))"

definition deny_read_globs_from_config :: "permission_config \<Rightarrow> str list" where
  "deny_read_globs_from_config config =
     List.map_filter pr_pattern
       (filter (\<lambda>r. pr_action r = rule_action.Deny \<and> pr_tool r \<in> {tool_filter.Read, tool_filter.Grep, Any})
          (pc_rules config))"

subsection \<open>Managed settings\<close>

record managed_settings_features =
  disable_telemetry :: "bool option"
  disable_feedback :: "bool option"
  disable_yolo :: "bool option"
  features_source_path :: "path option"

record managed_settings =
  ms_features :: managed_settings_features
  ms_permissions :: "sourced_rule list"
  ms_default_mode :: "default_permission_mode option"
  ms_mcp_allowlist :: mcp_server_allowlist
  ms_marketplace_allowlist :: marketplace_allowlist

definition json_env_flag :: "json option \<Rightarrow> str \<Rightarrow> bool option" where
  "json_env_flag env key =
     (case Option.bind env (\<lambda>e. json_get e key) of
        Some (JNum n text) \<Rightarrow> Some ((case n of Some i \<Rightarrow> i | None \<Rightarrow> 0) \<noteq> 0)
      | Some (JBool b) \<Rightarrow> Some b
      | Some (JStr s) \<Rightarrow> Some (s \<notin> {''0'', [], ''false''})
      | _ \<Rightarrow> None)"

definition parse_disable_bypass_permissions :: "json \<Rightarrow> bool option" where
  "parse_disable_bypass_permissions json =
     map_option (\<lambda>val. json_as_str val = Some ''disable'')
       (Option.bind (json_get json ''permissions'') (\<lambda>p. json_get p ''disableBypassPermissionsMode''))"

text \<open>
  The derived deserializer of \<open>ParsedPermissions\<close>: a list that is missing is empty, every other value must
  be an array of strings; a struct may also be written as the array of its fields.
\<close>

fun strict_strings :: "json option \<Rightarrow> str list option" where
  "strict_strings None = Some []"
| "strict_strings (Some v) = strings_of_json v"

definition strict_permissions :: "json option \<Rightarrow> json option \<Rightarrow> json option \<Rightarrow> parsed_permissions option" where
  "strict_permissions allow deny ask =
     (case (strict_strings allow, strict_strings deny, strict_strings ask) of
        (Some a, Some d, Some k) \<Rightarrow> Some \<lparr>pp_allow = a, pp_deny = d, pp_ask = k\<rparr>
      | _ \<Rightarrow> None)"

fun parsed_permissions_from_value :: "json \<Rightarrow> parsed_permissions option" where
  "parsed_permissions_from_value (JObj kvs) =
     strict_permissions (map_of kvs ''allow'') (map_of kvs ''deny'') (map_of kvs ''ask'')"
| "parsed_permissions_from_value (JArr vs) =
     (if length vs \<le> 3 then strict_permissions (nth_opt vs 0) (nth_opt vs 1) (nth_opt vs 2) else None)"
| "parsed_permissions_from_value _ = None"

definition parse_managed_settings_permissions :: "json \<Rightarrow> path \<Rightarrow> sourced_rule list" where
  "parse_managed_settings_permissions json p =
     (case Option.bind (json_get json ''permissions'') parsed_permissions_from_value of
        None \<Rightarrow> []
      | Some permissions \<Rightarrow> tag_with_source (pc_rules (fst (into_permission_config permissions))) (ManagedSettings p))"

definition parse_managed_settings_json :: "json \<Rightarrow> path \<Rightarrow> managed_settings" where
  "parse_managed_settings_json json p =
     (let env = json_get json ''env''
      in \<lparr>ms_features = \<lparr>disable_telemetry = json_env_flag env ''DISABLE_TELEMETRY'',
                         disable_feedback = json_env_flag env ''DISABLE_FEEDBACK_COMMAND'',
                         disable_yolo = parse_disable_bypass_permissions json,
                         features_source_path = Some p\<rparr>,
          ms_permissions = parse_managed_settings_permissions json p,
          ms_default_mode = map_option (fst \<circ> parse_default_mode_claiming_scope) (extract_default_mode json),
          ms_mcp_allowlist = mcp_server_allowlist_new (parse_mcp_entries json ''allowedMcpServers'')
                               (parse_mcp_entries json ''deniedMcpServers'') (Some p),
          ms_marketplace_allowlist = \<lparr>allowed_urls = parse_marketplaces json, marketplace_source_path = Some p\<rparr>\<rparr>)"

definition managed_settings_default :: managed_settings where
  "managed_settings_default =
     \<lparr>ms_features = \<lparr>disable_telemetry = None, disable_feedback = None, disable_yolo = None,
                     features_source_path = None\<rparr>,
      ms_permissions = [], ms_default_mode = None,
      ms_mcp_allowlist = mcp_server_allowlist_new [] [] None,
      ms_marketplace_allowlist = \<lparr>allowed_urls = [], marketplace_source_path = None\<rparr>\<rparr>"

definition read_managed_settings_json :: "externals \<Rightarrow> 'v host \<Rightarrow> path \<Rightarrow> json option" where
  "read_managed_settings_json E H p =
     (case read_to_string H p of Inl _ \<Rightarrow> None | Inr content \<Rightarrow> json_from_str E content)"

definition load_managed_settings :: "externals \<Rightarrow> 'v host \<Rightarrow> managed_settings" where
  "load_managed_settings E H =
     (case claude_managed_settings_path H of
        None \<Rightarrow> managed_settings_default
      | Some p \<Rightarrow> (case read_managed_settings_json E H p of
                     None \<Rightarrow> managed_settings_default
                   | Some json \<Rightarrow> parse_managed_settings_json json p))"

subsection \<open>Vendor settings files\<close>

text \<open>The variables of the loop of \<open>resolve_claude_settings_inner\<close>; a count kept for a log line is left out.\<close>

record claude_acc =
  ca_rules :: "permission_rule list"
  ca_skipped :: "skipped_permission list"
  ca_primary :: "path option"
  ca_mode_source :: "path option"
  ca_mode :: "default_permission_mode option"
  ca_policy :: prompt_policy

definition skip_of_warning :: "str \<Rightarrow> skipped_permission" where
  "skip_of_warning w =
     (let (r, d) = (case split_once [CHR 0x20, CHR 0xE2, CHR 0x80, CHR 0x94, CHR 0x20] w of
                      Some rd \<Rightarrow> rd
                    | None \<Rightarrow> (case split_once '' -- '' w of Some rd \<Rightarrow> rd | None \<Rightarrow> (w, [])))
      in \<lparr>sk_rule = r, sk_reason = d\<rparr>)"

definition claim_mode :: "user_default_mode_load \<Rightarrow> path \<Rightarrow> claude_settings \<Rightarrow> claude_acc \<Rightarrow> claude_acc" where
  "claim_mode load p settings a =
     (case cs_default_mode settings of
        Some raw \<Rightarrow>
          if load = Apply \<and> ca_mode_source a = None then
            (let (mode, skip) = parse_default_mode_claiming_scope raw
             in a\<lparr>ca_mode_source := Some p, ca_skipped := ca_skipped a @ skip, ca_mode := Some mode,
                  ca_policy := dme_prompt_policy (effects mode)\<rparr>)
          else a
      | None \<Rightarrow> a)"

definition add_permissions :: "path \<Rightarrow> claude_settings \<Rightarrow> claude_acc \<Rightarrow> claude_acc" where
  "add_permissions p settings a =
     (case cs_permissions settings of
        None \<Rightarrow> a
      | Some perms \<Rightarrow>
          (let (cfg, warnings) = into_permission_config perms
           in a\<lparr>ca_primary := (if (pc_rules cfg \<noteq> [] \<or> warnings \<noteq> []) \<and> ca_primary a = None then Some p
                              else ca_primary a),
                ca_rules := ca_rules a @ pc_rules cfg,
                ca_skipped := ca_skipped a @ map skip_of_warning warnings\<rparr>))"

fun claude_loop :: "externals \<Rightarrow> 'v host \<Rightarrow> user_default_mode_load \<Rightarrow> path list \<Rightarrow> claude_acc \<Rightarrow> claude_acc" where
  "claude_loop E H load [] a = a"
| "claude_loop E H load (p # ps) a =
     (case load_claude_settings E H p of
        None \<Rightarrow> claude_loop E H load ps a
      | Some settings \<Rightarrow> claude_loop E H load ps (add_permissions p settings (claim_mode load p settings a)))"

definition claude_acc_init :: claude_acc where
  "claude_acc_init =
     \<lparr>ca_rules = [], ca_skipped = [], ca_primary = None, ca_mode_source = None, ca_mode = None,
      ca_policy = prompt_policy.Ask\<rparr>"

definition resolve_claude_settings_inner :: "externals \<Rightarrow> 'v host \<Rightarrow> path \<Rightarrow> str option \<Rightarrow> user_default_mode_load
    \<Rightarrow> (permission_config \<times> skipped_permission list \<times> path) option" where
  "resolve_claude_settings_inner E H cwd policy_block load =
     (let a = claude_loop E H load (find_claude_settings_paths H cwd) claude_acc_init;
          (syn_rules, syn_skipped, bypass_blocked) =
            (case ca_mode a of Some mode \<Rightarrow> synthetic_rules_for_default_mode mode policy_block | None \<Rightarrow> ([], [], False));
          all_rules = ca_rules a @ syn_rules;
          all_skipped = ca_skipped a @ syn_skipped
      in if all_rules = [] \<and> ca_policy a = prompt_policy.Ask \<and> \<not> bypass_blocked \<and> ca_mode_source a = None
            \<and> all_skipped = [] then None
         else Some (\<lparr>pc_rules = all_rules, pc_prompt_policy = ca_policy a\<rparr>, all_skipped,
                    case ca_primary a of Some p \<Rightarrow> p
                    | None \<Rightarrow> (case ca_mode_source a of Some p \<Rightarrow> p | None \<Rightarrow> cwd)))"

subsection \<open>Resolution\<close>

record resolve_inputs =
  ri_policy_block :: "str option"
  ri_managed :: managed_settings
  ri_managed_config_rules :: "sourced_rule list"

record resolved_permissions =
  rp_config :: permission_config
  rp_sources :: "requirement_source list"
  rp_skipped :: "skipped_permission list"

definition live :: "externals \<Rightarrow> verbose_reader \<Rightarrow> 'v::linorder host \<Rightarrow> resolve_inputs" where
  "live E read_verbose H =
     \<lparr>ri_policy_block = yolo_disabled_by_policy H, ri_managed = load_managed_settings E H,
      ri_managed_config_rules = managed_config_permissions read_verbose (managed_config_layers H)\<rparr>"

definition managed_synthetics :: "managed_settings \<Rightarrow> str option \<Rightarrow> sourced_rule list \<times> skipped_permission list" where
  "managed_synthetics managed policy_block =
     (case ms_default_mode managed of
        None \<Rightarrow> ([], [])
      | Some mode \<Rightarrow>
          (let managed_path = (case features_source_path (ms_features managed) of
                                 Some p \<Rightarrow> p | None \<Rightarrow> [''managed-settings.json'']);
               (syn_rules, syn_skipped, _) = synthetic_rules_for_default_mode mode policy_block
           in (tag_with_source syn_rules (ManagedSettings managed_path), syn_skipped)))"

definition resolve_permissions_with_provenance_inner ::
    "externals \<Rightarrow> verbose_reader \<Rightarrow> 'v::linorder host \<Rightarrow> path \<Rightarrow> resolve_inputs \<Rightarrow> resolved_permissions option" where
  "resolve_permissions_with_provenance_inner E read_verbose H cwd inputs =
     (let policy_block = ri_policy_block inputs;
          managed = ri_managed inputs;
          config_toml_rules = load_config_toml_permissions read_verbose H cwd;
          managed_mode = ms_default_mode managed;
          user_mode_load = (if managed_mode \<noteq> None then SkipManagedOwns else Apply);
          settings_json = (if is_claude_import_marked H then None
                           else resolve_claude_settings_inner E H cwd policy_block user_mode_load);
          (syn_rules, syn_skipped) = managed_synthetics managed policy_block;
          managed_policy = (case managed_mode of Some mode \<Rightarrow> dme_prompt_policy (effects mode)
                            | None \<Rightarrow> prompt_policy.Ask);
          (settings_rules, settings_skipped, prompt_policy) =
            (case settings_json of
               None \<Rightarrow> ([], [], managed_policy)
             | Some (config, skipped_rules, p) \<Rightarrow>
                 (tag_with_source (pc_rules config) (Settings p), skipped_rules,
                  if managed_mode = None then pc_prompt_policy config else managed_policy));
          (all_rules, dropped) =
            drop_untrusted_catchall_allows E
              (load_requirements_permissions read_verbose H @ ms_permissions managed @ syn_rules
               @ ri_managed_config_rules inputs @ config_toml_rules @ settings_rules) policy_block;
          skipped = syn_skipped @ settings_skipped @ dropped
      in if all_rules = [] \<and> prompt_policy = prompt_policy.Ask \<and> skipped = [] then None
         else Some \<lparr>rp_config = \<lparr>pc_rules = map sr_value all_rules, pc_prompt_policy = prompt_policy\<rparr>,
                    rp_sources = map sr_source all_rules, rp_skipped = skipped\<rparr>)"

definition resolve_permissions_with_provenance ::
    "externals \<Rightarrow> verbose_reader \<Rightarrow> 'v::linorder host \<Rightarrow> path \<Rightarrow> resolved_permissions option" where
  "resolve_permissions_with_provenance E read_verbose H cwd =
     resolve_permissions_with_provenance_inner E read_verbose H cwd (live E read_verbose H)"

definition resolve_permission_config_with_fallback ::
    "externals \<Rightarrow> verbose_reader \<Rightarrow> 'v::linorder host \<Rightarrow> path \<Rightarrow> permission_config option" where
  "resolve_permission_config_with_fallback E read_verbose H cwd =
     map_option rp_config (resolve_permissions_with_provenance E read_verbose H cwd)"

end
