(* ===== verification/Permission_Documents.thy ===== *)
theory Permission_Documents
  imports Permission_Sources
begin

section \<open>The rules as the documents write them\<close>

text \<open>
  Which files and managed documents are consulted for rules, and which rules each lists, stated over the files
  themselves; the lemmas show that the loaders of the TOML documents keep every rule listed there.
\<close>

subsection \<open>What the documents say\<close>

text \<open>
  The rules as the files write them, without the loaders: which files and managed documents are consulted, and
  which rules each one lists. \<open>in_force\<close>: the document as it is where it has no version overrides, and otherwise
  with the overrides of the running version applied.
\<close>

definition parsed_file :: "'v host \<Rightarrow> path \<Rightarrow> toml \<Rightarrow> bool" where
  "parsed_file H p doc \<longleftrightarrow>
     (\<exists>text t. read_to_string H p = Inr text \<and> toml_from_str H text = Inr t \<and> doc = expand_env_vars_in_toml H t)"

definition in_force :: "'v::linorder host \<Rightarrow> toml \<Rightarrow> toml \<Rightarrow> bool" where
  "in_force H doc v \<longleftrightarrow>
     (if toml_get doc ''version_overrides'' = None then v = doc
      else apply_version_overrides_with_registered H doc = (v, None))"

inductive consulted_toml :: "'v::linorder host \<Rightarrow> path \<Rightarrow> toml \<Rightarrow> bool" for H :: "'v::linorder host" and cwd :: path where
  requirements: "consulted_toml H cwd v"
    if "user_grok_home H = Some d \<or> system_config_dir H = Some d"
       "parsed_file H (d @ [''requirements.toml'']) doc" "in_force H doc v"
| forced: "consulted_toml H cwd v"
    if "managed_preferences_requirements H = Some doc" "in_force H doc v"
| managed: "consulted_toml H cwd v"
    if "user_grok_home H = Some d \<or> system_config_dir H = Some d" "is_file H (d @ [''managed_config.toml''])"
       "parsed_file H (d @ [''managed_config.toml'']) doc" "in_force H doc v"
| user: "consulted_toml H cwd v"
    if "user_grok_home H = Some d" "is_file H (d @ [''config.toml''])"
       "parsed_file H (d @ [''config.toml'']) doc" "in_force H doc v"
| project: "consulted_toml H cwd v"
    if "git_workdir H cwd = Some root \<and> path_is_absolute root \<and> prefix root d \<and> prefix d cwd
        \<or> git_workdir H cwd = None \<and> d = cwd"
       "is_file H (d @ [''.qidi'', ''config.toml''])" "parsed_file H (d @ [''.qidi'', ''config.toml'']) doc"
       "in_force H doc v"

inductive consulted_json :: "externals \<Rightarrow> 'v host \<Rightarrow> path \<Rightarrow> json \<Rightarrow> bool" for E and H :: "'v host" and cwd :: path where
  vendor: "consulted_json E H cwd doc"
    if "\<not> is_claude_import_marked H" "prefix (project_root H cwd) d \<and> prefix d cwd \<or> dirs_home_dir H = Some d"
       "name = ''settings.local.json'' \<or> name = ''settings.json''"
       "read_to_string H (d @ [''.claude'', name]) = Inr text" "json_from_str E text = Some doc"
| administrator: "consulted_json E H cwd doc"
    if "claude_managed_settings_path H = Some p" "read_to_string H p = Inr text" "json_from_str E text = Some doc"
       "\<forall>perms k list. json_get doc ''permissions'' = Some perms \<and> k \<in> {''allow'', ''deny'', ''ask''}
          \<and> json_get perms k = Some list \<longrightarrow> (\<exists>entries. list = JArr (map JStr entries))"

fun list_key :: "rule_action \<Rightarrow> str" where
  "list_key rule_action.Allow = ''allow''"
| "list_key rule_action.Deny = ''deny''"
| "list_key rule_action.Ask = ''ask''"

definition lists_in_toml :: "verbose_reader \<Rightarrow> toml \<Rightarrow> permission_rule \<Rightarrow> bool" where
  "lists_in_toml read_verbose doc r \<longleftrightarrow>
     (\<exists>sec. toml_get doc ''permission'' = Some sec
        \<and> ((\<exists>entries entry. toml_get sec (list_key (pr_action r)) = Some (TomlArray entries)
              \<and> TomlString entry \<in> set entries \<and> parse_permission_rule entry (pr_action r) = Inr r)
           \<or> (\<forall>k \<in> {''allow'', ''deny'', ''ask''}. \<forall>entries. toml_get sec k \<noteq> Some (TomlArray entries))
             \<and> (\<exists>rules. read_verbose sec = Some rules \<and> r \<in> set rules)))"

definition lists_in_json :: "json \<Rightarrow> permission_rule \<Rightarrow> bool" where
  "lists_in_json doc r \<longleftrightarrow>
     (\<exists>perms entries entry. json_get doc ''permissions'' = Some perms
        \<and> json_get perms (list_key (pr_action r)) = Some (JArr entries)
        \<and> JStr entry \<in> set entries \<and> parse_permission_rule entry (pr_action r) = Inr r)"

definition written_rule :: "externals \<Rightarrow> verbose_reader \<Rightarrow> 'v::linorder host \<Rightarrow> path \<Rightarrow> permission_rule \<Rightarrow> bool" where
  "written_rule E read_verbose H cwd r \<longleftrightarrow>
     (\<exists>doc. consulted_toml H cwd doc \<and> lists_in_toml read_verbose doc r)
     \<or> (\<exists>doc. consulted_json E H cwd doc \<and> lists_in_json doc r)"

subsection \<open>Lemmas: the loaders read every document\<close>

lemma parsed_file_loads: "parsed_file H p doc \<Longrightarrow> load_toml_file H p = Inr doc"
  by (auto simp: parsed_file_def load_toml_file_def)

lemma merge_entries_only_key:
  "map_of a k = map_of b k \<Longrightarrow> map_of (merge_entries a t) k = map_of (merge_entries b t) k"
proof (induction t arbitrary: a b)
  case (Cons e t)
  obtain key v where e: "e = (key, v)" by (cases e)
  show ?case
    using Cons.prems by (cases "key = k"; cases "map_of a key"; cases "map_of b key") (auto simp: e intro!: Cons.IH)
qed simp

lemma patched_only_key:
  "toml_get (TomlTable a) k = toml_get (TomlTable b) k \<Longrightarrow>
   toml_get (apply_patches (TomlTable a) ps ks) k = toml_get (apply_patches (TomlTable b) ps ks) k"
proof (induction ps arbitrary: a b)
  case (Cons p ps)
  show ?case
    using Cons.IH[OF merge_entries_only_key[of a k b "foldl table_remove p ks", folded toml_get.simps(1)]] Cons.prems
    by simp
qed simp

lemma override_only_key:
  assumes "map_of a k = map_of b k" "map_of a ''version_overrides'' = map_of b ''version_overrides''"
    and "k \<noteq> ''version_overrides''" "apply_version_overrides_with_registered H (TomlTable a) = (v, None)"
  shows "\<exists>w. apply_version_overrides_with_registered H (TomlTable b) = (w, None) \<and> toml_get w k = toml_get v k"
proof (cases "installed_semver H")
  case None
  with assms show ?thesis by (auto simp: apply_version_overrides_with_registered_def)
next
  case (Some version)
  have same: "toml_get (TomlTable (table_remove a ''version_overrides'')) k
      = toml_get (TomlTable (table_remove b ''version_overrides'')) k" "toml_get (TomlTable a) k = toml_get (TomlTable b) k"
    using assms(1,3) by simp_all
  show ?thesis
    using assms(2,4) patched_only_key[OF same(1)] patched_only_key[OF same(2)]
    by (auto simp: apply_version_overrides_with_registered_def apply_version_overrides_def take_patch_array_def Some
        split: option.splits sum.splits)
qed

lemma in_force_applies:
  assumes "in_force H doc v" "toml_get v ''permission'' = Some sec"
  shows "\<exists>t w. doc = TomlTable t \<and> apply_version_overrides_with_registered H doc = (w, None)
    \<and> toml_get w ''permission'' = Some sec"
proof (cases "toml_get doc ''version_overrides''")
  case None
  with assms obtain t where t: "doc = TomlTable t" "v = doc" by (cases doc) (auto simp: in_force_def)
  then show ?thesis
    using None assms(2)
    by (cases "installed_semver H") (auto simp: apply_version_overrides_with_registered_def apply_version_overrides_def
        take_patch_array_def patches_for_def sort_key_def)
next
  case (Some vo)
  with assms show ?thesis by (cases doc) (auto simp: in_force_def)
qed

lemma in_force_config:
  assumes "parsed_file H p doc" "in_force H doc v" "toml_get v ''permission'' = Some sec"
  shows "\<exists>w. load_config_file H p = Inr w \<and> toml_get w ''permission'' = Some sec"
  using in_force_applies[OF assms(2,3)] parsed_file_loads[OF assms(1)] by (auto simp: load_config_file_def)

lemma in_force_requirements:
  assumes "in_force H doc v" "toml_get v ''permission'' = Some sec"
  shows "\<exists>t w. doc = TomlTable t \<and> t \<noteq> [] \<and> normalize_requirements_value H doc = Some w
    \<and> toml_get w ''permission'' = Some sec"
proof -
  obtain t w where t: "doc = TomlTable t" "apply_version_overrides_with_registered H (TomlTable t) = (w, None)"
      "toml_get w ''permission'' = Some sec"
    using in_force_applies[OF assms] by blast
  have keys: "map_of t k = map_of (table_remove t FAIL_CLOSED_KEY) k" if "k \<noteq> ''fail_closed''" for k
    using that by (simp add: FAIL_CLOSED_KEY_def)
  obtain u where u: "apply_version_overrides_with_registered H (TomlTable (table_remove t FAIL_CLOSED_KEY)) = (u, None)"
      "toml_get u ''permission'' = Some sec"
    using override_only_key[OF keys keys _ t(2), of "''permission''"] t(3) by auto
  have "t \<noteq> []"
    using assms t(1) by (cases t) (auto simp: in_force_def)
  with t(1) u show ?thesis by (auto simp: normalize_requirements_value_def)
qed

lemma not_array: "\<forall>entries. v \<noteq> TomlArray entries \<Longrightarrow> toml_as_array v = None"
  by (cases v) simp_all

lemma extract_lists:
  assumes "lists_in_toml read_verbose doc r" "toml_get w ''permission'' = toml_get doc ''permission''"
  shows "\<lparr>sr_value = r, sr_source = src\<rparr> \<in> set (extract_toml_permissions read_verbose w src)"
proof -
  let ?keys = "[(rule_action.Deny, ''deny''), (rule_action.Allow, ''allow''), (rule_action.Ask, ''ask'')]"
  obtain sec where sec: "toml_get doc ''permission'' = Some sec"
    and lists: "(\<exists>entries entry. toml_get sec (list_key (pr_action r)) = Some (TomlArray entries)
              \<and> TomlString entry \<in> set entries \<and> parse_permission_rule entry (pr_action r) = Inr r)
           \<or> (\<forall>k \<in> {''allow'', ''deny'', ''ask''}. \<forall>entries. toml_get sec k \<noteq> Some (TomlArray entries))
             \<and> (\<exists>rules. read_verbose sec = Some rules \<and> r \<in> set rules)"
    using assms(1) by (auto simp: lists_in_toml_def)
  have "\<exists>rules. parse_toml_permission_section read_verbose sec = Some rules \<and> r \<in> set rules"
    using lists
  proof
    assume "\<exists>entries entry. toml_get sec (list_key (pr_action r)) = Some (TomlArray entries)
              \<and> TomlString entry \<in> set entries \<and> parse_permission_rule entry (pr_action r) = Inr r"
    then obtain rules where rules: "compact_key sec (pr_action r, list_key (pr_action r)) = Some rules" "r \<in> set rules"
      by (force simp: compact_key_def compact_rules_def in_set_map_filter)
    have "(pr_action r, list_key (pr_action r)) \<in> set ?keys" by (cases "pr_action r") simp_all
    with rules(1) have "rules \<in> set (List.map_filter (compact_key sec) ?keys)"
      by (subst in_set_map_filter) blast
    with rules(2) have "r \<in> set (concat (List.map_filter (compact_key sec) ?keys))"
      unfolding set_concat by blast
    then show ?thesis unfolding parse_toml_permission_section_def Let_def by (metis concat.simps(1) empty_iff list.set(1))
  next
    assume verbose: "(\<forall>k \<in> {''allow'', ''deny'', ''ask''}. \<forall>entries. toml_get sec k \<noteq> Some (TomlArray entries))
             \<and> (\<exists>rules. read_verbose sec = Some rules \<and> r \<in> set rules)"
    have "compact_key sec (a, k) = None" if "k \<in> {''allow'', ''deny'', ''ask''}" for a k
      using verbose that not_array by (cases "toml_get sec k") (auto simp: compact_key_def)
    with verbose show ?thesis by (simp add: parse_toml_permission_section_def map_filter_simps)
  qed
  with sec assms(2) show ?thesis by (auto simp: extract_toml_permissions_def tag_with_source_def)
qed

lemma config_file_rules:
  assumes "parsed_file H p doc" "in_force H doc v" "lists_in_toml read_verbose v r"
  shows "\<exists>w. load_config_file H p = Inr w
    \<and> \<lparr>sr_value = r, sr_source = src\<rparr> \<in> set (extract_toml_permissions read_verbose w src)"
proof -
  obtain sec where "toml_get v ''permission'' = Some sec" using assms(3) by (auto simp: lists_in_toml_def)
  with in_force_config[OF assms(1,2)] extract_lists[OF assms(3)] show ?thesis by fastforce
qed

lemma requirements_rules:
  assumes "in_force H doc v" "lists_in_toml read_verbose v r"
    and "(\<exists>d. (user_grok_home H = Some d \<or> system_config_dir H = Some d)
            \<and> load_toml_file H (path_join d ''requirements.toml'') = Inr doc)
         \<or> managed_preferences_requirements H = Some doc"
  shows "r \<in> sr_value ` set (load_requirements_permissions read_verbose H)"
proof -
  obtain sec where sec: "toml_get v ''permission'' = Some sec" using assms(2) by (auto simp: lists_in_toml_def)
  obtain t w where w: "doc = TomlTable t" "t \<noteq> []" "normalize_requirements_value H doc = Some w"
      "toml_get w ''permission'' = toml_get v ''permission''"
    using in_force_requirements[OF assms(1) sec] sec by auto
  have "\<exists>layer \<in> set (requirements_layers H). rl_value layer = w"
    using assms(3) w(1-3)
    by (auto simp: requirements_layers_def load_requirements_layer_def mdm_requirements_value_def Let_def
        split: option.splits)
  then obtain layer where layer: "layer \<in> set (requirements_layers H)" "rl_value layer = w" by blast
  with extract_lists[OF assms(2) w(4), of "requirements_source_of layer"] show ?thesis
    by (force simp: load_requirements_permissions_def)
qed

lemma managed_config_rules:
  assumes "in_force H doc v" "lists_in_toml read_verbose v r" "user_grok_home H = Some d \<or> system_config_dir H = Some d"
    and "is_file H (path_join d MANAGED_CONFIG_FILENAME)" "parsed_file H (path_join d MANAGED_CONFIG_FILENAME) doc"
  shows "r \<in> sr_value ` set (managed_config_permissions read_verbose (managed_config_layers H))"
proof -
  obtain w where w: "load_config_file H (path_join d MANAGED_CONFIG_FILENAME) = Inr w"
      "\<lparr>sr_value = r, sr_source = src\<rparr> \<in> set (extract_toml_permissions read_verbose w src)" for src
    using config_file_rules[OF assms(5,1,2)] in_force_config[OF assms(5,1)] by (metis sum.inject(2))
  have "\<exists>layer \<in> set (managed_config_layers H). mcl_value layer = w"
    using assms(3,4) w(1)
    by (auto simp: managed_config_layers_def managed_config_layers_at_def map_filter_simps split: option.splits)
  with w(2) show ?thesis by (force simp: managed_config_permissions_def)
qed

lemma absolute_walk:
  assumes "path_is_absolute root" "prefix root d" "prefix d cwd" "''/'' \<notin> set (tl cwd)"
  shows "d \<in> set (walk_up root cwd)"
proof -
  have "prefix root cwd" using assms(2,3) by (rule prefix_order.order_trans)
  moreover have "root \<noteq> []" using assms(1) by (auto simp: path_is_absolute_def)
  ultimately show ?thesis using walk_up_iff[of root cwd d] assms(2-4) by blast
qed

lemma toml_rules_loaded:
  assumes "consulted_toml H cwd v" "lists_in_toml read_verbose v r" "''/'' \<notin> set (tl cwd)"
  shows "r \<in> sr_value ` set (load_requirements_permissions read_verbose H
      @ managed_config_permissions read_verbose (managed_config_layers H) @ load_config_toml_permissions read_verbose H cwd)"
  using assms(1)
proof cases
  case (requirements d doc)
  then show ?thesis
    using requirements_rules[OF requirements(3) assms(2)] parsed_file_loads[OF requirements(2)]
    by (auto simp: path_join_def)
next
  case (forced doc)
  then show ?thesis using requirements_rules[OF forced(2) assms(2)] by auto
next
  case (managed d doc)
  then show ?thesis
    using managed_config_rules[OF managed(4) assms(2) managed(1)] by (auto simp: path_join_def MANAGED_CONFIG_FILENAME_def)
next
  case (user d doc)
  obtain w where "load_config_file H (path_join d ''config.toml'') = Inr w"
      "\<lparr>sr_value = r, sr_source = Config (path_join d ''config.toml'')\<rparr>
        \<in> set (extract_toml_permissions read_verbose w (Config (path_join d ''config.toml'')))"
    using config_file_rules[OF user(3,4) assms(2)] by (auto simp: path_join_def)
  with user show ?thesis
    by (force simp: load_config_toml_permissions_def load_config_rules_def Let_def path_join_def)
next
  case (project root d doc)
  obtain w where w: "load_config_file H (project_config_file d) = Inr w"
      "\<lparr>sr_value = r, sr_source = Config (project_config_file d)\<rparr>
        \<in> set (extract_toml_permissions read_verbose w (Config (project_config_file d)))"
    using config_file_rules[OF project(3,4) assms(2)] by (auto simp: project_config_file_def path_join_def)
  have "project_config_file d \<in> set (find_project_grok_configs H cwd)"
    using project(1,2) absolute_walk[of root d cwd] assms(3)
    by (auto simp: find_project_grok_configs_def project_config_file_def path_join_def image_iff split: option.splits)
  with w show ?thesis by (force simp: load_config_toml_permissions_def load_config_rules_def)
qed

subsection \<open>Lemmas: where a loaded rule was written\<close>

lemma parsed_action: "parse_permission_rule s action = Inr r \<Longrightarrow> pr_action r = action"
  using parse_permission_rule_sound[of s action] by simp

lemma extract_written:
  assumes "x \<in> set (extract_toml_permissions read_verbose v src)"
  shows "sr_source x = src \<and> lists_in_toml read_verbose v (sr_value x)"
proof -
  let ?keys = "[(rule_action.Deny, ''deny''), (rule_action.Allow, ''allow''), (rule_action.Ask, ''ask'')]"
  obtain sec rules where sec: "toml_get v ''permission'' = Some sec"
      "parse_toml_permission_section read_verbose sec = Some rules" "sr_value x \<in> set rules" "sr_source x = src"
    using assms by (cases "toml_get v ''permission''")
      (auto simp: extract_toml_permissions_def tag_with_source_def split: option.splits dest!: sym[of "Some _"])
  show ?thesis
  proof (cases "List.map_filter (compact_key sec) ?keys = []")
    case True
    then have none: "compact_key sec ak = None" if "ak \<in> set ?keys" for ak
      using that in_set_map_filter[of _ "compact_key sec" ?keys] by (metis emptyE list.set(1) option.exhaust)
    have "toml_get sec k \<noteq> Some (TomlArray entries)" if "k \<in> {''allow'', ''deny'', ''ask''}" for k entries
      using that none[of "(rule_action.Deny, ''deny'')"] none[of "(rule_action.Allow, ''allow'')"]
        none[of "(rule_action.Ask, ''ask'')"] by (auto simp: compact_key_def)
    with True sec show ?thesis by (auto simp: lists_in_toml_def parse_toml_permission_section_def Let_def)
  next
    case False
    with sec(2,3) have "sr_value x \<in> set (concat (List.map_filter (compact_key sec) ?keys))"
      by (simp only: parse_toml_permission_section_def Let_def if_True not_False_eq_True option.inject)
    then obtain part where "part \<in> set (List.map_filter (compact_key sec) ?keys)" "sr_value x \<in> set part"
      unfolding set_concat by blast
    then obtain a k where part: "sr_value x \<in> set part" "(a, k) \<in> set ?keys" "compact_key sec (a, k) = Some part"
      unfolding in_set_map_filter by (metis surj_pair)
    from part(1,3) obtain entries item where item: "toml_get sec k = Some (TomlArray entries)" "item \<in> set entries"
        "Option.bind (toml_as_str item) (\<lambda>s. case parse_permission_rule s a of Inr rule \<Rightarrow> Some rule | Inl _ \<Rightarrow> None)
          = Some (sr_value x)"
      by (auto simp: compact_key_def compact_rules_def in_set_map_filter bind_eq_Some_conv split: option.splits
          elim!: toml_as_array.elims)
    then obtain entry where entry: "TomlString entry \<in> set entries" "parse_permission_rule entry a = Inr (sr_value x)"
      by (cases item) (auto split: sum.splits)
    have "k = list_key (pr_action (sr_value x))" using parsed_action[OF entry(2)] part(2) by auto
    with sec(1,4) item(1) entry parsed_action[OF entry(2)] show ?thesis by (auto simp: lists_in_toml_def)
  qed
qed

text \<open>
  The managed settings are read by a derived deserializer, for which the section may also be the array of its
  fields, in the order allow, deny, ask.
\<close>

fun managed_list :: "json \<Rightarrow> rule_action \<Rightarrow> json option" where
  "managed_list (JArr items) action =
     nth_opt items (case action of rule_action.Allow \<Rightarrow> 0 | rule_action.Deny \<Rightarrow> 1 | rule_action.Ask \<Rightarrow> 2)"
| "managed_list perms action = json_get perms (list_key action)"

definition lists_in_managed :: "json \<Rightarrow> permission_rule \<Rightarrow> bool" where
  "lists_in_managed doc r \<longleftrightarrow>
     (\<exists>perms entries entry. json_get doc ''permissions'' = Some perms
        \<and> managed_list perms (pr_action r) = Some (JArr entries)
        \<and> JStr entry \<in> set entries \<and> parse_permission_rule entry (pr_action r) = Inr r)"

lemma parse_entries_iff:
  "r \<in> set (fst (parse_entries action l entries)) \<longleftrightarrow> (\<exists>s \<in> set entries. parse_permission_rule s action = Inr r)"
  by (induction entries) (auto split: prod.splits sum.splits)

fun entries_of :: "parsed_permissions \<Rightarrow> rule_action \<Rightarrow> str list" where
  "entries_of p rule_action.Allow = pp_allow p"
| "entries_of p rule_action.Deny = pp_deny p"
| "entries_of p rule_action.Ask = pp_ask p"

lemma config_rules_iff:
  "r \<in> set (pc_rules (fst (into_permission_config p))) \<longleftrightarrow>
     (\<exists>s \<in> set (entries_of p (pr_action r)). parse_permission_rule s (pr_action r) = Inr r)"
  by (cases "pr_action r")
    (auto simp: into_permission_config_def permission_config_new_def parse_entries_iff Let_def dest: parsed_action)

lemma json_strings_mem: "those (map json_as_str vs) = Some ss \<Longrightarrow> s \<in> set ss \<Longrightarrow> JStr s \<in> set vs"
proof (induction vs arbitrary: ss)
  case (Cons v vs)
  then show ?case by (cases v) (auto split: option.splits)
qed simp

lemma strict_strings_entries:
  "strict_strings v = Some ss \<Longrightarrow> s \<in> set ss \<Longrightarrow> \<exists>entries. v = Some (JArr entries) \<and> JStr s \<in> set entries"
  by (cases v) (auto elim!: strings_of_json.elims dest: json_strings_mem[OF sym])

lemma strict_permissions_entries:
  "strict_permissions a d k = Some p \<Longrightarrow> s \<in> set (entries_of p action) \<Longrightarrow>
   \<exists>entries. (case action of rule_action.Allow \<Rightarrow> a | rule_action.Deny \<Rightarrow> d | rule_action.Ask \<Rightarrow> k) = Some (JArr entries)
     \<and> JStr s \<in> set entries"
  by (cases action) (auto simp: strict_permissions_def split: option.splits dest: strict_strings_entries)

lemma managed_written:
  assumes "x \<in> set (parse_managed_settings_permissions doc p)"
  shows "sr_source x = ManagedSettings p \<and> lists_in_managed doc (sr_value x)"
proof -
  let ?a = "pr_action (sr_value x)"
  obtain perms parsed where parsed: "json_get doc ''permissions'' = Some perms"
      "parsed_permissions_from_value perms = Some parsed"
      "sr_value x \<in> set (pc_rules (fst (into_permission_config parsed)))" "sr_source x = ManagedSettings p"
    using assms by (cases "json_get doc ''permissions''")
      (auto simp: parse_managed_settings_permissions_def tag_with_source_def split: option.splits dest!: sym[of "Some _"])
  from parsed(3) obtain s where s: "s \<in> set (entries_of parsed ?a)" "parse_permission_rule s ?a = Inr (sr_value x)"
    unfolding config_rules_iff by blast
  have "\<exists>entries. managed_list perms ?a = Some (JArr entries) \<and> JStr s \<in> set entries"
  proof (cases perms)
    case (JArr vs)
    with parsed(2) have "strict_permissions (nth_opt vs 0) (nth_opt vs 1) (nth_opt vs 2) = Some parsed"
      by (simp split: if_splits)
    from strict_permissions_entries[OF this s(1)] show ?thesis by (cases ?a) (simp_all add: JArr)
  next
    case (JObj kvs)
    with parsed(2) have "strict_permissions (map_of kvs ''allow'') (map_of kvs ''deny'') (map_of kvs ''ask'') = Some parsed"
      by simp
    from strict_permissions_entries[OF this s(1)] show ?thesis by (cases ?a) (simp_all add: JObj)
  qed (use parsed(2) in simp_all)
  with parsed(1,4) s(2) show ?thesis by (auto simp: lists_in_managed_def)
qed

lemma those_strings: "those (map json_as_str (map JStr ss)) = Some ss"
  by (induction ss) simp_all

lemma strict_strings_given:
  "\<forall>l. v = Some l \<longrightarrow> (\<exists>ss. l = JArr (map JStr ss)) \<Longrightarrow>
   \<exists>ss. strict_strings v = Some ss \<and> (\<forall>entries s. v = Some (JArr entries) \<and> JStr s \<in> set entries \<longrightarrow> s \<in> set ss)"
  by (cases v) (auto simp: those_strings simp del: map_map)

lemma managed_listed:
  assumes "lists_in_json doc r"
    and "\<forall>perms k list. json_get doc ''permissions'' = Some perms \<and> k \<in> {''allow'', ''deny'', ''ask''}
          \<and> json_get perms k = Some list \<longrightarrow> (\<exists>entries. list = JArr (map JStr entries))"
  shows "r \<in> sr_value ` set (parse_managed_settings_permissions doc p)"
proof -
  obtain perms entries s where l: "json_get doc ''permissions'' = Some perms"
      "json_get perms (list_key (pr_action r)) = Some (JArr entries)" "JStr s \<in> set entries"
      "parse_permission_rule s (pr_action r) = Inr r"
    using assms(1) by (auto simp: lists_in_json_def)
  then obtain kvs where kvs: "perms = JObj kvs" by (cases perms) auto
  have given: "\<exists>ss. strict_strings (map_of kvs k) = Some ss
      \<and> (\<forall>entries s. map_of kvs k = Some (JArr entries) \<and> JStr s \<in> set entries \<longrightarrow> s \<in> set ss)"
    if "k \<in> {''allow'', ''deny'', ''ask''}" for k
    by (rule strict_strings_given) (use assms(2) l(1) kvs that in auto)
  obtain al de ak where strict: "strict_strings (map_of kvs ''allow'') = Some al"
      "strict_strings (map_of kvs ''deny'') = Some de" "strict_strings (map_of kvs ''ask'') = Some ak"
    and members: "s \<in> set (entries_of \<lparr>pp_allow = al, pp_deny = de, pp_ask = ak\<rparr> (pr_action r))"
    using given[of "''allow''"] given[of "''deny''"] given[of "''ask''"] l(2,3)
    by (cases "pr_action r") (auto simp: kvs)
  then have "parsed_permissions_from_value perms = Some \<lparr>pp_allow = al, pp_deny = de, pp_ask = ak\<rparr>"
    by (simp add: kvs strict_permissions_def)
  moreover have "r \<in> set (pc_rules (fst (into_permission_config \<lparr>pp_allow = al, pp_deny = de, pp_ask = ak\<rparr>)))"
    unfolding config_rules_iff using members l(4) by blast
  ultimately show ?thesis
    using l(1) by (force simp: parse_managed_settings_permissions_def tag_with_source_def)
qed

lemma string_items_mem: "JStr s \<in> set vs \<Longrightarrow> s \<in> set (fst (string_items i vs))"
proof (induction vs arbitrary: i)
  case (Cons v vs)
  show ?case
    using Cons.prems Cons.IH[of "i + 1"] by (cases v) (auto split: prod.splits)
qed simp

lemma vendor_listed:
  assumes "lists_in_json doc r"
  shows "\<exists>parsed. cs_permissions (settings_of_json doc) = Some parsed \<and> r \<in> set (pc_rules (fst (into_permission_config parsed)))"
proof -
  obtain perms entries s where l: "json_get doc ''permissions'' = Some perms"
      "json_get perms (list_key (pr_action r)) = Some (JArr entries)" "JStr s \<in> set entries"
      "parse_permission_rule s (pr_action r) = Inr r"
    using assms by (auto simp: lists_in_json_def)
  let ?get = "\<lambda>k. fst (extract_string_array (json_get perms k))"
  let ?parsed = "\<lparr>pp_allow = ?get ''allow'', pp_deny = ?get ''deny'', pp_ask = ?get ''ask''\<rparr>"
  have s: "s \<in> set (?get (list_key (pr_action r)))"
    using l(2) string_items_mem[OF l(3)] by (simp add: extract_string_array_def)
  then have "cs_permissions (settings_of_json doc) = Some ?parsed"
    using l(1) by (cases "pr_action r") (auto simp: settings_of_json_def Let_def)
  moreover have "s \<in> set (entries_of ?parsed (pr_action r))" using s by (cases "pr_action r") simp_all
  ultimately show ?thesis using l(4) unfolding config_rules_iff by blast
qed

end
