(* ===== verification/Permission_Sources_Props.thy ===== *)
theory Permission_Sources_Props
  imports Permission_Documents
begin

section \<open>What the resolution of rules promises\<close>

text \<open>
  No source loses a deny or an ask on the way to the evaluator, the pin leaves no blanket allow of an
  untrusted source, the mode has one owner, an untrusted project contributes no environment, and the walk
  that looks for a project's files ends at its root.
\<close>

subsection \<open>Lemmas: the loop over the settings files\<close>

text \<open>The rules of the allow, deny and ask lists of one file, and the mode it names.\<close>

definition file_rules :: "externals \<Rightarrow> 'v host \<Rightarrow> path \<Rightarrow> permission_rule list" where
  "file_rules E H p =
     (case Option.bind (load_claude_settings E H p) cs_permissions of
        Some perms \<Rightarrow> pc_rules (fst (into_permission_config perms)) | None \<Rightarrow> [])"

definition file_mode :: "externals \<Rightarrow> 'v host \<Rightarrow> path \<Rightarrow> str option" where
  "file_mode E H p = Option.bind (load_claude_settings E H p) cs_default_mode"

text \<open>The mode of the most specific file that names one.\<close>

definition claimed_mode :: "externals \<Rightarrow> 'v host \<Rightarrow> path list \<Rightarrow> default_permission_mode option" where
  "claimed_mode E H paths =
     map_option (fst \<circ> parse_default_mode_claiming_scope)
       (case find (\<lambda>p. file_mode E H p \<noteq> None) paths of Some p \<Rightarrow> file_mode E H p | None \<Rightarrow> None)"

lemma claim_mode_simps [simp]:
  "ca_rules (claim_mode load p s a) = ca_rules a"
  "ca_primary (claim_mode load p s a) = ca_primary a"
  by (simp_all add: claim_mode_def split: option.splits prod.splits)

lemma add_permissions_simps [simp]:
  "ca_mode (add_permissions p s a) = ca_mode a"
  "ca_mode_source (add_permissions p s a) = ca_mode_source a"
  "ca_policy (add_permissions p s a) = ca_policy a"
  by (simp_all add: add_permissions_def split: option.splits prod.splits)

lemma add_permissions_rules:
  "load_claude_settings E H p = Some s \<Longrightarrow> ca_rules (add_permissions p s a) = ca_rules a @ file_rules E H p"
  by (simp add: add_permissions_def file_rules_def split: option.splits prod.splits)

lemma claude_loop_rules:
  "ca_rules (claude_loop E H load ps a) = ca_rules a @ concat (map (file_rules E H) ps)"
proof (induction ps arbitrary: a)
  case (Cons p ps)
  show ?case
  proof (cases "load_claude_settings E H p")
    case None
    with Cons show ?thesis by (simp add: file_rules_def)
  next
    case (Some s)
    with Cons show ?thesis by (simp add: add_permissions_rules)
  qed
qed simp

lemma claude_loop_claimed:
  "ca_mode_source a \<noteq> None \<Longrightarrow>
   ca_mode (claude_loop E H load ps a) = ca_mode a \<and> ca_policy (claude_loop E H load ps a) = ca_policy a
   \<and> ca_mode_source (claude_loop E H load ps a) = ca_mode_source a"
proof (induction ps arbitrary: a)
  case (Cons p ps)
  show ?case
  proof (cases "load_claude_settings E H p")
    case (Some s)
    have "claim_mode load p s a = a" using Cons.prems by (auto simp: claim_mode_def split: option.splits)
    with Some Cons show ?thesis by simp
  qed (use Cons in simp)
qed simp

lemma claude_loop_mode:
  assumes "ca_mode_source a = None"
  shows "ca_mode (claude_loop E H Apply ps a) = (case claimed_mode E H ps of Some m \<Rightarrow> Some m | None \<Rightarrow> ca_mode a)
    \<and> ca_policy (claude_loop E H Apply ps a)
        = (case claimed_mode E H ps of Some m \<Rightarrow> dme_prompt_policy (effects m) | None \<Rightarrow> ca_policy a)"
  using assms
proof (induction ps arbitrary: a)
  case Nil
  then show ?case by (simp add: claimed_mode_def)
next
  case (Cons p ps)
  show ?case
  proof (cases "file_mode E H p")
    case None
    then have c: "claimed_mode E H (p # ps) = claimed_mode E H ps" by (simp add: claimed_mode_def)
    show ?thesis
    proof (cases "load_claude_settings E H p")
      case (Some s)
      with None have "claim_mode Apply p s a = a" by (simp add: claim_mode_def file_mode_def)
      with Some c Cons show ?thesis by (simp split: option.split)
    qed (use Cons c in simp)
  next
    case (Some raw)
    then obtain s where s: "load_claude_settings E H p = Some s" "cs_default_mode s = Some raw"
      by (auto simp: file_mode_def bind_eq_Some_conv)
    obtain mode skip where m: "parse_default_mode_claiming_scope raw = (mode, skip)"
      by (cases "parse_default_mode_claiming_scope raw")
    have c: "claimed_mode E H (p # ps) = Some mode" using Some m by (simp add: claimed_mode_def)
    have a: "ca_mode (claim_mode Apply p s a) = Some mode"
      "ca_policy (claim_mode Apply p s a) = dme_prompt_policy (effects mode)"
      "ca_mode_source (claim_mode Apply p s a) = Some p"
      using Cons.prems s m by (simp_all add: claim_mode_def)
    then show ?thesis
      using s(1) c claude_loop_claimed[of "add_permissions p s (claim_mode Apply p s a)" E H Apply ps] by simp
  qed
qed

lemma claude_loop_skip:
  "ca_mode (claude_loop E H SkipManagedOwns ps a) = ca_mode a"
proof (induction ps arbitrary: a)
  case (Cons p ps)
  have "claim_mode SkipManagedOwns p s b = b" for s b by (auto simp: claim_mode_def split: option.splits)
  with Cons show ?case by (auto split: option.splits)
qed simp

subsection \<open>Lemmas: the resolved rules\<close>

text \<open>Every rule some source configures, in the order the sources are read, with the source's tag.\<close>

definition settings_result ::
    "externals \<Rightarrow> 'v::linorder host \<Rightarrow> path \<Rightarrow> resolve_inputs \<Rightarrow> (permission_config \<times> skipped_permission list \<times> path) option" where
  "settings_result E H cwd inputs =
     (if is_claude_import_marked H then None
      else resolve_claude_settings_inner E H cwd (ri_policy_block inputs)
             (if ms_default_mode (ri_managed inputs) \<noteq> None then SkipManagedOwns else Apply))"

definition collected_rules ::
    "externals \<Rightarrow> verbose_reader \<Rightarrow> 'v::linorder host \<Rightarrow> path \<Rightarrow> resolve_inputs \<Rightarrow> sourced_rule list" where
  "collected_rules E read_verbose H cwd inputs =
     load_requirements_permissions read_verbose H @ ms_permissions (ri_managed inputs)
     @ fst (managed_synthetics (ri_managed inputs) (ri_policy_block inputs))
     @ ri_managed_config_rules inputs @ load_config_toml_permissions read_verbose H cwd
     @ (case settings_result E H cwd inputs of
          Some (config, _, p) \<Rightarrow> tag_with_source (pc_rules config) (Settings p) | None \<Rightarrow> [])"

definition kept_rules ::
    "externals \<Rightarrow> verbose_reader \<Rightarrow> 'v::linorder host \<Rightarrow> path \<Rightarrow> resolve_inputs \<Rightarrow> sourced_rule list" where
  "kept_rules E read_verbose H cwd inputs =
     filter (\<lambda>s. ri_policy_block inputs = None \<or> \<not> untrusted_catchall E s) (collected_rules E read_verbose H cwd inputs)"

definition resolved_policy :: "externals \<Rightarrow> 'v::linorder host \<Rightarrow> path \<Rightarrow> resolve_inputs \<Rightarrow> prompt_policy" where
  "resolved_policy E H cwd inputs =
     (case ms_default_mode (ri_managed inputs) of
        Some mode \<Rightarrow> dme_prompt_policy (effects mode)
      | None \<Rightarrow> (case settings_result E H cwd inputs of
                   Some (config, _, _) \<Rightarrow> pc_prompt_policy config | None \<Rightarrow> prompt_policy.Ask))"

lemma drop_fst:
  "fst (drop_untrusted_catchall_allows E rules block)
     = filter (\<lambda>s. block = None \<or> \<not> untrusted_catchall E s) rules"
  by (simp add: drop_untrusted_catchall_allows_def split: option.splits)

lemma resolve_eq:
  "\<exists>skipped. resolve_permissions_with_provenance_inner E read_verbose H cwd inputs =
     (if kept_rules E read_verbose H cwd inputs = [] \<and> resolved_policy E H cwd inputs = prompt_policy.Ask
         \<and> skipped = [] then None
      else Some \<lparr>rp_config = \<lparr>pc_rules = map sr_value (kept_rules E read_verbose H cwd inputs),
                              pc_prompt_policy = resolved_policy E H cwd inputs\<rparr>,
                 rp_sources = map sr_source (kept_rules E read_verbose H cwd inputs), rp_skipped = skipped\<rparr>)
     \<and> (ri_policy_block inputs \<noteq> None \<longrightarrow>
          (\<forall>s \<in> set (collected_rules E read_verbose H cwd inputs). untrusted_catchall E s \<longrightarrow>
             catchall_skip (the (ri_policy_block inputs)) s \<in> set skipped))"
proof -
  define block where "block = ri_policy_block inputs"
  define syn where "syn = managed_synthetics (ri_managed inputs) block"
  define res where "res = settings_result E H cwd inputs"
  define all where "all = collected_rules E read_verbose H cwd inputs"
  define dropped where "dropped = drop_untrusted_catchall_allows E all block"
  define skipped where "skipped = snd syn @ (case res of Some (_, s, _) \<Rightarrow> s | None \<Rightarrow> []) @ snd dropped"
  have kept: "fst dropped = kept_rules E read_verbose H cwd inputs"
    by (simp add: dropped_def drop_fst kept_rules_def block_def all_def)
  obtain k d where kd: "dropped = (k, d)" by (cases dropped)
  obtain sy ss where sy: "syn = (sy, ss)" by (cases syn)
  have all: "all = load_requirements_permissions read_verbose H @ ms_permissions (ri_managed inputs) @ sy
      @ ri_managed_config_rules inputs @ load_config_toml_permissions read_verbose H cwd
      @ (case res of Some (config, _, p) \<Rightarrow> tag_with_source (pc_rules config) (Settings p) | None \<Rightarrow> [])"
    by (simp add: all_def collected_rules_def syn_def[symmetric] block_def[symmetric] res_def[symmetric] sy)
  have "resolve_permissions_with_provenance_inner E read_verbose H cwd inputs =
      (if k = [] \<and> resolved_policy E H cwd inputs = prompt_policy.Ask \<and> skipped = [] then None
       else Some \<lparr>rp_config = \<lparr>pc_rules = map sr_value k, pc_prompt_policy = resolved_policy E H cwd inputs\<rparr>,
                  rp_sources = map sr_source k, rp_skipped = skipped\<rparr>)"
  proof -
    have "(if is_claude_import_marked H then None else resolve_claude_settings_inner E H cwd block
        (if ms_default_mode (ri_managed inputs) \<noteq> None then SkipManagedOwns else Apply)) = res"
      by (simp add: res_def settings_result_def block_def)
    note step = resolve_permissions_with_provenance_inner_def Let_def block_def[symmetric] this syn_def[symmetric]
      sy prod.case
    have d': "drop_untrusted_catchall_allows E all block = (k, d)" using dropped_def kd by simp
    show ?thesis
    proof (cases res)
      case None
      then have a: "load_requirements_permissions read_verbose H @ ms_permissions (ri_managed inputs) @ sy
          @ ri_managed_config_rules inputs @ load_config_toml_permissions read_verbose H cwd @ [] = all"
        by (simp add: all)
      have p: "resolved_policy E H cwd inputs = (case ms_default_mode (ri_managed inputs) of
          Some mode \<Rightarrow> dme_prompt_policy (effects mode) | None \<Rightarrow> prompt_policy.Ask)"
        using None by (simp add: resolved_policy_def res_def split: option.splits)
      have "skipped = ss @ [] @ d" using None by (simp add: skipped_def sy kd)
      then show ?thesis unfolding step None option.case prod.case a d' p by simp
    next
      case (Some r)
      obtain config s p where r: "r = (config, s, p)" by (cases r)
      then have a: "load_requirements_permissions read_verbose H @ ms_permissions (ri_managed inputs) @ sy
          @ ri_managed_config_rules inputs @ load_config_toml_permissions read_verbose H cwd
          @ tag_with_source (pc_rules config) (Settings p) = all"
        using Some by (simp add: all)
      have p: "resolved_policy E H cwd inputs =
          (if ms_default_mode (ri_managed inputs) = None then pc_prompt_policy config
           else (case ms_default_mode (ri_managed inputs) of
             Some mode \<Rightarrow> dme_prompt_policy (effects mode) | None \<Rightarrow> prompt_policy.Ask))"
        using Some r by (simp add: resolved_policy_def res_def split: option.splits)
      have "skipped = ss @ s @ d" using Some r by (simp add: skipped_def sy kd)
      then show ?thesis unfolding step Some r option.case prod.case a d' p by simp
    qed
  qed
  moreover have "k = kept_rules E read_verbose H cwd inputs" using kept kd by simp
  moreover have "\<forall>s \<in> set all. untrusted_catchall E s \<longrightarrow> catchall_skip (the block) s \<in> set skipped" if "block \<noteq> None"
    using that by (auto simp: skipped_def dropped_def drop_untrusted_catchall_allows_def split: option.splits)
  ultimately show ?thesis unfolding all_def block_def by blast
qed

definition settings_rules ::
    "externals \<Rightarrow> 'v::linorder host \<Rightarrow> path \<Rightarrow> resolve_inputs \<Rightarrow> permission_rule list" where
  "settings_rules E H cwd inputs =
     (case settings_result E H cwd inputs of Some (config, _, _) \<Rightarrow> pc_rules config | None \<Rightarrow> [])"

lemma inner_result:
  fixes E :: externals and H :: "'v::linorder host"
  defines "a load cwd \<equiv> claude_loop E H load (find_claude_settings_paths H cwd) claude_acc_init"
  shows "(case resolve_claude_settings_inner E H cwd block load of
           Some (config, _, _) \<Rightarrow> pc_rules config | None \<Rightarrow> [])
      = ca_rules (a load cwd)
        @ (case ca_mode (a load cwd) of Some m \<Rightarrow> fst (synthetic_rules_for_default_mode m block) | None \<Rightarrow> [])"
    "(case resolve_claude_settings_inner E H cwd block load of
        Some (config, _, _) \<Rightarrow> pc_prompt_policy config | None \<Rightarrow> prompt_policy.Ask) = ca_policy (a load cwd)"
proof -
  obtain syn skip blocked where t: "(case ca_mode (a load cwd) of
      Some mode \<Rightarrow> synthetic_rules_for_default_mode mode block | None \<Rightarrow> ([], [], False)) = (syn, skip, blocked)"
    by (metis surj_pair)
  then have syn: "(case ca_mode (a load cwd) of Some m \<Rightarrow> fst (synthetic_rules_for_default_mode m block) | None \<Rightarrow> []) = syn"
    by (auto split: option.splits)
  show "(case resolve_claude_settings_inner E H cwd block load of
           Some (config, _, _) \<Rightarrow> pc_rules config | None \<Rightarrow> [])
      = ca_rules (a load cwd)
        @ (case ca_mode (a load cwd) of Some m \<Rightarrow> fst (synthetic_rules_for_default_mode m block) | None \<Rightarrow> [])"
    "(case resolve_claude_settings_inner E H cwd block load of
        Some (config, _, _) \<Rightarrow> pc_prompt_policy config | None \<Rightarrow> prompt_policy.Ask) = ca_policy (a load cwd)"
    unfolding syn unfolding resolve_claude_settings_inner_def Let_def a_def[symmetric] t prod.case by auto
qed

lemma settings_rules_eq:
  assumes "\<not> is_claude_import_marked H"
  shows "settings_rules E H cwd inputs =
     concat (map (file_rules E H) (find_claude_settings_paths H cwd))
     @ (if ms_default_mode (ri_managed inputs) \<noteq> None then []
        else (case claimed_mode E H (find_claude_settings_paths H cwd) of
                Some m \<Rightarrow> fst (synthetic_rules_for_default_mode m (ri_policy_block inputs)) | None \<Rightarrow> []))"
proof (cases "ms_default_mode (ri_managed inputs)")
  case None
  have "ca_mode (claude_loop E H Apply (find_claude_settings_paths H cwd) claude_acc_init)
      = claimed_mode E H (find_claude_settings_paths H cwd)"
    using claude_loop_mode[of claude_acc_init E H "find_claude_settings_paths H cwd"]
    by (simp add: claude_acc_init_def split: option.splits)
  with None assms show ?thesis
    by (simp add: settings_rules_def settings_result_def inner_result(1) claude_loop_rules)
      (simp add: claude_acc_init_def)
next
  case (Some m)
  with assms show ?thesis
    by (simp add: settings_rules_def settings_result_def inner_result(1) claude_loop_rules claude_loop_skip)
      (simp add: claude_acc_init_def)
qed

lemma settings_policy:
  assumes "ms_default_mode (ri_managed inputs) = None" "\<not> is_claude_import_marked H"
  shows "(case settings_result E H cwd inputs of Some (config, _, _) \<Rightarrow> pc_prompt_policy config | None \<Rightarrow> prompt_policy.Ask)
     = (case claimed_mode E H (find_claude_settings_paths H cwd) of
          Some m \<Rightarrow> dme_prompt_policy (effects m) | None \<Rightarrow> prompt_policy.Ask)"
proof -
  have "ca_mode_source claude_acc_init = None" "ca_policy claude_acc_init = prompt_policy.Ask"
    by (simp_all add: claude_acc_init_def)
  with claude_loop_mode[of claude_acc_init E H "find_claude_settings_paths H cwd"] assms show ?thesis
    by (simp add: settings_result_def inner_result(2) split: option.split)
qed

lemma collected_settings:
  assumes "r \<in> set (settings_rules E H cwd inputs)"
  shows "\<exists>s \<in> set (collected_rules E read_verbose H cwd inputs). sr_value s = r"
proof -
  obtain config sk p where res: "settings_result E H cwd inputs = Some (config, sk, p)" "r \<in> set (pc_rules config)"
    using assms by (cases "settings_result E H cwd inputs") (auto simp: settings_rules_def)
  then have "\<lparr>sr_value = r, sr_source = Settings p\<rparr> \<in> set (collected_rules E read_verbose H cwd inputs)"
    by (simp add: collected_rules_def tag_with_source_def)
  then show ?thesis by (rule rev_bexI) simp
qed

text \<open>The rules every source configures, the synthetic ones of a mode apart.\<close>

definition configured_rules ::
    "externals \<Rightarrow> verbose_reader \<Rightarrow> 'v::linorder host \<Rightarrow> path \<Rightarrow> resolve_inputs \<Rightarrow> permission_rule list" where
  "configured_rules E read_verbose H cwd inputs =
     map sr_value (load_requirements_permissions read_verbose H @ ms_permissions (ri_managed inputs)
       @ ri_managed_config_rules inputs @ load_config_toml_permissions read_verbose H cwd)
     @ (if is_claude_import_marked H then [] else concat (map (file_rules E H) (find_claude_settings_paths H cwd)))"

lemma configured_collected:
  "r \<in> set (configured_rules E read_verbose H cwd inputs) \<Longrightarrow>
   \<exists>s \<in> set (collected_rules E read_verbose H cwd inputs). sr_value s = r"
proof -
  assume r: "r \<in> set (configured_rules E read_verbose H cwd inputs)"
  show ?thesis
  proof (cases "is_claude_import_marked H")
    case True
    with r show ?thesis by (auto simp: configured_rules_def collected_rules_def)
  next
    case False
    from r consider "r \<in> set (settings_rules E H cwd inputs)"
      | "r \<in> sr_value ` set (collected_rules E read_verbose H cwd inputs)"
      using settings_rules_eq[OF False, of E cwd inputs]
      by (fastforce simp: configured_rules_def collected_rules_def False)
    then show ?thesis by cases (auto dest: collected_settings)
  qed
qed

lemma configured_kept:
  assumes "r \<in> set (configured_rules E read_verbose H cwd inputs)" "pr_action r \<noteq> rule_action.Allow"
  shows "r \<in> sr_value ` set (kept_rules E read_verbose H cwd inputs)"
proof -
  obtain s where s: "s \<in> set (collected_rules E read_verbose H cwd inputs)" "sr_value s = r"
    using configured_collected[OF assms(1)] by blast
  with assms(2) have "\<not> untrusted_catchall E s" by (simp add: untrusted_catchall_def is_catchall_allow_def)
  with s show ?thesis by (auto simp: kept_rules_def)
qed

lemma resolved_evaluates:
  assumes "r \<in> set (configured_rules E read_verbose H cwd inputs)" "pr_action r \<noteq> rule_action.Allow"
  obtains rp where "resolve_permissions_with_provenance_inner E read_verbose H cwd inputs = Some rp"
    "pc_rules (rp_config rp) = map sr_value (kept_rules E read_verbose H cwd inputs)"
    "decides (matching_actions E access (pc_rules (rp_config rp)))
       (evaluate E (compiled_policy_new E (rp_config rp)) access)"
proof -
  have "kept_rules E read_verbose H cwd inputs \<noteq> []" using configured_kept[OF assms] by auto
  with resolve_eq[of E read_verbose H cwd inputs] obtain rp where rp:
      "resolve_permissions_with_provenance_inner E read_verbose H cwd inputs = Some rp"
      "pc_rules (rp_config rp) = map sr_value (kept_rules E read_verbose H cwd inputs)"
    by auto
  have "decides (matching_actions E access (pc_rules (rp_config rp) @ []))
      (evaluate E (with_synthetic_rules E (rp_config rp) []) access)"
    using evaluate_rules_decides[of E access "pc_rules (rp_config rp)"]
      evaluate_rules_decides[of E access "[]"]
    unfolding evaluate_def matching_actions_simps
    by (intro decides_combine) (simp_all add: with_synthetic_rules_def)
  then show thesis using that[OF rp] by (simp add: compiled_policy_new_def)
qed

subsection \<open>Lemmas: every written rule is configured\<close>

lemma repo_root_absolute: "find_repo_root H p = Some r \<Longrightarrow> path_is_absolute p \<Longrightarrow> path_is_absolute r"
proof (induction H p rule: find_repo_root.induct)
  case (1 H p)
  have "path_is_absolute q" if "path_parent p = Some q" for q
    using that 1(3) by (cases p) (auto simp: path_parent_def path_is_absolute_def split: if_splits)
  with 1 show ?case by (subst (asm) (2) find_repo_root.simps) (auto split: if_splits option.splits)
qed

lemma project_root_absolute: "path_is_absolute cwd \<Longrightarrow> path_is_absolute (project_root H cwd)"
  by (auto simp: project_root_def repo_root_absolute split: option.split)

lemma vendor_file_rules:
  assumes "consulted_json E H cwd doc" "lists_in_json doc r" "path_is_absolute cwd" "''/'' \<notin> set (tl cwd)"
  shows "r \<in> sr_value ` set (ms_permissions (load_managed_settings E H))
    \<or> \<not> is_claude_import_marked H \<and> (\<exists>f \<in> set (find_claude_settings_paths H cwd). r \<in> set (file_rules E H f))"
  using assms(1)
proof cases
  case (vendor d name content)
  let ?f = "d @ [''.claude'', name]"
  obtain parsed where "cs_permissions (settings_of_json doc) = Some parsed"
      "r \<in> set (pc_rules (fst (into_permission_config parsed)))"
    using vendor_listed[OF assms(2)] by blast
  then have rules: "r \<in> set (file_rules E H ?f)"
    using vendor(4,5) by (simp add: file_rules_def load_claude_settings_def)
  have f: "?f \<in> set (settings_files d)" using vendor(3) by (auto simp: settings_files_dir)
  have "?f \<in> set (find_claude_settings_paths H cwd)"
    using vendor(2)
  proof
    assume "prefix (project_root H cwd) d \<and> prefix d cwd"
    then have "d \<in> set (walk_up (project_root H cwd) cwd)"
      using absolute_walk[OF project_root_absolute[OF assms(3)]] assms(4) by blast
    with f show ?thesis by (auto simp: find_claude_settings_paths_def collect_project_claude_paths_def)
  next
    assume "dirs_home_dir H = Some d"
    with f show ?thesis by (simp add: find_claude_settings_paths_def global_claude_settings_paths_def)
  qed
  with rules vendor(1) show ?thesis by blast
next
  case (administrator p content)
  then have "ms_permissions (load_managed_settings E H) = parse_managed_settings_permissions doc p"
    by (simp add: load_managed_settings_def read_managed_settings_json_def parse_managed_settings_json_def Let_def)
  with managed_listed[OF assms(2) administrator(4)] show ?thesis by metis
qed

lemma written_configured:
  assumes "written_rule E read_verbose H cwd r" "path_is_absolute cwd" "''/'' \<notin> set (tl cwd)"
  shows "r \<in> set (configured_rules E read_verbose H cwd (live E read_verbose H))"
  using assms(1) toml_rules_loaded[OF _ _ assms(3)] vendor_file_rules[OF _ _ assms(2,3)]
  unfolding written_rule_def configured_rules_def live_def by fastforce

subsection \<open>Lemmas: what an administrator wrote\<close>

text \<open>
  The documents only an administrator writes: the requirements file below \<open>/etc\<close>, the requirements forced by
  device management, and the managed settings.
\<close>

definition administrator_wrote ::
    "externals \<Rightarrow> verbose_reader \<Rightarrow> 'v::linorder host \<Rightarrow> permission_rule \<Rightarrow> bool" where
  "administrator_wrote E read_verbose H r \<longleftrightarrow>
     (\<exists>doc. ((\<exists>d. system_config_dir H = Some d \<and> load_requirements_layer H (path_join d ''requirements.toml'') = Some doc)
             \<or> mdm_requirements_value H = Some doc)
        \<and> lists_in_toml read_verbose doc r)
     \<or> (\<exists>p text doc. claude_managed_settings_path H = Some p \<and> read_to_string H p = Inr text
          \<and> json_from_str E text = Some doc \<and> lists_in_managed doc r)"

lemma synthetic_not_blanket:
  "r \<in> set (fst (synthetic_rules_for_default_mode mode (Some reason))) \<Longrightarrow> \<not> is_catchall_allow E r"
  by (auto simp: synthetic_rules_for_default_mode_def catch_all_allow_def is_catchall_allow_def Let_def split: if_splits)

lemma managed_synthetic:
  assumes "x \<in> set (fst (managed_synthetics managed block))"
  shows "\<exists>mode. sr_value x \<in> set (fst (synthetic_rules_for_default_mode mode block))"
proof (cases "ms_default_mode managed")
  case (Some mode)
  with assms have "sr_value x \<in> set (fst (synthetic_rules_for_default_mode mode block))"
    by (cases "synthetic_rules_for_default_mode mode block") (auto simp: managed_synthetics_def tag_with_source_def)
  then show ?thesis ..
qed (use assms in \<open>simp add: managed_synthetics_def\<close>)

lemma config_rule_sources:
  "x \<in> set (load_config_toml_permissions read_verbose H cwd) \<Longrightarrow> \<exists>p. sr_source x = Config p"
  by (auto simp: load_config_toml_permissions_def load_config_rules_def Let_def dest!: extract_written
      split: option.splits sum.splits if_splits)

lemma admin_rule_written:
  assumes "x \<in> set (collected_rules E read_verbose H cwd (live E read_verbose H))"
    and "yolo_disabled_by_policy H = Some reason" "is_catchall_allow E (sr_value x)" "is_admin_source (sr_source x)"
  shows "administrator_wrote E read_verbose H (sr_value x)"
proof -
  let ?managed = "load_managed_settings E H"
  have "x \<notin> set (managed_config_permissions read_verbose (managed_config_layers H))"
    using assms(4) by (auto simp: managed_config_permissions_def dest!: extract_written)
  moreover have "x \<notin> set (load_config_toml_permissions read_verbose H cwd)"
    using assms(4) config_rule_sources[of x] by fastforce
  moreover have "x \<notin> set (fst (managed_synthetics ?managed (Some reason)))"
    using assms(3) managed_synthetic[of x] synthetic_not_blanket[of "sr_value x" _ reason E] by blast
  moreover have "x \<notin> set (case settings_result E H cwd (live E read_verbose H) of
      Some (config, _, p) \<Rightarrow> tag_with_source (pc_rules config) (Settings p) | None \<Rightarrow> [])"
    using assms(4) by (auto simp: tag_with_source_def split: option.splits)
  ultimately consider "x \<in> set (load_requirements_permissions read_verbose H)" | "x \<in> set (ms_permissions ?managed)"
    using assms(1,2) by (auto simp: collected_rules_def live_def)
  then show ?thesis
  proof cases
    case 1
    then obtain layer where layer: "layer \<in> set (requirements_layers H)"
        "x \<in> set (extract_toml_permissions read_verbose (rl_value layer) (requirements_source_of layer))"
      by (auto simp: load_requirements_permissions_def)
    then have "rl_is_system layer" "lists_in_toml read_verbose (rl_value layer) (sr_value x)"
      using extract_written[OF layer(2)] assms(4) by (auto simp: requirements_source_of_def Let_def split: if_splits)
    with layer(1) show ?thesis
      by (auto simp: administrator_wrote_def requirements_layers_def Let_def split: option.splits
          dest!: sym[of "Some _"])
  next
    case 2
    then show ?thesis
      by (auto simp: administrator_wrote_def load_managed_settings_def read_managed_settings_json_def
          parse_managed_settings_json_def managed_settings_default_def Let_def dest!: managed_written
          split: option.splits sum.splits)
  qed
qed

subsection \<open>Properties\<close>

text \<open>C7: No source loses a restriction that is written in it. Take a deny or ask rule as a document lists it: in the
  requirements (the user's, the system's or those forced by device management), a \<open>managed_config.toml\<close>, the user's
  or a project's \<open>config.toml\<close>, the managed settings, or - unless the vendor settings were imported - a vendor
  settings file of the user or of a directory between the repository root and the working directory, an absolute
  path. If the rule applies to an access, the resolved policy rejects it (for a deny) or rejects it or asks (for an
  ask), whatever allow rules and modes other sources bring and whether or not the pin is set. Outside this are
  documents that cannot be read or parsed or whose version overrides are invalid, entries that are no valid rule,
  verbose TOML rules beside a compact list, and managed settings one of whose lists holds something that is not a
  string: there the code drops rules (see \<open>managed_rules_all_or_nothing\<close> and \<open>compact_hides_verbose\<close>).\<close>

theorem every_source_restricts:
  assumes "written_rule E read_verbose H cwd r" "path_is_absolute cwd" "''/'' \<notin> set (tl cwd)"
    and "rule_applies E access r" "pr_action r \<noteq> rule_action.Allow"
  shows "\<exists>rp d. resolve_permissions_with_provenance E read_verbose H cwd = Some rp
      \<and> evaluate E (compiled_policy_new E (rp_config rp)) access = Some d
      \<and> ((\<exists>m. d = decision.Reject m) \<or> (pr_action r = rule_action.Ask \<and> d = decision.Ask))"
proof -
  note configured = written_configured[OF assms(1-3)]
  obtain rp where rp: "resolve_permissions_with_provenance_inner E read_verbose H cwd (live E read_verbose H) = Some rp"
      "pc_rules (rp_config rp) = map sr_value (kept_rules E read_verbose H cwd (live E read_verbose H))"
      "decides (matching_actions E access (pc_rules (rp_config rp)))
         (evaluate E (compiled_policy_new E (rp_config rp)) access)"
    using resolved_evaluates[OF configured assms(5), of access] by blast
  have "pr_action r \<in> matching_actions E access (pc_rules (rp_config rp))"
    using configured_kept[OF configured assms(5)] assms(4) rp(2) by (auto simp: matching_actions_def)
  with rp(1,3) assms(5) show ?thesis
    unfolding resolve_permissions_with_provenance_def
    by (cases "pr_action r") (auto simp: decides_def split: if_splits)
qed

lemma admin_source_iff:
  "is_admin_source source \<longleftrightarrow> (\<exists>p. source = SystemRequirements p \<or> source = ManagedSettings p)"
  by (cases source) auto

text \<open>C8: The pin. When the administrator pins always-approve off, every blanket allow of commands, MCP tools or
  fetches in the resolved policy is one that an administrator wrote: it is listed in the requirements file below
  \<open>/etc\<close>, in the requirements forced by device management or in the managed settings, and carries that source. None
  comes from a file a user or a project can write, and none from a mode, not even from the managed settings'
  mode that approves everything. Every blanket allow of another source is dropped and recorded with the pin's
  reason, and the sources stay aligned with the rules.\<close>

theorem pin_drops_untrusted_blanket_allows:
  assumes "resolve_permissions_with_provenance E read_verbose H cwd = Some rp"
    and "yolo_disabled_by_policy H = Some reason"
  shows "length (rp_sources rp) = length (pc_rules (rp_config rp))
    \<and> (\<forall>i < length (pc_rules (rp_config rp)).
         is_catchall_allow E (pc_rules (rp_config rp) ! i) \<longrightarrow>
         administrator_wrote E read_verbose H (pc_rules (rp_config rp) ! i)
         \<and> (\<exists>p. rp_sources rp ! i = SystemRequirements p \<or> rp_sources rp ! i = ManagedSettings p))
    \<and> (\<forall>x \<in> set (collected_rules E read_verbose H cwd (live E read_verbose H)).
         is_catchall_allow E (sr_value x) \<and> (\<forall>p. sr_source x \<noteq> SystemRequirements p \<and> sr_source x \<noteq> ManagedSettings p)
         \<longrightarrow> catchall_skip reason x \<in> set (rp_skipped rp))"
proof -
  let ?in = "live E read_verbose H"
  let ?kept = "kept_rules E read_verbose H cwd ?in"
  have block: "ri_policy_block ?in = Some reason" using assms(2) by (simp add: live_def)
  obtain skipped where rp: "rp = \<lparr>rp_config = \<lparr>pc_rules = map sr_value ?kept,
        pc_prompt_policy = resolved_policy E H cwd ?in\<rparr>,
        rp_sources = map sr_source ?kept, rp_skipped = skipped\<rparr>"
      "\<forall>x \<in> set (collected_rules E read_verbose H cwd ?in). untrusted_catchall E x \<longrightarrow>
            catchall_skip reason x \<in> set skipped"
    using resolve_eq[of E read_verbose H cwd ?in] assms(1) block
    by (auto simp: resolve_permissions_with_provenance_def split: if_splits)
  have "administrator_wrote E read_verbose H (sr_value x) \<and> is_admin_source (sr_source x)"
    if "x \<in> set ?kept" "is_catchall_allow E (sr_value x)" for x
    using that block admin_rule_written[OF _ assms(2) that(2)]
    by (auto simp: kept_rules_def untrusted_catchall_def)
  then have "administrator_wrote E read_verbose H (sr_value (?kept ! i)) \<and> is_admin_source (sr_source (?kept ! i))"
    if "i < length ?kept" "is_catchall_allow E (sr_value (?kept ! i))" for i
    using that nth_mem by blast
  with rp show ?thesis by (simp add: untrusted_catchall_def admin_source_iff)
qed

text \<open>The mode has one owner. A managed mode decides what happens when no rule does, and then no user or
  project file contributes more than its own allow, deny and ask lists; without one, the most specific
  settings file that names a mode decides, an unrecognised name included (it is the prompting default), and
  only that file's mode adds a rule; without any, or once the settings are imported, the user is asked.\<close>

theorem mode_has_one_owner:
  assumes "resolve_permissions_with_provenance_inner E read_verbose H cwd inputs = Some rp"
  shows "pc_prompt_policy (rp_config rp) =
      (case ms_default_mode (ri_managed inputs) of
         Some m \<Rightarrow> dme_prompt_policy (effects m)
       | None \<Rightarrow>
           if is_claude_import_marked H then prompt_policy.Ask
           else (case claimed_mode E H (find_claude_settings_paths H cwd) of
                   Some m \<Rightarrow> dme_prompt_policy (effects m) | None \<Rightarrow> prompt_policy.Ask))
    \<and> settings_rules E H cwd inputs =
        (if is_claude_import_marked H then []
         else concat (map (file_rules E H) (find_claude_settings_paths H cwd))
              @ (case (ms_default_mode (ri_managed inputs), claimed_mode E H (find_claude_settings_paths H cwd)) of
                   (None, Some m) \<Rightarrow> fst (synthetic_rules_for_default_mode m (ri_policy_block inputs))
                 | _ \<Rightarrow> []))"
proof -
  have "pc_prompt_policy (rp_config rp) = resolved_policy E H cwd inputs"
    using resolve_eq[of E read_verbose H cwd inputs] assms by (auto split: if_splits)
  moreover have "settings_rules E H cwd inputs = []" if "is_claude_import_marked H"
    using that by (simp add: settings_rules_def settings_result_def)
  moreover have "settings_result E H cwd inputs = None" if "is_claude_import_marked H"
    using that by (simp add: settings_result_def)
  ultimately show ?thesis
    using settings_rules_eq[of H E cwd inputs] settings_policy[of inputs H E cwd]
    by (auto simp: resolved_policy_def split: option.splits)
qed

text \<open>An untrusted project contributes no environment. With the project untrusted, the variables that
  settings files inject into every subprocess come from the user's own two files alone: no other file's
  contents or presence changes them. With it trusted, a variable has the value of the first file that sets
  it, from the working directory up to the repository root and then the user's files.\<close>

theorem untrusted_project_sets_no_env:
  assumes "H' = H\<lparr>read_to_string := f, path_exists := ex, is_file := fi\<rparr>"
    and "\<forall>p \<in> set (global_claude_settings_paths H). f p = read_to_string H p"
    and "\<forall>g. user_grok_home H = Some g \<longrightarrow> f (path_join g ''config.toml'') = read_to_string H (path_join g ''config.toml'')"
  shows "load_claude_env_with_project E H' cwd' False = load_claude_env_with_project E H cwd False
    \<and> load_claude_env_with_project E H cwd True k =
        (if is_claude_import_marked H then None
         else (case find (\<lambda>p. map_of (env_of E H p) k \<noteq> None) (find_claude_settings_paths H cwd) of
                 Some p \<Rightarrow> map_of (env_of E H p) k | None \<Rightarrow> None))"
proof -
  have homes: "user_grok_home H' = user_grok_home H" "global_claude_settings_paths H' = global_claude_settings_paths H"
    by (simp_all add: assms(1) user_grok_home_def grok_home_def default_grok_home_def global_claude_settings_paths_def
        split: option.split)
  have marked: "is_claude_import_marked H' = is_claude_import_marked H"
  proof -
    have "env_var H' = env_var H" "toml_from_str H' = toml_from_str H" "read_to_string H' = f"
      by (simp_all add: assms(1))
    with homes(1) assms(3) show ?thesis
      by (cases "user_grok_home H") (simp_all add: is_claude_import_marked_def split: sum.split)
  qed
  have env: "env_of E H' p = env_of E H p" if "p \<in> set (global_claude_settings_paths H)" for p
    using assms(1,2) that by (simp add: env_of_def load_claude_settings_def)
  have "foldl (\<lambda>merged path. merged ++ map_of (env_of E H' path)) m ps
      = foldl (\<lambda>merged path. merged ++ map_of (env_of E H path)) m ps"
    if "set ps \<subseteq> set (global_claude_settings_paths H)" for m ps
    using that env by (induction ps arbitrary: m) auto
  then have "load_claude_env_with_project E H' cwd' False = load_claude_env_with_project E H cwd False"
    by (simp add: load_claude_env_with_project_def Let_def homes marked)
  moreover have "load_claude_env_with_project E H cwd True k =
      (if is_claude_import_marked H then None
       else (case find (\<lambda>p. map_of (env_of E H p) k \<noteq> None) (find_claude_settings_paths H cwd) of
               Some p \<Rightarrow> map_of (env_of E H p) k | None \<Rightarrow> None))"
    using env_fold[of "env_of E H" Map.empty "find_claude_settings_paths H cwd" k]
    by (simp add: load_claude_env_with_project_def Let_def split: option.splits)
  ultimately show ?thesis ..
qed

text \<open>The walk for a project's settings files ends at its root. From an absolute working directory it
  visits exactly the directories between the repository root and the working directory, the nearest first,
  and so returns after as many steps as there are; the root is the nearest directory above with a \<open>.git\<close>,
  unless that is the home directory or there is none, where the walk stays in the working directory.\<close>

theorem project_walk_ends_at_root:
  assumes "path_is_absolute cwd" "''/'' \<notin> set (tl cwd)"
  shows "let root = project_root H cwd in
      prefix root cwd
      \<and> walk_up root cwd = map (\<lambda>n. take n cwd) (rev [length root ..< Suc (length cwd)])
      \<and> set (collect_project_claude_paths H cwd)
          = {f. \<exists>d. prefix root d \<and> prefix d cwd \<and> f \<in> set (settings_files d)}
      \<and> root = (case find (\<lambda>d. path_exists H (path_join d ''.git'')) (map (\<lambda>n. take n cwd) (rev [1 ..< Suc (length cwd)])) of
                  Some d \<Rightarrow> if is_home_dir H d then cwd else d
                | None \<Rightarrow> cwd)"
proof -
  have parent: "path_parent (take n cwd) = (if n \<le> 1 then None else Some (take (n - 1) cwd))"
    if "1 \<le> n" "n \<le> length cwd" for n
  proof (cases "n = 1")
    case True
    with assms(1) that show ?thesis by (cases cwd) (auto simp: path_parent_def path_is_absolute_def)
  next
    case False
    obtain c cs where cwd: "cwd = c # cs" using assms(1) by (cases cwd) (auto simp: path_is_absolute_def)
    have "last (take n cwd) = cs ! (n - 2)"
      using that False cwd by (simp add: last_conv_nth nth_Cons' numeral_2_eq_2)
    then have "last (take n cwd) \<noteq> ''/''" using assms(2) that False cwd by (auto simp: in_set_conv_nth)
    with False that show ?thesis by (auto simp: path_parent_def butlast_take)
  qed
  have walk: "walk_up (take m cwd) (take n cwd) = map (\<lambda>n. take n cwd) (rev [m ..< Suc n])"
    if "1 \<le> m" "m \<le> n" "n \<le> length cwd" for m n
    using that
  proof (induction n)
    case (Suc n)
    show ?case
    proof (cases "m = Suc n")
      case True
      then show ?thesis by (subst walk_up.simps) simp
    next
      case False
      have ne: "take (Suc n) cwd \<noteq> take m cwd"
      proof
        assume "take (Suc n) cwd = take m cwd"
        then have "length (take (Suc n) cwd) = length (take m cwd)" by simp
        with Suc.prems False show False by simp
      qed
      have "path_parent (take (Suc n) cwd) = Some (take n cwd)" using parent[of "Suc n"] Suc.prems False by simp
      with ne Suc False show ?thesis by (subst walk_up.simps) simp
    qed
  qed simp
  have search: "find_repo_root H (take n cwd)
      = find (\<lambda>d. path_exists H (path_join d ''.git'')) (map (\<lambda>n. take n cwd) (rev [1 ..< Suc n]))"
    if "1 \<le> n" "n \<le> length cwd" for n
    using that
  proof (induction n)
    case (Suc n)
    then show ?case
      using parent[of "Suc n"] by (cases n) (simp_all add: find_repo_root.simps[of H "take (Suc _) cwd"])
  qed simp
  have len: "1 \<le> length cwd" using assms(1) by (cases cwd) (auto simp: path_is_absolute_def)
  define root where "root = project_root H cwd"
  have r: "prefix root cwd" unfolding root_def by (rule project_root_prefix)
  have rootd: "root = (case find (\<lambda>d. path_exists H (path_join d ''.git'')) (map (\<lambda>n. take n cwd) (rev [1 ..< Suc (length cwd)])) of
                  Some d \<Rightarrow> if is_home_dir H d then cwd else d
                | None \<Rightarrow> cwd)"
    using search[OF len order_refl] by (simp add: root_def project_root_def)
  have "1 \<le> length root"
  proof -
    have "root \<noteq> []"
    proof (cases "find (\<lambda>d. path_exists H (path_join d ''.git'')) (map (\<lambda>n. take n cwd) (rev [1 ..< Suc (length cwd)]))")
      case (Some d)
      then have "d \<in> set (map (\<lambda>n. take n cwd) (rev [1 ..< Suc (length cwd)]))" by (metis find_Some_iff nth_mem)
      then have "d \<noteq> []" using len by auto
      with Some rootd len show ?thesis by (auto split: if_splits)
    qed (use rootd len in auto)
    then show ?thesis by (simp add: Suc_le_eq)
  qed
  moreover have "take (length root) cwd = root" using r by (auto simp: prefix_def)
  ultimately have w: "walk_up root cwd = map (\<lambda>n. take n cwd) (rev [length root ..< Suc (length cwd)])"
    using walk[of "length root" "length cwd"] r prefix_length_le by fastforce
  have "set (walk_up root cwd) = {d. prefix root d \<and> prefix d cwd}"
  proof -
    have "root \<noteq> [] \<or> ''/'' \<notin> set cwd" using \<open>1 \<le> length root\<close> by auto
    from walk_up_iff[OF r assms(2) this] show ?thesis by blast
  qed
  then have "set (collect_project_claude_paths H cwd)
      = {f. \<exists>d. prefix root d \<and> prefix d cwd \<and> f \<in> set (settings_files d)}"
    by (auto simp: collect_project_claude_paths_def root_def)
  with r w rootd show ?thesis unfolding root_def[symmetric] Let_def by blast
qed

subsection \<open>Where the sources differ\<close>

text \<open>
  The managed settings are read by the derived deserializer, which fails as a whole on one entry that is not
  a string; the files of users and projects are read entry by entry. So the same document keeps its deny
  rules as a user file and loses all its rules as the managed file.
\<close>

definition mixed_document :: json where
  "mixed_document = JObj [(''permissions'', JObj [(''deny'', JArr [JStr ''Bash(rm:*)'', JBool True])])]"

lemma managed_rules_all_or_nothing:
  "parse_managed_settings_permissions mixed_document p = []
   \<and> map_option pp_deny (cs_permissions (settings_of_json mixed_document)) = Some [''Bash(rm:*)'']"
  by (simp add: mixed_document_def parse_managed_settings_permissions_def strict_permissions_def settings_of_json_def
      extract_string_array_def)

text \<open>A compact list, even an empty one, hides the verbose rules of the same section.\<close>

lemma compact_hides_verbose:
  "toml_get v ''allow'' = Some (TomlArray []) \<Longrightarrow> toml_get v ''deny'' = None \<Longrightarrow> toml_get v ''ask'' = None
     \<Longrightarrow> parse_toml_permission_section read_verbose v = Some []"
  by (simp add: parse_toml_permission_section_def compact_key_def compact_rules_def map_filter_simps Let_def)

text \<open>
  The walk for \<open>config.toml\<close> files stops at the path the git library reports; when the working directory is
  spelled differently (through a symbolic link), it is not met and the walk goes on to the top.
\<close>

lemma walk_past_root:
  "\<not> prefix r p \<Longrightarrow> path_is_absolute p \<Longrightarrow> ''/'' \<notin> set (tl p) \<Longrightarrow>
   d \<in> set (walk_up r p) \<longleftrightarrow> prefix [''/''] d \<and> prefix d p"
proof (induction r p rule: walk_up.induct)
  case (1 r p)
  have ne: "p \<noteq> r" using 1(2) by auto
  obtain cs where p: "p = ''/'' # cs" using 1(3) by (cases p) (auto simp: path_is_absolute_def)
  show ?case
  proof (cases cs rule: rev_cases)
    case Nil
    with p ne have "d \<in> set (walk_up r p) \<longleftrightarrow> d = p"
      using walk_up_mem[of d r p] by (simp add: path_parent_def)
    with Nil p show ?thesis by (auto simp: prefix_Cons)
  next
    case (snoc ds c)
    then have q: "path_parent p = Some (''/'' # ds)" using p 1(4) by (auto simp: path_parent_def)
    have "\<not> prefix r (''/'' # ds)"
      using 1(2) path_parent_prefix[OF q] by (metis prefix_order.order_trans)
    moreover have "path_is_absolute (''/'' # ds)" "''/'' \<notin> set (tl (''/'' # ds))"
      using 1(4) p snoc by (simp_all add: path_is_absolute_def)
    ultimately have "d \<in> set (walk_up r (''/'' # ds)) \<longleftrightarrow> prefix [''/''] d \<and> prefix d (''/'' # ds)"
      by (rule 1(1)[OF ne q])
    moreover have "d \<in> set (walk_up r p) \<longleftrightarrow> d = p \<or> d \<in> set (walk_up r (''/'' # ds))"
      using walk_up_mem[of d r p] ne q by simp
    ultimately show ?thesis using p snoc by (auto simp: prefix_snoc[of d "''/'' # ds" c, simplified])
  qed
qed

subsection \<open>Witnesses\<close>

definition home_settings :: path where
  "home_settings = [''/'', ''home'', ''u'', ''.claude'', ''settings.json'']"

definition project_settings :: path where
  "project_settings = [''/'', ''w'', ''.claude'', ''settings.json'']"

definition settings_host :: "nat host" where
  "settings_host =
     example_host (\<lambda>p. if p = home_settings then Some ''h'' else if p = project_settings then Some ''p''
                       else if p = [''/'', ''w'', ''.git''] then Some [] else None) (\<lambda>_. None)"

definition settings_externals :: externals where
  "settings_externals = (example_externals (\<lambda>_. None))\<lparr>json_from_str := \<lambda>s.
     if s = ''h'' then Some (JObj [(''env'', JObj [(''A'', JStr ''1'')])])
     else if s = ''p'' then Some (JObj [(''env'', JObj [(''LD_PRELOAD'', JStr ''x'')])])
     else None\<rparr>"

definition deny_bash :: permission_rule where
  "deny_bash = \<lparr>pr_action = rule_action.Deny, pr_tool = tool_filter.Bash, pr_pattern = None, pr_pattern_mode = Glob\<rparr>"

definition pinned_inputs :: resolve_inputs where
  "pinned_inputs =
     \<lparr>ri_policy_block = Some YOLO_PIN_REASON_REQUIREMENTS,
      ri_managed = managed_settings_default\<lparr>ms_default_mode := Some DontAsk\<rparr>,
      ri_managed_config_rules = tag_with_source [deny_bash, catch_all_allow Any] (ManagedConfig [''/'', ''m''])\<rparr>"

lemma deny_bash_configured:
  "deny_bash \<in> set (configured_rules E read_verbose H cwd pinned_inputs)"
  by (simp add: configured_rules_def pinned_inputs_def tag_with_source_def)

lemma pinned_resolves:
  obtains rp where "resolve_permissions_with_provenance_inner E read_verbose H cwd pinned_inputs = Some rp"
proof -
  have "pr_action deny_bash \<noteq> rule_action.Allow" by (simp add: deny_bash_def)
  from resolved_evaluates[OF deny_bash_configured this] show thesis using that by metis
qed

text \<open>A user's requirements file with the pin, a deny rule and a blanket allow.\<close>

definition pinned_doc :: toml where
  "pinned_doc = TomlTable [(''ui'', TomlTable [(''disable_bypass_permissions_mode'', TomlBoolean True)]),
     (''permission'', TomlTable [(''deny'', TomlArray [TomlString ''Read'']), (''allow'', TomlArray [TomlString ''Bash''])])]"

definition pinned_host :: "nat host" where
  "pinned_host =
     example_host (\<lambda>p. if p = [''/'', ''home'', ''u'', ''.qidi'', ''requirements.toml''] then Some ''r'' else None)
       (\<lambda>s. if s = ''r'' then Some pinned_doc else None)"

lemma pinned_home: "user_grok_home pinned_host = Some [''/'', ''home'', ''u'', ''.qidi'']"
  by (simp add: user_grok_home_def grok_home_def default_grok_home_def pinned_host_def example_host_def path_join_def)

lemma pinned_file: "parsed_file pinned_host [''/'', ''home'', ''u'', ''.qidi'', ''requirements.toml''] pinned_doc"
  by (simp add: parsed_file_def pinned_host_def example_host_def pinned_doc_def)

lemma pinned_consulted: "consulted_toml pinned_host [''/'', ''w''] pinned_doc"
  by (rule consulted_toml.requirements[where d = "[''/'', ''home'', ''u'', ''.qidi'']" and doc = pinned_doc])
    (simp_all add: pinned_home pinned_file in_force_def, simp add: pinned_doc_def)

lemma pinned_lists:
  "lists_in_toml read_verbose pinned_doc
     \<lparr>pr_action = rule_action.Deny, pr_tool = tool_filter.Read, pr_pattern = None, pr_pattern_mode = Glob\<rparr>"
  "lists_in_toml read_verbose pinned_doc (catch_all_allow tool_filter.Bash)"
  using parse_bare[of tool_filter.Read rule_action.Deny] parse_bare[of tool_filter.Bash rule_action.Allow]
  by (simp_all add: lists_in_toml_def pinned_doc_def catch_all_allow_def)

lemma pinned_layer:
  "\<lparr>rl_value = pinned_doc, rl_source = File [''/'', ''home'', ''u'', ''.qidi'', ''requirements.toml''], rl_is_system = False\<rparr>
     \<in> set (requirements_layers pinned_host)"
  "yolo_disabled_by_policy pinned_host = Some YOLO_PIN_REASON_REQUIREMENTS"
proof -
  have load: "load_requirements_layer pinned_host [''/'', ''home'', ''u'', ''.qidi'', ''requirements.toml''] = Some pinned_doc"
    using parsed_file_loads[OF pinned_file]
    by (simp add: load_requirements_layer_def pinned_doc_def normalize_requirements_value_def FAIL_CLOSED_KEY_def
        apply_version_overrides_with_registered_def installed_semver_def installed_def pinned_host_def example_host_def
        apply_version_overrides_def take_patch_array_def patches_for_def sort_key_def table_remove_def)
  then show "\<lparr>rl_value = pinned_doc, rl_source = File [''/'', ''home'', ''u'', ''.qidi'', ''requirements.toml''],
      rl_is_system = False\<rparr> \<in> set (requirements_layers pinned_host)"
    by (simp add: requirements_layers_def pinned_home path_join_def)
  from load show "yolo_disabled_by_policy pinned_host = Some YOLO_PIN_REASON_REQUIREMENTS"
    by (simp add: yolo_disabled_by_policy_def requirements_layers_def pinned_home path_join_def)
      (simp add: pinned_doc_def requirements_lock_bool_def)
qed

theorem every_source_restricts_witness:
  "\<exists>rp m. resolve_permissions_with_provenance settings_externals (\<lambda>_. None) pinned_host [''/'', ''w''] = Some rp
     \<and> evaluate settings_externals (compiled_policy_new settings_externals (rp_config rp)) (access_kind.Read (Some ''a''))
         = Some (decision.Reject m)"
proof -
  let ?deny = "\<lparr>pr_action = rule_action.Deny, pr_tool = tool_filter.Read, pr_pattern = None, pr_pattern_mode = Glob\<rparr>"
  have "written_rule settings_externals (\<lambda>_. None) pinned_host [''/'', ''w''] ?deny"
    using pinned_consulted pinned_lists(1) by (auto simp: written_rule_def)
  from every_source_restricts[OF this, of "access_kind.Read (Some ''a'')"] show ?thesis
    by (auto simp: path_is_absolute_def rule_applies_def pattern_matches_def)
qed

theorem pin_drops_untrusted_blanket_allows_witness:
  "\<exists>rp p. resolve_permissions_with_provenance settings_externals (\<lambda>_. None) pinned_host [''/'', ''w''] = Some rp
     \<and> catchall_skip YOLO_PIN_REASON_REQUIREMENTS
          \<lparr>sr_value = catch_all_allow tool_filter.Bash, sr_source = Requirements p\<rparr> \<in> set (rp_skipped rp)"
proof -
  let ?layer = "\<lparr>rl_value = pinned_doc, rl_source = File [''/'', ''home'', ''u'', ''.qidi'', ''requirements.toml''],
      rl_is_system = False\<rparr>"
  let ?x = "\<lparr>sr_value = catch_all_allow tool_filter.Bash, sr_source = requirements_source_of ?layer\<rparr>"
  have "?x \<in> set (load_requirements_permissions (\<lambda>_. None) pinned_host)"
    using pinned_layer(1) extract_lists[OF pinned_lists(2) refl, of "requirements_source_of ?layer"]
    by (force simp: load_requirements_permissions_def)
  then have x: "?x \<in> set (collected_rules settings_externals (\<lambda>_. None) pinned_host [''/'', ''w'']
      (live settings_externals (\<lambda>_. None) pinned_host))" by (simp add: collected_rules_def)
  have deny: "written_rule settings_externals (\<lambda>_. None) pinned_host [''/'', ''w'']
      \<lparr>pr_action = rule_action.Deny, pr_tool = tool_filter.Read, pr_pattern = None, pr_pattern_mode = Glob\<rparr>"
    using pinned_consulted pinned_lists(1) by (auto simp: written_rule_def)
  obtain rp where rp: "resolve_permissions_with_provenance settings_externals (\<lambda>_. None) pinned_host [''/'', ''w''] = Some rp"
    using resolved_evaluates[OF written_configured[OF deny]]
    by (fastforce simp: resolve_permissions_with_provenance_def path_is_absolute_def)
  have "is_catchall_allow settings_externals (sr_value ?x)"
    by (simp add: is_catchall_allow_def catch_all_allow_def rule_is_catchall_def pattern_matches_def bash_probes_def)
  with x pin_drops_untrusted_blanket_allows[OF rp pinned_layer(2)]
  have "catchall_skip YOLO_PIN_REASON_REQUIREMENTS ?x \<in> set (rp_skipped rp)"
    by (auto simp: requirements_source_of_def)
  with rp show ?thesis by (auto simp: requirements_source_of_def)
qed

theorem mode_has_one_owner_witness:
  "\<exists>rp. resolve_permissions_with_provenance_inner settings_externals (\<lambda>_. None) settings_host [''/'', ''w''] pinned_inputs = Some rp
     \<and> pc_prompt_policy (rp_config rp) = prompt_policy.Deny"
proof -
  obtain rp where rp: "resolve_permissions_with_provenance_inner settings_externals (\<lambda>_. None) settings_host
      [''/'', ''w''] pinned_inputs = Some rp" by (rule pinned_resolves)
  from mode_has_one_owner[OF rp] have "pc_prompt_policy (rp_config rp) = prompt_policy.Deny"
    by (simp add: pinned_inputs_def)
  with rp show ?thesis by blast
qed

theorem untrusted_project_sets_no_env_witness:
  "load_claude_env_with_project settings_externals
     (settings_host\<lparr>read_to_string := \<lambda>p. if p = home_settings then Inr ''h'' else Inl \<lparr>io_message = ''not found'', io_kind = NotFound\<rparr>,
                    path_exists := \<lambda>_. False, is_file := \<lambda>_. False\<rparr>) [''/''] False
   = load_claude_env_with_project settings_externals settings_host [''/'', ''w''] False"
proof -
  let ?f = "\<lambda>p. if p = home_settings then Inr ''h'' else Inl \<lparr>io_message = ''not found'', io_kind = NotFound\<rparr>"
  have "\<forall>p \<in> set (global_claude_settings_paths settings_host). ?f p = read_to_string settings_host p"
    by (simp add: global_claude_settings_paths_def settings_host_def example_host_def settings_files_def path_join_def
        home_settings_def project_settings_def)
  moreover have "\<forall>g. user_grok_home settings_host = Some g \<longrightarrow>
      ?f (path_join g ''config.toml'') = read_to_string settings_host (path_join g ''config.toml'')"
    by (simp add: user_grok_home_def grok_home_def default_grok_home_def settings_host_def example_host_def
        path_join_def home_settings_def project_settings_def)
  ultimately show ?thesis
    using untrusted_project_sets_no_env[where H = settings_host and f = ?f and ex = "\<lambda>_. False"
        and fi = "\<lambda>_. False", OF refl] by blast
qed

theorem project_walk_ends_at_root_witness:
  "walk_up (project_root settings_host [''/'', ''w'', ''a'']) [''/'', ''w'', ''a''] = [[''/'', ''w'', ''a''], [''/'', ''w'']]"
proof -
  have abs: "path_is_absolute [''/'', ''w'', ''a'']" "''/'' \<notin> set (tl [''/'', ''w'', ''a''])"
    by (simp_all add: path_is_absolute_def)
  have ex: "path_exists settings_host (path_join [''/'', ''w'', ''a''] ''.git'') = False"
    "path_exists settings_host (path_join [''/'', ''w''] ''.git'')"
    by (simp_all add: settings_host_def example_host_def path_join_def home_settings_def project_settings_def)
  have "\<not> is_home_dir settings_host [''/'', ''w'']"
    by (simp add: is_home_dir_def settings_host_def example_host_def canonicalize_or_owned_def)
  note w = project_walk_ends_at_root[OF abs, of settings_host, unfolded Let_def]
  have root: "project_root settings_host [''/'', ''w'', ''a''] = [''/'', ''w'']"
    using w ex \<open>\<not> is_home_dir settings_host [''/'', ''w'']\<close> by (simp add: upt_rec)
  show ?thesis using w by (simp add: root upt_rec)
qed

end
