(* ===== verification/Folder_Trust.thy ===== *)
theory Folder_Trust
  imports Config_Merge Claude_Settings "HOL-Library.AList"
begin

section \<open>Folder trust (\<open>trust.rs\<close>, \<open>folder_trust.rs\<close>, \<open>project_config.rs\<close>)\<close>

text \<open>
  Whether a folder is trusted: the store of decisions with its file, the key a working directory is trusted
  under, the scan for repository files that run code, and the verdict. The host is the state: writing the
  store changes what the host reads at that path. The lock makes the read-modify-write of one decision
  atomic, so a run of several processes is a sequence of them.
\<close>

subsection \<open>The document\<close>

text \<open>
  The map of folders is the list of its entries; no operation depends on their order
  (\<open>nearest_decision_decides\<close>, \<open>decisions_accumulate\<close>).
\<close>

record folder_trust =
  ft_trusted :: bool
  ft_decided_at :: "int option"

type_synonym trust_document = "(str \<times> folder_trust) list"

text \<open>What \<open>serde\<close> writes and reads: a record as a table, or as the array of its fields.\<close>

definition folder_trust_to_toml :: "folder_trust \<Rightarrow> toml" where
  "folder_trust_to_toml f =
     TomlTable ((''trusted'', TomlBoolean (ft_trusted f))
       # (case ft_decided_at f of Some t \<Rightarrow> [(''decided_at'', TomlInteger t)] | None \<Rightarrow> []))"

definition trust_document_to_toml :: "trust_document \<Rightarrow> toml" where
  "trust_document_to_toml d = TomlTable [(''folders'', TomlTable (map (\<lambda>(k, f). (k, folder_trust_to_toml f)) d))]"

fun toml_as_integer :: "toml \<Rightarrow> int option" where
  "toml_as_integer (TomlInteger i) = Some i"
| "toml_as_integer _ = None"

definition folder_trust_fields :: "toml option \<Rightarrow> toml option \<Rightarrow> folder_trust option" where
  "folder_trust_fields tr decided =
     (case Option.bind tr toml_as_bool of
        None \<Rightarrow> None
      | Some b \<Rightarrow>
          (case decided of
             None \<Rightarrow> Some \<lparr>ft_trusted = b, ft_decided_at = None\<rparr>
           | Some v \<Rightarrow> map_option (\<lambda>t. \<lparr>ft_trusted = b, ft_decided_at = Some t\<rparr>) (toml_as_integer v)))"

fun folder_trust_from_toml :: "toml \<Rightarrow> folder_trust option" where
  "folder_trust_from_toml (TomlTable t) = folder_trust_fields (map_of t ''trusted'') (map_of t ''decided_at'')"
| "folder_trust_from_toml (TomlArray vs) =
     (if length vs \<le> 2 then folder_trust_fields (nth_opt vs 0) (nth_opt vs 1) else None)"
| "folder_trust_from_toml _ = None"

definition trust_document_from_toml :: "toml \<Rightarrow> trust_document option" where
  "trust_document_from_toml v =
     (case toml_get v ''folders'' of
        None \<Rightarrow> Some []
      | Some fs \<Rightarrow>
          (case toml_as_table fs of
             None \<Rightarrow> None
           | Some t \<Rightarrow> those (map (\<lambda>(k, f). map_option (Pair k) (folder_trust_from_toml f)) t)))"

subsection \<open>The store\<close>

record trust_store =
  ts_doc :: trust_document
  ts_path :: "path option"

text \<open>What the calls of the operating system and the TOML printer return while a decision is recorded.\<close>

record trust_io =
  tio_create_dir :: "io_error option"
  tio_lock :: "io_error option"
  tio_print :: "toml \<Rightarrow> io_error + str"
  tio_persist :: "io_error option"
  tio_now :: "int option"

definition read_doc :: "'v host \<Rightarrow> path \<Rightarrow> trust_document" where
  "read_doc H path =
     (case read_to_string H path of
        Inl _ \<Rightarrow> []
      | Inr contents \<Rightarrow>
          (case toml_from_str H contents of
             Inl _ \<Rightarrow> []
           | Inr v \<Rightarrow> (case trust_document_from_toml v of Some d \<Rightarrow> d | None \<Rightarrow> [])))"

definition default_path_in :: "path option \<Rightarrow> path option" where
  "default_path_in user_home = map_option (\<lambda>g. path_join g ''trusted_folders.toml'') user_home"

definition trust_store_load_from :: "'v host \<Rightarrow> path \<Rightarrow> trust_store" where
  "trust_store_load_from H path = \<lparr>ts_doc = read_doc H path, ts_path = Some path\<rparr>"

definition trust_store_load :: "'v host \<Rightarrow> trust_store" where
  "trust_store_load H =
     (case default_path_in (user_grok_home H) of
        Some path \<Rightarrow> trust_store_load_from H path
      | None \<Rightarrow> \<lparr>ts_doc = [], ts_path = None\<rparr>)"

definition is_unsafe_trust_root :: "'v host \<Rightarrow> path \<Rightarrow> bool" where
  "is_unsafe_trust_root H key = (\<not> path_is_absolute key \<or> path_parent key = None \<or> is_home_dir H key)"

text \<open>The loop of \<open>is_trusted\<close>, with the deepest match so far and its verdict.\<close>

fun trust_loop :: "'v host \<Rightarrow> path \<Rightarrow> trust_document \<Rightarrow> nat option \<Rightarrow> bool \<Rightarrow> bool" where
  "trust_loop H key [] best_depth trusted = trusted"
| "trust_loop H key ((s, record) # rest) best_depth trusted =
     (let folder = path_components s
      in if is_unsafe_trust_root H folder \<or> \<not> prefix folder key then trust_loop H key rest best_depth trusted
         else (let depth = length folder
               in case best_depth of
                    None \<Rightarrow> trust_loop H key rest (Some depth) (ft_trusted record)
                  | Some d \<Rightarrow>
                      if depth < d then trust_loop H key rest best_depth trusted
                      else if depth = d then trust_loop H key rest best_depth (trusted \<and> ft_trusted record)
                      else trust_loop H key rest (Some depth) (ft_trusted record)))"

definition is_trusted :: "'v host \<Rightarrow> trust_store \<Rightarrow> path \<Rightarrow> bool" where
  "is_trusted H store key = trust_loop H (canonicalize_or_owned H key) (ts_doc store) None False"

definition has_decision :: "'v host \<Rightarrow> trust_store \<Rightarrow> path \<Rightarrow> bool" where
  "has_decision H store key = (map_of (ts_doc store) (path_display (canonicalize_or_owned H key)) \<noteq> None)"

definition no_parent :: io_error where
  "no_parent = \<lparr>io_message = ''trust store path has no parent'', io_kind = OtherKind\<rparr>"

definition write_file :: "'v host \<Rightarrow> path \<Rightarrow> str \<Rightarrow> 'v host" where
  "write_file H path body = H\<lparr>read_to_string := (read_to_string H)(path := Inr body)\<rparr>"

definition persist_doc :: "'v host \<Rightarrow> trust_io \<Rightarrow> path \<Rightarrow> trust_document \<Rightarrow> 'v host \<times> io_error option" where
  "persist_doc H io path doc =
     (case path_parent path of
        None \<Rightarrow> (H, Some no_parent)
      | Some parent \<Rightarrow>
          (case tio_create_dir io of
             Some e \<Rightarrow> (H, Some e)
           | None \<Rightarrow>
               (case tio_print io (trust_document_to_toml doc) of
                  Inl e \<Rightarrow> (H, Some e)
                | Inr body \<Rightarrow>
                    (case tio_persist io of
                       Some e \<Rightarrow> (H, Some e)
                     | None \<Rightarrow> (write_file H path body, None)))))"

definition record_decision ::
    "'v host \<Rightarrow> trust_io \<Rightarrow> trust_store \<Rightarrow> path \<Rightarrow> bool \<Rightarrow> 'v host \<times> trust_store \<times> io_error option" where
  "record_decision H io store key trusted =
     (let canonical = canonicalize_or_owned H key
      in if is_unsafe_trust_root H canonical then (H, store, None)
         else (case ts_path store of
                 None \<Rightarrow> (H, store, None)
               | Some path \<Rightarrow>
                   (case path_parent path of
                      None \<Rightarrow> (H, store, Some no_parent)
                    | Some parent \<Rightarrow>
                        (case tio_create_dir io of
                           Some e \<Rightarrow> (H, store, Some e)
                         | None \<Rightarrow>
                             (case tio_lock io of
                                Some e \<Rightarrow> (H, store, Some e)
                              | None \<Rightarrow>
                                  (let doc = AList.update (path_display canonical)
                                               \<lparr>ft_trusted = trusted, ft_decided_at = tio_now io\<rparr> (read_doc H path)
                                   in case persist_doc H io path doc of
                                        (H', Some e) \<Rightarrow> (H', store, Some e)
                                      | (H', None) \<Rightarrow> (H', store\<lparr>ts_doc := doc\<rparr>, None)))))))"

definition set_trusted :: "'v host \<Rightarrow> trust_io \<Rightarrow> trust_store \<Rightarrow> path \<Rightarrow> 'v host \<times> trust_store \<times> io_error option" where
  "set_trusted H io store key = record_decision H io store key True"

definition set_untrusted :: "'v host \<Rightarrow> trust_io \<Rightarrow> trust_store \<Rightarrow> path \<Rightarrow> 'v host \<times> trust_store \<times> io_error option" where
  "set_untrusted H io store key = record_decision H io store key False"

subsection \<open>The key of a working directory\<close>

text \<open>What the git library and the registry of worktrees answer.\<close>

record git_repo =
  gr_is_worktree :: bool
  gr_commondir :: path
  gr_workdir :: "path option"

record git =
  git_discover :: "path \<Rightarrow> git_repo option"
  git_open :: "path \<Rightarrow> git_repo option"
  source_repo_for_cwd :: "path \<Rightarrow> path option"

definition main_checkout :: "'v host \<Rightarrow> git \<Rightarrow> git_repo \<Rightarrow> path option" where
  "main_checkout H G repo =
     (if \<not> gr_is_worktree repo then None
      else (case Option.bind (git_open G (gr_commondir repo)) gr_workdir of
              None \<Rightarrow> None
            | Some main_workdir \<Rightarrow>
                if canonicalize_or_owned H (path_join main_workdir ''.git'') = canonicalize_or_owned H (gr_commondir repo)
                then Some (canonicalize_or_owned H main_workdir) else None))"

definition git_derived_workspace_key :: "'v host \<Rightarrow> git \<Rightarrow> path \<Rightarrow> path" where
  "git_derived_workspace_key H G cwd =
     (case source_repo_for_cwd G cwd of
        Some source_repo \<Rightarrow>
          (case Option.bind (git_discover G source_repo) gr_workdir of
             Some w \<Rightarrow> canonicalize_or_owned H w
           | None \<Rightarrow> canonicalize_or_owned H source_repo)
      | None \<Rightarrow>
          (case git_discover G cwd of
             None \<Rightarrow> canonicalize_or_owned H cwd
           | Some repo \<Rightarrow>
               (case main_checkout H G repo of
                  Some main \<Rightarrow> main
                | None \<Rightarrow> (case gr_workdir repo of
                             Some w \<Rightarrow> canonicalize_or_owned H w
                           | None \<Rightarrow> canonicalize_or_owned H cwd))))"

definition workspace_key :: "'v host \<Rightarrow> git \<Rightarrow> path \<Rightarrow> path" where
  "workspace_key H G cwd =
     (let key = git_derived_workspace_key H G cwd
      in if is_unsafe_trust_root H key then canonicalize_or_owned H cwd else key)"

subsection \<open>Migration of the legacy file\<close>

definition list_trusted_projects_with_file :: "'v host \<Rightarrow> path \<Rightarrow> io_error + path list" where
  "list_trusted_projects_with_file H trust_file =
     (case read_to_string H trust_file of
        Inr content \<Rightarrow>
          Inr (map path_components
                 (filter (\<lambda>l. l \<noteq> [] \<and> \<not> starts_with l ''#'') (map trim (str_lines content))))
      | Inl e \<Rightarrow> if io_kind e = NotFound then Inr [] else Inl e)"

fun migrate_loop :: "'v host \<Rightarrow> trust_io \<Rightarrow> trust_store \<Rightarrow> path list \<Rightarrow> 'v host \<times> trust_store \<times> nat \<times> bool" where
  "migrate_loop H io store [] = (H, store, 0, False)"
| "migrate_loop H io store (project # projects) =
     (if has_decision H store project then migrate_loop H io store projects
      else (case set_trusted H io store project of
              (H', store', Some e) \<Rightarrow>
                (case migrate_loop H' io store' projects of (H'', store'', n, _) \<Rightarrow> (H'', store'', n, True))
            | (H', store', None) \<Rightarrow>
                (case migrate_loop H' io store' projects of (H'', store'', n, failed) \<Rightarrow>
                   (H'', store'', if has_decision H' store' project then n + 1 else n, failed))))"

text \<open>The last result says whether the legacy file is renamed away.\<close>

definition migrate_legacy_hook_trust_in ::
    "'v host \<Rightarrow> trust_io \<Rightarrow> path \<Rightarrow> trust_store \<Rightarrow> 'v host \<times> trust_store \<times> nat \<times> bool" where
  "migrate_legacy_hook_trust_in H io legacy_file store =
     (case list_trusted_projects_with_file H legacy_file of
        Inl e \<Rightarrow> (H, store, 0, False)
      | Inr projects \<Rightarrow>
          (case migrate_loop H io store projects of
             (H', store', migrated, had_seed_error) \<Rightarrow>
               (H', store', migrated, \<not> had_seed_error \<and> path_exists H' legacy_file)))"

subsection \<open>The directories of a repository (\<open>cf-agent/src/repo.rs\<close>)\<close>

record repo_dir_chain =
  rdc_git_root :: "path option"
  rdc_dirs :: "path list"

function chain_walk :: "'v host \<Rightarrow> path \<Rightarrow> path \<Rightarrow> path list" where
  "chain_walk H root_canonical dir =
     dir # (if canonicalize_or_owned H dir = root_canonical then []
            else (case path_parent dir of Some parent \<Rightarrow> chain_walk H root_canonical parent | None \<Rightarrow> []))"
  by pat_completeness auto
termination
  by (relation "measure (\<lambda>(H, r, p). length p)") (auto dest: path_parent_shorter)

declare chain_walk.simps [simp del]

definition repo_dir_chain_resolve :: "'v host \<Rightarrow> path \<Rightarrow> repo_dir_chain" where
  "repo_dir_chain_resolve H cwd =
     (case (case git_workdir H cwd of Some root \<Rightarrow> if is_home_dir H root then None else Some root | None \<Rightarrow> None) of
        Some root \<Rightarrow> \<lparr>rdc_git_root = Some root, rdc_dirs = chain_walk H (canonicalize_or_owned H root) cwd\<rparr>
      | None \<Rightarrow> \<lparr>rdc_git_root = None, rdc_dirs = [cwd]\<rparr>)"

definition existing_subdirs_along :: "'v host \<Rightarrow> path list \<Rightarrow> path list \<Rightarrow> path list" where
  "existing_subdirs_along H chain_dirs subdirs =
     filter (is_dir H) (concat (map (\<lambda>dir. map (\<lambda>subdir. dir @ subdir) subdirs) chain_dirs))"

subsection \<open>What a repository brings (\<open>project_config.rs\<close>, \<open>folder_trust.rs\<close>)\<close>

definition find_mcp_json_files_in :: "'v host \<Rightarrow> path list \<Rightarrow> path list" where
  "find_mcp_json_files_in H chain_dirs =
     filter (is_file H) (map (\<lambda>dir. path_join dir ''.mcp.json'') (rev chain_dirs))"

definition is_user_grok_config_file :: "'v host \<Rightarrow> path \<Rightarrow> bool" where
  "is_user_grok_config_file H config_path =
     (case user_grok_home H of
        None \<Rightarrow> False
      | Some user_home \<Rightarrow>
          (let user_config = path_join user_home ''config.toml''
           in if config_path = user_config then True
              else (case h_canonicalize H config_path of
                      None \<Rightarrow> False
                    | Some canonical_config \<Rightarrow> canonical_config = canonicalize_or_owned H user_config)))"

definition find_project_configs_in :: "'v host \<Rightarrow> path list \<Rightarrow> path list" where
  "find_project_configs_in H chain_dirs =
     filter (\<lambda>p. is_file H p \<and> \<not> is_user_grok_config_file H p)
       (map (\<lambda>dir. dir @ [''.qidi'', ''config.toml'']) (rev chain_dirs))"

definition config_kinds :: "'v::linorder host \<Rightarrow> path \<Rightarrow> str list" where
  "config_kinds H p =
     (case load_config_file H p of
        Inl _ \<Rightarrow> []
      | Inr root \<Rightarrow>
          (case Option.bind (toml_get root ''mcp_servers'') toml_as_table of
             Some t \<Rightarrow> if t \<noteq> [] then [''mcp''] else [] | None \<Rightarrow> [])
          @ (case Option.bind (Option.bind (toml_get root ''plugins'') (\<lambda>v. toml_get v ''paths'')) toml_as_array of
               Some a \<Rightarrow> if a \<noteq> [] then [''plugins''] else [] | None \<Rightarrow> []))"

definition claude_project_mcp_names :: "externals \<Rightarrow> 'v host \<Rightarrow> path \<Rightarrow> str list option" where
  "claude_project_mcp_names E H cwd =
     (case dirs_home_dir H of
        None \<Rightarrow> None
      | Some home \<Rightarrow>
          (case read_to_string H (path_join home ''.claude.json'') of
             Inl _ \<Rightarrow> None
           | Inr content \<Rightarrow>
               (case json_from_str E content of
                  None \<Rightarrow> None
                | Some value \<Rightarrow>
                    (case Option.bind (Option.bind (json_get value ''projects'')
                            (\<lambda>p. json_get p (path_display cwd))) (\<lambda>proj. json_get proj ''mcpServers'') of
                       Some (JObj kvs) \<Rightarrow> if kvs \<noteq> [] then Some (map fst kvs) else None
                     | _ \<Rightarrow> None))))"

definition hook_kinds :: "'v host \<Rightarrow> path \<Rightarrow> str list" where
  "hook_kinds H hook_root =
     (if is_dir H (hook_root @ [''.qidi'', ''hooks'']) \<or> is_file H (hook_root @ [''.cursor'', ''hooks.json''])
      then [''hooks''] else [])"

text \<open>The markers in the order of the scan; with \<open>first_only\<close> the scan ends at the first.\<close>

definition repo_config_hits :: "externals \<Rightarrow> 'v::linorder host \<Rightarrow> path \<Rightarrow> str list" where
  "repo_config_hits E H cwd =
     (let chain = repo_dir_chain_resolve H cwd
      in (if find_mcp_json_files_in H (rdc_dirs chain) \<noteq> [] then [''mcp''] else [])
         @ concat (map (config_kinds H) (find_project_configs_in H (rdc_dirs chain)))
         @ (if is_file H (cwd @ [''.qidi'', ''lsp.json'']) then [''lsp''] else [])
         @ (if is_file H (cwd @ [''.cursor'', ''mcp.json'']) then [''mcp''] else [])
         @ (if is_file H (cwd @ [''.envrc'']) then [''envrc''] else [])
         @ (if project_claude_settings_present H cwd then [''claude''] else [])
         @ hook_kinds H (case rdc_git_root chain of Some r \<Rightarrow> r | None \<Rightarrow> cwd)
         @ (if existing_subdirs_along H (rdc_dirs chain) [[''.qidi'', ''plugins''], [''.claude'', ''plugins'']] \<noteq> []
            then [''plugins''] else [])
         @ (if existing_subdirs_along H (rdc_dirs chain) [[''.qidi'', ''agents''], [''.claude'', ''agents'']] \<noteq> []
            then [''agents''] else [])
         @ (if claude_project_mcp_names E H cwd \<noteq> None then [''mcp''] else []))"

definition collect_repo_config_kinds :: "externals \<Rightarrow> 'v::linorder host \<Rightarrow> path \<Rightarrow> bool \<Rightarrow> str list" where
  "collect_repo_config_kinds E H cwd first_only =
     (let hits = repo_config_hits E H cwd in if first_only then take 1 hits else rev (remdups (rev hits)))"

definition repo_configs_present :: "externals \<Rightarrow> 'v::linorder host \<Rightarrow> path \<Rightarrow> bool" where
  "repo_configs_present E H cwd = (collect_repo_config_kinds E H cwd True \<noteq> [])"

definition repo_config_kinds :: "externals \<Rightarrow> 'v::linorder host \<Rightarrow> path \<Rightarrow> str list" where
  "repo_config_kinds E H cwd = collect_repo_config_kinds E H cwd False"

subsection \<open>The verdict (\<open>folder_trust.rs\<close>)\<close>

datatype trust_outcome = Trusted | Untrusted | Prompt

record decide_inputs =
  di_store_trusted :: bool
  di_repo_configs_present :: bool
  di_is_interactive :: bool
  di_key_recordable :: bool

definition decide :: "bool \<Rightarrow> decide_inputs \<Rightarrow> trust_outcome" where
  "decide feature i =
     (if \<not> feature then Trusted
      else if di_store_trusted i then Trusted
      else if \<not> di_key_recordable i then Trusted
      else if \<not> di_repo_configs_present i then Trusted
      else if di_is_interactive i then Prompt
      else Untrusted)"

definition decide_inputs_with_interactive ::
    "externals \<Rightarrow> 'v::linorder host \<Rightarrow> path \<Rightarrow> path \<Rightarrow> bool \<Rightarrow> decide_inputs" where
  "decide_inputs_with_interactive E H cwd key interactive =
     \<lparr>di_store_trusted = is_trusted H (trust_store_load H) key,
      di_repo_configs_present = repo_configs_present E H cwd,
      di_is_interactive = interactive,
      di_key_recordable = \<not> is_unsafe_trust_root H key\<rparr>"

definition is_local_build :: "'v host \<Rightarrow> bool \<Rightarrow> bool" where
  "is_local_build H stamped = (if env_var H ''QIDI_TEST_VERSION'' \<noteq> None then False else \<not> stamped)"

datatype config_source =
    SourceRequirement
  | SourceCli
  | SourceEnv
  | SourceSystemManagedConfig
  | SourceManagedConfig
  | SourceUserConfig
  | SourceConfig
  | SourceRemote
  | SourceDefault

text \<open>\<open>resolve_bool_flag\<close>: the first layer with a value, and which one it was.\<close>

definition resolve_bool_flag :: "'v host \<Rightarrow> bool option \<Rightarrow> bool option \<Rightarrow> str \<Rightarrow> bool option \<Rightarrow> bool option
    \<Rightarrow> bool option \<Rightarrow> bool \<Rightarrow> bool \<times> config_source" where
  "resolve_bool_flag H requirement cli_arg env_name config_val managed_val feature_flag_val dflt =
     (case requirement of Some v \<Rightarrow> (v, SourceRequirement) | None \<Rightarrow>
     (case cli_arg of Some v \<Rightarrow> (v, SourceCli) | None \<Rightarrow>
     (case env_bool H env_name of Some v \<Rightarrow> (v, SourceEnv) | None \<Rightarrow>
     (case config_val of Some v \<Rightarrow> (v, SourceConfig) | None \<Rightarrow>
     (case managed_val of Some v \<Rightarrow> (v, SourceManagedConfig) | None \<Rightarrow>
     (case feature_flag_val of Some v \<Rightarrow> (v, SourceRemote) | None \<Rightarrow> (dflt, SourceDefault)))))))"

definition folder_trust_flag :: "('e + toml) \<Rightarrow> bool option" where
  "folder_trust_flag loaded =
     (case loaded of
        Inl _ \<Rightarrow> None
      | Inr v \<Rightarrow> Option.bind (Option.bind (toml_get v ''folder_trust'') (\<lambda>f. toml_get f ''enabled'')) toml_as_bool)"

definition feature_enabled_for_build :: "'v::linorder host \<Rightarrow> bool option \<Rightarrow> bool \<Rightarrow> bool" where
  "feature_enabled_for_build H remote local_build =
     (if local_build then False
      else fst (resolve_bool_flag H None None ''QIDI_FOLDER_TRUST'' (folder_trust_flag (load_from_disk H))
                  (folder_trust_flag (load_managed_config H)) remote True))"

definition feature_enabled :: "'v::linorder host \<Rightarrow> bool \<Rightarrow> bool option \<Rightarrow> bool" where
  "feature_enabled H stamped remote = feature_enabled_for_build H remote (is_local_build H stamped)"

definition grant_folder_trust :: "'v host \<Rightarrow> git \<Rightarrow> bool \<Rightarrow> trust_io \<Rightarrow> path \<Rightarrow> 'v host" where
  "grant_folder_trust H G stamped io cwd =
     (if is_local_build H stamped then H
      else fst (set_trusted H io (trust_store_load H) (workspace_key H G cwd)))"

definition revoke_folder_trust_store :: "'v host \<Rightarrow> git \<Rightarrow> bool \<Rightarrow> trust_io \<Rightarrow> path \<Rightarrow> 'v host \<times> bool" where
  "revoke_folder_trust_store H G stamped io cwd =
     (if is_local_build H stamped then (H, False)
      else (let key = workspace_key H G cwd; store = trust_store_load H; was_trusted = is_trusted H store key
            in if was_trusted then (fst (set_untrusted H io store key), True) else (H, False)))"

end
