(* ===== verification/Trust_Text.thy ===== *)
theory Trust_Text
  imports Folder_Trust
begin

section \<open>The text of a trust store\<close>

text \<open>
  A printer and a reader for the TOML a trust store is written in - one \<open>[folders."..."]\<close> table for each folder,
  with its verdict and its time - and the proof that the reader gives back every document that is printed. The
  development takes the printer and the parser of the TOML library as parameters; these two instantiate them in the
  witnesses.
\<close>

subsection \<open>Numbers\<close>

fun read_digits :: "nat \<Rightarrow> str \<Rightarrow> nat \<times> str" where
  "read_digits n [] = (n, [])"
| "read_digits n (c # cs) = (if is_ascii_digit c then read_digits (10 * n + (of_char c - 48)) cs else (n, c # cs))"

lemma digit_char [simp]:
  assumes "d < 10"
  shows "is_ascii_digit (char_of (48 + d :: nat))" "of_char (char_of (48 + d :: nat)) = (48 + d :: nat)"
  using assms by (auto simp: is_ascii_digit_def)

lemma read_shown: "read_digits m (show_nat n @ rest) = read_digits (m * 10 ^ length (show_nat n) + n) rest"
proof (induction n arbitrary: rest rule: show_nat.induct)
  case (1 n)
  show ?case
  proof (cases "n < 10")
    case True
    then show ?thesis by (simp add: show_nat.simps[of n] mult.commute)
  next
    case False
    then have s: "show_nat n = show_nat (n div 10) @ [char_of (48 + n mod 10)]" by (subst show_nat.simps) simp
    have "10 * (m * 10 ^ length (show_nat (n div 10)) + n div 10) + n mod 10
        = m * 10 ^ Suc (length (show_nat (n div 10))) + n" by (simp add: algebra_simps)
    with 1[OF False] show ?thesis by (simp add: s mult.left_commute add.commute)
  qed
qed

lemma shown_starts: "\<exists>c cs. show_nat n = c # cs \<and> is_ascii_digit c"
proof (induction n rule: show_nat.induct)
  case (1 n)
  then show ?case by (cases "n < 10") (auto simp: show_nat.simps[of n])
qed

definition show_int :: "int \<Rightarrow> str" where
  "show_int i = (if i < 0 then CHR ''-'' # show_nat (nat (- i)) else show_nat (nat i))"

fun read_int :: "str \<Rightarrow> int \<times> str" where
  "read_int [] = (0, [])"
| "read_int (c # cs) =
     (if c = CHR ''-'' then apfst (\<lambda>n. - int n) (read_digits 0 cs) else apfst int (read_digits 0 (c # cs)))"

lemma read_shown_int: "read_int (show_int i @ newline # rest) = (i, newline # rest)"
proof (cases "i < 0")
  case True
  then show ?thesis by (simp add: show_int_def read_shown is_ascii_digit_def)
next
  case False
  obtain c cs where s: "show_nat (nat i) = c # cs" "is_ascii_digit c" using shown_starts by blast
  then have "c \<noteq> CHR ''-''" by (auto simp: is_ascii_digit_def)
  with False s(1) show ?thesis
    using read_shown[of 0 "nat i" "newline # rest"] by (simp add: show_int_def is_ascii_digit_def)
qed

subsection \<open>Quoted keys\<close>

fun quoted :: "str \<Rightarrow> str" where
  "quoted [] = [dquote]"
| "quoted (c # cs) =
     (if c = newline then [backslash, CHR ''n''] else if c = dquote \<or> c = backslash then [backslash, c] else [c])
     @ quoted cs"

fun unquoted :: "str \<Rightarrow> (str \<times> str) option" where
  "unquoted [] = None"
| "unquoted (c # cs) =
     (if c = dquote then Some ([], cs)
      else if c = backslash then
        (case cs of [] \<Rightarrow> None
         | d # ds \<Rightarrow> map_option (apfst (Cons (if d = CHR ''n'' then newline else d))) (unquoted ds))
      else map_option (apfst (Cons c)) (unquoted cs))"

lemma unquoted_quoted [simp]: "unquoted (quoted k @ rest) = Some (k, rest)"
  by (induction k) auto

subsection \<open>Documents\<close>

definition trust_lines :: "str \<times> folder_trust \<Rightarrow> str" where
  "trust_lines e = ''[folders.'' @ [dquote] @ quoted (fst e) @ '']'' @ [newline]
     @ ''trusted = '' @ (if ft_trusted (snd e) then ''true'' else ''false'') @ [newline]
     @ (case ft_decided_at (snd e) of Some t \<Rightarrow> ''decided_at = '' @ show_int t @ [newline] | None \<Rightarrow> [])"

definition strip :: "str \<Rightarrow> str \<Rightarrow> str option" where
  "strip p s = (if starts_with s p then Some (drop (length p) s) else None)"

lemma strip_append [simp]: "strip p (p @ s) = Some s"
  by (induction p) (auto simp: strip_def split: if_splits)

definition read_verdict :: "str \<Rightarrow> (bool \<times> str) option" where
  "read_verdict s =
     (case strip (''true'' @ [newline]) s of Some s \<Rightarrow> Some (True, s)
      | None \<Rightarrow> map_option (Pair False) (strip (''false'' @ [newline]) s))"

definition read_time :: "str \<Rightarrow> (int option \<times> str) option" where
  "read_time s =
     (case strip ''decided_at = '' s of None \<Rightarrow> Some (None, s)
      | Some s \<Rightarrow> (case read_int s of (t, s) \<Rightarrow> map_option (Pair (Some t)) (strip [newline] s)))"

definition read_entry :: "str \<Rightarrow> ((str \<times> folder_trust) \<times> str) option" where
  "read_entry s =
     Option.bind (strip (''[folders.'' @ [dquote]) s) (\<lambda>s.
     Option.bind (unquoted s) (\<lambda>(k, s).
     Option.bind (strip ('']'' @ [newline] @ ''trusted = '') s) (\<lambda>s.
     Option.bind (read_verdict s) (\<lambda>(b, s).
     Option.bind (read_time s) (\<lambda>(t, s). Some ((k, \<lparr>ft_trusted = b, ft_decided_at = t\<rparr>), s))))))"

fun read_entries :: "nat \<Rightarrow> str \<Rightarrow> trust_document option" where
  "read_entries 0 s = (if s = [] then Some [] else None)"
| "read_entries (Suc n) s =
     (if s = [] then Some []
      else Option.bind (read_entry s) (\<lambda>(e, s). map_option (Cons e) (read_entries n s)))"

definition trust_text :: "trust_document \<Rightarrow> str" where
  "trust_text d = concat (map trust_lines d)"

definition read_trust_text :: "str \<Rightarrow> trust_document option" where
  "read_trust_text s = read_entries (length s) s"

lemma read_time_written:
  assumes "strip ''decided_at = '' rest = None"
  shows "read_time ((case t of Some t \<Rightarrow> ''decided_at = '' @ show_int t @ [newline] | None \<Rightarrow> []) @ rest) = Some (t, rest)"
proof (cases t)
  case (Some i)
  have "strip ''decided_at = '' (''decided_at = '' @ show_int i @ [newline] @ rest) = Some (show_int i @ newline # rest)"
    by (simp only: strip_append) simp
  then show ?thesis by (simp add: Some read_time_def read_shown_int) (simp add: strip_def)
qed (simp add: read_time_def assms)

lemma read_verdict_written:
  "read_verdict ((if b then ''true'' else ''false'') @ [newline] @ rest) = Some (b, rest)"
  by (simp add: read_verdict_def strip_def)

lemma read_entry_written:
  assumes "strip ''decided_at = '' rest = None"
  shows "read_entry (trust_lines e @ rest) = Some (e, rest)"
proof -
  obtain k f where e: "e = (k, f)" by (cases e)
  let ?time = "case ft_decided_at f of Some t \<Rightarrow> ''decided_at = '' @ show_int t @ [newline] | None \<Rightarrow> []"
  let ?verdict = "(if ft_trusted f then ''true'' else ''false'') @ [newline] @ ?time @ rest"
  have "trust_lines e @ rest
      = (''[folders.'' @ [dquote]) @ quoted k @ ('']'' @ [newline] @ ''trusted = '') @ ?verdict"
    by (simp add: e trust_lines_def)
  then show ?thesis
    by (simp only: read_entry_def strip_append unquoted_quoted Option.bind.bind_lunit prod.case read_verdict_written
        read_time_written[OF assms]) (simp add: e)
qed

lemma trust_lines_starts: "\<exists>s. trust_lines e = CHR ''['' # s"
  by (simp add: trust_lines_def)

lemma no_time_before_entry: "strip ''decided_at = '' (trust_text d) = None"
proof (cases d)
  case (Cons e d')
  obtain s where "trust_lines e = CHR ''['' # s" using trust_lines_starts by blast
  with Cons show ?thesis by (simp add: trust_text_def strip_def)
qed (simp add: trust_text_def strip_def)

lemma read_entries_written: "length d \<le> n \<Longrightarrow> read_entries n (trust_text d) = Some d"
proof (induction d arbitrary: n)
  case Nil
  then show ?case by (cases n) (simp_all add: trust_text_def)
next
  case (Cons e d)
  obtain m where n: "n = Suc m" using Cons.prems by (cases n) auto
  have t: "trust_text (e # d) = trust_lines e @ trust_text d" by (simp add: trust_text_def)
  have "trust_text (e # d) \<noteq> []" using trust_lines_starts[of e] by (auto simp: t)
  with Cons show ?case
    by (simp add: n t read_entry_written[OF no_time_before_entry])
qed

lemma trust_text_read: "read_trust_text (trust_text d) = Some d"
proof -
  have "1 \<le> length (trust_lines e)" for e using trust_lines_starts[of e] by auto
  then have "length d \<le> length (trust_text d)"
    by (induction d) (auto simp: trust_text_def intro: order_trans add_mono[of 1, simplified])
  then show ?thesis by (simp add: read_trust_text_def read_entries_written)
qed

end
