(* ===== verification/Folder_Trust_Props.thy ===== *)
theory Folder_Trust_Props
  imports Trust_Text
begin

section \<open>Folder trust: properties\<close>

text \<open>
  The nearest recorded decision decides; decisions of several processes accumulate in the file and a
  decision that fails to commit leaves no trace; a decision is read back as it was recorded; and a folder
  that is trusted because it brings nothing to gate injects nothing.
\<close>

subsection \<open>The nearest decision\<close>

text \<open>The recorded folders a query may use: safe roots at or above the key.\<close>

definition honoured :: "'v host \<Rightarrow> trust_document \<Rightarrow> path \<Rightarrow> (str \<times> folder_trust) list" where
  "honoured H doc key =
     filter (\<lambda>(s, r). \<not> is_unsafe_trust_root H (path_components s) \<and> prefix (path_components s) key) doc"

definition depth_of :: "str \<times> folder_trust \<Rightarrow> nat" where
  "depth_of e = length (path_components (fst e))"

definition verdict :: "(nat \<times> bool) list \<Rightarrow> bool" where
  "verdict es = (es \<noteq> [] \<and> (\<forall>(d, t) \<in> set es. (\<forall>(d', t') \<in> set es. d' \<le> d) \<longrightarrow> t))"

definition rated :: "(str \<times> folder_trust) list \<Rightarrow> (nat \<times> bool) list" where
  "rated es = map (\<lambda>e. (depth_of e, ft_trusted (snd e))) es"

lemma verdict_merge:
  "verdict ((d, t) # (d', t') # es) =
     verdict ((if d' < d then (d, t) else if d' = d then (d, t \<and> t') else (d', t')) # es)"
  by (auto simp: verdict_def not_less split: if_splits)

lemma verdict_singleton [simp]: "verdict [(d, t)] = t"
  by (simp add: verdict_def)

lemma honoured_simps [simp]:
  "honoured H [] key = []"
  "honoured H ((s, r) # doc) key =
     (if is_unsafe_trust_root H (path_components s) \<or> \<not> prefix (path_components s) key then honoured H doc key
      else (s, r) # honoured H doc key)"
  by (simp_all add: honoured_def)

lemma trust_loop_some:
  "trust_loop H key doc (Some d) t = verdict ((d, t) # rated (honoured H doc key))"
proof (induction doc arbitrary: d t)
  case (Cons e doc)
  obtain s r where [simp]: "e = (s, r)" by (cases e)
  show ?case
    by (simp add: Let_def Cons.IH rated_def depth_of_def verdict_merge) 
qed (simp add: rated_def)

lemma trust_loop_none:
  "trust_loop H key doc None t = (if honoured H doc key = [] then t else verdict (rated (honoured H doc key)))"
proof (induction doc)
  case (Cons e doc)
  obtain s r where [simp]: "e = (s, r)" by (cases e)
  show ?case
    by (simp add: Let_def Cons.IH trust_loop_some) (simp add: rated_def depth_of_def)
qed simp

lemma trusted_verdict: "is_trusted H store key = verdict (rated (honoured H (ts_doc store) (canonicalize_or_owned H key)))"
  by (simp add: is_trusted_def trust_loop_none) (simp add: verdict_def rated_def)

lemma verdict_rated:
  "verdict (rated es) \<longleftrightarrow>
     es \<noteq> [] \<and> (\<forall>e \<in> set es. (\<forall>e' \<in> set es. depth_of e' \<le> depth_of e) \<longrightarrow> ft_trusted (snd e))"
  by (auto simp: verdict_def rated_def)

text \<open>C10: A folder is trusted exactly if some safe recorded folder lies at or above it and every deepest such
  record says trusted. So a nearer refusal overrides a trusted ancestor and conversely, two spellings of one
  folder that disagree give no trust, the home directory and the root of the file system never trust
  anything, and the
  order of the records in the document does not matter.
\<close>

theorem nearest_decision_decides:
  "let near = honoured H (ts_doc store) (canonicalize_or_owned H key)
   in (is_trusted H store key \<longleftrightarrow>
         near \<noteq> [] \<and> (\<forall>e \<in> set near. (\<forall>e' \<in> set near. depth_of e' \<le> depth_of e) \<longrightarrow> ft_trusted (snd e)))
      \<and> (\<forall>e \<in> set near. path_components (fst e) \<noteq> [''/''] \<and> \<not> is_home_dir H (path_components (fst e)))"
  by (auto simp: trusted_verdict verdict_rated Let_def honoured_def is_unsafe_trust_root_def path_parent_def)

subsection \<open>The document on disk\<close>

lemma folder_trust_reads_back [simp]: "folder_trust_from_toml (folder_trust_to_toml f) = Some f"
  by (cases f) (auto simp: folder_trust_to_toml_def folder_trust_fields_def split: option.split)

lemma document_reads_back: "trust_document_from_toml (trust_document_to_toml d) = Some d"
proof -
  have "those (map (\<lambda>(k, f). map_option (Pair k) (folder_trust_from_toml f))
           (map (\<lambda>(k, f). (k, folder_trust_to_toml f)) d)) = Some d"
    by (induction d) auto
  then show ?thesis by (simp add: trust_document_from_toml_def trust_document_to_toml_def)
qed

lemma set_update: "distinct (map fst d) \<Longrightarrow> set (AList.update k v d) = {(k, v)} \<union> {e \<in> set d. fst e \<noteq> k}"
  by (induction d) (auto simp: image_iff)

text \<open>
  What the development relies on of the TOML library: a document a store can hold - one record for each folder,
  times of 64 bits - is printed to a text that parses to a document with the same records, in any order.
\<close>

definition time_fits :: "int option \<Rightarrow> bool" where
  "time_fits t = (case t of None \<Rightarrow> True | Some i \<Rightarrow> - (2 ^ 63) \<le> i \<and> i < 2 ^ 63)"

definition storable :: "trust_document \<Rightarrow> bool" where
  "storable d \<longleftrightarrow> distinct (map fst d) \<and> (\<forall>e \<in> set d. time_fits (ft_decided_at (snd e)))"

definition prints_back :: "'v host \<Rightarrow> trust_io \<Rightarrow> bool" where
  "prints_back H io \<longleftrightarrow>
     (\<forall>d. storable d \<longrightarrow>
        (\<exists>s v d'. tio_print io (trust_document_to_toml d) = Inr s \<and> toml_from_str H s = Inr v
           \<and> trust_document_from_toml v = Some d' \<and> distinct (map fst d') \<and> map_of d' = map_of d))"

lemma same_records: "distinct (map fst d') \<Longrightarrow> storable d \<Longrightarrow> map_of d' = map_of d \<Longrightarrow> set d' = set d"
  by (simp add: storable_def map_of_inject_set)

lemma storable_update: "storable d \<Longrightarrow> time_fits (ft_decided_at f) \<Longrightarrow> storable (AList.update k f d)"
  by (auto simp: storable_def distinct_update set_update)

definition commits :: "trust_io \<Rightarrow> bool" where
  "commits io = (tio_create_dir io = None \<and> tio_lock io = None \<and> tio_persist io = None)"

lemma read_written:
  "toml_from_str H s = Inr v \<Longrightarrow> trust_document_from_toml v = Some d \<Longrightarrow> read_doc (write_file H p s) p = d"
  by (simp add: read_doc_def write_file_def)

lemma write_file_same [simp]:
  "h_canonicalize (write_file H p s) = h_canonicalize H" "toml_from_str (write_file H p s) = toml_from_str H"
  "dirs_home_dir (write_file H p s) = dirs_home_dir H"
  by (simp_all add: write_file_def)

lemma canonicalize_written [simp]: "canonicalize_or_owned (write_file H p s) q = canonicalize_or_owned H q"
  by (simp add: canonicalize_or_owned_def)

lemma unsafe_written [simp]: "is_unsafe_trust_root (write_file H p s) q = is_unsafe_trust_root H q"
  by (simp add: is_unsafe_trust_root_def is_home_dir_def split: option.split)

text \<open>Whether a decision is one the store records, and under which name.\<close>

definition recorded_as :: "'v host \<Rightarrow> path \<Rightarrow> str option" where
  "recorded_as H key =
     (let canonical = canonicalize_or_owned H key
      in if is_unsafe_trust_root H canonical then None else Some (path_display canonical))"

lemma recorded_written [simp]: "recorded_as (write_file H p s) = recorded_as H"
  by (rule ext) (simp add: recorded_as_def)

lemma record_refused: "recorded_as H key = None \<Longrightarrow> record_decision H io store key tr = (H, store, None)"
  by (simp add: recorded_as_def record_decision_def Let_def split: if_splits)

lemma record_uncommitted:
  assumes "\<not> commits io"
  shows "fst (record_decision H io store key tr) = H \<and> fst (snd (record_decision H io store key tr)) = store"
  using assms
  by (auto simp: record_decision_def persist_doc_def commits_def Let_def split: option.split sum.split)

lemma record_commits:
  assumes "recorded_as H key = Some k" "ts_path store = Some path" "path_parent path \<noteq> None"
    "commits io" "prints_back H io" "storable (read_doc H path)" "time_fits (tio_now io)"
  obtains s where "record_decision H io store key tr =
      (write_file H path s,
       store\<lparr>ts_doc := AList.update k \<lparr>ft_trusted = tr, ft_decided_at = tio_now io\<rparr> (read_doc H path)\<rparr>, None)"
    "storable (read_doc (write_file H path s) path)"
    "map_of (read_doc (write_file H path s) path)
      = (map_of (read_doc H path))(k \<mapsto> \<lparr>ft_trusted = tr, ft_decided_at = tio_now io\<rparr>)"
proof -
  let ?d = "AList.update k \<lparr>ft_trusted = tr, ft_decided_at = tio_now io\<rparr> (read_doc H path)"
  have d: "storable ?d" using storable_update[OF assms(6)] assms(7) by simp
  with assms(5) obtain s v d' where s: "tio_print io (trust_document_to_toml ?d) = Inr s" "toml_from_str H s = Inr v"
    "trust_document_from_toml v = Some d'" "distinct (map fst d')" "map_of d' = map_of ?d"
    by (auto simp: prints_back_def)
  have "storable d'" using same_records[OF s(4) d s(5)] s(4) d by (simp add: storable_def)
  moreover have "record_decision H io store key tr = (write_file H path s, store\<lparr>ts_doc := ?d\<rparr>, None)"
    using assms(1-4) s(1)
    by (auto simp: record_decision_def recorded_as_def persist_doc_def commits_def Let_def split: if_splits)
  ultimately show ?thesis using that s(5) read_written[OF s(2,3)] by (simp add: update_conv')
qed

subsection \<open>Many writers\<close>

text \<open>
  One decision of one process: its calls of the operating system, its store, the folder and the verdict. The
  lock makes the decisions of several processes a sequence.
\<close>

type_synonym writing = "trust_io \<times> trust_store \<times> path \<times> bool"

fun record_all :: "'v host \<Rightarrow> writing list \<Rightarrow> 'v host" where
  "record_all H [] = H"
| "record_all H ((io, store, key, tr) # ws) = record_all (fst (record_decision H io store key tr)) ws"

definition decides :: "'v host \<Rightarrow> str \<Rightarrow> writing \<Rightarrow> bool" where
  "decides H k w = (case w of (io, store, key, tr) \<Rightarrow> commits io \<and> recorded_as H key = Some k)"

definition decision :: "writing \<Rightarrow> folder_trust" where
  "decision w = (case w of (io, store, key, tr) \<Rightarrow> \<lparr>ft_trusted = tr, ft_decided_at = tio_now io\<rparr>)"

definition writes_to :: "'v host \<Rightarrow> path \<Rightarrow> writing \<Rightarrow> bool" where
  "writes_to H path w =
     (case w of (io, store, key, tr) \<Rightarrow> ts_path store = Some path \<and> prints_back H io \<and> time_fits (tio_now io))"

lemma record_step:
  assumes "writes_to H path w" "w = (io, store, key, tr)" "path_parent path \<noteq> None" "storable (read_doc H path)"
  shows "storable (read_doc (fst (record_decision H io store key tr)) path)
    \<and> recorded_as (fst (record_decision H io store key tr)) = recorded_as H
    \<and> toml_from_str (fst (record_decision H io store key tr)) = toml_from_str H
    \<and> map_of (read_doc (fst (record_decision H io store key tr)) path) =
        (\<lambda>k. if decides H k w then Some (decision w) else map_of (read_doc H path) k)"
proof -
  consider "\<not> commits io" | "recorded_as H key = None" | k where "commits io" "recorded_as H key = Some k" by auto
  then show ?thesis
  proof cases
    case 1
    then show ?thesis using record_uncommitted[OF 1, of H store key tr] assms by (simp add: decides_def)
  next
    case 2
    then show ?thesis using record_refused[OF 2, of io store tr] assms by (simp add: decides_def)
  next
    case (3 k)
    have ps: "ts_path store = Some path" "prints_back H io" "time_fits (tio_now io)"
      using assms(1,2) by (simp_all add: writes_to_def)
    obtain s where "fst (record_decision H io store key tr) = write_file H path s"
      "storable (read_doc (write_file H path s) path)"
      "map_of (read_doc (write_file H path s) path)
        = (map_of (read_doc H path))(k \<mapsto> \<lparr>ft_trusted = tr, ft_decided_at = tio_now io\<rparr>)"
      by (rule record_commits[OF 3(2) ps(1) assms(3) 3(1) ps(2) assms(4) ps(3), of tr]) (metis fst_conv)
    moreover have "decides H k' w = (k' = k)" for k' using 3 by (auto simp: decides_def assms(2))
    moreover have "decision w = \<lparr>ft_trusted = tr, ft_decided_at = tio_now io\<rparr>" by (simp add: decision_def assms(2))
    ultimately show ?thesis by (auto simp: fun_eq_iff)
  qed
qed

lemma writes_cong:
  "recorded_as H' = recorded_as H \<Longrightarrow> decides H' = decides H"
  "toml_from_str H' = toml_from_str H \<Longrightarrow> writes_to H' = writes_to H"
  by (auto simp: decides_def writes_to_def prints_back_def intro!: ext)

lemma find_snoc: "find P (xs @ [x]) = (case find P xs of Some y \<Rightarrow> Some y | None \<Rightarrow> if P x then Some x else None)"
  by (induction xs) auto

lemma record_all_doc:
  assumes "\<forall>w \<in> set ws. writes_to H path w" "path_parent path \<noteq> None" "storable (read_doc H path)"
  shows "storable (read_doc (record_all H ws) path) \<and> map_of (read_doc (record_all H ws) path) k =
    (case find (decides H k) (rev ws) of Some w \<Rightarrow> Some (decision w) | None \<Rightarrow> map_of (read_doc H path) k)"
  using assms(1,3)
proof (induction ws arbitrary: H)
  case (Cons w ws)
  obtain io store key tr where w: "w = (io, store, key, tr)" by (cases w)
  define H' where "H' = fst (record_decision H io store key tr)"
  from Cons.prems have "writes_to H path w" by simp
  from record_step[OF this w assms(2) Cons.prems(2)]
  have H': "recorded_as H' = recorded_as H" "toml_from_str H' = toml_from_str H" "storable (read_doc H' path)"
    "map_of (read_doc H' path) = (\<lambda>k. if decides H k w then Some (decision w) else map_of (read_doc H path) k)"
    by (auto simp: H'_def)
  note same = writes_cong(1)[OF H'(1)] writes_cong(2)[OF H'(2)]
  have "storable (read_doc (record_all H' ws) path) \<and> map_of (read_doc (record_all H' ws) path) k =
      (case find (decides H k) (rev ws) of Some w \<Rightarrow> Some (decision w) | None \<Rightarrow> map_of (read_doc H' path) k)"
    using Cons.IH[of H'] Cons.prems H'(3) by (simp add: same)
  moreover have "record_all H (w # ws) = record_all H' ws" by (simp add: w H'_def)
  ultimately show ?case by (simp add: find_snoc H'(4) split: option.split)
qed simp

text \<open>C11: After any sequence of decisions by any number of processes, each with its own possibly stale store over
  the same file in some directory, the file holds for every folder the last decision that was committed for it, and for a
  folder nobody decided what it held before: no decision is lost to a stale store, decisions on unsafe
  roots and decisions whose directory, lock or final rename failed leave no trace. At the start the file is absent
  or holds one record for each folder, with times of 64 bits, and so it does at the end; of the TOML library it is
  assumed that the text it prints for such a document parses to a document with the same records.
\<close>

theorem decisions_accumulate:
  assumes "\<forall>w \<in> set ws. writes_to H path w" "path_parent path \<noteq> None" "storable (read_doc H path)"
  shows "storable (read_doc (record_all H ws) path)
    \<and> map_of (read_doc (record_all H ws) path) k =
       (case find (decides H k) (rev ws) of
          Some w \<Rightarrow> Some (decision w)
        | None \<Rightarrow> map_of (read_doc H path) k)"
  using assms by (rule record_all_doc)

subsection \<open>Round trip\<close>

definition normal_path :: "path \<Rightarrow> bool" where
  "normal_path p =
     (p \<noteq> [] \<and> hd p = ''/'' \<and> tl p \<noteq> [] \<and> (\<forall>c \<in> set (tl p). c \<noteq> [] \<and> c \<noteq> ''.'' \<and> CHR ''/'' \<notin> set c))"

lemma components_display: "normal_path p \<Longrightarrow> path_components (path_display p) = p"
proof -
  assume n: "normal_path p"
  then obtain cs where p: "p = ''/'' # cs" by (cases p) (auto simp: normal_path_def)
  with n have cs: "cs \<noteq> []" "\<forall>c \<in> set cs. c \<noteq> [] \<and> c \<noteq> ''.'' \<and> CHR ''/'' \<notin> set c"
    by (auto simp: normal_path_def)
  then have "split_on CHR ''/'' (''/'' @ join ''/'' cs) = [] # cs" by (simp add: split_on_join)
  moreover have "filter (\<lambda>s. s \<noteq> [] \<and> s \<noteq> ''.'') cs = cs" using cs(2) by (simp add: filter_id_conv)
  ultimately show ?thesis by (simp add: p path_components_def)
qed

text \<open>The other spellings of a folder that a document may hold.\<close>

definition aliases :: "trust_document \<Rightarrow> path \<Rightarrow> (str \<times> folder_trust) list" where
  "aliases doc p = filter (\<lambda>(s, r). s \<noteq> path_display p \<and> path_components s = p) doc"

lemma decided_folder:
  assumes "distinct (map fst d)" "normal_path p" "\<not> is_unsafe_trust_root H p"
  shows "verdict (rated (honoured H (AList.update (path_display p) f d) p)) =
    (ft_trusted f \<and> (\<forall>e \<in> set (aliases d p). ft_trusted (snd e)))"
proof -
  let ?h = "honoured H (AList.update (path_display p) f d) p"
  have comps: "path_components (path_display p) = p" by (rule components_display[OF assms(2)])
  have me: "(path_display p, f) \<in> set ?h"
    by (simp add: honoured_def set_update[OF assms(1)] comps assms(3))
  have le: "depth_of e \<le> length p" if "e \<in> set ?h" for e
    using that by (auto simp: honoured_def depth_of_def prefix_length_le)
  have deep: "(\<forall>e' \<in> set ?h. depth_of e' \<le> depth_of e) \<longleftrightarrow> path_components (fst e) = p" if "e \<in> set ?h" for e
  proof
    assume "\<forall>e' \<in> set ?h. depth_of e' \<le> depth_of e"
    with me have "length p \<le> depth_of e" by (force simp: depth_of_def comps)
    moreover have "prefix (path_components (fst e)) p" using that by (auto simp: honoured_def)
    ultimately show "path_components (fst e) = p"
      by (auto simp: depth_of_def prefix_def)
  qed (use le in \<open>auto simp: depth_of_def\<close>)
  have "verdict (rated ?h) \<longleftrightarrow> (\<forall>e \<in> set ?h. path_components (fst e) = p \<longrightarrow> ft_trusted (snd e))"
    using me deep by (auto simp: verdict_rated)
  also have "\<dots> \<longleftrightarrow> ft_trusted f \<and> (\<forall>e \<in> set (aliases d p). ft_trusted (snd e))"
  proof (intro iffI conjI)
    show "ft_trusted f" if "\<forall>e \<in> set ?h. path_components (fst e) = p \<longrightarrow> ft_trusted (snd e)"
      using that me comps by fastforce
  qed (use assms(3) in \<open>auto simp: honoured_def set_update[OF assms(1)] aliases_def\<close>)
  finally show ?thesis .
qed

lemma verdict_set: "set d = set d' \<Longrightarrow> verdict (rated (honoured H d p)) = verdict (rated (honoured H d' p))"
  unfolding verdict_rated honoured_def by (simp add: filter_empty_conv)

text \<open>A decision that commits is read back as it was made, by the store that made it and by every store
  loaded from the file afterwards: the folder is trusted exactly if it was trusted and no other spelling of
  it in the file says otherwise.
\<close>

theorem decision_read_back:
  assumes "recorded_as H key = Some k" "ts_path store = Some path" "path_parent path \<noteq> None"
    "commits io" "prints_back H io" "normal_path (canonicalize_or_owned H key)"
    "storable (read_doc H path)" "time_fits (tio_now io)"
  shows "case record_decision H io store key tr of
    (H', store', err) \<Rightarrow> err = None
      \<and> is_trusted H' store' key = (tr \<and> (\<forall>e \<in> set (aliases (read_doc H path) (canonicalize_or_owned H key)). ft_trusted (snd e)))
      \<and> is_trusted H' (trust_store_load_from H' path) key = is_trusted H' store' key
      \<and> has_decision H' (trust_store_load_from H' path) key"
proof -
  let ?p = "canonicalize_or_owned H key"
  have k: "k = path_display ?p" "\<not> is_unsafe_trust_root H ?p"
    using assms(1) by (auto simp: recorded_as_def Let_def split: if_splits)
  let ?f = "\<lparr>ft_trusted = tr, ft_decided_at = tio_now io\<rparr>"
  let ?d = "AList.update k ?f (read_doc H path)"
  obtain s where s: "record_decision H io store key tr = (write_file H path s, store\<lparr>ts_doc := ?d\<rparr>, None)"
    "storable (read_doc (write_file H path s) path)"
    "map_of (read_doc (write_file H path s) path) = (map_of (read_doc H path))(k \<mapsto> ?f)"
    by (rule record_commits[OF assms(1-5) assms(7,8)])
  have "set (read_doc (write_file H path s) path) = set ?d"
    using same_records[of "read_doc (write_file H path s) path" ?d] s(2,3) storable_update[OF assms(7), of ?f k] assms(8)
    by (simp add: storable_def update_conv')
  then have "verdict (rated (honoured H (read_doc (write_file H path s) path) ?p)) = verdict (rated (honoured H ?d ?p))"
    by (rule verdict_set)
  moreover have "honoured (write_file H path s) = honoured H" by (intro ext) (simp add: honoured_def)
  moreover have "distinct (map fst (read_doc H path))" using assms(7) by (simp add: storable_def)
  ultimately show ?thesis
    using s
    by (simp add: trusted_verdict trust_store_load_from_def has_decision_def k(1)
        decided_folder[OF _ assms(6) k(2)])
qed

subsection \<open>Nothing to gate, nothing to inject\<close>

lemma absent_markers:
  assumes "\<not> repo_configs_present E H cwd"
  shows "repo_config_hits E H cwd = []"
  using assms by (simp add: repo_configs_present_def collect_repo_config_kinds_def)

lemma fold_without: "\<forall>p \<in> set ps. f p = [] \<Longrightarrow> foldl (\<lambda>m p. m ++ map_of (f p)) m ps = m"
  by (induction ps) auto

lemma env_of_absent: "\<forall>p c. read_to_string H p = Inr c \<longrightarrow> is_file H p \<Longrightarrow> \<not> is_file H p \<Longrightarrow> env_of E H p = []"
  by (cases "read_to_string H p") (auto simp: env_of_def load_claude_settings_def)

text \<open>A folder that is trusted although nobody decided so, only because the scan finds nothing to gate, has
  indeed nothing that acts: granting it the trust adds no environment variable to what an untrusted folder
  gets, no MCP file of the repository is loaded, and no configuration file of the repository that loads
  declares a server or a plugin path.
\<close>

theorem nothing_to_gate_injects_nothing:
  assumes "decide True (decide_inputs_with_interactive E H cwd key interactive) = Trusted"
    "\<not> is_trusted H (trust_store_load H) key" "\<not> is_unsafe_trust_root H key"
    "\<forall>p c. read_to_string H p = Inr c \<longrightarrow> is_file H p"
  shows "load_claude_env_with_project E H cwd True = load_claude_env_with_project E H cwd False
    \<and> find_mcp_json_files_in H (rdc_dirs (repo_dir_chain_resolve H cwd)) = []
    \<and> (\<forall>p \<in> set (find_project_configs_in H (rdc_dirs (repo_dir_chain_resolve H cwd))). \<forall>root t.
         load_config_file H p = Inr root \<longrightarrow> toml_get root ''mcp_servers'' = Some (TomlTable t) \<longrightarrow> t = [])
    \<and> (\<forall>p \<in> set (find_project_configs_in H (rdc_dirs (repo_dir_chain_resolve H cwd))). \<forall>root ps a.
         load_config_file H p = Inr root \<longrightarrow> toml_get root ''plugins'' = Some ps \<longrightarrow>
         toml_get ps ''paths'' = Some (TomlArray a) \<longrightarrow> a = [])"
proof -
  have "\<not> repo_configs_present E H cwd"
    using assms(1-3) by (auto simp: decide_def decide_inputs_with_interactive_def split: if_splits)
  then have hits: "repo_config_hits E H cwd = []" by (rule absent_markers)
  then have mcp: "find_mcp_json_files_in H (rdc_dirs (repo_dir_chain_resolve H cwd)) = []"
    and kinds: "\<forall>p \<in> set (find_project_configs_in H (rdc_dirs (repo_dir_chain_resolve H cwd))). config_kinds H p = []"
    and claude: "\<forall>p \<in> set (collect_project_claude_paths H cwd). \<not> is_file H p"
    by (auto simp: repo_config_hits_def Let_def project_claude_settings_present_def list_ex_iff split: if_splits)
  have "\<forall>p \<in> set (rev (collect_project_claude_paths H cwd)). env_of E H p = []"
    using claude env_of_absent[OF assms(4)] by auto
  then have "load_claude_env_with_project E H cwd True = load_claude_env_with_project E H cwd False"
    by (simp add: load_claude_env_with_project_def find_claude_settings_paths_def fold_without)
  with mcp kinds show ?thesis
    by (auto simp: config_kinds_def split: if_splits)
qed

subsection \<open>Migration\<close>

lemma decision_of_fresh:
  "map_of (ts_doc store) = map_of (read_doc H path) \<Longrightarrow> recorded_as H p = Some k \<Longrightarrow>
     has_decision H store p = (map_of (read_doc H path) k \<noteq> None)"
  by (auto simp: has_decision_def recorded_as_def Let_def split: if_splits)

definition undecided :: "'v host \<Rightarrow> path \<Rightarrow> path \<Rightarrow> bool" where
  "undecided H path p = (case recorded_as H p of Some k \<Rightarrow> map_of (read_doc H path) k = None | None \<Rightarrow> False)"

lemma record_fails:
  assumes "\<not> commits io" "recorded_as H key = Some k" "ts_path store = Some path" "path_parent path \<noteq> None"
    "prints_back H io" "storable (read_doc H path)" "time_fits (tio_now io)"
  obtains e where "record_decision H io store key tr = (H, store, Some e)"
proof -
  let ?d = "AList.update k \<lparr>ft_trusted = tr, ft_decided_at = tio_now io\<rparr> (read_doc H path)"
  have "storable ?d" using storable_update[OF assms(6)] assms(7) by simp
  with assms(5) obtain s where "tio_print io (trust_document_to_toml ?d) = Inr s" by (auto simp: prints_back_def)
  with assms have "snd (snd (record_decision H io store key tr)) \<noteq> None"
    by (auto simp: record_decision_def recorded_as_def persist_doc_def commits_def Let_def split: if_splits option.split)
  with record_uncommitted[OF assms(1), of H store key tr] that show ?thesis
    by (cases "record_decision H io store key tr") auto
qed

lemma migrate_doc:
  assumes "ts_path store = Some path" "map_of (ts_doc store) = map_of (read_doc H path)" "prints_back H io"
    "storable (read_doc H path)" "time_fits (tio_now io)" "path_parent path \<noteq> None"
  shows "case migrate_loop H io store ps of (H', store', n, failed) \<Rightarrow>
    map_of (ts_doc store') = map_of (read_doc H' path) \<and> failed = (\<not> commits io \<and> (\<exists>p \<in> set ps. undecided H path p))
    \<and> (\<forall>k. map_of (read_doc H' path) k =
        (case map_of (read_doc H path) k of
           Some f \<Rightarrow> Some f
         | None \<Rightarrow> if commits io \<and> (\<exists>p \<in> set ps. recorded_as H p = Some k)
                   then Some \<lparr>ft_trusted = True, ft_decided_at = tio_now io\<rparr> else None))"
  using assms(1-4)
proof (induction ps arbitrary: H store)
  case Nil
  then show ?case by (simp split: option.split)
next
  case (Cons p ps)
  show ?case
  proof (cases "has_decision H store p")
    case True
    then have "map_of (read_doc H path) k \<noteq> None" if "recorded_as H p = Some k" for k
      using decision_of_fresh[OF Cons.prems(2) that] by simp
    then have "\<not> undecided H path p" "\<And>k. recorded_as H p = Some k \<Longrightarrow> map_of (read_doc H path) k \<noteq> None"
      by (auto simp: undecided_def split: option.split)
    with True Cons.IH[OF Cons.prems] show ?thesis
      by (auto split: prod.splits option.splits)
  next
    case False
    obtain H1 store1 err where r: "set_trusted H io store p = (H1, store1, err)" by (cases "set_trusted H io store p")
    then have r': "record_decision H io store p True = (H1, store1, err)" by (simp add: set_trusted_def)
    show ?thesis
    proof (cases "commits io \<and> recorded_as H p \<noteq> None")
      case True
      then obtain k where k: "commits io" "recorded_as H p = Some k" by auto
      let ?d = "AList.update k \<lparr>ft_trusted = True, ft_decided_at = tio_now io\<rparr> (read_doc H path)"
      obtain s where s: "record_decision H io store p True = (write_file H path s, store\<lparr>ts_doc := ?d\<rparr>, None)"
        "storable (read_doc (write_file H path s) path)" "map_of (read_doc (write_file H path s) path) = map_of ?d"
        by (rule record_commits[OF k(2) Cons.prems(1) assms(6) k(1) Cons.prems(3,4) assms(5), of True])
          (simp add: update_conv')
      from s(1) r' have e: "H1 = write_file H path s" "store1 = store\<lparr>ts_doc := ?d\<rparr>" "err = None" by auto
      have pre: "ts_path store1 = Some path" "map_of (ts_doc store1) = map_of (read_doc H1 path)" "prints_back H1 io"
          "storable (read_doc H1 path)"
        and rec: "recorded_as H1 = recorded_as H" and doc: "map_of (read_doc H1 path) = map_of ?d"
        using Cons.prems s(2,3) by (simp_all add: e prints_back_def)
      from Cons.IH[OF pre]
      have "case migrate_loop H1 io store1 ps of (H', store', n, failed) \<Rightarrow>
        map_of (ts_doc store') = map_of (read_doc H' path) \<and> \<not> failed
        \<and> (\<forall>k'. map_of (read_doc H' path) k' =
            (case map_of ?d k' of Some f \<Rightarrow> Some f
             | None \<Rightarrow> if \<exists>p \<in> set ps. recorded_as H p = Some k'
                       then Some \<lparr>ft_trusted = True, ft_decided_at = tio_now io\<rparr> else None))"
        unfolding rec doc eqTrueI[OF k(1)] simp_thms by simp
      moreover have "map_of (read_doc H path) k = None"
        using decision_of_fresh[OF Cons.prems(2) k(2)] False by simp
      ultimately show ?thesis
        using False k by (auto simp: r e(3) update_conv' split: prod.splits option.splits)
    next
      case no: False
      have same: "H1 = H" "store1 = store"
        using record_uncommitted[of io H store p True] record_refused[of H p io store True] no r' by auto
      have und: "undecided H path p = (recorded_as H p \<noteq> None)"
        using decision_of_fresh[OF Cons.prems(2)] False by (auto simp: undecided_def split: option.split)
      show ?thesis
      proof (cases "recorded_as H p")
        case None
        with record_refused[OF None, of io store True] r' have "err = None" by simp
        with Cons.IH[OF Cons.prems] False und None show ?thesis
          by (auto simp: r same split: prod.splits option.splits)
      next
        case (Some k)
        with no have nc: "\<not> commits io" by simp
        obtain e where "record_decision H io store p True = (H, store, Some e)"
          by (rule record_fails[OF nc Some Cons.prems(1) assms(6) Cons.prems(3,4) assms(5)])
        with r' have "err = Some e" by simp
        with Cons.IH[OF Cons.prems] False und Some nc show ?thesis
          by (auto simp: r same split: prod.splits option.splits)
      qed
    qed
  qed
qed

text \<open>Migrating the legacy grants into a store that is up to date with its file only adds: every recorded
  decision keeps its value, every listed folder that can be recorded and has no decision becomes trusted,
  nothing else is written; and the legacy file is kept for a later run exactly if decisions do not commit while
  one of them is due.
\<close>

theorem migration_only_adds:
  assumes "ts_path store = Some path" "map_of (ts_doc store) = map_of (read_doc H path)" "prints_back H io"
    "storable (read_doc H path)" "time_fits (tio_now io)" "path_parent path \<noteq> None"
    "list_trusted_projects_with_file H legacy = Inr projects"
  shows "case migrate_legacy_hook_trust_in H io legacy store of (H', store', n, renamed) \<Rightarrow>
    (\<forall>k. map_of (read_doc H' path) k =
      (case map_of (read_doc H path) k of
         Some f \<Rightarrow> Some f
       | None \<Rightarrow> if commits io \<and> (\<exists>p \<in> set projects. recorded_as H p = Some k)
                 then Some \<lparr>ft_trusted = True, ft_decided_at = tio_now io\<rparr> else None))
    \<and> renamed = (path_exists H' legacy \<and> (commits io \<or> (\<forall>p \<in> set projects. \<not> undecided H path p)))"
  using migrate_doc[OF assms(1-6), of projects] assms(7)
  by (auto simp: migrate_legacy_hook_trust_in_def split: prod.splits)

subsection \<open>Where the code departs from its comments\<close>

text \<open>
  The check for an existing decision reads the store in memory, the write merges with the file: a decision
  another process wrote in between is overridden by the migration.
\<close>

lemma migration_overrides_newer_decision:
  assumes "\<not> has_decision H store p" "recorded_as H p = Some k" "ts_path store = Some path"
    "path_parent path \<noteq> None" "commits io" "prints_back H io" "storable (read_doc H path)" "time_fits (tio_now io)"
  shows "map_of (read_doc (fst (migrate_loop H io store [p])) path) k =
    Some \<lparr>ft_trusted = True, ft_decided_at = tio_now io\<rparr>"
proof -
  obtain s where "record_decision H io store p True = (write_file H path s,
      store\<lparr>ts_doc := AList.update k \<lparr>ft_trusted = True, ft_decided_at = tio_now io\<rparr> (read_doc H path)\<rparr>, None)"
    "map_of (read_doc (write_file H path s) path)
      = (map_of (read_doc H path))(k \<mapsto> \<lparr>ft_trusted = True, ft_decided_at = tio_now io\<rparr>)"
    by (rule record_commits[OF assms(2-8)])
  then show ?thesis using assms(1) by (simp add: set_trusted_def)
qed

text \<open>A store file that does not parse counts as empty, and the next decision replaces it: all others are lost.\<close>

lemma unparsable_store_is_replaced:
  assumes "toml_from_str H c = Inl e" "read_to_string H path = Inr c"
    "recorded_as H p = Some k" "ts_path store = Some path" "path_parent path \<noteq> None" "commits io" "prints_back H io"
    "time_fits (tio_now io)"
  shows "map_of (read_doc (fst (record_decision H io store p tr)) path)
    = [k \<mapsto> \<lparr>ft_trusted = tr, ft_decided_at = tio_now io\<rparr>]"
proof -
  have empty: "read_doc H path = []" using assms(1,2) by (simp add: read_doc_def)
  then have "storable (read_doc H path)" by (simp add: storable_def)
  then obtain s where "record_decision H io store p tr = (write_file H path s,
      store\<lparr>ts_doc := AList.update k \<lparr>ft_trusted = tr, ft_decided_at = tio_now io\<rparr> (read_doc H path)\<rparr>, None)"
    "map_of (read_doc (write_file H path s) path)
      = (map_of (read_doc H path))(k \<mapsto> \<lparr>ft_trusted = tr, ft_decided_at = tio_now io\<rparr>)"
    using record_commits[OF assms(3-7) _ assms(8)] by metis
  with empty show ?thesis by simp
qed

subsection \<open>Witnesses\<close>

text \<open>A host whose TOML printer and parser are the ones of \<open>Trust_Text\<close>.\<close>

definition text_io :: trust_io where
  "text_io = \<lparr>tio_create_dir = None, tio_lock = None,
     tio_print = (\<lambda>v. case trust_document_from_toml v of Some d \<Rightarrow> Inr (trust_text d)
                    | None \<Rightarrow> Inl \<lparr>io_message = ''no trust store'', io_kind = OtherKind\<rparr>),
     tio_persist = None, tio_now = Some 1780000000\<rparr>"

definition full_disk :: trust_io where
  "full_disk = text_io\<lparr>tio_persist := Some \<lparr>io_message = ''no space'', io_kind = OtherKind\<rparr>\<rparr>"

definition text_host :: "nat host" where
  "text_host = (example_host (\<lambda>p. if p = [''/'', ''legacy''] then Some ''/w'' else None) (\<lambda>_. None))
     \<lparr>toml_from_str := (\<lambda>s. case read_trust_text s of Some d \<Rightarrow> Inr (trust_document_to_toml d)
                          | None \<Rightarrow> Inl \<lparr>te_span = None, te_message = ''syntax error''\<rparr>)\<rparr>"

lemma printed_store:
  "trust_text [(''/w'', \<lparr>ft_trusted = True, ft_decided_at = Some 1780000000\<rparr>)]
   = ''[folders.'' @ [dquote] @ ''/w'' @ [dquote] @ '']'' @ [newline] @ ''trusted = true'' @ [newline]
     @ ''decided_at = 1780000000'' @ [newline]"
  by (simp add: trust_text_def trust_lines_def show_int_def show_nat.simps) (simp add: char_of_def bit_Suc_0_iff)

definition store_path :: path where
  "store_path = [''/'', ''home'', ''u'', ''.qidi'', ''trusted_folders.toml'']"

definition two_folders :: trust_store where
  "two_folders = \<lparr>ts_doc = [(''/a'', \<lparr>ft_trusted = True, ft_decided_at = None\<rparr>),
       (''/a/b'', \<lparr>ft_trusted = False, ft_decided_at = None\<rparr>)], ts_path = Some store_path\<rparr>"

definition stale_store :: trust_store where
  "stale_store = \<lparr>ts_doc = [], ts_path = Some store_path\<rparr>"

lemma text_prints [simp]: "prints_back text_host text_io" "prints_back text_host full_disk"
  by (auto simp: prints_back_def text_io_def full_disk_def text_host_def document_reads_back trust_text_read
      storable_def)

lemma text_times [simp]: "time_fits (tio_now text_io)" "time_fits (tio_now full_disk)"
  by (simp_all add: time_fits_def text_io_def full_disk_def)

lemma text_storable [simp]: "storable []"
  by (simp add: storable_def)

lemma text_commits [simp]: "commits text_io" "\<not> commits full_disk"
  by (simp_all add: commits_def text_io_def full_disk_def)

lemma text_reads:
  "canonicalize_or_owned text_host p = p" "dirs_home_dir text_host = Some [''/'', ''home'', ''u'']"
  "read_doc text_host store_path = []" "path_parent store_path \<noteq> None"
  by (simp_all add: canonicalize_or_owned_def text_host_def example_host_def read_doc_def store_path_def path_parent_def)

lemma text_unsafe:
  "is_unsafe_trust_root text_host p = (\<not> path_is_absolute p \<or> path_parent p = None \<or> p = [''/'', ''home'', ''u''])"
  by (simp add: is_unsafe_trust_root_def is_home_dir_def text_reads)

lemma text_recorded:
  "recorded_as text_host [''/'', ''w''] = Some ''/w''" "recorded_as text_host [''/'', ''home'', ''u''] = None"
  by (simp_all add: recorded_as_def text_reads text_unsafe path_is_absolute_def path_parent_def)

lemma text_files:
  "is_file text_host p = (p = [''/'', ''legacy''])" "\<not> is_dir text_host p"
  "read_to_string text_host p = (if p = [''/'', ''legacy''] then Inr ''/w''
     else Inl \<lparr>io_message = ''not found'', io_kind = NotFound\<rparr>)"
  "path_exists text_host p = (p = [''/'', ''legacy''])"
  by (simp_all add: text_host_def example_host_def)

lemma text_root: "find_repo_root text_host [''/'', ''w''] = None"
  by (simp add: find_repo_root.simps text_files path_join_def path_parent_def)

lemma text_chain: "repo_dir_chain_resolve text_host p = \<lparr>rdc_git_root = None, rdc_dirs = [p]\<rparr>"
  by (simp add: repo_dir_chain_resolve_def text_host_def example_host_def)

lemma text_home: "user_grok_home text_host = Some [''/'', ''home'', ''u'', ''.qidi'']"
  by (simp add: user_grok_home_def grok_home_def default_grok_home_def text_host_def example_host_def path_join_def)

theorem nearest_decision_decides_witness:
  "\<not> is_trusted text_host two_folders [''/'', ''a'', ''b'', ''c''] \<and> is_trusted text_host two_folders [''/'', ''a'', ''x'']"
proof -
  have c: "path_components ''/a'' = [''/'', ''a'']" "path_components ''/a/b'' = [''/'', ''a'', ''b'']"
    by code_simp+
  have h: "honoured text_host (ts_doc two_folders) [''/'', ''a'', ''b'', ''c''] = ts_doc two_folders"
    "honoured text_host (ts_doc two_folders) [''/'', ''a'', ''x''] = take 1 (ts_doc two_folders)"
    by (simp_all add: two_folders_def c text_unsafe path_is_absolute_def path_parent_def)
  show ?thesis
    using nearest_decision_decides[of text_host two_folders "[''/'', ''a'', ''b'', ''c'']"]
      nearest_decision_decides[of text_host two_folders "[''/'', ''a'', ''x'']"]
    by (simp add: text_reads h Let_def) (simp add: two_folders_def depth_of_def c)
qed

theorem decisions_accumulate_witness:
  "map_of (read_doc (record_all text_host
      [(text_io, stale_store, [''/'', ''w''], True), (full_disk, stale_store, [''/'', ''w''], False),
       (text_io, stale_store, [''/'', ''home'', ''u''], True)]) store_path) ''/w''
   = Some \<lparr>ft_trusted = True, ft_decided_at = Some 1780000000\<rparr>"
  by (subst decisions_accumulate)
    (simp_all add: writes_to_def decides_def decision_def text_recorded text_reads stale_store_def,
     simp add: text_io_def)

theorem decision_read_back_witness:
  "case record_decision text_host text_io stale_store [''/'', ''w''] True of
     (H', store', err) \<Rightarrow> err = None \<and> is_trusted H' store' [''/'', ''w'']"
  using decision_read_back[OF text_recorded(1), of stale_store store_path text_io True]
  by (auto simp: text_reads aliases_def normal_path_def) (simp_all add: stale_store_def)

theorem nothing_to_gate_injects_nothing_witness:
  "load_claude_env_with_project (example_externals (\<lambda>_. None)) text_host [''/'', ''w''] True
   = load_claude_env_with_project (example_externals (\<lambda>_. None)) text_host [''/'', ''w''] False"
proof -
  have "collect_project_claude_paths text_host [''/'', ''w''] = settings_files [''/'', ''w'']"
    by (simp add: collect_project_claude_paths_def project_root_def text_root walk_up.simps)
  then have "repo_config_hits (example_externals (\<lambda>_. None)) text_host [''/'', ''w''] = []"
    by (simp add: repo_config_hits_def text_chain text_files find_mcp_json_files_in_def find_project_configs_in_def
        hook_kinds_def existing_subdirs_along_def claude_project_mcp_names_def project_claude_settings_present_def
        settings_files_def path_join_def Let_def text_reads)
  then have "decide True (decide_inputs_with_interactive (example_externals (\<lambda>_. None)) text_host
      [''/'', ''w''] [''/'', ''w''] False) = Trusted"
    by (simp add: decide_def decide_inputs_with_interactive_def repo_configs_present_def
        collect_repo_config_kinds_def)
  moreover have "\<not> is_trusted text_host (trust_store_load text_host) [''/'', ''w'']"
    by (simp add: is_trusted_def trust_store_load_def default_path_in_def text_home path_join_def
        trust_store_load_from_def text_reads(3)[unfolded store_path_def])
  ultimately show ?thesis
    using nothing_to_gate_injects_nothing[of "example_externals (\<lambda>_. None)" text_host
        "[''/'', ''w'']" "[''/'', ''w'']" False]
    by (simp add: text_files text_unsafe path_is_absolute_def path_parent_def)
qed

theorem migration_only_adds_witness:
  "case migrate_legacy_hook_trust_in text_host text_io [''/'', ''legacy''] stale_store of (H', store', n, renamed) \<Rightarrow>
     map_of (read_doc H' store_path) ''/w'' = Some \<lparr>ft_trusted = True, ft_decided_at = Some 1780000000\<rparr>"
proof -
  have l: "list_trusted_projects_with_file text_host [''/'', ''legacy''] = Inr [[''/'', ''w'']]"
    by (simp add: list_trusted_projects_with_file_def text_files) code_simp
  show ?thesis
    using migration_only_adds[OF _ _ text_prints(1) _ text_times(1) text_reads(4) l, of stale_store]
    by (auto simp: stale_store_def text_reads text_recorded) (simp add: text_io_def)
qed

end
