(* ===== verification/Token_Estimates.thy ===== *)
theory Token_Estimates
  imports Confusables
begin

section \<open>Token estimates (\<open>cf-token-estimation\<close>)\<close>

text \<open>
  The estimates of how many tokens a text takes and the arithmetic on context windows that goes with them. A
  \<open>u64\<close> is a natural number; where the code saturates or where an operand comes from outside and the
  operation may wrap (the release profile has no overflow checks) the bound is written out. Lengths of texts in
  memory are far below \<open>2 ^ 64\<close> and their sums are plain. The double-precision numbers the code scales
  an estimate with are modelled at the end, exactly, as fractions.
\<close>

subsection \<open>Machine numbers\<close>

definition U64_MAX :: nat where "U64_MAX = 2 ^ 64 - 1"

definition u64_sat :: "nat \<Rightarrow> nat" where "u64_sat n = min n U64_MAX"

definition u64_wrap :: "nat \<Rightarrow> nat" where "u64_wrap n = n mod 2 ^ 64"

definition saturating_add :: "nat \<Rightarrow> nat \<Rightarrow> nat" where "saturating_add a b = u64_sat (a + b)"

definition saturating_mul :: "nat \<Rightarrow> nat \<Rightarrow> nat" where "saturating_mul a b = u64_sat (a * b)"

lemmas saturating_defs = saturating_add_def saturating_mul_def u64_sat_def

lemma saturating_add_mono: "a \<le> a' \<Longrightarrow> b \<le> b' \<Longrightarrow> saturating_add a b \<le> saturating_add a' b'"
  by (simp add: saturating_defs min.coboundedI1 min_le_iff_disj add_mono)

lemma u64_wrap_id: "n \<le> U64_MAX \<Longrightarrow> u64_wrap n = n"
  by (simp add: u64_wrap_def U64_MAX_def)

subsection \<open>The estimates\<close>

definition BYTES_PER_TOKEN :: nat where "BYTES_PER_TOKEN = 4"

definition IMAGE_TOKEN_ESTIMATE :: nat where "IMAGE_TOKEN_ESTIMATE = 765"

definition CJK_TOKEN_NUMERATOR :: nat where "CJK_TOKEN_NUMERATOR = 3"

definition CJK_TOKEN_DENOMINATOR :: nat where "CJK_TOKEN_DENOMINATOR = 5"

definition estimate_tokens :: "str \<Rightarrow> nat" where
  "estimate_tokens s = length s div BYTES_PER_TOKEN"

text \<open>The number of a character, read off its UTF-8 encoding.\<close>

definition code_point :: "str \<Rightarrow> nat" where
  "code_point c =
     (case map of_char c of
        [a] \<Rightarrow> a
      | [a, b] \<Rightarrow> (a mod 32) * 64 + b mod 64
      | [a, b, d] \<Rightarrow> ((a mod 16) * 64 + b mod 64) * 64 + d mod 64
      | [a, b, d, e] \<Rightarrow> (((a mod 8) * 64 + b mod 64) * 64 + d mod 64) * 64 + e mod 64
      | _ \<Rightarrow> 0)"

definition is_cjk :: "str \<Rightarrow> bool" where
  "is_cjk c =
     (let n = code_point c
      in (0x2E80 \<le> n \<and> n \<le> 0x9FFF) \<or> (0xF900 \<le> n \<and> n \<le> 0xFAFF) \<or> (0xFF00 \<le> n \<and> n \<le> 0xFFEF))"

fun count_classes :: "str list \<Rightarrow> nat \<Rightarrow> nat \<Rightarrow> nat \<Rightarrow> nat \<times> nat \<times> nat" where
  "count_classes [] ascii_len cjk_chars other_bytes = (ascii_len, cjk_chars, other_bytes)"
| "count_classes (c # cs) ascii_len cjk_chars other_bytes =
     (if code_point c < 128 then count_classes cs (ascii_len + 1) cjk_chars other_bytes
      else if is_cjk c then count_classes cs ascii_len (cjk_chars + 1) other_bytes
      else count_classes cs ascii_len cjk_chars (other_bytes + length c))"

definition estimate_tokens_aware :: "str \<Rightarrow> nat" where
  "estimate_tokens_aware s =
     (let (ascii_len, cjk_chars, other_bytes) = count_classes (utf8_chars s) 0 0 0;
          cjk_tokens = saturating_add (saturating_mul cjk_chars CJK_TOKEN_NUMERATOR) (CJK_TOKEN_DENOMINATOR - 1)
                         div CJK_TOKEN_DENOMINATOR
      in ascii_len div BYTES_PER_TOKEN + cjk_tokens + other_bytes div BYTES_PER_TOKEN)"

definition estimate_chars :: "nat \<Rightarrow> nat" where
  "estimate_chars tokens = saturating_mul tokens BYTES_PER_TOKEN"

definition estimate_image_tokens :: "nat \<Rightarrow> nat" where
  "estimate_image_tokens image_count = saturating_mul image_count IMAGE_TOKEN_ESTIMATE"

definition usage_percentage_truncated_u8 :: "nat \<Rightarrow> nat \<Rightarrow> nat" where
  "usage_percentage_truncated_u8 used window =
     (if window = 0 then 0 else min (saturating_mul used 100 div window) 100)"

definition free_tokens :: "nat \<Rightarrow> nat \<Rightarrow> nat" where
  "free_tokens window used = window - used"

definition exceeds_threshold :: "nat \<Rightarrow> nat \<Rightarrow> nat \<Rightarrow> bool" where
  "exceeds_threshold used context_window threshold_percent =
     (context_window \<noteq> 0
      \<and> saturating_mul context_window threshold_percent \<le> saturating_mul used 100)"

definition exceeds_threshold_with_headroom :: "nat \<Rightarrow> nat \<Rightarrow> nat \<Rightarrow> nat \<Rightarrow> bool" where
  "exceeds_threshold_with_headroom used context_window threshold_percent headroom =
     (context_window \<noteq> 0
      \<and> saturating_mul context_window threshold_percent - saturating_mul headroom 100 \<le> saturating_mul used 100)"

text \<open>A text of ASCII characters gets the plain estimate.\<close>

lemma utf8_chars_Cons_ascii:
  assumes "byte_in c 0 0x7F"
  shows "utf8_chars (c # s) = [c] # utf8_chars s"
  using assms by (simp add: utf8_chars_def)

lemma count_classes_ascii:
  assumes "\<forall>c \<in> set s. byte_in c 0 0x7F"
  shows "count_classes (utf8_chars s) a j b = (a + length s, j, b)"
  using assms
proof (induction s arbitrary: a)
  case Nil
  then show ?case by (simp add: utf8_chars_def)
next
  case (Cons c s)
  then have "code_point [c] < 128" by (simp add: code_point_def byte_in_def)
  with Cons show ?case by (simp add: utf8_chars_Cons_ascii)
qed

lemma estimate_aware_ascii:
  assumes "\<forall>c \<in> set s. byte_in c 0 0x7F"
  shows "estimate_tokens_aware s = estimate_tokens s"
  using count_classes_ascii[OF assms, of 0 0 0]
  by (simp add: estimate_tokens_aware_def estimate_tokens_def saturating_defs CJK_TOKEN_DENOMINATOR_def
      CJK_TOKEN_NUMERATOR_def BYTES_PER_TOKEN_def U64_MAX_def)

text \<open>The threshold with no headroom is the plain one, and headroom only brings it closer.\<close>

lemma exceeds_with_headroom_mono:
  "exceeds_threshold_with_headroom u w p h \<Longrightarrow> h \<le> h' \<Longrightarrow> exceeds_threshold_with_headroom u w p h'"
  by (auto simp: exceeds_threshold_with_headroom_def saturating_defs)

lemma exceeds_no_headroom: "exceeds_threshold_with_headroom u w p 0 = exceeds_threshold u w p"
  by (simp add: exceeds_threshold_with_headroom_def exceeds_threshold_def saturating_defs)

subsection \<open>Double-precision numbers\<close>

text \<open>
  A finite non-negative \<open>f64\<close> is the fraction of two natural numbers. \<open>f64_of_ratio p q\<close> is the number nearest to
  \<open>p / q\<close> with 53 significant bits, a tie going to the even one: what a conversion, a product and a quotient of
  numbers between \<open>2 ^ -64\<close> and \<open>2 ^ 128\<close> give, none of them being subnormal.
\<close>

type_synonym f64 = "nat \<times> nat"

fun bits :: "nat \<Rightarrow> nat" where
  "bits n = (if n = 0 then 0 else Suc (bits (n div 2)))"

declare bits.simps [simp del]

definition round_half_even :: "nat \<Rightarrow> nat \<Rightarrow> nat" where
  "round_half_even p q =
     (let m = p div q; r = p mod q in if 2 * r < q \<or> (2 * r = q \<and> even m) then m else m + 1)"

definition scaled :: "int \<Rightarrow> nat \<Rightarrow> nat \<Rightarrow> nat \<times> nat" where
  "scaled s p q = (if 0 \<le> s then (p * 2 ^ nat s, q) else (p, q * 2 ^ nat (- s)))"

definition f64_of_ratio :: "nat \<Rightarrow> nat \<Rightarrow> f64" where
  "f64_of_ratio p q =
     (if p = 0 then (0, 1)
      else let s0 = 53 + int (bits q) - int (bits p);
               s = (if 2 ^ 53 * snd (scaled s0 p q) \<le> fst (scaled s0 p q) then s0 - 1 else s0);
               m = round_half_even (fst (scaled s p q)) (snd (scaled s p q))
           in if 0 \<le> s then (m, 2 ^ nat s) else (m * 2 ^ nat (- s), 1))"

definition f64_of_u64 :: "nat \<Rightarrow> f64" where "f64_of_u64 n = f64_of_ratio n 1"

definition f64_div :: "f64 \<Rightarrow> f64 \<Rightarrow> f64" where
  "f64_div a b = f64_of_ratio (fst a * snd b) (snd a * fst b)"

definition f64_mul :: "f64 \<Rightarrow> f64 \<Rightarrow> f64" where
  "f64_mul a b = f64_of_ratio (fst a * fst b) (snd a * snd b)"

text \<open>\<open>x.round() as u64\<close>: half away from zero, saturating.\<close>

definition f64_round_as_u64 :: "f64 \<Rightarrow> nat" where
  "f64_round_as_u64 a = u64_sat ((2 * fst a + snd a) div (2 * snd a))"

lemmas f64_defs =
  f64_round_as_u64_def f64_mul_def f64_div_def f64_of_u64_def f64_of_ratio_def scaled_def round_half_even_def
  u64_sat_def U64_MAX_def

lemma f64_example: "f64_round_as_u64 (f64_mul (f64_of_u64 1000) (f64_div (f64_of_u64 3) (f64_of_u64 2))) = 1500"
  by (simp add: f64_defs bits.simps Let_def)

lemma f64_rounds: "f64_of_u64 (2 ^ 53 + 1) = (2 ^ 53, 1)"
  by (simp add: f64_defs bits.simps Let_def)

end
