(* ===== verification/Conversation.thy ===== *)
theory Conversation
  imports Token_Estimates "HOL-Library.Monad_Syntax"
begin

section \<open>Conversations (\<open>cf-sampling-types/src/conversation.rs\<close>)\<close>

text \<open>
  The items a conversation is made of and what the crate of their types does with a whole conversation: where a
  rewind cuts it, how the tool calls of a cancelled turn are answered, which of several answers to one call is
  kept. A conversation is the list of its items. \<open>None\<close> as the result of a function whose Rust type is not an
  option is a panic, which aborts the process.
\<close>

subsection \<open>Items\<close>

datatype content_part = TextPart str | ImagePart str

datatype synthetic_reason =
    CompactionMeta | SystemReminder | ProjectInstructions | AutoContinue | AutoRecovery | Interjection
  | TaskCompleted | SubagentCompleted | NotificationDrain | GoalSummary | GoalClassifierNudge
  | SchedulerFired | UnknownReason

fun starts_prompt_turn :: "synthetic_reason \<Rightarrow> bool" where
  "starts_prompt_turn TaskCompleted = True"
| "starts_prompt_turn SubagentCompleted = True"
| "starts_prompt_turn NotificationDrain = True"
| "starts_prompt_turn GoalClassifierNudge = True"
| "starts_prompt_turn SchedulerFired = True"
| "starts_prompt_turn _ = False"

datatype prior_turn_interrupt = MidTurnAbort | PermissionRejected | PermissionCancelled | UnknownInterrupt

datatype reasoning_effort = NoEffort | Minimal | Low | Medium | High | Xhigh

record user_item =
  ui_content :: "content_part list"
  ui_synthetic_reason :: "synthetic_reason option"
  ui_prior_turn_interrupt :: "prior_turn_interrupt option"
  ui_prompt_index :: "nat option"

record tool_call =
  tc_id :: str
  tc_name :: str
  tc_arguments :: str

record assistant_item =
  ai_content :: str
  ai_tool_calls :: "tool_call list"
  ai_model_id :: "str option"
  ai_model_fingerprint :: "str option"
  ai_reasoning_effort :: "reasoning_effort option"

record tool_result_item =
  ti_tool_call_id :: str
  ti_content :: str
  ti_images :: "content_part list"

text \<open>Of the items of the Responses API, the fields the code reads.\<close>

datatype web_search_action = Search str | OpenPage "str option" | Find str str | FindInPage str str

datatype backend_tool_kind =
    WebSearch str web_search_action
  | XSearch str str str
  | CodeInterpreter str "str option"

record reasoning_item =
  ri_id :: str
  ri_summary :: "str list"
  ri_content :: "str list option"
  ri_encrypted_content :: "str option"

datatype conversation_item =
    System str
  | User user_item
  | Assistant assistant_item
  | ToolResult tool_result_item
  | BackendToolCall backend_tool_kind
  | Reasoning reasoning_item

type_synonym conversation = "conversation_item list"

fun is_user :: "conversation_item \<Rightarrow> bool" where
  "is_user (User u) = True"
| "is_user _ = False"

fun is_tool_result :: "conversation_item \<Rightarrow> bool" where
  "is_tool_result (ToolResult t) = True"
| "is_tool_result _ = False"

fun is_system :: "conversation_item \<Rightarrow> bool" where
  "is_system (System s) = True"
| "is_system _ = False"

definition user :: "str \<Rightarrow> conversation_item" where
  "user content =
     User \<lparr>ui_content = [TextPart content], ui_synthetic_reason = None, ui_prior_turn_interrupt = None,
           ui_prompt_index = None\<rparr>"

definition synthetic_user :: "synthetic_reason \<Rightarrow> str \<Rightarrow> conversation_item" where
  "synthetic_user reason content =
     User \<lparr>ui_content = [TextPart content], ui_synthetic_reason = Some reason, ui_prior_turn_interrupt = None,
           ui_prompt_index = None\<rparr>"

definition user_meta :: "str \<Rightarrow> conversation_item" where
  "user_meta = synthetic_user CompactionMeta"

definition system_reminder :: "str \<Rightarrow> conversation_item" where
  "system_reminder = synthetic_user SystemReminder"

definition project_instructions :: "str \<Rightarrow> conversation_item" where
  "project_instructions = synthetic_user ProjectInstructions"

definition assistant_calls :: "str \<Rightarrow> tool_call list \<Rightarrow> conversation_item" where
  "assistant_calls content calls =
     Assistant \<lparr>ai_content = content, ai_tool_calls = calls, ai_model_id = None, ai_model_fingerprint = None,
                ai_reasoning_effort = None\<rparr>"

definition assistant :: "str \<Rightarrow> conversation_item" where
  "assistant content = assistant_calls content []"

definition assistant_tool_calls :: "tool_call list \<Rightarrow> conversation_item" where
  "assistant_tool_calls calls = assistant_calls [] calls"

definition tool_result :: "str \<Rightarrow> str \<Rightarrow> conversation_item" where
  "tool_result tool_call_id content =
     ToolResult \<lparr>ti_tool_call_id = tool_call_id, ti_content = content, ti_images = []\<rparr>"

subsection \<open>The text of an item\<close>

text \<open>\<open>&s[..n]\<close> panics when byte \<open>n\<close> is inside a character.\<close>

definition str_prefix :: "str \<Rightarrow> nat \<Rightarrow> str option" where
  "str_prefix s n = (if is_char_boundary s n then Some (take n s) else None)"

fun web_search_desc :: "web_search_action \<Rightarrow> str" where
  "web_search_desc (Search query) = ''search: '' @ query"
| "web_search_desc (OpenPage url) = ''open: '' @ (case url of Some u \<Rightarrow> u | None \<Rightarrow> ''?'')"
| "web_search_desc (Find pattern url) = ''find '' @ [dquote] @ pattern @ [dquote] @ '' in '' @ url"
| "web_search_desc (FindInPage pattern url) = ''find '' @ [dquote] @ pattern @ [dquote] @ '' in '' @ url"

fun text_summary :: "backend_tool_kind \<Rightarrow> str option" where
  "text_summary (WebSearch i action) = Some (''[backend web_search] '' @ web_search_desc action)"
| "text_summary (XSearch i name input) = Some (''[backend x_search] '' @ name @ ''('' @ input @ '')'')"
| "text_summary (CodeInterpreter i code) =
     do {
       preview \<leftarrow> (case code of
          None \<Rightarrow> Some []
        | Some c \<Rightarrow> if 100 < length c then map_option (\<lambda>p. p @ ''...'') (str_prefix c 100) else Some c);
       Some (''[backend code_interpreter] '' @ preview)
     }"

definition reasoning_item_text :: "reasoning_item \<Rightarrow> str" where
  "reasoning_item_text r =
     join [newline] (ri_summary r @ (case ri_content r of Some content \<Rightarrow> content | None \<Rightarrow> []))"

fun part_text :: "content_part \<Rightarrow> str option" where
  "part_text (TextPart t) = Some t"
| "part_text (ImagePart url) = None"

definition user_text :: "user_item \<Rightarrow> str" where
  "user_text u = join [newline] (List.map_filter part_text (ui_content u))"

fun text_content :: "conversation_item \<Rightarrow> str option" where
  "text_content (System s) = Some s"
| "text_content (User u) = Some (user_text u)"
| "text_content (Assistant a) = Some (ai_content a)"
| "text_content (ToolResult t) = Some (ti_content t)"
| "text_content (BackendToolCall b) = text_summary b"
| "text_content (Reasoning r) = Some (reasoning_item_text r)"

text \<open>The items whose text can be taken.\<close>

fun readable :: "conversation_item \<Rightarrow> bool" where
  "readable (BackendToolCall b) = (text_summary b \<noteq> None)"
| "readable _ = True"

lemma text_content_readable: "text_content i \<noteq> None \<longleftrightarrow> readable i"
  by (cases i) auto

subsection \<open>Where a rewind cuts (\<open>conversation_truncate_for_prompt\<close>)\<close>

text \<open>The number of the turn an item without a marker opens, after \<open>next\<close> counted ones, and whether the first
  message was seen: that one carries the information on the user and opens no turn.\<close>

fun unmarked_index :: "synthetic_reason option \<Rightarrow> bool \<Rightarrow> nat \<Rightarrow> nat option \<times> bool" where
  "unmarked_index None seen_preamble next_index = (if seen_preamble then (Some next_index, True) else (None, True))"
| "unmarked_index (Some reason) seen_preamble next_index =
     (if starts_prompt_turn reason then Some next_index else None, seen_preamble)"

fun truncate_markers_only :: "nat \<Rightarrow> conversation \<Rightarrow> nat \<Rightarrow> nat" where
  "truncate_markers_only i [] target = i"
| "truncate_markers_only i (User u # rest) target =
     (case ui_prompt_index u of
        Some idx \<Rightarrow> if target \<le> idx then i else truncate_markers_only (i + 1) rest target
      | None \<Rightarrow> truncate_markers_only (i + 1) rest target)"
| "truncate_markers_only i (_ # rest) target = truncate_markers_only (i + 1) rest target"

fun truncate_legacy :: "nat \<Rightarrow> nat \<Rightarrow> bool \<Rightarrow> conversation \<Rightarrow> nat \<Rightarrow> nat" where
  "truncate_legacy i next_index seen_preamble [] target = i"
| "truncate_legacy i next_index seen_preamble (User u # rest) target =
     (case unmarked_index (ui_synthetic_reason u) seen_preamble next_index of
        (Some idx, seen) \<Rightarrow>
          if target \<le> idx then i else truncate_legacy (i + 1) (idx + 1) seen rest target
      | (None, seen) \<Rightarrow> truncate_legacy (i + 1) next_index seen rest target)"
| "truncate_legacy i next_index seen_preamble (_ # rest) target =
     truncate_legacy (i + 1) next_index seen_preamble rest target"

fun count_legacy_turns_until_marker :: "nat \<Rightarrow> bool \<Rightarrow> conversation \<Rightarrow> nat" where
  "count_legacy_turns_until_marker turns seen_preamble [] = turns"
| "count_legacy_turns_until_marker turns seen_preamble (User u # rest) =
     (if ui_prompt_index u \<noteq> None then turns
      else (case unmarked_index (ui_synthetic_reason u) seen_preamble turns of
              (opened, seen) \<Rightarrow>
                count_legacy_turns_until_marker (if opened = None then turns else turns + 1) seen rest))"
| "count_legacy_turns_until_marker turns seen_preamble (_ # rest) =
     count_legacy_turns_until_marker turns seen_preamble rest"

fun truncate_progressive :: "nat \<Rightarrow> nat \<Rightarrow> bool \<Rightarrow> bool \<Rightarrow> conversation \<Rightarrow> nat \<Rightarrow> nat" where
  "truncate_progressive i next_index seen_preamble seen_marker [] target = i"
| "truncate_progressive i next_index seen_preamble seen_marker (User u # rest) target =
     (case ui_prompt_index u of
        Some idx \<Rightarrow>
          if target \<le> idx then i
          else truncate_progressive (i + 1) next_index seen_preamble True rest target
      | None \<Rightarrow>
          if seen_marker then truncate_progressive (i + 1) next_index seen_preamble True rest target
          else (case unmarked_index (ui_synthetic_reason u) seen_preamble next_index of
                  (Some idx, seen) \<Rightarrow>
                    if target \<le> idx then i
                    else truncate_progressive (i + 1) (idx + 1) seen False rest target
                | (None, seen) \<Rightarrow> truncate_progressive (i + 1) next_index seen False rest target))"
| "truncate_progressive i next_index seen_preamble seen_marker (_ # rest) target =
     truncate_progressive (i + 1) next_index seen_preamble seen_marker rest target"

fun user_prompt_index :: "conversation_item \<Rightarrow> nat option" where
  "user_prompt_index (User u) = ui_prompt_index u"
| "user_prompt_index _ = None"

definition conversation_truncate_for_prompt :: "conversation \<Rightarrow> nat \<Rightarrow> nat" where
  "conversation_truncate_for_prompt conversation target_prompt_index =
     (case List.map_filter user_prompt_index conversation of
        [] \<Rightarrow> truncate_legacy 0 0 False conversation target_prompt_index
      | first_marker_idx # _ \<Rightarrow>
          if count_legacy_turns_until_marker 0 False conversation \<noteq> first_marker_idx
          then truncate_markers_only 0 conversation target_prompt_index
          else truncate_progressive 0 0 False False conversation target_prompt_index)"

definition good_cut :: "nat \<Rightarrow> conversation \<Rightarrow> nat \<Rightarrow> nat \<Rightarrow> bool" where
  "good_cut i items target n \<longleftrightarrow>
     i \<le> n \<and> n \<le> i + length items \<and> (n < i + length items \<longrightarrow> is_user (items ! (n - i)))
     \<and> (\<forall>item \<in> set (take (n - i) items). \<forall>idx. user_prompt_index item = Some idx \<longrightarrow> idx < target)"

lemma good_cut_here: "is_user item \<Longrightarrow> good_cut i (item # items) target i"
  by (simp add: good_cut_def)

lemma good_cut_Nil: "good_cut i [] target i"
  by (simp add: good_cut_def)

lemma good_cut_later:
  assumes "good_cut (i + 1) items target n" "\<And>idx. user_prompt_index item = Some idx \<Longrightarrow> idx < target"
  shows "good_cut i (item # items) target n"
proof -
  have "i + 1 \<le> n" using assms(1) by (simp add: good_cut_def)
  then have "n - i = Suc (n - (i + 1))" by linarith
  then show ?thesis using assms by (auto simp: good_cut_def)
qed

lemma good_cut_other: "\<not> is_user item \<Longrightarrow> good_cut (i + 1) items target n \<Longrightarrow> good_cut i (item # items) target n"
  by (rule good_cut_later) (cases item; simp)+

lemma cut_markers_only: "good_cut i items target (truncate_markers_only i items target)"
  by (induction i items target rule: truncate_markers_only.induct)
    (auto simp: good_cut_Nil good_cut_here not_le intro: good_cut_later good_cut_other split: option.split)

lemma cut_legacy:
  "List.map_filter user_prompt_index items = [] \<Longrightarrow> good_cut i items target (truncate_legacy i next_index seen items target)"
  by (induction i next_index seen items target rule: truncate_legacy.induct)
    (auto simp: good_cut_Nil good_cut_here intro: good_cut_later good_cut_other split: option.split prod.split option.splits)

lemma cut_progressive: "good_cut i items target (truncate_progressive i next_index seen_preamble seen_marker items target)"
  by (induction i next_index seen_preamble seen_marker items target rule: truncate_progressive.induct)
    (auto simp: good_cut_Nil good_cut_here not_le intro: good_cut_later good_cut_other split: option.split prod.split)

text \<open>A rewind to a turn keeps a prefix that ends where a user item starts or keeps everything, and no item it keeps is
  marked as opening that turn or a later one, however the markers of the session came about.\<close>

theorem rewind_cut:
  "conversation_truncate_for_prompt items target \<in> insert (length items) {n. n < length items \<and> is_user (items ! n)}
   \<and> {idx. Some idx \<in> user_prompt_index ` set (take (conversation_truncate_for_prompt items target) items)} \<subseteq> {..<target}"
proof -
  have "good_cut 0 items target (conversation_truncate_for_prompt items target)"
    unfolding conversation_truncate_for_prompt_def
    by (auto simp: cut_markers_only cut_legacy cut_progressive split: list.split)
  then show ?thesis by (fastforce simp: good_cut_def)
qed

subsection \<open>The working directory of a fork (\<open>transform_conversation_cwd\<close>)\<close>

definition moved :: "str \<Rightarrow> str \<Rightarrow> str \<Rightarrow> str" where
  "moved source_cwd target_cwd s = (if contains s source_cwd then replace_all source_cwd target_cwd s else s)"

fun moved_part :: "str \<Rightarrow> str \<Rightarrow> content_part \<Rightarrow> content_part" where
  "moved_part source_cwd target_cwd (TextPart t) = TextPart (moved source_cwd target_cwd t)"
| "moved_part source_cwd target_cwd (ImagePart url) = ImagePart url"

fun moved_item :: "str \<Rightarrow> str \<Rightarrow> conversation_item \<Rightarrow> conversation_item" where
  "moved_item source_cwd target_cwd (System s) = System (moved source_cwd target_cwd s)"
| "moved_item source_cwd target_cwd (User u) =
     User (u\<lparr>ui_content := map (moved_part source_cwd target_cwd) (ui_content u)\<rparr>)"
| "moved_item source_cwd target_cwd (Assistant a) =
     Assistant (a\<lparr>ai_content := moved source_cwd target_cwd (ai_content a),
                  ai_tool_calls := map (\<lambda>tc. tc\<lparr>tc_arguments := moved source_cwd target_cwd (tc_arguments tc)\<rparr>)
                                     (ai_tool_calls a)\<rparr>)"
| "moved_item source_cwd target_cwd (ToolResult t) =
     ToolResult (t\<lparr>ti_content := moved source_cwd target_cwd (ti_content t)\<rparr>)"
| "moved_item source_cwd target_cwd (BackendToolCall b) = BackendToolCall b"
| "moved_item source_cwd target_cwd (Reasoning r) =
     Reasoning (r\<lparr>ri_summary := map (moved source_cwd target_cwd) (ri_summary r),
                  ri_content := map_option (map (moved source_cwd target_cwd)) (ri_content r)\<rparr>)"

definition transform_conversation_cwd :: "conversation \<Rightarrow> str \<Rightarrow> str \<Rightarrow> conversation" where
  "transform_conversation_cwd items source_cwd target_cwd = map (moved_item source_cwd target_cwd) items"

subsection \<open>Answers to tool calls\<close>

datatype dangling_tool_call_reason = UserCancelled | HarnessHalted str

fun synthetic_dangling_result_text :: "str \<Rightarrow> dangling_tool_call_reason \<Rightarrow> str" where
  "synthetic_dangling_result_text name UserCancelled =
     ''Tool execution was cancelled by the user (tool `'' @ name @ ''` was not executed).''"
| "synthetic_dangling_result_text name (HarnessHalted cls) =
     ''Tool execution was halted by the harness ('' @ cls @ ''); the tool `'' @ name @ ''` was not executed.''"

text \<open>The run of results right after an assistant message, and the calls it answers.\<close>

definition result_run :: "conversation \<Rightarrow> conversation" where
  "result_run items = takeWhile is_tool_result items"

definition after_run :: "conversation \<Rightarrow> conversation" where
  "after_run items = dropWhile is_tool_result items"

fun result_id :: "conversation_item \<Rightarrow> str option" where
  "result_id (ToolResult t) = Some (ti_tool_call_id t)"
| "result_id _ = None"

definition answered_ids :: "conversation \<Rightarrow> str list" where
  "answered_ids run = List.map_filter result_id run"

definition synthetic_results :: "tool_call list \<Rightarrow> str list \<Rightarrow> dangling_tool_call_reason \<Rightarrow> conversation" where
  "synthetic_results calls answered reason =
     map (\<lambda>tc. tool_result (tc_id tc) (synthetic_dangling_result_text (tc_name tc) reason))
       (filter (\<lambda>tc. tc_id tc \<notin> set answered) calls)"

lemma length_after_run: "length (after_run items) \<le> length items"
  by (simp add: after_run_def length_dropWhile_le)

text \<open>The first phase of \<open>repair_dangling_tool_calls\<close>, from index \<open>i\<close> on: where results are missing, and which.\<close>

function repair_sites :: "nat \<Rightarrow> conversation \<Rightarrow> dangling_tool_call_reason \<Rightarrow> (nat \<times> conversation) list" where
  "repair_sites i [] reason = []"
| "repair_sites i (item # rest) reason =
     (case item of
        Assistant a \<Rightarrow>
          if ai_tool_calls a \<noteq> [] then
            let run = result_run rest;
                j = i + 1 + length run;
                synthetic = synthetic_results (ai_tool_calls a) (answered_ids run) reason
            in (if synthetic \<noteq> [] then [(j, synthetic)] else []) @ repair_sites j (after_run rest) reason
          else repair_sites (i + 1) rest reason
      | _ \<Rightarrow> repair_sites (i + 1) rest reason)"
  by pat_completeness auto
termination
  by (relation "measure (\<lambda>(i, items, reason). length items)") (auto simp: length_after_run le_imp_less_Suc)

declare repair_sites.simps(2) [simp del]

definition splice_at :: "nat \<Rightarrow> conversation \<Rightarrow> conversation \<Rightarrow> conversation" where
  "splice_at at_index new items = take at_index items @ new @ drop at_index items"

definition repair_dangling_tool_calls ::
  "conversation \<Rightarrow> dangling_tool_call_reason \<Rightarrow> conversation \<times> nat" where
  "repair_dangling_tool_calls items reason =
     (let repairs = repair_sites 0 items reason
      in (fold (\<lambda>(insert_at, synthetic). splice_at insert_at synthetic) (rev repairs) items,
          sum_list (map (\<lambda>(insert_at, synthetic). length synthetic) repairs)))"

function has_dangling_tool_calls :: "conversation \<Rightarrow> bool" where
  "has_dangling_tool_calls [] = False"
| "has_dangling_tool_calls (item # rest) =
     (case item of
        Assistant a \<Rightarrow>
          if ai_tool_calls a \<noteq> [] then
            if \<exists>tc \<in> set (ai_tool_calls a). tc_id tc \<notin> set (answered_ids (result_run rest)) then True
            else has_dangling_tool_calls (after_run rest)
          else has_dangling_tool_calls rest
      | _ \<Rightarrow> has_dangling_tool_calls rest)"
  by pat_completeness auto
termination
  by (relation "measure length") (auto simp: length_after_run le_imp_less_Suc)

declare has_dangling_tool_calls.simps(2) [simp del]

text \<open>\<open>dedup_duplicate_tool_results\<close>: in each run the indices of the results a later one with the same identifier
  follows, removed from the highest down, and the run scanned again.\<close>

fun duplicate_marks :: "(str \<Rightarrow> nat option) \<Rightarrow> nat \<Rightarrow> conversation \<Rightarrow> nat list" where
  "duplicate_marks seen idx [] = []"
| "duplicate_marks seen idx (ToolResult t # rest) =
     (case seen (ti_tool_call_id t) of Some prev \<Rightarrow> [prev] | None \<Rightarrow> [])
     @ duplicate_marks (seen(ti_tool_call_id t \<mapsto> idx)) (idx + 1) rest"
| "duplicate_marks seen idx (_ # rest) = duplicate_marks seen (idx + 1) rest"

definition remove_index :: "nat \<Rightarrow> 'a list \<Rightarrow> 'a list" where
  "remove_index i xs = take i xs @ drop (Suc i) xs"

lemma duplicate_marks_other [simp]:
  "\<not> is_tool_result item \<Longrightarrow> duplicate_marks seen idx (item # rest) = duplicate_marks seen (idx + 1) rest"
  by (cases item) auto

lemma duplicate_marks_bound:
  assumes "m \<in> set (duplicate_marks seen idx run)" "\<forall>k j. seen k = Some j \<longrightarrow> j < idx"
  shows "m < idx + length run"
  using assms
proof (induction run arbitrary: seen idx)
  case Nil
  then show ?case by simp
next
  case (Cons item rest)
  show ?case
  proof (cases "is_tool_result item")
    case True
    then obtain t where t: "item = ToolResult t" by (cases item) auto
    let ?seen = "seen(ti_tool_call_id t \<mapsto> idx)"
    have seen: "\<forall>k j. ?seen k = Some j \<longrightarrow> j < idx + 1"
      using Cons.prems(2) by (auto intro: less_SucI)
    have "m < idx \<or> m \<in> set (duplicate_marks ?seen (idx + 1) rest)"
      using Cons.prems t by (cases "seen (ti_tool_call_id t)") auto
    then show ?thesis using Cons.IH[OF _ seen] by fastforce
  next
    case False
    have "\<forall>k j. seen k = Some j \<longrightarrow> j < idx + 1" using Cons.prems(2) less_SucI by fastforce
    then show ?thesis using Cons.IH[of seen "idx + 1"] Cons.prems(1) False by simp
  qed
qed

lemma length_remove_index: "i < length xs \<Longrightarrow> length (remove_index i xs) = length xs - 1"
  by (simp add: remove_index_def)

lemma length_remove_index_le: "length (remove_index i xs) \<le> length xs"
  by (simp add: remove_index_def)

lemma length_fold_remove_le: "length (fold remove_index ds xs) \<le> length xs"
proof (induction ds arbitrary: xs)
  case (Cons d ds)
  then show ?case using length_remove_index_le[of d xs] le_trans by fastforce
qed simp

lemma length_fold_remove_less:
  assumes "ds \<noteq> []" "\<forall>d \<in> set ds. d < length xs"
  shows "length (fold remove_index ds xs) < length xs"
proof -
  obtain d ds' where d: "ds = d # ds'" using assms(1) by (cases ds) auto
  then have "d < length xs" using assms(2) by simp
  then have "length (remove_index d xs) < length xs" by (simp add: length_remove_index)
  then show ?thesis using d length_fold_remove_le[of ds' "remove_index d xs"] by simp
qed

lemma dedup_removal_shrinks:
  assumes "i < length items" "duplicate_marks Map.empty (i + 1) (result_run (drop (i + 1) items)) \<noteq> []"
  shows "length (fold remove_index (rev (sort (duplicate_marks Map.empty (i + 1) (result_run (drop (i + 1) items))))) items)
           < length items"
proof (rule length_fold_remove_less)
  let ?run = "result_run (drop (i + 1) items)"
  have "length ?run \<le> length (drop (i + 1) items)" unfolding result_run_def by (rule length_takeWhile_le)
  then have "i + 1 + length ?run \<le> length items" using assms(1) by simp
  then show "\<forall>d \<in> set (rev (sort (duplicate_marks Map.empty (i + 1) ?run))). d < length items"
    using duplicate_marks_bound[of _ Map.empty "i + 1" ?run] by fastforce
  show "rev (sort (duplicate_marks Map.empty (i + 1) ?run)) \<noteq> []" using assms(2) by (metis length_0_conv length_rev length_sort)
qed

function dedup_loop :: "nat \<Rightarrow> conversation \<Rightarrow> nat \<Rightarrow> conversation \<times> nat" where
  "dedup_loop i items total_removed =
     (if i < length items then
        (case items ! i of
           Assistant a \<Rightarrow>
             if ai_tool_calls a \<noteq> [] then
               let start = i + 1;
                   run = result_run (drop start items);
                   to_remove = duplicate_marks Map.empty start run
               in if to_remove \<noteq> [] then
                    dedup_loop i (fold remove_index (rev (sort to_remove)) items) (total_removed + length to_remove)
                  else dedup_loop (start + length run) items total_removed
             else dedup_loop (i + 1) items total_removed
         | _ \<Rightarrow> dedup_loop (i + 1) items total_removed)
      else (items, total_removed))"
  by pat_completeness auto
termination
  by (relation "measures [\<lambda>(i, items, t). length items, \<lambda>(i, items, t). length items - i]")
    (auto simp del: rev_is_Nil_conv simp: dedup_removal_shrinks[unfolded Suc_eq_plus1[symmetric]])

declare dedup_loop.simps [simp del]

definition dedup_duplicate_tool_results :: "conversation \<Rightarrow> conversation \<times> nat" where
  "dedup_duplicate_tool_results items = dedup_loop 0 items 0"

end
