(* ===== verification/History_Repair.thy ===== *)
theory History_Repair
  imports Conversation
begin

section \<open>Repairing a history (\<open>cf-chat-state/src/compaction_utils.rs\<close>)\<close>

text \<open>
  Providers reject a request in which a tool call has no result, two results, or a result no call right before
  it. The passes that restore the pairing, the check of it, and what they guarantee: each pass acts on the run
  of results after an assistant message, so the proofs are by induction on those runs (\<open>runs_induct\<close>), with
  \<open>map_runs\<close> as the reference every pass is shown equal to.
\<close>

subsection \<open>The passes\<close>

fun strip_from :: "str list \<Rightarrow> conversation \<Rightarrow> conversation \<times> str list" where
  "strip_from run_ids [] = ([], [])"
| "strip_from run_ids (Assistant a # rest) =
     (let (kept, stripped) = strip_from (map tc_id (ai_tool_calls a)) rest in (Assistant a # kept, stripped))"
| "strip_from run_ids (ToolResult t # rest) =
     (let (kept, stripped) = strip_from run_ids rest
      in if ti_tool_call_id t \<in> set run_ids then (ToolResult t # kept, stripped)
         else (kept, ti_tool_call_id t # stripped))"
| "strip_from run_ids (item # rest) =
     (let (kept, stripped) = strip_from [] rest in (item # kept, stripped))"

definition strip_displaced_tool_results :: "conversation \<Rightarrow> conversation \<times> str list" where
  "strip_displaced_tool_results items = strip_from [] items"

record history_repair_report =
  hr_duplicates_removed :: nat
  hr_stripped_tool_result_ids :: "str list"
  hr_synthetic_results_inserted :: nat

definition changed :: "history_repair_report \<Rightarrow> bool" where
  "changed r =
     (hr_duplicates_removed r > 0 \<or> hr_stripped_tool_result_ids r \<noteq> [] \<or> hr_synthetic_results_inserted r > 0)"

definition repair_history :: "conversation \<Rightarrow> conversation \<times> history_repair_report" where
  "repair_history items =
     (let (items1, duplicates_removed) = dedup_duplicate_tool_results items;
          (items2, stripped_tool_result_ids) = strip_displaced_tool_results items1;
          (items3, synthetic_results_inserted) =
            repair_dangling_tool_calls items2 (HarnessHalted ''history_repair'')
      in (items3, \<lparr>hr_duplicates_removed = duplicates_removed,
                   hr_stripped_tool_result_ids = stripped_tool_result_ids,
                   hr_synthetic_results_inserted = synthetic_results_inserted\<rparr>))"

subsection \<open>The check of a compacted history\<close>

fun validate_from :: "str set \<Rightarrow> conversation \<Rightarrow> str list" where
  "validate_from seen_ids [] = []"
| "validate_from seen_ids (Assistant a # rest) = validate_from (seen_ids \<union> tc_id ` set (ai_tool_calls a)) rest"
| "validate_from seen_ids (ToolResult t # rest) =
     (if ti_tool_call_id t \<notin> seen_ids then [ti_tool_call_id t] else []) @ validate_from seen_ids rest"
| "validate_from seen_ids (_ # rest) = validate_from seen_ids rest"

definition validate_compacted_history :: "conversation \<Rightarrow> str list" where
  "validate_compacted_history items = validate_from {} items"

record sanitize_result =
  sr_items :: conversation
  sr_stripped_tool_call_ids :: "str list"

fun sanitize_from :: "str set \<Rightarrow> conversation \<Rightarrow> conversation \<times> str list" where
  "sanitize_from seen_ids [] = ([], [])"
| "sanitize_from seen_ids (Assistant a # rest) =
     (let (kept, stripped) = sanitize_from (seen_ids \<union> tc_id ` set (ai_tool_calls a)) rest
      in (Assistant a # kept, stripped))"
| "sanitize_from seen_ids (ToolResult t # rest) =
     (let (kept, stripped) = sanitize_from seen_ids rest
      in if ti_tool_call_id t \<in> seen_ids then (ToolResult t # kept, stripped)
         else (kept, ti_tool_call_id t # stripped))"
| "sanitize_from seen_ids (item # rest) =
     (let (kept, stripped) = sanitize_from seen_ids rest in (item # kept, stripped))"

definition sanitize_compacted_history :: "conversation \<Rightarrow> sanitize_result" where
  "sanitize_compacted_history items =
     (let (kept, stripped) = sanitize_from {} items
      in \<lparr>sr_items = kept, sr_stripped_tool_call_ids = stripped\<rparr>)"

lemma sanitize_from_validates:
  "validate_from seen (fst (sanitize_from seen items)) = []
   \<and> snd (sanitize_from seen items) = validate_from seen items"
  by (induction seen items rule: sanitize_from.induct) (auto simp: case_prod_beta)

lemma sanitize_from_clean: "validate_from seen items = [] \<Longrightarrow> sanitize_from seen items = (items, [])"
  by (induction seen items rule: sanitize_from.induct) (auto simp: case_prod_beta split: if_splits)

subsection \<open>Runs\<close>

fun opens_run :: "conversation_item \<Rightarrow> bool" where
  "opens_run (Assistant a) = (ai_tool_calls a \<noteq> [])"
| "opens_run _ = False"

definition ends_run :: "conversation \<Rightarrow> bool" where
  "ends_run rest = (rest = [] \<or> \<not> is_tool_result (hd rest))"

lemma opens_run_iff: "opens_run item \<longleftrightarrow> (\<exists>a. item = Assistant a \<and> ai_tool_calls a \<noteq> [])"
  by (cases item) auto

lemma run_split:
  assumes "list_all is_tool_result run" "ends_run rest"
  shows "result_run (run @ rest) = run" "after_run (run @ rest) = rest"
  using assms by (cases rest; auto simp: result_run_def after_run_def ends_run_def list_all_iff)+

lemma run_join: "result_run items @ after_run items = items"
  by (simp add: result_run_def after_run_def)

lemma runs_of: "list_all is_tool_result (result_run items)" "ends_run (after_run items)"
  unfolding result_run_def after_run_def ends_run_def list_all_iff
  by (auto dest: set_takeWhileD) (metis dropWhile_eq_Nil_conv hd_dropWhile)

lemma runs_induct [case_names Nil Item Run]:
  assumes "P []"
    and "\<And>item rest. \<not> opens_run item \<Longrightarrow> P rest \<Longrightarrow> P (item # rest)"
    and "\<And>a run rest. ai_tool_calls a \<noteq> [] \<Longrightarrow> list_all is_tool_result run \<Longrightarrow> ends_run rest \<Longrightarrow> P rest
           \<Longrightarrow> P (Assistant a # run @ rest)"
  shows "P items"
proof (induction items rule: length_induct)
  case (1 items)
  show ?case
  proof (cases items)
    case Nil
    then show ?thesis using assms(1) by simp
  next
    case (Cons item rest)
    show ?thesis
    proof (cases "opens_run item")
      case False
      then show ?thesis using 1 Cons assms(2) by simp
    next
      case True
      then obtain a where a: "item = Assistant a" "ai_tool_calls a \<noteq> []" by (auto simp: opens_run_iff)
      have "P (after_run rest)" using 1 Cons length_after_run[of rest] by simp
      then show ?thesis using assms(3)[OF a(2) runs_of, of rest rest] Cons a(1) by (simp add: run_join)
    qed
  qed
qed

text \<open>The reference: each run replaced by what \<open>g\<close> makes of it, the other results kept or dropped.\<close>

function map_runs :: "(assistant_item \<Rightarrow> conversation \<Rightarrow> conversation) \<Rightarrow> bool \<Rightarrow> conversation \<Rightarrow> conversation" where
  "map_runs g orphans [] = []"
| "map_runs g orphans (item # rest) =
     (case item of
        Assistant a \<Rightarrow>
          if ai_tool_calls a \<noteq> [] then item # g a (result_run rest) @ map_runs g orphans (after_run rest)
          else item # map_runs g orphans rest
      | ToolResult t \<Rightarrow> (if orphans then [item] else []) @ map_runs g orphans rest
      | _ \<Rightarrow> item # map_runs g orphans rest)"
  by pat_completeness auto
termination
  by (relation "measure (\<lambda>(g, orphans, items). length items)") (auto simp: length_after_run le_imp_less_Suc)

declare map_runs.simps(2) [simp del]

lemma map_runs_item [simp]:
  "\<not> opens_run item \<Longrightarrow> map_runs g orphans (item # rest)
     = (if is_tool_result item \<and> \<not> orphans then [] else [item]) @ map_runs g orphans rest"
  by (cases item) (auto simp: map_runs.simps(2))

lemma map_runs_run [simp]:
  "ai_tool_calls a \<noteq> [] \<Longrightarrow> list_all is_tool_result run \<Longrightarrow> ends_run rest \<Longrightarrow>
   map_runs g orphans (Assistant a # run @ rest) = Assistant a # g a run @ map_runs g orphans rest"
  by (simp add: map_runs.simps(2) run_split)

lemma map_runs_ends: "ends_run rest \<Longrightarrow> ends_run (map_runs g orphans rest)"
  by (cases rest) (auto simp: ends_run_def map_runs.simps(2) split: conversation_item.splits)

definition of_results :: "(assistant_item \<Rightarrow> conversation \<Rightarrow> conversation) \<Rightarrow> bool" where
  "of_results g = (\<forall>a run. list_all is_tool_result run \<longrightarrow> list_all is_tool_result (g a run))"

lemma map_runs_map_runs:
  assumes "of_results f"
  shows "map_runs g o2 (map_runs f o1 items) = map_runs (\<lambda>a run. g a (f a run)) (o1 \<and> o2) items"
proof (induction items rule: runs_induct)
  case (Item item rest)
  then show ?case by (cases "is_tool_result item") auto
next
  case (Run a run rest)
  then have "list_all is_tool_result (f a run)" using assms by (simp add: of_results_def)
  with Run show ?case by (simp add: map_runs_ends)
qed simp

lemma map_runs_id: "(\<And>a run. list_all is_tool_result run \<Longrightarrow> g a run = run) \<Longrightarrow> map_runs g True items = items"
  by (induction items rule: runs_induct) auto

lemma map_runs_cong:
  "(\<And>a run. list_all is_tool_result run \<Longrightarrow> g a run = h a run) \<Longrightarrow> map_runs g o1 items = map_runs h o1 items"
  by (induction items rule: runs_induct) auto

text \<open>A property of every run, and no result outside the runs.\<close>

function all_runs :: "(assistant_item \<Rightarrow> conversation \<Rightarrow> bool) \<Rightarrow> conversation \<Rightarrow> bool" where
  "all_runs P [] = True"
| "all_runs P (item # rest) =
     (case item of
        Assistant a \<Rightarrow>
          if ai_tool_calls a \<noteq> [] then P a (result_run rest) \<and> all_runs P (after_run rest) else all_runs P rest
      | ToolResult t \<Rightarrow> False
      | _ \<Rightarrow> all_runs P rest)"
  by pat_completeness auto
termination
  by (relation "measure (\<lambda>(P, items). length items)") (auto simp: length_after_run le_imp_less_Suc)

declare all_runs.simps(2) [simp del]

lemma all_runs_item [simp]:
  "\<not> opens_run item \<Longrightarrow> all_runs P (item # rest) \<longleftrightarrow> \<not> is_tool_result item \<and> all_runs P rest"
  by (cases item) (auto simp: all_runs.simps(2))

lemma all_runs_run [simp]:
  "ai_tool_calls a \<noteq> [] \<Longrightarrow> list_all is_tool_result run \<Longrightarrow> ends_run rest \<Longrightarrow>
   all_runs P (Assistant a # run @ rest) \<longleftrightarrow> P a run \<and> all_runs P rest"
  by (simp add: all_runs.simps(2) run_split)

lemma all_runs_map_runs:
  assumes "of_results g" "\<And>a run. list_all is_tool_result run \<Longrightarrow> P a (g a run)"
  shows "all_runs P (map_runs g False items)"
proof (induction items rule: runs_induct)
  case (Run a run rest)
  then have "list_all is_tool_result (g a run)" using assms(1) by (simp add: of_results_def)
  with Run assms(2) show ?case by (simp add: map_runs_ends)
qed auto

lemma map_runs_fixed:
  assumes "all_runs P items" "\<And>a run. a \<in> {a. Assistant a \<in> set items} \<Longrightarrow> list_all is_tool_result run \<Longrightarrow> P a run \<Longrightarrow> g a run = run"
  shows "map_runs g orphans items = items"
  using assms by (induction items rule: runs_induct) auto

lemma map_runs_others:
  assumes "of_results g"
  shows "filter (\<lambda>i. \<not> is_tool_result i) (map_runs g orphans items) = filter (\<lambda>i. \<not> is_tool_result i) items"
proof (induction items rule: runs_induct)
  case (Run a run rest)
  then have "list_all is_tool_result (g a run)" using assms by (simp add: of_results_def)
  with Run show ?case by (auto simp: list_all_iff filter_empty_conv)
qed auto

subsection \<open>The passes are what the reference says\<close>

fun keep_last :: "conversation \<Rightarrow> conversation" where
  "keep_last [] = []"
| "keep_last (x # xs) = (if result_id x \<in> result_id ` set xs then keep_last xs else x # keep_last xs)"

lemma keep_last_subset: "set (keep_last run) \<subseteq> set run"
  by (induction run) auto

lemma keep_last_ids: "result_id ` set (keep_last run) = result_id ` set run"
  by (induction run) auto

lemma keep_last_fixed: "keep_last run = run \<longleftrightarrow> distinct (map result_id run)"
proof (induction run)
  case (Cons x xs)
  have "length (keep_last xs) \<le> length xs" by (induction xs) auto
  then have "keep_last xs \<noteq> x # xs" by (metis Suc_n_not_le_n length_Cons)
  with Cons show ?case by auto
qed simp

lemma keep_last_distinct: "distinct (map result_id (keep_last run))"
  by (induction run) (simp_all add: keep_last_ids)

lemma keep_last_idem [simp]: "keep_last (keep_last run) = keep_last run"
  by (simp add: keep_last_fixed keep_last_distinct)

lemma keep_last_nths: "keep_last run = nths run {j. j < length run \<and> result_id (run ! j) \<notin> result_id ` set (drop (Suc j) run)}"
proof (induction run)
  case (Cons x xs)
  have "{j. Suc j \<in> {j. j < length (x # xs) \<and> result_id ((x # xs) ! j) \<notin> result_id ` set (drop (Suc j) (x # xs))}}
      = {j. j < length xs \<and> result_id (xs ! j) \<notin> result_id ` set (drop (Suc j) xs)}" by auto
  with Cons show ?case by (simp add: nths_Cons)
qed simp

lemma ex_split: "(\<And>k. Q k \<Longrightarrow> R k) \<Longrightarrow> R a \<or> (\<exists>k. Q k) \<longleftrightarrow> R a \<or> (\<exists>k. k \<noteq> a \<and> Q k)"
  by metis

lemma nths_eq: "(\<And>i. i < length xs \<Longrightarrow> i \<in> A \<longleftrightarrow> i \<in> B) \<Longrightarrow> nths xs A = nths xs B"
proof (induction xs arbitrary: A B)
  case (Cons x xs)
  have "nths xs {j. Suc j \<in> A} = nths xs {j. Suc j \<in> B}" by (rule Cons.IH) (use Cons.prems in auto)
  moreover have "0 \<in> A \<longleftrightarrow> 0 \<in> B" using Cons.prems by simp
  ultimately show ?case by (simp add: nths_Cons)
qed simp

lemma marks_iff:
  assumes "list_all is_tool_result run" "\<forall>k j. seen k = Some j \<longrightarrow> j < idx"
  shows "m \<in> set (duplicate_marks seen idx run) \<longleftrightarrow>
     (\<exists>k. Some k \<in> result_id ` set run \<and> seen k = Some m)
     \<or> (idx \<le> m \<and> m < idx + length run \<and> result_id (run ! (m - idx)) \<in> result_id ` set (drop (Suc (m - idx)) run))"
  using assms
proof (induction run arbitrary: seen idx)
  case Nil
  then show ?case by simp
next
  case (Cons x xs)
  then obtain t where t: "x = ToolResult t" by (cases x) auto
  let ?id = "ti_tool_call_id t"
  let ?seen = "seen(?id \<mapsto> idx)"
  have IH: "m \<in> set (duplicate_marks ?seen (idx + 1) xs) \<longleftrightarrow>
     (\<exists>k. Some k \<in> result_id ` set xs \<and> ?seen k = Some m)
     \<or> (idx + 1 \<le> m \<and> m < idx + 1 + length xs
         \<and> result_id (xs ! (m - (idx + 1))) \<in> result_id ` set (drop (Suc (m - (idx + 1))) xs))"
    using Cons.prems by (intro Cons.IH) (auto intro: less_SucI)
  have head: "m \<in> set (duplicate_marks seen idx (x # xs)) \<longleftrightarrow>
      seen ?id = Some m \<or> m \<in> set (duplicate_marks ?seen (idx + 1) xs)"
    using t by (auto split: option.split)
  have old: "seen k = Some m \<Longrightarrow> m < idx" for k using Cons.prems(2) by blast
  have earlier: "(\<exists>k. Some k \<in> result_id ` set (x # xs) \<and> seen k = Some m)
      \<longleftrightarrow> seen ?id = Some m \<or> (\<exists>k. Some k \<in> result_id ` set xs \<and> seen k = Some m)" using t by auto
  have updated: "(\<exists>k. Some k \<in> result_id ` set xs \<and> ?seen k = Some m)
      \<longleftrightarrow> (m = idx \<and> Some ?id \<in> result_id ` set xs) \<or> (\<exists>k. k \<noteq> ?id \<and> Some k \<in> result_id ` set xs \<and> seen k = Some m)"
    by auto
  consider "m < idx" | "m = idx" | d where "m = idx + Suc d" using less_iff_Suc_add by (metis nat_neq_iff add_Suc_right)
  then show ?case
  proof cases
    case 1
    have "seen ?id = Some m \<or> (\<exists>k. Some k \<in> result_id ` set xs \<and> seen k = Some m)
        \<longleftrightarrow> seen ?id = Some m \<or> (\<exists>k. k \<noteq> ?id \<and> Some k \<in> result_id ` set xs \<and> seen k = Some m)"
      using ex_split[of "\<lambda>k. Some k \<in> result_id ` set xs \<and> seen k = Some m" "\<lambda>k. seen k = Some m" ?id] by simp
    with 1 show ?thesis unfolding head IH earlier updated by simp
  next
    case 2
    then show ?thesis unfolding head IH earlier updated using t old by auto
  next
    case 3
    then show ?thesis unfolding head IH earlier updated using t old by fastforce
  qed
qed

lemma marks_distinct:
  assumes "list_all is_tool_result run" "\<forall>k j. seen k = Some j \<longrightarrow> j < idx"
    "\<forall>k k' j. seen k = Some j \<and> seen k' = Some j \<longrightarrow> k = k'"
  shows "distinct (duplicate_marks seen idx run)"
  using assms
proof (induction run arbitrary: seen idx)
  case Nil
  then show ?case by simp
next
  case (Cons x xs)
  then obtain t where t: "x = ToolResult t" by (cases x) auto
  let ?id = "ti_tool_call_id t"
  let ?seen = "seen(?id \<mapsto> idx)"
  have less: "\<forall>k j. ?seen k = Some j \<longrightarrow> j < idx + 1" using Cons.prems(2) by (auto intro: less_SucI)
  have xs: "list_all is_tool_result xs" using Cons.prems(1) by simp
  have "distinct (duplicate_marks ?seen (idx + 1) xs)"
  proof (rule Cons.IH[OF xs less], intro allI impI)
    fix k k' j
    assume kk: "?seen k = Some j \<and> ?seen k' = Some j"
    then show "k = k'" using Cons.prems(2,3) by (cases "k = ?id"; cases "k' = ?id") auto
  qed
  moreover have "p \<notin> set (duplicate_marks ?seen (idx + 1) xs)" if "seen ?id = Some p" for p
    using that Cons.prems(2,3) unfolding marks_iff[OF xs less] by (fastforce split: if_splits)
  ultimately show ?case using t by (auto split: option.split)
qed

lemma nths_take_drop:
  assumes "d < length xs" "\<forall>j < d. j \<in> A" "d \<in> A"
  shows "remove_index d (nths xs A) = nths xs (A - {d})"
proof -
  have xs: "xs = take d xs @ xs ! d # drop (Suc d) xs" using assms(1) by (rule id_take_nth_drop)
  have len: "length (take d xs) = d" using assms(1) by simp
  have pre: "nths (take d xs) B = take d xs" if "\<forall>j < d. j \<in> B" for B
    using that len by (intro nths_all) auto
  have "nths xs A = take d xs @ xs ! d # nths (drop (Suc d) xs) {j. j + Suc d \<in> A}"
    by (subst xs, subst nths_append) (use assms len pre[of A] in \<open>simp add: nths_Cons\<close>)
  moreover have "nths xs (A - {d}) = take d xs @ nths (drop (Suc d) xs) {j. j + Suc d \<in> A}"
    by (subst xs, subst nths_append) (use assms len pre[of "A - {d}"] in \<open>simp add: nths_Cons\<close>)
  ultimately show ?thesis using len by (simp add: remove_index_def)
qed

lemma remove_descending:
  assumes "sorted ds" "distinct ds" "\<forall>d \<in> set ds. d < length xs"
  shows "fold remove_index (rev ds) xs = nths xs (- set ds)"
  using assms
proof (induction ds)
  case Nil
  then show ?case by (simp add: nths_all)
next
  case (Cons d ds)
  have "\<forall>j < d. j \<in> - set ds" using Cons.prems(1) by auto
  moreover have "d \<in> - set ds" using Cons.prems(2) by simp
  moreover have "- set ds - {d} = - set (d # ds)" by auto
  ultimately show ?case using Cons nths_take_drop[of d xs "- set ds"] by simp
qed

text \<open>What one removal does to the run it is about.\<close>

lemma dedup_removal:
  fixes pre run rest :: conversation
  assumes "list_all is_tool_result run"
  defines "marks \<equiv> duplicate_marks Map.empty (length pre) run"
  shows "fold remove_index (rev (sort marks)) (pre @ run @ rest) = pre @ keep_last run @ rest"
    and "length marks + length (keep_last run) = length run"
proof -
  let ?K = "{j. j < length run \<and> result_id (run ! j) \<notin> result_id ` set (drop (Suc j) run)}"
  have marks: "m \<in> set marks \<longleftrightarrow> length pre \<le> m \<and> m < length pre + length run \<and> m - length pre \<notin> ?K" for m
    unfolding marks_def marks_iff[OF assms(1), of Map.empty "length pre", simplified] by auto
  have distinct: "distinct marks" unfolding marks_def by (rule marks_distinct[OF assms(1)]) auto
  have "fold remove_index (rev (sort marks)) (pre @ run @ rest) = nths (pre @ run @ rest) (- set marks)"
    using remove_descending[of "sort marks" "pre @ run @ rest"] distinct marks by simp
  also have "\<dots> = pre @ nths run {j. j + length pre \<in> - set marks} @ rest"
    unfolding nths_append using marks by (auto simp: nths_all)
  also have "nths run {j. j + length pre \<in> - set marks} = nths run ?K"
    using marks by (intro nths_eq) auto
  finally show "fold remove_index (rev (sort marks)) (pre @ run @ rest) = pre @ keep_last run @ rest"
    by (simp only: keep_last_nths)
  have "set marks = (\<lambda>j. length pre + j) ` ({..<length run} - ?K)"
  proof (rule set_eqI, rule iffI)
    fix m
    assume "m \<in> set marks"
    then have "length pre \<le> m" "m - length pre \<in> {..<length run} - ?K" unfolding marks by auto
    then show "m \<in> (\<lambda>j. length pre + j) ` ({..<length run} - ?K)" by (intro image_eqI[of m _ "m - length pre"]) auto
  next
    fix m
    assume "m \<in> (\<lambda>j. length pre + j) ` ({..<length run} - ?K)"
    then show "m \<in> set marks" unfolding marks by auto
  qed
  then have "length marks = card ({..<length run} - ?K)"
    using distinct_card[OF distinct] card_image[of "\<lambda>j. length pre + j" "{..<length run} - ?K"] by (simp add: inj_on_def)
  also have "\<dots> = length run - card ?K" by (subst card_Diff_subset) auto
  finally have "length marks = length run - card ?K" .
  moreover have "length (keep_last run) = card ?K"
    unfolding keep_last_nths length_nths by (rule arg_cong[where f = card]) auto
  moreover have "card ?K \<le> card {..<length run}" by (rule card_mono) auto
  ultimately show "length marks + length (keep_last run) = length run" by simp
qed

lemma marks_empty: "list_all is_tool_result run \<Longrightarrow> duplicate_marks Map.empty i run = [] \<longleftrightarrow> keep_last run = run"
proof -
  assume run: "list_all is_tool_result run"
  have "i + j \<in> set (duplicate_marks Map.empty i run) \<longleftrightarrow>
      j < length run \<and> result_id (run ! j) \<in> result_id ` set (drop (Suc j) run)" for j
    using marks_iff[OF run, of Map.empty i "i + j"] by simp
  moreover have "m \<in> set (duplicate_marks Map.empty i run) \<Longrightarrow> i \<le> m" for m
    using marks_iff[OF run, of Map.empty i m] by simp
  ultimately have "duplicate_marks Map.empty i run = [] \<longleftrightarrow>
      (\<forall>j < length run. result_id (run ! j) \<notin> result_id ` set (drop (Suc j) run))"
    by (metis le_add_diff_inverse list.set_intros(1) neq_Nil_conv empty_iff list.set(1))
  also have "\<dots> \<longleftrightarrow> keep_last run = run"
  proof
    assume "\<forall>j < length run. result_id (run ! j) \<notin> result_id ` set (drop (Suc j) run)"
    then show "keep_last run = run" unfolding keep_last_nths by (simp add: nths_all)
  next
    assume "keep_last run = run"
    then have "distinct (map result_id run)" by (simp add: keep_last_fixed)
    then show "\<forall>j < length run. result_id (run ! j) \<notin> result_id ` set (drop (Suc j) run)"
      by (auto simp: distinct_conv_nth in_set_conv_nth)
  qed
  finally show ?thesis .
qed

abbreviation dedup_run :: "assistant_item \<Rightarrow> conversation \<Rightarrow> conversation" where
  "dedup_run \<equiv> \<lambda>a run. keep_last run"

lemma dedup_run_scan:
  assumes "ai_tool_calls a \<noteq> []" "list_all is_tool_result run" "ends_run rest"
  shows "dedup_loop (length pre) (pre @ Assistant a # run @ rest) total_removed
       = (if keep_last run = run
          then dedup_loop (length (pre @ Assistant a # run)) ((pre @ Assistant a # run) @ rest) total_removed
          else dedup_loop (length pre) (pre @ Assistant a # keep_last run @ rest)
                 (total_removed + (length run - length (keep_last run))))"
proof -
  let ?pre = "pre @ [Assistant a]"
  let ?marks = "duplicate_marks Map.empty (length ?pre) run"
  have "fold remove_index (rev (sort ?marks)) (?pre @ run @ rest) = ?pre @ keep_last run @ rest"
    and "length ?marks = length run - length (keep_last run)" "length (keep_last run) \<le> length run"
    using dedup_removal(1)[OF assms(2), where pre = ?pre and rest = rest]
      dedup_removal(2)[OF assms(2), where pre = ?pre] by auto
  then show ?thesis using assms marks_empty[OF assms(2), of "length ?pre"]
    by (subst dedup_loop.simps) (auto simp: run_split nth_append Let_def)
qed


lemma keep_last_results: "list_all is_tool_result run \<Longrightarrow> list_all is_tool_result (keep_last run)"
  using keep_last_subset by (fastforce simp: list_all_iff)

lemma keep_last_length: "length (keep_last run) \<le> length run"
  by (induction run) auto

lemma map_dedup_length: "length (map_runs dedup_run True items) \<le> length items"
  by (induction items rule: runs_induct) (auto intro: add_mono keep_last_length)

lemma dedup_loop_runs:
  "dedup_loop (length pre) (pre @ items) total_removed
   = (pre @ map_runs dedup_run True items,
      total_removed + (length items - length (map_runs dedup_run True items)))"
proof (induction items arbitrary: pre total_removed rule: runs_induct)
  case Nil
  then show ?case by (subst dedup_loop.simps) simp
next
  case (Item item rest)
  have "dedup_loop (length pre) (pre @ item # rest) total_removed
      = dedup_loop (length (pre @ [item])) ((pre @ [item]) @ rest) total_removed"
    using Item(1) by (subst dedup_loop.simps) (auto split: conversation_item.split)
  with Item(1) Item(2)[of "pre @ [item]"] show ?case by simp
next
  case (Run a run rest)
  note scan = dedup_run_scan[OF Run(1) _ Run(3)]
  have clean: "dedup_loop (length pre) (pre @ Assistant a # run' @ rest) t
      = (pre @ Assistant a # run' @ map_runs dedup_run True rest,
         t + (length rest - length (map_runs dedup_run True rest)))"
    if "keep_last run' = run'" "list_all is_tool_result run'" for run' t
    using scan[OF that(2), of pre t] that(1) Run.IH[of "pre @ Assistant a # run'" t] by simp
  show ?case
  proof (cases "keep_last run = run")
    case True
    then show ?thesis using clean[OF True Run(2)] Run by simp
  next
    case False
    then show ?thesis
      using scan[OF Run(2), of pre total_removed] clean[OF keep_last_idem keep_last_results[OF Run(2)]] Run(1-3)
        keep_last_length[of run] map_dedup_length[of rest] by simp
  qed
qed

lemma dedup_is_keep_last:
  "dedup_duplicate_tool_results items
   = (map_runs dedup_run True items, length items - length (map_runs dedup_run True items))"
  using dedup_loop_runs[of "[]" items 0] by (simp add: dedup_duplicate_tool_results_def)

text \<open>The answers inserted after a run.\<close>

definition fill_run :: "dangling_tool_call_reason \<Rightarrow> assistant_item \<Rightarrow> conversation \<Rightarrow> conversation" where
  "fill_run reason a run = run @ synthetic_results (ai_tool_calls a) (answered_ids run) reason"

lemma synthetic_are_results: "list_all is_tool_result (synthetic_results calls answered reason)"
  by (auto simp: synthetic_results_def tool_result_def list_all_iff)

lemma synthetic_empty_iff: "synthetic_results calls answered reason = [] \<longleftrightarrow> tc_id ` set calls \<subseteq> set answered"
  by (auto simp: synthetic_results_def filter_empty_conv)

lemma of_results_passes:
  "of_results dedup_run" "of_results (fill_run reason)"
  by (auto simp: of_results_def keep_last_results fill_run_def synthetic_are_results)

lemma repair_sites_item [simp]: "\<not> opens_run item \<Longrightarrow> repair_sites i (item # rest) reason = repair_sites (i + 1) rest reason"
  by (cases item) (auto simp: repair_sites.simps(2))

lemma repair_sites_run [simp]:
  "ai_tool_calls a \<noteq> [] \<Longrightarrow> list_all is_tool_result run \<Longrightarrow> ends_run rest \<Longrightarrow>
   repair_sites i (Assistant a # run @ rest) reason
   = (if synthetic_results (ai_tool_calls a) (answered_ids run) reason \<noteq> []
      then [(i + 1 + length run, synthetic_results (ai_tool_calls a) (answered_ids run) reason)] else [])
     @ repair_sites (i + 1 + length run) rest reason"
  by (simp add: repair_sites.simps(2) run_split Let_def)

lemma splice_runs:
  "foldr (\<lambda>(insert_at, synthetic). splice_at insert_at synthetic) (repair_sites (length pre) items reason) (pre @ items)
   = pre @ map_runs (fill_run reason) True items"
proof (induction items arbitrary: pre rule: runs_induct)
  case Nil
  then show ?case by simp
next
  case (Item item rest)
  then show ?case using Item(2)[of "pre @ [item]"] by simp
next
  case (Run a run rest)
  let ?pre = "pre @ Assistant a # run"
  have "foldr (\<lambda>(insert_at, synthetic). splice_at insert_at synthetic) (repair_sites (length ?pre) rest reason) (?pre @ rest)
      = ?pre @ map_runs (fill_run reason) True rest" by (rule Run.IH)
  moreover have "splice_at (length ?pre) new (?pre @ items) = ?pre @ new @ items" for new items
    by (simp add: splice_at_def)
  ultimately show ?case using Run(1-3) by (simp add: fill_run_def[of reason a run])
qed

lemma sites_length:
  "length items + sum_list (map (\<lambda>(insert_at, synthetic). length synthetic) (repair_sites i items reason))
   = length (map_runs (fill_run reason) True items)"
  by (induction items arbitrary: i rule: runs_induct) (auto simp: fill_run_def)

lemma repair_is_fill:
  "repair_dangling_tool_calls items reason
   = (map_runs (fill_run reason) True items, length (map_runs (fill_run reason) True items) - length items)"
  using splice_runs[of "[]" items reason] sites_length[of items 0 reason]
  by (simp add: repair_dangling_tool_calls_def Let_def foldr_conv_fold)

lemma has_dangling_item [simp]: "\<not> opens_run item \<Longrightarrow> has_dangling_tool_calls (item # rest) = has_dangling_tool_calls rest"
  by (cases item) (auto simp: has_dangling_tool_calls.simps(2))

lemma has_dangling_run [simp]:
  "ai_tool_calls a \<noteq> [] \<Longrightarrow> list_all is_tool_result run \<Longrightarrow> ends_run rest \<Longrightarrow>
   has_dangling_tool_calls (Assistant a # run @ rest)
   \<longleftrightarrow> synthetic_results (ai_tool_calls a) (answered_ids run) reason \<noteq> [] \<or> has_dangling_tool_calls rest"
  by (auto simp: has_dangling_tool_calls.simps(2) run_split synthetic_results_def filter_empty_conv)

lemma has_dangling_sites: "has_dangling_tool_calls items \<longleftrightarrow> repair_sites i items reason \<noteq> []"
proof (induction items arbitrary: i rule: runs_induct)
  case (Run a run rest)
  then show ?case using has_dangling_run[OF Run(1-3), of reason] by auto
qed simp_all

declare has_dangling_run [simp del]

text \<open>The strip keeps of each run the results of its calls and nothing else.\<close>

definition own_results :: "assistant_item \<Rightarrow> conversation \<Rightarrow> conversation" where
  "own_results a run = filter (\<lambda>r. result_id r \<in> Some ` tc_id ` set (ai_tool_calls a)) run"

lemma strip_ends: "ends_run rest \<Longrightarrow> strip_from run_ids rest = strip_from [] rest"
  by (cases rest; cases "hd rest") (auto simp: ends_run_def)

lemma strip_run:
  assumes "list_all is_tool_result run" "ends_run rest"
  shows "fst (strip_from (map tc_id (ai_tool_calls a)) (run @ rest)) = own_results a run @ fst (strip_from [] rest)"
  using assms
proof (induction run)
  case Nil
  then show ?case using strip_ends[of rest "map tc_id (ai_tool_calls a)"] by (simp add: own_results_def)
next
  case (Cons r run)
  then obtain t where t: "r = ToolResult t" by (cases r) auto
  have IH: "fst (strip_from (map tc_id (ai_tool_calls a)) (run @ rest)) = own_results a run @ fst (strip_from [] rest)"
    using Cons by simp
  obtain kept stripped where "strip_from (map tc_id (ai_tool_calls a)) (run @ rest) = (kept, stripped)"
    by (rule prod.exhaust)
  with IH t show ?case by (auto simp: own_results_def)
qed

lemma strip_length: "length (fst (strip_from run_ids items)) + length (snd (strip_from run_ids items)) = length items"
  by (induction run_ids items rule: strip_from.induct) (auto simp: case_prod_beta)

lemma strip_is_own: "fst (strip_displaced_tool_results items) = map_runs own_results False items"
  unfolding strip_displaced_tool_results_def
proof (induction items rule: runs_induct)
  case (Item item rest)
  then show ?case by (cases item) (auto simp: case_prod_beta)
next
  case (Run a run rest)
  then show ?case by (simp add: strip_run case_prod_beta)
qed simp

subsection \<open>What a repair guarantees\<close>

lemma of_results_own: "of_results own_results"
  by (auto simp: of_results_def own_results_def list_all_iff)

definition repair_run :: "assistant_item \<Rightarrow> conversation \<Rightarrow> conversation" where
  "repair_run a run = fill_run (HarnessHalted ''history_repair'') a (own_results a (keep_last run))"

lemma of_results_repair: "of_results repair_run"
  using of_results_passes of_results_own by (simp add: of_results_def repair_run_def)

lemma repair_history_runs: "fst (repair_history items) = map_runs repair_run False items"
proof -
  have "fst (repair_history items)
      = map_runs (fill_run (HarnessHalted ''history_repair'')) True (map_runs own_results False (map_runs dedup_run True items))"
    by (simp add: repair_history_def dedup_is_keep_last repair_is_fill strip_is_own[symmetric] case_prod_beta)
  also have "\<dots> = map_runs (\<lambda>a run. fill_run (HarnessHalted ''history_repair'') a (own_results a run)) False
                    (map_runs dedup_run True items)"
    by (simp add: map_runs_map_runs[OF of_results_own])
  also have "\<dots> = map_runs repair_run False items"
    unfolding map_runs_map_runs[OF of_results_passes(1)] by (simp add: repair_run_def[abs_def])
  finally show ?thesis .
qed

text \<open>Every call of the run has a result, every result answers a call of the run, and no call has two.\<close>

definition answers :: "assistant_item \<Rightarrow> conversation \<Rightarrow> bool" where
  "answers a run \<longleftrightarrow>
     set (answered_ids run) = tc_id ` set (ai_tool_calls a)
     \<and> (distinct (map tc_id (ai_tool_calls a)) \<longrightarrow> distinct (answered_ids run))"

abbreviation well_paired :: "conversation \<Rightarrow> bool" where
  "well_paired \<equiv> all_runs answers"

lemma answered_ids_Cons [simp]:
  "answered_ids (ToolResult t # run) = ti_tool_call_id t # answered_ids run"
  by (simp add: answered_ids_def)

lemma answered_ids_append [simp]: "answered_ids (run @ run') = answered_ids run @ answered_ids run'"
  by (simp add: answered_ids_def List.map_filter_def)

lemma answered_ids_synthetic [simp]:
  "answered_ids (synthetic_results calls answered reason) = filter (\<lambda>i. i \<notin> set answered) (map tc_id calls)"
  by (induction calls) (auto simp: synthetic_results_def answered_ids_def tool_result_def)

lemma result_id_answered: "list_all is_tool_result run \<Longrightarrow> map result_id run = map Some (answered_ids run)"
proof (induction run)
  case (Cons r run)
  then show ?case by (cases r) auto
qed (simp add: answered_ids_def)

lemma answered_ids_own:
  "list_all is_tool_result run \<Longrightarrow> answered_ids (own_results a run) = filter (\<lambda>i. i \<in> tc_id ` set (ai_tool_calls a)) (answered_ids run)"
proof (induction run)
  case (Cons r run)
  then show ?case by (cases r) (auto simp: own_results_def)
qed (simp add: own_results_def answered_ids_def)

lemma distinct_answers: "list_all is_tool_result run \<Longrightarrow> distinct (answered_ids (keep_last run))"
  using keep_last_distinct[of run] result_id_answered[OF keep_last_results[of run]]
  by (metis distinct_map)

lemma repair_run_answers: "list_all is_tool_result run \<Longrightarrow> answers a (repair_run a run)"
  using distinct_answers[of run]
  by (auto simp: answers_def repair_run_def fill_run_def answered_ids_own keep_last_results)

lemma keep_last_answers: "list_all is_tool_result run \<Longrightarrow> distinct (answered_ids run) \<Longrightarrow> keep_last run = run"
  by (simp add: keep_last_fixed result_id_answered distinct_map)

lemma answers_fixed:
  assumes "list_all is_tool_result run" "answers a run" "distinct (map tc_id (ai_tool_calls a))"
  shows "repair_run a run = run"
proof -
  have keep: "keep_last run = run" using assms by (intro keep_last_answers) (auto simp: answers_def)
  have "result_id r \<in> Some ` tc_id ` set (ai_tool_calls a)" if "r \<in> set run" for r
  proof -
    have "result_id r \<in> set (map Some (answered_ids run))"
      using that result_id_answered[OF assms(1)] by (metis in_set_conv_nth length_map nth_map nth_mem)
    then show ?thesis using assms(2) by (auto simp: answers_def)
  qed
  then have "own_results a run = run" by (simp add: own_results_def filter_id_conv)
  moreover have "synthetic_results (ai_tool_calls a) (answered_ids run) r = []" for r
    using assms(2) by (auto simp: synthetic_results_def answers_def filter_empty_conv)
  ultimately show ?thesis using keep by (simp add: repair_run_def fill_run_def)
qed

text \<open>The synthetic results a repair may put in, and the results that survive it.\<close>

lemma repair_run_results:
  "r \<in> set (repair_run a run) \<Longrightarrow> r \<in> set run
     \<or> (\<exists>tc \<in> set (ai_tool_calls a). r = tool_result (tc_id tc) (synthetic_dangling_result_text (tc_name tc) (HarnessHalted ''history_repair'')))"
  using keep_last_subset[of run]
  by (auto simp: repair_run_def fill_run_def own_results_def synthetic_results_def)

definition repair_answer :: "tool_call \<Rightarrow> conversation_item" where
  "repair_answer tc = tool_result (tc_id tc) (synthetic_dangling_result_text (tc_name tc) (HarnessHalted ''history_repair''))"

lemma repair_history_results:
  "set (map_runs repair_run False items)
     \<subseteq> set items \<union> {repair_answer tc | a tc. Assistant a \<in> set items \<and> tc \<in> set (ai_tool_calls a)}"
proof (induction items rule: runs_induct)
  case (Item item rest)
  then have "set (map_runs repair_run False (item # rest)) \<subseteq> {item} \<union> set (map_runs repair_run False rest)" by auto
  also have "\<dots> \<subseteq> {item} \<union> (set rest \<union> {repair_answer tc | a tc. Assistant a \<in> set rest \<and> tc \<in> set (ai_tool_calls a)})"
    using Item(2) by blast
  finally show ?case by fastforce
next
  case (Run a run rest)
  then show ?case using repair_run_results[of _ a run] by (simp add: repair_answer_def) blast
qed simp

lemma repair_history_balance:
  "length (fst (repair_history items)) + hr_duplicates_removed (snd (repair_history items))
     + length (hr_stripped_tool_result_ids (snd (repair_history items)))
   = length items + hr_synthetic_results_inserted (snd (repair_history items))"
proof -
  let ?d = "map_runs dedup_run True items"
  let ?s = "fst (strip_displaced_tool_results ?d)"
  have "length ?s + length (snd (strip_displaced_tool_results ?d)) = length ?d"
    unfolding strip_displaced_tool_results_def by (rule strip_length)
  moreover have "length ?s \<le> length (map_runs (fill_run (HarnessHalted ''history_repair'')) True ?s)"
    using sites_length[of ?s 0 "HarnessHalted ''history_repair''"] by simp
  ultimately show ?thesis using map_dedup_length[of items]
    by (simp add: repair_history_def dedup_is_keep_last repair_is_fill case_prod_beta)
qed

lemma assistants_kept: "Assistant a \<in> set (fst (repair_history items)) \<Longrightarrow> Assistant a \<in> set items"
proof -
  assume "Assistant a \<in> set (fst (repair_history items))"
  then have "Assistant a \<in> set (filter (\<lambda>i. \<not> is_tool_result i) (map_runs repair_run False items))"
    by (simp add: repair_history_runs)
  then show ?thesis unfolding map_runs_others[OF of_results_repair] by simp
qed

lemma repaired_well_paired: "well_paired (map_runs repair_run False items)"
  by (rule all_runs_map_runs[where P = answers, OF of_results_repair]) (rule repair_run_answers)

text \<open>C25: Repairing a history restores the pairing providers insist on, whatever shape it was in: after it, the
  results behind every assistant message with tool calls answer exactly those calls, none twice when the
  identifiers of the calls differ, and no other result is left; every item that is not a result is kept, in
  order; a result is one that was there or the synthetic answer to a call; and the report accounts for the
  difference in length.\<close>

theorem repair_history_pairs:
  "well_paired (fst (repair_history items))
   \<and> filter (\<lambda>i. \<not> is_tool_result i) (fst (repair_history items)) = filter (\<lambda>i. \<not> is_tool_result i) items
   \<and> set (fst (repair_history items))
       \<subseteq> set items \<union> {repair_answer tc | a tc. Assistant a \<in> set items \<and> tc \<in> set (ai_tool_calls a)}
   \<and> length (fst (repair_history items)) + hr_duplicates_removed (snd (repair_history items))
       + length (hr_stripped_tool_result_ids (snd (repair_history items)))
     = length items + hr_synthetic_results_inserted (snd (repair_history items))"
  using repair_history_balance[of items] repaired_well_paired[of items]
    map_runs_others[OF of_results_repair, of False items] repair_history_results[of items]
  by (simp add: repair_history_runs)

lemma map_runs_same_length:
  assumes "map_runs repair_run False items = items" "all_runs answers items"
    "\<And>a. Assistant a \<in> set items \<Longrightarrow> distinct (map tc_id (ai_tool_calls a))"
  shows "map_runs dedup_run True items = items" "map_runs own_results False items = items"
    "map_runs (fill_run reason) True items = items"
proof -
  show "map_runs dedup_run True items = items"
    by (rule map_runs_fixed[OF assms(2)]) (use assms(3) in \<open>auto simp: answers_def intro: keep_last_answers\<close>)
  have fixed: "own_results a run = run \<and> fill_run reason a run = run"
    if "Assistant a \<in> set items" "list_all is_tool_result run" "answers a run" for a run
  proof -
    have "keep_last run = run" using that assms(3) by (auto simp: answers_def intro: keep_last_answers)
    moreover have "synthetic_results (ai_tool_calls a) (answered_ids run) r = []" for r
      using that(3) by (auto simp: synthetic_results_def answers_def filter_empty_conv)
    moreover have "repair_run a run = run" using that assms(3) by (intro answers_fixed) auto
    moreover have "length (own_results a run) \<le> length run" by (simp add: own_results_def)
    moreover have "set (answered_ids (own_results a run)) = set (answered_ids run)"
      using that(2,3) by (auto simp: answered_ids_own answers_def)
    ultimately show ?thesis by (simp add: repair_run_def fill_run_def synthetic_results_def)
  qed
  then show "map_runs own_results False items = items"
    by (intro map_runs_fixed[OF assms(2)]) auto
  show "map_runs (fill_run reason) True items = items"
    using fixed by (intro map_runs_fixed[OF assms(2)]) auto
qed

text \<open>A repaired history is left alone by a second repair, which reports no change, when no assistant message
  gives two of its calls one identifier.\<close>

theorem repair_history_idempotent:
  assumes "\<And>a. Assistant a \<in> set items \<Longrightarrow> distinct (map tc_id (ai_tool_calls a))"
  shows "fst (repair_history (fst (repair_history items))) = fst (repair_history items)
       \<and> \<not> changed (snd (repair_history (fst (repair_history items))))"
proof -
  let ?r = "fst (repair_history items)"
  have paired: "all_runs answers ?r"
    using repaired_well_paired by (simp add: repair_history_runs)
  have distinct: "\<And>a. Assistant a \<in> set ?r \<Longrightarrow> distinct (map tc_id (ai_tool_calls a))"
    using assms assistants_kept by blast
  have same: "map_runs repair_run False ?r = ?r"
    by (rule map_runs_fixed[OF paired]) (use distinct in \<open>auto intro: answers_fixed\<close>)
  note ids = map_runs_same_length[OF same paired distinct]
  have "length (snd (strip_displaced_tool_results ?r)) = 0"
    using strip_length[of "[]" ?r] ids(2) unfolding strip_is_own[symmetric]
    by (simp add: strip_displaced_tool_results_def)
  then show ?thesis using ids
    by (simp add: repair_history_def dedup_is_keep_last repair_is_fill case_prod_beta changed_def strip_is_own)
qed

definition call :: "str \<Rightarrow> str \<Rightarrow> tool_call" where
  "call i name = \<lparr>tc_id = i, tc_name = name, tc_arguments = ''{}''\<rparr>"

theorem repair_history_idempotent_witness:
  "let items = [tool_result ''x'' ''lost'', assistant_tool_calls [call ''a'' ''read_file'', call ''b'' ''grep''],
                tool_result ''a'' ''one'', tool_result ''a'' ''two'', user ''stop'']
   in fst (repair_history (fst (repair_history items))) = fst (repair_history items)
      \<and> \<not> changed (snd (repair_history (fst (repair_history items))))"
  unfolding Let_def
  by (rule repair_history_idempotent)
    (auto simp: tool_result_def assistant_tool_calls_def assistant_calls_def user_def call_def)

text \<open>Without that condition the synthetic answers of one repair are the duplicates the next one removes.\<close>

lemma repair_twice_with_equal_ids:
  "let items = [assistant_tool_calls [call ''a'' ''read_file'', call ''a'' ''grep'']]
   in changed (snd (repair_history (fst (repair_history items))))"
proof -
  let ?a = "\<lparr>ai_content = [], ai_tool_calls = [call ''a'' ''read_file'', call ''a'' ''grep''],
             ai_model_id = None, ai_model_fingerprint = None, ai_reasoning_effort = None\<rparr>"
  let ?r = "[repair_answer (call ''a'' ''read_file''), repair_answer (call ''a'' ''grep'')]"
  have results: "list_all is_tool_result ?r" by (simp add: repair_answer_def tool_result_def)
  have "fst (repair_history [Assistant ?a]) = Assistant ?a # ?r"
    using map_runs_run[of ?a "[]" "[]" repair_run False]
    by (simp add: repair_history_runs ends_run_def repair_run_def fill_run_def own_results_def synthetic_results_def
        answered_ids_def repair_answer_def call_def)
  moreover have "map_runs dedup_run True (Assistant ?a # ?r) = [Assistant ?a, repair_answer (call ''a'' ''grep'')]"
    using map_runs_run[of ?a ?r "[]" dedup_run True] results
    by (simp add: ends_run_def repair_answer_def call_def tool_result_def)
  ultimately show ?thesis
    by (simp add: assistant_tool_calls_def assistant_calls_def repair_history_def dedup_is_keep_last case_prod_beta changed_def)
qed

text \<open>The removal of duplicate answers, which marks indices and scans again after each removal, is the reference that
  keeps in each run of results the last one of each identifier and leaves everything else; it reports how many
  items that takes away.\<close>

theorem dedup_keeps_last_answers:
  "dedup_duplicate_tool_results items
   = (map_runs (\<lambda>a run. keep_last run) True items,
      length items - length (map_runs (\<lambda>a run. keep_last run) True items))"
  by (rule dedup_is_keep_last)

text \<open>The question whether a conversation has unanswered tool calls is answered by the same rule the repair
  uses: it is yes exactly when the repair would change something, whatever its reason; and after the repair it
  is no.\<close>

theorem dangling_query_agrees_with_repair:
  "has_dangling_tool_calls items = (repair_dangling_tool_calls items reason \<noteq> (items, 0))
   \<and> \<not> has_dangling_tool_calls (fst (repair_dangling_tool_calls items reason))"
proof
  have len: "length items + sum_list (map (\<lambda>(i, s). length s) (repair_sites 0 items reason))
      = length (map_runs (fill_run reason) True items)" by (rule sites_length)
  have nonempty: "(i, s) \<in> set (repair_sites n items reason) \<Longrightarrow> s \<noteq> []" for i s n
    by (induction items arbitrary: n rule: runs_induct) (auto split: if_splits)
  show "has_dangling_tool_calls items = (repair_dangling_tool_calls items reason \<noteq> (items, 0))"
  proof (cases "repair_sites 0 items reason")
    case Nil
    then show ?thesis using has_dangling_sites[of items 0 reason] by (simp add: repair_dangling_tool_calls_def)
  next
    case (Cons p ps)
    then obtain i s where p: "p = (i, s)" "s \<noteq> []" using nonempty[of _ _ 0] by (cases p) auto
    then have "length items < length (map_runs (fill_run reason) True items)" using Cons len by (cases s) auto
    then have "map_runs (fill_run reason) True items \<noteq> items" by force
    then show ?thesis using Cons has_dangling_sites[of items 0 reason] by (simp add: repair_is_fill)
  qed
next
  have "\<not> has_dangling_tool_calls (map_runs (fill_run reason) True items)"
  proof (induction items rule: runs_induct)
    case (Run a run rest)
    have "list_all is_tool_result (fill_run reason a run)"
      using Run(2) by (simp add: fill_run_def synthetic_are_results)
    moreover have "synthetic_results (ai_tool_calls a) (answered_ids (fill_run reason a run)) reason = []"
      by (auto simp: synthetic_empty_iff fill_run_def)
    ultimately show ?case using Run has_dangling_run[of a "fill_run reason a run" "map_runs (fill_run reason) True rest" reason]
      by (simp add: map_runs_ends)
  qed auto
  then show "\<not> has_dangling_tool_calls (fst (repair_dangling_tool_calls items reason))" by (simp add: repair_is_fill)
qed

end
