(* ===== verification/Item_Estimates.thy ===== *)
theory Item_Estimates
  imports Conversation
begin

section \<open>Estimates of items (\<open>cf-chat-state/src/actor/state.rs\<close>)\<close>

text \<open>
  How many tokens an item, a conversation and a tool definition are taken to need. The estimate of a code
  interpreter call may panic, because its text is cut at byte 100: then the result is \<open>None\<close>. The parameters of
  a tool are given as the JSON text the estimate measures.
\<close>

definition estimate_system_message_tokens :: "conversation_item \<Rightarrow> nat" where
  "estimate_system_message_tokens item = (case item of System s \<Rightarrow> estimate_tokens_aware s | _ \<Rightarrow> 0)"

record tool_definition =
  td_name :: str
  td_description :: "str option"
  td_parameters :: str

definition estimate_tool_definition_tokens :: "tool_definition \<Rightarrow> nat" where
  "estimate_tool_definition_tokens td =
     (length (td_name td) + (case td_description td of Some d \<Rightarrow> length d | None \<Rightarrow> 0) + length (td_parameters td))
     div BYTES_PER_TOKEN"

definition estimate_tool_definitions_tokens :: "tool_definition list \<Rightarrow> nat" where
  "estimate_tool_definitions_tokens tds = sum_list (map estimate_tool_definition_tokens tds)"

definition estimate_tool_spec_tokens :: "tool_definition \<Rightarrow> nat" where
  "estimate_tool_spec_tokens tool_spec =
     estimate_tokens_aware (td_name tool_spec)
     + estimate_tokens_aware (case td_description tool_spec of Some d \<Rightarrow> d | None \<Rightarrow> [])
     + estimate_tokens_aware (td_parameters tool_spec)"

fun sum_parts :: "content_part list \<Rightarrow> nat \<Rightarrow> nat \<Rightarrow> nat \<times> nat" where
  "sum_parts [] tokens images = (tokens, images)"
| "sum_parts (TextPart t # parts) tokens images = sum_parts parts (tokens + estimate_tokens_aware t) images"
| "sum_parts (ImagePart url # parts) tokens images = sum_parts parts tokens (images + 1)"

fun estimate_item_tokens :: "conversation_item \<Rightarrow> nat option" where
  "estimate_item_tokens (System s) = Some (estimate_tokens_aware s)"
| "estimate_item_tokens (User u) =
     (case sum_parts (ui_content u) 0 0 of (tokens, images) \<Rightarrow> Some (tokens + estimate_image_tokens images))"
| "estimate_item_tokens (Assistant a) =
     Some (estimate_tokens_aware (ai_content a)
           + sum_list (map (\<lambda>tc. estimate_tokens_aware (tc_arguments tc)) (ai_tool_calls a)))"
| "estimate_item_tokens (ToolResult t) = Some (estimate_tokens_aware (ti_content t))"
| "estimate_item_tokens (BackendToolCall b) = map_option estimate_tokens_aware (text_summary b)"
| "estimate_item_tokens (Reasoning r) =
     Some (estimate_tokens_aware (reasoning_item_text r)
           + (case ri_encrypted_content r of Some e \<Rightarrow> length e | None \<Rightarrow> 0) div BYTES_PER_TOKEN)"

fun estimate_conversation_tokens :: "conversation \<Rightarrow> nat option" where
  "estimate_conversation_tokens [] = Some 0"
| "estimate_conversation_tokens (item # rest) =
     do { n \<leftarrow> estimate_item_tokens item; m \<leftarrow> estimate_conversation_tokens rest; Some (n + m) }"

definition estimate_messages_tokens :: "conversation \<Rightarrow> nat option" where
  "estimate_messages_tokens items = estimate_conversation_tokens (filter (\<lambda>i. \<not> is_system i) items)"

definition U32_MAX :: nat where "U32_MAX = 2 ^ 32 - 1"

definition count_item_tokens :: "conversation_item \<Rightarrow> nat option" where
  "count_item_tokens item = map_option (min U32_MAX) (estimate_item_tokens item)"

lemma estimate_item_readable: "(\<exists>n. estimate_item_tokens item = Some n) \<longleftrightarrow> readable item"
  by (cases item) (auto split: prod.split)

lemma estimate_item_None: "estimate_item_tokens item = None \<longleftrightarrow> \<not> readable item"
  using estimate_item_readable[of item] by (cases "estimate_item_tokens item") auto

lemma estimate_conversation_readable:
  "(\<exists>n. estimate_conversation_tokens items = Some n) \<longleftrightarrow> list_all readable items"
proof (induction items)
  case (Cons item rest)
  then show ?case using estimate_item_readable[of item] by (auto split: Option.bind_split)
qed simp

lemma estimate_conversation_append:
  "estimate_conversation_tokens (xs @ ys) =
     do { n \<leftarrow> estimate_conversation_tokens xs; m \<leftarrow> estimate_conversation_tokens ys; Some (n + m) }"
  by (induction xs) (auto split: Option.bind_splits simp: add.assoc)

text \<open>A call of the code interpreter whose byte 100 is inside a character cannot be estimated.\<close>

lemma code_interpreter_panics:
  "estimate_item_tokens (BackendToolCall (CodeInterpreter i (Some (replicate 99 CHR ''x'' @ [CHR 0xC3, CHR 0xA9])))) = None"
  by (simp add: str_prefix_def is_char_boundary_def nth_append)

text \<open>The images of a tool result are not counted.\<close>

lemma tool_result_images_free:
  "estimate_item_tokens (ToolResult (t\<lparr>ti_images := images\<rparr>)) = estimate_item_tokens (ToolResult t)"
  by simp

end
