(* ===== verification/Summary_Format.thy ===== *)
theory Summary_Format
  imports Confusables
begin

section \<open>The text of a summary (\<open>cf-chat-state/src/compaction_utils.rs\<close>)\<close>

text \<open>
  The output of the model that summarises a conversation becomes a message of the next one. What it drafted is
  cut out, the tags it may have echoed are defused, runs of empty lines are shortened. The main theorem is that
  no text the model writes gets a live tag into the next conversation.
\<close>

subsection \<open>Replacing a pattern\<close>

lemma replace_all_Nil [simp]: "p \<noteq> [] \<Longrightarrow> replace_all p t [] = []"
  by (subst replace_all.simps) simp

lemma replace_all_Cons:
  "p \<noteq> [] \<Longrightarrow> replace_all p t (c # r) =
     (if starts_with (c # r) p then t @ replace_all p t (drop (length p) (c # r)) else c # replace_all p t r)"
  by (subst replace_all.simps) simp

lemma drop_pattern_shorter: "p \<noteq> [] \<Longrightarrow> length (drop (length p) (c # r)) < length (c # r)"
  by (cases p) auto

lemma replace_all_induct [case_names empty hit miss]:
  assumes "p \<noteq> []" "Q []"
    and "\<And>rest. Q rest \<Longrightarrow> Q (p @ rest)"
    and "\<And>c r. \<not> starts_with (c # r) p \<Longrightarrow> Q r \<Longrightarrow> Q (c # r)"
  shows "Q s"
proof (induction s rule: length_induct)
  case (1 s)
  show ?case
  proof (cases s)
    case Nil
    then show ?thesis using assms(2) by simp
  next
    case (Cons c r)
    show ?thesis
    proof (cases "starts_with s p")
      case True
      then obtain rest where s: "s = p @ rest" by (rule starts_withE)
      then have "length rest < length s" using assms(1) by simp
      then show ?thesis using 1 s assms(3) by blast
    next
      case False
      then show ?thesis using 1 Cons assms(4) by simp
    qed
  qed
qed

lemma replace_all_hit [simp]: "p \<noteq> [] \<Longrightarrow> replace_all p t (p @ rest) = t @ replace_all p t rest"
proof -
  assume p: "p \<noteq> []"
  then obtain c r where cr: "p @ rest = c # r" by (cases p) auto
  have "starts_with (c # r) p" "drop (length p) (c # r) = rest"
    by (metis cr starts_with_append, metis cr append_eq_conv_conj)
  then show ?thesis using p by (simp add: cr replace_all_Cons)
qed

lemma replace_all_miss [simp]:
  "p \<noteq> [] \<Longrightarrow> \<not> starts_with (c # r) p \<Longrightarrow> replace_all p t (c # r) = c # replace_all p t r"
  by (simp add: replace_all_Cons)

lemma replace_all_length:
  assumes "p \<noteq> []" "length t \<le> length p"
  shows "length (replace_all p t s) \<le> length s"
  using assms by (induction s rule: replace_all_induct[OF assms(1)]) (auto simp: add_mono)

lemma replace_all_shorter:
  assumes "p \<noteq> []" "length t < length p" "contains s p"
  shows "length (replace_all p t s) < length s"
  using assms(3)
proof (induction s rule: replace_all_induct[OF assms(1)])
  case 1
  then show ?case using assms(1) by simp
next
  case (2 rest)
  then show ?case using assms replace_all_length[of p t rest] by simp
next
  case (3 c r)
  then show ?case using assms(1) by simp
qed

text \<open>Where the pattern and what replaces it start with the same byte, a text without that byte is found in the result
  only where it was.\<close>

lemma replace_all_prefix:
  assumes "p \<noteq> []" "t \<noteq> []" "hd t = hd p" "hd p \<notin> set m" "starts_with (replace_all p t r) m"
  shows "starts_with r m"
  using assms(4,5)
proof (induction m arbitrary: r)
  case (Cons x m)
  obtain b t' where t: "t = b # t'" "b = hd p" using assms(2,3) by (cases t) auto
  obtain p' where p: "p = b # p'" using assms(1) t by (cases p) auto
  show ?case
  proof (cases r)
    case Nil
    then show ?thesis using Cons assms(1) by simp
  next
    case r: (Cons c r')
    show ?thesis
    proof (cases "starts_with r p")
      case True
      then obtain rest where "r = p @ rest" by (rule starts_withE)
      then have "starts_with (t @ replace_all p t rest) (x # m)" using Cons.prems(2) assms(1) by simp
      then have "x = b" using t(1) by simp
      then show ?thesis using Cons.prems(1) t(2) by simp
    next
      case False
      then have "replace_all p t r = c # replace_all p t r'" using r assms(1) by simp
      then show ?thesis using Cons r by auto
    qed
  qed
qed simp

lemma contains_append_fresh:
  "q \<noteq> [] \<Longrightarrow> hd q \<notin> set a \<Longrightarrow> contains (a @ s) q \<longleftrightarrow> contains s q"
proof (induction a)
  case (Cons x a)
  then have "\<not> starts_with (x # a @ s) q" by (cases q) auto
  with Cons show ?case by simp
qed simp

lemma contains_appendI: "contains s q \<Longrightarrow> contains (a @ s) q"
  by (induction a) auto

lemma contains_prefixI: "contains s q \<Longrightarrow> contains (s @ a) q"
  by (metis append.assoc contains_iff)

subsection \<open>Tags\<close>

text \<open>A tag starts with its only opening bracket; a defused one goes on with a byte no tag has there.\<close>

definition defusable :: "str \<Rightarrow> bool" where
  "defusable q \<longleftrightarrow> (\<exists>m. q = CHR ''<'' # m \<and> m \<noteq> [] \<and> CHR ''<'' \<notin> set m \<and> hd m \<noteq> CHR 0xE2)"

definition zero_width_space :: str where
  "zero_width_space = [CHR 0xE2, CHR 0x80, CHR 0x8B]"

definition defused :: "str \<Rightarrow> str" where
  "defused tag = take 1 tag @ zero_width_space @ drop 1 tag"

lemma defuse_prefix:
  assumes "defusable p" "defusable q" "starts_with (replace_all p (defused p) s) q"
  shows "starts_with s q \<and> \<not> starts_with s p"
proof -
  obtain m where m: "q = CHR ''<'' # m" "m \<noteq> []" "CHR ''<'' \<notin> set m" "hd m \<noteq> CHR 0xE2"
    using assms(2) by (auto simp: defusable_def)
  obtain n where n: "p = CHR ''<'' # n" using assms(1) by (auto simp: defusable_def)
  have miss: "\<not> starts_with s p"
  proof
    assume "starts_with s p"
    then obtain rest where "s = p @ rest" by (rule starts_withE)
    then have "starts_with (zero_width_space @ n @ replace_all p (defused p) rest) m"
      using assms(3) n m(1) replace_all_hit[of p "defused p" rest] by (simp add: defused_def)
    then show False using m(2,4) by (cases m) (auto simp: zero_width_space_def)
  qed
  moreover have "starts_with s q"
  proof (cases s)
    case Nil
    then show ?thesis using assms(3) n by simp
  next
    case (Cons c r)
    then have "starts_with (c # replace_all p (defused p) r) q" using assms(3) miss n by simp
    then show ?thesis
      using Cons m n replace_all_prefix[of p "defused p" m r] by (auto simp: defused_def)
  qed
  ultimately show ?thesis by simp
qed

lemma defuse_contains:
  assumes "defusable p" "defusable q" "contains (replace_all p (defused p) s) q"
  shows "contains s q \<and> p \<noteq> q"
proof -
  obtain n where n: "p = CHR ''<'' # n" "CHR ''<'' \<notin> set n" using assms(1) by (auto simp: defusable_def)
  obtain m where m: "q = CHR ''<'' # m" using assms(2) by (auto simp: defusable_def)
  have p: "p \<noteq> []" using n by simp
  show ?thesis using assms(3)
  proof (induction s rule: replace_all_induct[OF p])
    case 1
    then show ?case using p m by simp
  next
    case (2 rest)
    have "\<not> starts_with (replace_all p (defused p) (p @ rest)) q"
      using defuse_prefix[OF assms(1,2), of "p @ rest"] by auto
    moreover have "replace_all p (defused p) (p @ rest) = CHR ''<'' # (zero_width_space @ n) @ replace_all p (defused p) rest"
      unfolding replace_all_hit[OF p] using n(1) by (simp add: defused_def)
    ultimately have "contains ((zero_width_space @ n) @ replace_all p (defused p) rest) q" using "2.prems" by simp
    then have "contains (replace_all p (defused p) rest) q"
      by (subst (asm) contains_append_fresh) (use m n in \<open>auto simp: zero_width_space_def\<close>)
    then show ?case using 2 contains_appendI by blast
  next
    case (3 c r)
    have R: "replace_all p (defused p) (c # r) = c # replace_all p (defused p) r" using 3 p by simp
    show ?case
    proof (cases "starts_with (c # replace_all p (defused p) r) q")
      case True
      then show ?thesis using defuse_prefix[OF assms(1,2), of "c # r"] R by auto
    next
      case False
      then show ?thesis using 3 R by auto
    qed
  qed
qed

lemma replace_all_contains_other:
  assumes "p \<noteq> []" "t \<noteq> []" "hd t = hd p" "hd p \<notin> set q" "q \<noteq> []" "set t \<inter> set q = {}" "contains (replace_all p t s) q"
  shows "contains s q"
  using assms(7)
proof (induction s rule: replace_all_induct[OF assms(1)])
  case 1
  then show ?case using assms(1,5) by simp
next
  case (2 rest)
  have "hd q \<notin> set t" using assms(5,6) by (cases q) auto
  then have "contains (replace_all p t rest) q"
    using 2 assms(1) by (simp add: contains_append_fresh[OF assms(5)])
  then show ?case using 2 contains_appendI by blast
next
  case (3 c r)
  then have "starts_with (replace_all p t (c # r)) q \<or> contains (replace_all p t r) q" using assms(1) by simp
  then show ?case using 3 replace_all_prefix[OF assms(1-4), of "c # r"] by auto
qed

subsection \<open>Cleaning a summary\<close>

function peel_analysis :: "str \<Rightarrow> str" where
  "peel_analysis result =
     (case find_sub result ''<analysis>'' of
        None \<Rightarrow> result
      | Some start \<Rightarrow>
          let is_leading =
                (case find_sub result ''<summary>'' of
                   Some sp \<Rightarrow> start < sp \<or> trim (slice result (sp + length ''<summary>'') start) = []
                 | None \<Rightarrow> trim (take start result) = [])
          in if \<not> is_leading then result
             else (case find_sub (drop start result) ''</analysis>'' of
                     Some rel \<Rightarrow>
                       peel_analysis (take start result @ drop (start + rel + length ''</analysis>'') result)
                   | None \<Rightarrow>
                       let drop_to = (case find_sub (drop start result) ''<summary>'' of
                                        None \<Rightarrow> length result | Some rel \<Rightarrow> start + rel)
                       in take start result @ drop drop_to result))"
  by pat_completeness auto
termination
proof (relation "measure length", simp)
  fix result :: str and start x rel
  assume "find_sub result ''<analysis>'' = Some start"
  then have "start + length ''<analysis>'' \<le> length result" by (rule find_sub_less)
  then show "(take start result @ drop (start + rel + length ''</analysis>'') result, result) \<in> measure length" by simp
qed

declare peel_analysis.simps [simp del]

definition strip_leading_scratchpad :: "str \<Rightarrow> str" where
  "strip_leading_scratchpad inner =
     (let s = trim inner;
          lead = dropWhile (\<lambda>c. c \<in> set (''#*-> '' @ [CHR 0x09])) s;
          numbered = (case lead of c # _ \<Rightarrow> is_ascii_digit c | [] \<Rightarrow> False);
          s = (if numbered then s
               else (case rfind_sub s ''</analysis>'' of
                       Some pos \<Rightarrow> trim_start (drop (pos + length ''</analysis>'') s)
                     | None \<Rightarrow> s))
      in case strip_prefix s ''<summary>'' of Some rest \<Rightarrow> trim_start rest | None \<Rightarrow> s)"

definition unwrap_summary :: "str \<Rightarrow> str" where
  "unwrap_summary result =
     (case (find_sub result ''<summary>'', rfind_sub result ''</summary>'') of
        (Some start, Some end_pos) \<Rightarrow>
          if start < end_pos then
            take start result @ ''Summary:'' @ [newline]
            @ strip_leading_scratchpad (trim (slice result (start + length ''<summary>'') end_pos))
            @ drop (end_pos + length ''</summary>'') result
          else result
      | _ \<Rightarrow> result)"

definition neutralize_compaction_control_tokens :: "str \<Rightarrow> str" where
  "neutralize_compaction_control_tokens text =
     fold (\<lambda>(tag, harmless). replace_all tag harmless)
       [(''</summary>'', ''<'' @ zero_width_space @ ''/summary>''),
        (''<summary>'', ''<'' @ zero_width_space @ ''summary>''),
        (''</analysis>'', ''<'' @ zero_width_space @ ''/analysis>''),
        (''<analysis>'', ''<'' @ zero_width_space @ ''analysis>''),
        (''</summary_request>'', ''<'' @ zero_width_space @ ''/summary_request>''),
        (''<summary_request>'', ''<'' @ zero_width_space @ ''summary_request>'')] text"

function collapse_blank_lines :: "str \<Rightarrow> str" where
  "collapse_blank_lines result =
     (if contains result [newline, newline, newline]
      then collapse_blank_lines (replace_all [newline, newline, newline] [newline, newline] result)
      else result)"
  by pat_completeness auto
termination
  by (relation "measure length") (auto intro!: replace_all_shorter)

declare collapse_blank_lines.simps [simp del]

definition format_compact_summary :: "str \<Rightarrow> str" where
  "format_compact_summary summary =
     trim (collapse_blank_lines (neutralize_compaction_control_tokens (unwrap_summary (peel_analysis summary))))"

definition format_compact_summary_content :: "str \<Rightarrow> str" where
  "format_compact_summary_content raw_summary =
     ''This session is being continued from a previous conversation that ran out of context. ''
     @ ''The summary below covers the earlier portion of the conversation.'' @ [newline, newline]
     @ format_compact_summary raw_summary"

definition MIN_SUMMARY_SEED_CHARS :: nat where "MIN_SUMMARY_SEED_CHARS = 500"

definition is_degenerate_summary :: "str \<Rightarrow> bool" where
  "is_degenerate_summary raw_summary = (char_count (format_compact_summary raw_summary) < MIN_SUMMARY_SEED_CHARS)"

definition MAX_CAPTURED_SUMMARY_CHARS :: nat where "MAX_CAPTURED_SUMMARY_CHARS = 8192"

definition bound_captured_output :: "str \<Rightarrow> nat \<Rightarrow> str" where
  "bound_captured_output s max_chars =
     (let total = char_count s
      in if total \<le> max_chars then s
         else let head_len = max_chars div 2;
                  tail_len = max_chars - head_len;
                  ellipsis = [CHR 0xE2, CHR 0x80, CHR 0xA6];
                  elided = total - head_len - tail_len
              in take_chars head_len s @ [newline, newline] @ ellipsis @ ''['' @ show_nat elided @ '' chars elided]''
                 @ ellipsis @ [newline, newline] @ skip_chars (total - tail_len) s)"

definition format_transcript_location :: "str \<Rightarrow> str" where
  "format_transcript_location path =
     [newline, newline] @ ''<transcript_location>'' @ [newline]
     @ ''The full, unsummarized transcript of this conversation is saved at:'' @ [newline] @ path @ [newline]
     @ ''If you need details that were dropped from the summary above (exact code, ''
     @ ''error text, file contents, or earlier tool output), read this file to ''
     @ ''recover them.'' @ [newline] @ ''</transcript_location>''"

definition wrap_user_query :: "str \<Rightarrow> str" where
  "wrap_user_query text = ''<user_query>'' @ [newline] @ text @ [newline] @ ''</user_query>''"

subsection \<open>No live tag is left\<close>

definition CONTROL_TAGS :: "str list" where
  "CONTROL_TAGS =
     [''</summary>'', ''<summary>'', ''</analysis>'', ''<analysis>'', ''</summary_request>'', ''<summary_request>'']"

lemma neutralize_is_defusing:
  "neutralize_compaction_control_tokens text = fold (\<lambda>tag. replace_all tag (defused tag)) CONTROL_TAGS text"
  by (simp add: neutralize_compaction_control_tokens_def CONTROL_TAGS_def defused_def)

lemma control_tags_defusable: "tag \<in> set CONTROL_TAGS \<Longrightarrow> defusable tag"
  by (auto simp: CONTROL_TAGS_def defusable_def)

lemma defusing_contains:
  assumes "\<And>p. p \<in> set ps \<Longrightarrow> defusable p" "defusable q" "contains (fold (\<lambda>p. replace_all p (defused p)) ps s) q"
  shows "contains s q \<and> q \<notin> set ps"
  using assms
proof (induction ps arbitrary: s)
  case (Cons p ps)
  then have "contains (replace_all p (defused p) s) q \<and> q \<notin> set ps" by simp
  then show ?case using defuse_contains[of p q s] Cons.prems(1,2) by auto
qed simp

lemma neutralized: "tag \<in> set CONTROL_TAGS \<Longrightarrow> \<not> contains (neutralize_compaction_control_tokens s) tag"
  using defusing_contains[of CONTROL_TAGS tag s] by (auto simp: neutralize_is_defusing control_tags_defusable)

lemma collapse_contains:
  assumes "newline \<notin> set q" "q \<noteq> []" "contains (collapse_blank_lines s) q"
  shows "contains s q"
  using assms(3)
proof (induction s rule: collapse_blank_lines.induct)
  case (1 s)
  then show ?case
    using assms(1,2) replace_all_contains_other[of "[newline, newline, newline]" "[newline, newline]" q s]
    by (subst (asm) (2) collapse_blank_lines.simps) (auto split: if_splits)
qed

lemma collapsed: "\<not> contains (collapse_blank_lines s) [newline, newline, newline]"
  by (induction s rule: collapse_blank_lines.induct) (subst collapse_blank_lines.simps, simp)

lemma trim_part: "\<exists>a b. s = a @ trim s @ b"
proof -
  obtain a where a: "s = a @ trim_start s"
    using strip_seqs_suffix[of ws_seqs s] by (auto simp: trim_start_def suffix_def)
  obtain b where "rev (trim_start s) = b @ strip_seqs (map rev ws_seqs) (rev (trim_start s))"
    using strip_seqs_suffix[of "map rev ws_seqs" "rev (trim_start s)"] by (auto simp: suffix_def)
  then have "trim_start s = trim s @ rev b" by (metis rev_append rev_rev_ident trim_def trim_end_def)
  then show ?thesis using a by metis
qed

lemma trim_contains: "contains (trim s) q \<Longrightarrow> contains s q"
  using trim_part[of s] by (metis contains_appendI contains_prefixI)

text \<open>C39: No text the model writes as a summary puts a live control tag into the conversation that goes on from it: of the
  tags that open or close a summary, its draft or the request for one, none is in the message it becomes, nor
  are there three line ends in a row.\<close>

theorem summary_has_no_live_tags:
  "set CONTROL_TAGS \<inter> {tag. contains (format_compact_summary raw) tag} = {}
   \<and> \<not> contains (format_compact_summary raw) [newline, newline, newline]"
proof -
  have "\<not> contains (format_compact_summary raw) tag" if "tag \<in> set CONTROL_TAGS" for tag
  proof -
    have "newline \<notin> set tag" "tag \<noteq> []" using that by (auto simp: CONTROL_TAGS_def)
    then show ?thesis using neutralized[OF that] trim_contains collapse_contains
      unfolding format_compact_summary_def by blast
  qed
  moreover have "\<not> contains (format_compact_summary raw) [newline, newline, newline]"
    using collapsed trim_contains unfolding format_compact_summary_def by blast
  ultimately show ?thesis by blast
qed

subsection \<open>A summary as the prompt asks for it\<close>

lemma find_sub_fresh: "p \<noteq> [] \<Longrightarrow> hd p \<notin> set a \<Longrightarrow> find_sub (a @ p @ b) p = Some (length a)"
proof (induction a)
  case Nil
  then show ?case by (cases p) auto
next
  case (Cons x a)
  then have "\<not> starts_with (x # a @ p @ b) p" by (cases p) auto
  with Cons show ?case by simp
qed

lemma rfind_sub_last:
  assumes "p \<noteq> []" "\<not> contains (tl p @ b) p"
  shows "rfind_sub (a @ p @ b) p = Some (length a)"
proof (induction a)
  case Nil
  obtain c r where p: "p = c # r" using assms(1) by (cases p) auto
  then have "rfind_sub (r @ b) p = None" using assms(2) by (simp add: rfind_sub_None_iff)
  then show ?case using p by simp
qed simp

lemma replace_all_absent: "p \<noteq> [] \<Longrightarrow> \<not> contains s p \<Longrightarrow> replace_all p t s = s"
  by (induction s) auto

lemma starts_with_up_to: "x \<notin> set m \<Longrightarrow> starts_with (b @ x # r) m \<longleftrightarrow> starts_with b m"
proof (induction m arbitrary: b)
  case (Cons y m)
  then show ?case by (cases b) auto
qed simp

lemma contains_append_tag:
  assumes "q = x # m" "x \<notin> set m" "m \<noteq> []"
  shows "contains (b @ x # r) q \<longleftrightarrow> contains b q \<or> contains (x # r) q"
proof (induction b)
  case Nil
  then show ?case using assms by simp
next
  case (Cons y b)
  have "starts_with (y # b @ x # r) q \<longleftrightarrow> starts_with (y # b) q"
    using assms starts_with_up_to[of x m b r] by simp
  with Cons show ?case by auto
qed

lemma contains_append_sep: "x \<notin> set q \<Longrightarrow> q \<noteq> [] \<Longrightarrow> contains (b @ x # r) q \<longleftrightarrow> contains b q \<or> contains r q"
proof (induction b)
  case Nil
  then show ?case by (cases q) auto
next
  case (Cons y b)
  then have "starts_with (y # b @ x # r) q \<longleftrightarrow> starts_with (y # b) q"
    using starts_with_up_to[of x q "y # b" r] by simp
  with Cons show ?case by auto
qed

lemma collapse_id: "\<not> contains s [newline, newline, newline] \<Longrightarrow> collapse_blank_lines s = s"
  by (subst collapse_blank_lines.simps) simp

lemma neutralize_id:
  assumes "set CONTROL_TAGS \<inter> {tag. contains s tag} = {}"
  shows "neutralize_compaction_control_tokens s = s"
proof -
  have "fold (\<lambda>tag. replace_all tag (defused tag)) ps s = s"
    if "\<forall>p \<in> set ps. p \<noteq> [] \<and> \<not> contains s p" for ps
    using that by (induction ps) (auto simp: replace_all_absent)
  moreover have "\<forall>p \<in> set CONTROL_TAGS. p \<noteq> [] \<and> \<not> contains s p"
    using assms by (auto simp: CONTROL_TAGS_def)
  ultimately show ?thesis unfolding neutralize_is_defusing by blast
qed

lemma find_sub_tag:
  assumes "p = x # m" "x \<notin> set m" "\<not> contains a p"
  shows "find_sub (a @ p @ b) p = Some (length a)"
  using assms(3)
proof (induction a)
  case Nil
  then show ?case using assms(1) by simp
next
  case (Cons y a)
  have "starts_with (y # a @ p @ b) p \<longleftrightarrow> starts_with (y # a) p"
    using assms(1,2) starts_with_up_to[of x m a "m @ b"] by simp
  with Cons show ?case by simp
qed

text \<open>What the prompt asks for: a body that starts with the number of its first section.\<close>

definition sectioned :: "str \<Rightarrow> bool" where
  "sectioned body \<longleftrightarrow>
     body \<noteq> [] \<and> is_ascii_digit (hd body) \<and> trim body = body
     \<and> \<not> contains body [newline, newline, newline]
     \<and> \<not> list_ex (contains body) CONTROL_TAGS"

lemma trim_Nil [simp]: "trim [] = []"
  using trim_part[of "[]"] by simp

lemma not_contains_fresh: "q \<noteq> [] \<Longrightarrow> hd q \<notin> set s \<Longrightarrow> \<not> contains s q"
  using contains_append_fresh[of q s "[]"] by simp

lemma peel_none: "\<not> contains s ''<analysis>'' \<Longrightarrow> peel_analysis s = s"
  by (subst peel_analysis.simps) (simp add: find_sub_None_iff[THEN iffD2])

lemma peel_step:
  assumes "find_sub s ''<analysis>'' = Some 0" "find_sub s ''</analysis>'' = Some n"
  shows "peel_analysis s = peel_analysis (drop (n + length ''</analysis>'') s)"
  by (subst peel_analysis.simps) (simp add: assms slice_def split: option.split)

lemma peel_draft:
  assumes "\<not> contains draft ''</analysis>''"
  shows "peel_analysis (''<analysis>'' @ draft @ ''</analysis>'' @ rest) = peel_analysis rest"
proof -
  let ?s = "''<analysis>'' @ draft @ ''</analysis>'' @ rest"
  have start: "find_sub ?s ''<analysis>'' = Some 0" by simp
  have "\<not> contains (''<analysis>'' @ draft) ''</analysis>''" using assms by simp
  then have stop: "find_sub ?s ''</analysis>'' = Some (length (''<analysis>'' @ draft))"
    using find_sub_tag[of "''</analysis>''" "CHR ''<''" "''/analysis>''" "''<analysis>'' @ draft" rest] by simp
  show ?thesis using peel_step[OF start stop] by simp
qed

lemma ws_not_digit: "w \<in> set ws_seqs \<Longrightarrow> x \<in> set w \<Longrightarrow> \<not> is_ascii_digit x"
  by (auto simp: ws_seqs_def is_ascii_digit_def Let_def)

lemma trim_start_digit: "is_ascii_digit c \<Longrightarrow> trim_start (c # s) = c # s"
  unfolding trim_start_id_iff
proof
  fix w assume "is_ascii_digit c" "w \<in> set ws_seqs"
  then show "\<not> starts_with (c # s) w" using ws_not_digit[of w c] ws_seqs_no_Nil by (cases w) auto
qed

lemma trim_end_digit:
  assumes "is_ascii_digit c" "trim_end (c # s) = c # s"
  shows "trim_end (a @ c # s) = a @ c # s"
  unfolding trim_end_id_iff
proof
  fix w assume w: "w \<in> set ws_seqs"
  have "\<not> suffix w (c # s)" using assms(2) w by (simp add: trim_end_id_iff ends_with_iff_suffix)
  moreover have "\<not> suffix (c # s) w" using ws_not_digit[OF w] assms(1) set_mono_suffix by fastforce
  ultimately have "\<not> suffix w (a @ c # s)" by (metis suffixI suffix_same_cases)
  then show "\<not> ends_with (a @ c # s) w" by (simp add: ends_with_iff_suffix)
qed

lemma trim_newlines:
  "trim_start (newline # s) = trim_start s" "trim_end (s @ [newline]) = trim_end s"
proof -
  have "strip_seqs ws_seqs (newline # t) = strip_seqs ws_seqs t" for t
    by (subst strip_seqs.simps) (simp add: ws_seqs_def)
  then show "trim_start (newline # s) = trim_start s" by (simp add: trim_start_def)
  have "strip_seqs (map rev ws_seqs) (newline # t) = strip_seqs (map rev ws_seqs) t" for t
    by (subst strip_seqs.simps) (simp add: ws_seqs_def)
  then show "trim_end (s @ [newline]) = trim_end s" by (simp add: trim_end_def)
qed

lemma sectioned_trim:
  assumes "sectioned body"
  shows "trim (newline # body @ [newline]) = body" "trim (a @ body) = trim_end (trim_start (a @ body))"
    "trim_end (a @ body) = a @ body"
proof -
  obtain c s where body: "body = c # s" "is_ascii_digit c" using assms by (cases body) (auto simp: sectioned_def)
  have stop: "trim_end body = body" using assms by (simp add: sectioned_def trim_id_iff trim_end_id_iff)
  then show "trim (newline # body @ [newline]) = body"
    using trim_start_digit[OF body(2), of "s @ [newline]"] trim_newlines(2)[of body] by (simp add: trim_def trim_newlines body(1))
  show "trim_end (a @ body) = a @ body" using trim_end_digit body stop by metis
qed (simp add: trim_def)

lemma scratchpad_sectioned: "sectioned body \<Longrightarrow> strip_leading_scratchpad body = body"
proof -
  assume body: "sectioned body"
  then obtain c s where cs: "body = c # s" "is_ascii_digit c" by (cases body) (auto simp: sectioned_def)
  then have "c \<noteq> CHR ''#''" "c \<noteq> CHR ''*''" "c \<noteq> CHR ''-''" "c \<noteq> CHR ''>''" "c \<noteq> CHR '' ''" "c \<noteq> CHR 0x09" "c \<noteq> CHR ''<''"
    by (auto simp: is_ascii_digit_def)
  moreover have "trim body = body" using body by (simp add: sectioned_def)
  ultimately show ?thesis using cs by (simp add: strip_leading_scratchpad_def strip_prefix_def)
qed

lemma unwrap_sectioned:
  assumes "sectioned body"
  shows "unwrap_summary (newline # ''<summary>'' @ newline # body @ newline # ''</summary>'')
       = newline # ''Summary:'' @ newline # body"
proof -
  let ?s = "newline # ''<summary>'' @ newline # body @ newline # ''</summary>''"
  let ?before = "newline # ''<summary>'' @ newline # body @ [newline]"
  have "find_sub ?s ''<summary>'' = Some 1" by simp
  moreover have "rfind_sub (?before @ ''</summary>'' @ []) ''</summary>'' = Some (length ?before)"
    by (rule rfind_sub_last) simp_all
  moreover have "slice ?s (1 + length ''<summary>'') (length ?before) = newline # body @ [newline]"
    by (simp add: slice_def)
  ultimately show ?thesis
    by (simp add: unwrap_summary_def sectioned_trim(1)[OF assms, simplified] scratchpad_sectioned[OF assms])
qed

text \<open>A summary in the form the prompt asks for, with the first section's number in front and no control tag in it, is taken
  over word for word, and the draft before it is dropped.\<close>

theorem numbered_summary_verbatim:
  assumes "sectioned body" "\<not> contains draft ''</analysis>''"
  shows "format_compact_summary
           (''<analysis>'' @ draft @ ''</analysis>'' @ newline # ''<summary>'' @ newline # body @ newline # ''</summary>'')
         = ''Summary:'' @ newline # body"
proof -
  let ?rest = "newline # ''<summary>'' @ newline # body @ newline # ''</summary>''"
  have tags: "\<not> contains body tag" if "tag \<in> set CONTROL_TAGS" for tag
    using assms(1) that by (auto simp: sectioned_def list_ex_iff)
  have "\<not> contains ?rest ''<analysis>''"
    using tags[of "''<analysis>''"] contains_append_sep[of newline "''<analysis>''" body "''</summary>''"]
    by (simp add: CONTROL_TAGS_def)
  then have peeled: "peel_analysis (''<analysis>'' @ draft @ ''</analysis>'' @ ?rest) = ?rest"
    using peel_draft[OF assms(2), of ?rest] peel_none[of ?rest] by simp
  let ?t = "newline # ''Summary:'' @ newline # body"
  have "\<not> contains ?t tag" if "tag \<in> set CONTROL_TAGS" for tag
  proof -
    have tag: "newline \<notin> set tag" "tag \<noteq> []" "hd tag = CHR ''<''" using that by (auto simp: CONTROL_TAGS_def)
    then have "\<not> contains (newline # ''Summary:'') tag" by (intro not_contains_fresh) auto
    then show ?thesis using contains_append_sep[OF tag(1,2), of "newline # ''Summary:''" body] tags[OF that] by simp
  qed
  then have "neutralize_compaction_control_tokens ?t = ?t" by (intro neutralize_id) auto
  moreover have "\<not> contains ?t [newline, newline, newline]"
    using assms(1) by (cases body) (auto simp: sectioned_def is_ascii_digit_def)
  moreover have "trim ?t = ''Summary:'' @ newline # body"
    using sectioned_trim(3)[OF assms(1), of "''Summary:'' @ [newline]"]
      trim_start_id_iff[of "''Summary:'' @ newline # body"]
    by (simp add: trim_def trim_newlines(1) ws_seqs_def)
  ultimately show ?thesis
    by (simp add: format_compact_summary_def peeled[simplified] unwrap_sectioned[OF assms(1), simplified] collapse_id)
qed

theorem numbered_summary_verbatim_witness:
  "format_compact_summary
     (''<analysis>'' @ ''let me see'' @ ''</analysis>'' @ newline # ''<summary>'' @ newline # ''1. Done.'' @ newline # ''</summary>'')
   = ''Summary:'' @ newline # ''1. Done.''"
proof (rule numbered_summary_verbatim)
  show "sectioned ''1. Done.''" by code_simp
  show "\<not> contains ''let me see'' ''</analysis>''" by simp
qed

end
