(* ===== verification/Compaction.thy ===== *)
theory Compaction
  imports History_Repair Item_Estimates Summary_Format
begin

section \<open>Compaction (\<open>cf-chat-state/src/compaction_utils.rs\<close>)\<close>

text \<open>
  What a conversation is reduced to: the copies given to the model that summarises it, a copy that fits a budget,
  the queries and messages carried over, the cleaning of the summary, and the conversation rebuilt from them.
\<close>

subsection \<open>Copies for the summary\<close>

fun strip_tool_message :: "conversation_item \<Rightarrow> conversation_item option" where
  "strip_tool_message (ToolResult t) = None"
| "strip_tool_message (Assistant a) =
     Some (Assistant
       (if ai_tool_calls a \<noteq> [] then
          let tool_info = [newline] @ ''[Called tools: '' @ join '', '' (map tc_name (ai_tool_calls a)) @ '']''
          in a\<lparr>ai_content := (if ai_content a = [] then tool_info else ai_content a @ tool_info),
               ai_tool_calls := []\<rparr>
        else a))"
| "strip_tool_message other = Some other"

definition strip_tool_messages_for_conversation_item :: "conversation \<Rightarrow> conversation" where
  "strip_tool_messages_for_conversation_item conversation = List.map_filter strip_tool_message conversation"

fun is_reasoning :: "conversation_item \<Rightarrow> bool" where
  "is_reasoning (Reasoning r) = True"
| "is_reasoning _ = False"

definition strip_reasoning_blocks :: "conversation \<Rightarrow> conversation" where
  "strip_reasoning_blocks conversation = filter (\<lambda>i. \<not> is_reasoning i) conversation"

fun strip_image_part :: "content_part \<Rightarrow> content_part" where
  "strip_image_part (ImagePart url) = TextPart ''[image]''"
| "strip_image_part (TextPart t) = TextPart t"

fun strip_item_images :: "conversation_item \<Rightarrow> conversation_item" where
  "strip_item_images (User u) = User (u\<lparr>ui_content := map strip_image_part (ui_content u)\<rparr>)"
| "strip_item_images other = other"

definition strip_images :: "conversation \<Rightarrow> conversation" where
  "strip_images conversation = map strip_item_images conversation"

definition prepare_conversation_for_summarization :: "conversation \<Rightarrow> conversation" where
  "prepare_conversation_for_summarization conversation =
     strip_images (strip_reasoning_blocks (strip_tool_messages_for_conversation_item conversation))"

definition prepare_conversation_for_segment :: "conversation \<Rightarrow> conversation" where
  "prepare_conversation_for_segment conversation = strip_images (strip_reasoning_blocks conversation)"

definition truncate_trailing_incomplete_tool_call :: "conversation \<Rightarrow> conversation" where
  "truncate_trailing_incomplete_tool_call conversation = rev (dropWhile opens_run (rev conversation))"

definition prepare_conversation_for_verbatim_summarization :: "conversation \<Rightarrow> bool \<Rightarrow> conversation" where
  "prepare_conversation_for_verbatim_summarization conversation strip_reasoning =
     truncate_trailing_incomplete_tool_call
       (if strip_reasoning then strip_reasoning_blocks conversation else conversation)"

subsection \<open>A copy that fits a budget\<close>

fun boundary_below :: "str \<Rightarrow> nat \<Rightarrow> nat" where
  "boundary_below s 0 = 0"
| "boundary_below s (Suc n) = (if is_char_boundary s (Suc n) then Suc n else boundary_below s n)"

definition MARKER_RESERVE :: nat where "MARKER_RESERVE = 64"

definition truncate_text_to_bytes :: "str \<Rightarrow> nat \<Rightarrow> str option" where
  "truncate_text_to_bytes s max_bytes =
     (if length s \<le> max_bytes then None
      else let keep = max_bytes - MARKER_RESERVE;
               end_byte = boundary_below s (min keep (length s));
               dropped = length s - end_byte
           in Some (take end_byte s @ [newline] @ ''[... truncated '' @ show_nat dropped
                    @ '' bytes to fit the compaction window ...]''))"

definition truncated :: "str \<Rightarrow> nat \<Rightarrow> str" where
  "truncated s max_bytes = (case truncate_text_to_bytes s max_bytes of Some t \<Rightarrow> t | None \<Rightarrow> s)"

fun truncate_part :: "nat \<Rightarrow> content_part \<Rightarrow> content_part" where
  "truncate_part max_bytes (TextPart t) = TextPart (truncated t max_bytes)"
| "truncate_part max_bytes (ImagePart url) = ImagePart url"

definition truncate_item_to_tokens :: "conversation_item \<Rightarrow> nat \<Rightarrow> conversation_item" where
  "truncate_item_to_tokens item max_tokens =
     (let max_bytes = saturating_mul max_tokens 4
      in case item of
           ToolResult t \<Rightarrow> ToolResult (t\<lparr>ti_content := truncated (ti_content t) max_bytes\<rparr>)
         | Assistant a \<Rightarrow> Assistant (a\<lparr>ai_content := truncated (ai_content a) max_bytes\<rparr>)
         | User u \<Rightarrow> User (u\<lparr>ui_content := map (truncate_part max_bytes) (ui_content u)\<rparr>)
         | other \<Rightarrow> other)"

definition recover_truncated_tail_unit :: "conversation \<Rightarrow> nat \<Rightarrow> conversation option" where
  "recover_truncated_tail_unit body budget =
     (let results = rev (takeWhile is_tool_result (rev body));
          body = rev (dropWhile is_tool_result (rev body))
      in if results = [] then
           Some (case rev body of item # _ \<Rightarrow> [truncate_item_to_tokens item budget] | [] \<Rightarrow> [])
         else do {
           let owner = (case rev body of item # _ \<Rightarrow> if opens_run item then [item] else [] | [] \<Rightarrow> []);
           owner_cost \<leftarrow> estimate_conversation_tokens owner;
           let result_budget = budget - owner_cost;
           let per = max (result_budget div length results) 1;
           Some (owner @ map (\<lambda>r. truncate_item_to_tokens r per) results)
         })"

text \<open>The scan for the first item kept takes the body from its end.\<close>

fun scan_back :: "conversation \<Rightarrow> nat \<Rightarrow> nat \<Rightarrow> nat option" where
  "scan_back [] remaining start = Some start"
| "scan_back (item # earlier) remaining start =
     do {
       cost \<leftarrow> estimate_item_tokens item;
       if remaining < cost then Some start else scan_back earlier (remaining - cost) (start - 1)
     }"

fun split_system_head :: "conversation \<Rightarrow> conversation \<times> conversation" where
  "split_system_head (System s # body) = ([System s], body)"
| "split_system_head body = ([], body)"

definition fit_conversation_to_budget :: "conversation \<Rightarrow> nat \<Rightarrow> conversation option" where
  "fit_conversation_to_budget conversation max_tokens =
     do {
       whole \<leftarrow> estimate_conversation_tokens conversation;
       if whole \<le> max_tokens then Some conversation
       else do {
         let (head, body) = split_system_head conversation;
         head_tokens \<leftarrow> estimate_conversation_tokens head;
         let budget = max_tokens - head_tokens;
         start \<leftarrow> scan_back (rev body) budget (length body);
         let start = start + length (takeWhile is_tool_result (drop start body));
         if start < length body then Some (head @ drop start body)
         else map_option (\<lambda>unit. head @ unit) (recover_truncated_tail_unit body budget)
       }
     }"

subsection \<open>Queries of the user\<close>

definition SYSTEM_TAGS :: "str list" where
  "SYSTEM_TAGS =
     [''user_info'', ''project_layout'', ''git_status'', ''fork-context'', ''system-reminder'', ''agent-memory'',
      ''system_reminder'', ''background_context'', ''command-name'', ''command-message'', ''command-args'']"

definition open_tag :: "str \<Rightarrow> str" where "open_tag tag = ''<'' @ tag @ ''>''"

definition close_tag :: "str \<Rightarrow> str" where "close_tag tag = ''</'' @ tag @ ''>''"

function strip_tag :: "str \<Rightarrow> str \<Rightarrow> str" where
  "strip_tag tag result =
     (case find_sub result (open_tag tag) of
        None \<Rightarrow> result
      | Some start \<Rightarrow>
          (case find_sub (drop start result) (close_tag tag) of
             None \<Rightarrow> result
           | Some rel_end \<Rightarrow>
               let end_pos = start + rel_end + length (close_tag tag)
               in strip_tag tag (take start result @ drop end_pos result)))"
  by pat_completeness auto
termination
proof (relation "measure (\<lambda>(tag, result). length result)", simp)
  fix tag result :: str and start rel_end end_pos
  assume start: "find_sub result (open_tag tag) = Some start"
    and stop: "find_sub (drop start result) (close_tag tag) = Some rel_end"
    and pos: "end_pos = start + rel_end + length (close_tag tag)"
  have "start + length (open_tag tag) \<le> length result" using start by (rule find_sub_less)
  moreover have "length (open_tag tag) = length tag + 2" "length (close_tag tag) = length tag + 3"
    by (simp_all add: open_tag_def close_tag_def)
  ultimately show "((tag, take start result @ drop end_pos result), tag, result) \<in> measure (\<lambda>(tag, result). length result)"
    using pos by simp
qed

declare strip_tag.simps [simp del]

definition strip_system_tags :: "str \<Rightarrow> str" where
  "strip_system_tags s = trim (fold strip_tag SYSTEM_TAGS s)"

definition extract_user_query :: "str \<Rightarrow> str" where
  "extract_user_query s =
     (case find_sub s ''<user_query>'' of
        None \<Rightarrow> strip_system_tags s
      | Some start \<Rightarrow>
          let rest = drop (start + length ''<user_query>'') s
          in case find_sub rest ''</user_query>'' of
               Some end_byte \<Rightarrow> strip_system_tags (trim (take end_byte rest))
             | None \<Rightarrow> strip_system_tags s)"

fun query_of :: "conversation_item \<Rightarrow> str" where
  "query_of (User u) = extract_user_query (user_text u)"
| "query_of _ = []"

definition extract_last_user_query :: "conversation \<Rightarrow> str option" where
  "extract_last_user_query conversation =
     (case find is_user (rev conversation) of
        None \<Rightarrow> None
      | Some item \<Rightarrow> let q = query_of item in if q \<noteq> [] then Some q else None)"

definition AUTO_CONTINUE_PROMPT :: str where
  "AUTO_CONTINUE_PROMPT =
     ''Continue the conversation from where it left off without asking the user any further questions. Resume directly - do not acknowledge the summary, do not recap what was happening, do not preface with '' @ [dquote] @ ''I'' @ [squote] @ ''ll continue'' @ [dquote] @ '' or similar.'' @ [newline] @
     ''Pick up the last task as if the break never happened.''"

definition is_synthetic_extracted_query :: "str \<Rightarrow> bool" where
  "is_synthetic_extracted_query q = (q = [] \<or> q = ''__auto_continue__'' \<or> q = AUTO_CONTINUE_PROMPT)"

fun is_image :: "content_part \<Rightarrow> bool" where
  "is_image (ImagePart url) = True"
| "is_image (TextPart t) = False"

fun is_real_user_turn :: "conversation_item \<Rightarrow> bool" where
  "is_real_user_turn (User u) =
     (if ui_synthetic_reason u \<noteq> None then False
      else if list_ex is_image (ui_content u) then True
      else \<not> is_synthetic_extracted_query (extract_user_query (user_text u)))"
| "is_real_user_turn _ = False"

definition extract_real_user_queries :: "conversation \<Rightarrow> str list" where
  "extract_real_user_queries conversation = map query_of (filter is_real_user_turn conversation)"

definition extract_last_real_user_query :: "conversation \<Rightarrow> str option" where
  "extract_last_real_user_query conversation = map_option query_of (find is_real_user_turn (rev conversation))"

fun tail_message :: "conversation_item \<Rightarrow> conversation_item option" where
  "tail_message (Assistant a) = Some (Assistant a)"
| "tail_message (ToolResult t) =
     Some (ToolResult \<lparr>ti_tool_call_id = ti_tool_call_id t, ti_content = ''Tool call omitted...'', ti_images = []\<rparr>)"
| "tail_message _ = None"

definition extract_messages_since_last_user :: "conversation \<Rightarrow> conversation" where
  "extract_messages_since_last_user conversation =
     rev (List.map_filter tail_message (takeWhile (\<lambda>i. \<not> is_user i) (rev conversation)))"

definition rposition :: "('a \<Rightarrow> bool) \<Rightarrow> 'a list \<Rightarrow> nat option" where
  "rposition P xs =
     (let k = length (takeWhile (\<lambda>x. \<not> P x) (rev xs)) in if k = length xs then None else Some (length xs - 1 - k))"

definition extract_messages_since_last_real_user :: "conversation \<Rightarrow> conversation" where
  "extract_messages_since_last_real_user conversation =
     (let start = (case rposition is_real_user_turn conversation of Some idx \<Rightarrow> idx + 1 | None \<Rightarrow> 0)
      in List.map_filter tail_message (drop start conversation))"

subsection \<open>What is carried over\<close>

record running_subagent_summary =
  rs_subagent_id :: str
  rs_subagent_type :: str
  rs_description :: str
  rs_elapsed_ms :: nat

record background_task_summary =
  bt_task_id :: str
  bt_command :: str
  bt_status :: str
  bt_tool_name :: "str option"

record compaction_server_summary =
  sv_name :: str
  sv_tool_count :: nat
  sv_description :: "str option"

datatype todo_summary_status = TodoPending | TodoInProgress | TodoCompleted | TodoCancelled

definition is_actionable :: "todo_summary_status \<Rightarrow> bool" where
  "is_actionable s = (s = TodoPending \<or> s = TodoInProgress)"

fun todo_tag :: "todo_summary_status \<Rightarrow> str" where
  "todo_tag TodoPending = ''[pending]''"
| "todo_tag TodoInProgress = ''[in_progress]''"
| "todo_tag TodoCompleted = ''[completed]''"
| "todo_tag TodoCancelled = ''[cancelled]''"

record todo_summary =
  td_id :: str
  td_content :: str
  td_status :: todo_summary_status

text \<open>The set of edited paths is the list of its elements in order.\<close>

record compaction_state_context =
  cs_recent_messages :: conversation
  cs_last_user_query :: "str option"
  cs_agent_edited_paths :: "str list"
  cs_running_tasks :: "background_task_summary list"
  cs_running_subagents :: "running_subagent_summary list"
  cs_connected_mcp_servers :: "compaction_server_summary list"
  cs_todos :: "todo_summary list"

record compaction_inputs =
  ci_running_tasks :: "background_task_summary list"
  ci_running_subagents :: "running_subagent_summary list"
  ci_agent_edited_paths :: "str list"
  ci_connected_mcp_servers :: "compaction_server_summary list"
  ci_todos :: "todo_summary list"

definition build_state_context :: "conversation \<Rightarrow> compaction_inputs \<Rightarrow> compaction_state_context" where
  "build_state_context conversation inputs =
     \<lparr>cs_recent_messages = extract_messages_since_last_real_user conversation,
      cs_last_user_query = extract_last_real_user_query conversation,
      cs_agent_edited_paths = ci_agent_edited_paths inputs,
      cs_running_tasks = ci_running_tasks inputs,
      cs_running_subagents = ci_running_subagents inputs,
      cs_connected_mcp_servers = ci_connected_mcp_servers inputs,
      cs_todos = ci_todos inputs\<rparr>"

definition task_summary :: "str \<Rightarrow> str \<Rightarrow> str \<Rightarrow> str option \<Rightarrow> background_task_summary" where
  "task_summary task_id command status tool_name =
     \<lparr>bt_task_id = task_id, bt_command = command, bt_status = status, bt_tool_name = tool_name\<rparr>"

definition for_compaction :: "compaction_state_context \<Rightarrow> compaction_state_context" where
  "for_compaction c = c\<lparr>cs_recent_messages := []\<rparr>"

record compaction_attempt =
  ca_attempt :: nat
  ca_outcome :: str
  ca_summary_chars :: nat
  ca_summary :: "str option"
  ca_error :: "str option"

subsection \<open>The new conversation\<close>

record compacted_history_input =
  hi_system_message :: conversation_item
  hi_user_message_prefix :: str
  hi_agents_md_reminder :: "str option"
  hi_state_context :: compaction_state_context
  hi_compaction_summary :: str
  hi_system_reminder :: "str option"
  hi_summary_before_recent :: bool
  hi_transcript_hint :: "str option"
  hi_summary_count :: nat

definition summary_before_recent_carrier :: "compacted_history_input \<Rightarrow> str option" where
  "summary_before_recent_carrier inp = None"

definition item_of :: "(str \<Rightarrow> conversation_item) \<Rightarrow> str option \<Rightarrow> conversation" where
  "item_of f t = (case t of Some s \<Rightarrow> [f s] | None \<Rightarrow> [])"

definition build_compacted_history :: "compacted_history_input \<Rightarrow> conversation" where
  "build_compacted_history inp =
     (let carrier = summary_before_recent_carrier inp;
          summary_first = carrier \<noteq> None;
          summary_item =
            (case carrier of
               Some c \<Rightarrow> user_meta c
             | None \<Rightarrow>
                 user_meta (format_compact_summary_content (hi_compaction_summary inp)
                            @ (case hi_transcript_hint inp of Some hint \<Rightarrow> hint | None \<Rightarrow> [])));
          recent = cs_recent_messages (hi_state_context inp)
      in [hi_system_message inp, user_meta (hi_user_message_prefix inp)]
         @ item_of project_instructions (hi_agents_md_reminder inp)
         @ item_of (\<lambda>q. user (wrap_user_query q)) (cs_last_user_query (hi_state_context inp))
         @ (if summary_first then summary_item # recent else recent @ [summary_item])
         @ item_of system_reminder (hi_system_reminder inp))"

subsection \<open>The mode of a compaction (\<open>compaction_mode.rs\<close>)\<close>

datatype compaction_detail = DetailNone | DetailMinimal | DetailBalanced | DetailVerbose

definition compaction_detail_parse :: "str \<Rightarrow> compaction_detail option" where
  "compaction_detail_parse s =
     (let w = to_ascii_lowercase (trim s)
      in if w = ''none'' then Some DetailNone
         else if w = ''minimal'' then Some DetailMinimal
         else if w = ''balanced'' then Some DetailBalanced
         else if w = ''verbose'' then Some DetailVerbose
         else None)"

datatype compaction_mode = SummaryMode | TranscriptMode | SegmentsMode compaction_detail

definition compaction_mode_parse :: "str \<Rightarrow> compaction_mode option" where
  "compaction_mode_parse s =
     (let w = to_ascii_lowercase (trim s)
      in if w = ''summary'' then Some SummaryMode
         else if w = ''transcript'' then Some TranscriptMode
         else if w = ''segments'' then Some (SegmentsMode DetailVerbose)
         else None)"

fun with_segment_detail :: "compaction_mode \<Rightarrow> compaction_detail \<Rightarrow> compaction_mode" where
  "with_segment_detail (SegmentsMode d) detail = SegmentsMode detail"
| "with_segment_detail other detail = other"

fun segment_detail :: "compaction_mode \<Rightarrow> compaction_detail option" where
  "segment_detail (SegmentsMode d) = Some d"
| "segment_detail _ = None"

fun writes_segments :: "compaction_mode \<Rightarrow> bool" where
  "writes_segments (SegmentsMode d) = True"
| "writes_segments _ = False"

definition INDEX_FILE :: str where "INDEX_FILE = ''INDEX.md''"

fun transcript_hint :: "compaction_mode \<Rightarrow> str option \<Rightarrow> str option" where
  "transcript_hint m None = None"
| "transcript_hint SummaryMode (Some loc) = None"
| "transcript_hint TranscriptMode (Some loc) =
     Some ([newline, newline] @ ''If you need specific details from before compaction ''
           @ ''(like exact code snippets, error messages, or content you ''
           @ ''generated), read the full transcript at: '' @ loc)"
| "transcript_hint (SegmentsMode d) (Some loc) =
     Some ([newline, newline] @ ''Full verbatim rollouts of previous segments are available ''
           @ ''at '' @ loc @ ''/segment_*.md.  See '' @ loc @ ''/'' @ INDEX_FILE @ '' for a table of ''
           @ ''contents.  Use read_file or grep to recover specific details ''
           @ ''(exact code, file paths, tool outputs) if this summary is ''
           @ ''insufficient.  Do NOT modify these files.'')"

end
