(* ===== verification/Compaction_Engine.thy ===== *)
theory Compaction_Engine
  imports Compaction
begin

section \<open>The compaction engine (\<open>common/cf-compaction\<close>)\<close>

text \<open>
  The engine summarises conversations of any product: it sees an item through the functions of the record
  \<open>compaction_item\<close> and builds items with those of \<open>compaction_factory\<close>, the two traits of the code. This theory
  holds these seams with their implementation for conversation items, the selection of what is summarised, the
  classification of failures, the loop that asks the model for a summary, and the full replacement of a history.
  The model is a sampler: a function of its own state, the turns, the prompt and the timeout. The texts of the
  prompt templates are arguments.
\<close>

subsection \<open>Items (\<open>item.rs\<close>)\<close>

datatype compaction_role = SystemRole | DeveloperRole | UserRole | AssistantRole | ToolRole

record compaction_file_ref =
  fr_id :: str
  fr_name :: str

record 'i compaction_item =
  cmp_role :: "'i \<Rightarrow> compaction_role"
  cmp_text :: "'i \<Rightarrow> str option"
  cmp_has_tool_requests :: "'i \<Rightarrow> bool"
  cmp_is_summary :: "'i \<Rightarrow> bool"
  cmp_attachment_refs :: "'i \<Rightarrow> compaction_file_ref list"

definition cmp_is_tool_result :: "'i compaction_item \<Rightarrow> 'i \<Rightarrow> bool" where
  "cmp_is_tool_result I item = (cmp_role I item = ToolRole)"

record 'i compaction_builder = "'i compaction_item" +
  cmp_summary_item :: "str \<Rightarrow> 'i"
  cmp_strip_tool_content :: "'i \<Rightarrow> 'i option"

record 'i compaction_factory =
  new_user :: "str \<Rightarrow> 'i"
  new_user_meta :: "str \<Rightarrow> 'i"
  new_project_instructions :: "str \<Rightarrow> 'i"
  new_system_reminder :: "str \<Rightarrow> 'i"

text \<open>
  The seams of a conversation item. Its text can panic (a call of the code interpreter); the engine reads texts of
  user items and of summaries only, so the panic is read as no text here.
\<close>

fun conversation_role :: "conversation_item \<Rightarrow> compaction_role" where
  "conversation_role (System s) = SystemRole"
| "conversation_role (User u) = UserRole"
| "conversation_role (Assistant a) = AssistantRole"
| "conversation_role (ToolResult t) = ToolRole"
| "conversation_role (BackendToolCall b) = AssistantRole"
| "conversation_role (Reasoning r) = AssistantRole"

definition conversation_text :: "conversation_item \<Rightarrow> str option" where
  "conversation_text item =
     (case text_content item of Some t \<Rightarrow> if t = [] then None else Some t | None \<Rightarrow> None)"

fun conversation_has_tool_requests :: "conversation_item \<Rightarrow> bool" where
  "conversation_has_tool_requests (Assistant a) = (ai_tool_calls a \<noteq> [])"
| "conversation_has_tool_requests _ = False"

definition conversation_seam :: "conversation_item compaction_item" where
  "conversation_seam =
     \<lparr>cmp_role = conversation_role, cmp_text = conversation_text,
      cmp_has_tool_requests = conversation_has_tool_requests, cmp_is_summary = (\<lambda>_. False),
      cmp_attachment_refs = (\<lambda>_. [])\<rparr>"

definition conversation_factory :: "conversation_item compaction_factory" where
  "conversation_factory =
     \<lparr>new_user = user, new_user_meta = user_meta, new_project_instructions = project_instructions,
      new_system_reminder = system_reminder\<rparr>"

subsection \<open>Selecting what is compacted (\<open>select.rs\<close>)\<close>

text \<open>Token counts are \<open>u32\<close>. The walk goes back from the newest item; here it runs over the reversed counts.\<close>

definition saturating_add_u32 :: "nat \<Rightarrow> nat \<Rightarrow> nat" where
  "saturating_add_u32 a b = min (a + b) U32_MAX"

record split_plan =
  sp_split_idx :: nat
  sp_tokens_to_compact :: nat

fun walk_back :: "nat \<Rightarrow> nat \<Rightarrow> nat \<Rightarrow> nat \<Rightarrow> nat list \<Rightarrow> nat" where
  "walk_back item_count target_tokens kept split_idx [] = split_idx"
| "walk_back item_count target_tokens kept split_idx (count # older) =
     (let i = length older
      in if target_tokens < saturating_add_u32 kept count then (if i = item_count - 1 then item_count - 1 else i + 1)
         else walk_back item_count target_tokens (saturating_add_u32 kept count) i older)"

definition snap_to_safe_boundary :: "'i compaction_item \<Rightarrow> 'i list \<Rightarrow> nat \<Rightarrow> nat" where
  "snap_to_safe_boundary I items candidate =
     (if length items \<le> candidate then length items
      else candidate + length (takeWhile (cmp_is_tool_result I) (drop candidate items)))"

text \<open>Counts of another length than the items panic when they are too few; the surplus is not looked at.\<close>

definition select_turns_to_compact ::
  "'i compaction_item \<Rightarrow> nat list \<Rightarrow> 'i list \<Rightarrow> nat \<Rightarrow> nat \<Rightarrow> split_plan option option" where
  "select_turns_to_compact I item_token_counts items target_tokens min_compactable =
     (let total = length items
      in if total = 0 then Some None
         else if length item_token_counts < total then None
         else let split_idx = walk_back total target_tokens 0 total (rev (take total item_token_counts))
              in Some
                  (if split_idx = 0 then None
                   else let safe_split_idx = snap_to_safe_boundary I items split_idx
                        in if total \<le> safe_split_idx then None
                           else let tokens_to_compact = foldl saturating_add_u32 0 (take safe_split_idx item_token_counts)
                                in if tokens_to_compact < min_compactable then None
                                   else Some \<lparr>sp_split_idx = safe_split_idx, sp_tokens_to_compact = tokens_to_compact\<rparr>))"

subsection \<open>Failures (\<open>failure.rs\<close>, \<open>sampler.rs\<close>)\<close>

datatype failure_kind = Deterministic | Transient

definition is_context_length_error :: "str \<Rightarrow> bool" where
  "is_context_length_error message =
     (let m = to_ascii_lowercase message
      in contains m ''too long for this model'' \<or> contains m ''prompt is too long''
         \<or> contains m ''maximum prompt length'' \<or> contains m ''maximum context length''
         \<or> contains m ''context_length_exceeded'')"

definition refused_status :: "nat \<Rightarrow> bool" where
  "refused_status status = (400 \<le> status \<and> status < 500 \<and> status \<noteq> 408 \<and> status \<noteq> 429)"

definition classify_http_status :: "nat \<Rightarrow> str \<Rightarrow> failure_kind" where
  "classify_http_status status message =
     (if is_context_length_error message \<or> refused_status status then Deterministic else Transient)"

text \<open>\<open>str::parse::<u16>\<close>: digits, with an optional plus sign, below \<open>2 ^ 16\<close>.\<close>

definition parse_u16 :: "str \<Rightarrow> nat option" where
  "parse_u16 s =
     (let digits = (case s of c # r \<Rightarrow> if c = CHR ''+'' then r else s | [] \<Rightarrow> []);
          n = foldl (\<lambda>n c. 10 * n + (of_char c - 48)) (0 :: nat) digits
      in if digits = [] \<or> \<not> list_all is_ascii_digit digits \<or> 2 ^ 16 \<le> n then None else Some n)"

definition classify_stream_event_error :: "str option \<Rightarrow> str \<Rightarrow> failure_kind" where
  "classify_stream_event_error code message =
     (if code = Some ''invalid_request_error'' \<or> contains message ''invalid_request_error'' then Deterministic
      else if (case Option.bind code parse_u16 of Some status \<Rightarrow> refused_status status | None \<Rightarrow> False) then Deterministic
      else if is_context_length_error message then Deterministic
      else Transient)"

record llm_compaction_output =
  lo_response :: str
  lo_thinking :: str

datatype compaction_sample_error =
    SampleTimeout nat nat
  | BuildError str
  | StartError str
  | SampleEmptyResponse
  | OtherError str

fun sample_error_display :: "compaction_sample_error \<Rightarrow> str" where
  "sample_error_display (SampleTimeout timeout_secs collected_bytes) =
     ''Compaction sampling timed out after '' @ show_nat timeout_secs @ ''s (collected '' @ show_nat collected_bytes
     @ '' bytes so far)''"
| "sample_error_display (BuildError msg) = ''Compaction sampler build failed: '' @ msg"
| "sample_error_display (StartError msg) = ''Compaction sampler start failed: '' @ msg"
| "sample_error_display SampleEmptyResponse = ''Compaction sampler returned no response channel content''"
| "sample_error_display (OtherError e) = e"

fun is_deterministic :: "compaction_sample_error \<Rightarrow> bool" where
  "is_deterministic (SampleTimeout timeout_secs collected_bytes) = False"
| "is_deterministic SampleEmptyResponse = False"
| "is_deterministic (BuildError msg) = True"
| "is_deterministic (StartError msg) = True"
| "is_deterministic (OtherError msg) =
     (contains msg ''Failed to build AgenticScheduler'' \<or> contains msg ''Failed to start compaction sample'')"

record compaction_prompt =
  cp_system :: str
  cp_user :: str

type_synonym ('s, 'i) compaction_sampler =
  "'s \<Rightarrow> 'i list \<Rightarrow> compaction_prompt \<Rightarrow> nat \<Rightarrow> (compaction_sample_error + llm_compaction_output) \<times> 's"

subsection \<open>Asking for a summary (\<open>code_compaction/sample.rs\<close>)\<close>

datatype attempt_outcome =
    AttemptSuccess str
  | AttemptEmpty bool
  | AttemptDegenerate str bool
  | AttemptFailure str bool bool bool

record sampled_summary =
  ss_summary :: str
  ss_attempts :: nat

datatype sample_retry_error =
    RetryEmpty nat
  | RetryFailure str bool bool nat

text \<open>
  Attempts are numbered from 1; \<open>remaining\<close> is how many may follow. What the observer is told is the list of
  outcomes; the delay between attempts is left out. The error after the loop is never reached: the last attempt
  returns in every branch.
\<close>

fun sample_attempts ::
  "('s, 'i) compaction_sampler \<Rightarrow> 'i list \<Rightarrow> compaction_prompt \<Rightarrow> nat \<Rightarrow> nat \<Rightarrow> nat \<Rightarrow> 's
   \<Rightarrow> (sample_retry_error + sampled_summary) \<times> (nat \<times> attempt_outcome) list \<times> 's" where
  "sample_attempts sampler turns prompt timeout attempt remaining s =
     (let will_retry = 0 < remaining;
          (result, s) = sampler s turns prompt timeout;
          retry = (\<lambda>outcome failed.
             case remaining of
               0 \<Rightarrow> (Inl failed, [(attempt, outcome)], s)
             | Suc n \<Rightarrow> apsnd (apfst (Cons (attempt, outcome)))
                         (sample_attempts sampler turns prompt timeout (attempt + 1) n s))
      in case result of
           Inr output \<Rightarrow>
             if trim (lo_response output) \<noteq> [] then
               if is_degenerate_summary (lo_response output) then
                 retry (AttemptDegenerate (lo_response output) will_retry) (RetryEmpty attempt)
               else (Inr \<lparr>ss_summary = lo_response output, ss_attempts = attempt\<rparr>,
                     [(attempt, AttemptSuccess (lo_response output))], s)
             else retry (AttemptEmpty will_retry) (RetryEmpty attempt)
         | Inl e \<Rightarrow>
             let message = sample_error_display e;
                 context_overflow = is_context_length_error message;
                 deterministic = is_deterministic e \<or> context_overflow;
                 outcome = AttemptFailure message deterministic context_overflow (will_retry \<and> \<not> deterministic)
             in if deterministic then
                  (Inl (RetryFailure message True context_overflow attempt), [(attempt, outcome)], s)
                else retry outcome (RetryFailure message False False attempt))"

declare sample_attempts.simps [simp del]

definition sample_summary_with_retries ::
  "('s, 'i) compaction_sampler \<Rightarrow> 'i list \<Rightarrow> compaction_prompt \<Rightarrow> nat \<Rightarrow> nat \<Rightarrow> 's
   \<Rightarrow> (sample_retry_error + sampled_summary) \<times> (nat \<times> attempt_outcome) list \<times> 's" where
  "sample_summary_with_retries sampler turns prompt max_attempts timeout s =
     sample_attempts sampler turns prompt timeout 1 (max max_attempts 1 - 1) s"

subsection \<open>Prompts (\<open>code_compaction/prompt.rs\<close>)\<close>

definition build_summary_prompt :: "str \<Rightarrow> str option \<Rightarrow> str" where
  "build_summary_prompt template user_context =
     (let user_context_section =
            (case user_context of
               Some context \<Rightarrow>
                 [newline, newline] @ ''**User-provided context for this compaction:**'' @ [newline] @ context
                 @ [newline, newline] @ ''Please incorporate this context into your summary, ensuring it is prominently ''
                 @ ''addressed in the relevant sections.'' @ [newline, newline]
             | None \<Rightarrow> [])
      in replace_all ''{user_context_section}'' user_context_section template)"

definition SELF_SUMMARIZATION_PROMPT :: str where
  "SELF_SUMMARIZATION_PROMPT =
     join [newline]
       [''<summary_request>'',
        ''Please summarize the conversation so far. This summary (everything after your'',
        ''thinking) will be provided to another AI assistant to continue working on the'',
        ''task. The other assistant will only see the user'' @ [squote] @ ''s original query and your'',
        ''summary, it will not have access to any tool calls or tool outputs from this'',
        ''conversation. The purpose of the summary is to compress the conversation'',
        ''context while preserving the essential information needed to seamlessly'',
        ''continue. Useful things to include: the user'' @ [squote] @ ''s requests, what you'' @ [squote] @ ''ve done so'',
        ''far, relevant file paths and code details, any errors encountered and how'',
        ''they were resolved, and what remains to be done. DO NOT call any tools in'',
        ''your response.'',
        ''</summary_request>'']"

datatype summary_prompt_kind = Structured | SelfSummary

definition build_summary_prompt_kind :: "str \<Rightarrow> summary_prompt_kind \<Rightarrow> str option \<Rightarrow> str" where
  "build_summary_prompt_kind template kind user_context =
     (case kind of
        Structured \<Rightarrow> build_summary_prompt template user_context
      | SelfSummary \<Rightarrow>
          (case user_context of
             Some ctx \<Rightarrow>
               SELF_SUMMARIZATION_PROMPT @ [newline, newline] @ ''<user_provided_context>'' @ [newline] @ ctx
               @ [newline] @ ''</user_provided_context>'' @ [newline, newline]
               @ ''Incorporate the user-provided context above into your summary.''
           | None \<Rightarrow> SELF_SUMMARIZATION_PROMPT))"

subsection \<open>Full replacement (\<open>code_compaction/assemble.rs\<close>, \<open>compact.rs\<close>)\<close>

record 'i compacted_history_parts =
  hp_system_message :: 'i
  hp_user_message_prefix :: str
  hp_agents_md_reminder :: "str option"
  hp_last_user_query :: "str option"
  hp_recent_messages :: "'i list"
  hp_compaction_summary :: str
  hp_system_reminder :: "str option"
  hp_transcript_hint :: "str option"

definition pushed_item :: "(str \<Rightarrow> 'i) \<Rightarrow> str option \<Rightarrow> 'i list" where
  "pushed_item f t = (case t of Some s \<Rightarrow> [f s] | None \<Rightarrow> [])"

definition assemble_compacted_history :: "'i compaction_factory \<Rightarrow> 'i compacted_history_parts \<Rightarrow> 'i list" where
  "assemble_compacted_history F parts =
     (let compacted = [hp_system_message parts, new_user_meta F (hp_user_message_prefix parts)];
          compacted = compacted @ pushed_item (new_project_instructions F) (hp_agents_md_reminder parts);
          compacted = compacted @ pushed_item (\<lambda>q. new_user F (wrap_user_query q)) (hp_last_user_query parts);
          formatted_summary = format_compact_summary_content (hp_compaction_summary parts)
            @ (case hp_transcript_hint parts of Some hint \<Rightarrow> hint | None \<Rightarrow> []);
          compacted = compacted @ hp_recent_messages parts @ [new_user_meta F formatted_summary]
      in compacted @ pushed_item (new_system_reminder F) (hp_system_reminder parts))"

record full_replace_config =
  fc_max_attempts :: nat
  fc_retry_delay_secs :: nat
  fc_sampling_timeout_secs :: nat

definition default_full_replace :: full_replace_config where
  "default_full_replace = \<lparr>fc_max_attempts = 3, fc_retry_delay_secs = 3, fc_sampling_timeout_secs = 120\<rparr>"

record 'i full_replace_context =
  fx_system_message :: 'i
  fx_user_message_prefix :: str
  fx_agents_md_reminder :: "str option"
  fx_last_user_query :: "str option"
  fx_recent_messages :: "'i list"
  fx_system_reminder :: "str option"
  fx_transcript_hint :: "str option"

datatype full_replace_error = NothingToCompact | EmptyResponse | SamplerError str bool bool

record 'i full_replace_output =
  fo_history :: "'i list"
  fo_summary :: str
  fo_attempts :: nat

text \<open>The observer is told the outcome of each attempt and then the end of the pass: success or error.\<close>

datatype pass_end = PassSuccess nat nat | PassError nat

definition sample_full_replace_summary ::
  "str \<Rightarrow> ('s, 'i) compaction_sampler \<Rightarrow> 'i list \<Rightarrow> str option \<Rightarrow> full_replace_config \<Rightarrow> 's
   \<Rightarrow> (full_replace_error + sampled_summary) \<times> (nat \<times> attempt_outcome) list \<times> pass_end list \<times> 's" where
  "sample_full_replace_summary template sampler llm_turns user_context config s =
     (if llm_turns = [] then (Inl NothingToCompact, [], [], s)
      else let prompt = \<lparr>cp_system = [], cp_user = build_summary_prompt template user_context\<rparr>;
               (result, outcomes, s) =
                 sample_summary_with_retries sampler llm_turns prompt (fc_max_attempts config)
                   (fc_sampling_timeout_secs config) s
           in case result of
                Inr sampled \<Rightarrow>
                  (Inr sampled, outcomes, [PassSuccess (ss_attempts sampled) (char_count (ss_summary sampled))], s)
              | Inl (RetryEmpty attempts) \<Rightarrow> (Inl EmptyResponse, outcomes, [PassError attempts], s)
              | Inl (RetryFailure message deterministic context_overflow attempts) \<Rightarrow>
                  (Inl (SamplerError message deterministic context_overflow), outcomes, [PassError attempts], s))"

definition apply_full_replace_compaction ::
  "str \<Rightarrow> 'i compaction_factory \<Rightarrow> ('s, 'i) compaction_sampler \<Rightarrow> 'i list \<Rightarrow> str option \<Rightarrow> 'i full_replace_context
   \<Rightarrow> full_replace_config \<Rightarrow> 's \<Rightarrow> (full_replace_error + 'i full_replace_output) \<times> (nat \<times> attempt_outcome) list
      \<times> pass_end list \<times> 's" where
  "apply_full_replace_compaction template F sampler llm_turns user_context ctx config s =
     apfst (map_sum id (\<lambda>sampled.
        \<lparr>fo_history = assemble_compacted_history F
           \<lparr>hp_system_message = fx_system_message ctx, hp_user_message_prefix = fx_user_message_prefix ctx,
            hp_agents_md_reminder = fx_agents_md_reminder ctx, hp_last_user_query = fx_last_user_query ctx,
            hp_recent_messages = fx_recent_messages ctx, hp_compaction_summary = ss_summary sampled,
            hp_system_reminder = fx_system_reminder ctx, hp_transcript_hint = fx_transcript_hint ctx\<rparr>,
         fo_summary = ss_summary sampled, fo_attempts = ss_attempts sampled\<rparr>))
       (sample_full_replace_summary template sampler llm_turns user_context config s)"

end
