(* ===== verification/Compaction_History.thy ===== *)
theory Compaction_History
  imports Compaction_Engine
begin

section \<open>Compacting histories (\<open>common/cf-compaction/src/history\<close>, \<open>inter_compaction\<close>)\<close>

text \<open>
  What compacts a history between turns, generic over the items: filtering, the queries of the user that are carried
  verbatim from summary to summary, the check of a result, and the pipeline in chunks. Sums of token counts wrap at
  32 bits, as in a release build; the prompt of the pass is an argument.
\<close>

subsection \<open>Filtering and queries (\<open>history/filter.rs\<close>)\<close>

definition keep_turn_for_basic_compaction :: "('i, 'x) compaction_item_scheme \<Rightarrow> 'i \<Rightarrow> bool" where
  "keep_turn_for_basic_compaction I turn =
     (case cmp_role I turn of SystemRole \<Rightarrow> False | DeveloperRole \<Rightarrow> cmp_is_summary I turn | _ \<Rightarrow> True)"

definition filter_turns_for_basic :: "('i, 'x) compaction_item_scheme \<Rightarrow> 'i list \<Rightarrow> 'i list" where
  "filter_turns_for_basic I turns = filter (keep_turn_for_basic_compaction I) turns"

definition inter_turn :: "('i, 'x) compaction_builder_scheme \<Rightarrow> 'i \<Rightarrow> 'i option" where
  "inter_turn B turn =
     (case cmp_role B turn of
        ToolRole \<Rightarrow> None
      | SystemRole \<Rightarrow> None
      | DeveloperRole \<Rightarrow> if cmp_is_summary B turn then Some turn else None
      | UserRole \<Rightarrow> Some turn
      | AssistantRole \<Rightarrow> cmp_strip_tool_content B turn)"

definition filter_turns_for_inter_compaction :: "('i, 'x) compaction_builder_scheme \<Rightarrow> 'i list \<Rightarrow> 'i list" where
  "filter_turns_for_inter_compaction B turns = List.map_filter (inter_turn B) turns"

definition QUERIES_OPEN :: str where "QUERIES_OPEN = ''<grok_user_queries>''"

definition QUERIES_CLOSE :: str where "QUERIES_CLOSE = ''</grok_user_queries>''"

definition push_rest :: "str \<Rightarrow> str \<Rightarrow> str" where
  "push_rest rest part =
     (if part = [] then rest else if rest = [] then part else rest @ [newline] @ part)"

text \<open>\<open>text\<close> is what is left from the cursor on.\<close>

function split_prior_loop :: "str \<Rightarrow> str list \<Rightarrow> str \<Rightarrow> str list \<times> str" where
  "split_prior_loop text user_sections rest =
     (case find_sub text QUERIES_OPEN of
        None \<Rightarrow> (user_sections, push_rest rest (trim text))
      | Some start \<Rightarrow>
          (case find_sub (drop start text) QUERIES_CLOSE of
             None \<Rightarrow> (user_sections, push_rest rest (trim text))
           | Some i \<Rightarrow>
               let block_end = start + i + length QUERIES_CLOSE
               in split_prior_loop (drop block_end text) (user_sections @ [slice text start block_end])
                    (push_rest rest (trim (take start text)))))"
  by pat_completeness auto
termination
proof (relation "measure (\<lambda>(w, _). length w)")
  fix w :: str and us rest a i b
  assume "find_sub w QUERIES_OPEN = Some a" "find_sub (drop a w) QUERIES_CLOSE = Some i"
    "b = a + i + length QUERIES_CLOSE"
  then have "b \<le> length w" "0 < b" using find_sub_less[of "drop a w"] by (fastforce simp: QUERIES_CLOSE_def)+
  then show "((drop b w, us @ [slice w a b], push_rest rest (trim (take a w))), (w, us, rest))
             \<in> measure (\<lambda>(w, _). length w)"
    by simp
qed auto

declare split_prior_loop.simps [simp del]

definition split_prior_compaction_text :: "str \<Rightarrow> str option \<times> str" where
  "split_prior_compaction_text text =
     (let (user_sections, rest) = split_prior_loop text [] []
      in if user_sections = [] then (None, text) else (Some (join [newline] user_sections), rest))"

definition truncate_middle :: "str \<Rightarrow> nat \<Rightarrow> str option" where
  "truncate_middle msg max_chars =
     (if char_count msg \<le> max_chars then None
      else let front_len = max_chars div 2;
               back_len = max_chars - front_len
           in Some (take_chars front_len msg @ ''...[truncated]...'' @ skip_chars (char_count msg - back_len) msg))"

definition file_line :: "compaction_file_ref \<Rightarrow> str" where
  "file_line att_ref =
     ''<grok_file id='' @ [dquote] @ fr_id att_ref @ [dquote] @ '' name='' @ [dquote] @ fr_name att_ref @ [dquote]
     @ '' />'' @ [newline]"

definition user_query_block :: "('i, 'x) compaction_item_scheme \<Rightarrow> nat \<Rightarrow> 'i \<Rightarrow> str option" where
  "user_query_block I threshold turn =
     (if cmp_role I turn \<noteq> UserRole then None
      else let content = (case cmp_text I turn of Some t \<Rightarrow> t | None \<Rightarrow> []);
               attachments = cmp_attachment_refs I turn
           in if content = [] \<and> attachments = [] then None
              else Some (''<grok_query>''
                @ (case truncate_middle content threshold of Some shortened \<Rightarrow> shortened | None \<Rightarrow> content)
                @ (if attachments \<noteq> [] then newline # concat (map file_line attachments) else [])
                @ ''</grok_query>'' @ [newline]))"

definition extract_user_queries_from_turns :: "('i, 'x) compaction_item_scheme \<Rightarrow> 'i list \<Rightarrow> nat \<Rightarrow> str option" where
  "extract_user_queries_from_turns I turns user_truncate_chars =
     (let emitted = List.map_filter (user_query_block I user_truncate_chars) turns
      in if emitted = [] then None else Some (QUERIES_OPEN @ [newline] @ concat emitted @ QUERIES_CLOSE))"

record 'i separated_history_turns =
  sh_turns_for_llm :: "'i list"
  sh_prior_user_queries :: "str option"
  sh_has_prior_compaction :: bool

definition join_queries :: "str option \<Rightarrow> str option \<Rightarrow> str option" where
  "join_queries prior section =
     (case section of
        None \<Rightarrow> prior
      | Some user_sec \<Rightarrow> (case prior of Some existing \<Rightarrow> Some (existing @ [newline] @ user_sec) | None \<Rightarrow> Some user_sec))"

definition separate_turn ::
  "('i, 'x) compaction_builder_scheme \<Rightarrow> 'i \<Rightarrow> 'i separated_history_turns \<Rightarrow> 'i separated_history_turns" where
  "separate_turn B turn acc =
     (if cmp_is_summary B turn then
        let content = (case cmp_text B turn of Some t \<Rightarrow> t | None \<Rightarrow> []);
            (user_section, rest) = split_prior_compaction_text content
        in \<lparr>sh_turns_for_llm = sh_turns_for_llm acc @ (if rest \<noteq> [] then [cmp_summary_item B rest] else []),
            sh_prior_user_queries = join_queries (sh_prior_user_queries acc) user_section,
            sh_has_prior_compaction = True\<rparr>
      else acc\<lparr>sh_turns_for_llm := sh_turns_for_llm acc @ [turn]\<rparr>)"

definition separate_prior_user_queries ::
  "('i, 'x) compaction_builder_scheme \<Rightarrow> 'i list \<Rightarrow> 'i separated_history_turns" where
  "separate_prior_user_queries B turns =
     fold (separate_turn B) turns
       \<lparr>sh_turns_for_llm = [], sh_prior_user_queries = None, sh_has_prior_compaction = False\<rparr>"

definition extract_prior_user_queries :: "('i, 'x) compaction_builder_scheme \<Rightarrow> 'i list \<Rightarrow> str option" where
  "extract_prior_user_queries B turns = sh_prior_user_queries (separate_prior_user_queries B turns)"

definition assemble_user_queries_preamble :: "str option \<Rightarrow> str option \<Rightarrow> str" where
  "assemble_user_queries_preamble prior current =
     (case prior of Some p \<Rightarrow> p @ [newline, newline] | None \<Rightarrow> [])
     @ (case current of Some c \<Rightarrow> c @ [newline, newline] | None \<Rightarrow> [])"

definition build_user_queries_preamble :: "('i, 'x) compaction_builder_scheme \<Rightarrow> 'i list \<Rightarrow> str option \<Rightarrow> str" where
  "build_user_queries_preamble B turns current_user_queries =
     assemble_user_queries_preamble (extract_prior_user_queries B turns) current_user_queries"

definition wrap_chunk_analysis :: "nat \<Rightarrow> str \<Rightarrow> str" where
  "wrap_chunk_analysis index thinking =
     (let trimmed = trim thinking
      in if trimmed = [] then []
         else ''<chunk_analysis index='' @ [dquote] @ show_nat index @ [dquote] @ ''>'' @ [newline] @ trimmed
              @ [newline] @ ''</chunk_analysis>'' @ [newline, newline])"

subsection \<open>The check of a result (\<open>history/validate.rs\<close>)\<close>

datatype compaction_strategy = BasicStrategy | DivideAndConquer | FullReplaceStrategy

datatype compaction_validation_error = EmptyContent | UnbalancedChunkTags nat nat

text \<open>\<open>s.matches(p).count()\<close>, without overlaps.\<close>

function match_count :: "str \<Rightarrow> str \<Rightarrow> nat" where
  "match_count p s =
     (case s of
        [] \<Rightarrow> 0
      | c # r \<Rightarrow> if p \<noteq> [] \<and> starts_with s p then Suc (match_count p (drop (length p) s)) else match_count p r)"
  by pat_completeness auto
termination
  by (relation "measure (\<lambda>(p, s). length s)") auto

declare match_count.simps [simp del]

definition validate_compaction_text :: "str \<Rightarrow> compaction_strategy \<Rightarrow> compaction_validation_error option" where
  "validate_compaction_text content strategy =
     (if trim content = [] then Some EmptyContent
      else if strategy = DivideAndConquer then
        let open_count = match_count ''<chunk_summary'' content;
            close_count = match_count ''</chunk_summary>'' content
        in if open_count \<noteq> close_count then Some (UnbalancedChunkTags open_count close_count) else None
      else None)"

subsection \<open>Between turns: chunks (\<open>inter_compaction/compact.rs\<close>)\<close>

record inter_compaction_config =
  xc_sampling_timeout_secs :: nat
  xc_compaction_strategy :: compaction_strategy
  xc_dnc_chunk_token_limit :: nat
  xc_user_message_compact_threshold :: nat

definition UNBOUNDED_CHUNK_LIMIT :: nat where "UNBOUNDED_CHUNK_LIMIT = U32_MAX"

datatype inter_event = ChunkSampled bool | Recompaction | ChunkCount nat

record chunked_compaction_output =
  co_combined_text :: str
  co_analysis_text :: str

text \<open>A chunk is one call of the model with the history prompt; the observer is told whether it succeeded.\<close>

definition flush_chunk ::
  "('s, 'i) compaction_sampler \<Rightarrow> compaction_prompt \<Rightarrow> inter_compaction_config \<Rightarrow> 'i list \<Rightarrow> 's \<times> inter_event list
   \<Rightarrow> (compaction_sample_error + llm_compaction_output) \<times> 's \<times> inter_event list" where
  "flush_chunk sampler prompt config turns = (\<lambda>(s, events).
     let (result, s) = sampler s turns prompt (xc_sampling_timeout_secs config)
     in (result, s, events @ [ChunkSampled (\<not> isl result)]))"

fun chunk_loop ::
  "('i list \<Rightarrow> 't \<Rightarrow> ('e + llm_compaction_output) \<times> 't) \<Rightarrow> nat \<Rightarrow> ('i \<Rightarrow> nat) \<Rightarrow> 'i list \<Rightarrow> 'i list \<Rightarrow> nat
   \<Rightarrow> llm_compaction_output list \<Rightarrow> 't \<Rightarrow> ('e + llm_compaction_output list) \<times> 't" where
  "chunk_loop flush limit count [] compactable chunk_tokens outputs t =
     (if compactable \<noteq> [] then
        (case flush compactable t of
           (Inl e, t) \<Rightarrow> (Inl e, t)
         | (Inr output, t) \<Rightarrow> (Inr (outputs @ [output]), t))
      else (Inr outputs, t))"
| "chunk_loop flush limit count (turn # turns) compactable chunk_tokens outputs t =
     (let turn_tokens = count turn
      in if compactable \<noteq> [] \<and> limit \<noteq> UNBOUNDED_CHUNK_LIMIT \<and> limit < saturating_add_u32 chunk_tokens turn_tokens then
           (case flush compactable t of
              (Inl e, t) \<Rightarrow> (Inl e, t)
            | (Inr output, t) \<Rightarrow>
                chunk_loop flush limit count turns [turn] (turn_tokens mod 2 ^ 32) (outputs @ [output]) t)
         else chunk_loop flush limit count turns (compactable @ [turn]) ((chunk_tokens + turn_tokens) mod 2 ^ 32)
                outputs t)"

fun chunk_summaries :: "nat \<Rightarrow> llm_compaction_output list \<Rightarrow> str" where
  "chunk_summaries i [] = []"
| "chunk_summaries i (output # outputs) =
     ''<chunk_summary index='' @ [dquote] @ show_nat i @ [dquote] @ ''>'' @ [newline] @ lo_response output
     @ [newline] @ ''</chunk_summary>'' @ [newline, newline] @ chunk_summaries (i + 1) outputs"

fun chunk_analyses :: "nat \<Rightarrow> llm_compaction_output list \<Rightarrow> str" where
  "chunk_analyses i [] = []"
| "chunk_analyses i (output # outputs) = wrap_chunk_analysis i (lo_thinking output) @ chunk_analyses (i + 1) outputs"

definition chunk_token_limit :: "inter_compaction_config \<Rightarrow> nat option" where
  "chunk_token_limit config =
     (case xc_compaction_strategy config of
        BasicStrategy \<Rightarrow> Some UNBOUNDED_CHUNK_LIMIT
      | DivideAndConquer \<Rightarrow> Some (xc_dnc_chunk_token_limit config)
      | FullReplaceStrategy \<Rightarrow> None)"

definition sample_compaction_chunked ::
  "('i, 'x) compaction_builder_scheme \<Rightarrow> compaction_prompt \<Rightarrow> 'i list \<Rightarrow> str option \<Rightarrow> inter_compaction_config
   \<Rightarrow> ('s, 'i) compaction_sampler \<Rightarrow> ('i \<Rightarrow> nat) \<Rightarrow> 's
   \<Rightarrow> (compaction_sample_error + chunked_compaction_output) \<times> 's \<times> inter_event list" where
  "sample_compaction_chunked B prompt turns current_user_queries config sampler count s =
     (case chunk_token_limit config of
        None \<Rightarrow>
          (Inl (BuildError ''full_replace must be routed through the event-proc compact_conversation helper''), s, [])
      | Some limit \<Rightarrow>
          let filtered = filter_turns_for_inter_compaction B turns
          in if filtered = [] then (Inl (OtherError ''No turns remaining after filtering''), s, [])
             else let separated = separate_prior_user_queries B filtered
                  in case chunk_loop (flush_chunk sampler prompt config) limit count (sh_turns_for_llm separated) [] 0 [] (s, [])
                     of (Inl e, s, events) \<Rightarrow> (Inl e, s, events)
                      | (Inr outputs, s, events) \<Rightarrow>
                          (Inr \<lparr>co_combined_text =
                                  assemble_user_queries_preamble (sh_prior_user_queries separated) current_user_queries
                                  @ chunk_summaries 0 outputs,
                                co_analysis_text = chunk_analyses 0 outputs\<rparr>,
                           s, events @ (if sh_has_prior_compaction separated then [Recompaction] else [])
                              @ [ChunkCount (length outputs)]))"

end
