(* ===== verification/Compaction_Props.thy ===== *)
theory Compaction_Props imports Compaction
begin

section \<open>What a compaction keeps\<close>

text \<open>
  Tool calls keep their results and the user's last query stays the last query when a conversation is cut down to
  a budget or replaced by its summary.
\<close>

subsection \<open>Pairs\<close>

lemma all_runs_append:
  "all_runs P xs \<Longrightarrow> all_runs P ys \<Longrightarrow> all_runs P (xs @ ys)"
proof (induction xs rule: runs_induct)
  case (Run a run rest)
  have "ends_run (rest @ ys)"
  proof (cases rest)
    case Nil
    then show ?thesis using Run.prems(2) by (cases ys) (auto simp: ends_run_def all_runs.simps(2) split: conversation_item.splits)
  qed (use Run in \<open>auto simp: ends_run_def\<close>)
  with Run show ?case using all_runs_run[of a run "rest @ ys" P] by simp
qed auto

lemma all_runs_ends: "all_runs P ys \<Longrightarrow> ends_run ys"
  by (cases ys) (auto simp: ends_run_def all_runs.simps(2) split: conversation_item.splits)

lemma all_runs_suffix:
  "all_runs P items \<Longrightarrow> items = xs @ ys \<Longrightarrow> ends_run ys \<Longrightarrow> all_runs P ys"
proof (induction items arbitrary: xs rule: runs_induct)
  case (Item item rest)
  show ?case
  proof (cases xs)
    case Nil
    then show ?thesis using Item by simp
  next
    case (Cons x xs')
    then show ?thesis using Item.IH[of xs'] Item.hyps(1) Item.prems by simp
  qed
next
  case (Run a run rest)
  show ?case
  proof (cases xs)
    case Nil
    then show ?thesis using Run.prems by simp
  next
    case (Cons x xs')
    then have "run @ rest = xs' @ ys" using Run.prems(2) by simp
    then obtain us where us: "run = xs' @ us \<and> us @ rest = ys \<or> run @ us = xs' \<and> rest = us @ ys"
      by (auto simp: append_eq_append_conv2)
    have rest: "all_runs P rest" using Run.prems(1) all_runs_run[OF Run.hyps(1-3), of P] by simp
    show ?thesis
    proof (cases "rest = ys")
      case True
      then show ?thesis using rest by simp
    next
      case False
      then have "run @ us = xs' \<and> rest = us @ ys"
        using us Run.hyps(2) Run.prems(3) by (cases us) (auto simp: ends_run_def list_all_iff)
      then show ?thesis using Run.IH[OF rest] Run.prems(3) by blast
    qed
  qed
qed simp

lemma paired_validates: "well_paired items \<Longrightarrow> validate_from seen items = []"
proof (induction items arbitrary: seen rule: runs_induct)
  case (Item item rest)
  then show ?case by (cases item) auto
next
  case (Run a run rest)
  have "answers a run" and rest: "well_paired rest" using Run.prems all_runs_run[OF Run.hyps(1-3), of answers] by auto
  then have ids: "set (answered_ids run) = tc_id ` set (ai_tool_calls a)" by (simp add: answers_def)
  have "validate_from s (run' @ rest) = validate_from s rest"
    if "list_all is_tool_result run'" "set (answered_ids run') \<subseteq> s" for run' s
    using that
  proof (induction run')
    case (Cons r run')
    then show ?case by (cases r) auto
  qed simp
  then show ?case using Run.IH[OF rest] Run.hyps(2) ids by auto
qed simp

lemma tail_message_results:
  assumes "list_all is_tool_result run"
  shows "list_all is_tool_result (List.map_filter tail_message run)
       \<and> answered_ids (List.map_filter tail_message run) = answered_ids run"
  using assms
proof (induction run)
  case (Cons r run)
  then show ?case by (cases r) (auto simp: answered_ids_def)
qed (simp add: answered_ids_def)

lemma map_filter_append [simp]: "List.map_filter f (xs @ ys) = List.map_filter f xs @ List.map_filter f ys"
  by (simp add: List.map_filter_def)

lemma tail_messages_paired: "well_paired items \<Longrightarrow> well_paired (List.map_filter tail_message items)"
proof (induction items rule: runs_induct)
  case (Item item rest)
  then show ?case by (cases item) auto
next
  case (Run a run rest)
  have runs: "answers a run" "well_paired rest" using Run.prems all_runs_run[OF Run.hyps(1-3), of answers] by auto
  have "answers a (List.map_filter tail_message run)"
    using runs(1) tail_message_results[OF Run.hyps(2)] by (simp add: answers_def)
  moreover have "ends_run (List.map_filter tail_message rest)"
    using Run.IH[OF runs(2)] by (rule all_runs_ends)
  ultimately show ?case
    using Run.hyps Run.IH[OF runs(2)] tail_message_results[OF Run.hyps(2)]
      all_runs_run[of a "List.map_filter tail_message run" "List.map_filter tail_message rest" answers]
    by simp
qed simp

lemma rposition_SomeD: "rposition P xs = Some k \<Longrightarrow> k < length xs \<and> P (xs ! k)"
proof -
  let ?n = "length (takeWhile (\<lambda>x. \<not> P x) (rev xs))"
  assume "rposition P xs = Some k"
  then have k: "k = length xs - 1 - ?n" "?n \<noteq> length xs" by (auto simp: rposition_def Let_def split: if_splits)
  then have n: "?n < length (rev xs)" using length_takeWhile_le[of "\<lambda>x. \<not> P x" "rev xs"] by simp
  then have "P (rev xs ! ?n)" using nth_length_takeWhile by blast
  then show ?thesis using n k(1) by (simp add: rev_nth)
qed

lemma recent_messages_paired:
  assumes "well_paired items"
  shows "well_paired (extract_messages_since_last_real_user items)"
proof -
  have "well_paired (drop (case rposition is_real_user_turn items of Some idx \<Rightarrow> idx + 1 | None \<Rightarrow> 0) items)"
  proof (cases "rposition is_real_user_turn items")
    case (Some k)
    then have k: "k < length items" "is_real_user_turn (items ! k)" using rposition_SomeD by blast+
    then obtain u where u: "items ! k = User u" by (cases "items ! k") auto
    have "well_paired (drop k items)"
      by (rule all_runs_suffix[OF assms, of "take k items"]) (use k u in \<open>simp_all add: ends_run_def hd_drop_conv_nth\<close>)
    then show ?thesis using Some k(1) u by (simp add: Cons_nth_drop_Suc[symmetric])
  qed (use assms in simp)
  then show ?thesis unfolding extract_messages_since_last_real_user_def Let_def by (rule tail_messages_paired)
qed

lemma items_paired: "(\<And>s. \<not> opens_run (f s) \<and> \<not> is_tool_result (f s)) \<Longrightarrow> well_paired (item_of f t)"
  by (cases t) (auto simp: item_of_def)

lemmas user_items = user_def user_meta_def synthetic_user_def system_reminder_def project_instructions_def

text \<open>C32: A compaction does not separate calls from results: when the results of the conversation answer its calls,
  those of the conversation a compaction makes of it do, and the check of compacted histories finds nothing,
  whatever summary the model wrote and whatever reminders are put in.\<close>

theorem compaction_keeps_pairs:
  assumes "well_paired conversation" "is_system (hi_system_message inp)"
    "hi_state_context inp = build_state_context conversation inputs"
  shows "well_paired (build_compacted_history inp)
       \<and> validate_compacted_history (build_compacted_history inp) = []"
proof -
  have "well_paired (cs_recent_messages (hi_state_context inp))"
    using assms(1,3) by (simp add: build_state_context_def recent_messages_paired)
  moreover have "\<not> opens_run (hi_system_message inp) \<and> \<not> is_tool_result (hi_system_message inp)"
    using assms(2) by (cases "hi_system_message inp") auto
  moreover have "\<not> opens_run (user_meta t) \<and> \<not> is_tool_result (user_meta t)" for t by (simp add: user_items)
  moreover have "well_paired (item_of project_instructions t)" "well_paired (item_of (\<lambda>q. user (wrap_user_query q)) t)"
    "well_paired (item_of system_reminder t)" for t
    by (auto intro!: items_paired simp: user_items)
  ultimately have "well_paired (build_compacted_history inp)"
    unfolding build_compacted_history_def summary_before_recent_carrier_def Let_def
    by (simp add: all_runs_append)
  then show ?thesis by (simp add: validate_compacted_history_def paired_validates)
qed

subsection \<open>The last query\<close>

definition plain_query :: "str \<Rightarrow> bool" where
  "plain_query q \<longleftrightarrow>
     trim q = q \<and> \<not> is_synthetic_extracted_query q \<and> \<not> contains q ''</user_query>''
     \<and> \<not> list_ex (\<lambda>tag. contains q (open_tag tag)) SYSTEM_TAGS"

lemma strip_tag_absent: "\<not> contains s (open_tag tag) \<Longrightarrow> strip_tag tag s = s"
  by (subst strip_tag.simps) (simp add: find_sub_None_iff[THEN iffD2])

lemma strip_system_tags_plain: "plain_query q \<Longrightarrow> strip_system_tags q = q"
proof -
  have "fold strip_tag tags q = q" if "\<not> list_ex (\<lambda>tag. contains q (open_tag tag)) tags" for tags
    using that by (induction tags) (auto simp: strip_tag_absent)
  then show "plain_query q \<Longrightarrow> strip_system_tags q = q" by (simp add: plain_query_def strip_system_tags_def)
qed

lemma trim_newlines_both: "trim s = s \<Longrightarrow> s \<noteq> [] \<Longrightarrow> trim (newline # s @ [newline]) = s"
proof -
  assume s: "trim s = s" "s \<noteq> []"
  have "\<not> starts_with (s @ [newline]) w" if w: "w \<in> set ws_seqs" for w
  proof (cases "newline \<in> set w")
    case True
    then have "w = [newline]" using w by (auto simp: ws_seqs_def)
    then show ?thesis using s w by (cases s) (auto simp: trim_id_iff)
  next
    case False
    then show ?thesis using s(1) w by (simp add: starts_with_up_to trim_id_iff)
  qed
  then have "trim_start (s @ [newline]) = s @ [newline]" by (simp add: trim_start_id_iff)
  moreover have "trim_end s = s" using s(1) by (simp add: trim_id_iff trim_end_id_iff)
  ultimately show ?thesis by (simp add: trim_def trim_newlines)
qed

lemma extract_wrapped: "plain_query q \<Longrightarrow> extract_user_query (wrap_user_query q) = q"
proof -
  assume q: "plain_query q"
  let ?rest = "newline # q @ newline # ''</user_query>''"
  have "\<not> contains (newline # q @ [newline]) ''</user_query>''"
    using q contains_append_sep[of newline "''</user_query>''" q "[]"] by (simp add: plain_query_def)
  then have "find_sub ?rest ''</user_query>'' = Some (length (newline # q @ [newline]))"
    using find_sub_tag[of "''</user_query>''" "CHR ''<''" "''/user_query>''" "newline # q @ [newline]" "[]"] by simp
  moreover have "trim (newline # q @ [newline]) = q"
    using q by (intro trim_newlines_both) (auto simp: plain_query_def is_synthetic_extracted_query_def)
  ultimately show ?thesis
    by (simp add: extract_user_query_def wrap_user_query_def strip_system_tags_plain[OF q])
qed

lemma real_user_synthetic [simp]:
  "\<not> is_real_user_turn (synthetic_user r t)" "\<not> is_real_user_turn (user_meta t)"
  "\<not> is_real_user_turn (system_reminder t)" "\<not> is_real_user_turn (project_instructions t)"
  by (simp_all add: user_items)

lemma real_user_wrapped: "plain_query q \<Longrightarrow> is_real_user_turn (user (wrap_user_query q)) \<and> query_of (user (wrap_user_query q)) = q"
  using extract_wrapped[of q] by (simp add: user_def user_text_def List.map_filter_def plain_query_def)

lemma tail_messages_no_user: "i \<in> set (extract_messages_since_last_real_user items) \<Longrightarrow> \<not> is_real_user_turn i"
  by (auto simp: extract_messages_since_last_real_user_def in_set_map_filter Let_def elim!: tail_message.elims)

text \<open>C33: A compaction keeps the user's last query, if it is plain: not empty, no white space around it, not one of the
  texts taken for synthetic, no tag of the system that would be stripped and no closing tag of a query in it. In
  the history the first compaction builds, with a system message and the state kept of the conversation, a later one
  then finds the same query and no other query of a user. A query that is not plain may come out changed.\<close>

theorem compaction_keeps_query:
  assumes "extract_last_real_user_query conversation = Some q" "plain_query q" "is_system (hi_system_message inp)"
    "hi_state_context inp = build_state_context conversation inputs"
  shows "extract_last_real_user_query (build_compacted_history inp) = Some q
       \<and> extract_real_user_queries (build_compacted_history inp) = [q]"
proof -
  let ?recent = "extract_messages_since_last_real_user conversation"
  have recent: "filter is_real_user_turn ?recent = []" using tail_messages_no_user by (auto simp: filter_empty_conv)
  have head: "\<not> is_real_user_turn (hi_system_message inp)" using assms(3) by (cases "hi_system_message inp") auto
  have opt: "filter is_real_user_turn (item_of project_instructions t) = []"
    "filter is_real_user_turn (item_of system_reminder t) = []" for t
    by (cases t; simp add: item_of_def)+
  have real: "filter is_real_user_turn (build_compacted_history inp) = [user (wrap_user_query q)]"
    using real_user_wrapped[OF assms(2)] assms(1,4) recent head opt
    by (simp add: build_compacted_history_def summary_before_recent_carrier_def build_state_context_def item_of_def)
  have "find P (rev xs) = (if filter P xs = [] then None else Some (last (filter P xs)))" for P :: "conversation_item \<Rightarrow> bool" and xs
    by (induction xs rule: rev_induct) auto
  then show ?thesis using real real_user_wrapped[OF assms(2)]
    by (simp add: extract_last_real_user_query_def extract_real_user_queries_def)
qed

subsection \<open>A budget\<close>

lemma estimate_snoc:
  "estimate_conversation_tokens (xs @ [x]) =
     do { n \<leftarrow> estimate_conversation_tokens xs; m \<leftarrow> estimate_item_tokens x; Some (n + m) }"
  by (simp add: estimate_conversation_append split: Option.bind_split)

lemma scan_back_fits:
  "scan_back (rev body) budget (length body) = Some start \<Longrightarrow>
     start \<le> length body \<and> (\<exists>c. estimate_conversation_tokens (drop start body) = Some c \<and> c \<le> budget)"
proof (induction body arbitrary: budget rule: rev_induct)
  case (snoc x xs)
  obtain cost where cost: "estimate_item_tokens x = Some cost"
    using snoc.prems by (auto split: Option.bind_splits)
  show ?case
  proof (cases "budget < cost")
    case True
    then show ?thesis using snoc.prems cost by simp
  next
    case False
    then have "scan_back (rev xs) (budget - cost) (length xs) = Some start" using snoc.prems cost by simp
    then obtain c where c: "start \<le> length xs" "estimate_conversation_tokens (drop start xs) = Some c" "c \<le> budget - cost"
      using snoc.IH by blast
    then show ?thesis using False cost by (simp add: estimate_snoc)
  qed
qed simp

lemma scan_back_maximal:
  "estimate_conversation_tokens body = Some whole \<Longrightarrow> scan_back (rev body) budget (length body) = Some start \<Longrightarrow> j < start
   \<Longrightarrow> \<exists>n. estimate_conversation_tokens (drop j body) = Some n \<and> budget < n"
proof (induction body arbitrary: budget whole rule: rev_induct)
  case (snoc x xs)
  obtain w cost where w: "estimate_conversation_tokens xs = Some w" and cost: "estimate_item_tokens x = Some cost"
    using snoc.prems(1) by (auto simp: estimate_snoc split: Option.bind_splits)
  have "estimate_conversation_tokens (take j xs @ drop j xs) = Some w" using w by simp
  then obtain m where m: "estimate_conversation_tokens (drop j xs) = Some m"
    unfolding estimate_conversation_append by (auto split: Option.bind_splits)
  show ?case
  proof (cases "budget < cost")
    case True
    then have "start = length (xs @ [x])" using snoc.prems(2) cost by simp
    then show ?thesis using True snoc.prems(3) m cost by (simp add: estimate_snoc)
  next
    case False
    then have rest: "scan_back (rev xs) (budget - cost) (length xs) = Some start" using snoc.prems(2) cost by simp
    then have "start \<le> length xs" using scan_back_fits by blast
    moreover obtain n where "estimate_conversation_tokens (drop j xs) = Some n" "budget - cost < n"
      using snoc.IH[OF w rest snoc.prems(3)] by blast
    ultimately show ?thesis using snoc.prems(3) cost by (simp add: estimate_snoc)
  qed
qed simp

lemma estimate_dropWhile:
  "estimate_conversation_tokens items = Some c \<Longrightarrow> \<exists>d. estimate_conversation_tokens (dropWhile P items) = Some d \<and> d \<le> c"
proof (induction items arbitrary: c)
  case (Cons item rest)
  then obtain a b where ab: "estimate_item_tokens item = Some a" "estimate_conversation_tokens rest = Some b" "c = a + b"
    by (auto split: Option.bind_splits)
  then obtain d where "estimate_conversation_tokens (dropWhile P rest) = Some d" "d \<le> b" using Cons.IH by blast
  then show ?case using ab by auto
qed simp

lemma drop_run: "drop (start + length (takeWhile P (drop start body))) body = dropWhile P (drop start body)"
  by (metis add.commute drop_drop dropWhile_eq_drop)

lemma split_head: "split_system_head items = (h, b) \<Longrightarrow> items = h @ b \<and> (h = [] \<or> (\<exists>s. h = [System s]))"
  by (cases items rule: split_system_head.cases) auto

text \<open>What cutting an item does to its texts, each of which may have \<open>n\<close> bytes.\<close>

definition cut_to :: "nat \<Rightarrow> str \<Rightarrow> str \<Rightarrow> bool" where
  "cut_to n s t \<longleftrightarrow>
     (if length s \<le> n then t = s
      else \<exists>e dropped. e \<le> n - 64 \<and> t = take e s @ [newline] @ ''[... truncated '' @ dropped
                             @ '' bytes to fit the compaction window ...]'')"

fun item_texts :: "conversation_item \<Rightarrow> str list" where
  "item_texts (ToolResult t) = [ti_content t]"
| "item_texts (Assistant a) = [ai_content a]"
| "item_texts (User u) = concat (map (\<lambda>p. case p of TextPart t \<Rightarrow> [t] | _ \<Rightarrow> []) (ui_content u))"
| "item_texts _ = []"

definition cut_item :: "nat \<Rightarrow> conversation_item \<Rightarrow> conversation_item \<Rightarrow> bool" where
  "cut_item tokens i i' \<longleftrightarrow> list_all2 (cut_to (saturating_mul tokens 4)) (item_texts i) (item_texts i')"

lemma boundary_below_le: "boundary_below s n \<le> n"
  by (induction n) (auto simp: le_SucI)

lemma truncated_cut: "cut_to n s (truncated s n)"
proof -
  have "boundary_below s (min (n - 64) (length s)) \<le> n - 64"
    using boundary_below_le[of s "min (n - 64) (length s)"] by simp
  then show ?thesis
    by (auto simp: cut_to_def truncated_def truncate_text_to_bytes_def MARKER_RESERVE_def Let_def)
qed

lemma truncate_cuts: "cut_item tokens i (truncate_item_to_tokens i tokens)"
proof (cases i)
  case (User u)
  have "list_all2 (cut_to n) (concat (map (\<lambda>p. case p of TextPart t \<Rightarrow> [t] | _ \<Rightarrow> []) ps))
      (concat (map (\<lambda>p. case p of TextPart t \<Rightarrow> [t] | _ \<Rightarrow> []) (map (truncate_part n) ps)))" for n ps
    by (induction ps) (auto simp: truncated_cut split: content_part.split)
  then show ?thesis using User by (simp add: cut_item_def truncate_item_to_tokens_def Let_def)
qed (simp_all add: cut_item_def truncate_item_to_tokens_def truncated_cut Let_def)

text \<open>No end of the body that starts before item \<open>k\<close> and not at a result fits the budget.\<close>

definition too_long_before :: "nat \<Rightarrow> conversation \<Rightarrow> nat \<Rightarrow> bool" where
  "too_long_before k body budget \<longleftrightarrow>
     (\<forall>j < k. is_tool_result (body ! j) \<or> (\<exists>n. estimate_conversation_tokens (drop j body) = Some n \<and> budget < n))"

lemma scanned_before:
  assumes "estimate_conversation_tokens body = Some w" "scan_back (rev body) budget (length body) = Some start"
  shows "too_long_before (start + length (takeWhile is_tool_result (drop start body))) body budget"
  unfolding too_long_before_def
proof (intro allI impI)
  fix j
  assume j: "j < start + length (takeWhile is_tool_result (drop start body))"
  show "is_tool_result (body ! j) \<or> (\<exists>n. estimate_conversation_tokens (drop j body) = Some n \<and> budget < n)"
  proof (cases "j < start")
    case True
    then show ?thesis using scan_back_maximal[OF assms] by blast
  next
    case False
    then have i: "j - start < length (takeWhile is_tool_result (drop start body))" using j by simp
    then have "is_tool_result (takeWhile is_tool_result (drop start body) ! (j - start))"
      using nth_mem set_takeWhileD by metis
    moreover have "start + (j - start) \<le> length body"
      using i length_takeWhile_le[of is_tool_result "drop start body"] by simp
    ultimately show ?thesis using False i by (simp add: takeWhile_nth)
  qed
qed

text \<open>What is left of the end of the body when nothing fits: the last item cut to the budget, or the last call
  with its results, each cut to its share of what the call leaves.\<close>

definition cut_tail :: "conversation \<Rightarrow> nat \<Rightarrow> conversation \<Rightarrow> bool" where
  "cut_tail body budget unit \<longleftrightarrow>
     body = [] \<and> unit = []
     \<or> (\<exists>earlier item. body = earlier @ [item] \<and> \<not> is_tool_result item
          \<and> unit = [truncate_item_to_tokens item budget] \<and> list_all2 (cut_item budget) [item] unit)
     \<or> (\<exists>earlier a results cost per. body = earlier @ Assistant a # results \<and> ai_tool_calls a \<noteq> []
          \<and> answers a results \<and> list_all is_tool_result results \<and> estimate_item_tokens (Assistant a) = Some cost \<and> per = max ((budget - cost) div length results) 1
          \<and> unit = Assistant a # map (\<lambda>r. truncate_item_to_tokens r per) results
          \<and> list_all2 (cut_item per) results (tl unit))"

lemma truncate_result:
  "is_tool_result i \<Longrightarrow> is_tool_result (truncate_item_to_tokens i n) \<and> result_id (truncate_item_to_tokens i n) = result_id i"
  by (cases i) (auto simp: truncate_item_to_tokens_def Let_def)

lemma truncate_results:
  "list_all is_tool_result run \<Longrightarrow> list_all is_tool_result (map (\<lambda>r. truncate_item_to_tokens r n) run)
     \<and> answered_ids (map (\<lambda>r. truncate_item_to_tokens r n) run) = answered_ids run"
proof (induction run)
  case (Cons r run)
  then show ?case using truncate_result[of r n] by (cases r) (auto simp: answered_ids_def List.map_filter_def)
qed (simp add: answered_ids_def)

lemma truncate_other:
  "\<not> is_tool_result i \<Longrightarrow> \<not> opens_run i \<Longrightarrow> \<not> is_tool_result (truncate_item_to_tokens i n) \<and> \<not> opens_run (truncate_item_to_tokens i n)"
  by (cases i) (auto simp: truncate_item_to_tokens_def Let_def)

lemma no_lone_results: "all_runs P xs \<Longrightarrow> list_all is_tool_result xs \<Longrightarrow> xs = []"
  using all_runs_ends[of P xs] by (cases xs) (auto simp: ends_run_def)

lemma last_run:
  assumes "well_paired body" "body = b @ results" "list_all is_tool_result results" "b = [] \<or> \<not> is_tool_result (last b)"
  shows "if results = [] then b = [] \<or> \<not> opens_run (last b)
         else \<exists>b' a. b = b' @ [Assistant a] \<and> ai_tool_calls a \<noteq> [] \<and> answers a results"
proof (cases b rule: rev_cases)
  case Nil
  then show ?thesis using assms(1-3) using no_lone_results by auto
next
  case (snoc b' x)
  then have x: "\<not> is_tool_result x" using assms(4) by simp
  then have paired: "well_paired (x # results)"
    by (intro all_runs_suffix[OF assms(1), of b']) (use assms(2) snoc in \<open>auto simp: ends_run_def\<close>)
  show ?thesis
  proof (cases "opens_run x")
    case True
    then obtain a where a: "x = Assistant a" "ai_tool_calls a \<noteq> []" by (auto simp: opens_run_iff)
    then have "answers a results" using paired all_runs_run[of a results "[]" answers] assms(3) by (simp add: ends_run_def)
    moreover from this have "results \<noteq> []" using a(2) by (auto simp: answers_def answered_ids_def)
    ultimately show ?thesis using snoc a by simp
  next
    case False
    then have "well_paired results" using paired x by simp
    then have "results = []" using assms(3) no_lone_results by blast
    then show ?thesis using snoc False by simp
  qed
qed

lemma recovered_tail:
  assumes "well_paired body" "recover_truncated_tail_unit body budget = Some unit"
  shows "cut_tail body budget unit"
proof -
  let ?results = "rev (takeWhile is_tool_result (rev body))" and ?b = "rev (dropWhile is_tool_result (rev body))"
  have body: "body = ?b @ ?results" by (metis rev_append rev_rev_ident takeWhile_dropWhile_id)
  have results: "list_all is_tool_result ?results" by (auto simp: list_all_iff dest: set_takeWhileD)
  have stop: "?b = [] \<or> \<not> is_tool_result (last ?b)"
    by (metis Nil_is_rev_conv hd_dropWhile last_rev)
  note run = last_run[OF assms(1) body results stop]
  show ?thesis
  proof (cases "?results = []")
    case True
    show ?thesis
    proof (cases ?b rule: rev_cases)
      case Nil
      then have "dropWhile is_tool_result (rev body) = []" by simp
      then show ?thesis using assms(2) True body
        by (simp add: recover_truncated_tail_unit_def cut_tail_def Let_def del: dropWhile_eq_Nil_conv)
    next
      case (snoc b' x)
      then have "\<not> is_tool_result x" "body = b' @ [x]" using stop True body by simp_all
      moreover have "unit = [truncate_item_to_tokens x budget]"
        using assms(2) True snoc by (simp add: recover_truncated_tail_unit_def Let_def rev_swap)
      ultimately show ?thesis using truncate_cuts by (auto simp: cut_tail_def)
    qed
  next
    case False
    then obtain b' a where a: "?b = b' @ [Assistant a]" "ai_tool_calls a \<noteq> []" "answers a ?results" using run by auto
    then obtain cost where cost: "estimate_item_tokens (Assistant a) = Some cost"
      "unit = Assistant a # map (\<lambda>r. truncate_item_to_tokens r (max ((budget - cost) div length ?results) 1)) ?results"
      using assms(2) False by (auto simp: recover_truncated_tail_unit_def Let_def rev_swap split: Option.bind_splits)
    have "list_all2 (cut_item per) rs (map (\<lambda>r. truncate_item_to_tokens r per) rs)" for per rs
      by (induction rs) (simp_all add: truncate_cuts)
    moreover have "body = b' @ Assistant a # ?results" using body a(1) by simp
    ultimately show ?thesis unfolding cut_tail_def
      by (intro disjI2 exI[of _ b'] exI[of _ a] exI[of _ ?results] exI[of _ cost]
          exI[of _ "max ((budget - cost) div length ?results) 1"])
        (use a(2,3) cost results in simp)
  qed
qed

lemma cut_tail_paired:
  assumes "well_paired body" "cut_tail body budget unit"
  shows "well_paired unit"
  using assms(2) unfolding cut_tail_def
proof (elim disjE exE conjE)
  fix earlier item
  assume "body = earlier @ [item]" "\<not> is_tool_result item" "unit = [truncate_item_to_tokens item budget]"
  moreover from this have "\<not> opens_run item"
    using last_run[OF assms(1), of "earlier @ [item]" "[]"] by simp
  ultimately show ?thesis using truncate_other[of item budget] by simp
next
  fix earlier a results cost per
  assume body: "body = earlier @ Assistant a # results" and a: "ai_tool_calls a \<noteq> []" "answers a results"
    and results: "list_all is_tool_result results"
    and n: "unit = Assistant a # map (\<lambda>r. truncate_item_to_tokens r per) results"
  show ?thesis
    using a truncate_results[OF results, of per]
      all_runs_run[of a "map (\<lambda>r. truncate_item_to_tokens r per) results" "[]" answers] n
    by (simp add: ends_run_def answers_def)
qed simp

text \<open>C34: A conversation cut down to a budget keeps its calls paired with their results and its system message. It is the
  whole conversation where that fits. Otherwise it is the longest end that starts at no result and fits what the
  system message leaves of the budget. Only when no such end fits at all is it the last item, or the last call with
  its results, whose texts are cut: a text of more than its share (four bytes for a token; the results share what
  the call leaves) becomes a beginning of at most its share less 64 bytes and a marker. The system message and that
  last call are never cut, so these alone may exceed the budget (\<open>fit_exceeds_budget\<close>).\<close>

theorem fit_keeps_pairs_within_budget:
  assumes "fit_conversation_to_budget items max_tokens = Some fitted" "well_paired items"
    "split_system_head items = (head, body)" "estimate_conversation_tokens head = Some head_tokens"
  shows "well_paired fitted
       \<and> (fitted = items \<and> (\<exists>n. estimate_conversation_tokens items = Some n \<and> n \<le> max_tokens)
         \<or> (\<exists>k < length body. fitted = head @ drop k body \<and> \<not> is_tool_result (body ! k)
               \<and> (\<exists>n. estimate_conversation_tokens (drop k body) = Some n \<and> n \<le> max_tokens - head_tokens)
               \<and> too_long_before k body (max_tokens - head_tokens))
         \<or> (\<exists>unit. fitted = head @ unit \<and> too_long_before (length body) body (max_tokens - head_tokens)
               \<and> cut_tail body (max_tokens - head_tokens) unit))"
proof -
  obtain whole where whole: "estimate_conversation_tokens items = Some whole"
    using assms(1) by (auto simp: fit_conversation_to_budget_def split: Option.bind_splits)
  have items: "items = head @ body" "head = [] \<or> (\<exists>s. head = [System s])" using split_head[OF assms(3)] by auto
  then have body: "well_paired body" and head: "well_paired head" using assms(2) by auto
  obtain b where b: "estimate_conversation_tokens body = Some b"
    using whole unfolding items(1) estimate_conversation_append by (auto split: Option.bind_splits)
  show ?thesis
  proof (cases "whole \<le> max_tokens")
    case True
    then have "fitted = items" using assms(1) whole by (simp add: fit_conversation_to_budget_def)
    then show ?thesis using assms(2) whole True by simp
  next
    case False
    let ?budget = "max_tokens - head_tokens"
    obtain start where start: "scan_back (rev body) ?budget (length body) = Some start"
      using assms(1,3,4) whole False by (auto simp: fit_conversation_to_budget_def Let_def split: Option.bind_splits)
    let ?k = "start + length (takeWhile is_tool_result (drop start body))"
    have fitted: "(if ?k < length body then Some (head @ drop ?k body)
        else map_option (\<lambda>unit. head @ unit) (recover_truncated_tail_unit body ?budget)) = Some fitted"
      using assms(1,3,4) whole False start by (simp add: fit_conversation_to_budget_def Let_def)
    have before: "too_long_before ?k body ?budget"
      by (rule scanned_before[OF b start])
    show ?thesis
    proof (cases "?k < length body")
      case True
      obtain c where c: "estimate_conversation_tokens (drop ?k body) = Some c" "c \<le> ?budget"
        using scan_back_fits[OF start] estimate_dropWhile[of "drop start body" _ is_tool_result] order_trans
        unfolding drop_run by blast
      have first: "\<not> is_tool_result (body ! ?k)"
        using True hd_dropWhile[of is_tool_result "drop start body"] unfolding drop_run[symmetric]
        by (simp add: hd_drop_conv_nth)
      then have "ends_run (drop ?k body)" using True by (simp add: ends_run_def hd_drop_conv_nth)
      then have "well_paired (drop ?k body)" using all_runs_suffix[OF body, of "take ?k body"] by simp
      moreover have "fitted = head @ drop ?k body" using fitted True by simp
      ultimately show ?thesis using True all_runs_append[OF head] c before first by metis
    next
      case False
      then obtain unit where unit: "recover_truncated_tail_unit body ?budget = Some unit" "fitted = head @ unit"
        using fitted by auto
      have "too_long_before (length body) body ?budget"
        using before False by (simp add: too_long_before_def)
      then show ?thesis
        using all_runs_append[OF head] cut_tail_paired[OF body] recovered_tail[OF body unit(1)] unit(2) by blast
    qed
  qed
qed

subsection \<open>Witnesses\<close>

definition session_call :: tool_call where
  "session_call = \<lparr>tc_id = ''c1'', tc_name = ''read_file'', tc_arguments = ''{}''\<rparr>"

definition session :: conversation where
  "session =
     [System ''You help.'', user_meta ''OS: linux'', user ''list the files'', assistant ''There are none.'',
      user ''<user_query>fix the bug</user_query>'', assistant_tool_calls [session_call], tool_result ''c1'' ''fn main'',
      assistant ''Done.'']"

definition no_inputs :: compaction_inputs where
  "no_inputs = \<lparr>ci_running_tasks = [], ci_running_subagents = [], ci_agent_edited_paths = [],
                ci_connected_mcp_servers = [], ci_todos = []\<rparr>"

definition session_input :: compacted_history_input where
  "session_input =
     \<lparr>hi_system_message = System ''You help.'', hi_user_message_prefix = ''OS: linux'', hi_agents_md_reminder = None,
      hi_state_context = build_state_context session no_inputs, hi_compaction_summary = ''1. Fixing a bug.'',
      hi_system_reminder = Some ''Todo: none.'', hi_summary_before_recent = False, hi_transcript_hint = None,
      hi_summary_count = 1\<rparr>"

lemma session_paired: "well_paired session"
  by (simp add: session_def session_call_def user_items assistant_def assistant_tool_calls_def assistant_calls_def tool_result_def
      all_runs.simps(2) result_run_def after_run_def answers_def answered_ids_def)

theorem compaction_keeps_pairs_witness:
  "well_paired (build_compacted_history session_input)
   \<and> validate_compacted_history (build_compacted_history session_input) = []"
proof (rule compaction_keeps_pairs)
  show "well_paired session" by (rule session_paired)
  show "is_system (hi_system_message session_input)" by (simp add: session_input_def)
  show "hi_state_context session_input = build_state_context session no_inputs" by (simp add: session_input_def)
qed

theorem compaction_keeps_query_witness:
  "extract_last_real_user_query (build_compacted_history session_input) = Some ''fix the bug''
   \<and> extract_real_user_queries (build_compacted_history session_input) = [''fix the bug'']"
proof (rule compaction_keeps_query)
  show "extract_last_real_user_query session = Some ''fix the bug''" by code_simp
  show "plain_query ''fix the bug''" by code_simp
  show "is_system (hi_system_message session_input)" by (simp add: session_input_def)
  show "hi_state_context session_input = build_state_context session no_inputs" by (simp add: session_input_def)
qed

lemmas ascii_estimates =
  estimate_aware_ascii estimate_tokens_def BYTES_PER_TOKEN_def byte_in_def saturating_defs U64_MAX_def estimate_image_tokens_def

lemma fitted_session:
  "fit_conversation_to_budget session 6
     = Some [System ''You help.'', assistant_tool_calls [session_call], tool_result ''c1'' ''fn main'', assistant ''Done.'']"
  by (simp add: fit_conversation_to_budget_def session_def session_call_def user_items assistant_def
      assistant_tool_calls_def assistant_calls_def tool_result_def ascii_estimates)

theorem fit_keeps_pairs_within_budget_witness:
  "well_paired [System ''You help.'', assistant_tool_calls [session_call], tool_result ''c1'' ''fn main'', assistant ''Done.'']"
proof (rule conjunct1, rule fit_keeps_pairs_within_budget[OF fitted_session session_paired])
  show "split_system_head session = ([System ''You help.''], tl session)" by (simp add: session_def)
  show "estimate_conversation_tokens [System ''You help.''] = Some 2" by (simp add: ascii_estimates)
qed

text \<open>The last call is never cut: its arguments alone may exceed the budget.\<close>

lemma fit_exceeds_budget:
  "\<exists>fitted. fit_conversation_to_budget
      [assistant_tool_calls [session_call\<lparr>tc_arguments := replicate 400 CHR ''x''\<rparr>], tool_result ''c1'' ''ok''] 10 = Some fitted
    \<and> estimate_conversation_tokens fitted = Some 100"
  by (simp add: fit_conversation_to_budget_def session_call_def assistant_tool_calls_def assistant_calls_def tool_result_def
      recover_truncated_tail_unit_def truncate_item_to_tokens_def truncated_def truncate_text_to_bytes_def ascii_estimates)

end
