(* ===== verification/Compaction_Engine_Props.thy ===== *)
theory Compaction_Engine_Props
  imports Compaction_History Compaction_Props
begin

section \<open>What the compaction engine guarantees\<close>

text \<open>
  A selection cuts a conversation between pairs of call and result and keeps a tail within its budget; the loop of
  attempts is bounded and stops at failures that cannot heal; the chunks of a history cover it; and the queries of
  the user pass from summary to summary unchanged.
\<close>

subsection \<open>The selection\<close>

lemma walk_back_snoc:
  "walk_back item_count target kept split_idx (rev (pre @ [c])) =
     (if target < saturating_add_u32 kept c
      then (if length pre = item_count - 1 then item_count - 1 else length pre + 1)
      else walk_back item_count target (saturating_add_u32 kept c) (length pre) (rev pre))"
  by (simp add: Let_def)

lemma walk_back_bounds:
  assumes "item_count = length pre + length suf" "kept = min (sum_list suf) U32_MAX" "kept \<le> target"
    "split_idx = length pre"
  shows "walk_back item_count target kept split_idx (rev pre) \<le> item_count
       \<and> (min (sum_list (drop (walk_back item_count target kept split_idx (rev pre)) (pre @ suf))) U32_MAX \<le> target
          \<or> walk_back item_count target kept split_idx (rev pre) = item_count - 1)"
  using assms
proof (induction pre arbitrary: suf kept split_idx rule: rev_induct)
  case Nil
  then show ?case by simp
next
  case (snoc c pre)
  have kept: "saturating_add_u32 kept c = min (sum_list (c # suf)) U32_MAX"
    using snoc.prems(2) by (simp add: saturating_add_u32_def min_def)
  show ?case
  proof (cases "target < saturating_add_u32 kept c")
    case True
    then show ?thesis using snoc.prems unfolding walk_back_snoc by simp
  next
    case False
    then have step: "walk_back item_count target kept split_idx (rev (pre @ [c])) =
        walk_back item_count target (saturating_add_u32 kept c) (length pre) (rev pre)"
      unfolding walk_back_snoc by simp
    have "item_count = length pre + length (c # suf)" using snoc.prems(1) by simp
    from snoc.IH[OF this kept _ refl] False show ?thesis unfolding step by simp
  qed
qed

lemma sum_list_drop_le: "i \<le> j \<Longrightarrow> sum_list (drop j xs) \<le> sum_list (drop i (xs :: nat list))"
proof -
  assume "i \<le> j"
  then have "drop j xs = drop (j - i) (drop i xs)" by simp
  moreover have "sum_list (drop n ys) \<le> sum_list ys" for n and ys :: "nat list"
    using append_take_drop_id[of n ys] sum_list_append[of "take n ys" "drop n ys"] by simp
  ultimately show ?thesis by presburger
qed

lemma foldl_saturating: "foldl saturating_add_u32 a xs = min (a + sum_list xs) U32_MAX" if "a \<le> U32_MAX" for a
  using that
proof (induction xs arbitrary: a)
  case (Cons x xs)
  then show ?case by (simp add: saturating_add_u32_def min_def)
qed (simp add: min_absorb1)

lemma snap_bounds:
  "candidate \<le> length items
   \<Longrightarrow> candidate \<le> snap_to_safe_boundary I items candidate
     \<and> (snap_to_safe_boundary I items candidate < length items
        \<longrightarrow> \<not> cmp_is_tool_result I (items ! snap_to_safe_boundary I items candidate))"
proof -
  assume le: "candidate \<le> length items"
  let ?run = "takeWhile (cmp_is_tool_result I) (drop candidate items)"
  have "\<not> cmp_is_tool_result I (items ! (candidate + length ?run))" if "candidate + length ?run < length items"
    using nth_length_takeWhile[of "cmp_is_tool_result I" "drop candidate items"] that le by simp
  then show ?thesis using le by (auto simp: snap_to_safe_boundary_def)
qed

lemma selection_result:
  assumes "Some (Some plan) =
     Some (if w = 0 then None
           else let safe = f w
                in if n \<le> safe then None
                   else let tokens = g safe
                        in if tokens < m then None
                           else Some \<lparr>sp_split_idx = safe, sp_tokens_to_compact = tokens\<rparr>)"
  shows "w \<noteq> 0" "sp_split_idx plan = f w" "sp_split_idx plan < n"
    "sp_tokens_to_compact plan = g (sp_split_idx plan)" "m \<le> sp_tokens_to_compact plan"
  using assms by (simp_all add: Let_def split: if_splits)

lemma selection_plan:
  assumes "select_turns_to_compact I counts items target min_compactable = Some (Some plan)"
    "length counts = length items"
  shows "0 < sp_split_idx plan" "sp_split_idx plan < length items"
    "\<not> cmp_is_tool_result I (items ! sp_split_idx plan)"
    "sp_tokens_to_compact plan = min (sum_list (take (sp_split_idx plan) counts)) U32_MAX"
    "min_compactable \<le> sp_tokens_to_compact plan"
    "min (sum_list (drop (sp_split_idx plan) counts)) U32_MAX \<le> target \<or> sp_split_idx plan = length items - 1"
proof -
  let ?n = "length items"
  let ?w = "walk_back ?n target 0 ?n (rev counts)" and ?s = "sp_split_idx plan"
  have items: "?n \<noteq> 0" using assms(1) by (auto simp: select_turns_to_compact_def)
  have "select_turns_to_compact I counts items target min_compactable =
        Some (if ?w = 0 then None
              else let safe = snap_to_safe_boundary I items ?w
                   in if ?n \<le> safe then None
                      else let tokens = foldl saturating_add_u32 0 (take safe counts)
                           in if tokens < min_compactable then None
                              else Some \<lparr>sp_split_idx = safe, sp_tokens_to_compact = tokens\<rparr>)"
    using items assms(2) by (simp add: select_turns_to_compact_def Let_def del: split_paired_All)
  note result = selection_result[of plan ?w "snap_to_safe_boundary I items" ?n
      "\<lambda>safe. foldl saturating_add_u32 0 (take safe counts)", OF trans[OF assms(1)[symmetric] this]]
  note w = result(1) and s = result(2,3) and tokens = result(4,5)
  have walk: "?w \<le> ?n" "min (sum_list (drop ?w counts)) U32_MAX \<le> target \<or> ?w = ?n - 1"
    using walk_back_bounds[of ?n counts "[]" 0 target ?n] assms(2) unfolding append_Nil2 by (fastforce simp del: rev.simps)+
  note snap = snap_bounds[OF walk(1), of I, folded s(1)]
  show "0 < ?s" using snap w by simp
  show "?s < ?n" by (rule s(2))
  show "\<not> cmp_is_tool_result I (items ! ?s)" using snap s(2) by simp
  show "sp_tokens_to_compact plan = min (sum_list (take ?s counts)) U32_MAX"
    using tokens(1) foldl_saturating[of 0] by simp
  show "min_compactable \<le> sp_tokens_to_compact plan" by (rule tokens(2))
  show "min (sum_list (drop ?s counts)) U32_MAX \<le> target \<or> ?s = ?n - 1"
  proof (cases "?w = ?n - 1")
    case True
    then show ?thesis using snap s(2) by linarith
  next
    case False
    then have "min (sum_list (drop ?w counts)) U32_MAX \<le> target" using walk(2) by simp
    then show ?thesis using sum_list_drop_le[of ?w ?s counts] snap by (auto simp: min_def split: if_splits)
  qed
qed

text \<open>What a cut before an item that is no result preserves holds of both sides of every selection.\<close>

locale cut_invariant =
  fixes I :: "'i compaction_item" and P :: "'i list \<Rightarrow> bool"
  assumes cut: "P items \<Longrightarrow> k < length items \<Longrightarrow> \<not> cmp_is_tool_result I (items ! k)
                \<Longrightarrow> P (take k items) \<and> P (drop k items)"
begin

lemma selection_keeps:
  assumes "P items" "length counts = length items"
    "select_turns_to_compact I counts items target min_compactable = Some (Some plan)"
  shows "P (take (sp_split_idx plan) items) \<and> P (drop (sp_split_idx plan) items)"
  using cut[OF assms(1)] selection_plan[OF assms(3,2)] by blast

end

lemma all_runs_prefix:
  "all_runs P items \<Longrightarrow> items = xs @ ys \<Longrightarrow> ends_run ys \<Longrightarrow> all_runs P xs"
proof (induction items arbitrary: xs rule: runs_induct)
  case (Item item rest)
  show ?case
  proof (cases xs)
    case (Cons x xs')
    then show ?thesis using Item.IH[of xs'] Item.hyps(1) Item.prems by simp
  qed simp
next
  case (Run a run rest)
  show ?case
  proof (cases xs)
    case (Cons x xs')
    then have eq: "run @ rest = xs' @ ys" using Run.prems(2) by simp
    have rest: "all_runs P rest" "P a run" using Run.prems(1) all_runs_run[OF Run.hyps(1-3), of P] by simp_all
    obtain zs where zs: "xs' = run @ zs" "rest = zs @ ys"
    proof -
      obtain us where us: "run = xs' @ us \<and> us @ rest = ys \<or> run @ us = xs' \<and> rest = us @ ys"
        using eq by (auto simp: append_eq_append_conv2)
      then have "us = [] \<or> run @ us = xs'"
        using Run.hyps(2) Run.prems(3) by (cases us) (auto simp: ends_run_def list_all_iff)
      with us that[of "[]"] that[of us] show thesis by fastforce
    qed
    have "all_runs P zs" by (rule Run.IH[OF rest(1) zs(2) Run.prems(3)])
    moreover have "ends_run zs"
      using Run.hyps(3) zs(2) by (cases zs) (auto simp: ends_run_def)
    ultimately show ?thesis using Cons Run.prems(2) zs(1) rest(2) all_runs_run[OF Run.hyps(1,2), of zs P] by simp
  qed simp
qed simp

lemma conversation_tool_result [simp]: "cmp_is_tool_result conversation_seam item \<longleftrightarrow> is_tool_result item"
  by (cases item) (simp_all add: cmp_is_tool_result_def conversation_seam_def)

interpretation pairs: cut_invariant conversation_seam well_paired
proof
  fix items :: conversation and k
  assume *: "well_paired items" "k < length items" "\<not> cmp_is_tool_result conversation_seam (items ! k)"
  then have "ends_run (drop k items)" by (simp add: ends_run_def hd_drop_conv_nth)
  then show "well_paired (take k items) \<and> well_paired (drop k items)"
    using all_runs_prefix[of answers items "take k items" "drop k items"]
      all_runs_suffix[of answers items "take k items" "drop k items"] *(1) by simp
qed

text \<open>C35: A selection never separates a call from its result: of a conversation in which every call has its results right
  behind it, both the part that is summarised and the part that is kept have the same property, both are there, what
  is summarised is worth it, and what is kept fits the target, unless it is the newest item alone.\<close>

theorem selection_keeps_pairs:
  assumes "well_paired items" "length counts = length items"
    "select_turns_to_compact conversation_seam counts items target min_compactable = Some (Some plan)"
  shows "well_paired (take (sp_split_idx plan) items) \<and> well_paired (drop (sp_split_idx plan) items)
       \<and> 0 < sp_split_idx plan \<and> sp_split_idx plan < length items
       \<and> min_compactable \<le> min (sum_list (take (sp_split_idx plan) counts)) U32_MAX
       \<and> (min (sum_list (drop (sp_split_idx plan) counts)) U32_MAX \<le> target \<or> sp_split_idx plan = length items - 1)"
  using pairs.selection_keeps[OF assms] selection_plan[OF assms(3,2)] by simp

lemma session_selection:
  "select_turns_to_compact conversation_seam [3, 9, 4, 5, 8, 6, 20, 3] session 24 10 =
     Some (Some \<lparr>sp_split_idx = 7, sp_tokens_to_compact = 55\<rparr>)"
  by (simp add: select_turns_to_compact_def session_def user_items assistant_def assistant_tool_calls_def assistant_calls_def
      tool_result_def saturating_add_u32_def U32_MAX_def snap_to_safe_boundary_def)

theorem selection_keeps_pairs_witness:
  "well_paired (take 7 session) \<and> well_paired (drop 7 session)
   \<and> 0 < (7 :: nat) \<and> 7 < length session \<and> 10 \<le> min (sum_list (take 7 [3, 9, 4, 5, 8, 6, 20, 3])) U32_MAX
   \<and> (min (sum_list (drop 7 [3, 9, 4, 5, 8, 6, 20, 3])) U32_MAX \<le> 24 \<or> 7 = length session - 1)"
  using selection_keeps_pairs[OF session_paired _ session_selection] by (simp add: session_def)

subsection \<open>The chunks of a history\<close>

text \<open>
  What the loop of chunks is for: cut the turns greedily, then ask for a summary of each piece, stopping at the first
  failure.
\<close>

fun cut_chunks :: "nat \<Rightarrow> ('i \<Rightarrow> nat) \<Rightarrow> 'i list \<Rightarrow> nat \<Rightarrow> 'i list \<Rightarrow> 'i list list" where
  "cut_chunks limit count chunk tokens [] = (if chunk = [] then [] else [chunk])"
| "cut_chunks limit count chunk tokens (turn # turns) =
     (if chunk \<noteq> [] \<and> limit < tokens + count turn then chunk # cut_chunks limit count [turn] (count turn) turns
      else cut_chunks limit count (chunk @ [turn]) (tokens + count turn) turns)"

fun summarise_chunks ::
  "('c \<Rightarrow> 't \<Rightarrow> ('e + 'o) \<times> 't) \<Rightarrow> 'o list \<Rightarrow> 'c list \<Rightarrow> 't \<Rightarrow> ('e + 'o list) \<times> 't" where
  "summarise_chunks flush outputs [] t = (Inr outputs, t)"
| "summarise_chunks flush outputs (chunk # chunks) t =
     (case flush chunk t of
        (Inl e, t) \<Rightarrow> (Inl e, t)
      | (Inr output, t) \<Rightarrow> summarise_chunks flush (outputs @ [output]) chunks t)"

definition fitting :: "nat \<Rightarrow> ('i \<Rightarrow> nat) \<Rightarrow> 'i list \<Rightarrow> bool" where
  "fitting limit count chunk \<longleftrightarrow> chunk \<noteq> [] \<and> (sum_list (map count chunk) \<le> limit \<or> length chunk = 1)"

lemma cut_chunks_cover: "concat (cut_chunks limit count chunk tokens turns) = chunk @ turns"
  by (induction limit count chunk tokens turns rule: cut_chunks.induct) auto

lemma cut_chunks_fit:
  "chunk = [] \<or> fitting limit count chunk
   \<Longrightarrow> list_all (fitting limit count) (cut_chunks limit count chunk (sum_list (map count chunk)) turns)"
proof (induction turns arbitrary: chunk)
  case (Cons turn turns)
  show ?case
  proof (cases "chunk \<noteq> [] \<and> limit < sum_list (map count chunk) + count turn")
    case True
    then show ?thesis using Cons.IH[of "[turn]"] Cons.prems by (simp add: fitting_def)
  next
    case False
    then have "fitting limit count (chunk @ [turn])" by (cases "chunk = []") (simp_all add: fitting_def)
    with Cons.IH[of "chunk @ [turn]"] False show ?thesis by auto
  qed
qed auto

lemma chunk_loop_cuts:
  assumes "\<forall>turn. count turn \<le> U32_MAX" "limit < U32_MAX"
    "chunk = [] \<and> tokens = 0 \<or> chunk \<noteq> [] \<and> tokens \<le> U32_MAX"
  shows "chunk_loop flush limit count turns chunk tokens outputs t =
         summarise_chunks flush outputs (cut_chunks limit count chunk tokens turns) t"
  using assms(3)
proof (induction turns arbitrary: chunk tokens outputs t)
  case (Cons turn turns)
  have count: "count turn \<le> U32_MAX" using assms(1) by blast
  have max: "count turn mod 2 ^ 32 = count turn" using count unfolding U32_MAX_def by (intro mod_less) simp
  have over: "limit < saturating_add_u32 tokens (count turn) \<longleftrightarrow> limit < tokens + count turn"
    unfolding saturating_add_u32_def using assms(2) by linarith
  show ?case
  proof (cases "chunk \<noteq> [] \<and> limit < tokens + count turn")
    case True
    then show ?thesis using Cons.IH[of "[turn]" "count turn"] assms(2) max over count
      by (simp add: UNBOUNDED_CHUNK_LIMIT_def split: prod.split sum.split)
  next
    case False
    then have fits: "tokens + count turn \<le> U32_MAX" using Cons.prems count assms(2) by auto
    then have "(tokens + count turn) mod 2 ^ 32 = tokens + count turn"
      unfolding U32_MAX_def by (intro mod_less) simp
    then show ?thesis using False Cons.IH[of "chunk @ [turn]" "tokens + count turn"] over fits by auto
  qed
qed (auto split: prod.split sum.split)

text \<open>C37: Chunks cover the history. Below the unbounded limit, the loop of chunks asks for a summary of each piece of a cut
  of the turns, in order, and stops at the first failure; the pieces are the turns, none lost, repeated or moved,
  none is empty, and each fits the limit unless it is a single turn.\<close>

theorem chunks_cover_history:
  assumes "\<forall>turn. count turn \<le> U32_MAX" "limit < UNBOUNDED_CHUNK_LIMIT"
  shows "chunk_loop flush limit count turns [] 0 [] t = summarise_chunks flush [] (cut_chunks limit count [] 0 turns) t
       \<and> concat (cut_chunks limit count [] 0 turns) = turns
       \<and> list_all (fitting limit count) (cut_chunks limit count [] 0 turns)"
  using chunk_loop_cuts[of count limit "[]" 0] assms cut_chunks_cover[of limit count "[]" 0 turns]
    cut_chunks_fit[of "[]" limit count turns]
  by (simp add: UNBOUNDED_CHUNK_LIMIT_def)

theorem chunks_cover_history_witness:
  "chunk_loop (\<lambda>chunk t. (Inr \<lparr>lo_response = ''s'', lo_thinking = []\<rparr> :: str + llm_compaction_output, t @ [chunk]))
        5 (\<lambda>n. min n 100) [3, 2, 9, 1] [] 0 [] [] =
      summarise_chunks (\<lambda>chunk t. (Inr \<lparr>lo_response = ''s'', lo_thinking = []\<rparr>, t @ [chunk])) []
        (cut_chunks 5 (\<lambda>n. min n 100) [] 0 [3, 2, 9, 1]) []
    \<and> cut_chunks 5 (\<lambda>n. min n 100) [] 0 [3, 2, 9, 1] = [[3, 2], [9], [1 :: nat]]"
proof -
  have "\<forall>n. min n 100 \<le> U32_MAX" "(5::nat) < UNBOUNDED_CHUNK_LIMIT"
    by (simp_all add: U32_MAX_def UNBOUNDED_CHUNK_LIMIT_def min.coboundedI2)
  note run = chunks_cover_history[OF this, THEN conjunct1]
  show ?thesis by (intro conjI, rule run, simp)
qed

subsection \<open>The attempts at a summary\<close>

text \<open>
  The reference the loop is compared with: what the sampler answers when it is asked \<open>n\<close> times with the same turns,
  prompt and timeout, its state passed from one call to the next.
\<close>

type_synonym reply = "compaction_sample_error + llm_compaction_output"

primrec sampler_replies ::
  "('s, 'i) compaction_sampler \<Rightarrow> 'i list \<Rightarrow> compaction_prompt \<Rightarrow> nat \<Rightarrow> nat \<Rightarrow> 's \<Rightarrow> reply list \<times> 's" where
  "sampler_replies sampler turns prompt timeout 0 s = ([], s)"
| "sampler_replies sampler turns prompt timeout (Suc n) s =
     apfst (Cons (fst (sampler s turns prompt timeout)))
       (sampler_replies sampler turns prompt timeout n (snd (sampler s turns prompt timeout)))"

text \<open>A reply that cannot heal: a refusal to build or start, or an input too long for the model.\<close>

fun hopeless :: "reply \<Rightarrow> bool" where
  "hopeless (Inr output) = False"
| "hopeless (Inl (BuildError message)) = True"
| "hopeless (Inl (StartError message)) = True"
| "hopeless (Inl (OtherError message)) =
     (contains message ''Failed to build AgenticScheduler'' \<or> contains message ''Failed to start compaction sample''
      \<or> is_context_length_error message)"
| "hopeless (Inl e) = is_context_length_error (sample_error_display e)"

fun usable :: "reply \<Rightarrow> bool" where
  "usable (Inl e) = False"
| "usable (Inr output) = (trim (lo_response output) \<noteq> [] \<and> \<not> is_degenerate_summary (lo_response output))"

fun overflows :: "reply \<Rightarrow> bool" where
  "overflows (Inl e) = is_context_length_error (sample_error_display e)"
| "overflows (Inr output) = False"

text \<open>What the observer is told of a reply, and what the caller gets when the reply is the last, the \<open>n\<close>-th.\<close>

fun told :: "bool \<Rightarrow> reply \<Rightarrow> attempt_outcome" where
  "told will_retry (Inl e) = AttemptFailure (sample_error_display e) (hopeless (Inl e)) (overflows (Inl e)) will_retry"
| "told will_retry (Inr output) =
     (if usable (Inr output) then AttemptSuccess (lo_response output)
      else if trim (lo_response output) = [] then AttemptEmpty will_retry
      else AttemptDegenerate (lo_response output) will_retry)"

fun verdict :: "nat \<Rightarrow> reply \<Rightarrow> sample_retry_error + sampled_summary" where
  "verdict n (Inl e) = Inl (RetryFailure (sample_error_display e) (hopeless (Inl e)) (overflows (Inl e)) n)"
| "verdict n (Inr output) =
     (if usable (Inr output) then Inr \<lparr>ss_summary = lo_response output, ss_attempts = n\<rparr> else Inl (RetryEmpty n))"

lemma hopeless_iff:
  "hopeless (Inl e) \<longleftrightarrow> is_deterministic e \<or> is_context_length_error (sample_error_display e)"
  by (cases e) auto

definition attempts_account ::
  "nat \<Rightarrow> nat \<Rightarrow> reply list \<Rightarrow> sample_retry_error + sampled_summary \<Rightarrow> (nat \<times> attempt_outcome) list \<Rightarrow> bool" where
  "attempts_account first remaining replies result outcomes \<longleftrightarrow>
     replies \<noteq> [] \<and> length replies \<le> Suc remaining
     \<and> (\<forall>r \<in> set (butlast replies). \<not> usable r \<and> \<not> hopeless r)
     \<and> (usable (last replies) \<or> hopeless (last replies) \<or> length replies = Suc remaining)
     \<and> outcomes = enumerate first (map (told True) (butlast replies) @ [told False (last replies)])
     \<and> result = verdict (first + length replies - 1) (last replies)"

lemma account_last:
  "attempts_account first remaining [r] result outcomes \<longleftrightarrow>
     (usable r \<or> hopeless r \<or> remaining = 0) \<and> outcomes = [(first, told False r)] \<and> result = verdict first r"
  by (auto simp: attempts_account_def)

lemma account_more:
  "\<not> usable r \<Longrightarrow> \<not> hopeless r \<Longrightarrow> attempts_account (Suc first) remaining replies result outcomes
   \<Longrightarrow> attempts_account first (Suc remaining) (r # replies) result ((first, told True r) # outcomes)"
  by (cases replies) (auto simp: attempts_account_def)

text \<open>One round of the loop, by what the reply is.\<close>

lemma attempt_settles:
  assumes "sampler s turns prompt timeout = (r, t)" and "usable r \<or> hopeless r \<or> remaining = 0"
  shows "sample_attempts sampler turns prompt timeout attempt remaining s =
      (verdict attempt r, [(attempt, told False r)], t)"
proof (cases r)
  case (Inl e)
  then show ?thesis
    using assms by (subst sample_attempts.simps) (auto simp: hopeless_iff Let_def split: nat.splits)
next
  case (Inr reply)
  then show ?thesis
    using assms by (subst sample_attempts.simps) (auto simp: Let_def split: nat.splits)
qed

lemma attempt_repeats:
  assumes "sampler s turns prompt timeout = (r, t)" and "\<not> usable r" and "\<not> hopeless r"
  shows "sample_attempts sampler turns prompt timeout attempt (Suc n) s =
      apsnd (apfst (Cons (attempt, told True r))) (sample_attempts sampler turns prompt timeout (Suc attempt) n t)"
proof (cases r)
  case (Inl e)
  then show ?thesis
    using assms by (subst sample_attempts.simps) (auto simp: hopeless_iff Let_def)
next
  case (Inr reply)
  then show ?thesis
    using assms by (subst sample_attempts.simps) (auto simp: Let_def)
qed

lemma attempts_follow_replies:
  "sample_attempts sampler turns prompt timeout attempt remaining s = (result, outcomes, s')
   \<Longrightarrow> \<exists>replies. sampler_replies sampler turns prompt timeout (length outcomes) s = (replies, s')
         \<and> attempts_account attempt remaining replies result outcomes"
proof (induction remaining arbitrary: attempt s outcomes)
  case 0
  obtain r t where asked: "sampler s turns prompt timeout = (r, t)" by fastforce
  have "sample_attempts sampler turns prompt timeout attempt 0 s = (verdict attempt r, [(attempt, told False r)], t)"
    using attempt_settles[of sampler s turns prompt timeout r t] asked by simp
  then show ?case
    using 0 asked by (auto simp: account_last intro!: exI[of _ "[r]"])
next
  case (Suc n)
  obtain r t where asked: "sampler s turns prompt timeout = (r, t)" by fastforce
  show ?case
  proof (cases "usable r \<or> hopeless r")
    case True
    then have "sample_attempts sampler turns prompt timeout attempt (Suc n) s =
        (verdict attempt r, [(attempt, told False r)], t)"
      using attempt_settles[of sampler s turns prompt timeout r t] asked by blast
    then show ?thesis
      using Suc.prems asked True by (auto simp: account_last intro!: exI[of _ "[r]"])
  next
    case False
    then have apart: "\<not> usable r" "\<not> hopeless r" by simp_all
    obtain rest where rest: "outcomes = (attempt, told True r) # rest"
        "sample_attempts sampler turns prompt timeout (Suc attempt) n t = (result, rest, s')"
      using Suc.prems attempt_repeats[of sampler s turns prompt timeout r t attempt n] asked apart
      by (cases "sample_attempts sampler turns prompt timeout (Suc attempt) n t") auto
    from Suc.IH[OF rest(2)] obtain replies where
      "sampler_replies sampler turns prompt timeout (length rest) t = (replies, s')"
      "attempts_account (Suc attempt) n replies result rest" by blast
    then show ?thesis
      using account_more[OF apart] rest(1) asked by auto
  qed
qed

text \<open>C38: Asking for a summary is asking the sampler again, with the same turns, prompt and timeout, for as long as its
  replies can heal - blank, degenerate, or an error that is neither a refusal nor an overflow of the context - and
  attempts are left: every reply but the last is of that kind, and the last is usable, or a refusal or an overflow,
  or the last of the configured number of attempts (at least one is made). The sampler is asked exactly once for
  each outcome reported. The observer is told of each, numbered from 1, with whether another follows, and the caller
  gets the verdict of the last reply with the number of attempts.\<close>

theorem summary_attempts_accounted:
  assumes "sample_summary_with_retries sampler turns prompt max_attempts timeout s = (result, outcomes, s')"
  shows "\<exists>replies. sampler_replies sampler turns prompt timeout (length outcomes) s = (replies, s')
       \<and> replies \<noteq> [] \<and> length replies \<le> max max_attempts 1
       \<and> (\<forall>r \<in> set (butlast replies). \<not> usable r \<and> \<not> hopeless r)
       \<and> (usable (last replies) \<or> hopeless (last replies) \<or> length replies = max max_attempts 1)
       \<and> outcomes = enumerate 1 (map (told True) (butlast replies) @ [told False (last replies)])
       \<and> result = verdict (length replies) (last replies)"
  using attempts_follow_replies[OF assms[unfolded sample_summary_with_retries_def]]
  by (auto simp: attempts_account_def)

definition flaky_sampler :: "(nat, nat) compaction_sampler" where
  "flaky_sampler = (\<lambda>s turns prompt timeout.
     (Inl (if s = 0 then SampleTimeout timeout 0 else BuildError ''no model''), s + 1))"

lemma flaky_run:
  "sample_summary_with_retries flaky_sampler [7] \<lparr>cp_system = [], cp_user = ''p''\<rparr> 3 120 0 =
     (Inl (RetryFailure ''Compaction sampler build failed: no model'' True False 2),
      [(1, AttemptFailure ''Compaction sampling timed out after 120s (collected 0 bytes so far)'' False False True),
       (2, AttemptFailure ''Compaction sampler build failed: no model'' True False False)], 2)"
  by code_simp

theorem summary_attempts_accounted_witness:
  "\<exists>replies. sampler_replies flaky_sampler [7] \<lparr>cp_system = [], cp_user = ''p''\<rparr> 120 (Suc (Suc 0)) 0 = (replies, 2)
     \<and> (\<forall>r \<in> set (butlast replies). \<not> hopeless r) \<and> length replies \<le> 3
     \<and> Inl (RetryFailure ''Compaction sampler build failed: no model'' True False 2) =
         verdict (length replies) (last replies)"
  using summary_attempts_accounted[OF flaky_run] by (auto simp del: sampler_replies.simps)

subsection \<open>The queries of the user\<close>

text \<open>A block of queries: it starts with the opening tag and ends with its first closing tag.\<close>

definition query_block :: "str \<Rightarrow> bool" where
  "query_block b \<longleftrightarrow>
     starts_with b QUERIES_OPEN \<and> find_sub b QUERIES_CLOSE = Some (length b - length QUERIES_CLOSE)"

definition carried :: "str list \<Rightarrow> str option" where
  "carried blocks = (if blocks = [] then None else Some (join [newline] blocks))"

lemma find_sub_append: "find_sub s p = Some i \<Longrightarrow> find_sub (s @ t) p = Some i"
proof (induction s p arbitrary: i rule: find_sub.induct)
  case (1 p)
  then show ?case by (cases t) (auto split: if_splits)
next
  case (2 c r p)
  show ?case
  proof (cases "starts_with (c # r) p")
    case True
    then have "starts_with ((c # r) @ t) p" by (metis append.assoc starts_withE starts_with_iff_prefix prefixI)
    then show ?thesis using True 2 by simp
  next
    case False
    then obtain k where k: "find_sub r p = Some k" "i = Suc k" using 2(2) by auto
    have "\<not> starts_with (c # r @ t) p"
    proof
      assume "starts_with (c # r @ t) p"
      moreover have "length p \<le> length (c # r)" using find_sub_less[OF k(1)] by simp
      ultimately have "prefix p (c # r)"
        by (metis append_Cons prefix_length_prefix prefixI starts_with_iff_prefix)
      with False show False by (simp add: starts_with_iff_prefix)
    qed
    then show ?thesis using 2(1)[OF False k(1)] k by simp
  qed
qed

lemma newlines_skipped:
  "set w \<subseteq> {newline} \<Longrightarrow> trim w = []" "set w \<subseteq> {newline} \<Longrightarrow> trim (w @ s) = trim s"
proof -
  have *: "set w \<subseteq> {newline} \<Longrightarrow> trim (w @ s) = trim s" for s
    by (induction w) (auto simp: trim_def trim_newlines)
  show "set w \<subseteq> {newline} \<Longrightarrow> trim w = []" using *[of "[]"] by simp
  show "set w \<subseteq> {newline} \<Longrightarrow> trim (w @ s) = trim s" by (rule *)
qed

lemma split_block:
  assumes "query_block b" "set w \<subseteq> {newline}"
  shows "split_prior_loop (w @ b @ t) sections rest = split_prior_loop t (sections @ [b]) rest"
proof -
  obtain x where b: "b = QUERIES_OPEN @ x" using assms(1) starts_withE unfolding query_block_def by blast
  have "newline \<noteq> CHR ''<''" by simp
  then have start: "find_sub (w @ b @ t) QUERIES_OPEN = Some (length w)"
    using find_sub_fresh[of QUERIES_OPEN w "x @ t"] assms(2) b by (auto simp: QUERIES_OPEN_def)
  have stop: "find_sub (b @ t) QUERIES_CLOSE = Some (length b - length QUERIES_CLOSE)"
    using assms(1) find_sub_append unfolding query_block_def by blast
  have "length QUERIES_CLOSE \<le> length b"
    using assms(1) find_sub_less[of b QUERIES_CLOSE] unfolding query_block_def by fastforce
  then have len: "length w + (length b - length QUERIES_CLOSE) + length QUERIES_CLOSE = length w + length b" by simp
  show ?thesis
    by (subst split_prior_loop.simps)
      (simp add: start stop len slice_def newlines_skipped(1)[OF assms(2)] push_rest_def)
qed

lemma split_blocks:
  "list_all query_block bs \<Longrightarrow> bs \<noteq> [] \<Longrightarrow> set w \<subseteq> {newline}
   \<Longrightarrow> split_prior_loop (w @ join [newline] bs @ t) sections rest = split_prior_loop t (sections @ bs) rest"
proof (induction bs arbitrary: w sections rule: induct_list012)
  case (2 b)
  then show ?case using split_block by simp
next
  case (3 b c bs)
  then show ?case using split_block[of b w] 3(2)[of "[newline]"] by simp
qed simp

lemma split_rest:
  "\<not> contains t QUERIES_OPEN \<Longrightarrow> split_prior_loop t sections [] = (sections, trim t)"
  by (subst split_prior_loop.simps) (simp add: find_sub_None_iff[THEN iffD2] push_rest_def)

lemma split_carried:
  assumes "list_all query_block (bs @ cs)" "bs @ cs \<noteq> []" "\<not> contains t QUERIES_OPEN"
  shows "split_prior_compaction_text (assemble_user_queries_preamble (carried bs) (carried cs) @ t) =
         (carried (bs @ cs), trim t)"
proof -
  let ?gap = "[newline, newline]"
  have step: "split_prior_loop (w @ (case carried xs of Some p \<Rightarrow> p @ ?gap | None \<Rightarrow> []) @ u) sections [] =
      split_prior_loop ((if xs = [] then w else ?gap) @ u) (sections @ xs) []"
    if "list_all query_block xs" "set w \<subseteq> {newline}" for w u xs sections
    using split_blocks[OF that(1) _ that(2), of "?gap @ u"] by (simp add: carried_def)
  have rest: "split_prior_loop (w @ t) sections [] = (sections, trim t)" if "set w \<subseteq> {newline}" for w sections
  proof -
    have "hd QUERIES_OPEN \<notin> set w" using that by (auto simp: QUERIES_OPEN_def)
    then have "\<not> contains (w @ t) QUERIES_OPEN"
      using contains_append_fresh[of QUERIES_OPEN w t] assms(3) by (simp add: QUERIES_OPEN_def)
    then show ?thesis using split_rest newlines_skipped(2)[OF that] by simp
  qed
  have "split_prior_loop (assemble_user_queries_preamble (carried bs) (carried cs) @ t) [] [] = (bs @ cs, trim t)"
    using assms(1) step[of bs "[]"] step[of cs "if bs = [] then [] else ?gap"]
      rest[of "if cs = [] then (if bs = [] then [] else ?gap) else ?gap"]
    by (simp add: assemble_user_queries_preamble_def)
  then show ?thesis using assms(2) by (auto simp: split_prior_compaction_text_def carried_def)
qed

lemma chunk_loop_outputs:
  assumes "\<And>chunk t output t'. flush chunk t = (Inr output, t') \<Longrightarrow> P output"
  shows "chunk_loop flush limit count turns chunk tokens outputs t = (Inr outputs', t') \<Longrightarrow> list_all P outputs
    \<Longrightarrow> list_all P outputs'"
proof (induction turns arbitrary: chunk tokens outputs t)
  case Nil
  then show ?case using assms by (auto split: if_splits prod.splits sum.splits)
next
  case (Cons turn turns)
  from Cons.prems show ?case
    by (auto simp: Let_def split: if_splits prod.splits sum.splits dest!: Cons.IH dest: assms)
qed

text \<open>A model that does not itself write the opening tag of a block of queries.\<close>

definition writes_no_queries :: "('s, 'i) compaction_sampler \<Rightarrow> bool" where
  "writes_no_queries sampler \<longleftrightarrow>
     (\<forall>s turns prompt timeout output s'. sampler s turns prompt timeout = (Inr output, s')
        \<longrightarrow> \<not> contains (lo_response output) QUERIES_OPEN)"

lemma show_nat_no_bracket: "CHR ''<'' \<notin> set (show_nat n)"
proof (induction n rule: show_nat.induct)
  case (1 n)
  have "CHR ''<'' \<noteq> char_of (48 + k)" if "k < 10" for k :: nat
  proof
    assume "CHR ''<'' = char_of (48 + k)"
    then have "of_char (char_of (48 + k) :: char) = (of_char (CHR ''<'') :: nat)" by simp
    then show False using that by simp
  qed
  then show ?case using 1 by (subst show_nat.simps) auto
qed

lemma chunk_summaries_quiet:
  "list_all (\<lambda>output. \<not> contains (lo_response output) QUERIES_OPEN) outputs
   \<Longrightarrow> \<not> contains (chunk_summaries i outputs) QUERIES_OPEN"
proof (induction outputs arbitrary: i)
  case Nil
  then show ?case by (simp add: QUERIES_OPEN_def)
next
  case (Cons out outs)
  let ?head = "''<chunk_summary index='' @ [dquote] @ show_nat i @ [dquote] @ ''>''"
  have "CHR ''<'' \<notin> set (tl ?head)" by (simp add: show_nat_no_bracket)
  then have "\<not> contains (tl ?head) QUERIES_OPEN" by (intro not_contains_fresh) (simp_all add: QUERIES_OPEN_def)
  then have head: "\<not> contains ?head QUERIES_OPEN" by (simp add: QUERIES_OPEN_def)
  have close: "\<not> contains ''</chunk_summary>'' QUERIES_OPEN" by (simp add: QUERIES_OPEN_def)
  have sep: "contains (a @ newline # b) QUERIES_OPEN \<longleftrightarrow> contains a QUERIES_OPEN \<or> contains b QUERIES_OPEN" for a b
    by (intro contains_append_sep) (simp_all add: QUERIES_OPEN_def)
  obtain head' where head': "head' = ?head" by blast
  have "chunk_summaries i (out # outs) =
      head' @ newline # lo_response out @ newline # ''</chunk_summary>'' @ newline # [] @ newline # chunk_summaries (i + 1) outs"
    unfolding head' by simp
  moreover have "\<not> contains [] QUERIES_OPEN" by (simp add: QUERIES_OPEN_def)
  ultimately show ?case using head close Cons unfolding head'[symmetric] by (simp only: sep list.pred_inject) blast
qed

lemma extracted_block:
  assumes "extract_user_queries_from_turns I turns threshold = Some block"
    "list_all (\<lambda>b. \<not> contains b QUERIES_CLOSE) (List.map_filter (user_query_block I threshold) turns)"
  shows "query_block block"
proof -
  let ?blocks = "List.map_filter (user_query_block I threshold) turns"
  have ends: "list_all (\<lambda>b. \<exists>a. b = a @ [newline]) ?blocks"
    by (auto simp: list_all_iff in_set_map_filter user_query_block_def Let_def split: if_splits)
  have "\<not> contains (concat bs) QUERIES_CLOSE"
    if "list_all (\<lambda>b. \<exists>a. b = a @ [newline]) bs" "list_all (\<lambda>b. \<not> contains b QUERIES_CLOSE) bs" for bs
    using that
  proof (induction bs)
    case (Cons b bs)
    obtain a where b: "b = a @ newline # []" using Cons.prems(1) by auto
    have sep: "contains (x @ newline # y) QUERIES_CLOSE \<longleftrightarrow> contains x QUERIES_CLOSE \<or> contains y QUERIES_CLOSE" for x y
      by (intro contains_append_sep) (simp_all add: QUERIES_CLOSE_def)
    show ?case using Cons sep[of a "[]"] sep[of a "concat bs"] by (simp add: b)
  qed (simp add: QUERIES_CLOSE_def)
  from this[OF ends assms(2)] have inner: "\<not> contains (concat ?blocks) QUERIES_CLOSE" .
  then have "\<not> contains (QUERIES_OPEN @ newline # concat ?blocks) QUERIES_CLOSE"
    by (simp add: QUERIES_OPEN_def QUERIES_CLOSE_def)
  then have "find_sub ((QUERIES_OPEN @ newline # concat ?blocks) @ QUERIES_CLOSE @ []) QUERIES_CLOSE =
      Some (length (QUERIES_OPEN @ newline # concat ?blocks))"
    by (intro find_sub_tag[of _ "CHR ''<''" "''/grok_user_queries>''"]) (simp_all add: QUERIES_CLOSE_def)
  moreover have "block = (QUERIES_OPEN @ newline # concat ?blocks) @ QUERIES_CLOSE @ []"
    using assms(1) by (auto simp: extract_user_queries_from_turns_def Let_def split: if_splits)
  ultimately show ?thesis by (simp add: query_block_def QUERIES_OPEN_def)
qed

lemma separate_later:
  "list_all (\<lambda>turn. \<not> cmp_is_summary B turn) later
   \<Longrightarrow> fold (separate_turn B) later acc = acc\<lparr>sh_turns_for_llm := sh_turns_for_llm acc @ later\<rparr>"
  by (induction later arbitrary: acc) (simp_all add: separate_turn_def)

text \<open>C36: Queries survive compactions. When a pass between turns summarises a history with the queries of earlier passes
  carried in it, adds those of its own turns, and a later pass meets the summary followed by turns that are no
  summaries, the later pass carries exactly the earlier queries and the new ones, in order and to the byte; and the
  model is shown a summary without any of them. The assumptions are that a query does not itself contain the closing
  tag of a block, nor the answers of the model the opening one.\<close>

theorem queries_survive_recompaction:
  assumes "sample_compaction_chunked B prompt turns (carried current) config sampler count s = (Inr out, s', events)"
    "extract_prior_user_queries B (filter_turns_for_inter_compaction B turns) = carried prior"
    "list_all query_block (prior @ current)" "prior @ current \<noteq> []" "writes_no_queries sampler"
    "cmp_is_summary B item" "cmp_text B item = Some (co_combined_text out)"
    "list_all (\<lambda>turn. \<not> cmp_is_summary B turn) later"
  shows "\<exists>summary. \<not> contains summary QUERIES_OPEN
       \<and> separate_prior_user_queries B (item # later) =
           \<lparr>sh_turns_for_llm = (if summary = [] then later else cmp_summary_item B summary # later),
            sh_prior_user_queries = carried (prior @ current), sh_has_prior_compaction = True\<rparr>"
proof -
  let ?separated = "separate_prior_user_queries B (filter_turns_for_inter_compaction B turns)"
  obtain limit outputs t where
      loop: "chunk_loop (flush_chunk sampler prompt config) limit count (sh_turns_for_llm ?separated) [] 0 [] (s, []) =
        (Inr outputs, t)"
    and combined: "co_combined_text out =
        assemble_user_queries_preamble (sh_prior_user_queries ?separated) (carried current) @ chunk_summaries 0 outputs"
    using assms(1) by (auto simp: sample_compaction_chunked_def Let_def split: option.splits if_splits prod.splits sum.splits)
  have "list_all (\<lambda>output. \<not> contains (lo_response output) QUERIES_OPEN) outputs"
    by (rule chunk_loop_outputs[OF _ loop])
      (use assms(5) in \<open>fastforce simp: flush_chunk_def writes_no_queries_def Let_def split: prod.splits\<close>, simp)
  then have quiet: "\<not> contains (chunk_summaries 0 outputs) QUERIES_OPEN" by (rule chunk_summaries_quiet)
  let ?summary = "trim (chunk_summaries 0 outputs)"
  have "split_prior_compaction_text (co_combined_text out) = (carried (prior @ current), ?summary)"
    using split_carried[OF assms(3,4) quiet] assms(2) unfolding combined extract_prior_user_queries_def by simp
  then have "separate_turn B item \<lparr>sh_turns_for_llm = [], sh_prior_user_queries = None, sh_has_prior_compaction = False\<rparr> =
      \<lparr>sh_turns_for_llm = (if ?summary \<noteq> [] then [cmp_summary_item B ?summary] else []),
       sh_prior_user_queries = carried (prior @ current), sh_has_prior_compaction = True\<rparr>"
    using assms(6,7) by (simp add: separate_turn_def join_queries_def split: option.split)
  then show ?thesis using quiet trim_contains separate_later[OF assms(8)]
    by (intro exI[of _ ?summary]) (auto simp: separate_prior_user_queries_def)
qed

subsection \<open>A chat that is compacted twice\<close>

text \<open>Items of a chat: role, whether it is a summary, text.\<close>

type_synonym chat_item = "compaction_role \<times> bool \<times> str"

definition chat_builder :: "chat_item compaction_builder" where
  "chat_builder =
     \<lparr>cmp_role = fst, cmp_text = (\<lambda>item. Some (snd (snd item))), cmp_has_tool_requests = (\<lambda>_. False),
      cmp_is_summary = (\<lambda>item. fst (snd item)), cmp_attachment_refs = (\<lambda>_. []),
      cmp_summary_item = (\<lambda>s. (DeveloperRole, True, s)), cmp_strip_tool_content = Some\<rparr>"

definition quiet_sampler :: "(nat, chat_item) compaction_sampler" where
  "quiet_sampler = (\<lambda>s turns prompt timeout. (Inr \<lparr>lo_response = ''Went on.'', lo_thinking = []\<rparr>, s + 1))"

definition chat_query :: "str \<Rightarrow> str" where
  "chat_query q = QUERIES_OPEN @ newline # ''<grok_query>'' @ q @ ''</grok_query>'' @ newline # QUERIES_CLOSE"

definition first_chat :: "chat_item list" where
  "first_chat =
     [(DeveloperRole, True, chat_query ''build it'' @ [newline, newline] @ ''Built.''), (UserRole, False, ''test it''),
      (AssistantRole, False, ''Tested.'')]"

definition chat_config :: inter_compaction_config where
  "chat_config =
     \<lparr>xc_sampling_timeout_secs = 60, xc_compaction_strategy = BasicStrategy, xc_dnc_chunk_token_limit = 1000,
      xc_user_message_compact_threshold = 100\<rparr>"

definition chat_output :: chunked_compaction_output where
  "chat_output =
     \<lparr>co_combined_text = chat_query ''build it'' @ [newline, newline] @ chat_query ''test it'' @ [newline, newline]
        @ ''<chunk_summary index='' @ [dquote] @ ''0'' @ [dquote] @ ''>'' @ [newline] @ ''Went on.'' @ [newline]
        @ ''</chunk_summary>'' @ [newline, newline],
      co_analysis_text = []\<rparr>"

lemma chat_block: "query_block (chat_query ''build it'')" "query_block (chat_query ''test it'')"
  by (simp_all add: query_block_def chat_query_def QUERIES_OPEN_def QUERIES_CLOSE_def)

lemma first_chat_prior:
  "separate_prior_user_queries chat_builder (filter_turns_for_inter_compaction chat_builder first_chat) =
     \<lparr>sh_turns_for_llm = (DeveloperRole, True, ''Built.'') # tl first_chat,
      sh_prior_user_queries = carried [chat_query ''build it''], sh_has_prior_compaction = True\<rparr>"
proof -
  have "trim ''Built.'' = ''Built.''" by code_simp
  then have "split_prior_compaction_text (chat_query ''build it'' @ [newline, newline] @ ''Built.'') =
      (carried [chat_query ''build it''], ''Built.'')"
    using split_carried[of "[chat_query ''build it'']" "[]" "''Built.''"] chat_block(1)
    by (simp add: assemble_user_queries_preamble_def carried_def QUERIES_OPEN_def)
  then show ?thesis
    by (simp add: separate_prior_user_queries_def separate_turn_def first_chat_def chat_builder_def carried_def
        filter_turns_for_inter_compaction_def inter_turn_def map_filter_simps join_queries_def)
qed

lemma chat_run:
  "sample_compaction_chunked chat_builder \<lparr>cp_system = [], cp_user = []\<rparr> first_chat (carried [chat_query ''test it'']) chat_config
     quiet_sampler (\<lambda>item. 5) 0 =
   (Inr chat_output, 1, [ChunkSampled True, Recompaction, ChunkCount 1])"
proof -
  have "filter_turns_for_inter_compaction chat_builder first_chat \<noteq> []"
    by (simp add: first_chat_def chat_builder_def filter_turns_for_inter_compaction_def inter_turn_def map_filter_simps)
  moreover have "chunk_token_limit chat_config = Some UNBOUNDED_CHUNK_LIMIT"
    by (simp add: chunk_token_limit_def chat_config_def)
  moreover have "show_nat 0 = ''0''" by code_simp
  ultimately show ?thesis
    unfolding sample_compaction_chunked_def Let_def first_chat_prior
    by (simp add: first_chat_def chat_config_def flush_chunk_def quiet_sampler_def carried_def
        assemble_user_queries_preamble_def chat_output_def wrap_chunk_analysis_def)
qed

theorem queries_survive_recompaction_witness:
  "\<exists>summary. \<not> contains summary QUERIES_OPEN
    \<and> separate_prior_user_queries chat_builder
         [(DeveloperRole, True, co_combined_text chat_output), (UserRole, False, ''ship it'')] =
       \<lparr>sh_turns_for_llm =
          (if summary = [] then [(UserRole, False, ''ship it'')]
           else cmp_summary_item chat_builder summary # [(UserRole, False, ''ship it'')]),
        sh_prior_user_queries = carried ([chat_query ''build it''] @ [chat_query ''test it'']), sh_has_prior_compaction = True\<rparr>"
proof (rule queries_survive_recompaction[OF chat_run])
  show "extract_prior_user_queries chat_builder (filter_turns_for_inter_compaction chat_builder first_chat) =
      carried [chat_query ''build it'']"
    by (simp add: extract_prior_user_queries_def first_chat_prior)
  show "list_all query_block ([chat_query ''build it''] @ [chat_query ''test it''])" using chat_block by simp
  show "writes_no_queries quiet_sampler" by (auto simp: writes_no_queries_def quiet_sampler_def QUERIES_OPEN_def)
qed (simp_all add: chat_builder_def)

subsection \<open>What ends a block of queries\<close>

text \<open>A query that contains the closing tag ends its block: what follows is no query any more, but text for the model.\<close>

lemma closing_tag_cuts_block:
  assumes "query_block block" "\<not> contains t QUERIES_OPEN"
  shows "split_prior_compaction_text (block @ t) = (Some block, trim t)"
  using split_block[OF assms(1), of "[]" t "[]" "[]"] split_rest[OF assms(2), of "[block]"]
  by (simp add: split_prior_compaction_text_def)

lemma query_lost_from_block:
  "split_prior_compaction_text (chat_query ''what does </grok_user_queries> end?'') =
     (Some (QUERIES_OPEN @ newline # ''<grok_query>what does </grok_user_queries>''),
      trim ('' end?</grok_query>'' @ newline # QUERIES_CLOSE))"
  using closing_tag_cuts_block[of "QUERIES_OPEN @ newline # ''<grok_query>what does </grok_user_queries>''"
      "'' end?</grok_query>'' @ newline # QUERIES_CLOSE"]
  by (simp add: query_block_def chat_query_def QUERIES_OPEN_def QUERIES_CLOSE_def)

text \<open>The check of a result counts tags in the queries it carries, too.\<close>

lemma quoted_tag_fails_validation:
  "validate_compaction_text
     (chat_query ''explain <chunk_summary'' @ [newline, newline] @ chunk_summaries 0 [\<lparr>lo_response = ''Done.'', lo_thinking = []\<rparr>])
     DivideAndConquer = Some (UnbalancedChunkTags 2 1)"
proof -
  have zero: "show_nat 0 = ''0''" by code_simp
  have "trim (CHR ''<'' # s) \<noteq> []" for s
    using trim_hd[of "CHR ''<'' # s"] by (auto simp: ws_seqs_def)
  then show ?thesis
    by (simp add: validate_compaction_text_def chat_query_def QUERIES_OPEN_def QUERIES_CLOSE_def zero match_count.simps)
qed

subsection \<open>The history a full replacement makes\<close>

text \<open>The assembler of the engine, at the factory of conversation items, is the one of the chat state.\<close>

lemma assemblers_agree:
  "assemble_compacted_history conversation_factory
     \<lparr>hp_system_message = hi_system_message inp, hp_user_message_prefix = hi_user_message_prefix inp,
      hp_agents_md_reminder = hi_agents_md_reminder inp,
      hp_last_user_query = cs_last_user_query (hi_state_context inp),
      hp_recent_messages = cs_recent_messages (hi_state_context inp),
      hp_compaction_summary = hi_compaction_summary inp, hp_system_reminder = hi_system_reminder inp,
      hp_transcript_hint = hi_transcript_hint inp\<rparr> =
   build_compacted_history inp"
  by (simp add: assemble_compacted_history_def build_compacted_history_def summary_before_recent_carrier_def
      conversation_factory_def pushed_item_def item_of_def)

end
