(* ===== verification/Tool_Pruning.thy ===== *)
theory Tool_Pruning
  imports Compaction
begin

section \<open>Pruning a conversation (\<open>cf-chat-state/src/actor/request_builder.rs\<close>)\<close>

text \<open>
  What the actor cuts out of a conversation before it sends a copy of it: the contents of old tool results, old
  images, and what it puts in: the memory reminder. The passes walk the items from the last one and count user
  items; here they run over the reversed conversation. The sizes serde gives values in JSON and the hashes of
  the standard library, whose algorithm it leaves open, are the record \<open>chat_env\<close>.
\<close>

record chat_env =
  ce_body_json_bytes :: "conversation \<Rightarrow> nat"
  ce_part_json_bytes :: "content_part \<Rightarrow> nat"
  ce_args_fingerprint :: "str \<Rightarrow> str \<Rightarrow> nat"
  ce_block_fingerprint :: "str \<Rightarrow> nat"

subsection \<open>Configuration (\<open>types.rs\<close>)\<close>

definition LOW_WATERMARK_PERCENT_DEFAULT :: nat where "LOW_WATERMARK_PERCENT_DEFAULT = 40"

definition PRUNE_WATERMARK_PERCENT :: nat where "PRUNE_WATERMARK_PERCENT = 50"

definition LOW_WATERMARK_RECLAIM_MARGIN_PERCENT :: nat where "LOW_WATERMARK_RECLAIM_MARGIN_PERCENT = 5"

record pruning_config =
  pc_enabled :: bool
  pc_keep_last_n_turns :: nat
  pc_soft_trim_threshold :: nat
  pc_soft_trim_head :: nat
  pc_soft_trim_tail :: nat
  pc_hard_clear_age_turns :: nat
  pc_batched_pruning :: bool
  pc_low_watermark_percent :: "nat option"

definition default_pruning :: pruning_config where
  "default_pruning =
     \<lparr>pc_enabled = True, pc_keep_last_n_turns = 3, pc_soft_trim_threshold = 4000, pc_soft_trim_head = 1500,
      pc_soft_trim_tail = 1500, pc_hard_clear_age_turns = 10, pc_batched_pruning = False,
      pc_low_watermark_percent = None\<rparr>"

definition batched_mode :: "pruning_config \<Rightarrow> bool" where
  "batched_mode config = (pc_batched_pruning config \<and> pc_low_watermark_percent config \<noteq> None)"

definition effective_low_watermark_percent :: "pruning_config \<Rightarrow> nat" where
  "effective_low_watermark_percent config =
     (case pc_low_watermark_percent config of
        Some p \<Rightarrow> if p < PRUNE_WATERMARK_PERCENT then p else LOW_WATERMARK_PERCENT_DEFAULT
      | None \<Rightarrow> LOW_WATERMARK_PERCENT_DEFAULT)"

definition should_prune :: "nat \<Rightarrow> nat \<Rightarrow> bool" where
  "should_prune total_tokens context_window =
     (u64_wrap (context_window * PRUNE_WATERMARK_PERCENT) div 100 < total_tokens)"

definition context_utilization_percent :: "nat \<Rightarrow> nat \<Rightarrow> nat" where
  "context_utilization_percent total_tokens context_window = saturating_mul total_tokens 100 div context_window"

definition should_batch_prune :: "nat \<Rightarrow> nat \<Rightarrow> nat \<Rightarrow> bool" where
  "should_batch_prune total_tokens context_window low_watermark_percent =
     (let utilization_percent = context_utilization_percent total_tokens context_window
      in low_watermark_percent \<le> utilization_percent \<and> utilization_percent < PRUNE_WATERMARK_PERCENT)"

subsection \<open>Placeholders\<close>

definition HARD_CLEAR_PLACEHOLDER :: str where
  "HARD_CLEAR_PLACEHOLDER = ''[Tool result omitted '' @ em_dash @ '' too old]''"

definition HARD_CLEAR_PREFIX :: str where "HARD_CLEAR_PREFIX = ''[Tool result omitted''"

definition OUTPUT_POINTER_MARKER :: str where "OUTPUT_POINTER_MARKER = ''full output at: ''"

definition pointer_preserving_replacement :: "str \<Rightarrow> str \<Rightarrow> str" where
  "pointer_preserving_replacement placeholder content =
     (case rfind_sub content OUTPUT_POINTER_MARKER of
        Some idx \<Rightarrow>
          let line_end = (case find_sub (drop idx content) [newline] of
                            Some e \<Rightarrow> idx + e | None \<Rightarrow> length content);
              pointer_line = trim_end (slice content idx line_end)
          in placeholder @ ''. '' @ pointer_line
      | None \<Rightarrow> placeholder)"

definition hard_clear_replacement :: "str \<Rightarrow> str" where
  "hard_clear_replacement content = pointer_preserving_replacement HARD_CLEAR_PLACEHOLDER content"

definition is_hard_cleared :: "str \<Rightarrow> bool" where
  "is_hard_cleared content = starts_with content HARD_CLEAR_PREFIX"

definition BATCH_CLEAR_PLACEHOLDER :: str where
  "BATCH_CLEAR_PLACEHOLDER =
     ''[tool result aged; full output preserved in the session archive '' @ em_dash
     @ '' read_file the raw updates.jsonl transcript to recover it (segment_*.md files exist only in ''
     @ ''Segments compaction mode)]''"

definition BATCH_CLEAR_SUPPRESSED_PLACEHOLDER :: str where
  "BATCH_CLEAR_SUPPRESSED_PLACEHOLDER = ''[tool result aged]''"

definition BATCH_CLEAR_PREFIX :: str where "BATCH_CLEAR_PREFIX = ''[tool result aged''"

definition is_batch_cleared :: "str \<Rightarrow> bool" where
  "is_batch_cleared content = starts_with content BATCH_CLEAR_PREFIX"

definition batch_clear_replacement :: "str \<Rightarrow> str" where
  "batch_clear_replacement content = pointer_preserving_replacement BATCH_CLEAR_PLACEHOLDER content"

definition batch_clear_suppressed_replacement :: "str \<Rightarrow> str" where
  "batch_clear_suppressed_replacement content =
     pointer_preserving_replacement BATCH_CLEAR_SUPPRESSED_PLACEHOLDER content"

definition SOFT_TRIM_SEPARATOR :: str where
  "SOFT_TRIM_SEPARATOR =
     (let ellipsis = [CHR 0xE2, CHR 0x80, CHR 0xA6]
      in [newline, newline] @ ''['' @ ellipsis @ ''trimmed'' @ ellipsis @ '']'' @ [newline, newline])"

definition SEARCH_TOOL_NAME :: str where "SEARCH_TOOL_NAME = ''search_tool''"

subsection \<open>Old tool results of the copy\<close>

fun calls_of :: "conversation_item \<Rightarrow> tool_call list" where
  "calls_of (Assistant a) = ai_tool_calls a"
| "calls_of _ = []"

text \<open>The map of call identifiers; of two calls with one identifier the later one is kept.\<close>

definition tool_call_by_id :: "conversation \<Rightarrow> str \<Rightarrow> (str \<times> str) option" where
  "tool_call_by_id items =
     map_of (rev (map (\<lambda>tc. (tc_id tc, tc_name tc, tc_arguments tc)) (concat (map calls_of items))))"

definition safe_char_slice_tail :: "str \<Rightarrow> nat \<Rightarrow> str" where
  "safe_char_slice_tail s count =
     (let total = char_count s in if total \<le> count then s else skip_chars (total - count) s)"

definition prune_result :: "pruning_config \<Rightarrow> (str \<Rightarrow> bool) \<Rightarrow> nat \<Rightarrow> tool_result_item \<Rightarrow> tool_result_item" where
  "prune_result config is_search_tool_result turn_from_end t =
     (if turn_from_end < pc_keep_last_n_turns config then t
      else if is_search_tool_result (ti_tool_call_id t) then t
      else if pc_hard_clear_age_turns config \<le> turn_from_end then
        (if is_hard_cleared (ti_content t) then t
         else t\<lparr>ti_content := hard_clear_replacement (ti_content t)\<rparr>)
      else if pc_soft_trim_threshold config < char_count (ti_content t) then
        t\<lparr>ti_content := take_chars (pc_soft_trim_head config) (ti_content t) @ SOFT_TRIM_SEPARATOR
                          @ safe_char_slice_tail (ti_content t) (pc_soft_trim_tail config)\<rparr>
      else t)"

fun prune_back ::
  "(nat \<Rightarrow> tool_result_item \<Rightarrow> tool_result_item) \<Rightarrow> nat \<Rightarrow> bool \<Rightarrow> conversation \<Rightarrow> conversation" where
  "prune_back f turn_from_end seen_first_user [] = []"
| "prune_back f turn_from_end seen_first_user (User u # earlier) =
     User u # prune_back f (if seen_first_user then turn_from_end + 1 else turn_from_end) True earlier"
| "prune_back f turn_from_end seen_first_user (ToolResult t # earlier) =
     ToolResult (f turn_from_end t) # prune_back f turn_from_end seen_first_user earlier"
| "prune_back f turn_from_end seen_first_user (item # earlier) =
     item # prune_back f turn_from_end seen_first_user earlier"

definition prune_conversation :: "pruning_config \<Rightarrow> conversation \<Rightarrow> conversation" where
  "prune_conversation config items =
     (if \<not> pc_enabled config then items
      else let is_search_tool_result = (\<lambda>i. batched_mode config
                 \<and> map_option fst (tool_call_by_id items i) = Some SEARCH_TOOL_NAME)
           in rev (prune_back (prune_result config is_search_tool_result) 0 False (rev items)))"

subsection \<open>Images\<close>

definition IMAGE_COMPACT_PLACEHOLDER :: str where
  "IMAGE_COMPACT_PLACEHOLDER =
     ''[An earlier image was removed to keep the request within its size limit and is no longer visible. ''
     @ ''Do not describe or reason about its contents from memory; ask the user to re-share it if you need to ''
     @ ''see it again.]''"

definition MAX_REQUEST_BYTES :: nat where "MAX_REQUEST_BYTES = 50 * 1024 * 1024"

definition IMAGE_COMPACT_TRIGGER_BYTES :: nat where
  "IMAGE_COMPACT_TRIGGER_BYTES = MAX_REQUEST_BYTES - 3 * 1024 * 1024"

definition IMAGE_COMPACT_RECLAIM_TARGET_BYTES :: nat where
  "IMAGE_COMPACT_RECLAIM_TARGET_BYTES = MAX_REQUEST_BYTES div 2"

definition IMAGE_PART_FRAME_BYTES :: nat where
  "IMAGE_PART_FRAME_BYTES =
     length (''{'' @ [dquote] @ ''type'' @ [dquote] @ '':'' @ [dquote] @ ''image'' @ [dquote] @ '','' @ [dquote]
             @ ''url'' @ [dquote] @ '':'' @ [dquote, dquote] @ ''}'')"

definition image_part_bytes :: "str \<Rightarrow> nat" where "image_part_bytes url = IMAGE_PART_FRAME_BYTES + length url"

fun parts_of :: "conversation_item \<Rightarrow> content_part list" where
  "parts_of (User u) = ui_content u"
| "parts_of _ = []"

definition inline_image_count :: "conversation \<Rightarrow> nat" where
  "inline_image_count items = length (filter is_image (concat (map parts_of items)))"

fun blank_part :: "content_part \<Rightarrow> content_part" where
  "blank_part (ImagePart url) = ImagePart []"
| "blank_part (TextPart t) = TextPart t"

fun blank_images :: "conversation_item \<Rightarrow> conversation_item" where
  "blank_images (User u) = User (u\<lparr>ui_content := map blank_part (ui_content u)\<rparr>)"
| "blank_images item = item"

fun image_url_bytes :: "content_part \<Rightarrow> nat" where
  "image_url_bytes (ImagePart url) = length url"
| "image_url_bytes (TextPart t) = 0"

definition conversation_body_bytes :: "chat_env \<Rightarrow> conversation \<Rightarrow> nat" where
  "conversation_body_bytes E items =
     ce_body_json_bytes E (map blank_images items)
     + sum_list (map image_url_bytes (concat (map parts_of items)))"

text \<open>The oldest images go first: the parts in their order, with what is left of the size and what was evicted.\<close>

fun evict_parts ::
  "nat \<Rightarrow> nat \<Rightarrow> nat \<Rightarrow> nat \<Rightarrow> content_part list \<Rightarrow> content_part list \<times> nat \<times> nat" where
  "evict_parts target placeholder_bytes running evicted [] = ([], running, evicted)"
| "evict_parts target placeholder_bytes running evicted (ImagePart url # parts) =
     (if running \<le> target then (ImagePart url # parts, running, evicted)
      else case evict_parts target placeholder_bytes
                  (running - (image_part_bytes url - placeholder_bytes)) (evicted + 1) parts of
             (parts', result) \<Rightarrow> (TextPart IMAGE_COMPACT_PLACEHOLDER # parts', result))"
| "evict_parts target placeholder_bytes running evicted (TextPart t # parts) =
     (case evict_parts target placeholder_bytes running evicted parts of
        (parts', result) \<Rightarrow> (TextPart t # parts', result))"

fun evict_images :: "nat \<Rightarrow> nat \<Rightarrow> nat \<Rightarrow> nat \<Rightarrow> conversation \<Rightarrow> conversation \<times> nat \<times> nat" where
  "evict_images target placeholder_bytes running evicted [] = ([], running, evicted)"
| "evict_images target placeholder_bytes running evicted (User u # items) =
     (case evict_parts target placeholder_bytes running evicted (ui_content u) of
        (parts, running', evicted') \<Rightarrow>
          case evict_images target placeholder_bytes running' evicted' items of
            (items', result) \<Rightarrow> (User (u\<lparr>ui_content := parts\<rparr>) # items', result))"
| "evict_images target placeholder_bytes running evicted (item # items) =
     (case evict_images target placeholder_bytes running evicted items of
        (items', result) \<Rightarrow> (item # items', result))"

record image_eviction_outcome =
  ieo_evicted :: nat
  ieo_body_bytes_after :: nat

definition compact_images_to_byte_budget ::
  "chat_env \<Rightarrow> conversation \<Rightarrow> nat \<Rightarrow> nat \<Rightarrow> conversation \<times> image_eviction_outcome" where
  "compact_images_to_byte_budget E items current_bytes target_bytes =
     (if current_bytes \<le> target_bytes
      then (items, \<lparr>ieo_evicted = 0, ieo_body_bytes_after = current_bytes\<rparr>)
      else let placeholder_bytes = ce_part_json_bytes E (TextPart IMAGE_COMPACT_PLACEHOLDER);
               (items', running, evicted) = evict_images target_bytes placeholder_bytes current_bytes 0 items
           in (items', \<lparr>ieo_evicted = evicted, ieo_body_bytes_after = running\<rparr>))"

subsection \<open>The memory reminder\<close>

definition MEMORY_CONTEXT_OPEN_TAG :: str where "MEMORY_CONTEXT_OPEN_TAG = ''<memory-context>''"

definition trim_newlines_end :: "str \<Rightarrow> str" where
  "trim_newlines_end s = rev (dropWhile (\<lambda>c. c = newline) (rev s))"

definition upsert_memory_reminder_text :: "str \<Rightarrow> str \<Rightarrow> str" where
  "upsert_memory_reminder_text system_prompt reminder =
     (let existing_start =
            map_option (\<lambda>idx. length (trim_newlines_end (take idx system_prompt)))
              (find_sub system_prompt MEMORY_CONTEXT_OPEN_TAG)
      in case existing_start of
           Some prefix_len \<Rightarrow>
             let prefix = trim_newlines_end (take prefix_len system_prompt)
             in if prefix = [] then reminder else prefix @ [newline, newline] @ reminder
         | None \<Rightarrow>
             if trim_end system_prompt = reminder then system_prompt
             else if system_prompt = [] then reminder
             else trim_newlines_end system_prompt @ [newline, newline] @ reminder)"

fun upsert_head :: "str \<Rightarrow> conversation \<Rightarrow> conversation" where
  "upsert_head reminder (System s # rest) = System (upsert_memory_reminder_text s reminder) # rest"
| "upsert_head reminder items = System reminder # items"

definition inject_memory_reminder :: "conversation \<Rightarrow> str \<Rightarrow> conversation \<times> bool" where
  "inject_memory_reminder items reminder =
     (let reminder = trim reminder
      in if reminder = [] then (items, False)
         else let items' = upsert_head reminder items in (items', items' \<noteq> items))"

end
