(* ===== verification/Usage_Ledger.thy ===== *)
theory Usage_Ledger
  imports Token_Estimates
begin

section \<open>Billing ledgers (\<open>cf-chat-state/src/usage.rs\<close>)\<close>

text \<open>
  What a prompt and a session have used, in all and by model. The counters are 64-bit and saturate; costs are
  signed and saturate at both ends. A ledger keeps the entries of its models in the order of their first use, as
  the \<open>IndexMap\<close> of the code does.
\<close>

subsection \<open>Definitions\<close>

definition I64_MAX :: int where "I64_MAX = 2 ^ 63 - 1"

definition I64_MIN :: int where "I64_MIN = - (2 ^ 63)"

definition saturating_add_i64 :: "int \<Rightarrow> int \<Rightarrow> int" where
  "saturating_add_i64 a b = max I64_MIN (min I64_MAX (a + b))"

record token_usage =
  tu_prompt_tokens :: nat
  tu_completion_tokens :: nat
  tu_total_tokens :: nat
  tu_reasoning_tokens :: nat
  tu_cached_prompt_tokens :: nat

definition reported_cost_ticks :: "int option \<Rightarrow> int option" where
  "reported_cost_ticks raw = (case raw of Some t \<Rightarrow> if 0 < t then Some t else None | None \<Rightarrow> None)"

record usage_totals =
  ut_input_tokens :: nat
  ut_output_tokens :: nat
  ut_cached_read_tokens :: nat
  ut_reasoning_tokens :: nat
  ut_model_calls :: nat
  ut_api_duration_ms :: nat
  ut_cost_usd_ticks :: "int option"
  ut_cost_missing_calls :: nat

definition default_totals :: usage_totals where
  "default_totals =
     \<lparr>ut_input_tokens = 0, ut_output_tokens = 0, ut_cached_read_tokens = 0, ut_reasoning_tokens = 0,
      ut_model_calls = 0, ut_api_duration_ms = 0, ut_cost_usd_ticks = None, ut_cost_missing_calls = 0\<rparr>"

definition from_call :: "token_usage \<Rightarrow> nat option \<Rightarrow> int option \<Rightarrow> usage_totals" where
  "from_call usage api_duration_ms cost_usd_ticks =
     (let cost_usd_ticks = reported_cost_ticks cost_usd_ticks
      in \<lparr>ut_input_tokens = tu_prompt_tokens usage,
          ut_output_tokens = tu_completion_tokens usage,
          ut_cached_read_tokens = tu_cached_prompt_tokens usage,
          ut_reasoning_tokens = tu_reasoning_tokens usage,
          ut_model_calls = 1,
          ut_api_duration_ms = (case api_duration_ms of Some ms \<Rightarrow> ms | None \<Rightarrow> 0),
          ut_cost_usd_ticks = cost_usd_ticks,
          ut_cost_missing_calls = (if cost_usd_ticks = None then 1 else 0)\<rparr>)"

definition total_tokens_of :: "usage_totals \<Rightarrow> nat" where
  "total_tokens_of t = saturating_add (ut_input_tokens t) (ut_output_tokens t)"

definition cache_read_ratio :: "usage_totals \<Rightarrow> f64" where
  "cache_read_ratio t =
     (if ut_input_tokens t = 0 then f64_of_u64 0
      else f64_div (f64_of_u64 (ut_cached_read_tokens t)) (f64_of_u64 (ut_input_tokens t)))"

definition cost_is_partial :: "usage_totals \<Rightarrow> bool" where
  "cost_is_partial t = (ut_cost_usd_ticks t \<noteq> None \<and> 0 < ut_cost_missing_calls t)"

fun merge_cost_ticks :: "int option \<Rightarrow> int option \<Rightarrow> int option" where
  "merge_cost_ticks None None = None"
| "merge_cost_ticks a b =
     Some (saturating_add_i64 (case a of Some x \<Rightarrow> x | None \<Rightarrow> 0) (case b of Some x \<Rightarrow> x | None \<Rightarrow> 0))"

definition fold_totals :: "usage_totals \<Rightarrow> usage_totals \<Rightarrow> usage_totals" where
  "fold_totals self other =
     \<lparr>ut_input_tokens = saturating_add (ut_input_tokens self) (ut_input_tokens other),
      ut_output_tokens = saturating_add (ut_output_tokens self) (ut_output_tokens other),
      ut_cached_read_tokens = saturating_add (ut_cached_read_tokens self) (ut_cached_read_tokens other),
      ut_reasoning_tokens = saturating_add (ut_reasoning_tokens self) (ut_reasoning_tokens other),
      ut_model_calls = saturating_add (ut_model_calls self) (ut_model_calls other),
      ut_api_duration_ms = saturating_add (ut_api_duration_ms self) (ut_api_duration_ms other),
      ut_cost_usd_ticks = merge_cost_ticks (ut_cost_usd_ticks self) (ut_cost_usd_ticks other),
      ut_cost_missing_calls = saturating_add (ut_cost_missing_calls self) (ut_cost_missing_calls other)\<rparr>"

record usage_ledger =
  ul_totals :: usage_totals
  ul_by_model :: "(str \<times> usage_totals) list"
  ul_main_loop_model_calls :: nat
  ul_incomplete :: bool

definition default_ledger :: usage_ledger where
  "default_ledger =
     \<lparr>ul_totals = default_totals, ul_by_model = [], ul_main_loop_model_calls = 0, ul_incomplete = False\<rparr>"

text \<open>\<open>by_model.entry(model_id).or_default()\<close>, folded in place.\<close>

fun fold_model :: "str \<Rightarrow> usage_totals \<Rightarrow> (str \<times> usage_totals) list \<Rightarrow> (str \<times> usage_totals) list" where
  "fold_model model_id totals [] = [(model_id, fold_totals default_totals totals)]"
| "fold_model model_id totals ((m, t) # entries) =
     (if m = model_id then (m, fold_totals t totals) # entries else (m, t) # fold_model model_id totals entries)"

definition fold_entry :: "str \<Rightarrow> usage_totals \<Rightarrow> usage_ledger \<Rightarrow> usage_ledger" where
  "fold_entry model_id totals ledger =
     ledger\<lparr>ul_totals := fold_totals (ul_totals ledger) totals,
            ul_by_model := fold_model model_id totals (ul_by_model ledger)\<rparr>"

definition record_main_loop_call ::
  "str \<Rightarrow> token_usage \<Rightarrow> nat option \<Rightarrow> int option \<Rightarrow> usage_ledger \<Rightarrow> usage_ledger" where
  "record_main_loop_call model_id usage api_duration_ms cost_usd_ticks ledger =
     fold_entry model_id (from_call usage api_duration_ms cost_usd_ticks)
       (ledger\<lparr>ul_main_loop_model_calls := saturating_add (ul_main_loop_model_calls ledger) 1\<rparr>)"

definition mark_incomplete :: "usage_ledger \<Rightarrow> usage_ledger" where
  "mark_incomplete ledger = ledger\<lparr>ul_incomplete := True\<rparr>"

definition record_subagent :: "(str \<times> usage_totals) list \<Rightarrow> bool \<Rightarrow> usage_ledger \<Rightarrow> usage_ledger" where
  "record_subagent by_model incomplete ledger =
     (let ledger = fold (\<lambda>(model_id, totals). fold_entry model_id totals) by_model ledger
      in if incomplete then mark_incomplete ledger else ledger)"

subsection \<open>The bill adds up\<close>

text \<open>The counters that are added, and the laws of saturating addition a bill rests on.\<close>

definition COUNTERS :: "(usage_totals \<Rightarrow> nat) list" where
  "COUNTERS =
     [ut_input_tokens, ut_output_tokens, ut_cached_read_tokens, ut_reasoning_tokens, ut_model_calls,
      ut_api_duration_ms, ut_cost_missing_calls]"

lemma saturating_assoc: "saturating_add (saturating_add a b) c = u64_sat (a + b + c)"
  "saturating_add a (saturating_add b c) = u64_sat (a + b + c)"
  by (simp_all add: saturating_defs min_def)

lemma saturating_le: "a \<le> U64_MAX \<Longrightarrow> a \<le> saturating_add a b"
  by (simp add: saturating_defs)

lemma saturating_add_sat: "saturating_add (u64_sat a) b = u64_sat (a + b)"
  by (simp add: saturating_defs)

lemma fold_totals_counter: "c \<in> set COUNTERS \<Longrightarrow> c (fold_totals t u) = saturating_add (c t) (c u)"
  by (auto simp: COUNTERS_def fold_totals_def)

lemma default_counter: "c \<in> set COUNTERS \<Longrightarrow> c default_totals = 0"
  by (auto simp: COUNTERS_def default_totals_def)

definition balanced :: "usage_ledger \<Rightarrow> bool" where
  "balanced ledger \<longleftrightarrow>
     distinct (map fst (ul_by_model ledger))
     \<and> (\<forall>c \<in> set COUNTERS. c (ul_totals ledger) = u64_sat (sum_list (map (c \<circ> snd) (ul_by_model ledger))))"

lemma fold_model_keys: "fst ` set (fold_model m t entries) = insert m (fst ` set entries)"
  by (induction m t entries rule: fold_model.induct) (simp_all add: insert_commute)

lemma fold_model_distinct: "distinct (map fst entries) \<Longrightarrow> distinct (map fst (fold_model m t entries))"
  by (induction m t entries rule: fold_model.induct) (auto simp del: image_iff simp: fold_model_keys)

lemma fold_model_sum:
  assumes "c \<in> set COUNTERS"
  shows "u64_sat (sum_list (map (c \<circ> snd) (fold_model m t entries)))
       = u64_sat (sum_list (map (c \<circ> snd) entries) + c t)"
proof (induction entries)
  case Nil
  then show ?case using assms by (simp add: fold_totals_counter default_counter saturating_defs)
next
  case (Cons e entries)
  obtain k u where e: "e = (k, u)" by (cases e)
  show ?case
  proof (cases "k = m")
    case True
    then show ?thesis using e assms by (simp add: fold_totals_counter saturating_defs)
  next
    case False
    then show ?thesis using e Cons by (simp add: u64_sat_def)
  qed
qed

lemma balanced_default: "balanced default_ledger"
  by (simp add: balanced_def default_ledger_def default_counter u64_sat_def)

lemma balanced_fold_entry: "balanced ledger \<Longrightarrow> balanced (fold_entry m t ledger)"
  by (auto simp: balanced_def fold_entry_def fold_model_distinct fold_model_sum fold_totals_counter saturating_add_sat)

lemma balanced_update [simp]:
  "balanced (ledger\<lparr>ul_main_loop_model_calls := n\<rparr>) = balanced ledger"
  "balanced (ledger\<lparr>ul_incomplete := b\<rparr>) = balanced ledger"
  by (simp_all add: balanced_def)

lemma balanced_main_loop: "balanced ledger \<Longrightarrow> balanced (record_main_loop_call m usage ms cost ledger)"
  by (simp add: record_main_loop_call_def balanced_fold_entry)

lemma balanced_fold: "balanced ledger \<Longrightarrow> balanced (fold (\<lambda>(m, t). fold_entry m t) by_model ledger)"
  by (induction by_model arbitrary: ledger) (auto simp: balanced_fold_entry)

lemma balanced_subagent: "balanced ledger \<Longrightarrow> balanced (record_subagent by_model incomplete ledger)"
  by (simp add: record_subagent_def mark_incomplete_def Let_def balanced_fold)

subsection \<open>One ledger within another\<close>

definition within :: "usage_ledger \<Rightarrow> usage_ledger \<Rightarrow> bool" where
  "within part whole \<longleftrightarrow>
     ul_main_loop_model_calls part \<le> ul_main_loop_model_calls whole
     \<and> (\<forall>c \<in> set COUNTERS. c (ul_totals part) \<le> c (ul_totals whole))"

lemma within_default: "within default_ledger whole"
  by (auto simp: within_def default_ledger_def default_counter)

lemma within_fold_entry: "within part whole \<Longrightarrow> within (fold_entry m t part) (fold_entry m t whole)"
  by (auto simp: within_def fold_entry_def fold_totals_counter intro: saturating_add_mono)

lemma within_main_loop:
  "within part whole
   \<Longrightarrow> within (record_main_loop_call m usage ms cost part) (record_main_loop_call m usage ms cost whole)"
  unfolding record_main_loop_call_def
  by (rule within_fold_entry) (auto simp: within_def intro: saturating_add_mono)

lemma within_fold:
  "within part whole \<Longrightarrow> within (fold (\<lambda>(m, t). fold_entry m t) by_model part) (fold (\<lambda>(m, t). fold_entry m t) by_model whole)"
  by (induction by_model arbitrary: part whole) (auto simp: within_fold_entry)

lemma within_incomplete [simp]:
  "within (part\<lparr>ul_incomplete := b\<rparr>) whole = within part whole" "within part (whole\<lparr>ul_incomplete := b\<rparr>) = within part whole"
  by (simp_all add: within_def)

lemma within_subagent:
  "within part whole \<Longrightarrow> within (record_subagent by_model b part) (record_subagent by_model b whole)"
  by (simp add: record_subagent_def mark_incomplete_def Let_def within_fold)

definition counters_fit :: "usage_ledger \<Rightarrow> bool" where
  "counters_fit ledger \<longleftrightarrow> (\<forall>c \<in> set COUNTERS. c (ul_totals ledger) \<le> U64_MAX)"

lemma balanced_fits: "balanced ledger \<Longrightarrow> counters_fit ledger"
  by (auto simp: balanced_def counters_fit_def u64_sat_def)

lemma within_fold_entry_right:
  "counters_fit whole \<Longrightarrow> within part whole \<Longrightarrow> within part (fold_entry m t whole)"
  by (auto simp: within_def counters_fit_def fold_entry_def fold_totals_counter intro!: order_trans[OF _ saturating_le])

lemma within_fold_right:
  "balanced whole \<Longrightarrow> within part whole \<Longrightarrow> within part (fold (\<lambda>(m, t). fold_entry m t) by_model whole)"
proof (induction by_model arbitrary: whole)
  case (Cons e by_model)
  obtain m t where e: "e = (m, t)" by (cases e)
  have "within part (fold_entry m t whole)" using Cons.prems by (intro within_fold_entry_right balanced_fits)
  then show ?case using Cons.IH[of "fold_entry m t whole"] Cons.prems e by (simp add: balanced_fold_entry)
qed simp

lemma within_subagent_right:
  "balanced whole \<Longrightarrow> within part whole \<Longrightarrow> within part (record_subagent by_model b whole)"
  by (simp add: record_subagent_def mark_incomplete_def Let_def within_fold_right)

end
