(* ===== verification/Chat_State.thy ===== *)
theory Chat_State
  imports Tool_Pruning Usage_Ledger
begin

section \<open>The state of a chat (\<open>cf-chat-state/src/actor/state.rs\<close>, \<open>types.rs\<close>)\<close>

text \<open>
  The state the actor owns, the snapshot that is taken of it, and the queries that only read it (\<open>queries.rs\<close>).
  Real numbers of the sampling configuration are passed on by the actor and never looked at, so they are their
  bit patterns; instants are milliseconds. Counters of the state that items of the conversation add up to are
  64-bit and wrap.
\<close>

subsection \<open>Data\<close>

datatype api_backend = ChatCompletions | Responses | Messages

record sampling_config =
  sc_base_url :: str
  sc_model :: str
  sc_max_completion_tokens :: "nat option"
  sc_temperature :: "nat option"
  sc_top_p :: "nat option"
  sc_api_backend :: api_backend
  sc_extra_headers :: "(str \<times> str) list"
  sc_context_window :: nat
  sc_reasoning_effort :: "reasoning_effort option"
  sc_stream_tool_calls :: "bool option"

datatype auth_type = SessionToken | ApiKey

record credentials =
  cr_api_key :: "str option"
  cr_auth_type :: auth_type
  cr_alpha_test_key :: "str option"
  cr_client_version :: "str option"

definition default_credentials :: credentials where
  "default_credentials =
     \<lparr>cr_api_key = None, cr_auth_type = SessionToken, cr_alpha_test_key = None, cr_client_version = None\<rparr>"

record turn_capture_state =
  tc_turn_start_offset :: nat
  tc_pre_replacement_messages :: conversation
  tc_compaction_occurred :: bool

record turn_capture =
  tcap_messages :: conversation
  tcap_compaction_occurred :: bool

record chat_state =
  st_conversation :: conversation
  st_sampling_config :: sampling_config
  st_prompt_index :: nat
  st_prompt_texts :: "str list"
  st_total_tokens :: nat
  st_stream_start_ms :: "int option"
  st_turn_start_ms :: "int option"
  st_agent_edited_paths :: "str set"
  st_last_compaction_prompt_index :: "nat option"
  st_credentials :: credentials
  st_estimated_tokens_since_model :: nat
  st_estimate_at_last_response :: nat
  st_last_turn_usage :: "token_usage option"
  st_prompt_usage :: "usage_ledger option"
  st_session_usage :: usage_ledger
  st_turn_capture :: "turn_capture_state option"
  st_harness_trace_buffer :: conversation
  st_harness_trace_turns :: "conversation list"
  st_last_batch_clear_at :: "nat option"
  st_replay_prompt_fingerprints :: "nat \<Rightarrow> nat option"
  st_reasoning_summaries :: "nat \<Rightarrow> str option"

record chat_state_snapshot =
  sn_conversation :: conversation
  sn_sampling_config :: sampling_config
  sn_prompt_index :: nat
  sn_total_tokens :: nat
  sn_estimate_at_last_response :: nat
  sn_agent_edited_paths :: "str set"
  sn_prompt_texts :: "str list"
  sn_stream_start_ms :: "int option"
  sn_turn_start_ms :: "int option"
  sn_last_compaction_prompt_index :: "nat option"
  sn_credentials :: credentials

text \<open>A new state repairs the conversation of a process that was killed while its tools ran.\<close>

definition repaired :: "conversation \<Rightarrow> dangling_tool_call_reason \<Rightarrow> conversation" where
  "repaired conversation reason =
     fst (repair_dangling_tool_calls (fst (dedup_duplicate_tool_results conversation)) reason)"

definition new_chat_state :: "conversation \<Rightarrow> sampling_config \<Rightarrow> chat_state option" where
  "new_chat_state conversation sampling_config =
     do {
       let conversation = repaired conversation UserCancelled;
       initial_tokens \<leftarrow> estimate_conversation_tokens conversation;
       Some \<lparr>st_conversation = conversation, st_sampling_config = sampling_config, st_prompt_index = 0,
             st_prompt_texts = [], st_total_tokens = initial_tokens, st_stream_start_ms = None,
             st_turn_start_ms = None, st_agent_edited_paths = {}, st_last_compaction_prompt_index = None,
             st_credentials = default_credentials, st_estimated_tokens_since_model = 0,
             st_estimate_at_last_response = initial_tokens, st_last_turn_usage = None, st_prompt_usage = None,
             st_session_usage = default_ledger, st_turn_capture = None, st_harness_trace_buffer = [],
             st_harness_trace_turns = [], st_last_batch_clear_at = None,
             st_replay_prompt_fingerprints = Map.empty, st_reasoning_summaries = Map.empty\<rparr>
     }"

definition REPLAY_PROMPT_MAX_COUNT :: nat where "REPLAY_PROMPT_MAX_COUNT = 3"

definition U8_MAX :: nat where "U8_MAX = 255"

definition replay_prompt_suppressed :: "nat \<Rightarrow> (nat \<Rightarrow> nat option) \<Rightarrow> bool \<times> (nat \<Rightarrow> nat option)" where
  "replay_prompt_suppressed fingerprint counts =
     (let count = min U8_MAX ((case counts fingerprint of Some n \<Rightarrow> n | None \<Rightarrow> 0) + 1)
      in (REPLAY_PROMPT_MAX_COUNT < count, counts(fingerprint \<mapsto> count)))"

definition seal_harness_trace_turn :: "chat_state \<Rightarrow> chat_state" where
  "seal_harness_trace_turn st =
     (if st_harness_trace_buffer st \<noteq> []
      then st\<lparr>st_harness_trace_turns := st_harness_trace_turns st @ [st_harness_trace_buffer st],
              st_harness_trace_buffer := []\<rparr>
      else st)"

subsection \<open>The system message (\<open>conversation_util.rs\<close>)\<close>

definition trim_line_ends :: "str \<Rightarrow> str" where
  "trim_line_ends s = rev (dropWhile (\<lambda>c. c = newline \<or> c = CHR 0x0D) (rev s))"

definition canonical_system_prompt_eq :: "str \<Rightarrow> str \<Rightarrow> bool" where
  "canonical_system_prompt_eq a b = (trim_line_ends a = trim_line_ends b)"

fun replace_or_insert_system_head :: "conversation \<Rightarrow> str \<Rightarrow> conversation \<times> bool" where
  "replace_or_insert_system_head (System s # rest) prompt =
     (if canonical_system_prompt_eq s prompt then (System s # rest, False) else (System prompt # rest, True))"
| "replace_or_insert_system_head items prompt = (System prompt # items, True)"

subsection \<open>Queries (\<open>queries.rs\<close>)\<close>

record notification_meta =
  nm_stream_start_ms :: "int option"
  nm_turn_start_ms :: "int option"

definition get_notification_meta :: "chat_state \<Rightarrow> notification_meta" where
  "get_notification_meta st =
     \<lparr>nm_stream_start_ms = st_stream_start_ms st, nm_turn_start_ms = st_turn_start_ms st\<rparr>"

definition snapshot :: "chat_state \<Rightarrow> chat_state_snapshot" where
  "snapshot st =
     \<lparr>sn_conversation = st_conversation st, sn_sampling_config = st_sampling_config st,
      sn_prompt_index = st_prompt_index st, sn_total_tokens = st_total_tokens st,
      sn_estimate_at_last_response = st_estimate_at_last_response st,
      sn_agent_edited_paths = st_agent_edited_paths st, sn_prompt_texts = st_prompt_texts st,
      sn_stream_start_ms = st_stream_start_ms st, sn_turn_start_ms = st_turn_start_ms st,
      sn_last_compaction_prompt_index = st_last_compaction_prompt_index st, sn_credentials = st_credentials st\<rparr>"

text \<open>Where the user item with number \<open>target\<close> is, counting from \<open>user_count\<close>.\<close>

fun nth_user :: "nat \<Rightarrow> nat \<Rightarrow> nat \<Rightarrow> conversation \<Rightarrow> nat" where
  "nth_user i user_count target [] = i"
| "nth_user i user_count target (item # rest) =
     (if is_user item then
        if user_count = target then i else nth_user (i + 1) (user_count + 1) target rest
      else nth_user (i + 1) user_count target rest)"

record auto_compact_trigger =
  act_total_tokens :: nat
  act_context_window :: nat
  act_utilization_percent :: nat

definition check_auto_compact_needed :: "chat_state \<Rightarrow> nat \<Rightarrow> auto_compact_trigger option" where
  "check_auto_compact_needed st threshold_percent =
     (let cw = sc_context_window (st_sampling_config st)
      in if exceeds_threshold (st_total_tokens st) cw threshold_percent
         then Some \<lparr>act_total_tokens = st_total_tokens st, act_context_window = cw,
                    act_utilization_percent = usage_percentage_truncated_u8 (st_total_tokens st) cw\<rparr>
         else None)"

record model_metadata =
  mm_resolved_model_id :: "str option"
  mm_model_fingerprint :: "str option"

fun metadata_of :: "conversation_item \<Rightarrow> model_metadata option" where
  "metadata_of (Assistant a) =
     Some \<lparr>mm_resolved_model_id = ai_model_id a, mm_model_fingerprint = ai_model_fingerprint a\<rparr>"
| "metadata_of _ = None"

definition find_map :: "('a \<Rightarrow> 'b option) \<Rightarrow> 'a list \<Rightarrow> 'b option" where
  "find_map f xs = (case List.map_filter f xs of y # _ \<Rightarrow> Some y | [] \<Rightarrow> None)"

definition get_last_model_metadata :: "conversation \<Rightarrow> model_metadata" where
  "get_last_model_metadata items =
     (case find_map metadata_of (rev items) of
        Some m \<Rightarrow> m | None \<Rightarrow> \<lparr>mm_resolved_model_id = None, mm_model_fingerprint = None\<rparr>)"

fun assistant_text :: "conversation_item \<Rightarrow> str option" where
  "assistant_text (Assistant a) = (if trim (ai_content a) = [] then None else Some (ai_content a))"
| "assistant_text _ = None"

definition get_last_assistant_text :: "conversation \<Rightarrow> str option" where
  "get_last_assistant_text items = find_map assistant_text (rev items)"

fun leading_text :: "conversation_item \<Rightarrow> str option" where
  "leading_text (User u) = (case ui_content u of TextPart t # _ \<Rightarrow> Some t | _ \<Rightarrow> None)"
| "leading_text _ = None"

definition get_first_user_text :: "conversation \<Rightarrow> str option" where
  "get_first_user_text items = find_map leading_text items"

record conversation_counts =
  cc_total :: nat
  cc_user :: nat
  cc_assistant :: nat
  cc_tool_result :: nat

fun is_assistant :: "conversation_item \<Rightarrow> bool" where
  "is_assistant (Assistant a) = True"
| "is_assistant _ = False"

definition get_conversation_counts :: "conversation \<Rightarrow> conversation_counts" where
  "get_conversation_counts items =
     \<lparr>cc_total = length items, cc_user = length (filter is_user items),
      cc_assistant = length (filter is_assistant items), cc_tool_result = length (filter is_tool_result items)\<rparr>"

definition get_system_message :: "conversation \<Rightarrow> conversation_item option" where
  "get_system_message items = find is_system items"

text \<open>The bytes of a conversation, which a pruning pass reports; to take them is to read every item.\<close>

definition content_bytes :: "conversation_item \<Rightarrow> nat option" where
  "content_bytes item =
     (case item of
        System s \<Rightarrow> Some (length s)
      | User u \<Rightarrow> Some (sum_list (map (\<lambda>p. case p of TextPart t \<Rightarrow> length t | ImagePart url \<Rightarrow> length url)
                               (ui_content u)))
      | Assistant a \<Rightarrow> Some (length (ai_content a))
      | ToolResult t \<Rightarrow> Some (length (ti_content t))
      | BackendToolCall b \<Rightarrow> map_option length (text_summary b)
      | Reasoning r \<Rightarrow>
          Some (length (reasoning_item_text r)
                + (case ri_encrypted_content r of Some e \<Rightarrow> length e | None \<Rightarrow> 0)))"

fun conversation_content_bytes :: "conversation \<Rightarrow> nat option" where
  "conversation_content_bytes [] = Some 0"
| "conversation_content_bytes (item # rest) =
     do { n \<leftarrow> content_bytes item; m \<leftarrow> conversation_content_bytes rest; Some (n + m) }"

end
