(* ===== verification/Chat_Actor.thy ===== *)
theory Chat_Actor
  imports Chat_State
begin

section \<open>The chat actor (\<open>cf-chat-state/src/actor\<close>)\<close>

text \<open>
  The actor owns the state of a chat and handles one command after another (\<open>mod.rs\<close>). Beside its state the
  model keeps what it handed to persistence (\<open>persistence.rs\<close>) and the events it sent (\<open>events.rs\<close>), in order.
  A handler is a function of the actor; \<open>None\<close> is the panic of taking the text of an item that cuts a character
  (Conversation), which ends the task.
\<close>

subsection \<open>The actor\<close>

datatype persistence_record = Message conversation_item | ReplaceHistory conversation | Flushed

datatype chat_state_event =
    PromptIndexChanged nat
  | TokensUpdated nat
  | ConversationReset nat
  | ImageBudget nat nat nat nat bool nat nat

record chat_actor =
  ac_state :: chat_state
  ac_pruning_config :: pruning_config
  ac_persisted :: "persistence_record list"
  ac_events :: "chat_state_event list"

definition send_event :: "chat_state_event \<Rightarrow> chat_actor \<Rightarrow> chat_actor" where
  "send_event event a = a\<lparr>ac_events := ac_events a @ [event]\<rparr>"

definition persist_message :: "conversation_item \<Rightarrow> chat_actor \<Rightarrow> chat_actor" where
  "persist_message item a = a\<lparr>ac_persisted := ac_persisted a @ [Message item]\<rparr>"

definition replace_history :: "conversation \<Rightarrow> chat_actor \<Rightarrow> chat_actor" where
  "replace_history items a = a\<lparr>ac_persisted := ac_persisted a @ [ReplaceHistory items]\<rparr>"

definition flush :: "chat_actor \<Rightarrow> chat_actor" where
  "flush a = a\<lparr>ac_persisted := ac_persisted a @ [Flushed]\<rparr>"

abbreviation on_state :: "(chat_state \<Rightarrow> chat_state) \<Rightarrow> chat_actor \<Rightarrow> chat_actor" where
  "on_state f a \<equiv> a\<lparr>ac_state := f (ac_state a)\<rparr>"

abbreviation conversation_of :: "chat_actor \<Rightarrow> conversation" where
  "conversation_of a \<equiv> st_conversation (ac_state a)"

definition spawn_with_pruning :: "conversation \<Rightarrow> sampling_config \<Rightarrow> pruning_config \<Rightarrow> chat_actor option" where
  "spawn_with_pruning initial_conversation sampling_config pruning_config =
     do {
       st \<leftarrow> new_chat_state initial_conversation sampling_config;
       Some \<lparr>ac_state = st, ac_pruning_config = pruning_config, ac_persisted = [], ac_events = []\<rparr>
     }"

definition spawn :: "conversation \<Rightarrow> sampling_config \<Rightarrow> chat_actor option" where
  "spawn initial_conversation sampling_config =
     spawn_with_pruning initial_conversation sampling_config default_pruning"

subsection \<open>The capture of a turn (\<open>mutations.rs\<close>)\<close>

definition turn_tail :: "conversation \<Rightarrow> nat \<Rightarrow> conversation" where
  "turn_tail conversation offset = (case get_from conversation offset of Some tail \<Rightarrow> tail | None \<Rightarrow> [])"

definition snapshot_turn_slice :: "chat_state \<Rightarrow> chat_state" where
  "snapshot_turn_slice st =
     st\<lparr>st_turn_capture :=
          map_option (\<lambda>cap. cap\<lparr>tc_pre_replacement_messages :=
              tc_pre_replacement_messages cap @ turn_tail (st_conversation st) (tc_turn_start_offset cap)\<rparr>)
            (st_turn_capture st)\<rparr>"

definition rebase_turn_capture_offset :: "chat_state \<Rightarrow> chat_state" where
  "rebase_turn_capture_offset st =
     st\<lparr>st_turn_capture :=
          map_option (\<lambda>cap. cap\<lparr>tc_turn_start_offset := length (st_conversation st)\<rparr>) (st_turn_capture st)\<rparr>"

definition taken_messages :: "chat_state \<Rightarrow> turn_capture option" where
  "taken_messages st =
     map_option (\<lambda>cap. \<lparr>tcap_messages = tc_pre_replacement_messages cap
                                        @ turn_tail (st_conversation st) (tc_turn_start_offset cap),
                        tcap_compaction_occurred = tc_compaction_occurred cap\<rparr>)
       (st_turn_capture st)"

subsection \<open>Integrity\<close>

definition ensure_conversation_integrity_with_reason ::
  "dangling_tool_call_reason \<Rightarrow> chat_actor \<Rightarrow> chat_actor" where
  "ensure_conversation_integrity_with_reason reason a =
     (let a = on_state snapshot_turn_slice a;
          (items1, deduped) = dedup_duplicate_tool_results (conversation_of a);
          (items2, repaired) = repair_dangling_tool_calls items1 reason;
          a = on_state (\<lambda>st. st\<lparr>st_conversation := items2\<rparr>) a;
          a = (if 0 < repaired \<or> 0 < deduped then replace_history (conversation_of a) a else a)
      in on_state rebase_turn_capture_offset a)"

definition ensure_conversation_integrity :: "chat_actor \<Rightarrow> chat_actor" where
  "ensure_conversation_integrity = ensure_conversation_integrity_with_reason UserCancelled"

definition repair_dangling_after_harness_halt :: "str \<Rightarrow> chat_actor \<Rightarrow> chat_actor" where
  "repair_dangling_after_harness_halt cls = ensure_conversation_integrity_with_reason (HarnessHalted cls)"

subsection \<open>Replacing the conversation\<close>

definition carried_estimate :: "nat \<Rightarrow> nat \<Rightarrow> nat \<Rightarrow> nat" where
  "carried_estimate base_estimate pre_replace_total estimate_at_last_response =
     f64_round_as_u64
       (f64_mul (f64_of_u64 base_estimate)
          (f64_div (f64_of_u64 pre_replace_total) (f64_of_u64 estimate_at_last_response)))"

definition replaced_total :: "chat_state \<Rightarrow> nat \<Rightarrow> bool \<Rightarrow> nat" where
  "replaced_total st base_estimate is_compaction =
     (let pre_replace_total = st_total_tokens st;
          estimated_tokens =
            (if is_compaction \<and> 0 < pre_replace_total \<and> 0 < st_estimate_at_last_response st
             then carried_estimate base_estimate pre_replace_total (st_estimate_at_last_response st)
             else base_estimate)
      in if is_compaction \<and> 0 < pre_replace_total then min estimated_tokens pre_replace_total
         else estimated_tokens)"

definition mark_compaction :: "bool \<Rightarrow> chat_state \<Rightarrow> chat_state" where
  "mark_compaction is_compaction st =
     (if is_compaction
      then st\<lparr>st_turn_capture := map_option (\<lambda>cap. cap\<lparr>tc_compaction_occurred := True\<rparr>) (st_turn_capture st)\<rparr>
      else st)"

definition replace_conversation :: "conversation \<Rightarrow> bool \<Rightarrow> chat_actor \<Rightarrow> chat_actor option" where
  "replace_conversation items is_compaction a =
     do {
       let a = on_state (mark_compaction is_compaction \<circ> snapshot_turn_slice) a;
       let a = replace_history items a;
       base_estimate \<leftarrow> estimate_conversation_tokens items;
       let estimated_tokens = replaced_total (ac_state a) base_estimate is_compaction;
       let a = on_state (\<lambda>st. rebase_turn_capture_offset
                 (st\<lparr>st_conversation := items, st_estimated_tokens_since_model := 0,
                     st_total_tokens := estimated_tokens, st_estimate_at_last_response := base_estimate\<rparr>)) a;
       Some (send_event (TokensUpdated estimated_tokens) (send_event (ConversationReset (length items)) a))
     }"

text \<open>The conversation is taken out of the state before it is repaired, and is gone when the turn is captured.\<close>

definition actor_repair_history :: "bool \<Rightarrow> chat_actor \<Rightarrow> (history_repair_report \<times> chat_actor) option" where
  "actor_repair_history dry_run a =
     (let (items, report) = repair_history (conversation_of a)
      in if dry_run then Some (report, a)
         else if changed report then
           map_option (Pair report) (replace_conversation items False (on_state (\<lambda>st. st\<lparr>st_conversation := []\<rparr>) a))
         else Some (report, on_state (\<lambda>st. st\<lparr>st_conversation := items\<rparr>) a))"

definition replace_system_head :: "str \<Rightarrow> chat_actor \<Rightarrow> (bool \<times> chat_actor) option" where
  "replace_system_head prompt a =
     (case replace_or_insert_system_head (conversation_of a) prompt of
        (items, head_changed) \<Rightarrow>
          if head_changed then map_option (Pair True) (replace_conversation items False a) else Some (False, a))"

subsection \<open>Pruning the retained conversation\<close>

definition effective_threshold :: "chat_actor \<Rightarrow> nat" where
  "effective_threshold a =
     (let total_user_items = length (filter is_user (conversation_of a));
          synthetic_count = total_user_items - st_prompt_index (ac_state a)
      in saturating_add (pc_hard_clear_age_turns (ac_pruning_config a)) synthetic_count)"

fun clear_back :: "nat \<Rightarrow> nat \<Rightarrow> bool \<Rightarrow> conversation \<Rightarrow> conversation \<times> nat" where
  "clear_back threshold turn_from_end seen_first_user [] = ([], 0)"
| "clear_back threshold turn_from_end seen_first_user (User u # earlier) =
     (case clear_back threshold (if seen_first_user then turn_from_end + 1 else turn_from_end) True earlier of
        (earlier', cleared) \<Rightarrow> (User u # earlier', cleared))"
| "clear_back threshold turn_from_end seen_first_user (ToolResult t # earlier) =
     (case clear_back threshold turn_from_end seen_first_user earlier of
        (earlier', cleared) \<Rightarrow>
          if turn_from_end < threshold \<or> is_hard_cleared (ti_content t) then (ToolResult t # earlier', cleared)
          else (ToolResult (t\<lparr>ti_content := hard_clear_replacement (ti_content t)\<rparr>) # earlier', cleared + 1))"
| "clear_back threshold turn_from_end seen_first_user (item # earlier) =
     (case clear_back threshold turn_from_end seen_first_user earlier of
        (earlier', cleared) \<Rightarrow> (item # earlier', cleared))"

definition REASONING_SUMMARY_SIBLING_PREFIX :: str where
  "REASONING_SUMMARY_SIBLING_PREFIX = ''[reasoning summary] ''"

definition summarised_reasoning ::
  "chat_env \<Rightarrow> (nat \<Rightarrow> str option) \<Rightarrow> nat \<Rightarrow> nat \<Rightarrow> reasoning_item \<Rightarrow> conversation_item option" where
  "summarised_reasoning E summaries threshold turn_from_end r =
     (if ri_encrypted_content r \<noteq> None \<or> turn_from_end < threshold then None
      else let text = reasoning_item_text r
           in case summaries (ce_block_fingerprint E text) of
                None \<Rightarrow> None
              | Some summary \<Rightarrow>
                  if char_count text * 6 div 10 < char_count summary then None
                  else Some (assistant (REASONING_SUMMARY_SIBLING_PREFIX @ summary)))"

definition batch_cleared_result ::
  "chat_env \<Rightarrow> pruning_config \<Rightarrow> (str \<Rightarrow> (str \<times> str) option) \<Rightarrow> nat \<Rightarrow> nat \<Rightarrow> (nat \<Rightarrow> nat option)
   \<Rightarrow> tool_result_item \<Rightarrow> (tool_result_item \<times> (nat \<Rightarrow> nat option)) option" where
  "batch_cleared_result E config calls threshold turn_from_end counts t =
     (let tool_call = calls (ti_tool_call_id t)
      in if turn_from_end < pc_keep_last_n_turns config \<or> turn_from_end < threshold
            \<or> map_option fst tool_call = Some SEARCH_TOOL_NAME \<or> is_batch_cleared (ti_content t) then None
         else let replay_fp = (case tool_call of
                                 Some (name, arguments) \<Rightarrow> ce_args_fingerprint E name arguments
                               | None \<Rightarrow> ce_args_fingerprint E [] (ti_tool_call_id t));
                  (suppressed, counts) = replay_prompt_suppressed replay_fp counts;
                  replacement = (if suppressed then batch_clear_suppressed_replacement (ti_content t)
                                 else batch_clear_replacement (ti_content t))
              in Some (t\<lparr>ti_content := replacement\<rparr>, counts))"

fun batch_back ::
  "chat_env \<Rightarrow> pruning_config \<Rightarrow> (str \<Rightarrow> (str \<times> str) option) \<Rightarrow> (nat \<Rightarrow> str option) \<Rightarrow> nat \<Rightarrow> nat \<Rightarrow> bool
   \<Rightarrow> (nat \<Rightarrow> nat option) \<Rightarrow> conversation \<Rightarrow> conversation \<times> nat \<times> (nat \<Rightarrow> nat option)" where
  "batch_back E config calls summaries threshold turn_from_end seen_first_user counts [] = ([], 0, counts)"
| "batch_back E config calls summaries threshold turn_from_end seen_first_user counts (User u # earlier) =
     (case batch_back E config calls summaries threshold
             (if seen_first_user then turn_from_end + 1 else turn_from_end) True counts earlier of
        (earlier', result) \<Rightarrow> (User u # earlier', result))"
| "batch_back E config calls summaries threshold turn_from_end seen_first_user counts (Reasoning r # earlier) =
     (case batch_back E config calls summaries threshold turn_from_end seen_first_user counts earlier of
        (earlier', cleared, counts') \<Rightarrow>
          case summarised_reasoning E summaries threshold turn_from_end r of
            None \<Rightarrow> (Reasoning r # earlier', cleared, counts')
          | Some sibling \<Rightarrow> (sibling # earlier', cleared + 1, counts'))"
| "batch_back E config calls summaries threshold turn_from_end seen_first_user counts (ToolResult t # earlier) =
     (case batch_cleared_result E config calls threshold turn_from_end counts t of
        None \<Rightarrow>
          (case batch_back E config calls summaries threshold turn_from_end seen_first_user counts earlier of
             (earlier', result) \<Rightarrow> (ToolResult t # earlier', result))
      | Some (t', counts') \<Rightarrow>
          (case batch_back E config calls summaries threshold turn_from_end seen_first_user counts' earlier of
             (earlier', cleared, counts'') \<Rightarrow> (ToolResult t' # earlier', cleared + 1, counts'')))"
| "batch_back E config calls summaries threshold turn_from_end seen_first_user counts (item # earlier) =
     (case batch_back E config calls summaries threshold turn_from_end seen_first_user counts earlier of
        (earlier', result) \<Rightarrow> (item # earlier', result))"

text \<open>The pass itself, and when it runs: once utilisation has crossed the watermark, until it has fallen below
  the line a margin under it.\<close>

definition batch_clear :: "chat_env \<Rightarrow> chat_actor \<Rightarrow> (nat \<times> chat_actor) option" where
  "batch_clear E a =
     do {
       before_bytes \<leftarrow> conversation_content_bytes (conversation_of a);
       let st = ac_state a;
       let (items, cleared, counts) =
         batch_back E (ac_pruning_config a) (tool_call_by_id (st_conversation st)) (st_reasoning_summaries st)
           (effective_threshold a) 0 False (st_replay_prompt_fingerprints st) (rev (st_conversation st));
       let a = on_state (\<lambda>st. st\<lparr>st_conversation := rev items, st_replay_prompt_fingerprints := counts\<rparr>) a;
       if 0 < cleared then do {
         let a = on_state (\<lambda>st. st\<lparr>st_last_batch_clear_at := Some (st_prompt_index st)\<rparr>) a;
         after_bytes \<leftarrow> conversation_content_bytes (conversation_of a);
         Some (cleared, replace_history (conversation_of a) a)
       } else Some (cleared, a)
     }"

definition prune_retained_batched :: "chat_env \<Rightarrow> chat_actor \<Rightarrow> (nat \<times> chat_actor) option" where
  "prune_retained_batched E a =
     (let st = ac_state a;
          watermark = effective_low_watermark_percent (ac_pruning_config a);
          context_window = sc_context_window (st_sampling_config st);
          utilization_percent = context_utilization_percent (st_total_tokens st) context_window;
          reclaim_percent = watermark - LOW_WATERMARK_RECLAIM_MARGIN_PERCENT
      in if st_prompt_index st < pc_hard_clear_age_turns (ac_pruning_config a) then Some (0, a)
         else if utilization_percent < reclaim_percent then
           Some (0, on_state (\<lambda>st. st\<lparr>st_last_batch_clear_at := None\<rparr>) a)
         else if \<not> should_batch_prune (st_total_tokens st) context_window watermark then Some (0, a)
         else if st_last_batch_clear_at st \<noteq> None then Some (0, a)
         else batch_clear E a)"

definition prune_retained_conversation :: "chat_env \<Rightarrow> chat_actor \<Rightarrow> (nat \<times> chat_actor) option" where
  "prune_retained_conversation E a =
     (if \<not> pc_enabled (ac_pruning_config a) then Some (0, a)
      else if batched_mode (ac_pruning_config a) then prune_retained_batched E a
      else if st_prompt_index (ac_state a) < pc_hard_clear_age_turns (ac_pruning_config a) then Some (0, a)
      else do {
        before_bytes \<leftarrow> conversation_content_bytes (conversation_of a);
        let (items, cleared) = clear_back (effective_threshold a) 0 False (rev (conversation_of a));
        let a = on_state (\<lambda>st. st\<lparr>st_conversation := rev items\<rparr>) a;
        if 0 < cleared then do {
          after_bytes \<leftarrow> conversation_content_bytes (conversation_of a);
          Some (cleared, replace_history (conversation_of a) a)
        } else Some (cleared, a)
      })"

subsection \<open>Pushing items\<close>

definition count_tokens :: "conversation_item \<Rightarrow> chat_actor \<Rightarrow> chat_actor option" where
  "count_tokens item a =
     do {
       estimated_tokens \<leftarrow> estimate_item_tokens item;
       Some (on_state (\<lambda>st. st\<lparr>st_estimated_tokens_since_model :=
                 u64_wrap (st_estimated_tokens_since_model st + estimated_tokens)\<rparr>) a)
     }"

definition append_item :: "conversation_item \<Rightarrow> chat_actor \<Rightarrow> chat_actor" where
  "append_item item a =
     on_state (\<lambda>st. st\<lparr>st_conversation := st_conversation st @ [item]\<rparr>) (persist_message item a)"

definition push_message :: "conversation_item \<Rightarrow> chat_actor \<Rightarrow> chat_actor option" where
  "push_message item a =
     do { a \<leftarrow> (if is_assistant item then Some a else count_tokens item a); Some (append_item item a) }"

definition push_user_message_with_repair_reason ::
  "chat_env \<Rightarrow> conversation_item \<Rightarrow> dangling_tool_call_reason \<Rightarrow> chat_actor \<Rightarrow> chat_actor option" where
  "push_user_message_with_repair_reason E item reason a =
     do {
       a \<leftarrow> count_tokens item (ensure_conversation_integrity_with_reason reason a);
       map_option snd (prune_retained_conversation E (append_item item a))
     }"

definition push_user_message :: "chat_env \<Rightarrow> conversation_item \<Rightarrow> chat_actor \<Rightarrow> chat_actor option" where
  "push_user_message E item = push_user_message_with_repair_reason E item UserCancelled"

subsection \<open>Usage, tokens, rewinds and snapshots\<close>

definition record_token_usage :: "nat \<Rightarrow> chat_actor \<Rightarrow> chat_actor option" where
  "record_token_usage total_tokens a =
     do {
       estimate \<leftarrow> estimate_conversation_tokens (conversation_of a);
       Some (send_event (TokensUpdated total_tokens)
         (on_state (\<lambda>st. st\<lparr>st_estimated_tokens_since_model := 0, st_estimate_at_last_response := estimate,
                             st_total_tokens := total_tokens\<rparr>) a))
     }"

definition prompt_ledger :: "chat_state \<Rightarrow> usage_ledger" where
  "prompt_ledger st = (case st_prompt_usage st of Some ledger \<Rightarrow> ledger | None \<Rightarrow> default_ledger)"

definition record_model_call_usage ::
  "str option \<Rightarrow> token_usage \<Rightarrow> nat option \<Rightarrow> int option \<Rightarrow> chat_state \<Rightarrow> chat_state" where
  "record_model_call_usage model_id usage api_duration_ms cost_usd_ticks st =
     (let model_key = (case model_id of
                         Some i \<Rightarrow> if i \<noteq> [] then i else sc_model (st_sampling_config st)
                       | None \<Rightarrow> sc_model (st_sampling_config st));
          call = record_main_loop_call model_key usage api_duration_ms cost_usd_ticks
      in st\<lparr>st_prompt_usage := Some (call (prompt_ledger st)), st_session_usage := call (st_session_usage st)\<rparr>)"

definition record_subagent_usage :: "(str \<times> usage_totals) list \<Rightarrow> bool \<Rightarrow> bool \<Rightarrow> chat_state \<Rightarrow> chat_state" where
  "record_subagent_usage by_model attribute_to_prompt incomplete st =
     (if by_model = [] \<and> \<not> incomplete then st
      else let st = (if attribute_to_prompt
                     then st\<lparr>st_prompt_usage := Some (record_subagent by_model incomplete (prompt_ledger st))\<rparr>
                     else st)
           in st\<lparr>st_session_usage := record_subagent by_model incomplete (st_session_usage st)\<rparr>)"

definition mark_usage_incomplete :: "bool \<Rightarrow> bool \<Rightarrow> chat_state \<Rightarrow> chat_state" where
  "mark_usage_incomplete prompt session st =
     (let st = (if prompt then st\<lparr>st_prompt_usage := Some (mark_incomplete (prompt_ledger st))\<rparr> else st)
      in if session then st\<lparr>st_session_usage := mark_incomplete (st_session_usage st)\<rparr> else st)"

definition increment_prompt_index :: "chat_actor \<Rightarrow> chat_actor" where
  "increment_prompt_index a =
     (let a = on_state (\<lambda>st. st\<lparr>st_prompt_usage := None, st_prompt_index := st_prompt_index st + 1\<rparr>) a
      in send_event (PromptIndexChanged (st_prompt_index (ac_state a))) a)"

definition truncate_to_prompt_index :: "nat \<Rightarrow> chat_actor \<Rightarrow> chat_actor option" where
  "truncate_to_prompt_index target_prompt_index a =
     (if st_prompt_index (ac_state a) \<le> target_prompt_index then Some a
      else do {
        let truncate_at = nth_user 0 0 target_prompt_index (conversation_of a);
        let kept = take truncate_at (conversation_of a);
        total_tokens \<leftarrow> estimate_conversation_tokens kept;
        let a = on_state (\<lambda>st. st\<lparr>st_conversation := kept,
                                   st_prompt_texts := take target_prompt_index (st_prompt_texts st),
                                   st_prompt_index := target_prompt_index, st_total_tokens := total_tokens,
                                   st_estimated_tokens_since_model := 0,
                                   st_estimate_at_last_response := total_tokens\<rparr>) a;
        Some (send_event (ConversationReset (length kept)) (replace_history kept a))
      })"

definition restore_snapshot :: "chat_state_snapshot \<Rightarrow> chat_state \<Rightarrow> chat_state option" where
  "restore_snapshot snap st =
     do {
       let st = rebase_turn_capture_offset ((snapshot_turn_slice st)\<lparr>st_conversation := sn_conversation snap\<rparr>);
       estimate \<leftarrow> (if 0 < sn_estimate_at_last_response snap then Some (sn_estimate_at_last_response snap)
                    else estimate_conversation_tokens (sn_conversation snap));
       Some (st\<lparr>st_sampling_config := sn_sampling_config snap, st_prompt_index := sn_prompt_index snap,
                st_total_tokens := sn_total_tokens snap, st_estimated_tokens_since_model := 0,
                st_estimate_at_last_response := estimate, st_agent_edited_paths := sn_agent_edited_paths snap,
                st_prompt_texts := sn_prompt_texts snap, st_stream_start_ms := sn_stream_start_ms snap,
                st_turn_start_ms := sn_turn_start_ms snap,
                st_last_compaction_prompt_index := sn_last_compaction_prompt_index snap,
                st_credentials := sn_credentials snap, st_prompt_usage := None\<rparr>)
     }"

subsection \<open>Building a request (\<open>request_builder.rs\<close>)\<close>

text \<open>The fields of a request the actor fills in; every other field is empty.\<close>

record conversation_request =
  rq_items :: conversation
  rq_tools :: "tool_definition list"
  rq_model :: "str option"
  rq_temperature :: "nat option"
  rq_max_output_tokens :: "nat option"
  rq_top_p :: "nat option"
  rq_conv_id :: "str option"
  rq_req_id :: "str option"
  rq_trace :: "str option"
  rq_reasoning_effort :: "reasoning_effort option"

definition persisted_reminder :: "str option \<Rightarrow> bool \<Rightarrow> chat_actor \<Rightarrow> str option \<times> chat_actor" where
  "persisted_reminder memory_reminder persist_memory_reminder a =
     (case memory_reminder of
        Some reminder \<Rightarrow>
          if persist_memory_reminder then
            let a = on_state snapshot_turn_slice a;
                (items, injected) = inject_memory_reminder (conversation_of a) reminder;
                a = on_state (\<lambda>st. st\<lparr>st_conversation := items\<rparr>) a;
                a = (if injected then replace_history (conversation_of a) a else a)
            in (if injected then None else memory_reminder, on_state rebase_turn_capture_offset a)
          else (memory_reminder, a)
      | None \<Rightarrow> (memory_reminder, a))"

definition request_items ::
  "chat_env \<Rightarrow> pruning_config \<Rightarrow> bool \<Rightarrow> str option \<Rightarrow> conversation \<Rightarrow> conversation \<times> image_eviction_outcome option" where
  "request_items E config needs_prune memory_reminder items =
     (let body_bytes = conversation_body_bytes E items;
          needs_image_compaction = IMAGE_COMPACT_TRIGGER_BYTES \<le> body_bytes;
          (items, eviction) =
            (if needs_image_compaction
             then map_prod id Some
                    (compact_images_to_byte_budget E items body_bytes IMAGE_COMPACT_RECLAIM_TARGET_BYTES)
             else (items, None));
          items = (if needs_prune then prune_conversation config items else items)
      in (case memory_reminder of Some reminder \<Rightarrow> fst (inject_memory_reminder items reminder) | None \<Rightarrow> items,
          eviction))"

definition build_conversation_request ::
  "chat_env \<Rightarrow> tool_definition list \<Rightarrow> str option \<Rightarrow> bool \<Rightarrow> str option \<Rightarrow> str \<Rightarrow> str \<Rightarrow> chat_actor
   \<Rightarrow> conversation_request \<times> chat_actor" where
  "build_conversation_request E tool_definitions memory_reminder persist_memory_reminder trace conv_id req_id a =
     (let config = st_sampling_config (ac_state a);
          needs_prune = should_prune (st_total_tokens (ac_state a)) (sc_context_window config);
          (memory_reminder, a) = persisted_reminder memory_reminder persist_memory_reminder a;
          body_bytes = conversation_body_bytes E (conversation_of a);
          inline_images = inline_image_count (conversation_of a);
          (items, eviction) = request_items E (ac_pruning_config a) needs_prune memory_reminder (conversation_of a);
          a = (if 0 < inline_images
               then send_event (ImageBudget body_bytes IMAGE_COMPACT_TRIGGER_BYTES IMAGE_COMPACT_RECLAIM_TARGET_BYTES
                      inline_images (IMAGE_COMPACT_TRIGGER_BYTES \<le> body_bytes)
                      (case eviction of Some outcome \<Rightarrow> ieo_evicted outcome | None \<Rightarrow> 0)
                      (case eviction of Some outcome \<Rightarrow> ieo_body_bytes_after outcome | None \<Rightarrow> body_bytes)) a
               else a)
      in (\<lparr>rq_items = items, rq_tools = tool_definitions, rq_model = Some (sc_model config),
           rq_temperature = sc_temperature config, rq_max_output_tokens = sc_max_completion_tokens config,
           rq_top_p = sc_top_p config, rq_conv_id = Some conv_id, rq_req_id = Some req_id, rq_trace = trace,
           rq_reasoning_effort = sc_reasoning_effort config\<rparr>, a))"

end
