(* ===== verification/Chat_Commands.thy ===== *)
theory Chat_Commands
  imports Chat_Actor
begin

section \<open>Commands of the chat actor (\<open>commands.rs\<close>, \<open>actor/mod.rs\<close>)\<close>

text \<open>
  The commands a handle sends and how the actor answers each. A reply is sent whether or not the caller still
  waits. The flag \<open>turn_active\<close> of a repair is shared with the session; what the command carries here is its
  value when the actor comes to the command.
\<close>

datatype (plugins only: code) chat_state_command =
    PushUserMessage conversation_item
  | PushUserMessageAndAck conversation_item
  | PushUserMessageWithRepairReason conversation_item dangling_tool_call_reason
  | PushAssistantResponse conversation_item
  | PushToolResult conversation_item
  | RecordTokenUsage nat
  | RecordLastTurnUsage token_usage
  | RecordModelCallUsage "str option" token_usage "nat option" "int option"
  | RecordSubagentUsage "(str \<times> usage_totals) list" bool bool
  | MarkUsageIncomplete bool bool
  | IncrementPromptIndex
  | UpdateSamplingConfig sampling_config
  | SetReasoningSummaries "(nat \<times> str) list"
  | RecordAgentEditedPath str
  | RecordStreamStart int
  | RecordTurnStart int
  | ReplaceConversation conversation bool
  | RepairHistory bool "bool option"
  | ReplaceSystemHead str
  | CachePromptText str
  | RecordCompactionAt nat
  | Flush
  | UpdateCredentials credentials
  | RestoreSnapshot chat_state_snapshot
  | BeginTurnCapture
  | AppendHarnessTraceItems conversation
  | FlushHarnessTraceTurn
  | RepairDanglingAfterHarnessHalt str
  | BuildConversationRequest "tool_definition list" "str option" bool "str option" str str
  | GetConversation
  | GetPromptIndex
  | GetLastCompactionPromptIndex
  | GetTotalTokens
  | GetContextUtilizationPercent
  | GetBatchedPruningEnabled
  | GetPruningEnabled
  | GetHardClearAgeTurns
  | GetReasoningSummaries
  | GetLastTurnUsage
  | GetPromptUsage
  | GetSessionUsage
  | GetEstimatedTotalTokens
  | GetEstimatedMessagesTokens
  | GetSamplingConfig
  | GetAgentEditedPaths
  | GetNotificationMeta
  | Snapshot
  | TruncateToPromptIndex nat
  | CheckAutoCompactNeeded nat
  | GetCredentials
  | GetLastModelMetadata
  | TakeTurnMessages
  | TakeHarnessTraceTurns
  | GetConversationLen
  | HasDanglingToolCalls
  | GetLastAssistantText
  | GetFirstUserText
  | GetConversationItemAt nat
  | GetLastUserQueryText
  | GetConversationCounts
  | GetSystemMessage

datatype repair_history_blocked = RepairHistoryBlocked

datatype reply =
    NoReply
  | Ack
  | BoolReply bool
  | NatReply nat
  | NatOptionReply "nat option"
  | TextReply "str option"
  | ItemReply "conversation_item option"
  | ItemsReply conversation
  | RepairReply "repair_history_blocked + history_repair_report"
  | RequestReply conversation_request
  | SummariesReply "nat \<Rightarrow> str option"
  | UsageReply "token_usage option"
  | LedgerReply "usage_ledger option"
  | ConfigReply sampling_config
  | PathsReply "str set"
  | MetaReply notification_meta
  | SnapshotReply chat_state_snapshot
  | TriggerReply "auto_compact_trigger option"
  | CredentialsReply credentials
  | ModelReply model_metadata
  | TurnReply "turn_capture option"
  | TurnsReply "conversation list"
  | CountsReply conversation_counts

abbreviation silently :: "chat_actor option \<Rightarrow> (reply \<times> chat_actor) option" where
  "silently \<equiv> map_option (Pair NoReply)"

text \<open>The commands that change the actor.\<close>

definition handle_mutation ::
  "chat_env \<Rightarrow> chat_state_command \<Rightarrow> chat_actor \<Rightarrow> (reply \<times> chat_actor) option" where
  "handle_mutation E cmd a =
     (case cmd of
       PushUserMessage item \<Rightarrow>
         silently (push_user_message E item a)
     | PushUserMessageAndAck item \<Rightarrow>
         map_option (Pair Ack) (push_user_message E item a)
     | PushUserMessageWithRepairReason item reason \<Rightarrow>
         silently (push_user_message_with_repair_reason E item reason a)
     | PushAssistantResponse item \<Rightarrow>
         silently (push_message item a)
     | PushToolResult item \<Rightarrow>
         silently (push_message item a)
     | RecordTokenUsage total_tokens \<Rightarrow>
         silently (record_token_usage total_tokens a)
     | RecordLastTurnUsage usage \<Rightarrow>
         Some (NoReply, on_state (\<lambda>st. st\<lparr>st_last_turn_usage := Some usage\<rparr>) a)
     | RecordModelCallUsage model_id usage api_duration_ms cost_usd_ticks \<Rightarrow>
         Some (NoReply, on_state (record_model_call_usage model_id usage api_duration_ms cost_usd_ticks) a)
     | RecordSubagentUsage by_model attribute_to_prompt incomplete \<Rightarrow>
         Some (Ack, on_state (record_subagent_usage by_model attribute_to_prompt incomplete) a)
     | MarkUsageIncomplete prompt session \<Rightarrow>
         Some (Ack, on_state (mark_usage_incomplete prompt session) a)
     | IncrementPromptIndex \<Rightarrow>
         Some (NoReply, increment_prompt_index a)
     | UpdateSamplingConfig config \<Rightarrow>
         Some (NoReply, on_state (\<lambda>st. st\<lparr>st_sampling_config := config\<rparr>) a)
     | SetReasoningSummaries summaries \<Rightarrow>
         Some (NoReply, on_state (\<lambda>st. st\<lparr>st_reasoning_summaries :=
         fold (\<lambda>(k, v) m. m(k \<mapsto> v)) summaries (st_reasoning_summaries st)\<rparr>) a)
     | RecordAgentEditedPath path \<Rightarrow>
         Some (NoReply, on_state (\<lambda>st. st\<lparr>st_agent_edited_paths := insert path (st_agent_edited_paths st)\<rparr>) a)
     | RecordStreamStart timestamp_ms \<Rightarrow>
         Some (NoReply, on_state (\<lambda>st. st\<lparr>st_stream_start_ms := Some timestamp_ms\<rparr>) a)
     | RecordTurnStart timestamp_ms \<Rightarrow>
         Some (NoReply, on_state (\<lambda>st. st\<lparr>st_turn_start_ms := Some timestamp_ms\<rparr>) a)
     | ReplaceConversation items is_compaction \<Rightarrow>
         silently (replace_conversation items is_compaction a)
     | RepairHistory dry_run turn_active \<Rightarrow>
         (if turn_active = Some True then Some (RepairReply (Inl RepairHistoryBlocked), a)
         else map_option (\<lambda>(report, a). (RepairReply (Inr report), a)) (actor_repair_history dry_run a))
     | ReplaceSystemHead prompt \<Rightarrow>
         map_option (apfst BoolReply) (replace_system_head prompt a)
     | CachePromptText text \<Rightarrow>
         Some (NoReply, on_state (\<lambda>st. st\<lparr>st_prompt_texts := st_prompt_texts st @ [text]\<rparr>) a)
     | RecordCompactionAt prompt_index \<Rightarrow>
         Some (NoReply, on_state (\<lambda>st. st\<lparr>st_last_compaction_prompt_index := Some prompt_index\<rparr>) a)
     | Flush \<Rightarrow>
         Some (NoReply, flush a)
     | UpdateCredentials credentials \<Rightarrow>
         Some (NoReply, on_state (\<lambda>st. st\<lparr>st_credentials := credentials\<rparr>) a)
     | RestoreSnapshot snap \<Rightarrow>
         map_option (\<lambda>st. (NoReply, a\<lparr>ac_state := st\<rparr>)) (restore_snapshot snap (ac_state a))
     | BeginTurnCapture \<Rightarrow>
         Some (NoReply, on_state (\<lambda>st. st\<lparr>st_turn_capture :=
         Some \<lparr>tc_turn_start_offset = length (st_conversation st), tc_pre_replacement_messages = [],
         tc_compaction_occurred = False\<rparr>\<rparr>) a)
     | AppendHarnessTraceItems items \<Rightarrow>
         Some (NoReply, on_state (\<lambda>st. st\<lparr>st_harness_trace_buffer := st_harness_trace_buffer st @ items\<rparr>) a)
     | FlushHarnessTraceTurn \<Rightarrow>
         Some (NoReply, on_state seal_harness_trace_turn a)
     | RepairDanglingAfterHarnessHalt cls \<Rightarrow>
         Some (NoReply, repair_dangling_after_harness_halt cls a)
     | BuildConversationRequest tool_definitions memory_reminder persist_memory_reminder trace conv_id req_id \<Rightarrow>
         Some (apfst RequestReply
         (build_conversation_request E tool_definitions memory_reminder persist_memory_reminder trace conv_id req_id
         (ensure_conversation_integrity a)))
     | TruncateToPromptIndex target_prompt_index \<Rightarrow>
         map_option (\<lambda>a. (Ack, on_state (\<lambda>st. st\<lparr>st_turn_capture := None, st_prompt_usage := None\<rparr>) a))
         (truncate_to_prompt_index target_prompt_index a)
     | TakeTurnMessages \<Rightarrow>
         Some (TurnReply (taken_messages (ac_state a)), on_state (\<lambda>st. st\<lparr>st_turn_capture := None\<rparr>) a)
     | TakeHarnessTraceTurns \<Rightarrow>
         (let a = on_state seal_harness_trace_turn a
         in Some (TurnsReply (st_harness_trace_turns (ac_state a)), on_state (\<lambda>st. st\<lparr>st_harness_trace_turns := []\<rparr>) a))
     | _ \<Rightarrow>
         None)"

text \<open>The commands that only ask.\<close>

definition handle_query :: "chat_state_command \<Rightarrow> chat_actor \<Rightarrow> reply option" where
  "handle_query cmd a =
     (case cmd of
       GetConversation \<Rightarrow> Some (ItemsReply (conversation_of a))
     | GetPromptIndex \<Rightarrow> Some (NatReply (st_prompt_index (ac_state a)))
     | GetLastCompactionPromptIndex \<Rightarrow>
         Some (NatOptionReply (st_last_compaction_prompt_index (ac_state a)))
     | GetTotalTokens \<Rightarrow> Some (NatReply (st_total_tokens (ac_state a)))
     | GetContextUtilizationPercent \<Rightarrow>
         Some (NatReply (context_utilization_percent (st_total_tokens (ac_state a))
         (sc_context_window (st_sampling_config (ac_state a)))))
     | GetBatchedPruningEnabled \<Rightarrow> Some (BoolReply (batched_mode (ac_pruning_config a)))
     | GetPruningEnabled \<Rightarrow> Some (BoolReply (pc_enabled (ac_pruning_config a)))
     | GetHardClearAgeTurns \<Rightarrow>
         Some (NatReply (pc_hard_clear_age_turns (ac_pruning_config a)))
     | GetReasoningSummaries \<Rightarrow> Some (SummariesReply (st_reasoning_summaries (ac_state a)))
     | GetLastTurnUsage \<Rightarrow> Some (UsageReply (st_last_turn_usage (ac_state a)))
     | GetPromptUsage \<Rightarrow> Some (LedgerReply (st_prompt_usage (ac_state a)))
     | GetSessionUsage \<Rightarrow> Some (LedgerReply (Some (st_session_usage (ac_state a))))
     | GetEstimatedTotalTokens \<Rightarrow>
         Some (NatReply (u64_wrap (st_total_tokens (ac_state a) + st_estimated_tokens_since_model (ac_state a))))
     | GetEstimatedMessagesTokens \<Rightarrow>
         map_option NatReply (estimate_messages_tokens (conversation_of a))
     | GetSamplingConfig \<Rightarrow> Some (ConfigReply (st_sampling_config (ac_state a)))
     | GetAgentEditedPaths \<Rightarrow> Some (PathsReply (st_agent_edited_paths (ac_state a)))
     | GetNotificationMeta \<Rightarrow> Some (MetaReply (get_notification_meta (ac_state a)))
     | Snapshot \<Rightarrow> Some (SnapshotReply (snapshot (ac_state a)))
     | CheckAutoCompactNeeded threshold_percent \<Rightarrow>
         Some (TriggerReply (check_auto_compact_needed (ac_state a) threshold_percent))
     | GetCredentials \<Rightarrow> Some (CredentialsReply (st_credentials (ac_state a)))
     | GetLastModelMetadata \<Rightarrow>
         Some (ModelReply (get_last_model_metadata (conversation_of a)))
     | GetConversationLen \<Rightarrow> Some (NatReply (length (conversation_of a)))
     | HasDanglingToolCalls \<Rightarrow>
         Some (BoolReply (has_dangling_tool_calls (conversation_of a)))
     | GetLastAssistantText \<Rightarrow>
         Some (TextReply (get_last_assistant_text (conversation_of a)))
     | GetFirstUserText \<Rightarrow> Some (TextReply (get_first_user_text (conversation_of a)))
     | GetConversationItemAt index \<Rightarrow> Some (ItemReply (nth_opt (conversation_of a) index))
     | GetLastUserQueryText \<Rightarrow>
         Some (TextReply (extract_last_user_query (conversation_of a)))
     | GetConversationCounts \<Rightarrow>
         Some (CountsReply (get_conversation_counts (conversation_of a)))
     | GetSystemMessage \<Rightarrow> Some (ItemReply (get_system_message (conversation_of a)))
     | _ \<Rightarrow> None)"

definition is_query :: "chat_state_command \<Rightarrow> bool" where
  "is_query cmd =
     (case cmd of
       GetConversation \<Rightarrow> True
     | GetPromptIndex \<Rightarrow> True
     | GetLastCompactionPromptIndex \<Rightarrow> True
     | GetTotalTokens \<Rightarrow> True
     | GetContextUtilizationPercent \<Rightarrow> True
     | GetBatchedPruningEnabled \<Rightarrow> True
     | GetPruningEnabled \<Rightarrow> True
     | GetHardClearAgeTurns \<Rightarrow> True
     | GetReasoningSummaries \<Rightarrow> True
     | GetLastTurnUsage \<Rightarrow> True
     | GetPromptUsage \<Rightarrow> True
     | GetSessionUsage \<Rightarrow> True
     | GetEstimatedTotalTokens \<Rightarrow> True
     | GetEstimatedMessagesTokens \<Rightarrow> True
     | GetSamplingConfig \<Rightarrow> True
     | GetAgentEditedPaths \<Rightarrow> True
     | GetNotificationMeta \<Rightarrow> True
     | Snapshot \<Rightarrow> True
     | CheckAutoCompactNeeded p \<Rightarrow> True
     | GetCredentials \<Rightarrow> True
     | GetLastModelMetadata \<Rightarrow> True
     | GetConversationLen \<Rightarrow> True
     | HasDanglingToolCalls \<Rightarrow> True
     | GetLastAssistantText \<Rightarrow> True
     | GetFirstUserText \<Rightarrow> True
     | GetConversationItemAt i \<Rightarrow> True
     | GetLastUserQueryText \<Rightarrow> True
     | GetConversationCounts \<Rightarrow> True
     | GetSystemMessage \<Rightarrow> True
     | _ \<Rightarrow> False)"

definition handle_command ::
  "chat_env \<Rightarrow> chat_state_command \<Rightarrow> chat_actor \<Rightarrow> (reply \<times> chat_actor) option" where
  "handle_command E cmd a =
     (if is_query cmd then map_option (\<lambda>r. (r, a)) (handle_query cmd a) else handle_mutation E cmd a)"

text \<open>The loop of the actor, on the commands it receives before it is shut down.\<close>

fun run_commands :: "chat_env \<Rightarrow> chat_state_command list \<Rightarrow> chat_actor \<Rightarrow> chat_actor option" where
  "run_commands E [] a = Some a"
| "run_commands E (cmd # cmds) a = do { (reply, a) \<leftarrow> handle_command E cmd a; run_commands E cmds a }"

end
