(* ===== verification/Chat_Actor_Props.thy ===== *)
theory Chat_Actor_Props
  imports Chat_Commands
begin

section \<open>What the chat actor keeps\<close>

text \<open>
  Invariants of the actor over any sequence of commands: the locale \<open>preserved\<close> is what a step must satisfy, and
  its lemma carries an invariant through a run. Interpreted for the capture of a turn, the bills and the history
  on disk. Then what a request is built of, and when pruning touches a result.
\<close>

locale preserved =
  fixes allowed :: "chat_state_command \<Rightarrow> bool" and Inv :: "chat_actor \<Rightarrow> bool"
  assumes step: "Inv a \<Longrightarrow> allowed cmd \<Longrightarrow> handle_command E cmd a = Some (r, a') \<Longrightarrow> Inv a'"
begin

lemma run_keeps: "Inv a \<Longrightarrow> list_all allowed cmds \<Longrightarrow> run_commands E cmds a = Some a' \<Longrightarrow> Inv a'"
proof (induction cmds arbitrary: a)
  case (Cons cmd cmds)
  from Cons.prems(3) obtain r b where "handle_command E cmd a = Some (r, b)" "run_commands E cmds b = Some a'"
    by (auto split: Option.bind_splits)
  moreover from this have "Inv b" using Cons.prems by (auto intro: step)
  ultimately show ?case using Cons by simp
qed simp

end

lemma queries_change_nothing: "is_query cmd \<Longrightarrow> handle_command E cmd a = Some (r, a') \<Longrightarrow> a' = a"
  by (auto simp: handle_command_def)

lemma handle_mutation: "\<not> is_query cmd \<Longrightarrow> handle_command E cmd a = handle_mutation E cmd a"
  by (simp add: handle_command_def)

lemma run_append: "run_commands E (cmds @ cmds') a = run_commands E cmds a \<bind> run_commands E cmds'"
  by (induction cmds arbitrary: a) (auto split: Option.bind_split prod.split)

subsection \<open>Reports\<close>

text \<open>The passes report what they changed: when they report nothing, they changed nothing.\<close>

lemma keep_last_shorter: "length results \<le> length (keep_last results) \<Longrightarrow> keep_last results = results"
proof (induction results)
  case (Cons x results)
  then show ?case using keep_last_length[of results] by (auto split: if_splits)
qed simp

lemma dedup_reports:
  assumes "dedup_duplicate_tool_results items = (items', 0)"
  shows "items' = items"
proof -
  have "map_runs dedup_run True items = items" if "length items \<le> length (map_runs dedup_run True items)"
    using that
  proof (induction items rule: runs_induct)
    case (Run a run rest)
    have "length (keep_last run) \<le> length run" "length (map_runs dedup_run True rest) \<le> length rest"
      by (rule keep_last_length, rule map_dedup_length)
    with Run(1-3,5) have "length run \<le> length (keep_last run)" "length rest \<le> length (map_runs dedup_run True rest)"
      by simp_all
    then have "keep_last run = run" "map_runs dedup_run True rest = rest" using Run(4) keep_last_shorter by blast+
    then show ?case using Run(1-3) by simp
  qed auto
  with assms show ?thesis by (auto simp: dedup_is_keep_last)
qed

lemma fill_lengthens: "length items \<le> length (map_runs (fill_run reason) True items)"
  by (induction items rule: runs_induct) (auto simp: fill_run_def)

lemma repair_reports:
  assumes "repair_dangling_tool_calls items reason = (items', 0)"
  shows "items' = items"
proof -
  have "map_runs (fill_run reason) True items = items" if "length (map_runs (fill_run reason) True items) \<le> length items"
    using that
  proof (induction items rule: runs_induct)
    case (Run a run rest)
    then show ?case using fill_lengthens[of rest reason] by (auto simp: fill_run_def)
  qed auto
  with assms show ?thesis by (auto simp: repair_is_fill)
qed

lemma strip_reports: "snd (strip_from run_ids items) = [] \<Longrightarrow> fst (strip_from run_ids items) = items"
  by (induction run_ids items rule: strip_from.induct) (auto simp: case_prod_beta Let_def split: if_splits)

lemma repair_history_reports:
  assumes "repair_history items = (items', report)" "\<not> changed report"
  shows "items' = items"
proof -
  obtain items1 d where d: "dedup_duplicate_tool_results items = (items1, d)" by (metis surj_pair)
  obtain items2 s where s: "strip_from [] items1 = (items2, s)" by (metis surj_pair)
  obtain items3 r where r: "repair_dangling_tool_calls items2 (HarnessHalted ''history_repair'') = (items3, r)"
    by (metis surj_pair)
  have "items' = items3" "d = 0" "s = []" "r = 0"
    using assms d s r by (auto simp: repair_history_def strip_displaced_tool_results_def changed_def)
  then show ?thesis using dedup_reports repair_reports strip_reports[of "[]" items1] d s r by (metis fst_conv snd_conv)
qed

subsection \<open>Pruning, as seen from outside\<close>

text \<open>What a pass may make of an item: another text for a result, a text for a reasoning block.\<close>

fun pruned :: "conversation_item \<Rightarrow> conversation_item \<Rightarrow> bool" where
  "pruned (ToolResult t) i' = (\<exists>c. i' = ToolResult (t\<lparr>ti_content := c\<rparr>))"
| "pruned (Reasoning r) i' = (i' = Reasoning r \<or> (\<exists>text. i' = assistant text))"
| "pruned i i' = (i' = i)"

lemma pruned_refl [simp]: "pruned i i"
proof (cases i)
  case (ToolResult t)
  then show ?thesis by (auto intro!: exI[of _ "ti_content t"])
qed auto

lemma all_pruned_refl [simp]: "list_all2 pruned items items"
  by (simp add: list_all2_refl)

lemma clear_back_pruned:
  "clear_back threshold turn seen items = (items', n) \<Longrightarrow> list_all2 pruned items items' \<and> (n = 0 \<longrightarrow> items' = items)"
  by (induction threshold turn seen items arbitrary: items' n rule: clear_back.induct)
    (auto split: prod.splits if_splits)

lemma batch_cleared_keeps_call: "batch_cleared_result E config calls threshold turn counts t = Some (t', counts')
  \<Longrightarrow> \<exists>c. t' = t\<lparr>ti_content := c\<rparr>"
  by (auto simp: batch_cleared_result_def Let_def split: if_splits prod.splits)

lemma batch_back_pruned:
  "batch_back E config calls summaries threshold turn seen counts items = (items', n, counts')
   \<Longrightarrow> list_all2 pruned items items' \<and> (n = 0 \<longrightarrow> items' = items)"
  by (induction E config calls summaries threshold turn seen counts items arbitrary: items' n counts'
      rule: batch_back.induct)
    (auto split: prod.splits option.splits dest: batch_cleared_keeps_call
      simp: summarised_reasoning_def Let_def split: if_splits)

definition pruned_to :: "chat_actor \<Rightarrow> nat \<Rightarrow> chat_actor \<Rightarrow> bool" where
  "pruned_to a n a' \<longleftrightarrow>
     (\<exists>items counts last_clear.
        list_all2 pruned (conversation_of a) items \<and> (n = 0 \<longrightarrow> items = conversation_of a)
        \<and> a' = a\<lparr>ac_state := (ac_state a)\<lparr>st_conversation := items, st_replay_prompt_fingerprints := counts,
                                          st_last_batch_clear_at := last_clear\<rparr>,
                 ac_persisted := ac_persisted a @ (if n = 0 then [] else [ReplaceHistory items])\<rparr>)"

lemma pruned_toI:
  "list_all2 pruned (conversation_of a) items \<Longrightarrow> n = 0 \<longrightarrow> items = conversation_of a \<Longrightarrow>
   a' = a\<lparr>ac_state := (ac_state a)\<lparr>st_conversation := items, st_replay_prompt_fingerprints := counts,
                                    st_last_batch_clear_at := last_clear\<rparr>,
          ac_persisted := ac_persisted a @ (if n = 0 then [] else [ReplaceHistory items])\<rparr> \<Longrightarrow> pruned_to a n a'"
  unfolding pruned_to_def by blast

lemma pruned_to_refl [simp]: "pruned_to a 0 a"
  by (rule pruned_toI[where items = "conversation_of a" and counts = "st_replay_prompt_fingerprints (ac_state a)"
        and last_clear = "st_last_batch_clear_at (ac_state a)"]) auto

lemma rev_pruned: "list_all2 pruned (rev items) items' \<Longrightarrow> list_all2 pruned items (rev items')"
  by (subst list_all2_rev[symmetric]) simp

lemma batch_clear_pruned:
  assumes "batch_clear E a = Some (n, a')"
  shows "pruned_to a n a'"
proof -
  obtain items counts where scan: "batch_back E (ac_pruning_config a) (tool_call_by_id (conversation_of a))
      (st_reasoning_summaries (ac_state a)) (effective_threshold a) 0 False
      (st_replay_prompt_fingerprints (ac_state a)) (rev (conversation_of a)) = (items, n, counts)"
    using assms by (auto simp: batch_clear_def Let_def split: Option.bind_splits prod.splits if_splits)
  note keep = batch_back_pruned[OF this]
  show ?thesis
    using assms scan keep
    by (intro pruned_toI[where items = "rev items" and counts = counts and last_clear =
          "if n = 0 then st_last_batch_clear_at (ac_state a) else Some (st_prompt_index (ac_state a))"])
      (auto simp: batch_clear_def Let_def replace_history_def rev_pruned split: Option.bind_splits if_splits)
qed

lemma prune_retained_pruned:
  assumes "prune_retained_conversation E a = Some (n, a')"
  shows "pruned_to a n a'"
proof -
  have rearm: "pruned_to a 0 (on_state (\<lambda>st. st\<lparr>st_last_batch_clear_at := None\<rparr>) a)"
    by (rule pruned_toI[where items = "conversation_of a" and counts = "st_replay_prompt_fingerprints (ac_state a)"
          and last_clear = None]) auto
  have cleared: "pruned_to a m (a\<lparr>ac_state := (ac_state a)\<lparr>st_conversation := rev items\<rparr>,
      ac_persisted := ac_persisted a @ (if m = 0 then [] else [ReplaceHistory (rev items)])\<rparr>)"
    if "clear_back (effective_threshold a) 0 False (rev (conversation_of a)) = (items, m)" for items m
    using clear_back_pruned[OF that]
    by (intro pruned_toI[where items = "rev items" and counts = "st_replay_prompt_fingerprints (ac_state a)"
          and last_clear = "st_last_batch_clear_at (ac_state a)"]) (auto simp: rev_pruned)
  have per_turn: "pruned_to a n a'"
    if clears: "do { before_bytes \<leftarrow> conversation_content_bytes (conversation_of a);
        let (items, cleared) = clear_back (effective_threshold a) 0 False (rev (conversation_of a));
        let a = on_state (\<lambda>st. st\<lparr>st_conversation := rev items\<rparr>) a;
        if 0 < cleared then do {
          after_bytes \<leftarrow> conversation_content_bytes (conversation_of a);
          Some (cleared, replace_history (conversation_of a) a)
        } else Some (cleared, a) } = Some (n, a')"
  proof -
    obtain items m where scan: "clear_back (effective_threshold a) 0 False (rev (conversation_of a)) = (items, m)"
      by (cases "clear_back (effective_threshold a) 0 False (rev (conversation_of a))")
    with clears have "n = m" and a': "a' = a\<lparr>ac_state := (ac_state a)\<lparr>st_conversation := rev items\<rparr>,
        ac_persisted := ac_persisted a @ (if m = 0 then [] else [ReplaceHistory (rev items)])\<rparr>"
      by (auto simp: Let_def replace_history_def split: Option.bind_splits if_splits)
    with cleared[OF scan] show ?thesis by simp
  qed
  show ?thesis
    using assms rearm per_turn batch_clear_pruned[of E a n a']
    unfolding prune_retained_conversation_def prune_retained_batched_def Let_def[where s = "ac_state a"]
    by (simp only: Let_def split: if_splits) auto
qed

lemma pruned_shape: "list_all2 pruned xs ys \<Longrightarrow> map is_tool_result xs = map is_tool_result ys"
proof (induction rule: list_all2_induct)
  case (Cons x xs y ys)
  then show ?case by (cases x) (auto simp: assistant_def assistant_calls_def)
qed simp

lemma pruned_keeps_users: "list_all2 pruned (pre @ [User u]) ys \<Longrightarrow> \<exists>pre'. ys = pre' @ [User u] \<and> length pre' = length pre"
  by (auto simp: list_all2_append1 list_all2_Cons1 dest: list_all2_lengthD)

lemma pruned_to_length: "pruned_to a n a' \<Longrightarrow> length (conversation_of a') = length (conversation_of a)"
  by (auto simp: pruned_to_def dest: list_all2_lengthD)

lemma pruned_toE:
  assumes "pruned_to a n a'"
  obtains items counts last_clear where "list_all2 pruned (conversation_of a) items" "n = 0 \<Longrightarrow> items = conversation_of a"
    "ac_state a' = (ac_state a)\<lparr>st_conversation := items, st_replay_prompt_fingerprints := counts,
                                 st_last_batch_clear_at := last_clear\<rparr>"
    "ac_persisted a' = ac_persisted a @ (if n = 0 then [] else [ReplaceHistory items])"
proof -
  from assms obtain items counts last_clear where *: "list_all2 pruned (conversation_of a) items" "n = 0 \<longrightarrow> items = conversation_of a"
    "a' = a\<lparr>ac_state := (ac_state a)\<lparr>st_conversation := items, st_replay_prompt_fingerprints := counts,
                                      st_last_batch_clear_at := last_clear\<rparr>,
            ac_persisted := ac_persisted a @ (if n = 0 then [] else [ReplaceHistory items])\<rparr>"
    unfolding pruned_to_def by blast
  show ?thesis by (rule that[where items = items and counts = counts and last_clear = last_clear]) (use * in simp_all)
qed

subsection \<open>The capture of a turn\<close>

definition capture_ok :: "chat_state \<Rightarrow> bool" where
  "capture_ok st \<longleftrightarrow> (\<forall>cap. st_turn_capture st = Some cap \<longrightarrow> tc_turn_start_offset cap \<le> length (st_conversation st))"

definition captured :: "chat_state \<Rightarrow> conversation option" where
  "captured st = map_option tcap_messages (taken_messages st)"

lemma turn_tail_drop [simp]: "turn_tail items n = drop n items"
  by (simp add: turn_tail_def get_from_def)

lemmas capture_defs = captured_def taken_messages_def capture_ok_def snapshot_turn_slice_def rebase_turn_capture_offset_def
  mark_compaction_def option.map_comp o_def

text \<open>Whatever the conversation is replaced by, the turn so far is kept.\<close>

lemma rebased:
  "captured (rebase_turn_capture_offset ((snapshot_turn_slice st)\<lparr>st_conversation := items\<rparr>)) = captured st"
  "capture_ok (rebase_turn_capture_offset st)"
  by (auto simp: capture_defs option.map_comp o_def)

definition carries :: "chat_actor \<Rightarrow> conversation \<Rightarrow> chat_actor \<Rightarrow> bool" where
  "carries a items a' \<longleftrightarrow>
     capture_ok (ac_state a') \<and> captured (ac_state a') = map_option (\<lambda>m. m @ items) (captured (ac_state a))"

lemma captured_cong:
  "st_turn_capture st' = st_turn_capture st \<Longrightarrow> st_conversation st' = st_conversation st \<Longrightarrow> captured st' = captured st"
  "st_turn_capture st' = st_turn_capture st \<Longrightarrow> length (st_conversation st) \<le> length (st_conversation st')
   \<Longrightarrow> capture_ok st \<Longrightarrow> capture_ok st'"
  by (auto simp: capture_defs)

lemma carries_same:
  "capture_ok (ac_state a) \<Longrightarrow> st_turn_capture (ac_state a') = st_turn_capture (ac_state a)
   \<Longrightarrow> conversation_of a' = conversation_of a \<Longrightarrow> carries a [] a'"
  using captured_cong[of "ac_state a'" "ac_state a"] by (simp add: carries_def option.map_ident)

lemma carries_trans: "carries a xs b \<Longrightarrow> carries b ys c \<Longrightarrow> carries a (xs @ ys) c"
  by (auto simp: carries_def option.map_comp o_def)

lemma ensure_state:
  "ac_state (ensure_conversation_integrity_with_reason reason a)
   = rebase_turn_capture_offset ((snapshot_turn_slice (ac_state a))\<lparr>st_conversation := repaired (conversation_of a) reason\<rparr>)"
  by (simp add: ensure_conversation_integrity_with_reason_def repaired_def case_prod_beta Let_def replace_history_def
      snapshot_turn_slice_def)

lemma ensure_carries: "carries a [] (ensure_conversation_integrity_with_reason reason a)"
  by (simp add: carries_def ensure_state rebased option.map_ident)

lemma replace_carries: "replace_conversation items is_compaction a = Some a' \<Longrightarrow> carries a [] a'"
  by (auto simp: replace_conversation_def send_event_def replace_history_def carries_def Let_def capture_defs
      split: Option.bind_splits if_splits option.splits)

lemma append_carries: "capture_ok (ac_state a) \<Longrightarrow> carries a [item] (append_item item a)"
  by (cases "st_turn_capture (ac_state a)") (auto simp: append_item_def persist_message_def carries_def capture_defs)

lemma count_tokens_carries: "capture_ok (ac_state a) \<Longrightarrow> count_tokens item a = Some a' \<Longrightarrow> carries a [] a'"
  by (intro carries_same) (auto simp: count_tokens_def split: Option.bind_splits)

lemma ensure_capture: "st_turn_capture (ac_state (ensure_conversation_integrity_with_reason reason a)) = Some cap
  \<Longrightarrow> tc_turn_start_offset cap = length (conversation_of (ensure_conversation_integrity_with_reason reason a))"
  by (auto simp: ensure_state rebase_turn_capture_offset_def snapshot_turn_slice_def)

text \<open>A user message is pushed onto a capture that starts at the end of the conversation; what is pruned is before it.\<close>

lemma push_user_carries:
  assumes "push_user_message_with_repair_reason E (User u) reason a = Some a'"
  shows "carries a [User u] a'"
proof -
  let ?a1 = "ensure_conversation_integrity_with_reason reason a"
  obtain a2 where a2: "count_tokens (User u) ?a1 = Some a2"
    and pruning: "\<exists>n. prune_retained_conversation E (append_item (User u) a2) = Some (n, a')"
    using assms by (auto simp: push_user_message_with_repair_reason_def split: Option.bind_splits)
  obtain n where "prune_retained_conversation E (append_item (User u) a2) = Some (n, a')" using pruning by blast
  then obtain items counts last_clear where pruned: "list_all2 pruned (conversation_of (append_item (User u) a2)) items"
    and a': "ac_state a' = (ac_state (append_item (User u) a2))\<lparr>st_conversation := items,
               st_replay_prompt_fingerprints := counts, st_last_batch_clear_at := last_clear\<rparr>"
    using prune_retained_pruned pruned_toE by metis
  have same: "conversation_of a2 = conversation_of ?a1" "st_turn_capture (ac_state a2) = st_turn_capture (ac_state ?a1)"
    using a2 by (auto simp: count_tokens_def split: Option.bind_splits)
  obtain pre where items: "items = pre @ [User u]" "length pre = length (conversation_of ?a1)"
    using pruned_keeps_users[of "conversation_of a2" u items] pruned same by (auto simp: append_item_def persist_message_def)
  have "carries ?a1 [User u] a'"
    using ensure_capture[of reason a] items same a'
    by (cases "st_turn_capture (ac_state ?a1)") (auto simp: carries_def capture_defs append_item_def persist_message_def)
  then show ?thesis using carries_trans[OF ensure_carries] by fastforce
qed

lemma persisted_reminder_carries: "capture_ok (ac_state a) \<Longrightarrow> carries a [] (snd (persisted_reminder reminder persist a))"
proof (cases "reminder \<noteq> None \<and> persist")
  case True
  then obtain r where r: "reminder = Some r" by auto
  have "ac_state (snd (persisted_reminder reminder persist a))
      = rebase_turn_capture_offset ((snapshot_turn_slice (ac_state a))\<lparr>st_conversation :=
          fst (inject_memory_reminder (conversation_of a) r)\<rparr>)"
    using True r by (simp add: persisted_reminder_def case_prod_beta Let_def replace_history_def snapshot_turn_slice_def)
  then show ?thesis by (simp add: carries_def rebased option.map_ident)
next
  case False
  then show "capture_ok (ac_state a) \<Longrightarrow> ?thesis"
    by (intro carries_same) (auto simp: persisted_reminder_def split: option.splits)
qed

lemma build_carries: "capture_ok (ac_state a) \<Longrightarrow> carries a [] (snd (build_conversation_request E tools reminder persist trace c r a))"
proof -
  assume ok: "capture_ok (ac_state a)"
  let ?b = "snd (persisted_reminder reminder persist a)"
  have "carries a [] ?b" using ok by (rule persisted_reminder_carries)
  moreover have "carries ?b [] (snd (build_conversation_request E tools reminder persist trace c r a))"
    by (rule carries_same)
      (use \<open>carries a [] ?b\<close> in \<open>auto simp: carries_def build_conversation_request_def case_prod_beta Let_def send_event_def\<close>)
  ultimately show ?thesis using carries_trans by fastforce
qed

text \<open>What a command adds to the turn, and the commands that do not start, end or rewrite one.\<close>

definition pushed :: "chat_state_command \<Rightarrow> conversation" where
  "pushed cmd =
     (case cmd of PushUserMessage item \<Rightarrow> [item] | PushUserMessageAndAck item \<Rightarrow> [item]
      | PushUserMessageWithRepairReason item reason \<Rightarrow> [item] | PushAssistantResponse item \<Rightarrow> [item]
      | PushToolResult item \<Rightarrow> [item] | _ \<Rightarrow> [])"

definition within_turn :: "chat_state_command \<Rightarrow> bool" where
  "within_turn cmd =
     (case cmd of PushUserMessage item \<Rightarrow> is_user item | PushUserMessageAndAck item \<Rightarrow> is_user item
      | PushUserMessageWithRepairReason item reason \<Rightarrow> is_user item
      | RepairHistory dry_run turn_active \<Rightarrow> dry_run \<or> turn_active = Some True
      | BeginTurnCapture \<Rightarrow> False | TruncateToPromptIndex target \<Rightarrow> False | TakeTurnMessages \<Rightarrow> False | _ \<Rightarrow> True)"

lemma push_message_carries: "capture_ok (ac_state a) \<Longrightarrow> push_message item a = Some a' \<Longrightarrow> carries a [item] a'"
proof -
  assume ok: "capture_ok (ac_state a)" and push: "push_message item a = Some a'"
  then obtain b where b: "b = a \<or> count_tokens item a = Some b" "a' = append_item item b"
    by (auto simp: push_message_def split: Option.bind_splits if_splits)
  then have "carries a [] b" using ok count_tokens_carries carries_same[of a a] by auto
  moreover then have "carries b [item] a'" using b append_carries by (simp add: carries_def)
  ultimately show "carries a [item] a'" using carries_trans by fastforce
qed

lemma push_user_item_carries:
  "is_user item \<Longrightarrow> push_user_message_with_repair_reason E item reason a = Some a' \<Longrightarrow> carries a [item] a'"
  by (cases item) (auto intro: push_user_carries)

lemma restore_carries: "restore_snapshot snap (ac_state a) = Some st \<Longrightarrow> carries a [] (a\<lparr>ac_state := st\<rparr>)"
proof -
  assume restore: "restore_snapshot snap (ac_state a) = Some st"
  let ?st = "rebase_turn_capture_offset ((snapshot_turn_slice (ac_state a))\<lparr>st_conversation := sn_conversation snap\<rparr>)"
  from restore have "st_turn_capture st = st_turn_capture ?st" "st_conversation st = st_conversation ?st"
    by (auto simp: restore_snapshot_def Let_def split: Option.bind_splits)
  then have "carries (a\<lparr>ac_state := ?st\<rparr>) [] (a\<lparr>ac_state := st\<rparr>)" by (intro carries_same) (auto simp: rebased)
  moreover have "carries a [] (a\<lparr>ac_state := ?st\<rparr>)" by (simp add: carries_def rebased option.map_ident)
  ultimately show ?thesis using carries_trans by fastforce
qed

lemma usage_keeps_turn:
  "st_turn_capture (record_model_call_usage m u d c st) = st_turn_capture st"
  "st_conversation (record_model_call_usage m u d c st) = st_conversation st"
  "st_turn_capture (record_subagent_usage b p i st) = st_turn_capture st"
  "st_conversation (record_subagent_usage b p i st) = st_conversation st"
  "st_turn_capture (mark_usage_incomplete p q st) = st_turn_capture st"
  "st_conversation (mark_usage_incomplete p q st) = st_conversation st"
  "st_turn_capture (seal_harness_trace_turn st) = st_turn_capture st"
  "st_conversation (seal_harness_trace_turn st) = st_conversation st"
  by (simp_all add: record_model_call_usage_def record_subagent_usage_def mark_usage_incomplete_def
      seal_harness_trace_turn_def Let_def)

lemma system_head_carries: "capture_ok (ac_state a) \<Longrightarrow> replace_system_head prompt a = Some (r, a') \<Longrightarrow> carries a [] a'"
  by (auto simp: replace_system_head_def intro: carries_same dest: replace_carries split: prod.splits if_splits)

lemma built_carries:
  assumes "apfst RequestReply (build_conversation_request E tools reminder persist trace c q
      (ensure_conversation_integrity_with_reason reason a)) = (r, a')"
  shows "carries a [] a'"
proof -
  let ?b = "ensure_conversation_integrity_with_reason reason a"
  have "capture_ok (ac_state ?b)" using ensure_carries by (simp add: carries_def)
  then have "carries ?b [] a'"
    using build_carries[of ?b E tools reminder persist trace c q] assms by (auto simp: apfst_def map_prod_def split: prod.splits)
  then show ?thesis using carries_trans[OF ensure_carries] by fastforce
qed

lemma step_carries:
  assumes "capture_ok (ac_state a)" "within_turn cmd" "handle_command E cmd a = Some (r, a')"
  shows "carries a (pushed cmd) a'"
proof (cases "is_query cmd")
  case True
  then have "pushed cmd = []" "a' = a"
    using assms(3) queries_change_nothing by (auto simp: is_query_def pushed_def split: chat_state_command.splits)
  then show ?thesis using assms(1) by (simp add: carries_same)
next
  case False
  with assms(3) have "handle_mutation E cmd a = Some (r, a')" by (simp add: handle_mutation)
  then show ?thesis using assms(1,2)
    by (cases cmd)
      (auto simp: handle_mutation_def pushed_def within_turn_def push_user_message_def record_token_usage_def
        increment_prompt_index_def send_event_def flush_def usage_keeps_turn repair_dangling_after_harness_halt_def
        actor_repair_history_def Let_def ensure_conversation_integrity_def
        intro: carries_same push_message_carries push_user_item_carries replace_carries restore_carries
          system_head_carries ensure_carries built_carries
        split: Option.bind_splits prod.splits if_splits)
qed

lemma append_ok: "capture_ok (ac_state a) \<Longrightarrow> capture_ok (ac_state (append_item item a))"
  using append_carries by (simp add: carries_def)

lemma push_user_item_ok:
  assumes "push_user_message_with_repair_reason E item reason a = Some a'"
  shows "capture_ok (ac_state a')"
proof -
  obtain b n where b: "count_tokens item (ensure_conversation_integrity_with_reason reason a) = Some b"
    and pruned: "prune_retained_conversation E (append_item item b) = Some (n, a')"
    using assms by (auto simp: push_user_message_with_repair_reason_def split: Option.bind_splits)
  have "carries (ensure_conversation_integrity_with_reason reason a) [] b"
    using b ensure_carries[of a reason] by (intro count_tokens_carries) (auto simp: carries_def)
  then have ok: "capture_ok (ac_state (append_item item b))" by (intro append_ok) (simp add: carries_def)
  from prune_retained_pruned[OF pruned] show ?thesis
    by (rule pruned_toE) (use ok in \<open>auto simp: capture_ok_def dest: list_all2_lengthD\<close>)
qed

lemma repair_ok:
  assumes "actor_repair_history dry_run a = Some (report, a')" "capture_ok (ac_state a)"
  shows "capture_ok (ac_state a')"
proof -
  obtain items rep where rep: "repair_history (conversation_of a) = (items, rep)" by (metis surj_pair)
  with assms(1) have "a' = a \<or> (\<exists>b. replace_conversation items False b = Some a')"
    using repair_history_reports[OF rep] by (auto simp: actor_repair_history_def split: if_splits)
  then show ?thesis using assms(2) replace_carries by (auto simp: carries_def)
qed

lemma step_capture_ok:
  assumes "capture_ok (ac_state a)" "handle_command E cmd a = Some (r, a')"
  shows "capture_ok (ac_state a')"
proof (cases "within_turn cmd")
  case True
  then show ?thesis using step_carries[OF assms(1) True assms(2)] by (simp add: carries_def)
next
  case False
  then have "\<not> is_query cmd" by (auto simp: within_turn_def is_query_def split: chat_state_command.splits)
  with assms(2) have "handle_mutation E cmd a = Some (r, a')" by (simp add: handle_mutation)
  with False assms(1) show ?thesis
    by (cases cmd)
      (auto simp: handle_mutation_def within_turn_def push_user_message_def capture_ok_def
        dest: push_user_item_ok repair_ok)
qed

interpretation offsets: preserved "\<lambda>cmd. True" "\<lambda>a. capture_ok (ac_state a)"
  by unfold_locales (rule step_capture_ok)

lemma spawned: "spawn_with_pruning items config pruning = Some a \<Longrightarrow>
    conversation_of a = repaired items UserCancelled \<and> st_turn_capture (ac_state a) = None \<and> ac_persisted a = []
    \<and> st_prompt_usage (ac_state a) = None \<and> st_session_usage (ac_state a) = default_ledger"
  by (auto simp: spawn_with_pruning_def new_chat_state_def Let_def split: Option.bind_splits)

subsection \<open>The actor does not panic\<close>

abbreviation readable_history :: "conversation \<Rightarrow> bool" where
  "readable_history \<equiv> list_all readable"

definition readable_command :: "chat_state_command \<Rightarrow> bool" where
  "readable_command cmd =
     (case cmd of ReplaceConversation items is_compaction \<Rightarrow> readable_history items
      | RestoreSnapshot snap \<Rightarrow> readable_history (sn_conversation snap)
      | _ \<Rightarrow> readable_history (pushed cmd))"

definition returns :: "chat_actor option \<Rightarrow> bool" where
  "returns result \<longleftrightarrow> (\<exists>a. result = Some a \<and> readable_history (conversation_of a))"

lemma returnsI: "result = Some a \<Longrightarrow> readable_history (conversation_of a) \<Longrightarrow> returns result"
  by (simp add: returns_def)

lemma returns_bind: "returns result \<Longrightarrow> (\<And>a. readable_history (conversation_of a) \<Longrightarrow> returns (f a)) \<Longrightarrow> returns (result \<bind> f)"
  by (auto simp: returns_def)

lemma estimates_exist: "readable item \<Longrightarrow> \<exists>n. estimate_item_tokens item = Some n"
  "readable_history items \<Longrightarrow> \<exists>n. estimate_conversation_tokens items = Some n"
  by (simp_all add: estimate_item_readable estimate_conversation_readable)

lemma map_runs_readable:
  "(\<And>a run. readable_history run \<Longrightarrow> readable_history (g a run)) \<Longrightarrow> readable_history items
   \<Longrightarrow> readable_history (map_runs g orphans items)"
  by (induction items rule: runs_induct) auto

lemma repaired_readable: "readable_history items \<Longrightarrow> readable_history (repaired items reason)"
proof -
  assume items: "readable_history items"
  have keep: "readable_history run \<Longrightarrow> readable_history (keep_last run)" for run
    using keep_last_subset[of run] by (auto simp: list_all_iff)
  have fill: "readable_history run \<Longrightarrow> readable_history (fill_run reason a run)" for a run
    by (auto simp: fill_run_def synthetic_results_def tool_result_def list_all_iff)
  show ?thesis
    using items by (simp add: repaired_def dedup_is_keep_last repair_is_fill map_runs_readable keep fill)
qed

lemma repair_history_readable: "readable_history items \<Longrightarrow> readable_history (fst (repair_history items))"
proof -
  assume items: "readable_history items"
  have "readable_history run \<Longrightarrow> readable_history (repair_run a run)" for a run
    using keep_last_subset[of run]
    by (auto simp: repair_run_def fill_run_def own_results_def synthetic_results_def tool_result_def list_all_iff)
  then show ?thesis using items by (simp add: repair_history_runs map_runs_readable)
qed

lemma pruned_readable: "list_all2 pruned items items' \<Longrightarrow> readable_history items \<Longrightarrow> readable_history items'"
proof (induction rule: list_all2_induct)
  case (Cons x xs y ys)
  then show ?case by (cases x) (auto simp: assistant_def assistant_calls_def)
qed simp

lemma content_bytes_readable: "readable_history items \<Longrightarrow> \<exists>n. conversation_content_bytes items = Some n"
proof (induction items)
  case (Cons i items)
  then show ?case by (cases i) (auto simp: content_bytes_def)
qed simp

lemma spawn_returns: "readable_history items \<Longrightarrow> \<exists>a. spawn_with_pruning items config pruning = Some a"
  using estimates_exist(2)[OF repaired_readable, of items UserCancelled]
  by (auto simp: spawn_with_pruning_def new_chat_state_def)

lemma ensure_readable: "readable_history (conversation_of a) \<Longrightarrow>
    readable_history (conversation_of (ensure_conversation_integrity_with_reason reason a))"
  by (simp add: ensure_state rebase_turn_capture_offset_def repaired_readable)

lemma count_returns: "readable item \<Longrightarrow> readable_history (conversation_of a) \<Longrightarrow> returns (count_tokens item a)"
  using estimates_exist(1)[of item] by (auto simp: count_tokens_def returns_def)

lemma append_readable: "readable item \<Longrightarrow> readable_history (conversation_of a) \<Longrightarrow> readable_history (conversation_of (append_item item a))"
  by (simp add: append_item_def persist_message_def)

lemma replace_returns: "readable_history items \<Longrightarrow> returns (replace_conversation items is_compaction a)"
  using estimates_exist(2)[of items]
  by (auto simp: replace_conversation_def Let_def returns_def send_event_def rebase_turn_capture_offset_def)

lemma batch_clear_returns:
  assumes "readable_history (conversation_of a)"
  shows "\<exists>n a'. batch_clear E a = Some (n, a')"
proof -
  obtain items n counts where scan: "batch_back E (ac_pruning_config a) (tool_call_by_id (conversation_of a))
      (st_reasoning_summaries (ac_state a)) (effective_threshold a) 0 False
      (st_replay_prompt_fingerprints (ac_state a)) (rev (conversation_of a)) = (items, n, counts)"
    by (metis surj_pair)
  have "readable_history (rev items)"
    using batch_back_pruned[OF scan] pruned_readable[of "rev (conversation_of a)" items] assms by simp
  then show ?thesis using content_bytes_readable[OF assms] content_bytes_readable[of "rev items"] scan
    by (auto simp: batch_clear_def Let_def)
qed

lemma prune_returns:
  assumes "readable_history (conversation_of a)"
  shows "returns (map_option snd (prune_retained_conversation E a))"
proof -
  obtain items n where scan: "clear_back (effective_threshold a) 0 False (rev (conversation_of a)) = (items, n)"
    by (metis surj_pair)
  have "readable_history (rev items)"
    using clear_back_pruned[OF scan] pruned_readable[of "rev (conversation_of a)" items] assms by simp
  then have "\<exists>m a'. prune_retained_conversation E a = Some (m, a')"
    using content_bytes_readable[OF assms] content_bytes_readable[of "rev items"] scan batch_clear_returns[OF assms]
    by (auto simp: prune_retained_conversation_def prune_retained_batched_def Let_def)
  then obtain m a' where prune: "prune_retained_conversation E a = Some (m, a')" by blast
  from prune_retained_pruned[OF prune] show ?thesis
    by (rule pruned_toE) (use prune assms pruned_readable in \<open>auto simp: returns_def\<close>)
qed

lemma push_returns: "readable item \<Longrightarrow> readable_history (conversation_of a) \<Longrightarrow> returns (push_message item a)"
  using count_returns[of item a] append_readable[of item] by (auto simp: push_message_def returns_def)

lemma push_user_returns:
  assumes "readable item" "readable_history (conversation_of a)"
  shows "returns (push_user_message_with_repair_reason E item reason a)"
  unfolding push_user_message_with_repair_reason_def
  by (intro returns_bind count_returns prune_returns append_readable ensure_readable assms)

lemma build_readable:
  assumes "readable_history (conversation_of a)"
  shows "readable_history (conversation_of (snd (build_conversation_request E tools reminder persist trace c q a)))"
proof -
  have head: "readable_history items \<Longrightarrow> readable_history (upsert_head r items)" for r items
    by (induction r items rule: upsert_head.induct) auto
  have "readable_history (conversation_of (snd (persisted_reminder reminder persist a)))"
    using assms head
    by (auto simp: persisted_reminder_def inject_memory_reminder_def Let_def replace_history_def rebase_turn_capture_offset_def
        snapshot_turn_slice_def split: option.splits prod.splits if_splits)
  then show ?thesis by (auto simp: build_conversation_request_def case_prod_beta Let_def send_event_def)
qed

lemma restore_returns: "readable_history (sn_conversation snap) \<Longrightarrow>
    \<exists>st. restore_snapshot snap (ac_state a) = Some st \<and> readable_history (st_conversation st)"
  using estimates_exist(2)[of "sn_conversation snap"]
  by (auto simp: restore_snapshot_def Let_def rebase_turn_capture_offset_def)

lemma truncate_returns: "readable_history (conversation_of a) \<Longrightarrow> returns (truncate_to_prompt_index target a)"
proof -
  assume items: "readable_history (conversation_of a)"
  let ?kept = "take (nth_user 0 0 target (conversation_of a)) (conversation_of a)"
  have kept: "readable_history ?kept" using items by (auto simp: list_all_iff dest: in_set_takeD)
  then obtain n where "estimate_conversation_tokens ?kept = Some n" using estimates_exist(2) by blast
  with items kept show "returns (truncate_to_prompt_index target a)"
    by (auto simp: truncate_to_prompt_index_def Let_def returns_def send_event_def replace_history_def)
qed

lemma repair_returns:
  assumes "readable_history (conversation_of a)"
  shows "\<exists>report a'. actor_repair_history dry_run a = Some (report, a') \<and> readable_history (conversation_of a')"
proof -
  obtain items rep where rep: "repair_history (conversation_of a) = (items, rep)" by (metis surj_pair)
  then have items: "readable_history items" using repair_history_readable[OF assms] by simp
  show ?thesis
    using rep items assms replace_returns[OF items, of False "on_state (\<lambda>st. st\<lparr>st_conversation := []\<rparr>) a"]
    by (auto simp: actor_repair_history_def returns_def)
qed

lemma head_returns: "readable_history (conversation_of a) \<Longrightarrow>
    \<exists>r a'. replace_system_head prompt a = Some (r, a') \<and> readable_history (conversation_of a')"
proof -
  assume a: "readable_history (conversation_of a)"
  have "readable_history (fst (replace_or_insert_system_head items prompt))" if "readable_history items" for items
    using that by (induction items prompt rule: replace_or_insert_system_head.induct) auto
  with a replace_returns[of "fst (replace_or_insert_system_head (conversation_of a) prompt)" False a]
  show ?thesis by (auto simp: replace_system_head_def returns_def split: prod.split)
qed

lemma estimated_messages: "readable_history items \<Longrightarrow> \<exists>n. estimate_messages_tokens items = Some n"
  unfolding estimate_messages_tokens_def by (intro estimates_exist(2)) (auto simp: list_all_iff)

definition survives :: "(reply \<times> chat_actor) option \<Rightarrow> bool" where
  "survives result \<longleftrightarrow> (\<exists>r a. result = Some (r, a) \<and> readable_history (conversation_of a))"

lemma survives_Some: "readable_history (conversation_of a) \<Longrightarrow> survives (Some (r, a))"
  by (simp add: survives_def)

lemma survives_Pair: "returns result \<Longrightarrow> survives (map_option (Pair r) result)"
  by (auto simp: survives_def returns_def)

lemma handler_survives:
  "readable_history (conversation_of a) \<Longrightarrow>
     survives (map_option (\<lambda>a. (Ack, on_state (\<lambda>st. st\<lparr>st_turn_capture := None, st_prompt_usage := None\<rparr>) a))
                 (truncate_to_prompt_index target a))"
  "readable_history (conversation_of a) \<Longrightarrow> survives (map_option (apfst BoolReply) (replace_system_head prompt a))"
  "readable_history (conversation_of a) \<Longrightarrow>
     survives (map_option (\<lambda>(report, a). (RepairReply (Inr report), a)) (actor_repair_history dry_run a))"
  "readable_history (sn_conversation snap) \<Longrightarrow>
     survives (map_option (\<lambda>st. (NoReply, a\<lparr>ac_state := st\<rparr>)) (restore_snapshot snap (ac_state a)))"
  using truncate_returns[of a target] head_returns[of a prompt] repair_returns[of a dry_run] restore_returns[of snap a]
  by (auto simp: survives_def returns_def)

lemma build_survives: "readable_history (conversation_of a) \<Longrightarrow>
    survives (Some (apfst RequestReply (build_conversation_request E tools reminder persist trace c q
                      (ensure_conversation_integrity_with_reason reason a))))"
  using build_readable[OF ensure_readable, of a E tools reminder persist trace c q reason]
  by (auto simp: survives_def apfst_def map_prod_def split: prod.splits)

lemma record_returns: "readable_history (conversation_of a) \<Longrightarrow> returns (record_token_usage n a)"
  using estimates_exist(2)[of "conversation_of a"] by (auto simp: record_token_usage_def returns_def send_event_def)

lemma query_survives:
  assumes "readable_history (conversation_of a)" "is_query cmd"
  shows "\<exists>r. handle_query cmd a = Some r"
  using estimated_messages[OF assms(1)] assms(2) by (cases cmd) (auto simp: is_query_def handle_query_def)

lemma mutation_survives:
  assumes "readable_history (conversation_of a)" "readable_command cmd" "\<not> is_query cmd"
  shows "survives (handle_mutation E cmd a)"
  using assms
  by (cases cmd)
    (simp_all add: handle_mutation_def is_query_def readable_command_def pushed_def push_user_message_def Let_def
      repair_dangling_after_harness_halt_def ensure_conversation_integrity_def survives_Pair push_returns
      push_user_returns replace_returns record_returns handler_survives build_survives
      survives_Some increment_prompt_index_def send_event_def flush_def usage_keeps_turn ensure_readable)

lemma step_returns:
  assumes "readable_history (conversation_of a)" "readable_command cmd"
  shows "\<exists>r a'. handle_command E cmd a = Some (r, a') \<and> readable_history (conversation_of a')"
proof (cases "is_query cmd")
  case True
  then show ?thesis using query_survives[OF assms(1) True] assms(1) by (auto simp: handle_command_def)
next
  case False
  then show ?thesis using mutation_survives[OF assms False] by (simp add: handle_mutation survives_def)
qed

lemma runs_return:
  "readable_history (conversation_of a) \<Longrightarrow> list_all readable_command cmds \<Longrightarrow>
   \<exists>a'. run_commands E cmds a = Some a' \<and> readable_history (conversation_of a')"
proof (induction cmds arbitrary: a)
  case (Cons cmd cmds)
  then obtain r b where "handle_command E cmd a = Some (r, b)" "readable_history (conversation_of b)"
    using step_returns[of a cmd E] by auto
  with Cons show ?case by auto
qed simp

subsection \<open>Builds with debug assertions\<close>

text \<open>
  The assertions a handler evaluates: the one of \<open>turn_tail\<close>, wherever a capture is open and the turn is captured
  or taken, and the one that a system message that differs is changed. Everything else is as in a release build.
\<close>

definition turn_tail_asserts :: "conversation \<Rightarrow> nat \<Rightarrow> bool" where
  "turn_tail_asserts conversation offset \<longleftrightarrow> offset \<le> length conversation"

definition snapshot_asserts :: "chat_state \<Rightarrow> bool" where
  "snapshot_asserts st =
     (case st_turn_capture st of
        Some cap \<Rightarrow> turn_tail_asserts (st_conversation st) (tc_turn_start_offset cap)
      | None \<Rightarrow> True)"

definition head_asserts :: "str \<Rightarrow> conversation \<Rightarrow> bool" where
  "head_asserts prompt items =
     (case items of
        System s # rest \<Rightarrow> canonical_system_prompt_eq s prompt \<or> snd (replace_or_insert_system_head items prompt)
      | _ \<Rightarrow> snd (replace_or_insert_system_head items prompt))"

definition command_asserts :: "chat_state_command \<Rightarrow> chat_actor \<Rightarrow> bool" where
  "command_asserts cmd a =
     (case cmd of
        PushUserMessage item \<Rightarrow> snapshot_asserts (ac_state a)
      | PushUserMessageAndAck item \<Rightarrow> snapshot_asserts (ac_state a)
      | PushUserMessageWithRepairReason item reason \<Rightarrow> snapshot_asserts (ac_state a)
      | RepairDanglingAfterHarnessHalt cls \<Rightarrow> snapshot_asserts (ac_state a)
      | ReplaceConversation items is_compaction \<Rightarrow> snapshot_asserts (ac_state a)
      | RestoreSnapshot snap \<Rightarrow> snapshot_asserts (ac_state a)
      | TakeTurnMessages \<Rightarrow> snapshot_asserts (ac_state a)
      | ReplaceSystemHead prompt \<Rightarrow>
          head_asserts prompt (conversation_of a)
          \<and> (if snd (replace_or_insert_system_head (conversation_of a) prompt) then snapshot_asserts (ac_state a) else True)
      | RepairHistory dry_run turn_active \<Rightarrow>
          turn_active = Some True \<or> dry_run \<or> \<not> changed (snd (repair_history (conversation_of a)))
          \<or> snapshot_asserts ((ac_state a)\<lparr>st_conversation := []\<rparr>)
      | BuildConversationRequest tools reminder persist trace conv_id req_id \<Rightarrow>
          snapshot_asserts (ac_state a)
          \<and> (if reminder \<noteq> None \<and> persist then snapshot_asserts (ac_state (ensure_conversation_integrity a)) else True)
      | _ \<Rightarrow> True)"

fun run_asserting :: "chat_env \<Rightarrow> chat_state_command list \<Rightarrow> chat_actor \<Rightarrow> chat_actor option" where
  "run_asserting E [] a = Some a"
| "run_asserting E (cmd # cmds) a =
     (if command_asserts cmd a then do { (reply, a) \<leftarrow> handle_command E cmd a; run_asserting E cmds a } else None)"

text \<open>A repair that changes the history while a capture is open that did not start at the first item.\<close>

definition repairs_captured :: "chat_state_command \<Rightarrow> chat_actor \<Rightarrow> bool" where
  "repairs_captured cmd a =
     (case cmd of
        RepairHistory dry_run turn_active \<Rightarrow>
          turn_active \<noteq> Some True \<and> \<not> dry_run \<and> changed (snd (repair_history (conversation_of a)))
          \<and> (case st_turn_capture (ac_state a) of Some cap \<Rightarrow> 0 < tc_turn_start_offset cap | None \<Rightarrow> False)
      | _ \<Rightarrow> False)"

fun repair_in_capture :: "chat_env \<Rightarrow> chat_state_command list \<Rightarrow> chat_actor \<Rightarrow> bool" where
  "repair_in_capture E [] a = False"
| "repair_in_capture E (cmd # cmds) a =
     (repairs_captured cmd a
      \<or> (case handle_command E cmd a of Some (reply, a) \<Rightarrow> repair_in_capture E cmds a | None \<Rightarrow> False))"

lemma snapshot_asserts_ok: "capture_ok st \<Longrightarrow> snapshot_asserts st"
  by (auto simp: snapshot_asserts_def turn_tail_asserts_def capture_ok_def split: option.split)

lemma head_asserts: "head_asserts prompt items"
  by (induction items prompt rule: replace_or_insert_system_head.induct) (auto simp: head_asserts_def)

lemma asserts_iff: "capture_ok (ac_state a) \<Longrightarrow> command_asserts cmd a \<longleftrightarrow> \<not> repairs_captured cmd a"
proof -
  assume ok: "capture_ok (ac_state a)"
  have "capture_ok (ac_state (ensure_conversation_integrity a))"
    using ensure_carries by (simp add: carries_def ensure_conversation_integrity_def)
  with ok[THEN snapshot_asserts_ok] this[THEN snapshot_asserts_ok] show ?thesis
    by (cases cmd)
      (auto simp: command_asserts_def repairs_captured_def head_asserts snapshot_asserts_def turn_tail_asserts_def
        split: option.splits)
qed

lemma asserting_runs:
  "capture_ok (ac_state a) \<Longrightarrow> run_asserting E cmds a = (if repair_in_capture E cmds a then None else run_commands E cmds a)"
proof (induction cmds arbitrary: a)
  case (Cons cmd cmds)
  have "run_asserting E cmds b = (if repair_in_capture E cmds b then None else run_commands E cmds b)"
    if "handle_command E cmd a = Some (r, b)" for r b
    using Cons.IH[OF step_capture_ok[OF Cons.prems that]] .
  with asserts_iff[OF Cons.prems, of cmd] show ?case
    by (cases "handle_command E cmd a") auto
qed simp

text \<open>C31: The actor answers every command of every session while every item of the history it starts with, is sent
  or restores can be read, that is, holds no call of the code interpreter whose byte 100 is inside a character: no
  handler of a release build panics. The same session ends in the same state where debug assertions are compiled in,
  unless it repairs the history to a change, outside an active turn, while a capture is open that did not start at
  the first item: that repair empties the conversation before the turn is captured, and the assertion on the offset
  of the capture ends a build with assertions.\<close>

theorem actor_never_panics:
  assumes "readable_history items" "list_all readable_command cmds"
  shows "\<exists>a a'. spawn_with_pruning items config pruning = Some a \<and> run_commands E cmds a = Some a'
    \<and> run_asserting E cmds a = (if repair_in_capture E cmds a then None else Some a')"
proof -
  obtain a where a: "spawn_with_pruning items config pruning = Some a" using spawn_returns[OF assms(1)] by blast
  then have "readable_history (conversation_of a)" using assms(1) spawned repaired_readable by metis
  then obtain a' where a': "run_commands E cmds a = Some a'" using runs_return[OF _ assms(2), of a E] by blast
  have "capture_ok (ac_state a)" using spawned[OF a] by (simp add: capture_ok_def)
  from asserting_runs[OF this, of E cmds] a a' show ?thesis by auto
qed

text \<open>One such item ends the actor, and with it everything the session would still have said.\<close>

lemma code_interpreter_ends_actor:
  "handle_command E (PushToolResult (BackendToolCall (CodeInterpreter i
      (Some (replicate 99 CHR ''x'' @ [CHR 0xC3, CHR 0xA9]))))) a = None"
  by (simp add: handle_command_def is_query_def handle_mutation_def push_message_def count_tokens_def
      code_interpreter_panics del: estimate_item_tokens.simps)

subsection \<open>A session, run\<close>

definition some_env :: chat_env where
  "some_env =
     \<lparr>ce_body_json_bytes = (\<lambda>items. 100 * length items), ce_part_json_bytes = (\<lambda>part. 40),
      ce_args_fingerprint = (\<lambda>name arguments. length name + length arguments), ce_block_fingerprint = length\<rparr>"

definition some_config :: sampling_config where
  "some_config =
     \<lparr>sc_base_url = ''https://api'', sc_model = ''m'', sc_max_completion_tokens = None, sc_temperature = None,
      sc_top_p = None, sc_api_backend = ChatCompletions, sc_extra_headers = [], sc_context_window = 1000,
      sc_reasoning_effort = None, sc_stream_tool_calls = None\<rparr>"

definition some_usage :: token_usage where
  "some_usage =
     \<lparr>tu_prompt_tokens = 70, tu_completion_tokens = 5, tu_total_tokens = 75, tu_reasoning_tokens = 0,
      tu_cached_prompt_tokens = 40\<rparr>"

text \<open>The user stops a turn in the middle of a call and goes on; then the conversation is compacted in the turn.\<close>

definition session_commands :: "chat_state_command list" where
  "session_commands =
     [PushAssistantResponse (assistant_tool_calls [call ''c1'' ''read_file'']),
      RecordModelCallUsage None some_usage (Some 900) (Some 3), RecordTokenUsage 75,
      PushUserMessage (user ''go on''), PushAssistantResponse (assistant ''Done.''),
      ReplaceConversation [System ''You help.'', user_meta ''Summary''] True,
      ReplaceSystemHead ''You really help.'', PushAssistantResponse (assistant ''Next.''), Flush]"

definition session_start :: "chat_actor option" where
  "session_start = spawn_with_pruning [System ''You help.'', user ''fix the bug''] some_config default_pruning"

definition session_end :: "chat_actor option" where
  "session_end =
     do { a0 \<leftarrow> session_start; a \<leftarrow> run_commands some_env [BeginTurnCapture] a0; run_commands some_env session_commands a }"

lemma spawn_readable: "spawn_with_pruning items config pruning = Some a \<Longrightarrow> readable_history items \<Longrightarrow>
    readable_history (conversation_of a)"
  by (simp add: spawned repaired_readable)

lemma session_runs:
  obtains a0 a a' where
    "spawn_with_pruning [System ''You help.'', user ''fix the bug''] some_config default_pruning = Some a0"
    "run_commands some_env [BeginTurnCapture] a0 = Some a" "run_commands some_env session_commands a = Some a'"
    "session_end = Some a'"
proof -
  have "readable_history [System ''You help.'', user ''fix the bug'']" "list_all readable_command [BeginTurnCapture]"
    "list_all readable_command session_commands"
    by (simp_all add: session_commands_def readable_command_def pushed_def user_def user_meta_def synthetic_user_def
        assistant_tool_calls_def assistant_def assistant_calls_def)
  note readable = this
  obtain a0 where a0: "spawn_with_pruning [System ''You help.'', user ''fix the bug''] some_config default_pruning = Some a0"
    using spawn_returns[OF readable(1)] by blast
  obtain a where a: "run_commands some_env [BeginTurnCapture] a0 = Some a" "readable_history (conversation_of a)"
    using runs_return[OF spawn_readable[OF a0 readable(1)] readable(2)] by blast
  obtain a' where a': "run_commands some_env session_commands a = Some a'"
    using runs_return[OF a(2) readable(3)] by blast
  note * = a0 a(1) a'
  then have "session_end = Some a'" unfolding session_end_def session_start_def by (simp del: run_commands.simps)
  with * show ?thesis by (rule that)
qed

subsection \<open>What is taken at the end of a turn\<close>

text \<open>No command leaves the offset of a running capture past the end of the conversation, so the slice of the turn,
  whose violated assertion aborted sessions, is always in range.\<close>

theorem capture_offset_in_range:
  assumes "spawn_with_pruning items config pruning = Some a" "run_commands E cmds a = Some a'"
  shows "\<forall>cap. st_turn_capture (ac_state a') = Some cap \<longrightarrow> tc_turn_start_offset cap \<le> length (conversation_of a')"
  using offsets.run_keeps[of a cmds E a'] spawned[OF assms(1)] assms(2) by (auto simp: capture_ok_def list_all_iff)

text \<open>C27: The messages taken at the end of a turn are those captured before and every item pushed since, in order,
  through compactions, the repairs of dangling calls and duplicate results that pushes and requests make, swaps of
  the system message and restored snapshots. The commands in between are those that stay within the turn: not the
  start of another capture, its end or a rewind, no message pushed as the user's that is of another kind, and no
  repair of the history that is carried out, outside an active turn and not as a dry run; such a repair empties the
  conversation before it is captured, and loses the messages.\<close>

theorem turn_capture_is_complete:
  assumes "spawn_with_pruning items config pruning = Some a0" "run_commands E earlier a0 = Some a"
    "list_all within_turn cmds" "run_commands E cmds a = Some a'" "captured (ac_state a) = Some before"
  shows "captured (ac_state a') = Some (before @ concat (map pushed cmds))"
proof -
  have "capture_ok (ac_state a)"
    using capture_offset_in_range[OF assms(1,2)] by (simp add: capture_ok_def)
  then show ?thesis using assms(3,4,5)
  proof (induction cmds arbitrary: a before)
    case (Cons cmd cmds)
    from Cons.prems(3) obtain r b where b: "handle_command E cmd a = Some (r, b)" "run_commands E cmds b = Some a'"
      by (auto split: Option.bind_splits)
    with Cons.prems have "carries a (pushed cmd) b" by (intro step_carries) auto
    then show ?case using Cons.IH[of b "before @ pushed cmd"] Cons.prems b by (simp add: carries_def)
  qed simp
qed

theorem actor_never_panics_witness:
  "\<exists>a a'. spawn_with_pruning [System ''You help.''] some_config default_pruning = Some a
     \<and> run_commands some_env [PushUserMessage (user ''fix the bug''), IncrementPromptIndex, GetConversation] a = Some a'
     \<and> run_asserting some_env [PushUserMessage (user ''fix the bug''), IncrementPromptIndex, GetConversation] a = Some a'"
proof -
  let ?cmds = "[PushUserMessage (user ''fix the bug''), IncrementPromptIndex, GetConversation]"
  have "readable_history [System ''You help.'']" "list_all readable_command ?cmds"
    by (simp_all add: readable_command_def pushed_def user_def)
  from actor_never_panics[OF this, of some_config default_pruning some_env]
  obtain a a' where "spawn_with_pruning [System ''You help.''] some_config default_pruning = Some a"
    "run_commands some_env ?cmds a = Some a'"
    "run_asserting some_env ?cmds a = (if repair_in_capture some_env ?cmds a then None else Some a')"
    by blast
  moreover have "\<not> repair_in_capture some_env ?cmds a"
    by (simp add: repairs_captured_def split: option.split)
  ultimately show ?thesis by (simp only: if_False) blast
qed

text \<open>The exception: a late result whose call is gone, repaired between two turns.\<close>

definition late_repair :: "chat_state_command list" where
  "late_repair = [BeginTurnCapture, PushToolResult (tool_result ''c9'' ''late''), RepairHistory False None]"

lemma late_repair_ends_actor:
  "spawn_with_pruning [System ''You help.''] some_config default_pruning = Some a \<Longrightarrow>
     run_asserting E late_repair a = None"
proof -
  assume a: "spawn_with_pruning [System ''You help.''] some_config default_pruning = Some a"
  have "repaired [System ''You help.''] UserCancelled = [System ''You help.'']" by code_simp
  then have c: "conversation_of a = [System ''You help.'']" using spawned[OF a] by simp
  have r: "changed (snd (repair_history [System ''You help.'', tool_result ''c9'' ''late'']))" by code_simp
  obtain n where n: "estimate_item_tokens (tool_result ''c9'' ''late'') = Some n"
    using estimates_exist(1) by (auto simp: tool_result_def)
  show ?thesis
    by (simp add: late_repair_def command_asserts_def snapshot_asserts_def turn_tail_asserts_def handle_command_def
        is_query_def handle_mutation_def push_message_def count_tokens_def n c r append_item_def persist_message_def)
qed

theorem turn_capture_is_complete_witness:
  "\<exists>a'. session_end = Some a'
     \<and> captured (ac_state a') = Some ([] @ [assistant_tool_calls [call ''c1'' ''read_file''], user ''go on'', assistant ''Done.'',
                                       assistant ''Next.''])"
proof -
  obtain a0 a a' where *: "spawn_with_pruning [System ''You help.'', user ''fix the bug''] some_config default_pruning = Some a0"
    "run_commands some_env [BeginTurnCapture] a0 = Some a" "run_commands some_env session_commands a = Some a'"
    "session_end = Some a'"
    by (rule session_runs)
  have "list_all within_turn session_commands" by code_simp
  moreover have "captured (ac_state a) = Some []"
    using *(2) by (auto simp: handle_command_def is_query_def handle_mutation_def capture_defs)
  moreover have "concat (map pushed session_commands)
      = [assistant_tool_calls [call ''c1'' ''read_file''], user ''go on'', assistant ''Done.'', assistant ''Next.'']"
    by (simp add: session_commands_def pushed_def)
  ultimately show ?thesis using turn_capture_is_complete[OF *(1,2) _ *(3)] *(4) by auto
qed

end
