(* ===== verification/Chat_History.thy ===== *)
theory Chat_History
  imports Chat_Actor_Props
begin

section \<open>The history on disk, and the bills\<close>

text \<open>
  Two more invariants of the actor: replaying what it handed to persistence gives the conversation it holds, as
  long as no snapshot is restored, and the bill of the open prompt is part of the bill of the session, each of
  which adds up. Then the lemmas on what the code does beside that.
\<close>

subsection \<open>Replaying the log\<close>

fun replay_record :: "persistence_record \<Rightarrow> conversation \<Rightarrow> conversation" where
  "replay_record (Message item) items = items @ [item]"
| "replay_record (ReplaceHistory history) items = history"
| "replay_record Flushed items = items"

definition replay :: "persistence_record list \<Rightarrow> conversation \<Rightarrow> conversation" where
  "replay = fold replay_record"

lemma replay_append [simp]: "replay (log @ log') items = replay log' (replay log items)"
  by (simp add: replay_def)

lemma replay_simps [simp]: "replay [] items = items" "replay (r # log) items = replay log (replay_record r items)"
  by (simp_all add: replay_def)

text \<open>What a handler logs takes the conversation before it to the one after it.\<close>

definition logged :: "chat_actor \<Rightarrow> chat_actor \<Rightarrow> bool" where
  "logged a a' \<longleftrightarrow>
     (\<exists>log. ac_persisted a' = ac_persisted a @ log \<and> replay log (conversation_of a) = conversation_of a')"

lemma logged_same: "ac_persisted a' = ac_persisted a \<Longrightarrow> conversation_of a' = conversation_of a \<Longrightarrow> logged a a'"
  unfolding logged_def by (rule exI[of _ "[]"]) simp

lemma logged_refl [simp]: "logged a a"
  by (rule logged_same) simp_all

lemma logged_one: "ac_persisted a' = ac_persisted a @ [r] \<Longrightarrow> replay_record r (conversation_of a) = conversation_of a' \<Longrightarrow> logged a a'"
  unfolding logged_def by (rule exI[of _ "[r]"]) simp

lemma logged_trans: "logged a b \<Longrightarrow> logged b c \<Longrightarrow> logged a c"
  unfolding logged_def by (elim exE conjE, rename_tac l l', rule_tac x = "l @ l'" in exI) simp

subsection \<open>Every handler logs what it changes\<close>

lemma ensure_logged: "logged a (ensure_conversation_integrity_with_reason reason a)"
proof -
  obtain items1 d items2 r where passes: "dedup_duplicate_tool_results (conversation_of a) = (items1, d)"
    "repair_dangling_tool_calls items1 reason = (items2, r)"
    by (metis surj_pair)
  show ?thesis
  proof (cases "0 < r \<or> 0 < d")
    case True
    then show ?thesis using passes
      by (intro logged_one[of _ _ "ReplaceHistory items2"])
        (auto simp: ensure_conversation_integrity_with_reason_def Let_def replace_history_def snapshot_turn_slice_def
          rebase_turn_capture_offset_def)
  next
    case False
    then have "items2 = items1" "items1 = conversation_of a"
      using repair_reports[of items1 reason items2] dedup_reports[of "conversation_of a" items1] passes by simp_all
    then have "items2 = conversation_of a" by simp
    with False show ?thesis using passes
      by (intro logged_same)
        (auto simp: ensure_conversation_integrity_with_reason_def Let_def snapshot_turn_slice_def
          rebase_turn_capture_offset_def)
  qed
qed

lemma replace_logged:
  assumes "replace_conversation items is_compaction a = Some a'"
  shows "ac_persisted a' = ac_persisted a @ [ReplaceHistory items] \<and> conversation_of a' = items"
  using assms by (auto simp: replace_conversation_def Let_def send_event_def replace_history_def
      rebase_turn_capture_offset_def split: Option.bind_splits)

lemma replaced_logged: "replace_conversation items is_compaction a = Some a' \<Longrightarrow> logged a a'"
  by (drule replace_logged) (auto intro: logged_one)

lemma pruned_logged: "pruned_to a n a' \<Longrightarrow> logged a a'"
proof (erule pruned_toE)
  fix items counts last_clear
  assume items: "n = 0 \<Longrightarrow> items = conversation_of a"
    and st: "ac_state a' = (ac_state a)\<lparr>st_conversation := items, st_replay_prompt_fingerprints := counts,
                                        st_last_batch_clear_at := last_clear\<rparr>"
    and log: "ac_persisted a' = ac_persisted a @ (if n = 0 then [] else [ReplaceHistory items])"
  show ?thesis
  proof (cases "n = 0")
    case True
    then show ?thesis using items st log by (intro logged_same) auto
  next
    case False
    then show ?thesis using st log by (intro logged_one[of _ _ "ReplaceHistory items"]) auto
  qed
qed

lemma append_logged: "logged a (append_item item a)"
  by (rule logged_one[of _ _ "Message item"]) (auto simp: append_item_def persist_message_def)

lemma count_tokens_logged: "count_tokens item a = Some a' \<Longrightarrow> logged a a'"
  by (rule logged_same) (auto simp: count_tokens_def split: Option.bind_splits)

lemma push_logged: "push_message item a = Some a' \<Longrightarrow> logged a a'"
  by (auto simp: push_message_def split: Option.bind_splits if_splits
      intro: append_logged logged_trans[OF count_tokens_logged])

lemma push_user_logged: "push_user_message_with_repair_reason E item reason a = Some a' \<Longrightarrow> logged a a'"
proof -
  assume "push_user_message_with_repair_reason E item reason a = Some a'"
  then obtain b n where b: "count_tokens item (ensure_conversation_integrity_with_reason reason a) = Some b"
    and pruned: "prune_retained_conversation E (append_item item b) = Some (n, a')"
    by (auto simp: push_user_message_with_repair_reason_def split: Option.bind_splits)
  show ?thesis
    by (rule logged_trans[OF ensure_logged logged_trans[OF count_tokens_logged[OF b]
            logged_trans[OF append_logged pruned_logged[OF prune_retained_pruned[OF pruned]]]]])
qed

lemma injected_same: "inject_memory_reminder items reminder = (items', False) \<Longrightarrow> items' = items"
  by (auto simp: inject_memory_reminder_def Let_def split: if_splits)

lemma reminder_logged: "logged a (snd (persisted_reminder reminder persist a))"
proof (cases "\<exists>r. reminder = Some r \<and> persist")
  case True
  then obtain r where r: "reminder = Some r" "persist" by blast
  obtain items injected where inject: "inject_memory_reminder (conversation_of a) r = (items, injected)" by (metis surj_pair)
  show ?thesis
  proof (cases injected)
    case True
    then show ?thesis using r inject
      by (intro logged_one[of _ _ "ReplaceHistory items"])
        (auto simp: persisted_reminder_def Let_def replace_history_def snapshot_turn_slice_def rebase_turn_capture_offset_def)
  next
    case False
    then show ?thesis using r inject injected_same[of "conversation_of a" r items]
      by (intro logged_same)
        (auto simp: persisted_reminder_def Let_def snapshot_turn_slice_def rebase_turn_capture_offset_def)
  qed
next
  case False
  then show ?thesis by (cases reminder) (auto simp: persisted_reminder_def)
qed

lemma build_logged: "logged a (snd (build_conversation_request E tools reminder persist trace c q a))"
  by (rule logged_trans[OF reminder_logged[of a reminder persist]], rule logged_same)
    (auto simp: build_conversation_request_def case_prod_beta Let_def send_event_def)

lemma built_logged:
  "apfst RequestReply (build_conversation_request E tools reminder persist trace c q
      (ensure_conversation_integrity_with_reason reason a)) = (r, a') \<Longrightarrow> logged a a'"
proof -
  assume "apfst RequestReply (build_conversation_request E tools reminder persist trace c q
      (ensure_conversation_integrity_with_reason reason a)) = (r, a')"
  then have "a' = snd (build_conversation_request E tools reminder persist trace c q
      (ensure_conversation_integrity_with_reason reason a))"
    by (metis snd_apfst snd_conv)
  then show ?thesis using logged_trans[OF ensure_logged build_logged] by simp
qed

lemma truncate_logged: "truncate_to_prompt_index target a = Some a' \<Longrightarrow> logged a a'"
proof (cases "st_prompt_index (ac_state a) \<le> target")
  case False
  assume "truncate_to_prompt_index target a = Some a'"
  with False show ?thesis
    by (intro logged_one[of _ _ "ReplaceHistory (conversation_of a')"])
      (auto simp: truncate_to_prompt_index_def Let_def send_event_def replace_history_def split: Option.bind_splits)
qed (simp add: truncate_to_prompt_index_def)

lemma actor_repair_logged: "actor_repair_history dry_run a = Some (report, a') \<Longrightarrow> logged a a'"
proof -
  assume "actor_repair_history dry_run a = Some (report, a')"
  moreover obtain items rep where rep: "repair_history (conversation_of a) = (items, rep)" by (metis surj_pair)
  ultimately have "a' = a \<or> (\<exists>b. replace_conversation items False b = Some a' \<and> ac_persisted b = ac_persisted a)"
    using repair_history_reports[OF rep] by (auto simp: actor_repair_history_def split: if_splits)
  then show ?thesis
    by (elim disjE exE conjE) (auto dest!: replace_logged intro: logged_one)
qed

fun restores :: "chat_state_command \<Rightarrow> bool" where
  "restores (RestoreSnapshot snap) = True"
| "restores _ = False"

lemma usage_conversation [simp]: "st_conversation (record_model_call_usage m u d c st) = st_conversation st"
  "st_conversation (record_subagent_usage b p i st) = st_conversation st"
  "st_conversation (mark_usage_incomplete p q st) = st_conversation st"
  "st_conversation (seal_harness_trace_turn st) = st_conversation st"
  by (rule usage_keeps_turn)+

lemma truncated_logged: "truncate_to_prompt_index target a = Some b \<Longrightarrow> ac_persisted a' = ac_persisted b \<Longrightarrow>
  conversation_of a' = conversation_of b \<Longrightarrow> logged a a'"
  by (rule logged_trans[OF truncate_logged]) (auto intro: logged_same)

lemma head_logged: "replace_system_head prompt a = Some (r, a') \<Longrightarrow> logged a a'"
  by (auto simp: replace_system_head_def dest: replaced_logged split: prod.splits if_splits)

lemma flush_logged: "logged a (a\<lparr>ac_persisted := ac_persisted a @ [Flushed]\<rparr>)"
  by (rule logged_one) auto

lemma step_logged:
  assumes "\<not> restores cmd" "handle_command E cmd a = Some (r, a')"
  shows "logged a a'"
proof (cases "is_query cmd")
  case True
  then show ?thesis using queries_change_nothing[OF True assms(2)] by simp
next
  case False
  with assms(2) have "handle_mutation E cmd a = Some (r, a')" by (simp add: handle_mutation)
  then show ?thesis using assms(1)
    by (cases cmd)
      (auto simp: handle_mutation_def push_user_message_def record_token_usage_def increment_prompt_index_def
        send_event_def repair_dangling_after_harness_halt_def Let_def ensure_conversation_integrity_def
        intro: logged_same push_logged push_user_logged replaced_logged head_logged ensure_logged built_logged
          truncated_logged actor_repair_logged flush_logged
        simp: flush_def split: Option.bind_splits prod.splits if_splits)
qed

definition on_disk :: "conversation \<Rightarrow> chat_actor \<Rightarrow> bool" where
  "on_disk start a \<longleftrightarrow> replay (ac_persisted a) start = conversation_of a"

lemma logged_on_disk: "logged a a' \<Longrightarrow> on_disk start a \<Longrightarrow> on_disk start a'"
  by (auto simp: logged_def on_disk_def)

interpretation disk: preserved "\<lambda>cmd. \<not> restores cmd" "on_disk start" for start
  by unfold_locales (blast intro: logged_on_disk step_logged)

text \<open>C28: The history on disk is the conversation: replaying what the actor handed to persistence from the conversation it
  was started with gives the one it holds, for every sequence of commands that restores no snapshot, when the
  conversation it was started with needed no repair.\<close>

theorem disk_mirrors_conversation:
  assumes "spawn_with_pruning items config pruning = Some a" "repaired items UserCancelled = items"
    "list_all (\<lambda>cmd. \<not> restores cmd) cmds" "run_commands E cmds a = Some a'"
  shows "replay (ac_persisted a') items = conversation_of a'"
proof -
  have "on_disk items a" using spawned[OF assms(1)] assms(2) by (simp add: on_disk_def)
  then show ?thesis using disk.run_keeps[OF _ assms(3,4)] by (simp add: on_disk_def)
qed

subsection \<open>The bills\<close>

definition bills_ok :: "chat_state \<Rightarrow> bool" where
  "bills_ok st \<longleftrightarrow>
     balanced (st_session_usage st)
     \<and> (\<forall>ledger. st_prompt_usage st = Some ledger \<longrightarrow> balanced ledger \<and> within ledger (st_session_usage st))"

lemma bills_cong:
  "st_prompt_usage st' \<in> {None, st_prompt_usage st} \<Longrightarrow> st_session_usage st' = st_session_usage st \<Longrightarrow> bills_ok st \<Longrightarrow> bills_ok st'"
  by (auto simp: bills_ok_def)

lemma prompt_ledger_ok: "bills_ok st \<Longrightarrow> balanced (prompt_ledger st) \<and> within (prompt_ledger st) (st_session_usage st)"
  by (auto simp: bills_ok_def prompt_ledger_def balanced_default within_default split: option.split)

lemma model_call_bills: "bills_ok st \<Longrightarrow> bills_ok (record_model_call_usage m usage d c st)"
  using prompt_ledger_ok[of st]
  by (auto simp: record_model_call_usage_def bills_ok_def Let_def intro!: balanced_main_loop within_main_loop)

lemma subagent_bills: "bills_ok st \<Longrightarrow> bills_ok (record_subagent_usage by_model attribute incomplete st)"
  using prompt_ledger_ok[of st]
  by (auto simp: record_subagent_usage_def bills_ok_def Let_def
      intro!: balanced_subagent within_subagent intro: within_subagent_right)

lemma incomplete_bills: "bills_ok st \<Longrightarrow> bills_ok (mark_usage_incomplete prompt session st)"
  using prompt_ledger_ok[of st]
  by (auto simp: mark_usage_incomplete_def bills_ok_def Let_def mark_incomplete_def)

text \<open>Every other handler leaves the session's bill and drops or leaves the prompt's.\<close>

definition same_bills :: "chat_state \<Rightarrow> chat_state \<Rightarrow> bool" where
  "same_bills st st' \<longleftrightarrow> st_prompt_usage st' = st_prompt_usage st \<and> st_session_usage st' = st_session_usage st"

lemma same_bills_trans: "same_bills a b \<Longrightarrow> same_bills b c \<Longrightarrow> same_bills a c"
  by (simp add: same_bills_def)

lemma same_bills_refl [simp]: "same_bills st st"
  by (simp add: same_bills_def)

lemma slice_bills [simp]:
  "st_prompt_usage (snapshot_turn_slice st) = st_prompt_usage st"
  "st_session_usage (snapshot_turn_slice st) = st_session_usage st"
  "st_prompt_usage (rebase_turn_capture_offset st) = st_prompt_usage st"
  "st_session_usage (rebase_turn_capture_offset st) = st_session_usage st"
  "st_prompt_usage (mark_compaction b st) = st_prompt_usage st"
  "st_session_usage (mark_compaction b st) = st_session_usage st"
  "st_prompt_usage (seal_harness_trace_turn st) = st_prompt_usage st"
  "st_session_usage (seal_harness_trace_turn st) = st_session_usage st"
  by (simp_all add: snapshot_turn_slice_def rebase_turn_capture_offset_def mark_compaction_def seal_harness_trace_turn_def)

lemma ensure_bills [simp]: "same_bills (ac_state a) (ac_state (ensure_conversation_integrity_with_reason reason a))"
  by (simp add: ensure_state same_bills_def)

lemma replace_bills: "replace_conversation items b a = Some a' \<Longrightarrow> same_bills (ac_state a) (ac_state a')"
  by (auto simp: replace_conversation_def Let_def send_event_def replace_history_def same_bills_def split: Option.bind_splits)

lemma pruned_bills: "pruned_to a n a' \<Longrightarrow> same_bills (ac_state a) (ac_state a')"
  by (erule pruned_toE) (simp add: same_bills_def)

lemma count_bills: "count_tokens item a = Some a' \<Longrightarrow> same_bills (ac_state a) (ac_state a')"
  by (auto simp: count_tokens_def same_bills_def split: Option.bind_splits)

lemma append_bills [simp]: "same_bills (ac_state a) (ac_state (append_item item a))"
  by (simp add: append_item_def persist_message_def same_bills_def)

lemma push_bills: "push_message item a = Some a' \<Longrightarrow> same_bills (ac_state a) (ac_state a')"
  by (auto simp: push_message_def split: Option.bind_splits if_splits intro: same_bills_trans[OF count_bills])

lemma push_user_bills:
  assumes "push_user_message_with_repair_reason E item reason a = Some a'"
  shows "same_bills (ac_state a) (ac_state a')"
proof -
  obtain b n where b: "count_tokens item (ensure_conversation_integrity_with_reason reason a) = Some b"
    and pruned: "prune_retained_conversation E (append_item item b) = Some (n, a')"
    using assms by (auto simp: push_user_message_with_repair_reason_def split: Option.bind_splits)
  show ?thesis
    by (rule same_bills_trans[OF ensure_bills same_bills_trans[OF count_bills[OF b]
            same_bills_trans[OF append_bills pruned_bills[OF prune_retained_pruned[OF pruned]]]]])
qed

lemma reminder_bills: "same_bills (ac_state a) (ac_state (snd (persisted_reminder reminder persist a)))"
  by (auto simp: persisted_reminder_def Let_def replace_history_def same_bills_def split: option.splits prod.splits if_splits)

lemma build_bills: "same_bills (ac_state a) (ac_state (snd (build_conversation_request E tools reminder persist trace c q a)))"
  using reminder_bills[of a reminder persist]
  by (auto simp: build_conversation_request_def Let_def send_event_def split: prod.splits)

lemma built_bills:
  assumes "apfst RequestReply (build_conversation_request E tools reminder persist trace c q
      (ensure_conversation_integrity_with_reason reason a)) = (r, a')"
  shows "same_bills (ac_state a) (ac_state a')"
  using same_bills_trans[OF ensure_bills build_bills] assms by (metis snd_apfst snd_conv)

lemma truncate_bills: "truncate_to_prompt_index target a = Some a' \<Longrightarrow> same_bills (ac_state a) (ac_state a')"
  by (auto simp: truncate_to_prompt_index_def Let_def send_event_def replace_history_def same_bills_def
      split: Option.bind_splits if_splits)

lemma repair_bills: "actor_repair_history dry_run a = Some (report, a') \<Longrightarrow> same_bills (ac_state a) (ac_state a')"
  by (auto simp: actor_repair_history_def same_bills_def dest!: replace_bills split: prod.splits if_splits)

lemma head_bills: "replace_system_head prompt a = Some (r, a') \<Longrightarrow> same_bills (ac_state a) (ac_state a')"
  by (auto simp: replace_system_head_def dest: replace_bills split: prod.splits if_splits)

lemma bills_same: "same_bills st st' \<Longrightarrow> bills_ok st \<Longrightarrow> bills_ok st'"
  by (auto simp: same_bills_def intro: bills_cong)

lemma restore_bills: "restore_snapshot snap st = Some st' \<Longrightarrow> bills_ok st \<Longrightarrow> bills_ok st'"
  by (auto simp: restore_snapshot_def Let_def split: Option.bind_splits intro!: bills_cong[of _ st])

lemma truncated_bills: "truncate_to_prompt_index target a = Some b \<Longrightarrow> bills_ok (ac_state a) \<Longrightarrow>
    bills_ok ((ac_state b)\<lparr>st_turn_capture := None, st_prompt_usage := None\<rparr>)"
  by (drule truncate_bills) (auto simp: same_bills_def bills_ok_def)

lemma step_bills:
  assumes "bills_ok (ac_state a)" "handle_command E cmd a = Some (r, a')"
  shows "bills_ok (ac_state a')"
proof (cases "is_query cmd")
  case True
  then show ?thesis using queries_change_nothing[OF True assms(2)] assms(1) by simp
next
  case False
  with assms(2) have "handle_mutation E cmd a = Some (r, a')" by (simp add: handle_mutation)
  then show ?thesis using assms(1)
    by (cases cmd)
      (auto simp: handle_mutation_def push_user_message_def record_token_usage_def increment_prompt_index_def
        send_event_def repair_dangling_after_harness_halt_def Let_def ensure_conversation_integrity_def
        model_call_bills subagent_bills incomplete_bills flush_def
        intro: restore_bills truncated_bills bills_same[OF push_bills] bills_same[OF push_user_bills]
          bills_same[OF replace_bills] bills_same[OF head_bills] bills_same[OF ensure_bills]
          bills_same[OF built_bills] bills_same[OF repair_bills] bills_cong[of _ "ac_state a"]
        split: Option.bind_splits prod.splits if_splits)
qed

interpretation bills: preserved "\<lambda>cmd. True" "\<lambda>a. bills_ok (ac_state a)"
  by unfold_locales (rule step_bills)

text \<open>C30: The bill of a session adds up, and the open prompt's is part of it: every total of tokens, calls, durations and
  calls without a cost is the sum over the models, cut off at 64 bits, and no total of the prompt exceeds the
  session's, whatever commands came, subagents that report later included.\<close>

theorem bills_add_up:
  assumes "spawn_with_pruning items config pruning = Some a" "run_commands E cmds a = Some a'"
  shows "balanced (st_session_usage (ac_state a'))
       \<and> (\<forall>ledger. st_prompt_usage (ac_state a') = Some ledger
            \<longrightarrow> balanced ledger \<and> within ledger (st_session_usage (ac_state a')))"
proof -
  have "bills_ok (ac_state a)" using spawned[OF assms(1)] by (simp add: bills_ok_def balanced_default)
  then show ?thesis using bills.run_keeps[OF _ _ assms(2)] by (simp add: bills_ok_def list_all_iff)
qed

theorem disk_mirrors_conversation_witness:
  "\<exists>a'. session_end = Some a' \<and> replay (ac_persisted a') [System ''You help.'', user ''fix the bug''] = conversation_of a'"
proof -
  obtain a0 a a' where *: "spawn_with_pruning [System ''You help.'', user ''fix the bug''] some_config default_pruning = Some a0"
    "run_commands some_env [BeginTurnCapture] a0 = Some a" "run_commands some_env session_commands a = Some a'"
    "session_end = Some a'"
    by (rule session_runs)
  have "run_commands some_env ([BeginTurnCapture] @ session_commands) a0 = Some a'"
    unfolding run_append using * by (simp del: run_commands.simps)
  moreover have "repaired [System ''You help.'', user ''fix the bug''] UserCancelled = [System ''You help.'', user ''fix the bug'']"
    by code_simp
  moreover have "list_all (\<lambda>cmd. \<not> restores cmd) ([BeginTurnCapture] @ session_commands)" by code_simp
  ultimately have "replay (ac_persisted a') [System ''You help.'', user ''fix the bug''] = conversation_of a'"
    using disk_mirrors_conversation[OF *(1)] by blast
  with *(4) show ?thesis by blast
qed

theorem bills_add_up_witness: "\<exists>a'. session_end = Some a' \<and> balanced (st_session_usage (ac_state a'))"
proof -
  obtain a0 a a' where *: "spawn_with_pruning [System ''You help.'', user ''fix the bug''] some_config default_pruning = Some a0"
    "run_commands some_env [BeginTurnCapture] a0 = Some a" "run_commands some_env session_commands a = Some a'"
    "session_end = Some a'"
    by (rule session_runs)
  have "run_commands some_env ([BeginTurnCapture] @ session_commands) a0 = Some a'"
    unfolding run_append using * by (simp del: run_commands.simps)
  from bills_add_up[OF *(1) this] *(4) show ?thesis by blast
qed

end
