(* ===== verification/Chat_Requests.thy ===== *)
theory Chat_Requests
  imports Chat_History
begin

section \<open>Requests and pruning\<close>

text \<open>
  What the model is sent: a request in which every tool call is answered, whatever state the conversation was in
  and whatever pruning, image eviction and the memory reminder did to the copy. Then which results pruning may
  clear, how often the batched mode clears, and what a compaction does to the count of tokens.
\<close>

subsection \<open>Every call answered\<close>

definition answered :: "str list \<Rightarrow> str list \<Rightarrow> bool" where
  "answered calls ids \<longleftrightarrow> set calls \<subseteq> set ids \<and> (distinct calls \<longrightarrow> distinct ids)"

text \<open>The results right behind an assistant message answer its calls, none twice if the calls have distinct
  identifiers.\<close>

fun settled :: "conversation \<Rightarrow> bool" where
  "settled [] = True"
| "settled (item # rest) =
     ((calls_of item \<noteq> [] \<longrightarrow> answered (map tc_id (calls_of item)) (answered_ids (result_run rest))) \<and> settled rest)"

lemma calls_of_opens: "opens_run item \<longleftrightarrow> calls_of item \<noteq> []"
  by (cases item) auto

lemma settled_results: "list_all is_tool_result results \<Longrightarrow> settled (results @ rest) = settled rest"
proof (induction results)
  case (Cons r results)
  then show ?case by (cases r) auto
qed simp

lemma settled_run [simp]:
  "ai_tool_calls a \<noteq> [] \<Longrightarrow> list_all is_tool_result results \<Longrightarrow> ends_run rest \<Longrightarrow>
   settled (Assistant a # results @ rest)
   \<longleftrightarrow> answered (map tc_id (ai_tool_calls a)) (answered_ids results) \<and> settled rest"
  by (simp add: run_split settled_results)

lemma settled_item: "\<not> opens_run item \<Longrightarrow> settled (item # rest) = settled rest"
  by (simp add: calls_of_opens)

declare settled.simps(2) [simp del]

lemma settled_map_runs:
  assumes "of_results g"
    "\<And>a results. list_all is_tool_result results \<Longrightarrow> answered (map tc_id (ai_tool_calls a)) (answered_ids (g a results))"
  shows "settled (map_runs g True items)"
proof (induction items rule: runs_induct)
  case (Run a results rest)
  then have "list_all is_tool_result (g a results)" using assms(1) by (simp add: of_results_def)
  with Run assms(2) show ?case by (simp add: map_runs_ends)
qed (simp_all add: settled_item)

lemma settled_repaired: "settled (repaired items reason)"
proof -
  have "repaired items reason = map_runs (\<lambda>a results. fill_run reason a (keep_last results)) True items"
    by (simp add: repaired_def dedup_is_keep_last repair_is_fill map_runs_map_runs[OF of_results_passes(1)])
  moreover have "settled (map_runs (\<lambda>a results. fill_run reason a (keep_last results)) True items)"
    by (rule settled_map_runs)
      (auto simp: of_results_def fill_run_def keep_last_results synthetic_are_results answered_def distinct_answers)
  ultimately show ?thesis by simp
qed

lemma settled_not_dangling: "settled items \<Longrightarrow> \<not> has_dangling_tool_calls items"
proof (induction items rule: runs_induct)
  case (Run a results rest)
  then have "synthetic_results (ai_tool_calls a) (answered_ids results) UserCancelled = []"
    by (auto simp: synthetic_empty_iff answered_def)
  with Run show ?case using has_dangling_run[OF Run(1-3), of UserCancelled] by simp
qed (simp_all add: settled_item)

text \<open>The calls and the result identifiers of an item decide.\<close>

definition shape :: "conversation_item \<Rightarrow> str list \<times> str option" where
  "shape item = (map tc_id (calls_of item), result_id item)"

lemma run_ids_shape: "map shape xs = map shape ys \<Longrightarrow> answered_ids (result_run xs) = answered_ids (result_run ys)"
proof (induction xs arbitrary: ys)
  case (Cons x xs)
  then obtain y ys' where ys: "ys = y # ys'" "shape x = shape y" "map shape xs = map shape ys'" by auto
  then have "is_tool_result x = is_tool_result y" "result_id x = result_id y"
    by (cases x; cases y; simp add: shape_def)+
  with Cons.IH[OF ys(3)] ys(1) show ?case
    by (cases x; cases y) (auto simp: result_run_def)
qed simp

lemma settled_shape: "map shape xs = map shape ys \<Longrightarrow> settled xs = settled ys"
proof (induction xs arbitrary: ys)
  case (Cons x xs)
  then obtain y ys' where ys: "ys = y # ys'" "shape x = shape y" "map shape xs = map shape ys'" by auto
  then have "map tc_id (calls_of x) = map tc_id (calls_of y)" by (simp add: shape_def)
  with Cons.IH[OF ys(3)] run_ids_shape[OF ys(3)] ys(1) show ?case
    by (auto simp: settled.simps(2))
qed simp

lemma prune_back_shape: "(\<And>n t. ti_tool_call_id (f n t) = ti_tool_call_id t) \<Longrightarrow>
    map shape (prune_back f turn seen items) = map shape items"
  by (induction f turn seen items rule: prune_back.induct) (auto simp: shape_def)

lemma prune_shape: "map shape (prune_conversation config items) = map shape items"
  using prune_back_shape[of "prune_result config p" 0 False "rev items" for p]
  by (auto simp: prune_conversation_def Let_def rev_map[symmetric] prune_result_def rev_swap)

lemma evict_images_shape: "map shape (fst (evict_images target p running n items)) = map shape items"
  by (induction target p running n items rule: evict_images.induct) (auto simp: shape_def split: prod.splits)

lemma compact_images_shape: "map shape (fst (compact_images_to_byte_budget E items now target)) = map shape items"
  using evict_images_shape by (auto simp: compact_images_to_byte_budget_def Let_def case_prod_beta)

abbreviation beyond_system :: "conversation \<Rightarrow> (str list \<times> str option) list" where
  "beyond_system items \<equiv> map shape (filter (\<lambda>i. \<not> is_system i) items)"

lemma shape_system: "map is_system xs = map is_system ys \<Longrightarrow> map shape xs = map shape ys \<Longrightarrow> beyond_system xs = beyond_system ys"
proof (induction xs arbitrary: ys)
  case (Cons x xs)
  then show ?case by (cases ys) auto
qed simp

lemma upsert_settled: "settled (upsert_head reminder items) = settled items
    \<and> beyond_system (upsert_head reminder items) = beyond_system items"
  by (induction reminder items rule: upsert_head.induct) (auto simp: settled_item)

lemma inject_settled: "settled (fst (inject_memory_reminder items reminder)) = settled items
    \<and> beyond_system (fst (inject_memory_reminder items reminder)) = beyond_system items"
  using upsert_settled by (auto simp: inject_memory_reminder_def Let_def)

lemma prune_back_system: "map is_system (prune_back f turn seen items) = map is_system items"
  by (induction f turn seen items rule: prune_back.induct) auto

lemma prune_system: "map is_system (prune_conversation config items) = map is_system items"
  using prune_back_system[of f 0 False "rev items" for f]
  by (auto simp: prune_conversation_def Let_def rev_map[symmetric] rev_swap)

lemma evict_images_system: "map is_system (fst (evict_images target p running n items)) = map is_system items"
  by (induction target p running n items rule: evict_images.induct) (auto split: prod.splits)

lemma compact_images_system: "map is_system (fst (compact_images_to_byte_budget E items now target)) = map is_system items"
  using evict_images_system by (auto simp: compact_images_to_byte_budget_def Let_def case_prod_beta)

definition same_items :: "conversation \<Rightarrow> conversation \<Rightarrow> bool" where
  "same_items xs ys \<longleftrightarrow> settled xs = settled ys \<and> beyond_system xs = beyond_system ys"

lemma same_items_refl [simp]: "same_items xs xs"
  by (simp add: same_items_def)

lemma same_items_trans: "same_items xs ys \<Longrightarrow> same_items ys zs \<Longrightarrow> same_items xs zs"
  by (simp add: same_items_def)

lemma same_items_shape: "map is_system xs = map is_system ys \<Longrightarrow> map shape xs = map shape ys \<Longrightarrow> same_items xs ys"
  unfolding same_items_def using settled_shape shape_system by blast

lemma passes_keep_items:
  "same_items (prune_conversation config items) items"
  "same_items (fst (compact_images_to_byte_budget E items now target)) items"
  "same_items (fst (inject_memory_reminder items reminder)) items"
  by (rule same_items_shape[OF prune_system prune_shape],
      rule same_items_shape[OF compact_images_system compact_images_shape], simp add: same_items_def inject_settled)

lemma request_items_same: "same_items (fst (request_items E config needs_prune reminder items)) items"
proof -
  let ?evicted = "if IMAGE_COMPACT_TRIGGER_BYTES \<le> conversation_body_bytes E items
    then fst (compact_images_to_byte_budget E items (conversation_body_bytes E items) IMAGE_COMPACT_RECLAIM_TARGET_BYTES)
    else items"
  let ?cut = "if needs_prune then prune_conversation config ?evicted else ?evicted"
  have "fst (request_items E config needs_prune reminder items)
      = (case reminder of Some r \<Rightarrow> fst (inject_memory_reminder ?cut r) | None \<Rightarrow> ?cut)"
    by (simp add: request_items_def Let_def case_prod_beta map_prod_def split: option.split)
  moreover have "same_items ?evicted items" by (simp add: passes_keep_items)
  then have "same_items ?cut items" by (auto intro: same_items_trans passes_keep_items)
  ultimately show ?thesis by (auto intro: same_items_trans passes_keep_items split: option.split)
qed

lemma reminder_same: "same_items (conversation_of (snd (persisted_reminder reminder persist a))) (conversation_of a)"
proof -
  have "conversation_of (snd (persisted_reminder reminder persist a))
      = (case reminder of Some r \<Rightarrow> if persist then fst (inject_memory_reminder (conversation_of a) r) else conversation_of a
         | None \<Rightarrow> conversation_of a)"
    by (simp add: persisted_reminder_def Let_def case_prod_beta replace_history_def rebase_turn_capture_offset_def
        snapshot_turn_slice_def split: option.split)
  then show ?thesis by (simp add: passes_keep_items split: option.split)
qed

lemma build_same:
  "same_items (rq_items (fst (build_conversation_request E tools reminder persist trace c q a))) (conversation_of a)
   \<and> same_items (rq_items (fst (build_conversation_request E tools reminder persist trace c q a)))
       (conversation_of (snd (build_conversation_request E tools reminder persist trace c q a)))"
proof -
  obtain reminder' b where b: "persisted_reminder reminder persist a = (reminder', b)" by (metis surj_pair)
  let ?prune = "should_prune (st_total_tokens (ac_state a)) (sc_context_window (st_sampling_config (ac_state a)))"
  have "rq_items (fst (build_conversation_request E tools reminder persist trace c q a))
      = fst (request_items E (ac_pruning_config b) ?prune reminder' (conversation_of b))"
    "conversation_of (snd (build_conversation_request E tools reminder persist trace c q a)) = conversation_of b"
    by (simp_all add: build_conversation_request_def b Let_def case_prod_beta send_event_def)
  then show ?thesis using request_items_same reminder_same[of reminder persist a] b same_items_trans by fastforce
qed

text \<open>C26: No request leaves a tool call without a result, or with two: in whatever state the conversation is when a request
  is asked for, every call of an assistant message in the request has its result right behind it. And the request
  holds the items of the conversation the actor then has: beyond the system message, the same calls and the same
  results in the same order, whatever was pruned, evicted or put in.\<close>

theorem requests_are_settled:
  "settled (rq_items (fst (build_conversation_request E tools reminder persist trace c q (ensure_conversation_integrity a))))
   \<and> \<not> has_dangling_tool_calls
        (rq_items (fst (build_conversation_request E tools reminder persist trace c q (ensure_conversation_integrity a))))
   \<and> beyond_system (rq_items (fst (build_conversation_request E tools reminder persist trace c q (ensure_conversation_integrity a))))
     = beyond_system (conversation_of (snd (build_conversation_request E tools reminder persist trace c q
                        (ensure_conversation_integrity a))))"
proof -
  let ?a = "ensure_conversation_integrity a"
  have "settled (conversation_of ?a)"
    by (simp add: ensure_conversation_integrity_def ensure_state rebase_turn_capture_offset_def settled_repaired)
  then have "settled (rq_items (fst (build_conversation_request E tools reminder persist trace c q ?a)))"
    using build_same[of E tools reminder persist trace c q ?a] by (simp add: same_items_def)
  then show ?thesis
    using build_same[of E tools reminder persist trace c q ?a] settled_not_dangling by (auto simp: same_items_def)
qed

subsection \<open>What pruning may clear\<close>

text \<open>The count of turns when a scan from the end reaches an item.\<close>

definition turns_at :: "nat \<Rightarrow> bool \<Rightarrow> conversation \<Rightarrow> nat" where
  "turns_at turn seen passed =
     (let users = length (filter is_user passed) in if seen then turn + users else turn + (users - 1))"

lemma turns_at_simps [simp]:
  "turns_at turn seen [] = turn"
  "turns_at turn seen (User u # passed) = turns_at (if seen then turn + 1 else turn) True passed"
  "\<not> is_user item \<Longrightarrow> turns_at turn seen (item # passed) = turns_at turn seen passed"
  by (auto simp: turns_at_def Let_def)

lemma clear_back_old:
  "clear_back threshold turn seen items = (items', n) \<Longrightarrow> k < length items \<Longrightarrow> items' ! k \<noteq> items ! k
   \<Longrightarrow> threshold \<le> turns_at turn seen (take k items)"
  by (induction threshold turn seen items arbitrary: items' n k rule: clear_back.induct)
    (auto simp: nth_Cons take_Cons split: prod.splits nat.splits if_splits)

lemma batch_back_old:
  "batch_back E config calls summaries threshold turn seen counts items = (items', n, counts') \<Longrightarrow> k < length items
   \<Longrightarrow> items' ! k \<noteq> items ! k \<Longrightarrow> threshold \<le> turns_at turn seen (take k items)"
  by (induction E config calls summaries threshold turn seen counts items arbitrary: items' n counts' k
      rule: batch_back.induct)
    (auto simp: nth_Cons take_Cons summarised_reasoning_def batch_cleared_result_def Let_def
      split: prod.splits nat.splits if_splits option.splits)

lemma prune_retained_old:
  assumes "prune_retained_conversation E a = Some (n, a')" "i < length (conversation_of a)"
    "conversation_of a' ! i \<noteq> conversation_of a ! i"
  shows "effective_threshold a \<le> turns_at 0 False (rev (drop (i + 1) (conversation_of a)))"
proof -
  let ?c = "conversation_of a" and ?k = "length (conversation_of a) - 1 - i"
  have take: "take ?k (rev ?c) = rev (drop (i + 1) ?c)" using assms(2) by (simp add: take_rev)
  have nth: "rev ?c ! ?k = ?c ! i" "?k < length (rev ?c)" using assms(2) by (simp_all add: rev_nth)
  have old: "effective_threshold a \<le> turns_at 0 False (rev (drop (i + 1) ?c))"
    if "(\<exists>n. clear_back (effective_threshold a) 0 False (rev ?c) = (items, n))
        \<or> (\<exists>config calls summaries counts n counts'. batch_back E config calls summaries (effective_threshold a) 0 False
              counts (rev ?c) = (items, n, counts'))"
      "conversation_of a' = rev items" "length items = length ?c" for items
  proof -
    have "items ! ?k = conversation_of a' ! i" using that(2,3) assms(2) by (simp add: rev_nth)
    then have "items ! ?k \<noteq> rev ?c ! ?k" using nth assms(3) by simp
    with that(1) clear_back_old[OF _ nth(2)] batch_back_old[OF _ nth(2)] show ?thesis unfolding take by blast
  qed
  show ?thesis
  proof (cases "conversation_of a' = ?c")
    case True
    then show ?thesis using assms(3) by simp
  next
    case False
    then show ?thesis
    proof (cases "batched_mode (ac_pruning_config a)")
      case True
      with False assms(1) have batch: "batch_clear E a = Some (n, a')"
        by (auto simp: prune_retained_conversation_def prune_retained_batched_def Let_def split: if_splits)
      obtain items m counts where scan: "batch_back E (ac_pruning_config a) (tool_call_by_id ?c)
          (st_reasoning_summaries (ac_state a)) (effective_threshold a) 0 False
          (st_replay_prompt_fingerprints (ac_state a)) (rev ?c) = (items, m, counts)"
        by (metis surj_pair)
      have "conversation_of a' = rev items"
        using batch scan by (auto simp: batch_clear_def Let_def replace_history_def split: Option.bind_splits if_splits)
      moreover have "length items = length ?c" using batch_back_pruned[OF scan] by (auto dest: list_all2_lengthD)
      ultimately show ?thesis using old[of items] scan by blast
    next
      case per_turn: False
      obtain items m where scan: "clear_back (effective_threshold a) 0 False (rev ?c) = (items, m)" by (metis surj_pair)
      have "conversation_of a' = rev items"
        using False per_turn assms(1) scan
        by (auto simp: prune_retained_conversation_def Let_def replace_history_def split: Option.bind_splits if_splits)
      moreover have "length items = length ?c" using clear_back_pruned[OF scan] by (auto dest: list_all2_lengthD)
      ultimately show ?thesis using old[of items] scan by blast
    qed
  qed
qed

lemma filter_length_mono: "(\<And>x. P x \<Longrightarrow> Q x) \<Longrightarrow> length (filter P xs) \<le> length (filter Q xs)"
  by (induction xs) (auto simp: le_SucI)

text \<open>C29: A result is not cleared before its time: where the configured number of turns is at least one, an item that
  pruning rewrites has more real user messages behind it than that number, whatever user items the session itself
  put in between, as long as no more turns were counted than there are real user messages (and the number and the
  length of the conversation together stay within 64 bits). Which user items are real is left open. With the
  number 0, which a user can set, results behind the last message can be cleared too.\<close>

theorem pruning_spares_recent_turns:
  assumes "prune_retained_conversation E a = Some (n, a')" "i < length (conversation_of a)"
    "conversation_of a' ! i \<noteq> conversation_of a ! i"
    "\<And>item. real item \<Longrightarrow> is_user item" "st_prompt_index (ac_state a) \<le> length (filter real (conversation_of a))"
    "0 < pc_hard_clear_age_turns (ac_pruning_config a)"
    "pc_hard_clear_age_turns (ac_pruning_config a) + length (conversation_of a) \<le> U64_MAX"
  shows "pc_hard_clear_age_turns (ac_pruning_config a) < length (filter real (drop (i + 1) (conversation_of a)))"
proof -
  let ?c = "conversation_of a" and ?age = "pc_hard_clear_age_turns (ac_pruning_config a)"
  let ?users = "\<lambda>items. length (filter is_user items)" and ?reals = "\<lambda>items. length (filter real items)"
  have "effective_threshold a = ?age + (?users ?c - st_prompt_index (ac_state a))"
  proof -
    have "?age + (?users ?c - st_prompt_index (ac_state a)) \<le> U64_MAX"
      using assms(7) length_filter_le[of is_user ?c] by linarith
    then show ?thesis by (simp add: effective_threshold_def Let_def saturating_defs min_absorb1)
  qed
  then have "?age + (?users ?c - st_prompt_index (ac_state a)) \<le> ?users (drop (i + 1) ?c) - 1"
    using prune_retained_old[OF assms(1-3)] by (simp add: turns_at_def flip: rev_filter)
  moreover have split: "length (filter P ?c) = length (filter P (take (i + 1) ?c)) + length (filter P (drop (i + 1) ?c))" for P
    by (metis append_take_drop_id filter_append length_append)
  moreover have "?reals (take (i + 1) ?c) \<le> ?users (take (i + 1) ?c)"
    using assms(4) by (rule filter_length_mono)
  ultimately show ?thesis using assms(5,6) split[of real] split[of is_user] by linarith
qed

subsection \<open>How often the batched mode clears\<close>

text \<open>The line utilisation must fall under before another batch may be cleared.\<close>

definition below_reclaim_line :: "chat_actor \<Rightarrow> bool" where
  "below_reclaim_line a \<longleftrightarrow>
     context_utilization_percent (st_total_tokens (ac_state a)) (sc_context_window (st_sampling_config (ac_state a)))
     < effective_low_watermark_percent (ac_pruning_config a) - LOW_WATERMARK_RECLAIM_MARGIN_PERCENT"

definition same_line :: "chat_actor \<Rightarrow> chat_actor \<Rightarrow> bool" where
  "same_line a b \<longleftrightarrow> below_reclaim_line b = below_reclaim_line a
     \<and> st_last_batch_clear_at (ac_state b) = st_last_batch_clear_at (ac_state a)
     \<and> batched_mode (ac_pruning_config b) = batched_mode (ac_pruning_config a)"

lemma pushing_keeps_line:
  "same_line a (ensure_conversation_integrity_with_reason reason a)"
  "count_tokens item a = Some b \<Longrightarrow> same_line a b"
  "same_line a (append_item item a)"
proof -
  show "same_line a (ensure_conversation_integrity_with_reason reason a)"
    by (simp add: same_line_def below_reclaim_line_def ensure_conversation_integrity_with_reason_def Let_def case_prod_beta
        replace_history_def rebase_turn_capture_offset_def snapshot_turn_slice_def)
  show "count_tokens item a = Some b \<Longrightarrow> same_line a b"
    by (auto simp: same_line_def below_reclaim_line_def count_tokens_def split: Option.bind_splits)
  show "same_line a (append_item item a)"
    by (simp add: same_line_def below_reclaim_line_def append_item_def persist_message_def)
qed

lemma same_line_trans: "same_line a b \<Longrightarrow> same_line b c \<Longrightarrow> same_line a c"
  by (simp add: same_line_def)

text \<open>While a batch was cleared and utilisation has stayed above that line, a user message is appended and nothing else of
  the conversation is rewritten.\<close>

theorem one_batch_per_crossing:
  assumes "batched_mode (ac_pruning_config a)" "st_last_batch_clear_at (ac_state a) \<noteq> None" "\<not> below_reclaim_line a"
    "push_user_message_with_repair_reason E item reason a = Some a'"
  shows "conversation_of a' = repaired (conversation_of a) reason @ [item]
       \<and> st_last_batch_clear_at (ac_state a') = st_last_batch_clear_at (ac_state a)"
proof -
  let ?a1 = "ensure_conversation_integrity_with_reason reason a"
  obtain b n where b: "count_tokens item ?a1 = Some b"
    and prune: "prune_retained_conversation E (append_item item b) = Some (n, a')"
    using assms(4) by (auto simp: push_user_message_with_repair_reason_def split: Option.bind_splits)
  have line: "same_line a (append_item item b)"
    using pushing_keeps_line(1)[of a reason] pushing_keeps_line(2)[OF b] pushing_keeps_line(3)[of b item] same_line_trans by blast
  then have "a' = append_item item b"
    using prune assms(1-3)
    by (auto simp: prune_retained_conversation_def prune_retained_batched_def Let_def same_line_def below_reclaim_line_def
        split: if_splits)
  moreover have "conversation_of b = repaired (conversation_of a) reason"
    using b by (auto simp: count_tokens_def ensure_state rebase_turn_capture_offset_def split: Option.bind_splits)
  ultimately show ?thesis using line by (simp add: append_item_def persist_message_def same_line_def)
qed

subsection \<open>Compaction and the count of tokens\<close>

text \<open>A compaction never makes the session look fuller: the count of tokens does not grow, and if a compaction is due
  after it, it was due before.\<close>

theorem compaction_never_raises_usage:
  assumes "replace_conversation items True a = Some a'" "0 < st_total_tokens (ac_state a)"
  shows "st_total_tokens (ac_state a') \<le> st_total_tokens (ac_state a)
       \<and> st_estimated_tokens_since_model (ac_state a') = 0
       \<and> (check_auto_compact_needed (ac_state a') p = None \<or> check_auto_compact_needed (ac_state a) p \<noteq> None)"
proof -
  have total: "st_total_tokens (ac_state a') \<le> st_total_tokens (ac_state a)"
    using assms
    by (auto simp: replace_conversation_def Let_def send_event_def replace_history_def rebase_turn_capture_offset_def
        replaced_total_def mark_compaction_def snapshot_turn_slice_def split: Option.bind_splits)
  moreover have "st_estimated_tokens_since_model (ac_state a') = 0"
    "sc_context_window (st_sampling_config (ac_state a')) = sc_context_window (st_sampling_config (ac_state a))"
    using assms(1)
    by (auto simp: replace_conversation_def Let_def send_event_def replace_history_def rebase_turn_capture_offset_def
        mark_compaction_def snapshot_turn_slice_def split: Option.bind_splits)
  moreover have "exceeds_threshold u w p \<Longrightarrow> u \<le> u' \<Longrightarrow> exceeds_threshold u' w p" for u u' w
    by (auto simp: exceeds_threshold_def saturating_defs)
  ultimately show ?thesis by (auto simp: check_auto_compact_needed_def Let_def)
qed

theorem compaction_never_raises_usage_witness:
  "\<exists>a a'. replace_conversation [System ''You help.''] True a = Some a' \<and> 0 < st_total_tokens (ac_state a)
     \<and> st_total_tokens (ac_state a') \<le> st_total_tokens (ac_state a)"
proof -
  have readable: "readable_history [System ''You help.'', user ''fix the bug'']" by (simp add: user_def)
  then obtain a where a: "spawn_with_pruning [System ''You help.'', user ''fix the bug''] some_config default_pruning = Some a"
    using spawn_returns by blast
  let ?a = "on_state (\<lambda>st. st\<lparr>st_total_tokens := 800\<rparr>) a"
  have "returns (replace_conversation [System ''You help.''] True ?a)" by (rule replace_returns) simp
  then obtain a' where a': "replace_conversation [System ''You help.''] True ?a = Some a'" by (auto simp: returns_def)
  have "0 < st_total_tokens (ac_state ?a)" by simp
  with compaction_never_raises_usage[OF a' this, of 80] a' show ?thesis by blast
qed

subsection \<open>Sessions that show it\<close>

text \<open>A state with the pruning limits and the conversation given, for examples.\<close>

definition actor_with :: "pruning_config \<Rightarrow> nat \<Rightarrow> conversation \<Rightarrow> chat_actor" where
  "actor_with pruning prompt_index items =
     \<lparr>ac_state =
        \<lparr>st_conversation = items, st_sampling_config = some_config, st_prompt_index = prompt_index, st_prompt_texts = [],
         st_total_tokens = 0, st_stream_start_ms = None, st_turn_start_ms = None, st_agent_edited_paths = {},
         st_last_compaction_prompt_index = None, st_credentials = default_credentials,
         st_estimated_tokens_since_model = 0, st_estimate_at_last_response = 0, st_last_turn_usage = None,
         st_prompt_usage = None, st_session_usage = default_ledger, st_turn_capture = None,
         st_harness_trace_buffer = [], st_harness_trace_turns = [], st_last_batch_clear_at = None,
         st_replay_prompt_fingerprints = Map.empty, st_reasoning_summaries = Map.empty\<rparr>,
      ac_pruning_config = pruning, ac_persisted = [], ac_events = []\<rparr>"

definition old_result :: conversation where
  "old_result =
     [user ''q1'', assistant_tool_calls [call ''c1'' ''read_file''], tool_result ''c1'' ''fn main'', user ''q2'',
      system_reminder ''budget'', user ''q3'', user ''q4'']"

lemmas example_defs =
  actor_with_def old_result_def user_def system_reminder_def synthetic_user_def assistant_tool_calls_def
  assistant_calls_def tool_result_def call_def default_pruning_def

lemma old_result_cleared:
  "prune_retained_conversation some_env (actor_with (default_pruning\<lparr>pc_hard_clear_age_turns := 2\<rparr>) 4 old_result)
   = Some (1, (actor_with (default_pruning\<lparr>pc_hard_clear_age_turns := 2\<rparr>) 4 old_result)
       \<lparr>ac_state := (ac_state (actor_with (default_pruning\<lparr>pc_hard_clear_age_turns := 2\<rparr>) 4 old_result))
          \<lparr>st_conversation := old_result[2 := tool_result ''c1'' HARD_CLEAR_PLACEHOLDER]\<rparr>,
        ac_persisted := [ReplaceHistory (old_result[2 := tool_result ''c1'' HARD_CLEAR_PLACEHOLDER])]\<rparr>)"
  by (simp add: example_defs prune_retained_conversation_def batched_mode_def effective_threshold_def saturating_defs
      U64_MAX_def content_bytes_def is_hard_cleared_def HARD_CLEAR_PREFIX_def hard_clear_replacement_def
      pointer_preserving_replacement_def OUTPUT_POINTER_MARKER_def replace_history_def)

theorem pruning_spares_recent_turns_witness:
  "2 < length (filter (\<lambda>item. is_user item \<and> item \<noteq> system_reminder ''budget'') (drop (2 + 1) old_result))"
proof -
  let ?a = "actor_with (default_pruning\<lparr>pc_hard_clear_age_turns := 2\<rparr>) 4 old_result"
  have "tool_result ''c1'' HARD_CLEAR_PLACEHOLDER \<noteq> tool_result ''c1'' ''fn main''"
    by (simp add: tool_result_def HARD_CLEAR_PLACEHOLDER_def)
  then have "pc_hard_clear_age_turns (ac_pruning_config ?a)
      < length (filter (\<lambda>item. is_user item \<and> item \<noteq> system_reminder ''budget'') (drop (2 + 1) (conversation_of ?a)))"
    by (intro pruning_spares_recent_turns[OF old_result_cleared])
      (simp_all add: actor_with_def, simp_all add: example_defs U64_MAX_def)
  then show ?thesis by (simp add: actor_with_def)
qed

subsection \<open>What the code does beside its comments\<close>

text \<open>A repair takes the conversation out of the state before it is replaced, so the running capture finds no tail: the
  messages of the turn since the last replacement are lost, which the comment on the swap of the system message
  says must not happen.\<close>

lemma repair_loses_turn_messages:
  assumes "actor_repair_history False a = Some (report, a')" "changed report" "st_turn_capture (ac_state a) = Some cap"
  shows "captured (ac_state a') = Some (tc_pre_replacement_messages cap)"
proof -
  obtain items where rep: "repair_history (conversation_of a) = (items, report)"
    and replace: "replace_conversation items False (on_state (\<lambda>st. st\<lparr>st_conversation := []\<rparr>) a) = Some a'"
    using assms(1,2) by (auto simp: actor_repair_history_def split: prod.splits if_splits)
  have "captured (ac_state a') = captured ((ac_state a)\<lparr>st_conversation := []\<rparr>)"
    using replace_carries[OF replace] by (simp add: carries_def option.map_ident)
  then show ?thesis using assms(3) by (simp add: capture_defs)
qed

text \<open>A restored snapshot is not handed to persistence, so the history on disk stays what it was; the session rewinds a
  cancelled turn in this way, and a later start brings the rewound turn back.\<close>

lemma restored_snapshot_stays_off_disk:
  "handle_command E (RestoreSnapshot snap) a = Some (r, a')
   \<Longrightarrow> conversation_of a' = sn_conversation snap \<and> ac_persisted a' = ac_persisted a"
  by (auto simp: handle_command_def is_query_def handle_mutation_def restore_snapshot_def Let_def
      rebase_turn_capture_offset_def split: Option.bind_splits)

text \<open>A compaction leaves fewer user items than turns were counted. The threshold is then not raised for the items
  the session puts in, and a result is cleared although no user message came after it.\<close>

lemma compacted_session_clears_early:
  "let items = [user ''q'', assistant_tool_calls [call ''c1'' ''read_file''], tool_result ''c1'' ''fn main'',
                system_reminder ''a'', system_reminder ''b'', system_reminder ''c'']
   in map_option (\<lambda>(n, a'). conversation_of a' ! 2)
        (prune_retained_conversation some_env (actor_with (default_pruning\<lparr>pc_hard_clear_age_turns := 2\<rparr>) 9 items))
      = Some (tool_result ''c1'' HARD_CLEAR_PLACEHOLDER)"
  by (simp add: example_defs prune_retained_conversation_def batched_mode_def effective_threshold_def saturating_defs
      U64_MAX_def content_bytes_def is_hard_cleared_def HARD_CLEAR_PREFIX_def hard_clear_replacement_def
      pointer_preserving_replacement_def OUTPUT_POINTER_MARKER_def replace_history_def)

text \<open>The copy of a request is hard-cleared on top of the batched mode, whose guidance where to find the full output
  is lost with it.\<close>

lemma batched_guidance_overwritten:
  assumes "is_batch_cleared (ti_content t)" "pc_keep_last_n_turns config \<le> turn" "pc_hard_clear_age_turns config \<le> turn"
    "\<not> exempt (ti_tool_call_id t)"
  shows "ti_content (prune_result config exempt turn t) = hard_clear_replacement (ti_content t)"
proof -
  have "\<not> is_hard_cleared (ti_content t)"
    using assms(1) unfolding is_batch_cleared_def is_hard_cleared_def
    by (auto simp: BATCH_CLEAR_PREFIX_def HARD_CLEAR_PREFIX_def elim!: starts_withE)
  then show ?thesis using assms by (auto simp: prune_result_def)
qed

text \<open>The images of tool results count toward the size of the body but are not evicted: when they alone exceed the
  target, every image of the user goes, and the body is still too large.\<close>

lemma tool_images_cost_user_images:
  assumes "target < running - sum_list (map image_part_bytes urls)"
  shows "evict_parts target p running n (map ImagePart urls)
       = (map (\<lambda>url. TextPart IMAGE_COMPACT_PLACEHOLDER) urls,
          running - sum_list (map (\<lambda>url. image_part_bytes url - p) urls), n + length urls)"
  using assms
proof (induction urls arbitrary: running n)
  case (Cons url urls)
  have "target < running - (image_part_bytes url - p) - sum_list (map image_part_bytes urls)" using Cons.prems by simp
  then show ?case using Cons.IH[of "running - (image_part_bytes url - p)" "n + 1"] Cons.prems by simp
qed simp

text \<open>A user message that starts with an image does not end the search for the first user text.\<close>

lemma first_user_text_scans_on:
  "get_first_user_text [User \<lparr>ui_content = [ImagePart ''data:'', TextPart ''what is this''], ui_synthetic_reason = None,
                             ui_prior_turn_interrupt = None, ui_prompt_index = None\<rparr>, user ''second''] = Some ''second''"
  by (simp add: get_first_user_text_def find_map_def user_def)

end
