(* ===== verification/Spec2Isabelle.thy ===== *)
theory Spec2Isabelle
  imports Permission_Handle Breaker_Threads Patch_Tool_Props Search_Replace_Props Local_Files Config_Props
    Permission_Sources_Props Folder_Trust_Props Compaction_Engine_Props Chat_Requests
begin

section \<open>The verified parts of the coding agent\<close>

text \<open>
  The development models the parts of the agent that decide, protect or edit on their own, from the Rust
  sources under \<open>src/crates\<close>: where the policy comes from (the layered configuration, \<open>codegen/cf-config\<close>,
  the sources of permissions and the trust in folders, \<open>codegen/cf-workspace\<close>), the permission system that
  enforces it (\<open>codegen/cf-workspace/src/permission\<close>), the circuit breaker in front of the agent's HTTP calls
  (\<open>common/cf-circuit-breaker\<close>), the two tools that edit files (\<open>codegen/cf-tools\<close>), and the state of a
  conversation, its repair, pruning and compaction (\<open>codegen/cf-chat-state\<close>, over the items of
  \<open>codegen/cf-sampling-types\<close>, and the engine in \<open>common/cf-compaction\<close>). Every definition that
  models code is executable or an inductive step relation, is named after the function it models, and takes
  the code outside the repository as an argument.

  \<^bold>\<open>Configuration.\<close> Toml has the values of the TOML crate and their merging; Config_Host the record \<open>host\<close> of
  what the configuration code sees of the machine, and the locations and readers of files (\<open>paths.rs\<close>,
  \<open>loader.rs\<close>); Config_Layers the version overrides, campaigns and requirements of one layer
  (\<open>version_overrides.rs\<close>, \<open>campaigns.rs\<close>, \<open>validation.rs\<close>); Config_Merge the layers and the effective
  configuration (\<open>loader.rs\<close>). Config_Props proves that what the administrator requires survives every layer
  and campaign, that loading and merging keep the type of a configuration, what version overrides do, and
  what start-up validation guarantees.

  \<^bold>\<open>Sources of the policy.\<close> Claude_Settings reads the settings files of a user and a project
  (\<open>claude_settings.rs\<close>); Mcp_Policy and Permission_Sources are \<open>resolution.rs\<close>: the lists of servers and
  marketplaces, and the collection of rules from requirements, managed settings, configuration and settings
  into the policy the permission system compiles. Permission_Documents says, apart from the loaders, which
  documents are consulted and which rules are written in them. Permission_Sources_Props composes all of them
  with the policy: a restriction that is readable in any consulted document binds, and under the administrator's
  pin every blanket allowance left is one the administrator wrote.

  \<^bold>\<open>Folder trust.\<close> Folder_Trust is the store of trusted folders (\<open>trust.rs\<close>), the scan for repository
  configuration and the verdict (\<open>folder_trust.rs\<close>, \<open>project_config.rs\<close>, \<open>cf-agent/src/repo.rs\<close>).
  Folder_Trust_Props proves that the nearest decision decides, that decisions of several processes
  accumulate, for a printer and reader of the store of which Trust_Text holds one, with its round trip, and, composing the scan with Claude_Settings and Config_Layers, that a folder with nothing to
  gate injects nothing.

  \<^bold>\<open>Permission system.\<close> A tool call becomes an access (\<open>types.rs\<close>, theory Permission_Types). The manager's
  actor (\<open>manager.rs\<close>) answers each request in stages: the compiled policy (\<open>policy.rs\<close>: Policy, over the rule
  syntax of \<open>rules.rs\<close>: Permission_Rules), for a shell command also the per-segment command gate, over the
  splitter of \<open>bash_command_splitting.rs\<close> (Bash_Splitting), and the file-access gate of \<open>shell_access.rs\<close>
  (Shell_Access); then YOLO mode, the session's grants, auto mode with its classifier (\<open>auto_mode.rs\<close>:
  Auto_Mode), the sandbox, the policy's allow, the pre-decisions (Bash_Grants, and Domain_Matcher for web
  fetches), the prompt policy, and at last the user (\<open>prompter.rs\<close> and \<open>hub_permission.rs\<close>: Prompter). What is
  remembered goes into the state that is persisted (\<open>state.rs\<close>, \<open>yolo.rs\<close>, \<open>evolution_gate.rs\<close>: Perm_State).
  Permission_Manager composes the stages as the code does, Manager_Requests proves what a request can and
  cannot do, and Permission_Handle puts the actor beside the handles: each handle call is a sequence of
  atomic steps (a store to a shared flag, a send on the channel) that interleave with other calls and with
  the turns of the actor, as an inductive step relation with its reachable states. The locale
  \<open>published_mode\<close> states what a mode's flag and commands must satisfy for the flag to follow the actor, and
  is interpreted for both modes.

  \<^bold>\<open>Circuit breaker.\<close> Circuit_Breaker holds the sliding window (\<open>window.rs\<close>), the configurations, the registry,
  the retry policies and the breaker itself (\<open>breaker.rs\<close>) as programs of atomic loads, stores and
  read-modify-writes. Breaker_Sequential runs the programs one after another and proves that they implement
  a three-phase specification (closed, open until an instant, half-open with its probes) and that a breaker
  recovers; Breaker_Threads interleaves them.

  \<^bold>\<open>Apply-patch tool.\<close> Patch_Parser is \<open>parser.rs\<close>, Patch_Apply is \<open>seek_sequence.rs\<close> and \<open>apply.rs\<close>, Patch_Tool is
  \<open>tool.rs\<close>. Patch_Format holds a printer of patches, the specification of the format, and the round trip;
  Patch_Apply_Props the meaning of the line search and of the replacements; Patch_Tool_Props the reference
  semantics of a patch as a list of writes and the proof that the tool carries it out, under the contract
  \<open>lawful_files\<close> of a file system.

  \<^bold>\<open>Search-replace tool.\<close> Confusables is \<open>unicode_confusables.rs\<close>, with the map of offsets from the normalised
  text back to the original; Edit_Hints the hints of a failed edit; Search_Replace the tool itself
  (\<open>search_replace/mod.rs\<close>, \<open>helpers.rs\<close> and the legacy wording); Search_Replace_Props proves that an edit
  replaces exactly the matches and leaves the rest of the decoded text, and that every other answer leaves the
  file alone.

  \<^bold>\<open>File systems.\<close> File_System has the interface of the tools, \<open>MockFs\<close> and \<open>LocalFs\<close>
  (\<open>cf-tools/src/computer\<close>), and the contract \<open>lawful_files\<close> the editing tools rely on, in which several paths
  may denote one file. It is interpreted on \<open>MockFs\<close>, whose keys are the components of paths, and Local_Files
  proves it of \<open>LocalFs\<close> on every operating system whose calls do what they are documented to do, for one of
  which it is interpreted. Local_Files also proves the confinement of \<open>LocalFs\<close> to its root and the bound on its
  retries.

  \<^bold>\<open>Conversations.\<close> Conversation has the items, their text, the repair of tool calls without a result and the cut
  of a rewind (\<open>conversation.rs\<close>); Token_Estimates and Item_Estimates what they cost, with the floating-point
  arithmetic the code uses written out at 64 bits (\<open>cf-token-estimation\<close>, \<open>actor/state.rs\<close>); History_Repair the
  repair of a history and the check of a compacted one. Compaction and Summary_Format prepare a conversation
  for the summariser, clean the summary and build the compacted history (\<open>compaction_utils.rs\<close>);
  Compaction_Props proves that every conversation on the way keeps its pairs of call and result, the budget,
  and what compaction preserves.

  \<^bold>\<open>Compaction engine.\<close> The crate that summarises the conversations of any product. Compaction_Engine has its items
  (\<open>item.rs\<close>: two traits, here records of functions, with their implementation for the items of a
  conversation), the selection of what is summarised (\<open>select.rs\<close>), the classification of failures, the loop of
  attempts, the prompts and the full replacement of a history (\<open>code_compaction\<close>); Compaction_History the filters, the
  queries carried from summary to summary (\<open>history\<close>) and the pipeline in chunks (\<open>inter_compaction\<close>). The
  model is an argument, a function of its own state. Compaction_Engine_Props proves that a selection cuts between
  pairs, through the locale \<open>cut_invariant\<close> of what a cut preserves, that the chunks are the history, that the
  attempts are bounded and accounted for, that queries survive compactions, and that the engine's assembler is the
  one of the chat state.

  \<^bold>\<open>Chat state.\<close> The actor that owns a conversation: Usage_Ledger its bills (\<open>usage.rs\<close>), Tool_Pruning what is cut
  out of old turns and requests (\<open>request_builder.rs\<close>), Chat_State its state and the queries on it
  (\<open>actor/state.rs\<close>, \<open>types.rs\<close>, \<open>actor/queries.rs\<close>), Chat_Actor the operations (\<open>actor/mutations.rs\<close>), Chat_Commands
  the commands and the loop (\<open>commands.rs\<close>, \<open>actor/mod.rs\<close>). What the actor hands to persistence and what it
  announces are lists in its state. The locale \<open>preserved\<close> states that a property of the actor is kept by each
  command, and gives it for every run; it is interpreted for the offset of the running turn
  (Chat_Actor_Props: the capture of a turn is complete, no handler panics), for the history on disk and for
  the bills (Chat_History). Chat_Requests proves what requests, pruning and compaction do to a conversation.

  \<^bold>\<open>Shared.\<close> Prelude has strings (lists of bytes, as the Rust strings are UTF-8), the string operations of the
  standard library, and the lemmas on them; Decisions the combination of policy decisions; Externals the
  interfaces of code that is not in the repository; Example_Scripts the syntax trees the witnesses evaluate.
\<close>

text \<open>
  \<^bold>\<open>What the lemmas show.\<close> Safety of a request: a policy denial and an ask of a shell gate bind whatever the modes
  and grants, the classifier's ask reaches the user, a request changes nothing but what its prompt was
  about; a restriction read from a document is not lost on the way to the policy. Invariants over all interleavings: the modes are exclusive and pinned, the flags follow the actor,
  a gated session never grows. Functional behaviour of the policy, the
  gates, the classifier, the prompts and the matcher, with their failures closed; round trips of rules, of
  the persisted state, of patches and of trust decisions; refinement of the breaker's phases, of a
  patch's writes, and of the conversation by the history on disk. For conversations: repair, compaction and
  requests pair every call with its result; the capture of a turn, the bills and the file stay exact over
  every sequence of commands. Where the code does something its documentation or its tests exclude, a lemma states the
  behaviour, most often on a concrete input.

  \<^bold>\<open>Bounds.\<close> The recursions that the code bounds keep its bounds: eight wrapper commands are peeled, nested
  \<open>-c\<close> scripts are followed to depth eight, symbolic links to depth 41, the breaker's window holds at most
  10000 samples, milliseconds and the probe counter are 64-bit words. Other loops consume their input and
  are proved to terminate; no definition uses fuel of its own.

  \<^bold>\<open>Assumptions.\<close> The record \<open>externals\<close> stands for the glob, URL, JSON and tree-sitter libraries and for the
  operating system's view of paths, the record \<open>host\<close> for the environment, the files, git, the TOML parser,
  semantic versions and base64, the record \<open>os\<close> for the calls of the local file system, the record \<open>chat_env\<close> for the sizes of values in JSON
  and the hashes of the standard library; nothing is assumed of
  them unless a theorem names it. Paths of the configuration are lists of components, as Rust compares them,
  on Linux; the other path code works on strings. The lock of the trust store makes one decision atomic. The atomics of the
  breaker and of the handles are sequentially consistent here; the code orders them with acquire and release.
  The actor's queue is unbounded and loses nothing, as documented for tokio's channel. A panic is \<open>None\<close>, and
  is shown not to happen where it is modelled; arithmetic wraps as in a release build, and the debug assertions of
  the chat state are evaluated beside its handlers (\<open>run_asserting\<close>).

  \<^bold>\<open>Not modelled.\<close> The hub's transport, display names, telemetry and logging around the permission system; the
  typed settings, the managed cache and its signed policy, and the locations on macOS and Windows; the
  reading of the breaker's knobs from the environment and its observers; the wire formats of models, the
  sampler, the queue of prompts, the passes of the compaction engine between the steps of a turn and the session's
  ladder of inputs around it, segments of transcripts on disk and the extraction of reasoning summaries;
  the terminal UI, the agent loop, the
  other tools, the sandbox and the wire protocols, which are input and output around these parts or larger
  than this development.
\<close>

end
